(* ===== verification/GoStd.thy ===== *)
theory GoStd
  imports Prelude "HOL-Library.Sublist" "HOL-Library.Char_ord" "HOL-Library.List_Lexorder"
begin

text \<open>
  The parts of the Go language and standard library the components use: 64-bit integers,
  \<^verbatim>\<open>time.Time\<close> and \<^verbatim>\<open>time.Duration\<close>, the \<^verbatim>\<open>strings\<close>, \<^verbatim>\<open>strconv\<close> and \<^verbatim>\<open>path\<close> functions.
  A Go string is its list of bytes, so multi-byte runes are several characters.  Functions
  that need Unicode case tables take the non-ASCII part as a parameter.
\<close>

section \<open>Integers and time\<close>

definition max_int64 :: int where
  "max_int64 = 2 ^ 63 - 1"

definition min_int64 :: int where
  "min_int64 = - (2 ^ 63)"

text \<open>Two's complement wrap-around of an \<^verbatim>\<open>int64\<close> result.\<close>

definition wrap64 :: "int \<Rightarrow> int" where
  "wrap64 x = (x + 2 ^ 63) mod 2 ^ 64 - 2 ^ 63"

lemma wrap64_id: "min_int64 \<le> x \<Longrightarrow> x \<le> max_int64 \<Longrightarrow> wrap64 x = x"
  by (simp add: wrap64_def min_int64_def max_int64_def)

lemma wrap64_range: "min_int64 \<le> wrap64 x" "wrap64 x \<le> max_int64"
proof -
  have "0 \<le> (x + 2 ^ 63) mod 2 ^ 64" "(x + 2 ^ 63) mod 2 ^ 64 < 2 ^ 64"
    by (rule pos_mod_sign, simp) (rule pos_mod_bound, simp)
  then show "min_int64 \<le> wrap64 x" "wrap64 x \<le> max_int64"
    by (simp_all add: wrap64_def min_int64_def max_int64_def)
qed

lemma wrap64_over:
  assumes "max_int64 < x" "x < 2 ^ 64 + 2 ^ 63" shows "wrap64 x = x - 2 ^ 64"
proof -
  have "(x + 2 ^ 63) mod 2 ^ 64 = (x - 2 ^ 63 + 2 ^ 64) mod 2 ^ 64" by (simp add: algebra_simps)
  also have "\<dots> = (x - 2 ^ 63) mod 2 ^ 64" by (rule mod_add_self2)
  also have "\<dots> = x - 2 ^ 63" by (rule mod_pos_pos_trivial) (use assms in \<open>auto simp: max_int64_def\<close>)
  finally show ?thesis by (simp add: wrap64_def)
qed

lemma wrap64_under:
  assumes "x < min_int64" "- (2 ^ 64) - 2 ^ 63 \<le> x" shows "wrap64 x = x + 2 ^ 64"
proof -
  have "(x + 2 ^ 63) mod 2 ^ 64 = (x + 2 ^ 63 + 2 ^ 64) mod 2 ^ 64" by (rule mod_add_self2 [symmetric])
  also have "\<dots> = x + 2 ^ 63 + 2 ^ 64" by (rule mod_pos_pos_trivial) (use assms in \<open>auto simp: min_int64_def\<close>)
  finally show ?thesis by (simp add: wrap64_def)
qed

text \<open>
  A \<^verbatim>\<open>time.Time\<close> is the number of nanoseconds since the zero time, so \<^verbatim>\<open>IsZero\<close> is being 0.
  A \<^verbatim>\<open>time.Duration\<close> is an \<^verbatim>\<open>int64\<close> number of nanoseconds; \<^verbatim>\<open>Sub\<close> saturates.
\<close>

type_synonym gtime = int
type_synonym duration = int

abbreviation second :: duration where
  "second \<equiv> 1000000000"

abbreviation minute :: duration where
  "minute \<equiv> 60 * second"

abbreviation hour :: duration where
  "hour \<equiv> 60 * minute"

definition time_is_zero :: "gtime \<Rightarrow> bool" where
  "time_is_zero t \<longleftrightarrow> t = 0"

definition time_sub :: "gtime \<Rightarrow> gtime \<Rightarrow> duration" where
  "time_sub a b = max min_int64 (min max_int64 (a - b))"

definition time_add :: "gtime \<Rightarrow> duration \<Rightarrow> gtime" where
  "time_add t d = t + d"

lemma time_sub_less_iff:
  "min_int64 < d \<Longrightarrow> d \<le> max_int64 \<Longrightarrow> time_sub a b < d \<longleftrightarrow> a - b < d"
  by (auto simp: time_sub_def)

lemma time_sub_greater_iff:
  "min_int64 \<le> d \<Longrightarrow> d < max_int64 \<Longrightarrow> d < time_sub a b \<longleftrightarrow> d < a - b"
  by (auto simp: time_sub_def)

section \<open>Strings\<close>

definition ascii :: "char \<Rightarrow> bool" where
  "ascii c \<longleftrightarrow> of_char c < (128 :: nat)"

definition lower_char :: "char \<Rightarrow> char" where
  "lower_char c =
     (let n = of_char c :: nat in if 65 \<le> n \<and> n \<le> 90 then char_of (n + 32) else c)"

definition upper_char :: "char \<Rightarrow> char" where
  "upper_char c =
     (let n = of_char c :: nat in if 97 \<le> n \<and> n \<le> 122 then char_of (n - 32) else c)"

text \<open>
  \<^verbatim>\<open>strings.ToLower\<close>: ASCII strings byte by byte; for the others the Unicode mapping
  \<open>ul\<close> is a parameter.
\<close>

definition to_lower :: "(string \<Rightarrow> string) \<Rightarrow> string \<Rightarrow> string" where
  "to_lower ul s = (if list_all ascii s then map lower_char s else ul s)"

definition to_upper :: "(string \<Rightarrow> string) \<Rightarrow> string \<Rightarrow> string" where
  "to_upper uu s = (if list_all ascii s then map upper_char s else uu s)"

definition has_prefix :: "string \<Rightarrow> string \<Rightarrow> bool" where
  "has_prefix s p \<longleftrightarrow> take (length p) s = p"

definition has_suffix :: "string \<Rightarrow> string \<Rightarrow> bool" where
  "has_suffix s p \<longleftrightarrow> length p \<le> length s \<and> drop (length s - length p) s = p"

fun contains :: "string \<Rightarrow> string \<Rightarrow> bool" where
  "contains [] p = (p = [])"
| "contains (c # s) p = (has_prefix (c # s) p \<or> contains s p)"

lemma has_prefix_iff: "has_prefix s p \<longleftrightarrow> (\<exists>t. s = p @ t)"
  unfolding has_prefix_def by (metis append_eq_conv_conj append_take_drop_id)

lemma has_suffix_iff: "has_suffix s p \<longleftrightarrow> (\<exists>t. s = t @ p)"
proof
  assume "has_suffix s p"
  then show "\<exists>t. s = t @ p"
    unfolding has_suffix_def by (metis append_take_drop_id)
next
  assume "\<exists>t. s = t @ p"
  then show "has_suffix s p" by (auto simp: has_suffix_def)
qed

lemma contains_iff: "contains s p \<longleftrightarrow> (\<exists>a b. s = a @ p @ b)"
proof (induction s)
  case Nil
  show ?case by auto
next
  case (Cons c s)
  show ?case
  proof
    assume "contains (c # s) p"
    then consider "has_prefix (c # s) p" | "contains s p" by auto
    then show "\<exists>a b. c # s = a @ p @ b"
    proof cases
      case 1
      then obtain t where "c # s = p @ t" by (auto simp: has_prefix_iff)
      then have "c # s = [] @ p @ t" by simp
      then show ?thesis by blast
    next
      case 2
      then obtain a b where "s = a @ p @ b" using Cons.IH by blast
      then have "c # s = (c # a) @ p @ b" by simp
      then show ?thesis by blast
    qed
  next
    assume "\<exists>a b. c # s = a @ p @ b"
    then obtain a b where ab: "c # s = a @ p @ b" by blast
    show "contains (c # s) p"
    proof (cases a)
      case Nil
      with ab have "c # s = p @ b" by simp
      then have "has_prefix (c # s) p" unfolding has_prefix_iff by blast
      then show ?thesis by simp
    next
      case (Cons d a')
      with ab have "s = a' @ p @ b" by simp
      then show ?thesis using Cons.IH by auto
    qed
  qed
qed

lemma has_prefix_append [simp]: "has_prefix (p @ s) p"
  by (simp add: has_prefix_def)

lemma has_suffix_append [simp]: "has_suffix (s @ p) p"
  by (simp add: has_suffix_def)

lemma contains_append: "contains (a @ p @ b) p"
  by (auto simp: contains_iff)

lemma has_prefix_Nil [simp]: "has_prefix s []"
  by (simp add: has_prefix_def)

subsection \<open>White space\<close>

text \<open>
  The UTF-8 encodings of the runes \<^verbatim>\<open>unicode.IsSpace\<close> accepts.  Every encoding starts with a
  byte that is not a continuation byte, so matching encodings at either end of a string is
  decoding its first or last rune.
\<close>

definition space_runes :: "string list" where
  "space_runes =
     [[CHR 0x09], [CHR 0x0A], [CHR 0x0B], [CHR 0x0C], [CHR 0x0D], [CHR 0x20],
      [CHR 0xC2, CHR 0x85], [CHR 0xC2, CHR 0xA0], [CHR 0xE1, CHR 0x9A, CHR 0x80]]
     @ map (\<lambda>n. [CHR 0xE2, CHR 0x80, char_of (128 + n)]) [0 :: nat, 1, 2, 3, 4, 5, 6, 7, 8, 9, 10]
     @ [[CHR 0xE2, CHR 0x80, CHR 0xA8], [CHR 0xE2, CHR 0x80, CHR 0xA9],
        [CHR 0xE2, CHR 0x80, CHR 0xAF], [CHR 0xE2, CHR 0x81, CHR 0x9F],
        [CHR 0xE3, CHR 0x80, CHR 0x80]]"

text \<open>The length of the first of \<open>encs\<close> that starts \<open>s\<close>, 0 if there is none.\<close>

fun match_len :: "string list \<Rightarrow> string \<Rightarrow> nat" where
  "match_len [] s = 0"
| "match_len (e # es) s = (if has_prefix s e then length e else match_len es s)"

function strip_front :: "string list \<Rightarrow> string \<Rightarrow> string" where
  "strip_front encs s =
     (if s = [] \<or> match_len encs s = 0 then s else strip_front encs (drop (match_len encs s) s))"
  by pat_completeness auto
termination
  by (relation "measure (\<lambda>(encs, s). length s)") auto

declare strip_front.simps [simp del]

definition trim_left :: "string \<Rightarrow> string" where
  "trim_left s = strip_front space_runes s"

definition trim_right :: "string \<Rightarrow> string" where
  "trim_right s = rev (strip_front (map rev space_runes) (rev s))"

definition trim_space :: "string \<Rightarrow> string" where
  "trim_space s = trim_right (trim_left s)"

lemma strip_front_Nil [simp]: "strip_front encs [] = []"
  by (simp add: strip_front.simps)

lemma strip_front_suffix: "\<exists>p. s = p @ strip_front encs s"
proof (induction encs s rule: strip_front.induct)
  case (1 encs s)
  show ?case
  proof (cases "s = [] \<or> match_len encs s = 0")
    case True
    then show ?thesis by (simp add: strip_front.simps [of encs s])
  next
    case False
    with 1 have "\<exists>p. drop (match_len encs s) s = p @ strip_front encs (drop (match_len encs s) s)"
      by blast
    then obtain p where p: "drop (match_len encs s) s = p @ strip_front encs (drop (match_len encs s) s)"
      by (elim exE)
    have "s = take (match_len encs s) s @ drop (match_len encs s) s" by simp
    also have "\<dots> = (take (match_len encs s) s @ p) @ strip_front encs s"
      using False p by (simp add: strip_front.simps [of encs s])
    finally show ?thesis by blast
  qed
qed

lemma strip_front_stuck: "strip_front encs s \<noteq> [] \<Longrightarrow> match_len encs (strip_front encs s) = 0"
proof (induction encs s rule: strip_front.induct)
  case (1 encs s)
  then show ?case
    by (cases "s = [] \<or> match_len encs s = 0") (auto simp: strip_front.simps [of encs s])
qed

lemma strip_front_idem: "strip_front encs (strip_front encs s) = strip_front encs s"
  by (subst strip_front.simps) (use strip_front_stuck in auto)

lemma trim_space_Nil [simp]: "trim_space [] = []"
  by (simp add: trim_space_def trim_left_def trim_right_def)

lemma length_strip_front: "length (strip_front encs s) \<le> length s"
  by (metis strip_front_suffix length_append le_add2)

lemma length_trim_space: "length (trim_space s) \<le> length s"
  unfolding trim_space_def trim_right_def trim_left_def
  by (metis length_rev length_strip_front order_trans)

lemma trim_space_infix: "\<exists>a b. s = a @ trim_space s @ b"
proof -
  obtain a where a: "s = a @ trim_left s"
    unfolding trim_left_def using strip_front_suffix by blast
  obtain b where "rev (trim_left s) = b @ strip_front (map rev space_runes) (rev (trim_left s))"
    using strip_front_suffix by blast
  then have "trim_left s = trim_space s @ rev b"
    unfolding trim_space_def trim_right_def by (metis rev_append rev_rev_ident)
  with a show ?thesis by (metis append_assoc)
qed

subsection \<open>Splitting and joining\<close>

text \<open>\<^verbatim>\<open>strings.Split(s, sep)\<close> for a one-byte separator: never empty.\<close>

fun split_byte :: "char \<Rightarrow> string \<Rightarrow> string list" where
  "split_byte d [] = [[]]"
| "split_byte d (c # s) =
     (if c = d then [] # split_byte d s
      else (case split_byte d s of [] \<Rightarrow> [[c]] | p # ps \<Rightarrow> (c # p) # ps))"

fun join_with :: "string \<Rightarrow> string list \<Rightarrow> string" where
  "join_with sep [] = []"
| "join_with sep [p] = p"
| "join_with sep (p # q # ps) = p @ sep @ join_with sep (q # ps)"

lemma split_byte_nonempty [simp]: "split_byte d s \<noteq> []"
  by (induction s) (auto split: list.split)

lemma join_split: "join_with [d] (split_byte d s) = s"
proof (induction s)
  case Nil
  show ?case by simp
next
  case (Cons c s)
  obtain p ps where ps: "split_byte d s = p # ps"
    by (metis neq_Nil_conv split_byte_nonempty)
  then show ?case using Cons.IH by (cases ps) auto
qed

lemma split_byte_no_sep: "d \<notin> set p \<Longrightarrow> split_byte d p = [p]"
  by (induction p) auto

lemma split_byte_append: "d \<notin> set p \<Longrightarrow> split_byte d (p @ d # s) = p # split_byte d s"
  by (induction p) auto

lemma split_join:
  "ps \<noteq> [] \<Longrightarrow> (\<forall>p \<in> set ps. d \<notin> set p) \<Longrightarrow> split_byte d (join_with [d] ps) = ps"
proof (induction ps rule: induct_list012)
  case (3 p q ps)
  then show ?case by (simp add: split_byte_append)
qed (auto simp: split_byte_no_sep)

lemma split_byte_parts: "p \<in> set (split_byte d s) \<Longrightarrow> d \<notin> set p"
proof (induction s arbitrary: p)
  case Nil
  then show ?case by simp
next
  case (Cons c s)
  obtain q qs where qs: "split_byte d s = q # qs"
    by (metis neq_Nil_conv split_byte_nonempty)
  then show ?case using Cons by (auto split: if_splits)
qed

text \<open>\<^verbatim>\<open>before, _, ok := strings.Cut(s, sep)\<close> for a one-byte separator: \<open>before\<close> when found.\<close>

definition cut_before :: "char \<Rightarrow> string \<Rightarrow> string" where
  "cut_before d s = takeWhile (\<lambda>c. c \<noteq> d) s"

text \<open>\<^verbatim>\<open>strings.TrimPrefix\<close>.\<close>

definition trim_prefix :: "string \<Rightarrow> string \<Rightarrow> string" where
  "trim_prefix s p = (if has_prefix s p then drop (length p) s else s)"

text \<open>\<^verbatim>\<open>strings.Fields\<close>: the maximal runs of non-space runes; \<open>cur\<close> is the open run, reversed.\<close>

function fields_acc :: "string \<Rightarrow> string \<Rightarrow> string list" where
  "fields_acc cur [] = (if cur = [] then [] else [rev cur])"
| "fields_acc cur (c # s) =
     (let n = match_len space_runes (c # s) in
      if n = 0 then fields_acc (c # cur) s
      else (if cur = [] then [] else [rev cur]) @ fields_acc [] (drop n (c # s)))"
  by pat_completeness auto
termination
  by (relation "measure (\<lambda>(cur, s). length s)") auto

definition fields :: "string \<Rightarrow> string list" where
  "fields s = fields_acc [] s"

lemma fields_acc_nonempty: "p \<in> set (fields_acc cur s) \<Longrightarrow> p \<noteq> []"
  by (induction cur s rule: fields_acc.induct) (auto simp: Let_def split: if_splits)

lemma fields_nonempty: "p \<in> set (fields s) \<Longrightarrow> p \<noteq> []"
  unfolding fields_def by (rule fields_acc_nonempty)

subsection \<open>Decimal numbers\<close>

definition digit_val :: "char \<Rightarrow> nat option" where
  "digit_val c = (let n = of_char c :: nat in if 48 \<le> n \<and> n \<le> 57 then Some (n - 48) else None)"

fun digits_val :: "nat \<Rightarrow> string \<Rightarrow> nat option" where
  "digits_val acc [] = Some acc"
| "digits_val acc (c # s) =
     (case digit_val c of None \<Rightarrow> None | Some d \<Rightarrow> digits_val (10 * acc + d) s)"

text \<open>
  \<^verbatim>\<open>strconv.Atoi\<close>: an optional sign, at least one decimal digit, a value in the range of
  \<^verbatim>\<open>int64\<close>; every other input is an error.
\<close>

definition atoi :: "string \<Rightarrow> int option" where
  "atoi s =
     (let (neg, ds) = (case s of [] \<Rightarrow> (False, [])
                       | c # t \<Rightarrow> if c = CHR ''-'' then (True, t)
                                else if c = CHR ''+'' then (False, t) else (False, s))
      in if ds = [] then None
         else (case digits_val 0 ds of
                 None \<Rightarrow> None
               | Some n \<Rightarrow> (let v = (if neg then - int n else int n)
                           in if min_int64 \<le> v \<and> v \<le> max_int64 then Some v else None)))"

text \<open>\<^verbatim>\<open>strconv.Itoa\<close>.\<close>

definition digit_char :: "nat \<Rightarrow> char" where
  "digit_char d = char_of (48 + d)"

fun nat_digits :: "nat \<Rightarrow> string" where
  "nat_digits n = (if n < 10 then [digit_char n] else nat_digits (n div 10) @ [digit_char (n mod 10)])"

declare nat_digits.simps [simp del]

definition itoa :: "int \<Rightarrow> string" where
  "itoa v = (if v < 0 then CHR ''-'' # nat_digits (nat (- v)) else nat_digits (nat v))"

lemma digit_val_char: "d < 10 \<Longrightarrow> digit_val (digit_char d) = Some d"
  by (simp add: digit_val_def digit_char_def)

lemma digit_char_not_sign: "d < 10 \<Longrightarrow> digit_char d \<noteq> CHR ''-'' \<and> digit_char d \<noteq> CHR ''+''"
proof -
  assume d: "d < 10"
  have "of_char (digit_char d) = (48 + d :: nat)" using d by (simp add: digit_char_def)
  moreover have "of_char (CHR ''-'') = (45 :: nat)" "of_char (CHR ''+'') = (43 :: nat)" by simp_all
  ultimately have "of_char (digit_char d) \<noteq> (of_char (CHR ''-'') :: nat)"
    "of_char (digit_char d) \<noteq> (of_char (CHR ''+'') :: nat)" by linarith+
  then show ?thesis by auto
qed

lemma digits_val_append:
  "digits_val acc (s @ t) = (case digits_val acc s of None \<Rightarrow> None | Some n \<Rightarrow> digits_val n t)"
  by (induction s arbitrary: acc) (auto split: option.split)

lemma nat_digits_nonempty [simp]: "nat_digits n \<noteq> []"
  by (subst nat_digits.simps) simp

lemma digits_val_nat_digits: "digits_val 0 (nat_digits n) = Some n"
proof (induction n rule: nat_digits.induct)
  case (1 n)
  show ?case
  proof (cases "n < 10")
    case True
    then show ?thesis by (subst nat_digits.simps) (simp add: digit_val_char)
  next
    case False
    with 1 have "digits_val 0 (nat_digits (n div 10)) = Some (n div 10)" by simp
    with False show ?thesis
      by (subst nat_digits.simps) (simp add: digits_val_append digit_val_char)
  qed
qed

lemma nat_digits_chars: "c \<in> set (nat_digits n) \<Longrightarrow> \<exists>d < 10. c = digit_char d"
proof (induction n rule: nat_digits.induct)
  case (1 n)
  from "1.prems" have "c \<in> set (if n < 10 then [digit_char n] else nat_digits (n div 10) @ [digit_char (n mod 10)])"
    by (simp only: nat_digits.simps [of n])
  then consider "n < 10" "c = digit_char n"
    | "\<not> n < 10" "c \<in> set (nat_digits (n div 10))" | "c = digit_char (n mod 10)"
    by (auto split: if_splits)
  then show ?case
  proof cases
    case 3
    then show ?thesis by (intro exI [of _ "n mod 10"]) simp
  qed (use "1.IH" in auto)
qed

lemma atoi_itoa:
  assumes "min_int64 \<le> v" and "v \<le> max_int64"
  shows "atoi (itoa v) = Some v"
proof (cases "v < 0")
  case True
  then show ?thesis
    using assms by (simp add: atoi_def itoa_def digits_val_nat_digits)
next
  case False
  obtain c s where cs: "nat_digits (nat v) = c # s"
    by (metis nat_digits_nonempty neq_Nil_conv)
  then have "c \<noteq> CHR ''-'' \<and> c \<noteq> CHR ''+''"
    by (metis digit_char_not_sign list.set_intros(1) nat_digits_chars)
  with cs False show ?thesis
    using assms digits_val_nat_digits [of "nat v"] by (simp add: atoi_def itoa_def)
qed

lemma atoi_range: "atoi s = Some v \<Longrightarrow> min_int64 \<le> v \<and> v \<le> max_int64"
  unfolding atoi_def Let_def by (auto split: prod.splits option.splits if_splits)

section \<open>Runes\<close>

text \<open>
  The number of bytes \<^verbatim>\<open>range\<close> over a string consumes at the front (\<^verbatim>\<open>utf8.DecodeRuneInString\<close>): an
  invalid encoding is one byte.
\<close>

definition byte_in :: "nat \<Rightarrow> nat \<Rightarrow> nat \<Rightarrow> string \<Rightarrow> bool" where
  "byte_in lo hi k s = (k < length s \<and> lo \<le> of_char (s ! k) \<and> of_char (s ! k) \<le> hi)"

definition rune_width :: "char \<Rightarrow> string \<Rightarrow> nat" where
  "rune_width c s =
     (let b = of_char c :: nat in
      if b < 128 then 1
      else if 194 \<le> b \<and> b \<le> 223 \<and> byte_in 128 191 0 s then 2
      else if 224 \<le> b \<and> b \<le> 239 \<and> byte_in (if b = 224 then 160 else 128) (if b = 237 then 159 else 191) 0 s \<and>
              byte_in 128 191 1 s then 3
      else if 240 \<le> b \<and> b \<le> 244 \<and> byte_in (if b = 240 then 144 else 128) (if b = 244 then 143 else 191) 0 s \<and>
              byte_in 128 191 1 s \<and> byte_in 128 191 2 s then 4
      else 1)"

function runes :: "string \<Rightarrow> string list" where
  "runes [] = []"
| "runes (c # s) = (c # take (rune_width c s - 1) s) # runes (drop (rune_width c s - 1) s)"
  by pat_completeness auto

termination runes
  by (relation "measure length") auto

lemma concat_runes: "concat (runes s) = s"
  by (induction s rule: runes.induct) auto

lemma runes_nonempty: "r \<in> set (runes s) \<Longrightarrow> r \<noteq> []"
  by (induction s rule: runes.induct) auto

lemma runes_ascii: "list_all ascii s \<Longrightarrow> runes s = map (\<lambda>c. [c]) s"
  by (induction s) (auto simp: rune_width_def ascii_def)

section \<open>Strings without white space\<close>

definition graphic :: "char \<Rightarrow> bool" where
  "graphic c \<longleftrightarrow> 33 \<le> (of_char c :: nat) \<and> of_char c \<le> (126 :: nat)"

lemma match_len_graphic:
  "\<forall>e \<in> set encs. e \<noteq> [] \<and> \<not> graphic (hd e) \<Longrightarrow> s = [] \<or> graphic (hd s) \<Longrightarrow> match_len encs s = 0"
proof (induction encs)
  case (Cons e es)
  then have "\<not> has_prefix s e"
    by (cases e; cases s) (auto simp: has_prefix_def)
  then show ?case using Cons by simp
qed simp

lemma space_runes_not_graphic:
  "\<forall>e \<in> set space_runes. e \<noteq> [] \<and> \<not> graphic (hd e)"
  "\<forall>e \<in> set (map rev space_runes). e \<noteq> [] \<and> \<not> graphic (hd e)"
  by (simp_all add: space_runes_def graphic_def)

lemma trim_space_graphic:
  assumes "list_all graphic s"
  shows "trim_space s = s"
proof (cases s)
  case (Cons c t)
  have "match_len space_runes s = 0"
    by (rule match_len_graphic [OF space_runes_not_graphic(1)]) (use assms Cons in simp)
  then have l: "trim_left s = s" by (simp add: trim_left_def strip_front.simps)
  have "match_len (map rev space_runes) (rev s) = 0"
    by (rule match_len_graphic [OF space_runes_not_graphic(2)])
       (use assms Cons in \<open>metis hd_in_set list_all_iff set_rev\<close>)
  then show ?thesis by (simp add: trim_space_def l trim_right_def strip_front.simps)
qed simp

lemma fields_acc_graphic:
  "list_all graphic s \<Longrightarrow> fields_acc cur s = (if cur = [] \<and> s = [] then [] else [rev cur @ s])"
proof (induction s arbitrary: cur)
  case (Cons c s)
  have "match_len space_runes (c # s) = 0"
    by (rule match_len_graphic [OF space_runes_not_graphic(1)]) (use Cons in simp)
  then show ?case using Cons by simp
qed simp

lemma fields_graphic: "list_all graphic s \<Longrightarrow> s \<noteq> [] \<Longrightarrow> fields s = [s]"
  by (simp add: fields_def fields_acc_graphic)

lemma trim_space_ends:
  assumes "s \<noteq> []" "graphic (hd s)" "graphic (last s)"
  shows "trim_space s = s"
proof -
  have "match_len space_runes s = 0" by (rule match_len_graphic [OF space_runes_not_graphic(1)]) (use assms in simp)
  then have l: "trim_left s = s" using assms(1) by (cases s) (simp_all add: trim_left_def strip_front.simps)
  obtain c t where rs: "rev s = c # t" using assms(1) by (cases "rev s") auto
  then have "graphic c" using assms(3) by (metis hd_rev list.sel(1))
  then have "match_len (map rev space_runes) (c # t) = 0"
    by (intro match_len_graphic [OF space_runes_not_graphic(2)]) simp
  then have "strip_front (map rev space_runes) (rev s) = rev s" unfolding rs by (subst strip_front.simps) simp
  then show ?thesis by (simp add: trim_space_def l trim_right_def)
qed

lemma fields_acc_blank:
  "list_all graphic s \<Longrightarrow> fields_acc cur (s @ CHR '' '' # t) = (if cur = [] \<and> s = [] then [] else [rev cur @ s]) @ fields_acc [] t"
proof (induction s arbitrary: cur)
  case Nil
  have "match_len space_runes (CHR '' '' # t) = 1" by (simp add: space_runes_def has_prefix_def)
  then show ?case by simp
next
  case (Cons c s)
  have "match_len space_runes (c # s @ CHR '' '' # t) = 0"
    by (rule match_len_graphic [OF space_runes_not_graphic(1)]) (use Cons in simp)
  then show ?case using Cons by simp
qed

lemma fields_blank: "list_all graphic s \<Longrightarrow> s \<noteq> [] \<Longrightarrow> fields (s @ CHR '' '' # t) = s # fields t"
  by (simp add: fields_def fields_acc_blank)

lemma of_char_digit_char: "d < 10 \<Longrightarrow> of_char (digit_char d) = (48 + d :: nat)"
  by (simp add: digit_char_def)

lemma itoa_code:
  assumes "0 \<le> v" and "c \<in> set (itoa v)"
  shows "48 \<le> (of_char c :: nat) \<and> of_char c \<le> (57 :: nat)"
  using assms nat_digits_chars [of c "nat v"] by (auto simp: itoa_def of_char_digit_char)

end
