(* ===== verification/AuthLimiter.thy ===== *)
theory AuthLimiter
  imports GoStd
begin

text \<open>
  The credential back-off of \<^verbatim>\<open>internal/authlimiter/limiter.go\<close>: failures are counted per
  account and per IP address; crossing the threshold imposes a back-off whose length doubles
  with every further crossing, up to a cap.  The limiter's state is the pair of maps of the
  Go struct; the clock is an argument of every operation.
\<close>

section \<open>State and operations\<close>

definition failure_threshold_default :: int where
  "failure_threshold_default = 5"

definition failure_reset :: duration where
  "failure_reset = 30 * minute"

definition backoff_base :: duration where
  "backoff_base = minute"

definition backoff_max :: duration where
  "backoff_max = 15 * minute"

record backoff_state =
  bs_failures :: int
  bs_level :: int
  bs_last_failure :: gtime
  bs_backoff_until :: gtime

type_synonym backoff_states = "string \<rightharpoonup> backoff_state"

record backoff =
  bo_threshold :: int
  bo_accounts :: backoff_states
  bo_ips :: backoff_states

record decision =
  dc_limited :: bool
  dc_dimension :: string
  dc_backoff_until :: gtime

record backoff_event =
  be_dimension :: string
  be_backoff_until :: gtime
  be_duration :: duration

definition zero_state :: backoff_state where
  "zero_state = \<lparr>bs_failures = 0, bs_level = 0, bs_last_failure = 0, bs_backoff_until = 0\<rparr>"

definition no_decision :: decision where
  "no_decision = \<lparr>dc_limited = False, dc_dimension = [], dc_backoff_until = 0\<rparr>"

definition new_backoff :: "int \<Rightarrow> backoff" where
  "new_backoff threshold =
     \<lparr>bo_threshold = (if threshold \<le> 0 then failure_threshold_default else threshold),
      bo_accounts = Map.empty, bo_ips = Map.empty\<rparr>"

text \<open>The doubling loop of \<^verbatim>\<open>backoffDuration\<close>, with its early return at the cap.\<close>

fun backoff_loop :: "nat \<Rightarrow> duration \<Rightarrow> duration" where
  "backoff_loop 0 d = d"
| "backoff_loop (Suc i) d =
     (let d2 = d * 2 in if d2 \<ge> backoff_max then backoff_max else backoff_loop i d2)"

definition backoff_duration :: "int \<Rightarrow> duration" where
  "backoff_duration level =
     (let l = (if level < 1 then 1 else level) in backoff_loop (nat (l - 1)) backoff_base)"

definition account_backoff_key :: "(string \<Rightarrow> string) \<Rightarrow> string \<Rightarrow> string" where
  "account_backoff_key ul username =
     (let u = trim_space (to_lower ul username) in if u = [] then ''<blank>'' else u)"

definition check_state ::
  "backoff_states \<Rightarrow> string \<Rightarrow> string \<Rightarrow> gtime \<Rightarrow> decision \<Rightarrow> backoff_states \<times> decision" where
  "check_state states key dimension now decision =
     (case states key of
        None \<Rightarrow> (states, decision)
      | Some st \<Rightarrow>
          if \<not> time_is_zero (bs_backoff_until st) \<and> now < bs_backoff_until st then
            (states,
             if \<not> dc_limited decision \<or> dc_backoff_until decision < bs_backoff_until st
             then \<lparr>dc_limited = True, dc_dimension = dimension, dc_backoff_until = bs_backoff_until st\<rparr>
             else decision)
          else if \<not> time_is_zero (bs_last_failure st) \<and> time_sub now (bs_last_failure st) > failure_reset
          then (states(key := None), decision)
          else (states, decision))"

definition check :: "(string \<Rightarrow> string) \<Rightarrow> backoff \<Rightarrow> string \<Rightarrow> string \<Rightarrow> gtime \<Rightarrow> backoff \<times> decision" where
  "check ul b username ip now =
     (let (accounts, d1) =
            check_state (bo_accounts b) (account_backoff_key ul username) ''account'' now no_decision;
          (ips, d2) =
            (if ip \<noteq> [] then check_state (bo_ips b) ip ''ip'' now d1 else (bo_ips b, d1))
      in (b\<lparr>bo_accounts := accounts, bo_ips := ips\<rparr>, d2))"

text \<open>
  \<^verbatim>\<open>recordFailure\<close>: the entry is created on demand, reset when its last failure is older than
  the window, counted, and on reaching the threshold moved to the next back-off level.
\<close>

definition refresh_state :: "backoff_state \<Rightarrow> gtime \<Rightarrow> backoff_state" where
  "refresh_state st now =
     (if \<not> time_is_zero (bs_last_failure st) \<and> time_sub now (bs_last_failure st) > failure_reset
      then st\<lparr>bs_failures := 0, bs_level := 0, bs_backoff_until := 0\<rparr> else st)"

definition bump_state ::
  "int \<Rightarrow> string \<Rightarrow> backoff_state \<Rightarrow> gtime \<Rightarrow> backoff_state \<times> backoff_event option" where
  "bump_state threshold dimension st0 now =
     (let st = refresh_state st0 now;
          st1 = st\<lparr>bs_failures := bs_failures st + 1, bs_last_failure := now\<rparr>
      in if bs_failures st1 < threshold then (st1, None)
         else (let level = bs_level st1 + 1; duration = backoff_duration level;
                   until = time_add now duration
               in (st1\<lparr>bs_level := level, bs_backoff_until := until, bs_failures := 0\<rparr>,
                   Some \<lparr>be_dimension = dimension, be_backoff_until = until, be_duration = duration\<rparr>)))"

definition record_failure_in ::
  "int \<Rightarrow> backoff_states \<Rightarrow> string \<Rightarrow> string \<Rightarrow> gtime \<Rightarrow> backoff_states \<times> backoff_event option" where
  "record_failure_in threshold states key dimension now =
     (let st = (case states key of None \<Rightarrow> zero_state | Some st \<Rightarrow> st);
          (st', ev) = bump_state threshold dimension st now
      in (states(key \<mapsto> st'), ev))"

definition record_failure ::
  "(string \<Rightarrow> string) \<Rightarrow> backoff \<Rightarrow> string \<Rightarrow> string \<Rightarrow> gtime \<Rightarrow> backoff \<times> backoff_event list" where
  "record_failure ul b username ip now =
     (let (accounts, e1) =
            record_failure_in (bo_threshold b) (bo_accounts b) (account_backoff_key ul username) ''account'' now;
          (ips, e2) =
            (if ip \<noteq> [] then record_failure_in (bo_threshold b) (bo_ips b) ip ''ip'' now
             else (bo_ips b, None))
      in (b\<lparr>bo_accounts := accounts, bo_ips := ips\<rparr>,
          (case e1 of None \<Rightarrow> [] | Some e \<Rightarrow> [e]) @ (case e2 of None \<Rightarrow> [] | Some e \<Rightarrow> [e])))"

definition record_success :: "(string \<Rightarrow> string) \<Rightarrow> backoff \<Rightarrow> string \<Rightarrow> backoff" where
  "record_success ul b username =
     b\<lparr>bo_accounts := (bo_accounts b)(account_backoff_key ul username := None)\<rparr>"

section \<open>The back-off length\<close>

lemma backoff_loop_closed:
  "0 < d \<Longrightarrow> d \<le> backoff_max \<Longrightarrow> backoff_loop i d = min backoff_max (d * 2 ^ i)"
proof (induction i arbitrary: d)
  case 0
  then show ?case by simp
next
  case (Suc i)
  show ?case
  proof (cases "backoff_max \<le> d * 2")
    case True
    have "d * 2 * 1 \<le> d * 2 * 2 ^ i" using Suc.prems by (intro mult_left_mono) auto
    with True have "backoff_max \<le> d * 2 ^ Suc i" by (simp add: mult.assoc)
    with True show ?thesis by (simp add: min_def)
  next
    case False
    then have "backoff_loop i (d * 2) = min backoff_max (d * 2 * 2 ^ i)"
      using Suc.prems by (intro Suc.IH) auto
    with False show ?thesis by (simp add: mult.assoc)
  qed
qed

lemma backoff_duration_closed:
  "1 \<le> level \<Longrightarrow> backoff_duration level = min backoff_max (backoff_base * 2 ^ nat (level - 1))"
  unfolding backoff_duration_def
  by (simp add: Let_def backoff_loop_closed backoff_base_def backoff_max_def)

lemma backoff_duration_bounds:
  "backoff_base \<le> backoff_duration level \<and> backoff_duration level \<le> backoff_max"
proof -
  let ?l = "if level < 1 then 1 else level"
  have "backoff_duration level = min backoff_max (backoff_base * 2 ^ nat (?l - 1))"
    unfolding backoff_duration_def
    by (simp add: Let_def backoff_loop_closed backoff_base_def backoff_max_def)
  moreover have "backoff_base * 1 \<le> backoff_base * 2 ^ nat (?l - 1)"
    by (intro mult_left_mono) (auto simp: backoff_base_def)
  ultimately show ?thesis by (auto simp: backoff_base_def backoff_max_def min_def)
qed

section \<open>What a check decides\<close>

definition blocked :: "backoff_states \<Rightarrow> string \<Rightarrow> gtime \<Rightarrow> bool" where
  "blocked states key now \<longleftrightarrow>
     (case states key of None \<Rightarrow> False
      | Some st \<Rightarrow> bs_backoff_until st \<noteq> 0 \<and> now < bs_backoff_until st)"

lemma check_state_decision:
  "dc_limited (snd (check_state states key dim now d)) \<longleftrightarrow> dc_limited d \<or> blocked states key now"
  by (auto simp: check_state_def blocked_def time_is_zero_def split: option.split)

lemma check_state_keeps_other: "k \<noteq> key \<Longrightarrow> fst (check_state states key dim now d) k = states k"
  by (auto simp: check_state_def split: option.split)

lemma check_state_only_forgets_stale:
  "fst (check_state states key dim now d) k \<noteq> states k \<Longrightarrow>
   k = key \<and> \<not> blocked states key now \<and>
   (\<exists>st. states key = Some st \<and> failure_reset < now - bs_last_failure st)"
  by (auto simp: check_state_def blocked_def time_is_zero_def time_sub_greater_iff
      failure_reset_def min_int64_def max_int64_def split: option.splits if_splits)

section \<open>Invariant over runs\<close>

text \<open>
  A run of the limiter is a list of operations, each with the time that has passed since the
  one before; the run's state pairs the clock with the limiter.
\<close>

datatype limiter_op =
    OpCheck string string nat
  | OpFailure string string nat
  | OpSuccess string nat

fun limiter_step ::
  "(string \<Rightarrow> string) \<Rightarrow> limiter_op \<Rightarrow> gtime \<times> backoff \<Rightarrow> gtime \<times> backoff" where
  "limiter_step ul (OpCheck u ip dt) (t, b) = (t + int dt, fst (check ul b u ip (t + int dt)))"
| "limiter_step ul (OpFailure u ip dt) (t, b) =
     (t + int dt, fst (record_failure ul b u ip (t + int dt)))"
| "limiter_step ul (OpSuccess u dt) (t, b) = (t + int dt, record_success ul b u)"

text \<open>
  Every entry has fewer failures than the threshold, has been touched no later than now, is
  unblocked as long as it never reached a level, and its block ends at most the cap after its
  last failure.
\<close>

definition state_inv :: "int \<Rightarrow> gtime \<Rightarrow> backoff_state \<Rightarrow> bool" where
  "state_inv threshold t st \<longleftrightarrow>
     0 \<le> bs_failures st \<and> bs_failures st < threshold \<and> 0 \<le> bs_level st \<and>
     bs_last_failure st \<le> t \<and>
     (bs_level st = 0 \<longleftrightarrow> bs_backoff_until st = 0) \<and>
     (bs_level st > 0 \<longrightarrow> bs_backoff_until st \<le> bs_last_failure st + backoff_max)"

definition states_inv :: "int \<Rightarrow> gtime \<Rightarrow> backoff_states \<Rightarrow> bool" where
  "states_inv threshold t m \<longleftrightarrow> (\<forall>k st. m k = Some st \<longrightarrow> state_inv threshold t st)"

definition limiter_inv :: "gtime \<times> backoff \<Rightarrow> bool" where
  "limiter_inv s =
     (case s of (t, b) \<Rightarrow> 0 < t \<and> 0 < bo_threshold b \<and>
        states_inv (bo_threshold b) t (bo_accounts b) \<and> states_inv (bo_threshold b) t (bo_ips b))"

lemma state_inv_later: "state_inv th t st \<Longrightarrow> t \<le> t' \<Longrightarrow> state_inv th t' st"
  by (auto simp: state_inv_def)

lemma states_inv_later: "states_inv th t m \<Longrightarrow> t \<le> t' \<Longrightarrow> states_inv th t' m"
  unfolding states_inv_def by (blast intro: state_inv_later)

lemma states_inv_delete: "states_inv th t m \<Longrightarrow> states_inv th t (m(k := None))"
  by (simp add: states_inv_def)

lemma states_inv_update: "states_inv th t m \<Longrightarrow> state_inv th t st \<Longrightarrow> states_inv th t (m(k \<mapsto> st))"
  by (simp add: states_inv_def)

lemma state_inv_bump:
  assumes "state_inv th t st \<or> st = zero_state" and "0 < th" and "0 < t'" and "t \<le> t'"
  shows "state_inv th t' (fst (bump_state th dim st t'))"
proof -
  define r where "r = refresh_state st t'"
  have r: "0 \<le> bs_failures r" "0 \<le> bs_level r" "bs_level r = 0 \<longleftrightarrow> bs_backoff_until r = 0"
    "bs_level r > 0 \<Longrightarrow> bs_backoff_until r \<le> t' + backoff_max"
    using assms by (auto simp: r_def refresh_state_def state_inv_def zero_state_def split: if_splits)
  have lev: "0 < t' + backoff_duration (bs_level r + 1)"
    "backoff_duration (bs_level r + 1) \<le> backoff_max"
    using backoff_duration_bounds [of "bs_level r + 1"] assms(3) by (auto simp: backoff_base_def)
  show ?thesis
    using r lev assms(2)
    by (auto simp: bump_state_def r_def [symmetric] Let_def state_inv_def time_add_def)
qed

lemma record_failure_in_inv:
  assumes "states_inv th t states" and "0 < th" "0 < t'" "t \<le> t'"
  shows "states_inv th t' (fst (record_failure_in th states key dim t'))"
proof -
  let ?st = "case states key of None \<Rightarrow> zero_state | Some st \<Rightarrow> st"
  have "state_inv th t ?st \<or> ?st = zero_state"
    using assms(1) by (auto simp: states_inv_def split: option.split)
  from state_inv_bump [OF this assms(2-4), of dim] states_inv_later [OF assms(1,4)]
  show ?thesis
    by (auto simp: record_failure_in_def Let_def states_inv_update split: prod.split)
qed

lemma check_state_inv:
  assumes "states_inv th t states" and "t \<le> t'"
  shows "states_inv th t' (fst (check_state states key dim t' d))"
  using states_inv_later [OF assms]
  by (auto simp: check_state_def states_inv_delete split: option.split)

lemma limiter_step_inv:
  assumes "limiter_inv s"
  shows "limiter_inv (limiter_step ul a s)"
proof -
  obtain t b where s: "s = (t, b)" by (cases s)
  with assms have inv: "0 < t" "0 < bo_threshold b"
    "states_inv (bo_threshold b) t (bo_accounts b)" "states_inv (bo_threshold b) t (bo_ips b)"
    by (auto simp: limiter_inv_def)
  show ?thesis
  proof (cases a)
    case (OpCheck u ip dt)
    have "states_inv (bo_threshold b) (t + int dt) (fst (check_state m key dim (t + int dt) d))"
      if "states_inv (bo_threshold b) t m" for m key dim d
      using that by (rule check_state_inv) simp
    from this [OF inv(3)] this [OF inv(4)] show ?thesis
      using inv s OpCheck states_inv_later [OF inv(4), of "t + int dt"]
      by (simp add: limiter_inv_def check_def Let_def case_prod_beta)
  next
    case (OpFailure u ip dt)
    then show ?thesis
      using inv s record_failure_in_inv [OF inv(3) inv(2), of "t + int dt"]
        record_failure_in_inv [OF inv(4) inv(2), of "t + int dt"]
        states_inv_later [OF inv(4), of "t + int dt"]
      by (simp add: limiter_inv_def record_failure_def Let_def case_prod_beta)
  next
    case (OpSuccess u dt)
    then show ?thesis
      using inv s states_inv_later [OF inv(3), of "t + int dt"] states_inv_later [OF inv(4), of "t + int dt"]
      by (simp add: limiter_inv_def record_success_def states_inv_delete)
  qed
qed

interpretation limiter: op_system "limiter_step ul" limiter_inv
  by unfold_locales (rule limiter_step_inv)

lemma limiter_inv_new: "0 < t \<Longrightarrow> limiter_inv (t, new_backoff th)"
  by (auto simp: limiter_inv_def states_inv_def new_backoff_def failure_threshold_default_def)

section \<open>A streak of failures\<close>

text \<open>
  The entry after failures at the times \<open>ts\<close>, oldest first, with the events raised.
\<close>

fun fail_streak :: "int \<Rightarrow> string \<Rightarrow> backoff_state \<Rightarrow> gtime list \<Rightarrow> backoff_state \<times> backoff_event list" where
  "fail_streak th dim st [] = (st, [])"
| "fail_streak th dim st (t # ts) =
     (let (st1, e) = bump_state th dim st t; (st2, es) = fail_streak th dim st1 ts
      in (st2, (case e of None \<Rightarrow> es | Some ev \<Rightarrow> ev # es)))"

text \<open>Consecutive times that stay within the reset window of each other.\<close>

fun in_window :: "gtime \<Rightarrow> gtime list \<Rightarrow> bool" where
  "in_window t [] = True"
| "in_window t (u # us) = (0 < u \<and> t \<le> u \<and> u - t \<le> failure_reset \<and> in_window u us)"

lemma bump_below:
  assumes "bs_last_failure st = 0 \<or> t - bs_last_failure st \<le> failure_reset"
    and "bs_failures st + 1 < th"
  shows "bump_state th dim st t =
    (st\<lparr>bs_failures := bs_failures st + 1, bs_last_failure := t\<rparr>, None)"
  using assms
  by (auto simp: bump_state_def refresh_state_def time_is_zero_def time_sub_greater_iff
      failure_reset_def min_int64_def max_int64_def)

lemma bump_cross:
  assumes "bs_last_failure st = 0 \<or> t - bs_last_failure st \<le> failure_reset"
    and "bs_failures st + 1 = th"
  shows "bump_state th dim st t =
    (st\<lparr>bs_failures := 0, bs_last_failure := t, bs_level := bs_level st + 1,
        bs_backoff_until := t + backoff_duration (bs_level st + 1)\<rparr>,
     Some \<lparr>be_dimension = dim, be_backoff_until = t + backoff_duration (bs_level st + 1),
           be_duration = backoff_duration (bs_level st + 1)\<rparr>)"
  using assms
  by (auto simp: bump_state_def refresh_state_def time_is_zero_def time_sub_greater_iff
      failure_reset_def min_int64_def max_int64_def time_add_def Let_def)

lemma fail_streak_below:
  assumes "ts \<noteq> []" and "bs_failures st + int (length ts) < th"
    and "0 < t" "bs_last_failure st = t" "in_window t ts"
  shows "fail_streak th dim st ts =
    (st\<lparr>bs_failures := bs_failures st + int (length ts), bs_last_failure := last ts\<rparr>, [])"
  using assms
proof (induction ts arbitrary: st t)
  case Nil
  then show ?case by simp
next
  case (Cons u us)
  let ?st = "st\<lparr>bs_failures := bs_failures st + 1, bs_last_failure := u\<rparr>"
  have b: "bump_state th dim st u = (?st, None)"
    using Cons.prems by (intro bump_below) auto
  show ?case
  proof (cases "us = []")
    case True
    with b show ?thesis by simp
  next
    case False
    have "fail_streak th dim ?st us =
      (?st\<lparr>bs_failures := bs_failures ?st + int (length us), bs_last_failure := last us\<rparr>, [])"
      using Cons.prems False by (intro Cons.IH [of _ u]) auto
    with b False show ?thesis by (simp add: algebra_simps)
  qed
qed

lemma fail_streak_append:
  "fail_streak th dim st (xs @ ys) =
    (let (st1, e1) = fail_streak th dim st xs; (st2, e2) = fail_streak th dim st1 ys
     in (st2, e1 @ e2))"
  by (induction xs arbitrary: st) (auto simp: Let_def split: prod.splits option.splits)

lemma in_window_append: "in_window t (xs @ ys) \<longleftrightarrow> in_window t xs \<and> in_window (last (t # xs)) ys"
  by (induction xs arbitrary: t) auto

text \<open>The first failures below the threshold raise nothing; the next one blocks.\<close>

lemma fail_streak_crossing:
  assumes th: "0 < th" and st: "bs_failures st = 0" "bs_last_failure st = 0 \<or> t0 = bs_last_failure st \<and> 0 < t0"
    and win: "in_window t0 ts \<or> bs_last_failure st = 0 \<and> ts \<noteq> [] \<and> 0 < hd ts \<and> in_window (hd ts) (tl ts)"
    and len: "int (length ts) = th"
  shows "fail_streak th dim st ts =
    (st\<lparr>bs_failures := 0, bs_last_failure := last ts, bs_level := bs_level st + 1,
        bs_backoff_until := last ts + backoff_duration (bs_level st + 1)\<rparr>,
     [\<lparr>be_dimension = dim, be_backoff_until = last ts + backoff_duration (bs_level st + 1),
       be_duration = backoff_duration (bs_level st + 1)\<rparr>])"
proof -
  obtain u us where ts: "ts = u # us" using len th by (cases ts) auto
  have win': "0 < u" "in_window u us" "bs_last_failure st = 0 \<or> u - bs_last_failure st \<le> failure_reset"
    using win st(2) ts by auto
  show ?thesis
  proof (cases "us = []")
    case True
    then have "th = 1" using len ts by simp
    then have "bump_state th dim st u =
      (st\<lparr>bs_failures := 0, bs_last_failure := u, bs_level := bs_level st + 1,
        bs_backoff_until := u + backoff_duration (bs_level st + 1)\<rparr>,
       Some \<lparr>be_dimension = dim, be_backoff_until = u + backoff_duration (bs_level st + 1),
           be_duration = backoff_duration (bs_level st + 1)\<rparr>)"
      using st win' by (intro bump_cross) auto
    with True ts show ?thesis by simp
  next
    case False
    then obtain vs v where us: "us = vs @ [v]" by (metis rev_exhaust)
    let ?st1 = "st\<lparr>bs_failures := 1, bs_last_failure := u\<rparr>"
    have b1: "bump_state th dim st u = (?st1, None)"
      using bump_below [of st u th dim] st win' len ts us by simp
    define st2 where "st2 = st\<lparr>bs_failures := 1 + int (length vs), bs_last_failure := last (u # vs)\<rparr>"
    have b2: "fail_streak th dim ?st1 vs = (st2, [])"
    proof (cases "vs = []")
      case False
      have "fail_streak th dim ?st1 vs =
        (?st1\<lparr>bs_failures := bs_failures ?st1 + int (length vs), bs_last_failure := last vs\<rparr>, [])"
        by (rule fail_streak_below [where t = u])
           (use False len ts us win' in \<open>auto simp: in_window_append\<close>)
      with False show ?thesis by (simp add: st2_def)
    qed (simp add: st2_def)
    have w: "in_window (last (u # vs)) [v]" using win' us in_window_append by blast
    have b3: "bump_state th dim st2 v =
      (st2\<lparr>bs_failures := 0, bs_last_failure := v, bs_level := bs_level st2 + 1,
        bs_backoff_until := v + backoff_duration (bs_level st2 + 1)\<rparr>,
       Some \<lparr>be_dimension = dim, be_backoff_until = v + backoff_duration (bs_level st2 + 1),
           be_duration = backoff_duration (bs_level st2 + 1)\<rparr>)"
      by (rule bump_cross) (use w len ts us in \<open>auto simp: st2_def\<close>)
    have "last ts = v" using ts us by simp
    then show ?thesis
      unfolding ts us by (simp add: b1 fail_streak_append b2 b3) (simp add: st2_def)
  qed
qed

section \<open>Properties\<close>

definition record_failures ::
  "(string \<Rightarrow> string) \<Rightarrow> string \<Rightarrow> string \<Rightarrow> gtime list \<Rightarrow> backoff \<Rightarrow> backoff" where
  "record_failures ul u ip ts b = fold (\<lambda>t b. fst (record_failure ul b u ip t)) ts b"

lemma record_failure_account:
  "bo_accounts (fst (record_failure ul b u ip t)) =
    (bo_accounts b)(account_backoff_key ul u \<mapsto>
      fst (bump_state (bo_threshold b) ''account''
        (case bo_accounts b (account_backoff_key ul u) of None \<Rightarrow> zero_state | Some st \<Rightarrow> st) t))"
  by (simp add: record_failure_def record_failure_in_def Let_def case_prod_beta)

lemma record_failure_threshold [simp]:
  "bo_threshold (fst (record_failure ul b u ip t)) = bo_threshold b"
  by (simp add: record_failure_def Let_def case_prod_beta)

lemma record_failures_account:
  assumes "ts \<noteq> []"
  shows "bo_accounts (record_failures ul u ip ts b) (account_backoff_key ul u) =
    Some (fst (fail_streak (bo_threshold b) ''account''
      (case bo_accounts b (account_backoff_key ul u) of None \<Rightarrow> zero_state | Some st \<Rightarrow> st) ts))"
  using assms
proof (induction ts arbitrary: b)
  case Nil
  then show ?case by simp
next
  case (Cons t ts)
  show ?case
  proof (cases "ts = []")
    case True
    then show ?thesis
      by (simp add: record_failures_def record_failure_account case_prod_beta)
  next
    case False
    then show ?thesis
      using Cons.IH [OF False, of "fst (record_failure ul b u ip t)"]
      by (simp add: record_failures_def record_failure_account case_prod_beta)
  qed
qed

lemma check_limited_account:
  "dc_limited (snd (check ul b u [] now)) \<longleftrightarrow> blocked (bo_accounts b) (account_backoff_key ul u) now"
  by (simp add: check_def Let_def case_prod_beta check_state_decision no_decision_def)

lemma check_limited:
  "dc_limited (snd (check ul b u ip now)) \<longleftrightarrow>
    blocked (bo_accounts b) (account_backoff_key ul u) now \<or> (ip \<noteq> [] \<and> blocked (bo_ips b) ip now)"
  by (simp add: check_def Let_def case_prod_beta check_state_decision no_decision_def)

lemma check_until_source:
  "dc_limited (snd (check ul b u ip now)) \<Longrightarrow>
   \<exists>st. (bo_accounts b (account_backoff_key ul u) = Some st \<or> bo_ips b ip = Some st) \<and>
     bs_backoff_until st \<noteq> 0 \<and> now < bs_backoff_until st \<and>
     dc_backoff_until (snd (check ul b u ip now)) = bs_backoff_until st"
  by (auto simp: check_def check_state_def Let_def no_decision_def time_is_zero_def
      split: option.splits if_splits prod.splits)

lemma in_window_last: "in_window t ts \<Longrightarrow> 0 < t \<Longrightarrow> 0 < last (t # ts)"
  by (induction ts arbitrary: t) auto

lemma in_window_last_pos: "ts \<noteq> [] \<Longrightarrow> 0 < hd ts \<Longrightarrow> in_window (hd ts) (tl ts) \<Longrightarrow> 0 < last ts"
  using in_window_last [of "hd ts" "tl ts"] by simp

lemma fresh_streak_crosses:
  assumes "0 < th" and "ts \<noteq> []" "0 < hd ts" "in_window (hd ts) (tl ts)" and "int (length ts) = th"
  shows "bs_backoff_until (fst (fail_streak th dim zero_state ts)) = last ts + minute"
proof -
  have "backoff_duration 1 = minute"
    by (simp add: backoff_duration_closed backoff_base_def backoff_max_def)
  with fail_streak_crossing [of th zero_state 0 ts dim] assms show ?thesis
    by (simp add: zero_state_def)
qed

lemma fresh_streak_below:
  assumes "ts \<noteq> []" "0 < hd ts" "in_window (hd ts) (tl ts)" and "int (length ts) < th"
  shows "bs_backoff_until (fst (fail_streak th dim zero_state ts)) = 0"
proof -
  obtain t us where ts: "ts = t # us" using assms(1) by (cases ts) auto
  let ?st1 = "zero_state\<lparr>bs_failures := 1, bs_last_failure := t\<rparr>"
  have b1: "bump_state th dim zero_state t = (?st1, None)"
    using bump_below [of zero_state t th dim] assms(4) ts by (simp add: zero_state_def)
  show ?thesis
  proof (cases "us = []")
    case True
    then show ?thesis by (simp add: ts b1) (simp add: zero_state_def)
  next
    case False
    have "fail_streak th dim ?st1 us =
      (?st1\<lparr>bs_failures := bs_failures ?st1 + int (length us), bs_last_failure := last us\<rparr>, [])"
      by (rule fail_streak_below [where t = t]) (use False assms ts in auto)
    then show ?thesis by (simp add: ts b1) (simp add: zero_state_def)
  qed
qed

text \<open>
  C22: Reaching the failure threshold blocks the account.  When an account without a record
  fails \<open>threshold\<close> times, each failure within the reset window of the one before, every
  check of that account (from whatever address) is limited until one minute after the last
  failure; and no shorter streak of failures limits the account at all.
\<close>

theorem account_blocked_exactly_at_threshold:
  assumes fresh: "bo_accounts b (account_backoff_key ul u) = None" and th: "0 < bo_threshold b"
    and win: "ts \<noteq> []" "0 < hd ts" "in_window (hd ts) (tl ts)"
  shows "(int (length ts) = bo_threshold b \<and> last ts \<le> now \<and> now < last ts + minute \<longrightarrow>
      dc_limited (snd (check ul (record_failures ul u ip ts b) u ip' now))) \<and>
    (int (length ts) < bo_threshold b \<longrightarrow>
      \<not> dc_limited (snd (check ul (record_failures ul u ip ts b) u [] now)))"
proof -
  let ?fs = "fail_streak (bo_threshold b) ''account'' zero_state ts"
  have acc: "bo_accounts (record_failures ul u ip ts b) (account_backoff_key ul u) = Some (fst ?fs)"
    using record_failures_account [OF win(1), of ul u ip b] fresh by simp
  have "dc_limited (snd (check ul (record_failures ul u ip ts b) u ip' now))"
    if "int (length ts) = bo_threshold b \<and> last ts \<le> now \<and> now < last ts + minute"
  proof -
    have "bs_backoff_until (fst ?fs) = last ts + minute"
      using fresh_streak_crosses [OF th win] that by simp
    then show ?thesis
      using that in_window_last_pos [OF win] by (simp add: check_limited blocked_def acc)
  qed
  moreover have "\<not> dc_limited (snd (check ul (record_failures ul u ip ts b) u [] now))"
    if "int (length ts) < bo_threshold b"
    using fresh_streak_below [OF win that] by (simp add: check_limited_account blocked_def acc)
  ultimately show ?thesis by blast
qed

theorem account_blocked_exactly_at_threshold_witness:
  "dc_limited (snd (check id (record_failures id ''bob'' ''10.0.0.1'' [minute, 2 * minute] (new_backoff 2))
     ''bob'' [] (2 * minute + second))) \<and>
   \<not> dc_limited (snd (check id (record_failures id ''bob'' ''10.0.0.1'' [minute] (new_backoff 2))
     ''bob'' [] (minute + second)))"
proof -
  have new: "bo_accounts (new_backoff 2) k = None" "bo_threshold (new_backoff 2) = 2" for k
    by (simp_all add: new_backoff_def)
  show ?thesis
    using account_blocked_exactly_at_threshold
        [where b = "new_backoff 2" and ul = id and u = "''bob''" and ts = "[minute, 2 * minute]"
          and ip = "''10.0.0.1''" and ip' = "[]" and now = "2 * minute + second"]
      account_blocked_exactly_at_threshold
        [where b = "new_backoff 2" and ul = id and u = "''bob''" and ts = "[minute]"
          and ip = "''10.0.0.1''" and now = "minute + second"]
    by (simp add: new failure_reset_def)
qed

text \<open>
  C21: No lock-out is longer than the cap.  After any run of checks, failures and successes
  from a new limiter, under any clock that does not go backwards, a limited decision ends in
  the future and at most fifteen minutes from now, and every account record holds fewer
  failures than the threshold.
\<close>

theorem lockout_bounded:
  assumes "0 < t0" and run: "fold (limiter_step ul) ops (t0, new_backoff th) = (t, b)"
  shows "(dc_limited (snd (check ul b u ip t)) \<longrightarrow>
      t < dc_backoff_until (snd (check ul b u ip t)) \<and>
      dc_backoff_until (snd (check ul b u ip t)) \<le> t + 15 * minute) \<and>
    (\<forall>st. bo_accounts b k = Some st \<longrightarrow> bs_failures st < bo_threshold b)"
proof -
  have inv: "limiter_inv (t, b)"
    using limiter.run_inv [OF limiter_inv_new [OF assms(1), of th], of ul ops] run by simp
  have "t < dc_backoff_until (snd (check ul b u ip t)) \<and>
      dc_backoff_until (snd (check ul b u ip t)) \<le> t + 15 * minute"
    if lim: "dc_limited (snd (check ul b u ip t))"
  proof -
    from check_until_source [OF lim]
    obtain st where st: "bo_accounts b (account_backoff_key ul u) = Some st \<or> bo_ips b ip = Some st"
      "bs_backoff_until st \<noteq> 0" "t < bs_backoff_until st"
      "dc_backoff_until (snd (check ul b u ip t)) = bs_backoff_until st"
      by (elim exE conjE)
    then have "state_inv (bo_threshold b) t st"
      using inv by (auto simp: limiter_inv_def states_inv_def)
    with st show ?thesis by (auto simp: state_inv_def backoff_max_def)
  qed
  moreover have "bs_failures st < bo_threshold b" if "bo_accounts b k = Some st" for st
    using inv that by (auto simp: limiter_inv_def states_inv_def state_inv_def)
  ultimately show ?thesis by blast
qed

theorem lockout_bounded_witness:
  "\<exists>t b. fold (limiter_step id) [OpFailure ''bob'' [] 5] (minute, new_backoff 1) = (t, b) \<and>
     dc_limited (snd (check id b ''bob'' [] t)) \<and>
     dc_backoff_until (snd (check id b ''bob'' [] t)) \<le> t + 15 * minute"
proof -
  define b where "b = fst (record_failure id (new_backoff 1) ''bob'' [] (minute + 5))"
  have run: "fold (limiter_step id) [OpFailure ''bob'' [] 5] (minute, new_backoff 1) = (minute + 5, b)"
    by (simp add: b_def)
  have "blocked (bo_accounts b) (account_backoff_key id ''bob'') (minute + 5)"
    by (simp add: b_def record_failure_account blocked_def new_backoff_def bump_state_def
        refresh_state_def zero_state_def time_is_zero_def time_add_def Let_def
        backoff_duration_closed backoff_base_def backoff_max_def)
  then have "dc_limited (snd (check id b ''bob'' [] (minute + 5)))"
    by (simp add: check_limited)
  moreover from lockout_bounded [OF _ run, of "''bob''" "[]"] this
  have "dc_backoff_until (snd (check id b ''bob'' [] (minute + 5))) \<le> minute + 5 + 15 * minute"
    by simp
  ultimately show ?thesis using run by blast
qed

text \<open>
  A success clears exactly the account it belongs to.  After \<^verbatim>\<open>RecordSuccess\<close> the account is
  not limited by its own record, every decision about an address is what it was, and so is
  every decision about an account with another key.
\<close>

theorem success_clears_only_account:
  "\<not> dc_limited (snd (check ul (record_success ul b u) u [] now)) \<and>
   blocked (bo_ips (record_success ul b u)) ip now = blocked (bo_ips b) ip now \<and>
   (account_backoff_key ul v = account_backoff_key ul u \<or>
    dc_limited (snd (check ul (record_success ul b u) v ip now)) = dc_limited (snd (check ul b v ip now)))"
  by (auto simp: check_limited record_success_def blocked_def)

end
