(* ===== verification/GoPath.thy ===== *)
theory GoPath
  imports GoStd
begin

text \<open>
  Slash-separated paths: \<^verbatim>\<open>path.Clean\<close> and the functions of \<^verbatim>\<open>path/filepath\<close> the components use,
  for Unix.  A path is cleaned component by component over a stack, as the library does.
\<close>

definition slash :: char where
  "slash = CHR ''/''"

definition is_abs :: "string \<Rightarrow> bool" where
  "is_abs p = has_prefix p ''/''"

text \<open>
  One component against the stack of those kept so far (innermost first): empty components
  and \<^verbatim>\<open>.\<close> vanish, \<^verbatim>\<open>..\<close> removes the innermost name, is dropped at the root and is kept at the
  front of a relative path.
\<close>

fun clean_step :: "bool \<Rightarrow> string list \<Rightarrow> string \<Rightarrow> string list" where
  "clean_step rooted st c =
     (if c = [] \<or> c = ''.'' then st
      else if c = ''..'' then
        (case st of
           [] \<Rightarrow> if rooted then [] else [''..'']
         | d # ds \<Rightarrow> if d = ''..'' then ''..'' # d # ds else ds)
      else c # st)"

definition clean_comps :: "string \<Rightarrow> string list" where
  "clean_comps p = rev (foldl (clean_step (is_abs p)) [] (split_byte slash p))"

definition path_clean :: "string \<Rightarrow> string" where
  "path_clean p =
     (let body = join_with [slash] (clean_comps p)
      in if is_abs p then slash # body else if clean_comps p = [] then ''.'' else body)"

definition upto_last_slash :: "string \<Rightarrow> string" where
  "upto_last_slash p = rev (dropWhile (\<lambda>c. c \<noteq> slash) (rev p))"

definition path_dir :: "string \<Rightarrow> string" where
  "path_dir p = path_clean (upto_last_slash p)"

definition path_base :: "string \<Rightarrow> string" where
  "path_base p =
     (if p = [] then ''.''
      else let q = rev (dropWhile (\<lambda>c. c = slash) (rev p));
               b = rev (takeWhile (\<lambda>c. c \<noteq> slash) (rev q))
           in if b = [] then ''/'' else b)"

fun path_join :: "string list \<Rightarrow> string" where
  "path_join [] = []"
| "path_join (e # es) = (if e = [] then path_join es else path_clean (join_with [slash] (e # es)))"

declare path_join.simps [simp del]

section \<open>Clean components\<close>

definition plain_comp :: "string \<Rightarrow> bool" where
  "plain_comp c \<longleftrightarrow> c \<noteq> [] \<and> c \<noteq> ''.'' \<and> c \<noteq> ''..'' \<and> slash \<notin> set c"

text \<open>The stack is plain names over a run of \<^verbatim>\<open>..\<close>, which is empty for a rooted path.\<close>

definition clean_stack :: "bool \<Rightarrow> string list \<Rightarrow> bool" where
  "clean_stack rooted st \<longleftrightarrow>
     (\<exists>ns n. st = ns @ replicate n ''..'' \<and> list_all plain_comp ns \<and> (rooted \<longrightarrow> n = 0))"

lemma clean_stack_Nil: "clean_stack rooted []"
  unfolding clean_stack_def by (intro exI [of _ "[]"] exI [of _ 0]) simp

lemma clean_step_stack:
  assumes "clean_stack rooted st" and "slash \<notin> set c"
  shows "clean_stack rooted (clean_step rooted st c)"
proof -
  obtain ns n where st: "st = ns @ replicate n ''..''" "list_all plain_comp ns" "rooted \<longrightarrow> n = 0"
    using assms(1) by (auto simp: clean_stack_def)
  consider "c = [] \<or> c = ''.''" | "c = ''..''" "ns = []" | d ds where "c = ''..''" "ns = d # ds"
    | "plain_comp c"
    using assms(2) by (cases ns) (auto simp: plain_comp_def)
  then show ?thesis
  proof cases
    case 1
    then show ?thesis using assms(1) by auto
  next
    case 2
    have "clean_step rooted st c = replicate (if rooted then 0 else Suc n) ''..''"
      using 2 st by (cases n) auto
    then show ?thesis
      unfolding clean_stack_def by (intro exI [of _ "[]"] exI [of _ "if rooted then 0 else Suc n"]) simp
  next
    case 3
    then have "clean_step rooted st c = ds @ replicate n ''..''" using st by (auto simp: plain_comp_def)
    then show ?thesis
      using 3 st unfolding clean_stack_def by (intro exI [of _ ds] exI [of _ n]) auto
  next
    case 4
    then have "clean_step rooted st c = (c # ns) @ replicate n ''..''"
      using st by (auto simp: plain_comp_def)
    then show ?thesis
      using 4 st unfolding clean_stack_def by (intro exI [of _ "c # ns"] exI [of _ n]) auto
  qed
qed

lemma clean_fold_stack:
  "clean_stack rooted st \<Longrightarrow> \<forall>c \<in> set cs. slash \<notin> set c \<Longrightarrow>
   clean_stack rooted (foldl (clean_step rooted) st cs)"
proof (induction cs arbitrary: st)
  case Nil
  then show ?case by simp
next
  case (Cons c cs)
  have "clean_stack rooted (clean_step rooted st c)"
    using Cons.prems by (intro clean_step_stack) auto
  then show ?case using Cons by simp
qed

lemma clean_comps_shape:
  obtains n ns where "clean_comps p = replicate n ''..'' @ ns" "list_all plain_comp ns"
    "is_abs p \<longrightarrow> n = 0"
proof -
  have "clean_stack (is_abs p) (foldl (clean_step (is_abs p)) [] (split_byte slash p))"
    by (rule clean_fold_stack) (auto simp: clean_stack_Nil dest: split_byte_parts)
  then obtain ns n where "foldl (clean_step (is_abs p)) [] (split_byte slash p) = ns @ replicate n ''..''"
    "list_all plain_comp ns" "is_abs p \<longrightarrow> n = 0"
    unfolding clean_stack_def by blast
  then show ?thesis
    using that [of n "rev ns"] by (simp add: clean_comps_def)
qed

lemma clean_comps_comp:
  assumes "c \<in> set (clean_comps p)"
  shows "c = ''..'' \<or> plain_comp c"
proof -
  obtain n ns where "clean_comps p = replicate n ''..'' @ ns" "list_all plain_comp ns"
    by (rule clean_comps_shape)
  with assms show ?thesis by (auto simp: list_all_iff)
qed

lemma clean_comps_no_slash: "c \<in> set (clean_comps p) \<Longrightarrow> slash \<notin> set c"
  using clean_comps_comp [of c p] by (auto simp: plain_comp_def slash_def)

lemma clean_comps_nonempty_comp: "c \<in> set (clean_comps p) \<Longrightarrow> c \<noteq> []"
  using clean_comps_comp [of c p] by (auto simp: plain_comp_def)

lemma join_with_Cons: "join_with sep (p # ps) = p @ (if ps = [] then [] else sep @ join_with sep ps)"
  by (cases ps) auto

lemma join_with_eq_Nil: "join_with sep ps = [] \<Longrightarrow> \<forall>p \<in> set ps. p \<noteq> [] \<Longrightarrow> ps = []"
  by (cases ps) (auto simp: join_with_Cons)

end
