(* ===== verification/OsModel.thy ===== *)
theory OsModel
  imports GoPath
begin

unbundle bit_operations_syntax

text \<open>
  The operating system as the \<^verbatim>\<open>os\<close>, \<^verbatim>\<open>io\<close> and \<^verbatim>\<open>syscall\<close> packages show it to the program: a file
  system (a map from paths to files), a schedule that says which system calls fail, and the
  history of the file systems seen after each call.  A property of every state of the history
  is a property at every point where the process may crash.  A failing write leaves a prefix
  of the data.  Symbolic links and missing parent directories are not modelled; any call may
  fail, which covers the errors they cause.
\<close>

section \<open>Files and errors\<close>

datatype fkind = Regular | Directory | Special

record finfo =
  fi_kind :: fkind
  fi_mode :: nat
  fi_uid :: nat
  fi_gid :: nat
  fi_mtime :: gtime
  fi_data :: string

type_synonym fs = "string \<rightharpoonup> finfo"

datatype os_error = ENOENT | EIO

datatype goerr =
    ErrOs os_error
  | ErrMsg string
  | ErrWrap string goerr

fun is_not_exist :: "goerr \<Rightarrow> bool" where
  "is_not_exist (ErrOs e) = (e = ENOENT)"
| "is_not_exist (ErrMsg m) = False"
| "is_not_exist (ErrWrap m e) = is_not_exist e"

record os =
  os_fs :: fs
  os_fault :: "nat \<Rightarrow> bool"
  os_short :: "nat \<Rightarrow> nat"
  os_rand :: "nat \<Rightarrow> string"
  os_clock :: "nat \<Rightarrow> gtime"
  os_uid :: nat
  os_gid :: nat
  os_names :: "string list"
  os_calls :: nat
  os_hist :: "fs list"

type_synonym ('z, 'a) os_prog = "('z os_scheme, goerr, 'a) prog"

section \<open>System calls\<close>

text \<open>A call that fails by the schedule changes nothing; the others run \<open>op\<close>.\<close>

definition syscall :: "(fs \<Rightarrow> (os_error + 'a) \<times> fs) \<Rightarrow> ('z, 'a) os_prog" where
  "syscall op = (\<lambda>w.
     let (r, fs') = (if os_fault w (os_calls w) then (Inl EIO, os_fs w) else op (os_fs w))
     in (map_sum ErrOs id r,
         w\<lparr>os_calls := Suc (os_calls w), os_fs := fs', os_hist := fs' # os_hist w\<rparr>))"

definition now :: "('z, gtime) os_prog" where
  "now = get_state (\<lambda>w. os_clock w (os_calls w))"

definition os_stat :: "string \<Rightarrow> ('z, finfo) os_prog" where
  "os_stat p = syscall (\<lambda>f. (case f p of None \<Rightarrow> Inl ENOENT | Some i \<Rightarrow> Inr i, f))"

definition os_remove :: "string \<Rightarrow> ('z, unit) os_prog" where
  "os_remove p = syscall (\<lambda>f. if f p = None then (Inl ENOENT, f) else (Inr (), f(p := None)))"

definition os_rename :: "string \<Rightarrow> string \<Rightarrow> ('z, unit) os_prog" where
  "os_rename a b = syscall (\<lambda>f.
     case f a of
       None \<Rightarrow> (Inl ENOENT, f)
     | Some i \<Rightarrow>
         if (case f b of None \<Rightarrow> False | Some j \<Rightarrow> fi_kind j = Directory) then (Inl EIO, f)
         else if a = b then (Inr (), f)
         else (Inr (), (f(b \<mapsto> i))(a := None)))"

text \<open>\<^verbatim>\<open>os.RemoveAll\<close> of a file: a missing path is no error.\<close>

definition os_remove_all :: "string \<Rightarrow> ('z, unit) os_prog" where
  "os_remove_all p = syscall (\<lambda>f. (Inr (), f(p := None)))"

text \<open>\<^verbatim>\<open>os.RemoveAll\<close> of a directory and all below it.\<close>

definition below :: "string \<Rightarrow> string \<Rightarrow> bool" where
  "below d p = (p = d \<or> has_prefix p (d @ ''/''))"

definition os_remove_tree :: "string \<Rightarrow> ('z, unit) os_prog" where
  "os_remove_tree d = syscall (\<lambda>f. (Inr (), \<lambda>p. if below d p then None else f p))"

text \<open>
  \<^verbatim>\<open>os.ReadDir\<close>: the names of \<open>os_names\<close> (the sorted file names the world knows) that exist in the
  directory, each with what \<^verbatim>\<open>entry.Info\<close> returns.
\<close>

definition os_read_dir :: "string \<Rightarrow> ('z, (string \<times> finfo) list) os_prog" where
  "os_read_dir d = (\<lambda>w. syscall (\<lambda>f.
     (if f d = None then Inl ENOENT
      else Inr (List.map_filter (\<lambda>n. map_option (Pair n) (f (path_join [d, n]))) (os_names w)), f)) w)"

definition os_read_file :: "string \<Rightarrow> ('z, string) os_prog" where
  "os_read_file p = syscall (\<lambda>f.
     (case f p of None \<Rightarrow> Inl ENOENT
      | Some i \<Rightarrow> if fi_kind i = Directory then Inl EIO else Inr (fi_data i), f))"

definition os_mkdir_all :: "string \<Rightarrow> ('z, unit) os_prog" where
  "os_mkdir_all p = syscall (\<lambda>f.
     case f p of
       Some i \<Rightarrow> if fi_kind i = Directory then (Inr (), f) else (Inl EIO, f)
     | None \<Rightarrow> (Inr (), f(p \<mapsto> \<lparr>fi_kind = Directory, fi_mode = 448, fi_uid = 0, fi_gid = 0,
                                fi_mtime = 0, fi_data = []\<rparr>)))"

definition os_open_read :: "string \<Rightarrow> ('z, unit) os_prog" where
  "os_open_read p = syscall (\<lambda>f. (if f p = None then Inl ENOENT else Inr (), f))"

text \<open>\<^verbatim>\<open>os.OpenFile(p, O_CREATE|O_TRUNC|O_WRONLY, mode)\<close>: the mode is that of a new file only.\<close>

definition os_open_trunc :: "string \<Rightarrow> nat \<Rightarrow> ('z, unit) os_prog" where
  "os_open_trunc p mode = (\<lambda>w. syscall (\<lambda>f.
     case f p of
       Some i \<Rightarrow> if fi_kind i = Regular then (Inr (), f(p \<mapsto> i\<lparr>fi_data := []\<rparr>)) else (Inl EIO, f)
     | None \<Rightarrow> (Inr (), f(p \<mapsto> \<lparr>fi_kind = Regular, fi_mode = mode, fi_uid = os_uid w, fi_gid = os_gid w,
                                fi_mtime = os_clock w (os_calls w), fi_data = []\<rparr>))) w)"

text \<open>\<^verbatim>\<open>io.Copy\<close> from one open file to another: a failure leaves a prefix behind.\<close>

definition os_copy_data :: "string \<Rightarrow> string \<Rightarrow> ('z, unit) os_prog" where
  "os_copy_data from to = (\<lambda>w.
     let failing = os_fault w (os_calls w);
         f = os_fs w;
         w' = w\<lparr>os_calls := Suc (os_calls w)\<rparr>
     in case (f from, f to) of
          (Some s, Some d) \<Rightarrow>
            if fi_kind s \<noteq> Regular then (Inl (ErrOs EIO), w'\<lparr>os_hist := f # os_hist w\<rparr>)
            else let data = (if failing then take (os_short w (os_calls w)) (fi_data s) else fi_data s);
                     f' = f(to \<mapsto> d\<lparr>fi_data := data, fi_mtime := os_clock w (os_calls w)\<rparr>)
                 in (if failing then Inl (ErrOs EIO) else Inr (), w'\<lparr>os_fs := f', os_hist := f' # os_hist w\<rparr>)
        | _ \<Rightarrow> (Inl (ErrOs EIO), w'\<lparr>os_hist := f # os_hist w\<rparr>))"

text \<open>\<^verbatim>\<open>File.Write\<close> to a file just opened with \<^verbatim>\<open>O_TRUNC\<close> or written before: it appends.\<close>

definition os_write :: "string \<Rightarrow> string \<Rightarrow> ('z, unit) os_prog" where
  "os_write p bytes = (\<lambda>w.
     let failing = os_fault w (os_calls w);
         f = os_fs w;
         w' = w\<lparr>os_calls := Suc (os_calls w)\<rparr>
     in case f p of
          Some d \<Rightarrow>
            let data = fi_data d @ (if failing then take (os_short w (os_calls w)) bytes else bytes);
                f' = f(p \<mapsto> d\<lparr>fi_data := data, fi_mtime := os_clock w (os_calls w)\<rparr>)
            in (if failing then Inl (ErrOs EIO) else Inr (), w'\<lparr>os_fs := f', os_hist := f' # os_hist w\<rparr>)
        | None \<Rightarrow> (Inl (ErrOs EIO), w'\<lparr>os_hist := f # os_hist w\<rparr>))"

definition os_chmod :: "string \<Rightarrow> nat \<Rightarrow> ('z, unit) os_prog" where
  "os_chmod p mode = syscall (\<lambda>f.
     case f p of None \<Rightarrow> (Inl ENOENT, f) | Some i \<Rightarrow> (Inr (), f(p \<mapsto> i\<lparr>fi_mode := mode\<rparr>)))"

definition os_chown :: "string \<Rightarrow> nat \<Rightarrow> nat \<Rightarrow> ('z, unit) os_prog" where
  "os_chown p uid gid = syscall (\<lambda>f.
     case f p of None \<Rightarrow> (Inl ENOENT, f)
     | Some i \<Rightarrow> (Inr (), f(p \<mapsto> i\<lparr>fi_uid := uid, fi_gid := gid\<rparr>)))"

text \<open>\<^verbatim>\<open>File.Sync\<close>, \<^verbatim>\<open>File.Close\<close> and the like: may fail, change nothing.\<close>

definition os_sync :: "('z, unit) os_prog" where
  "os_sync = syscall (\<lambda>f. (Inr (), f))"

text \<open>\<^verbatim>\<open>os.WriteFile\<close>; the call for \<^verbatim>\<open>Close\<close> is that of \<open>os_sync\<close>.\<close>

definition os_write_file :: "string \<Rightarrow> string \<Rightarrow> nat \<Rightarrow> ('z, unit) os_prog" where
  "os_write_file p bytes mode = seqE (os_open_trunc p mode) (seqE (os_write p bytes) os_sync)"

text \<open>\<^verbatim>\<open>os.CreateTemp(dir, pattern)\<close>: a new empty file whose name did not exist.\<close>

definition os_create_temp :: "string \<Rightarrow> string \<Rightarrow> ('z, string) os_prog" where
  "os_create_temp dir pat = (\<lambda>w.
     let name = path_join [dir, pat @ os_rand w (os_calls w)] in
     syscall (\<lambda>f. if f name \<noteq> None then (Inl EIO, f)
       else (Inr name, f(name \<mapsto> \<lparr>fi_kind = Regular, fi_mode = 384, fi_uid = os_uid w, fi_gid = os_gid w,
                                   fi_mtime = os_clock w (os_calls w), fi_data = []\<rparr>))) w)"

text \<open>
  \<^verbatim>\<open>if err := m(); err != nil { cleanup(); return fmt.Errorf("msg: %w", err) }\<close>, where the
  clean-up's own outcome is ignored.
\<close>

definition or_cleanup :: "('z, unit) os_prog \<Rightarrow> string \<Rightarrow> ('z, 'a) os_prog \<Rightarrow> ('z, 'a) os_prog" where
  "or_cleanup cleanup msg m =
     bindE (attempt m) (\<lambda>r. case r of
       Inr x \<Rightarrow> ret x
     | Inl e \<Rightarrow> bindE (attempt cleanup) (\<lambda>_ :: goerr + unit. throw (ErrWrap msg e)))"

definition or_wrap :: "string \<Rightarrow> ('z, 'a) os_prog \<Rightarrow> ('z, 'a) os_prog" where
  "or_wrap msg m =
     bindE (attempt m) (\<lambda>r. case r of Inr x \<Rightarrow> ret x | Inl e \<Rightarrow> throw (ErrWrap msg e))"

section \<open>What a program may touch\<close>

text \<open>
  \<open>all_states w w' P\<close>: the file system is \<open>P\<close> after every call between \<open>w\<close> and \<open>w'\<close> and at
  the end.  \<open>pres A\<close>: every file outside \<open>A\<close> that exists at the start is unchanged all along and the
  environment (known names, clock, user) is the same.
\<close>

definition all_states :: "'z os_scheme \<Rightarrow> 'z os_scheme \<Rightarrow> (fs \<Rightarrow> bool) \<Rightarrow> bool" where
  "all_states w w' P \<longleftrightarrow>
     (\<exists>new. os_hist w' = new @ os_hist w \<and> (\<forall>f \<in> set new. P f)) \<and> P (os_fs w')"

definition same_outside :: "string set \<Rightarrow> fs \<Rightarrow> fs \<Rightarrow> bool" where
  "same_outside A f g \<longleftrightarrow> (\<forall>q fi. q \<notin> A \<longrightarrow> f q = Some fi \<longrightarrow> g q = Some fi)"

definition pres :: "string set \<Rightarrow> 'z os_scheme \<Rightarrow> 'z os_scheme \<Rightarrow> bool" where
  "pres A w w' \<longleftrightarrow> all_states w w' (same_outside A (os_fs w)) \<and> os_names w' = os_names w \<and>
     os_clock w' = os_clock w \<and> os_uid w' = os_uid w"

lemma same_outside_refl [simp]: "same_outside A f f"
  by (simp add: same_outside_def)

lemma same_outside_trans: "same_outside A f g \<Longrightarrow> same_outside A g h \<Longrightarrow> same_outside A f h"
  by (simp add: same_outside_def)

lemma all_states_refl: "P (os_fs w) \<Longrightarrow> all_states w w P"
  by (simp add: all_states_def)

lemma all_states_trans:
  "all_states u v P \<Longrightarrow> all_states v w P \<Longrightarrow> all_states u w P"
  unfolding all_states_def by (metis (no_types, lifting) Un_iff append_assoc set_append)

lemma all_states_mono: "all_states u v P \<Longrightarrow> (\<And>f. P f \<Longrightarrow> Q f) \<Longrightarrow> all_states u v Q"
  unfolding all_states_def by blast

lemma all_states_final: "all_states u v P \<Longrightarrow> P (os_fs v)"
  by (simp add: all_states_def)

lemma pres_refl: "pres A w w"
  by (simp add: pres_def all_states_refl)

lemma pres_trans: "pres A u v \<Longrightarrow> pres A v w \<Longrightarrow> pres A u w"
  unfolding pres_def
  by (metis (no_types, lifting) all_states_final all_states_mono all_states_trans same_outside_trans)

lemma pres_mono: "pres A u v \<Longrightarrow> A \<subseteq> B \<Longrightarrow> pres B u v"
  unfolding pres_def by (elim conjE, intro conjI, erule all_states_mono) (auto simp: same_outside_def)

lemma pres_drop_new:
  "pres {p} u v \<Longrightarrow> os_fs u p = None \<Longrightarrow> pres A u v"
  unfolding pres_def
  by (elim conjE, intro conjI, erule all_states_mono) (auto simp: same_outside_def, metis option.distinct(1))

lemma pres_env: "pres A u v \<Longrightarrow> os_names v = os_names u \<and> os_clock v = os_clock u \<and> os_uid v = os_uid u"
  by (simp add: pres_def)

lemma pres_lookup: "pres A u v \<Longrightarrow> q \<notin> A \<Longrightarrow> os_fs u q = Some fi \<Longrightarrow> os_fs v q = Some fi"
  unfolding pres_def by (auto simp: same_outside_def dest: all_states_final)

lemma pres_all_states: "pres A u v \<Longrightarrow> q \<notin> A \<Longrightarrow> os_fs u q = Some fi \<Longrightarrow> all_states u v (\<lambda>f. f q = Some fi)"
  unfolding pres_def by (auto simp: same_outside_def elim: all_states_mono)

interpretation touch: frame_relation "pres A"
  by unfold_locales (fact pres_refl, fact pres_trans)

lemmas touch_rules = touch.keeps_rules

lemma keeps_pres_mono: "keeps (pres A) m \<Longrightarrow> A \<subseteq> B \<Longrightarrow> keeps (pres B) m"
  unfolding keeps_def by (blast intro: pres_mono)

lemma keeps_syscall:
  assumes "\<And>f. same_outside A f (snd (op f))"
  shows "keeps (pres A) (syscall op)"
  using assms
  by (auto simp: keeps_def syscall_def pres_def all_states_def Let_def case_prod_beta split: if_splits)

lemma keeps_syscall_state:
  assumes "\<And>w f. same_outside A f (snd (op w f))"
  shows "keeps (pres A) (\<lambda>w. syscall (op w) w)"
  using assms
  by (auto simp: keeps_def syscall_def pres_def all_states_def Let_def case_prod_beta split: if_splits)

lemma keeps_now: "keeps (pres A) now"
  by (simp add: now_def touch.keeps_get)

lemma keeps_stat: "keeps (pres A) (os_stat p)"
  unfolding os_stat_def by (rule keeps_syscall) simp

lemma keeps_remove: "p \<in> A \<Longrightarrow> keeps (pres A) (os_remove p)"
  unfolding os_remove_def by (rule keeps_syscall) (auto simp: same_outside_def)

lemma keeps_remove_all: "p \<in> A \<Longrightarrow> keeps (pres A) (os_remove_all p)"
  unfolding os_remove_all_def by (rule keeps_syscall) (auto simp: same_outside_def)

lemma keeps_remove_tree: "{p. below d p} \<subseteq> A \<Longrightarrow> keeps (pres A) (os_remove_tree d)"
  unfolding os_remove_tree_def by (rule keeps_syscall) (auto simp: same_outside_def)

lemma keeps_read_dir: "keeps (pres A) (os_read_dir p)"
  unfolding os_read_dir_def by (rule keeps_syscall_state) simp

lemma keeps_read_file: "keeps (pres A) (os_read_file p)"
  unfolding os_read_file_def by (rule keeps_syscall) simp

lemma keeps_write: "p \<in> A \<Longrightarrow> keeps (pres A) (os_write p data)"
  by (auto simp: keeps_def os_write_def pres_def all_states_def same_outside_def Let_def
      split: option.splits)

lemma keeps_rename: "a \<in> A \<Longrightarrow> b \<in> A \<Longrightarrow> keeps (pres A) (os_rename a b)"
  unfolding os_rename_def by (rule keeps_syscall) (auto simp: same_outside_def split: option.splits)

lemma keeps_mkdir_all: "keeps (pres A) (os_mkdir_all p)"
  unfolding os_mkdir_all_def by (rule keeps_syscall) (auto simp: same_outside_def split: option.splits)

lemma keeps_open_read: "keeps (pres A) (os_open_read p)"
  unfolding os_open_read_def by (rule keeps_syscall) simp

lemma keeps_open_trunc: "p \<in> A \<Longrightarrow> keeps (pres A) (os_open_trunc p mode)"
  unfolding os_open_trunc_def
  by (rule keeps_syscall_state) (auto simp: same_outside_def split: option.splits)

lemma keeps_copy_data: "to \<in> A \<Longrightarrow> keeps (pres A) (os_copy_data from to)"
  by (auto simp: keeps_def os_copy_data_def pres_def all_states_def same_outside_def Let_def
      split: option.splits)

lemma keeps_chmod: "p \<in> A \<Longrightarrow> keeps (pres A) (os_chmod p mode)"
  unfolding os_chmod_def by (rule keeps_syscall) (auto simp: same_outside_def split: option.splits)

lemma keeps_chown: "p \<in> A \<Longrightarrow> keeps (pres A) (os_chown p uid gid)"
  unfolding os_chown_def by (rule keeps_syscall) (auto simp: same_outside_def split: option.splits)

lemma keeps_sync: "keeps (pres A) os_sync"
  unfolding os_sync_def by (rule keeps_syscall) simp

lemma keeps_create_temp: "keeps (pres A) (os_create_temp dir pat)"
  unfolding os_create_temp_def Let_def
  by (rule keeps_syscall_state) (auto simp: same_outside_def)

lemma keeps_write_file: "p \<in> A \<Longrightarrow> keeps (pres A) (os_write_file p bytes mode)"
  unfolding os_write_file_def by (intro touch_rules keeps_open_trunc keeps_write keeps_sync)

lemma keeps_or_cleanup:
  "keeps (pres A) m \<Longrightarrow> keeps (pres A) c \<Longrightarrow> keeps (pres A) (or_cleanup c msg m)"
  unfolding or_cleanup_def
  by (intro touch.keeps_bindE touch.keeps_attempt)
     (auto split: sum.split intro: touch.keeps_ret touch.keeps_bindE touch.keeps_attempt touch.keeps_throw)

lemma keeps_or_wrap: "keeps (pres A) m \<Longrightarrow> keeps (pres A) (or_wrap msg m)"
  unfolding or_wrap_def
  by (intro touch.keeps_bindE touch.keeps_attempt)
     (auto split: sum.split intro: touch.keeps_ret touch.keeps_throw)

lemmas keeps_calls =
  keeps_now keeps_stat keeps_remove keeps_remove_all keeps_remove_tree keeps_write_file keeps_read_dir keeps_read_file keeps_write
  keeps_rename keeps_mkdir_all keeps_open_read keeps_open_trunc
  keeps_copy_data keeps_chmod keeps_chown keeps_sync keeps_create_temp keeps_or_cleanup keeps_or_wrap

section \<open>Inversion of successful programs\<close>

lemma bindE_Inr:
  "bindE m f w = (Inr y, w'') \<longleftrightarrow> (\<exists>x w'. m w = (Inr x, w') \<and> f x w' = (Inr y, w''))"
  by (auto simp: bindE_def split: prod.splits sum.splits)

lemma seqE_Inr:
  "seqE m n w = (Inr y, w'') \<longleftrightarrow> (\<exists>x w'. m w = (Inr x, w') \<and> n w' = (Inr y, w''))"
  by (simp add: seqE_def bindE_Inr)

lemma or_cleanup_Inr: "or_cleanup c msg m w = (Inr x, w') \<longleftrightarrow> m w = (Inr x, w')"
  by (auto simp: or_cleanup_def prog_defs split: prod.splits sum.splits)

lemma or_wrap_Inr: "or_wrap msg m w = (Inr x, w') \<longleftrightarrow> m w = (Inr x, w')"
  by (auto simp: or_wrap_def prog_defs split: prod.splits sum.splits)

lemma ret_Inr: "ret x w = (Inr y, w') \<longleftrightarrow> x = y \<and> w = w'"
  by (auto simp: ret_def)

lemma throw_not_Inr [simp]: "throw e w \<noteq> (Inr y, w')"
  by (simp add: throw_def)

lemmas run_Inr = bindE_Inr seqE_Inr or_cleanup_Inr or_wrap_Inr ret_Inr

section \<open>Crash safety\<close>

text \<open>
  \<open>crash_safe P Q m w\<close>: run from \<open>w\<close>, the program keeps \<open>P\<close> of the file system at every crash
  point, whether it succeeds or not, and a success establishes \<open>Q\<close>.
\<close>

definition crash_safe ::
  "(fs \<Rightarrow> bool) \<Rightarrow> ('a \<Rightarrow> 'z os_scheme \<Rightarrow> bool) \<Rightarrow> ('z, 'a) os_prog \<Rightarrow> 'z os_scheme \<Rightarrow> bool" where
  "crash_safe P Q m w \<longleftrightarrow>
     all_states w (snd (m w)) P \<and> (\<forall>x. fst (m w) = Inr x \<longrightarrow> Q x (snd (m w)))"

lemma crash_safeD:
  "crash_safe P Q m w \<Longrightarrow> m w = (r, w') \<Longrightarrow> all_states w w' P \<and> (\<forall>x. r = Inr x \<longrightarrow> Q x w')"
  by (simp add: crash_safe_def)

lemma crash_safe_ret: "P (os_fs w) \<Longrightarrow> Q x w \<Longrightarrow> crash_safe P Q (ret x) w"
  by (simp add: crash_safe_def ret_def all_states_refl)

lemma crash_safe_throw: "P (os_fs w) \<Longrightarrow> crash_safe P Q (throw e) w"
  by (simp add: crash_safe_def throw_def all_states_refl)

lemma crash_safe_bind:
  assumes "crash_safe P R m w"
    and "\<And>x w1. m w = (Inr x, w1) \<Longrightarrow> R x w1 \<Longrightarrow> P (os_fs w1) \<Longrightarrow> crash_safe P Q (f x) w1"
  shows "crash_safe P Q (bindE m f) w"
proof (cases "m w")
  case (Pair r w1)
  show ?thesis
  proof (cases r)
    case (Inl e)
    then show ?thesis using assms(1) Pair by (simp add: crash_safe_def bindE_def)
  next
    case (Inr x)
    have 1: "all_states w w1 P" "R x w1" using assms(1) Pair Inr by (auto simp: crash_safe_def)
    then have "crash_safe P Q (f x) w1"
      using assms(2) Pair Inr all_states_final by blast
    then show ?thesis
      using 1 Pair Inr all_states_trans by (auto simp: crash_safe_def bindE_def)
  qed
qed

lemma crash_safe_seq:
  assumes "crash_safe P R m w"
    and "\<And>x w1. m w = (Inr x, w1) \<Longrightarrow> R x w1 \<Longrightarrow> P (os_fs w1) \<Longrightarrow> crash_safe P Q n w1"
  shows "crash_safe P Q (seqE m n) w"
  unfolding seqE_def using assms by (rule crash_safe_bind)

lemma crash_safe_frame:
  assumes "keeps (pres A) m" and "\<And>f. same_outside A (os_fs w) f \<Longrightarrow> P f"
  shows "crash_safe P (\<lambda>_ w1. pres A w w1) m w"
proof -
  have "pres A w (snd (m w))" using assms(1) by (simp add: keeps_def)
  moreover from this have "all_states w (snd (m w)) P"
    using assms(2) unfolding pres_def by (blast intro: all_states_mono)
  ultimately show ?thesis by (simp add: crash_safe_def)
qed

lemma crash_safe_conseq:
  assumes "crash_safe P Q m w" and "\<And>f. P f \<Longrightarrow> P' f" and "\<And>x w'. Q x w' \<Longrightarrow> Q' x w'"
  shows "crash_safe P' Q' m w"
  using assms unfolding crash_safe_def by (blast intro: all_states_mono)

lemma all_states_conj:
  "all_states u v P \<Longrightarrow> all_states u v Q \<Longrightarrow> all_states u v (\<lambda>f. P f \<and> Q f)"
  unfolding all_states_def by (metis (no_types, lifting) append_same_eq)

lemma crash_safe_conj:
  "crash_safe P Q m w \<Longrightarrow> crash_safe P' Q' m w \<Longrightarrow>
   crash_safe (\<lambda>f. P f \<and> P' f) (\<lambda>x w'. Q x w' \<and> Q' x w') m w"
  unfolding crash_safe_def using all_states_conj by blast

end
