(* ===== verification/GoTime.thy ===== *)
theory GoTime
  imports GoStd
begin

text \<open>
  The calendar behind \<^verbatim>\<open>time.Time\<close> in UTC: the fields of an instant (year, month, day, weekday,
  hour, minute) and its RFC 3339 text with nanoseconds, which the program writes into its
  tables and files and reads back.  Day 0 is 1 January of year 1, the zero time.
\<close>

section \<open>Calendar\<close>

definition is_leap :: "int \<Rightarrow> bool" where
  "is_leap y \<longleftrightarrow> y mod 4 = 0 \<and> (y mod 100 \<noteq> 0 \<or> y mod 400 = 0)"

definition month_lengths :: "bool \<Rightarrow> int list" where
  "month_lengths leap = [31, if leap then 29 else 28, 31, 30, 31, 30, 31, 31, 30, 31, 30, 31]"

text \<open>Days from 1 January of year 1 to 1 January of year \<open>y\<close>.\<close>

definition days_before_year :: "int \<Rightarrow> int" where
  "days_before_year y = 365 * (y - 1) + (y - 1) div 4 - (y - 1) div 100 + (y - 1) div 400"

text \<open>
  The year of a day, by 400-, 100-, 4- and 1-year cycles; the last year of a cycle takes the
  leap day, hence the cuts at 3.
\<close>

definition year_day :: "int \<Rightarrow> int \<times> int" where
  "year_day d =
     (let n400 = d div 146097; d1 = d mod 146097;
          n100 = min 3 (d1 div 36524); d2 = d1 - 36524 * n100;
          n4 = d2 div 1461; d3 = d2 mod 1461;
          n1 = min 3 (d3 div 365); yd = d3 - 365 * n1
      in (400 * n400 + 100 * n100 + 4 * n4 + n1 + 1, yd))"

fun month_day :: "int list \<Rightarrow> int \<Rightarrow> int \<Rightarrow> int \<times> int" where
  "month_day [] m yd = (m, yd + 1)"
| "month_day (l # ls) m yd = (if yd < l then (m, yd + 1) else month_day ls (m + 1) (yd - l))"

record civil =
  cv_year :: int
  cv_month :: int
  cv_day :: int
  cv_hour :: int
  cv_minute :: int
  cv_second :: int
  cv_nanos :: int

definition day_number :: "gtime \<Rightarrow> int" where
  "day_number t = t div (86400 * second)"

definition civil_of :: "gtime \<Rightarrow> civil" where
  "civil_of t =
     (let (y, yd) = year_day (day_number t); (m, d) = month_day (month_lengths (is_leap y)) 1 yd;
          s = (t div second) mod 86400
      in \<lparr>cv_year = y, cv_month = m, cv_day = d, cv_hour = s div 3600, cv_minute = s mod 3600 div 60,
          cv_second = s mod 60, cv_nanos = t mod second\<rparr>)"

text \<open>\<^verbatim>\<open>t.Weekday()\<close>, Sunday is 0; 1 January of year 1 is a Monday.\<close>

definition weekday :: "gtime \<Rightarrow> int" where
  "weekday t = (day_number t + 1) mod 7"

definition time_of_civil :: "civil \<Rightarrow> gtime" where
  "time_of_civil c =
     ((days_before_year (cv_year c)
       + sum_list (take (nat (cv_month c - 1)) (month_lengths (is_leap (cv_year c)))) + cv_day c - 1)
      * 86400 + cv_hour c * 3600 + cv_minute c * 60 + cv_second c) * second + cv_nanos c"

lemma length_month_lengths [simp]: "length (month_lengths leap) = 12"
  by (simp add: month_lengths_def)

lemma year_day_correct:
  assumes "year_day d = (y, yd)"
  shows "days_before_year y + yd = d" and "0 \<le> yd" and "yd < (if is_leap y then 366 else 365)"
proof -
  define a d1 where "a = d div 146097" and "d1 = d mod 146097"
  define b where "b = min 3 (d1 div 36524)"
  define d2 where "d2 = d1 - 36524 * b"
  define c d3 where "c = d2 div 1461" and "d3 = d2 mod 1461"
  define e where "e = min 3 (d3 div 365)"
  have y: "y = 400 * a + 100 * b + 4 * c + e + 1" "yd = d3 - 365 * e"
    using assms by (auto simp: year_day_def Let_def a_def d1_def b_def d2_def c_def d3_def e_def)
  have d: "d = 146097 * a + d1" "0 \<le> d1" "d1 < 146097" by (simp_all add: a_def d1_def)
  have b: "0 \<le> b" "b \<le> 3" "36524 * b \<le> d1" "d1 < 36524 * b + 36524 \<or> b = 3"
    using d by (auto simp: b_def min_def)
  then have d2: "0 \<le> d2" "d2 < 36525" "b < 3 \<Longrightarrow> d2 < 36524" using d by (auto simp: d2_def)
  have c: "d2 = 1461 * c + d3" "0 \<le> d3" "d3 < 1461" "0 \<le> c" "c < 25"
    using d2 by (auto simp: c_def d3_def)
  have e: "0 \<le> e" "e \<le> 3" "365 * e \<le> d3" "d3 < 365 * e + 365 \<or> e = 3"
    using c by (auto simp: e_def min_def)
  have dec: "y - 1 = 4 * (100 * a + 25 * b + c) + e" "y - 1 = 100 * (4 * a + b) + (4 * c + e)"
    "y - 1 = 400 * a + (100 * b + 4 * c + e)" using y by simp_all
  have q4: "(y - 1) div 4 = 100 * a + 25 * b + c"
    by (subst dec(1)) (use e in simp)
  have q100: "(y - 1) div 100 = 4 * a + b"
    by (subst dec(2)) (use c e in simp)
  have q400: "(y - 1) div 400 = a"
    by (subst dec(3)) (use b c e in simp)
  show "days_before_year y + yd = d"
    unfolding days_before_year_def q4 q100 q400 using y d c d2_def by simp
  show "0 \<le> yd" using y e by simp
  have leap: "is_leap y \<longleftrightarrow> e = 3 \<and> (c \<noteq> 24 \<or> b = 3)"
  proof -
    have "y = (e + 1) + 4 * (100 * a + 25 * b + c)" using y by simp
    then have "y mod 4 = (e + 1) mod 4" by (simp only: mod_mult_self2)
    moreover have "y = (4 * c + e + 1) + 100 * (4 * a + b)" using y by simp
    then have "y mod 100 = (4 * c + e + 1) mod 100" by (simp only: mod_mult_self2)
    moreover have "y = (100 * b + 4 * c + e + 1) + 400 * a" using y by simp
    then have "y mod 400 = (100 * b + 4 * c + e + 1) mod 400" by (simp only: mod_mult_self2)
    moreover have "(e + 1) mod 4 = 0 \<longleftrightarrow> e = 3"
      using e zmod_trivial_iff [of "e + 1" 4] by (cases "e = 3") auto
    moreover have "(4 * c + e + 1) mod 100 = 0 \<longleftrightarrow> c = 24 \<and> e = 3"
    proof (cases "4 * c + e + 1 = 100")
      case False
      then have "(4 * c + e + 1) mod 100 = 4 * c + e + 1" using e c by (intro mod_pos_pos_trivial) auto
      then show ?thesis using e c False by simp
    qed (use e c in auto)
    moreover have "(100 * b + 4 * c + e + 1) mod 400 = 0 \<longleftrightarrow> b = 3 \<and> c = 24 \<and> e = 3"
    proof (cases "100 * b + 4 * c + e + 1 = 400")
      case True
      then have "b = 3" "c = 24" "e = 3" using e c b by linarith+
      then show ?thesis by simp
    next
      case False
      then have "(100 * b + 4 * c + e + 1) mod 400 = 100 * b + 4 * c + e + 1"
        using e c b by (intro mod_pos_pos_trivial) auto
      then show ?thesis using e c b False by simp
    qed
    ultimately show ?thesis unfolding is_leap_def by auto
  qed
  show "yd < (if is_leap y then 366 else 365)"
  proof (cases "e = 3")
    case False
    then show ?thesis using y e leap by auto
  next
    case True
    then have yd: "yd = d3 - 1095" using y by simp
    show ?thesis
    proof (cases "c = 24 \<and> b < 3")
      case True
      then have "d3 < 1460" using c d2(3) by simp
      then show ?thesis using yd by simp
    next
      case False
      then have "is_leap y" using leap \<open>e = 3\<close> b by auto
      then show ?thesis using yd c by simp
    qed
  qed
qed

lemma month_day_correct:
  assumes "0 \<le> yd" and "yd < sum_list ls" and "month_day ls m yd = (m', d)"
  shows "m \<le> m' \<and> m' < m + int (length ls) \<and> 1 \<le> d \<and> d \<le> ls ! nat (m' - m) \<and>
    sum_list (take (nat (m' - m)) ls) + d - 1 = yd"
  using assms
proof (induction ls m yd rule: month_day.induct)
  case (1 m yd)
  then show ?case by simp
next
  case (2 l ls m yd)
  show ?case
  proof (cases "yd < l")
    case True
    then show ?thesis using 2 by auto
  next
    case False
    then have IH: "m + 1 \<le> m' \<and> m' < m + 1 + int (length ls) \<and> 1 \<le> d \<and> d \<le> ls ! nat (m' - (m + 1)) \<and>
      sum_list (take (nat (m' - (m + 1))) ls) + d - 1 = yd - l"
      using 2 by auto
    then have "nat (m' - m) = Suc (nat (m' - (m + 1)))" by auto
    with IH show ?thesis by auto
  qed
qed

lemma sum_month_lengths: "sum_list (month_lengths leap) = (if leap then 366 else 365)"
  by (simp add: month_lengths_def)

lemma month_length_31: "i < 12 \<Longrightarrow> month_lengths leap ! i \<le> 31"
proof -
  assume "i < 12"
  then have "month_lengths leap ! i \<in> set (month_lengths leap)" by (intro nth_mem) simp
  then show ?thesis by (auto simp: month_lengths_def)
qed

text \<open>The fields of an instant are in range, and determine it.\<close>

lemma civil_of_fields:
  fixes t :: gtime
  defines "c \<equiv> civil_of t"
  shows "1 \<le> cv_month c" "cv_month c \<le> 12" "1 \<le> cv_day c"
    "cv_day c \<le> month_lengths (is_leap (cv_year c)) ! nat (cv_month c - 1)"
    "0 \<le> cv_hour c" "cv_hour c < 24" "0 \<le> cv_minute c" "cv_minute c < 60"
    "0 \<le> cv_second c" "cv_second c < 60" "0 \<le> cv_nanos c" "cv_nanos c < second"
    "time_of_civil c = t"
proof -
  obtain y yd where y: "year_day (day_number t) = (y, yd)" by (cases "year_day (day_number t)")
  obtain m d where m: "month_day (month_lengths (is_leap y)) 1 yd = (m, d)"
    by (cases "month_day (month_lengths (is_leap y)) 1 yd")
  define s where "s = (t div second) mod 86400"
  have s: "0 \<le> s" "s < 86400" by (simp_all add: s_def)
  note yd = year_day_correct [OF y]
  have md: "1 \<le> m \<and> m < 1 + int (length (month_lengths (is_leap y))) \<and> 1 \<le> d \<and>
      d \<le> month_lengths (is_leap y) ! nat (m - 1) \<and>
      sum_list (take (nat (m - 1)) (month_lengths (is_leap y))) + d - 1 = yd"
    by (rule month_day_correct [OF _ _ m]) (use yd in \<open>simp_all add: sum_month_lengths\<close>)
  have c: "c = \<lparr>cv_year = y, cv_month = m, cv_day = d, cv_hour = s div 3600,
      cv_minute = s mod 3600 div 60, cv_second = s mod 60, cv_nanos = t mod second\<rparr>"
    by (simp add: c_def civil_of_def y m s_def Let_def)
  show "1 \<le> cv_month c" "cv_month c \<le> 12" "1 \<le> cv_day c"
    "cv_day c \<le> month_lengths (is_leap (cv_year c)) ! nat (cv_month c - 1)"
    using md by (simp_all add: c)
  show "0 \<le> cv_hour c" "cv_hour c < 24" "0 \<le> cv_minute c" "cv_minute c < 60"
    "0 \<le> cv_second c" "cv_second c < 60" "0 \<le> cv_nanos c" "cv_nanos c < second"
    using s by (simp_all add: c)
  have day: "days_before_year y + sum_list (take (nat (m - 1)) (month_lengths (is_leap y))) + d - 1
      = day_number t"
    using md yd(1) by simp
  have sod: "s div 3600 * 3600 + s mod 3600 div 60 * 60 + s mod 60 = s"
  proof -
    have "s mod 60 = s mod 3600 mod 60" by (simp add: mod_mod_cancel)
    then have "s mod 3600 div 60 * 60 + s mod 60 = s mod 3600" by (simp only: div_mult_mod_eq)
    then show ?thesis by (simp only: add.assoc div_mult_mod_eq)
  qed
  have secs: "day_number t * 86400 + s = t div second"
  proof -
    have "day_number t = t div second div 86400"
      unfolding day_number_def using zdiv_zmult2_eq [of 86400 t second] by (simp add: mult.commute)
    then show ?thesis unfolding s_def by (simp only: div_mult_mod_eq)
  qed
  have "time_of_civil c = (day_number t * 86400 + (s div 3600 * 3600 + s mod 3600 div 60 * 60 + s mod 60)) * second
      + t mod second"
    by (simp add: time_of_civil_def c day [symmetric] algebra_simps)
  also have "\<dots> = t div second * second + t mod second" by (simp only: sod secs)
  also have "\<dots> = t" by (rule div_mult_mod_eq)
  finally show "time_of_civil c = t" .
qed

lemma civil_of_day_31: "cv_day (civil_of t) \<le> 31"
proof -
  have "nat (cv_month (civil_of t) - 1) < 12" using civil_of_fields(1,2) [of t] by simp
  then have "month_lengths (is_leap (cv_year (civil_of t))) ! nat (cv_month (civil_of t) - 1) \<le> 31"
    by (rule month_length_31)
  with civil_of_fields(4) [of t] show ?thesis by linarith
qed

lemma weekday_range: "0 \<le> weekday t" "weekday t < 7"
  by (simp_all add: weekday_def)

section \<open>RFC 3339 text\<close>

fun pad :: "nat \<Rightarrow> nat \<Rightarrow> string" where
  "pad 0 k = []"
| "pad (Suc n) k = pad n (k div 10) @ [digit_char (k mod 10)]"

definition strip_zeros :: "string \<Rightarrow> string" where
  "strip_zeros s = rev (dropWhile (\<lambda>c. c = CHR ''0'') (rev s))"

text \<open>\<^verbatim>\<open>t.UTC().Format(time.RFC3339Nano)\<close> for years 0 to 9999.\<close>

definition format_rfc3339nano :: "gtime \<Rightarrow> string" where
  "format_rfc3339nano t =
     (let c = civil_of t; frac = strip_zeros (pad 9 (nat (cv_nanos c)))
      in pad 4 (nat (cv_year c)) @ ''-'' @ pad 2 (nat (cv_month c)) @ ''-'' @ pad 2 (nat (cv_day c))
         @ ''T'' @ pad 2 (nat (cv_hour c)) @ '':'' @ pad 2 (nat (cv_minute c)) @ '':''
         @ pad 2 (nat (cv_second c)) @ (if frac = [] then [] else CHR ''.'' # frac) @ ''Z'')"

text \<open>Exactly \<open>n\<close> digits, then the rest.\<close>

definition fixed_digits :: "nat \<Rightarrow> string \<Rightarrow> (nat \<times> string) option" where
  "fixed_digits n s =
     (if length s < n then None
      else map_option (\<lambda>k. (k, drop n s)) (digits_val 0 (take n s)))"

definition expect :: "char \<Rightarrow> string \<Rightarrow> string option" where
  "expect c s = (case s of [] \<Rightarrow> None | d # t \<Rightarrow> if d = c then Some t else None)"

definition is_digit :: "char \<Rightarrow> bool" where
  "is_digit c \<longleftrightarrow> digit_val c \<noteq> None"

text \<open>An optional fraction: digits beyond the ninth are dropped.\<close>

definition parse_frac :: "string \<Rightarrow> (nat \<times> string) option" where
  "parse_frac s =
     (case s of
        c # t \<Rightarrow>
          if c = CHR ''.'' \<or> c = CHR '','' then
            (let ds = takeWhile is_digit t; rest = dropWhile is_digit t
             in if ds = [] then None
                else map_option (\<lambda>k. (k, rest)) (digits_val 0 (take 9 (ds @ replicate 9 (CHR ''0'')))))
          else Some (0, s)
      | [] \<Rightarrow> Some (0, s))"

text \<open>The zone: \<^verbatim>\<open>Z\<close>, or a signed offset in hours and minutes (in seconds).\<close>

definition parse_zone :: "string \<Rightarrow> int option" where
  "parse_zone s =
     (if s = ''Z'' then Some 0
      else case s of
        [] \<Rightarrow> None
      | sg # t \<Rightarrow>
          if sg \<noteq> CHR ''+'' \<and> sg \<noteq> CHR ''-'' then None
          else
            Option.bind (fixed_digits 2 t) (\<lambda>(h, t1).
            Option.bind (expect (CHR '':'') t1) (\<lambda>t2.
            Option.bind (fixed_digits 2 t2) (\<lambda>(mi, t3).
              if t3 \<noteq> [] \<or> 24 < h \<or> 60 < mi then None
              else Some ((if sg = CHR ''-'' then -1 else 1) * (int h * 3600 + int mi * 60))))))"

text \<open>The hour may have one digit.\<close>

definition hour_digits :: "string \<Rightarrow> (nat \<times> string) option" where
  "hour_digits s = (if 1 < length s \<and> is_digit (s ! 1) then fixed_digits 2 s else fixed_digits 1 s)"

definition parse_date :: "string \<Rightarrow> ((nat \<times> nat \<times> nat) \<times> string) option" where
  "parse_date s =
     Option.bind (fixed_digits 4 s) (\<lambda>(y, s).
     Option.bind (expect (CHR ''-'') s) (\<lambda>s.
     Option.bind (fixed_digits 2 s) (\<lambda>(mo, s).
     Option.bind (expect (CHR ''-'') s) (\<lambda>s.
     Option.bind (fixed_digits 2 s) (\<lambda>(d, s). Some ((y, mo, d), s))))))"

definition parse_hour_minute :: "string \<Rightarrow> ((nat \<times> nat) \<times> string) option" where
  "parse_hour_minute s =
     Option.bind (hour_digits s) (\<lambda>(h, s).
     Option.bind (expect (CHR '':'') s) (\<lambda>s.
     Option.bind (fixed_digits 2 s) (\<lambda>(mi, s). Some ((h, mi), s))))"

definition parse_seconds :: "string \<Rightarrow> ((nat \<times> nat) \<times> string) option" where
  "parse_seconds s =
     Option.bind (expect (CHR '':'') s) (\<lambda>s.
     Option.bind (fixed_digits 2 s) (\<lambda>(se, s).
     Option.bind (parse_frac s) (\<lambda>(ns, s). Some ((se, ns), s))))"

definition make_time :: "nat \<Rightarrow> nat \<Rightarrow> nat \<Rightarrow> nat \<Rightarrow> nat \<Rightarrow> nat \<Rightarrow> nat \<Rightarrow> gtime option" where
  "make_time y mo d h mi se ns =
     (if mo < 1 \<or> 12 < mo \<or> d < 1 \<or> month_lengths (is_leap (int y)) ! (mo - 1) < int d
         \<or> 23 < h \<or> 59 < mi \<or> 59 < se then None
      else Some (time_of_civil \<lparr>cv_year = int y, cv_month = int mo, cv_day = int d, cv_hour = int h,
                   cv_minute = int mi, cv_second = int se, cv_nanos = int ns\<rparr>))"

text \<open>\<^verbatim>\<open>time.Parse(time.RFC3339, s)\<close>; the fraction is optional in both RFC 3339 layouts.\<close>

definition parse_rfc3339 :: "string \<Rightarrow> gtime option" where
  "parse_rfc3339 s =
     Option.bind (parse_date s) (\<lambda>((y, mo, d), s).
     Option.bind (expect (CHR ''T'') s) (\<lambda>s.
     Option.bind (parse_hour_minute s) (\<lambda>((h, mi), s).
     Option.bind (parse_seconds s) (\<lambda>((se, ns), s).
     Option.bind (parse_zone s) (\<lambda>off.
       map_option (\<lambda>t. t - off * second) (make_time y mo d h mi se ns))))))"

text \<open>\<^verbatim>\<open>time.Parse\<close> with \<^verbatim>\<open>2006-01-02T15:04:05\<close>, \<^verbatim>\<open>2006-01-02T15:04\<close> and \<^verbatim>\<open>2006-01-02\<close>, all in UTC.\<close>

definition parse_date_seconds :: "string \<Rightarrow> gtime option" where
  "parse_date_seconds s =
     Option.bind (parse_date s) (\<lambda>((y, mo, d), s).
     Option.bind (expect (CHR ''T'') s) (\<lambda>s.
     Option.bind (parse_hour_minute s) (\<lambda>((h, mi), s).
     Option.bind (parse_seconds s) (\<lambda>((se, ns), s). if s = [] then make_time y mo d h mi se ns else None))))"

definition parse_date_minutes :: "string \<Rightarrow> gtime option" where
  "parse_date_minutes s =
     Option.bind (parse_date s) (\<lambda>((y, mo, d), s).
     Option.bind (expect (CHR ''T'') s) (\<lambda>s.
     Option.bind (parse_hour_minute s) (\<lambda>((h, mi), s). if s = [] then make_time y mo d h mi 0 0 else None)))"

definition parse_date_only :: "string \<Rightarrow> gtime option" where
  "parse_date_only s =
     Option.bind (parse_date s) (\<lambda>((y, mo, d), s). if s = [] then make_time y mo d 0 0 0 0 else None)"

lemma length_pad [simp]: "length (pad n k) = n"
  by (induction n arbitrary: k) auto

lemma digits_val_pad: "k < 10 ^ n \<Longrightarrow> digits_val 0 (pad n k) = Some k"
proof (induction n arbitrary: k)
  case 0
  then show ?case by simp
next
  case (Suc n)
  then have "k div 10 < 10 ^ n" by (simp add: less_mult_imp_div_less mult.commute)
  then show ?case by (simp add: Suc.IH digits_val_append digit_val_char)
qed

lemma fixed_digits_pad: "k < 10 ^ n \<Longrightarrow> fixed_digits n (pad n k @ s) = Some (k, s)"
  by (simp add: fixed_digits_def digits_val_pad)

lemma expect_Cons [simp]: "expect c (c # s) = Some s"
  by (simp add: expect_def)

lemma pad_digits: "c \<in> set (pad n k) \<Longrightarrow> is_digit c"
  by (induction n arbitrary: k) (auto simp: is_digit_def digit_val_char)

lemma hour_digits_pad: "k < 10 ^ 2 \<Longrightarrow> hour_digits (pad 2 k @ s) = Some (k, s)"
proof -
  assume k: "k < 10 ^ 2"
  have "pad 2 k ! 1 \<in> set (pad 2 k)" by (rule nth_mem) simp
  then have "is_digit (pad 2 k ! 1)" by (rule pad_digits)
  then have "is_digit ((pad 2 k @ s) ! 1)" by (simp add: nth_append)
  then show ?thesis using fixed_digits_pad [OF k] by (simp add: hour_digits_def)
qed

lemma strip_zeros_split: "s = strip_zeros s @ replicate (length s - length (strip_zeros s)) (CHR ''0'')"
proof -
  define z where "z = rev (takeWhile (\<lambda>c. c = CHR ''0'') (rev s))"
  have "rev s = takeWhile (\<lambda>c. c = CHR ''0'') (rev s) @ dropWhile (\<lambda>c. c = CHR ''0'') (rev s)"
    by simp
  then have s: "s = strip_zeros s @ z"
    unfolding strip_zeros_def z_def by (metis rev_append rev_rev_ident)
  have "\<forall>c \<in> set z. c = CHR ''0''" unfolding z_def by (auto dest: set_takeWhileD)
  then have "z = replicate (length z) (CHR ''0'')" by (metis replicate_length_same)
  moreover have "length z = length s - length (strip_zeros s)" by (subst s) simp
  ultimately show ?thesis using s by metis
qed

lemma parse_frac_strip:
  assumes "k < 10 ^ 9"
  shows "parse_frac ((if strip_zeros (pad 9 k) = [] then [] else CHR ''.'' # strip_zeros (pad 9 k)) @ ''Z'')
    = Some (k, ''Z'')"
proof -
  define f where "f = strip_zeros (pad 9 k)"
  have f: "pad 9 k = f @ replicate (9 - length f) (CHR ''0'')" "length f \<le> 9"
    using strip_zeros_split [of "pad 9 k"] unfolding f_def
    by (simp_all, metis length_append length_pad le_add1)
  have dig: "\<forall>c \<in> set f. is_digit c" using pad_digits [of _ 9 k] f(1) by (metis UnCI set_append)
  show ?thesis
  proof (cases "f = []")
    case True
    then have "digits_val 0 (replicate 9 (CHR ''0'')) = Some k"
      using digits_val_pad [OF assms] f by simp
    moreover have "digits_val 0 (replicate 9 (CHR ''0'')) = Some 0"
      by (simp add: numeral_eq_Suc digit_val_def)
    ultimately have "k = 0" by simp
    then show ?thesis unfolding f_def [symmetric] using True by (simp add: parse_frac_def)
  next
    case False
    have z: "\<not> is_digit (CHR ''Z'')" by (simp add: is_digit_def digit_val_def)
    have tw: "takeWhile is_digit (f @ ''Z'') = f" "dropWhile is_digit (f @ ''Z'') = ''Z''"
      using dig z by (simp_all add: takeWhile_append2 dropWhile_append2)
    have "take 9 (f @ replicate 9 (CHR ''0'')) = pad 9 k"
      using f by (simp add: min_def)
    then show ?thesis
      unfolding f_def [symmetric] using False tw digits_val_pad [OF assms] by (simp add: parse_frac_def)
  qed
qed

lemma parse_format:
  assumes "0 \<le> cv_year (civil_of t)" and "cv_year (civil_of t) \<le> 9999"
  shows "parse_rfc3339 (format_rfc3339nano t) = Some t"
proof -
  define c where "c = civil_of t"
  note fld = civil_of_fields [of t, folded c_def]
  have b: "nat (cv_year c) < 10 ^ 4" "nat (cv_month c) < 10 ^ 2" "nat (cv_day c) < 10 ^ 2"
    "nat (cv_hour c) < 10 ^ 2" "nat (cv_minute c) < 10 ^ 2" "nat (cv_second c) < 10 ^ 2"
    "nat (cv_nanos c) < 10 ^ 9"
    using fld assms civil_of_day_31 [of t] by (auto simp: c_def)
  have cc: "\<lparr>cv_year = int (nat (cv_year c)), cv_month = int (nat (cv_month c)),
      cv_day = int (nat (cv_day c)), cv_hour = int (nat (cv_hour c)),
      cv_minute = int (nat (cv_minute c)), cv_second = int (nat (cv_second c)),
      cv_nanos = int (nat (cv_nanos c))\<rparr> = c"
    using fld assms by (cases c) (auto simp: c_def)
  have idx: "nat (cv_month c) - 1 = nat (cv_month c - 1)" using fld by (simp add: nat_diff_distrib)
  have rng: "\<not> (nat (cv_month c) < 1 \<or> 12 < nat (cv_month c) \<or> nat (cv_day c) < 1 \<or>
      month_lengths (is_leap (int (nat (cv_year c)))) ! (nat (cv_month c) - 1) < int (nat (cv_day c)) \<or>
      23 < nat (cv_hour c) \<or> 59 < nat (cv_minute c) \<or> 59 < nat (cv_second c))"
    using fld assms unfolding idx by (auto simp: c_def)
  define F where "F = (if strip_zeros (pad 9 (nat (cv_nanos c))) = [] then []
      else CHR ''.'' # strip_zeros (pad 9 (nat (cv_nanos c)))) @ ''Z''"
  have frac: "parse_frac F = Some (nat (cv_nanos c), ''Z'')"
    unfolding F_def by (rule parse_frac_strip [OF b(7)])
  have fmt: "format_rfc3339nano t = pad 4 (nat (cv_year c)) @ CHR ''-'' # pad 2 (nat (cv_month c)) @
      CHR ''-'' # pad 2 (nat (cv_day c)) @ CHR ''T'' # pad 2 (nat (cv_hour c)) @
      CHR '':'' # pad 2 (nat (cv_minute c)) @ CHR '':'' # pad 2 (nat (cv_second c)) @ F"
    unfolding format_rfc3339nano_def Let_def c_def [symmetric] F_def by simp
  have zone: "parse_zone ''Z'' = Some 0" by (simp add: parse_zone_def)
  show ?thesis
    unfolding fmt parse_rfc3339_def parse_date_def parse_hour_minute_def parse_seconds_def make_time_def
    by (simp only: hour_digits_pad [OF b(4)] fixed_digits_pad [OF b(1)] fixed_digits_pad [OF b(2)] fixed_digits_pad [OF b(3)]
        fixed_digits_pad [OF b(4)] fixed_digits_pad [OF b(5)] fixed_digits_pad [OF b(6)]
        expect_Cons Option.bind.bind_lunit prod.case frac zone cc rng if_False option.map)
       (simp add: fld(13))
qed

end
