(* ===== verification/UpdateStore.thy ===== *)
theory UpdateStore
  imports OsModel GoTime
begin

text \<open>
  The self-update tables of \<^verbatim>\<open>internal/storage/storage.go\<close> and the state of the self-update
  service around them.  The service's world extends the operating system with the two
  tables, the event and audit logs, the registered cancel functions, the job variable the run
  shares by pointer with its steps (\<open>sv_mem\<close>), and the restart requests.  A database call fails by the same schedule as a system call, and fails
  when its context is cancelled; a job's context counts as cancelled from the call number in
  \<open>sv_cancel_at\<close>, so that a theorem over all worlds covers a cancellation at any point.
\<close>

section \<open>Rows\<close>

record update_check =
  uc_id :: string
  uc_current_version :: string
  uc_latest_version :: string
  uc_update_available :: bool
  uc_comparable :: bool
  uc_can_apply :: bool
  uc_reason :: string
  uc_release_id :: string
  uc_release_url :: string
  uc_published_at :: string
  uc_asset_name :: string
  uc_asset_url :: string
  uc_asset_size_bytes :: int
  uc_checksum_asset_url :: string
  uc_checksum_available :: bool
  uc_platform_supported :: bool
  uc_etag :: string
  uc_error_message :: string
  uc_checked_at :: string

record update_job =
  uj_id :: string
  uj_current_version :: string
  uj_target_version :: string
  uj_release_id :: string
  uj_asset_name :: string
  uj_status :: string
  uj_phase :: string
  uj_bytes_downloaded :: int
  uj_total_bytes :: int
  uj_checksum_sha256 :: string
  uj_install_binary_path :: string
  uj_backup_binary_path :: string
  uj_error_message :: string
  uj_created_at :: string
  uj_started_at :: string
  uj_completed_at :: string

definition empty_check :: update_check where
  "empty_check = \<lparr>uc_id = [], uc_current_version = [], uc_latest_version = [], uc_update_available = False,
     uc_comparable = False, uc_can_apply = False, uc_reason = [], uc_release_id = [], uc_release_url = [],
     uc_published_at = [], uc_asset_name = [], uc_asset_url = [], uc_asset_size_bytes = 0,
     uc_checksum_asset_url = [], uc_checksum_available = False, uc_platform_supported = False,
     uc_etag = [], uc_error_message = [], uc_checked_at = []\<rparr>"

definition empty_job :: update_job where
  "empty_job = \<lparr>uj_id = [], uj_current_version = [], uj_target_version = [], uj_release_id = [],
     uj_asset_name = [], uj_status = [], uj_phase = [], uj_bytes_downloaded = 0, uj_total_bytes = 0,
     uj_checksum_sha256 = [], uj_install_binary_path = [], uj_backup_binary_path = [],
     uj_error_message = [], uj_created_at = [], uj_started_at = [], uj_completed_at = []\<rparr>"

text \<open>The hand-off file.\<close>

record handoff_file =
  hf_schema_version :: int
  hf_job_id :: string
  hf_source :: string
  hf_current_version :: string
  hf_target_version :: string
  hf_main_binary_path :: string
  hf_main_backup_path :: string
  hf_supervisor_binary_path :: string
  hf_supervisor_backup_path :: string
  hf_requested_at :: string
  hf_restart_timeout_sec :: int

record svc = os +
  sv_checks :: "update_check list"
  sv_jobs :: "update_job list"
  sv_events :: "(string \<times> string) list"
  sv_audit :: "string list"
  sv_registered :: "string list"
  sv_cancel_at :: "string \<Rightarrow> nat option"
  sv_mem :: update_job
  sv_restarts :: nat
  sv_self_exec :: "string option"

type_synonym ('z, 'a) svc_prog = "('z svc_scheme, goerr, 'a) prog"

datatype ctx = Background | JobCtx string

definition ctx_cancelled :: "ctx \<Rightarrow> 'z svc_scheme \<Rightarrow> bool" where
  "ctx_cancelled c w =
     (case c of Background \<Rightarrow> False
      | JobCtx jid \<Rightarrow> (case sv_cancel_at w jid of None \<Rightarrow> False | Some n \<Rightarrow> n \<le> os_calls w))"

definition err_canceled :: goerr where
  "err_canceled = ErrMsg ''context canceled''"

definition err_not_found :: goerr where
  "err_not_found = ErrMsg ''not found''"

definition err_db :: goerr where
  "err_db = ErrMsg ''database error''"

section \<open>Database calls\<close>

definition db :: "ctx \<Rightarrow> ('z svc_scheme \<Rightarrow> (goerr + 'a) \<times> 'z svc_scheme) \<Rightarrow> ('z, 'a) svc_prog" where
  "db c op = (\<lambda>w.
     let w' = w\<lparr>os_calls := Suc (os_calls w)\<rparr>
     in if ctx_cancelled c w then (Inl err_canceled, w')
        else if os_fault w (os_calls w) then (Inl err_db, w')
        else op w')"

definition db_query :: "ctx \<Rightarrow> ('z svc_scheme \<Rightarrow> 'a option) \<Rightarrow> ('z, 'a) svc_prog" where
  "db_query c q = db c (\<lambda>w. (case q w of None \<Rightarrow> Inl err_not_found | Some x \<Rightarrow> Inr x, w))"

definition db_exec :: "ctx \<Rightarrow> ('z svc_scheme \<Rightarrow> 'z svc_scheme) \<Rightarrow> ('z, unit) svc_prog" where
  "db_exec c f = db c (\<lambda>w. (Inr (), f w))"

text \<open>\<^verbatim>\<open>ids.New(prefix)\<close>: the random part comes from the world, the random source may fail.\<close>

definition new_id :: "string \<Rightarrow> ('z, string) svc_prog" where
  "new_id pre = (\<lambda>w. syscall (\<lambda>f. (Inr (if pre = [] then os_rand w (os_calls w)
      else pre @ ''_'' @ os_rand w (os_calls w)), f)) w)"

definition now_text :: "('z, string) svc_prog" where
  "now_text = bindE now (\<lambda>t. ret (format_rfc3339nano t))"

text \<open>\<^verbatim>\<open>ORDER BY key DESC LIMIT 1\<close>; the first row of several with the greatest key.\<close>

fun latest_by :: "('a \<Rightarrow> string) \<Rightarrow> 'a list \<Rightarrow> 'a option" where
  "latest_by key [] = None"
| "latest_by key (x # xs) =
     (case latest_by key xs of None \<Rightarrow> Some x | Some y \<Rightarrow> if key x < key y then Some y else Some x)"

definition add_system_update_check :: "ctx \<Rightarrow> update_check \<Rightarrow> ('z, update_check) svc_prog" where
  "add_system_update_check c check =
     bindE (new_id ''updc'') (\<lambda>jid.
     bindE now_text (\<lambda>t.
     let row = check\<lparr>uc_id := jid, uc_checked_at := t\<rparr> in
     bindE (db c (\<lambda>w. if jid \<in> uc_id ` set (sv_checks w) then (Inl err_db, w)
                      else (Inr (), w\<lparr>sv_checks := sv_checks w @ [row]\<rparr>))) (\<lambda>_.
     ret row)))"

definition latest_system_update_check :: "ctx \<Rightarrow> ('z, update_check) svc_prog" where
  "latest_system_update_check c = db_query c (\<lambda>w. latest_by uc_checked_at (sv_checks w))"

definition create_system_update_job :: "ctx \<Rightarrow> update_job \<Rightarrow> ('z, update_job) svc_prog" where
  "create_system_update_job c job =
     bindE (new_id ''upd'') (\<lambda>jid.
     bindE now_text (\<lambda>t.
     let status = trim_space (uj_status job); phase = trim_space (uj_phase job);
         row = job\<lparr>uj_id := jid,
                   uj_status := (if status = [] then ''running'' else status),
                   uj_phase := (if phase = [] then ''created'' else phase),
                   uj_created_at := t\<rparr> in
     bindE (db c (\<lambda>w. if jid \<in> uj_id ` set (sv_jobs w) then (Inl err_db, w)
                      else (Inr (), w\<lparr>sv_jobs := sv_jobs w @ [row]\<rparr>))) (\<lambda>_.
     ret row)))"

definition lookup_job :: "update_job list \<Rightarrow> string \<Rightarrow> update_job option" where
  "lookup_job jobs jid = List.find (\<lambda>j. uj_id j = jid) jobs"

definition get_system_update_job :: "ctx \<Rightarrow> string \<Rightarrow> ('z, update_job) svc_prog" where
  "get_system_update_job c jid = db_query c (\<lambda>w. lookup_job (sv_jobs w) jid)"

definition latest_system_update_job :: "ctx \<Rightarrow> ('z, update_job) svc_prog" where
  "latest_system_update_job c = db_query c (\<lambda>w. latest_by uj_created_at (sv_jobs w))"

definition active_status :: "string \<Rightarrow> bool" where
  "active_status s \<longleftrightarrow> s = ''queued'' \<or> s = ''running'' \<or> s = ''restarting''"

definition active_system_update_job :: "ctx \<Rightarrow> ('z, update_job) svc_prog" where
  "active_system_update_job c =
     db_query c (\<lambda>w. latest_by uj_created_at (filter (\<lambda>j. active_status (uj_status j)) (sv_jobs w)))"

text \<open>The columns \<^verbatim>\<open>SaveSystemUpdateJob\<close> updates; the others keep their stored value.\<close>

definition save_columns :: "update_job \<Rightarrow> update_job \<Rightarrow> update_job" where
  "save_columns job row =
     row\<lparr>uj_status := uj_status job, uj_phase := uj_phase job,
         uj_bytes_downloaded := uj_bytes_downloaded job, uj_total_bytes := uj_total_bytes job,
         uj_checksum_sha256 := uj_checksum_sha256 job,
         uj_install_binary_path := uj_install_binary_path job,
         uj_backup_binary_path := uj_backup_binary_path job,
         uj_error_message := uj_error_message job,
         uj_started_at := uj_started_at job, uj_completed_at := uj_completed_at job\<rparr>"

definition save_row :: "update_job \<Rightarrow> update_job list \<Rightarrow> update_job list" where
  "save_row job jobs = map (\<lambda>r. if uj_id r = uj_id job then save_columns job r else r) jobs"

definition save_system_update_job :: "ctx \<Rightarrow> update_job \<Rightarrow> ('z, unit) svc_prog" where
  "save_system_update_job c job = db_exec c (\<lambda>w. w\<lparr>sv_jobs := save_row job (sv_jobs w)\<rparr>)"

definition stale_status :: "string \<Rightarrow> bool" where
  "stale_status s \<longleftrightarrow> s = ''queued'' \<or> s = ''running''"

text \<open>The ids a start-up clean-up reports, in \<^verbatim>\<open>ORDER BY created_at ASC\<close>.\<close>

definition stale_ids :: "update_job list \<Rightarrow> string list" where
  "stale_ids jobs = map uj_id (sort_key uj_created_at (filter (\<lambda>j. stale_status (uj_status j)) jobs))"

definition fail_stale_row :: "string \<Rightarrow> string \<Rightarrow> update_job \<Rightarrow> update_job" where
  "fail_stale_row message t r =
     (if stale_status (uj_status r)
      then r\<lparr>uj_status := ''failed'', uj_error_message := message, uj_completed_at := t\<rparr> else r)"

definition interrupt_stale_system_update_jobs :: "ctx \<Rightarrow> string \<Rightarrow> ('z, string list) svc_prog" where
  "interrupt_stale_system_update_jobs c message =
     bindE (db_query c (\<lambda>w. Some (stale_ids (sv_jobs w)))) (\<lambda>ids.
     if ids = [] then ret []
     else let msg = (if trim_space message = [] then ''stale update job failed at start-up'' else message) in
       bindE now_text (\<lambda>t.
       seqE (db_exec c (\<lambda>w. w\<lparr>sv_jobs := map (fail_stale_row msg t) (sv_jobs w)\<rparr>)) (ret ids)))"

text \<open>
  \<^verbatim>\<open>Service.append\<close>: an event row (scope jid and type; payloads are display data); a failure is
  ignored.  \<^verbatim>\<open>AddAudit\<close>, whose result every caller ignores.
\<close>

definition append_event :: "ctx \<Rightarrow> string \<Rightarrow> string \<Rightarrow> ('z, unit) svc_prog" where
  "append_event c scope_id typ =
     bindE (attempt (db_exec c (\<lambda>w. w\<lparr>sv_events := (scope_id, typ) # sv_events w\<rparr>)))
       (\<lambda>_ :: goerr + unit. ret ())"

definition add_audit :: "ctx \<Rightarrow> string \<Rightarrow> ('z, unit) svc_prog" where
  "add_audit c typ =
     bindE (attempt (db_exec c (\<lambda>w. w\<lparr>sv_audit := typ # sv_audit w\<rparr>))) (\<lambda>_ :: goerr + unit. ret ())"

section \<open>The job table as an interface\<close>

text \<open>
  What the service relies on: a lookup after a save sees the saved columns of that row and
  leaves every other row alone.
\<close>

locale job_table =
  fixes lookup :: "'t \<Rightarrow> string \<Rightarrow> update_job option"
    and save :: "update_job \<Rightarrow> 't \<Rightarrow> 't"
  assumes lookup_id: "lookup t jid = Some j \<Longrightarrow> uj_id j = jid"
    and lookup_save: "lookup (save j t) jid =
      (if jid = uj_id j then map_option (save_columns j) (lookup t jid) else lookup t jid)"
begin

lemma lookup_after_save:
  "lookup t (uj_id j) = Some r \<Longrightarrow> lookup (save j t) (uj_id j) = Some (save_columns j r)"
  by (simp add: lookup_save)

lemma saves_other: "\<forall>j \<in> set js. uj_id j \<noteq> jid \<Longrightarrow> lookup (fold save js t) jid = lookup t jid"
  by (induction js arbitrary: t) (auto simp: lookup_save)

text \<open>Of several saves of one job the last one decides its status and phase.\<close>

lemma last_save_wins:
  assumes "lookup t (uj_id j) = Some r" and "\<forall>k \<in> set js. uj_id k \<noteq> uj_id j"
  shows "\<exists>r'. lookup (fold save js (save j t)) (uj_id j) = Some r' \<and>
    uj_status r' = uj_status j \<and> uj_phase r' = uj_phase j \<and> uj_error_message r' = uj_error_message j"
  using assms saves_other [of js "uj_id j" "save j t"]
  by (auto simp: lookup_after_save save_columns_def)

lemma lookup_keeps_identity:
  "lookup (save j t) jid = Some r \<Longrightarrow>
   \<exists>r0. lookup t jid = Some r0 \<and> uj_target_version r = uj_target_version r0 \<and>
        uj_current_version r = uj_current_version r0 \<and> uj_created_at r = uj_created_at r0"
  by (auto simp: lookup_save save_columns_def split: if_splits)

end

lemma uj_id_save_columns [simp]: "uj_id (save_columns j r) = uj_id r"
  by (simp add: save_columns_def)

lemma find_save_row:
  "List.find (\<lambda>r. uj_id r = jid) (save_row j jobs) =
    (if jid = uj_id j then map_option (save_columns j) (List.find (\<lambda>r. uj_id r = jid) jobs)
     else List.find (\<lambda>r. uj_id r = jid) jobs)"
  by (induction jobs) (auto simp: save_row_def)

interpretation jobs: job_table lookup_job save_row
proof
  show "uj_id j = jid" if "lookup_job t jid = Some j" for t jid j
    using that by (auto simp: lookup_job_def find_Some_iff)
  show "lookup_job (save_row j t) jid =
      (if jid = uj_id j then map_option (save_columns j) (lookup_job t jid) else lookup_job t jid)"
    for j t jid
    unfolding lookup_job_def by (rule find_save_row)
qed

lemma ids_save_row [simp]: "map uj_id (save_row j jobs) = map uj_id jobs"
  by (induction jobs) (auto simp: save_row_def)

section \<open>The greatest row\<close>

lemma latest_by_None [simp]: "latest_by key xs = None \<longleftrightarrow> xs = []"
  by (cases xs) (auto split: option.split)

lemma latest_by_Some:
  "latest_by key xs = Some y \<Longrightarrow> y \<in> set xs \<and> (\<forall>x \<in> set xs. key x \<le> key y)"
proof (induction xs arbitrary: y)
  case Nil
  then show ?case by simp
next
  case (Cons x xs)
  show ?case
  proof (cases "latest_by key xs")
    case None
    then show ?thesis using Cons.prems by auto
  next
    case (Some z)
    then show ?thesis using Cons.prems Cons.IH [OF Some] by (auto split: if_splits)
  qed
qed

section \<open>Frames of the database calls\<close>

lemma db_pres:
  assumes "\<And>w. os_fs (snd (op w)) = os_fs w \<and> os_hist (snd (op w)) = os_hist w \<and>
    os_names (snd (op w)) = os_names w \<and> os_clock (snd (op w)) = os_clock w \<and> os_uid (snd (op w)) = os_uid w"
  shows "keeps (pres A) (db c op)"
proof -
  have "pres A w (snd (db c op w))" for w
  proof -
    have "os_fs (snd (db c op w)) = os_fs w" "os_hist (snd (db c op w)) = os_hist w"
      "os_names (snd (db c op w)) = os_names w" "os_clock (snd (db c op w)) = os_clock w"
      "os_uid (snd (db c op w)) = os_uid w"
      using assms [of "w\<lparr>os_calls := Suc (os_calls w)\<rparr>"] by (auto simp: db_def Let_def)
    then show ?thesis by (simp add: pres_def all_states_def)
  qed
  then show ?thesis by (simp add: keeps_def)
qed

lemma db_query_pres: "keeps (pres A) (db_query c q)"
  unfolding db_query_def by (rule db_pres) simp

lemma new_id_pres: "keeps (pres A) (new_id p)"
  unfolding new_id_def by (rule keeps_syscall_state) simp

lemma now_text_pres: "keeps (pres A) now_text"
  unfolding now_text_def by (intro touch_rules keeps_now)

lemma append_event_pres: "keeps (pres A) (append_event c i t)"
  unfolding append_event_def db_exec_def by (intro touch_rules db_pres) simp

lemma add_audit_pres: "keeps (pres A) (add_audit c t)"
  unfolding add_audit_def db_exec_def by (intro touch_rules db_pres) simp

lemma save_job_pres: "keeps (pres A) (save_system_update_job c j)"
  unfolding save_system_update_job_def db_exec_def by (rule db_pres) simp

end
