(* ===== verification/Installer.thy ===== *)
theory Installer
  imports UpdateStore "HOL-Library.Multiset"
begin

text \<open>
  \<^verbatim>\<open>internal/selfupdate/installer.go\<close>: copying files, replacing the running binary, backing it up,
  restoring a backup and pruning old backups.  The database backup (SQLite's online backup)
  is a parameter program.  The locale \<open>atomic_replacement\<close> states what a replacement promises
  at every crash point; it is interpreted for the three replacements of the file.
\<close>

section \<open>Configuration\<close>

text \<open>
  The fields of \<^verbatim>\<open>selfupdate.Config\<close> the modelled code reads.  \<open>cf_executable\<close> is what
  \<^verbatim>\<open>os.Executable\<close> with \<^verbatim>\<open>EvalSymlinks\<close> returns, \<open>cf_log\<close> whether a logger is set, \<open>cf_prepare_exec\<close> and
  \<open>cf_request_restart\<close> whether the callbacks are set.
\<close>

record update_cfg =
  cf_enabled :: bool
  cf_asset_name :: string
  cf_restart_mode :: string
  cf_install_binary_path :: string
  cf_data_dir :: string
  cf_backup_retention :: int
  cf_restart_timeout :: duration
  cf_allow_insecure :: bool
  cf_version :: string
  cf_platform :: bool
  cf_executable :: "string option"
  cf_log :: bool
  cf_prepare_exec :: bool
  cf_request_restart :: bool

definition perm :: "finfo \<Rightarrow> nat" where
  "perm i = fi_mode i AND 511"

section \<open>File operations\<close>

definition copy_file :: "string \<Rightarrow> string \<Rightarrow> nat \<Rightarrow> ('z, unit) os_prog" where
  "copy_file from to mode =
     seqE (os_open_read from)
    (seqE (os_open_trunc to mode)
    (seqE (os_copy_data from to)
    (seqE (os_chmod to mode) os_sync)))"

definition preserve_ownership :: "string \<Rightarrow> finfo \<Rightarrow> ('z, unit) os_prog" where
  "preserve_ownership path reference =
     bindE (get_state os_uid) (\<lambda>u.
     if u \<noteq> 0 then ret () else os_chown path (fi_uid reference) (fi_gid reference))"

definition fsync_dir :: "string \<Rightarrow> ('z, unit) os_prog" where
  "fsync_dir dir = seqE (os_open_read dir) os_sync"

definition ensure_writable_dir :: "string \<Rightarrow> ('z, unit) os_prog" where
  "ensure_writable_dir dir =
     bindE (os_stat dir) (\<lambda>info.
     if fi_kind info \<noteq> Directory then throw (ErrMsg ''install directory is not a directory'')
     else bindE (os_create_temp dir ''.phantom-lancer-write-test-'') (\<lambda>name.
          bindE (attempt os_sync) (\<lambda>_ :: goerr + unit. os_remove name)))"

definition safe_char :: "char \<Rightarrow> bool" where
  "safe_char c = ((CHR ''a'' \<le> c \<and> c \<le> CHR ''z'') \<or> (CHR ''A'' \<le> c \<and> c \<le> CHR ''Z'') \<or>
     (CHR ''0'' \<le> c \<and> c \<le> CHR ''9'') \<or> c = CHR ''.'' \<or> c = CHR ''-'' \<or> c = CHR ''_'')"

fun safe_rune :: "string \<Rightarrow> string" where
  "safe_rune [c] = (if safe_char c then [c] else ''_'')"
| "safe_rune r = ''_''"

definition safe_name :: "string \<Rightarrow> string" where
  "safe_name value =
     (let v = trim_space value in if v = [] then ''unknown'' else concat (map safe_rune (runes v)))"

definition install_path :: "update_cfg \<Rightarrow> ('z, string) os_prog" where
  "install_path cfg =
     (if trim_space (cf_install_binary_path cfg) \<noteq> [] then ret (path_clean (cf_install_binary_path cfg))
      else case cf_executable cfg of None \<Rightarrow> throw (ErrMsg ''executable path unavailable'') | Some p \<Rightarrow> ret p)"

definition validate_backup_binary :: "string \<Rightarrow> ('z, finfo) os_prog" where
  "validate_backup_binary path =
     (if trim_space path = [] then throw (ErrMsg ''backup binary path is empty'')
      else bindE (or_wrap ''backup binary is not readable'' (os_stat path)) (\<lambda>info.
        if fi_kind info \<noteq> Regular then throw (ErrMsg ''backup binary path is not a regular file'')
        else if perm info AND 73 = 0 then throw (ErrMsg ''backup binary is not executable'')
        else ret info))"

section \<open>Replacing a binary\<close>

text \<open>
  The tail the three replacements share: copy to a temporary file beside the target, give it
  the reference's owner, rename it over the target, flush the directory.
\<close>

definition swap_in :: "string \<Rightarrow> string \<Rightarrow> string \<Rightarrow> string \<Rightarrow> string \<Rightarrow> string \<Rightarrow> nat \<Rightarrow> finfo \<Rightarrow> ('z, unit) os_prog" where
  "swap_in copy_msg own_msg ren_msg src tmp target mode reference =
     seqE (or_cleanup (os_remove tmp) copy_msg (copy_file src tmp mode))
    (seqE (or_cleanup (os_remove tmp) own_msg (preserve_ownership tmp reference))
    (seqE (or_cleanup (os_remove tmp) ren_msg (os_rename tmp target))
          (fsync_dir (path_dir target))))"

definition restore_tmp :: "string \<Rightarrow> string" where
  "restore_tmp target = path_join [path_dir target, ''.phantom-lancer.rollback.tmp'']"

definition restore_backup :: "string \<Rightarrow> string \<Rightarrow> ('z, unit) os_prog" where
  "restore_backup target backup =
     (if trim_space target = [] \<or> trim_space backup = []
      then throw (ErrMsg ''RestoreBackup: both paths must be provided'')
      else
        bindE (validate_backup_binary backup) (\<lambda>backup_info.
        seqE (ensure_writable_dir (path_dir target))
       (bindE (attempt (os_stat target)) (\<lambda>st :: goerr + finfo.
        let info = (case st of Inl _ \<Rightarrow> backup_info | Inr i \<Rightarrow> i) in
        bindE (attempt (os_remove (restore_tmp target))) (\<lambda>_ :: goerr + unit.
        swap_in ''copy backup binary failed'' ''preserve restored binary ownership failed''
          ''replace binary from backup failed'' backup (restore_tmp target) target
          (perm info OR 73) info)))))"

definition supervisor_path :: "string \<Rightarrow> string" where
  "supervisor_path target = path_join [path_dir target, ''phantom-supervisor'']"

definition install_supervisor :: "update_cfg \<Rightarrow> string \<Rightarrow> string \<Rightarrow> finfo \<Rightarrow> ('z, unit) os_prog" where
  "install_supervisor cfg jid staged info =
     bindE (install_path cfg) (\<lambda>p.
     let target = supervisor_path p;
         tmp = path_join [path_dir target, ''.phantom-supervisor.'' @ jid @ ''.tmp''];
         mode = (if perm info AND 73 = 0 then perm info OR 493 else perm info) in
     bindE (attempt (os_remove tmp)) (\<lambda>_ :: goerr + unit.
     swap_in ''copy staged supervisor failed'' ''preserve supervisor ownership failed''
       ''replace supervisor binary failed'' staged tmp target mode info))"

section \<open>Pruning old backups\<close>

text \<open>The index of the oldest item, the first one of several equally old.\<close>

fun oldest_from :: "nat \<Rightarrow> nat \<Rightarrow> (string \<times> gtime) list \<Rightarrow> (string \<times> gtime) list \<Rightarrow> nat" where
  "oldest_from oldest index items [] = oldest"
| "oldest_from oldest index items (x # xs) =
     oldest_from (if snd x < snd (items ! oldest) then index else oldest) (Suc index) items xs"

definition oldest :: "(string \<times> gtime) list \<Rightarrow> nat" where
  "oldest items = oldest_from 0 1 items (tl items)"

text \<open>The removal loop: the names removed in order, and the items kept.\<close>

function prune_plan :: "nat \<Rightarrow> (string \<times> gtime) list \<Rightarrow> string list \<times> (string \<times> gtime) list" where
  "prune_plan k items =
     (if length items \<le> k then ([], items)
      else let o1 = oldest items; (vs, kept) = prune_plan k (take o1 items @ drop (Suc o1) items)
           in (fst (items ! o1) # vs, kept))"
  by pat_completeness auto

lemma oldest_from_bounds:
  "items \<noteq> [] \<Longrightarrow> b < length items \<Longrightarrow> n + length xs = length items \<Longrightarrow> oldest_from b n items xs < length items"
  by (induction xs arbitrary: b n) auto

lemma oldest_less: "items \<noteq> [] \<Longrightarrow> oldest items < length items"
  unfolding oldest_def by (rule oldest_from_bounds) (auto simp: Suc_le_eq)

termination prune_plan
proof (relation "measure (length o snd)", goal_cases)
  case 1
  show ?case by simp
next
  case (2 k items x)
  then have "oldest items < length items" by (intro oldest_less) auto
  with 2 show ?case by simp
qed

declare prune_plan.simps [simp del]

fun remove_all :: "string \<Rightarrow> string list \<Rightarrow> ('z, unit) os_prog" where
  "remove_all dir [] = ret ()"
| "remove_all dir (n # ns) =
     bindE (attempt (os_remove (path_join [dir, n]))) (\<lambda>_ :: goerr + unit. remove_all dir ns)"

definition regular_items :: "(string \<times> finfo) list \<Rightarrow> (string \<times> gtime) list" where
  "regular_items es = map (\<lambda>(n, i). (n, fi_mtime i)) (filter (\<lambda>(n, i). fi_kind i = Regular) es)"

definition prune_backups :: "update_cfg \<Rightarrow> string \<Rightarrow> ('z, unit) os_prog" where
  "prune_backups cfg dir =
     (if cf_backup_retention cfg \<le> 0 then ret ()
      else bindE (attempt (os_read_dir dir)) (\<lambda>r :: goerr + (string \<times> finfo) list.
        case r of Inl _ \<Rightarrow> ret ()
        | Inr es \<Rightarrow>
            if int (length es) \<le> cf_backup_retention cfg then ret ()
            else remove_all dir (fst (prune_plan (nat (cf_backup_retention cfg)) (regular_items es)))))"

definition pre_update_db :: "string \<Rightarrow> bool" where
  "pre_update_db name = (has_prefix name ''pre-update-'' \<and> has_suffix name ''.db'')"

definition prune_database_backups :: "update_cfg \<Rightarrow> ('z, unit) os_prog" where
  "prune_database_backups cfg =
     (if cf_backup_retention cfg \<le> 0 then ret ()
      else let dir = path_join [cf_data_dir cfg, ''backups''] in
        bindE (attempt (os_read_dir dir)) (\<lambda>r :: goerr + (string \<times> finfo) list.
        case r of Inl _ \<Rightarrow> ret ()
        | Inr es \<Rightarrow>
            remove_all dir (fst (prune_plan (nat (cf_backup_retention cfg))
              (regular_items (filter (\<lambda>(n, i). pre_update_db n) es))))))"

section \<open>The installation\<close>

record install_result =
  ir_install_path :: string
  ir_backup_path :: string
  ir_supervisor_installed :: bool
  ir_supervisor_backup_path :: string

text \<open>\<^verbatim>\<open>Format("20060102T150405Z")\<close> of a UTC time.\<close>

definition backup_stamp :: "gtime \<Rightarrow> string" where
  "backup_stamp t =
     (let c = civil_of t in
      pad 4 (nat (cv_year c)) @ pad 2 (nat (cv_month c)) @ pad 2 (nat (cv_day c)) @ ''T'' @
      pad 2 (nat (cv_hour c)) @ pad 2 (nat (cv_minute c)) @ pad 2 (nat (cv_second c)) @ ''Z'')"

definition backup_dir :: "update_cfg \<Rightarrow> string" where
  "backup_dir cfg = path_join [cf_data_dir cfg, ''updates'', ''backups'']"

definition backup_path :: "update_cfg \<Rightarrow> string \<Rightarrow> gtime \<Rightarrow> string" where
  "backup_path cfg current t =
     path_join [backup_dir cfg, ''phantom-lancer-'' @ safe_name current @ ''-'' @ backup_stamp t]"

definition db_backup_path :: "update_cfg \<Rightarrow> string \<Rightarrow> string" where
  "db_backup_path cfg jid = path_join [cf_data_dir cfg, ''backups'', ''pre-update-'' @ jid @ ''.db'']"

definition install_tmp :: "string \<Rightarrow> string \<Rightarrow> string" where
  "install_tmp p jid = path_join [path_dir p, ''.phantom-lancer.'' @ jid @ ''.tmp'']"

text \<open>The database backup step, with \<open>backup_db\<close> for \<^verbatim>\<open>BackupDatabaseWithProgress\<close>.\<close>

definition install_db_backup ::
  "update_cfg \<Rightarrow> (string \<Rightarrow> ('z, unit) svc_prog) \<Rightarrow> ctx \<Rightarrow> string \<Rightarrow> ('z, unit) svc_prog" where
  "install_db_backup cfg backup_db c jid =
     seqE (os_mkdir_all (path_join [cf_data_dir cfg, ''backups'']))
    (seqE (append_event c jid ''update.install.db_backup.started'')
    (bindE (attempt (backup_db (db_backup_path cfg jid))) (\<lambda>r :: goerr + unit. case r of
       Inl e \<Rightarrow> seqE (append_event c jid ''update.install.db_backup.failed'')
                    (throw (ErrWrap ''database backup failed'' e))
     | Inr _ \<Rightarrow> append_event c jid ''update.install.db_backup.completed'')))"

text \<open>The best-effort copy of the installed supervisor: whether it was written.\<close>

definition backup_supervisor :: "string \<Rightarrow> string \<Rightarrow> ('z, bool) os_prog" where
  "backup_supervisor p sbackup =
     bindE (attempt (os_stat (supervisor_path p))) (\<lambda>r :: goerr + finfo. case r of
       Inl _ \<Rightarrow> ret False
     | Inr i \<Rightarrow> if fi_kind i \<noteq> Regular then ret False
               else bindE (attempt (copy_file (supervisor_path p) sbackup (perm i))) (\<lambda>b :: goerr + unit.
                    ret (case b of Inl _ \<Rightarrow> False | Inr _ \<Rightarrow> True)))"

text \<open>From the path lookup to the replaced main binary.\<close>

definition install_main ::
  "update_cfg \<Rightarrow> (string \<Rightarrow> ('z, unit) svc_prog) \<Rightarrow> ctx \<Rightarrow> string \<Rightarrow> string \<Rightarrow> string \<Rightarrow>
   ('z, string \<times> string \<times> bool \<times> finfo) svc_prog" where
  "install_main cfg backup_db c jid staged current =
     bindE (install_path cfg) (\<lambda>p.
     seqE (ensure_writable_dir (path_dir p))
    (seqE (install_db_backup cfg backup_db c jid)
    (seqE (os_mkdir_all (backup_dir cfg))
    (bindE now (\<lambda>t.
     let backup = backup_path cfg current t in
     bindE (or_wrap ''current binary is not readable'' (os_stat p)) (\<lambda>info.
     if fi_kind info \<noteq> Regular then throw (ErrMsg ''current binary path is not a regular file'')
     else
       seqE (or_wrap ''backup current binary failed'' (copy_file p backup (perm info)))
      (bindE (backup_supervisor p (backup @ ''.supervisor'')) (\<lambda>written.
       seqE (append_event c jid ''update.install.binary_backup.completed'')
      (seqE (swap_in ''copy staged binary failed'' ''preserve binary ownership failed'' ''replace binary failed''
               staged (install_tmp p jid) p (perm info) info)
      (seqE (append_event c jid ''update.install.binary_replace.completed'')
            (ret (p, backup, written, info))))))))))))"

definition install ::
  "update_cfg \<Rightarrow> (string \<Rightarrow> ('z, unit) svc_prog) \<Rightarrow> ctx \<Rightarrow> string \<Rightarrow> string \<Rightarrow> string \<Rightarrow> string \<Rightarrow>
   ('z, install_result) svc_prog" where
  "install cfg backup_db c jid staged staged_supervisor current =
     bindE (install_main cfg backup_db c jid staged current) (\<lambda>(p, backup, written, info).
     let sbackup = (if written then backup @ ''.supervisor'' else []) in
     bindE (if trim_space staged_supervisor \<noteq> []
            then bindE (attempt (install_supervisor cfg jid staged_supervisor info)) (\<lambda>r :: goerr + unit.
                 ret (case r of Inl _ \<Rightarrow> (False, []) | Inr _ \<Rightarrow> (True, sbackup)))
            else ret (False, sbackup)) (\<lambda>(installed, sup_backup).
     seqE (prune_backups cfg (backup_dir cfg))
    (seqE (prune_database_backups cfg)
          (ret \<lparr>ir_install_path = p, ir_backup_path = backup, ir_supervisor_installed = installed,
               ir_supervisor_backup_path = sup_backup\<rparr>))))"

section \<open>What each operation touches\<close>

lemma keeps_whenI: "(b \<Longrightarrow> keeps R m) \<Longrightarrow> (\<not> b \<Longrightarrow> keeps R n) \<Longrightarrow> keeps R (if b then m else n)"
  by simp

lemma keeps_copy_file: "to \<in> A \<Longrightarrow> keeps (pres A) (copy_file from to mode)"
  unfolding copy_file_def by (intro touch_rules keeps_calls)

lemma keeps_preserve_ownership: "p \<in> A \<Longrightarrow> keeps (pres A) (preserve_ownership p i)"
  unfolding preserve_ownership_def by (intro touch_rules keeps_calls keeps_whenI)

lemma keeps_fsync_dir: "keeps (pres A) (fsync_dir d)"
  unfolding fsync_dir_def by (intro touch_rules keeps_calls)

lemma keeps_validate_backup: "keeps (pres A) (validate_backup_binary p)"
  unfolding validate_backup_binary_def by (intro touch_rules keeps_calls keeps_whenI)

lemma keeps_install_path: "keeps (pres A) (install_path cfg)"
  unfolding install_path_def by (auto split: option.split intro: touch_rules)

lemma keeps_swap_in:
  "tmp \<in> A \<Longrightarrow> target \<in> A \<Longrightarrow> keeps (pres A) (swap_in a b c src tmp target mode i)"
  unfolding swap_in_def
  by (intro touch_rules keeps_calls keeps_copy_file keeps_preserve_ownership keeps_fsync_dir)

text \<open>The probe file is one that did not exist, so no file that exists is lost.\<close>

lemma pres_create_temp:
  assumes "os_create_temp d pat w = (r, w1)"
  shows "pres {} w w1 \<and> (\<forall>name. r = Inr name \<longrightarrow> os_fs w name = None)"
  using assms keepsD [OF keeps_create_temp, of d pat w r w1 "{}"]
  by (auto simp: os_create_temp_def syscall_def Let_def split: if_splits prod.splits)

lemma keeps_ensure_writable_dir: "keeps (pres {}) (ensure_writable_dir d)"
proof -
  have tail: "pres {} w (snd (bindE (os_create_temp d pat) (\<lambda>name.
      bindE (attempt os_sync) (\<lambda>_ :: goerr + unit. os_remove name)) w))" for pat and w :: "'a os_scheme"
  proof -
    obtain r w1 where r: "os_create_temp d pat w = (r, w1)" by fastforce
    show ?thesis
    proof (cases r)
      case (Inl e)
      then show ?thesis using r pres_create_temp [OF r] by (simp add: bindE_def)
    next
      case (Inr name)
      have new: "os_fs w name = None" and p1: "pres {} w w1"
        using pres_create_temp [OF r] Inr by auto
      have "keeps (pres {name}) (bindE (attempt os_sync) (\<lambda>_ :: goerr + unit. os_remove name) :: ('a, unit) os_prog)"
        by (intro touch_rules keeps_calls) simp
      then have "pres {name} w1 (snd (bindE (attempt os_sync) (\<lambda>_ :: goerr + unit. os_remove name) w1))"
        by (simp add: keeps_def)
      then have "pres {name} w (snd (bindE (attempt os_sync) (\<lambda>_ :: goerr + unit. os_remove name) w1))"
        using pres_mono [OF p1, of "{name}"] by (auto intro: pres_trans)
      then have "pres {} w (snd (bindE (attempt os_sync) (\<lambda>_ :: goerr + unit. os_remove name) w1))"
        using new by (rule pres_drop_new)
      then show ?thesis using r Inr by (simp add: bindE_def)
    qed
  qed
  show ?thesis
    unfolding ensure_writable_dir_def
    by (rule touch.keeps_bindE [OF keeps_stat], rule keeps_whenI [OF touch.keeps_throw])
       (simp add: keeps_def [of _ "bindE _ _"] tail)
qed

section \<open>What the copy produces\<close>

lemma syscall_Inr:
  "syscall op w = (Inr x, w') \<longleftrightarrow> \<not> os_fault w (os_calls w) \<and> fst (op (os_fs w)) = Inr x \<and>
     w' = w\<lparr>os_calls := Suc (os_calls w), os_fs := snd (op (os_fs w)),
             os_hist := snd (op (os_fs w)) # os_hist w\<rparr>"
  by (cases "op (os_fs w)"; cases "fst (op (os_fs w))") (auto simp: syscall_def Let_def)

lemma open_trunc_Inr:
  assumes "os_open_trunc p mode w = (Inr x, w')"
  obtains i where "os_fs w' = (os_fs w)(p \<mapsto> i)" "fi_kind i = Regular"
  using assms by (auto simp: os_open_trunc_def syscall_Inr split: option.splits if_splits)

lemma copy_data_Inr:
  assumes "os_copy_data src tmp w = (Inr x, w')"
  obtains s d where "os_fs w src = Some s" "fi_kind s = Regular" "os_fs w tmp = Some d"
    "os_fs w' = (os_fs w)(tmp \<mapsto> d\<lparr>fi_data := fi_data s, fi_mtime := os_clock w (os_calls w)\<rparr>)"
  using assms by (auto simp: os_copy_data_def Let_def split: option.splits if_splits)

lemma chmod_Inr:
  assumes "os_chmod p mode w = (Inr x, w')"
  obtains i where "os_fs w p = Some i" "os_fs w' = (os_fs w)(p \<mapsto> i\<lparr>fi_mode := mode\<rparr>)"
  using assms by (auto simp: os_chmod_def syscall_Inr split: option.splits)

lemma sync_Inr: "os_sync w = (Inr x, w') \<Longrightarrow> os_fs w' = os_fs w"
  by (simp add: os_sync_def syscall_Inr)

lemma open_read_Inr: "os_open_read p w = (Inr x, w') \<Longrightarrow> os_fs w' = os_fs w"
  by (auto simp: os_open_read_def syscall_Inr)

lemma chown_Inr:
  assumes "os_chown p u g w = (Inr x, w')"
  obtains i where "os_fs w p = Some i" "os_fs w' = (os_fs w)(p \<mapsto> i\<lparr>fi_uid := u, fi_gid := g\<rparr>)"
  using assms by (auto simp: os_chown_def syscall_Inr split: option.splits)

lemma rename_cases:
  assumes "os_rename a b w = (r, w')" and "a \<noteq> b"
  shows "os_fs w' = os_fs w \<and> r \<noteq> Inr () \<or>
    (\<exists>i. os_fs w a = Some i \<and> os_fs w' = (os_fs w)(b \<mapsto> i, a := None) \<and> r = Inr ())"
  using assms by (auto simp: os_rename_def syscall_def Let_def split: option.splits if_splits)

lemma rename_hist:
  assumes "os_rename a b w = (r, w')"
  shows "os_hist w' = os_fs w' # os_hist w"
  using assms by (auto simp: os_rename_def syscall_def Let_def split: prod.splits)

text \<open>\<open>replica s mode i\<close>: the file \<open>i\<close> is a complete copy of \<open>s\<close> with permissions \<open>mode\<close>.\<close>

definition replica :: "finfo \<Rightarrow> nat \<Rightarrow> finfo \<Rightarrow> bool" where
  "replica s mode i \<longleftrightarrow> fi_data i = fi_data s \<and> fi_mode i = mode \<and> fi_kind i = Regular"

lemma copy_file_replica:
  assumes "copy_file src tmp mode w = (Inr x, w')" and "os_fs w src = Some s" and "src \<noteq> tmp"
  shows "\<exists>i. os_fs w' tmp = Some i \<and> replica s mode i"
proof -
  from assms(1) obtain w1 w2 w3 w4 where st: "os_open_read src w = (Inr (), w1)"
      "os_open_trunc tmp mode w1 = (Inr (), w2)" "os_copy_data src tmp w2 = (Inr (), w3)"
      "os_chmod tmp mode w3 = (Inr (), w4)" "os_sync w4 = (Inr x, w')"
    by (auto simp: copy_file_def run_Inr)
  have f1: "os_fs w1 = os_fs w" by (rule open_read_Inr [OF st(1)])
  obtain i where f2: "os_fs w2 = (os_fs w1)(tmp \<mapsto> i)" "fi_kind i = Regular"
    by (rule open_trunc_Inr [OF st(2)])
  obtain s' d where f3: "os_fs w2 src = Some s'" "os_fs w2 tmp = Some d"
      "os_fs w3 = (os_fs w2)(tmp \<mapsto> d\<lparr>fi_data := fi_data s', fi_mtime := os_clock w2 (os_calls w2)\<rparr>)"
    by (rule copy_data_Inr [OF st(3)])
  obtain j where f4: "os_fs w3 tmp = Some j" "os_fs w4 = (os_fs w3)(tmp \<mapsto> j\<lparr>fi_mode := mode\<rparr>)"
    by (rule chmod_Inr [OF st(4)])
  have f5: "os_fs w' = os_fs w4" by (rule sync_Inr [OF st(5)])
  have "s' = s" "d = i" using assms(2,3) f1 f2 f3(1,2) by auto
  then show ?thesis using f2 f3 f4 f5 by (auto simp: replica_def)
qed

lemma preserve_ownership_replica:
  assumes "preserve_ownership tmp ref w = (Inr x, w')" and "os_fs w tmp = Some i" and "replica s mode i"
  shows "\<exists>i. os_fs w' tmp = Some i \<and> replica s mode i"
proof (cases "os_uid w = 0")
  case True
  then have "os_chown tmp (fi_uid ref) (fi_gid ref) w = (Inr (), w')"
    using assms(1) by (auto simp: preserve_ownership_def prog_defs)
  then obtain j where "os_fs w tmp = Some j" "os_fs w' = (os_fs w)(tmp \<mapsto> j\<lparr>fi_uid := fi_uid ref, fi_gid := fi_gid ref\<rparr>)"
    by (rule chown_Inr)
  then show ?thesis using assms by (simp add: replica_def)
next
  case False
  then show ?thesis using assms by (auto simp: preserve_ownership_def prog_defs)
qed

section \<open>Atomic replacement\<close>

text \<open>
  What the installer relies on when it replaces the file \<open>target\<close>: from a state with \<open>pre\<close> where
  the target exists, at every crash point the target is the old file or a complete new one
  (\<open>good\<close>), and it is the new one when the replacement reports success.
\<close>

locale atomic_replacement =
  fixes replace :: "('z, unit) os_prog"
    and pre :: "'z os_scheme \<Rightarrow> bool"
    and target :: string
    and good :: "'z os_scheme \<Rightarrow> finfo \<Rightarrow> bool"
  assumes crash_states: "\<lbrakk>pre w; os_fs w target = Some old; replace w = (r, w')\<rbrakk> \<Longrightarrow>
      all_states w w' (\<lambda>f. f target = Some old \<or> (\<exists>i. f target = Some i \<and> good w i))"
    and success: "\<lbrakk>pre w; os_fs w target = Some old; replace w = (Inr u, w')\<rbrakk> \<Longrightarrow>
      \<exists>i. os_fs w' target = Some i \<and> good w i"
begin

lemma never_missing:
  assumes "pre w" and "os_fs w target = Some old" and "replace w = (r, w')"
  shows "all_states w w' (\<lambda>f. f target \<noteq> None)"
  using crash_states [OF assms] by (elim all_states_mono) auto

text \<open>A program run after the replacement that does not touch the target leaves it complete.\<close>

lemma then_frame:
  assumes "pre w" and "os_fs w target = Some old" and "seqE replace m w = (Inr x, w')"
    and "keeps (pres A) m" and "target \<notin> A"
  shows "\<exists>i. os_fs w' target = Some i \<and> good w i"
proof -
  from assms(3) obtain w1 where w1: "replace w = (Inr (), w1)" "m w1 = (Inr x, w')"
    by (auto simp: run_Inr)
  then obtain i where "os_fs w1 target = Some i" "good w i"
    using success [OF assms(1,2)] by blast
  then show ?thesis
    using pres_lookup [OF keepsD [OF assms(4) w1(2)] assms(5)] by blast
qed

end

lemma or_cleanup_cases:
  assumes "or_cleanup cl msg m w = (r, w')"
  obtains (ok) x where "r = Inr x" "m w = (Inr x, w')"
    | (err) e w1 where "m w = (Inl e, w1)" "w' = snd (cl w1)" "r = Inl (ErrWrap msg e)"
proof (cases "m w")
  case (Pair q w1)
  show ?thesis
  proof (cases q)
    case (Inl e)
    with assms Pair show ?thesis by (intro err) (auto simp: or_cleanup_def prog_defs split: prod.splits)
  next
    case (Inr x)
    with assms Pair show ?thesis by (intro ok) (auto simp: or_cleanup_def prog_defs)
  qed
qed

lemma seqE_cases:
  assumes "seqE m n w = (r, w')"
  obtains (first) e where "m w = (Inl e, w')" "r = Inl e"
    | (both) x w1 where "m w = (Inr x, w1)" "n w1 = (r, w')"
  using assms by (auto simp: seqE_def bindE_def split: prod.splits sum.splits)

lemma rename_step_atomic:
  assumes run: "seqE (or_cleanup (os_remove tmp) msg (os_rename tmp target)) (fsync_dir d) w = (r, w')"
    and tmp: "os_fs w tmp = Some i" "good i" and old: "os_fs w target = Some old" and ne: "tmp \<noteq> target"
  shows "all_states w w' (\<lambda>f. f target = Some old \<or> (\<exists>i. f target = Some i \<and> good i)) \<and>
    (r = Inr () \<longrightarrow> (\<exists>i. os_fs w' target = Some i \<and> good i))"
proof -
  let ?P = "\<lambda>f. f target = Some old \<or> (\<exists>i. f target = Some i \<and> good i)"
  obtain q w1 where q: "os_rename tmp target w = (q, w1)" by fastforce
  have one: "all_states w w1 ?P" if "?P (os_fs w1)"
    using that rename_hist [OF q] unfolding all_states_def by auto
  have rm: "all_states w1 (snd (os_remove tmp w1)) ?P" if "os_fs w1 target = Some old"
  proof -
    have k: "keeps (pres {tmp}) (os_remove tmp :: ('a, unit) os_prog)" by (rule keeps_remove) simp
    have "all_states w1 (snd (os_remove tmp w1)) (\<lambda>f. f target = Some old)"
      using k ne that unfolding keeps_def by (intro pres_all_states [of "{tmp}"]) auto
    then show ?thesis by (rule all_states_mono) simp
  qed
  from run show ?thesis
  proof (cases rule: seqE_cases)
    case (first e)
    show ?thesis
      using first(1)
    proof (cases rule: or_cleanup_cases)
      case (err e' w1')
      then have e: "w1' = w1" "q = Inl e'" "w' = snd (os_remove tmp w1)" using q by auto
      then have "os_fs w1 target = Some old" using rename_cases [OF q ne] old by auto
      then show ?thesis using all_states_trans [OF one rm] e first(2) by auto
    qed (use first in simp)
  next
    case (both x w2)
    then have "os_rename tmp target w = (Inr (), w2)" by (auto simp: run_Inr)
    with q have e: "q = Inr ()" "w2 = w1" by auto
    then have new: "os_fs w1 target = Some i" using rename_cases [OF q ne] tmp ne by auto
    have pr: "pres {} w1 w'" using keepsD [OF keeps_fsync_dir both(2)] e by simp
    then have "all_states w1 w' (\<lambda>f. f target = Some i)"
      by (rule pres_all_states) (simp_all add: new)
    then have "all_states w1 w' ?P" "os_fs w' target = Some i"
      using tmp(2) by (auto elim: all_states_mono dest: all_states_final)
    then show ?thesis using all_states_trans [OF one] new tmp(2) by blast
  qed
qed

lemma swap_in_atomic:
  assumes run: "swap_in a b c src tmp target mode ref w = (r, w')"
    and src: "os_fs w src = Some s" and old: "os_fs w target = Some old"
    and ne: "src \<noteq> tmp" "tmp \<noteq> target"
  shows "all_states w w' (\<lambda>f. f target = Some old \<or> (\<exists>i. f target = Some i \<and> replica s mode i)) \<and>
    (r = Inr () \<longrightarrow> (\<exists>i. os_fs w' target = Some i \<and> replica s mode i))"
proof -
  let ?P = "\<lambda>f. f target = Some old \<or> (\<exists>i. f target = Some i \<and> replica s mode i)"
  have untouched: "all_states u v ?P \<and> os_fs v target = Some old"
    if "pres {tmp} u v" and "os_fs u target = Some old" for u v :: "'a os_scheme"
    using pres_all_states [OF that(1) _ that(2)] ne
    by (auto elim: all_states_mono dest: all_states_final)
  have k1: "keeps (pres {tmp}) (or_cleanup (os_remove tmp) a (copy_file src tmp mode))"
    and k2: "keeps (pres {tmp}) (or_cleanup (os_remove tmp) b (preserve_ownership tmp ref))"
    by (simp_all add: keeps_calls keeps_copy_file keeps_preserve_ownership)
  from run [unfolded swap_in_def] show ?thesis
  proof (cases rule: seqE_cases)
    case (first e)
    then show ?thesis using untouched [OF keepsD [OF k1] old] by auto
  next
    case (both x w1)
    have st1: "all_states w w1 ?P" "os_fs w1 target = Some old"
      using untouched [OF keepsD [OF k1 both(1)] old] by auto
    obtain i where i: "os_fs w1 tmp = Some i" "replica s mode i"
      using copy_file_replica [OF _ src ne(1)] both(1) by (auto simp: or_cleanup_Inr)
    from both(2) show ?thesis
    proof (cases rule: seqE_cases)
      case (first e)
      then show ?thesis
        using all_states_trans [OF st1(1)] untouched [OF keepsD [OF k2] st1(2)] by auto
    next
      case (both x2 w2)
      have st2: "all_states w w2 ?P" "os_fs w2 target = Some old"
        using all_states_trans [OF st1(1)] untouched [OF keepsD [OF k2 both(1)] st1(2)] by auto
      obtain i where "os_fs w2 tmp = Some i" "replica s mode i"
        using preserve_ownership_replica [OF _ i] both(1) by (auto simp: or_cleanup_Inr)
      from rename_step_atomic [where good = "replica s mode", OF both(2) this st2(2) ne(2)] show ?thesis
        using all_states_trans [OF st2(1)] by blast
    qed
  qed
qed

lemma swap_in_crash_safe:
  assumes "os_fs w src = Some s" and "os_fs w target = Some old" and "src \<noteq> tmp" and "tmp \<noteq> target"
  shows "crash_safe (\<lambda>f. f target = Some old \<or> (\<exists>i. f target = Some i \<and> replica s mode i))
    (\<lambda>_ w'. (\<exists>i. os_fs w' target = Some i \<and> replica s mode i) \<and> pres {tmp, target} w w')
    (swap_in a b c src tmp target mode ref) w"
proof -
  obtain r w' where r: "swap_in a b c src tmp target mode ref w = (r, w')" by fastforce
  have "pres {tmp, target} w w'" using keepsD [OF keeps_swap_in r] by simp
  then show ?thesis using swap_in_atomic [OF r assms] r by (simp add: crash_safe_def)
qed

lemmas crash_rules = crash_safe_bind crash_safe_seq

lemma keeps_attempt_remove:
  "p \<in> A \<Longrightarrow> keeps (pres A) (attempt (os_remove p))"
  by (intro touch_rules keeps_calls)

lemma keeps_attempt_stat: "keeps (pres A) (attempt (os_stat p))"
  by (intro touch_rules keeps_calls)

text \<open>The restored file is a complete and executable copy of the backup.\<close>

definition restored :: "finfo \<Rightarrow> finfo \<Rightarrow> bool" where
  "restored s i \<longleftrightarrow> fi_data i = fi_data s \<and> fi_kind i = Regular \<and> fi_mode i AND 73 = 73"

lemma or_exec: "(x OR 73) AND 73 = (73 :: nat)"
  by (simp add: bit_eq_iff bit_and_iff bit_or_iff) blast

lemma restore_backup_crash_safe:
  assumes src: "os_fs w backup = Some s" and old: "os_fs w target = Some old"
    and ne: "restore_tmp target \<noteq> backup" "restore_tmp target \<noteq> target"
  shows "crash_safe (\<lambda>f. f target = Some old \<or> (\<exists>i. f target = Some i \<and> restored s i))
    (\<lambda>_ w'. \<exists>i. os_fs w' target = Some i \<and> restored s i) (restore_backup target backup) w"
    (is "crash_safe ?P ?Q _ w")
proof (cases "trim_space target = [] \<or> trim_space backup = []")
  case True
  then show ?thesis unfolding restore_backup_def using old by (simp add: crash_safe_throw)
next
  case False
  let ?tmp = "restore_tmp target"
  have frame: "crash_safe ?P (\<lambda>_ w1. pres {?tmp} u w1) m u"
    if "keeps (pres {?tmp}) m" "os_fs u target = Some old" for m :: "('a, 'c) os_prog" and u
    using that ne by (intro crash_safe_frame) (auto simp: same_outside_def)
  have keep: "os_fs v target = Some old \<and> os_fs v backup = Some s"
    if "pres {?tmp} u v" "os_fs u target = Some old" "os_fs u backup = Some s" for u v :: "'a os_scheme"
    using pres_lookup [OF that(1) _ that(2)] pres_lookup [OF that(1) _ that(3)] ne by auto
  have swap: "crash_safe ?P ?Q (swap_in a b c backup ?tmp target (m OR 73) i) u"
    if "os_fs u target = Some old" "os_fs u backup = Some s" for a b c m i and u :: "'a os_scheme"
    by (rule crash_safe_conseq [OF swap_in_crash_safe [OF that(2,1)]])
       (use ne in \<open>auto simp: restored_def replica_def or_exec\<close>)
  have "keeps (pres {?tmp}) (ensure_writable_dir (path_dir target))"
    using keeps_ensure_writable_dir by (rule keeps_pres_mono) simp
  then show ?thesis
    unfolding restore_backup_def Let_def using False
    by (auto intro!: crash_safe_bind [OF frame] crash_safe_seq [OF frame] swap keeps_validate_backup
        keeps_attempt_stat keeps_attempt_remove src old dest: keep)
qed

interpretation restore: atomic_replacement "restore_backup target backup"
  "\<lambda>w. os_fs w backup \<noteq> None \<and> restore_tmp target \<noteq> backup \<and> restore_tmp target \<noteq> target"
  target "\<lambda>w i. \<exists>s. os_fs w backup = Some s \<and> restored s i"
proof (unfold_locales, goal_cases)
  case (1 w old r w')
  then obtain s where "os_fs w backup = Some s" by auto
  then show ?case
    using crash_safeD [OF restore_backup_crash_safe 1(3)] 1 by (auto elim!: all_states_mono)
next
  case (2 w old u w')
  then obtain s where "os_fs w backup = Some s" by auto
  then show ?case
    using crash_safeD [OF restore_backup_crash_safe 2(3)] 2 by auto
qed

text \<open>The supervisor's replacement: a complete copy of the staged one.\<close>

definition supervisor_tmp :: "string \<Rightarrow> string \<Rightarrow> string" where
  "supervisor_tmp target jid = path_join [path_dir target, ''.phantom-supervisor.'' @ jid @ ''.tmp'']"

definition supervisor_mode :: "finfo \<Rightarrow> nat" where
  "supervisor_mode info = (if perm info AND 73 = 0 then perm info OR 493 else perm info)"

lemma install_supervisor_alt:
  "install_supervisor cfg jid staged info =
     bindE (install_path cfg) (\<lambda>p.
     let target = supervisor_path p; tmp = supervisor_tmp target jid in
     bindE (attempt (os_remove tmp)) (\<lambda>_ :: goerr + unit.
     swap_in ''copy staged supervisor failed'' ''preserve supervisor ownership failed''
       ''replace supervisor binary failed'' staged tmp target (supervisor_mode info) info))"
  by (simp add: install_supervisor_def supervisor_tmp_def supervisor_mode_def Let_def)

text \<open>Looking the path up does not depend on the state.\<close>

definition installed_at :: "update_cfg \<Rightarrow> string option" where
  "installed_at cfg =
     (if trim_space (cf_install_binary_path cfg) \<noteq> [] then Some (path_clean (cf_install_binary_path cfg))
      else cf_executable cfg)"

lemma install_path_ret: "installed_at cfg = Some p \<Longrightarrow> install_path cfg = ret p"
  by (auto simp: installed_at_def install_path_def split: if_splits)

lemma install_path_throw: "installed_at cfg = None \<Longrightarrow> install_path cfg = throw (ErrMsg ''executable path unavailable'')"
  by (auto simp: installed_at_def install_path_def split: if_splits)

lemma install_supervisor_crash_safe:
  assumes path: "installed_at cfg = Some p"
    and src: "os_fs w staged = Some s" and old: "os_fs w (supervisor_path p) = Some old"
    and ne: "supervisor_tmp (supervisor_path p) jid \<noteq> staged"
      "supervisor_tmp (supervisor_path p) jid \<noteq> supervisor_path p"
  shows "crash_safe (\<lambda>f. f (supervisor_path p) = Some old \<or>
        (\<exists>i. f (supervisor_path p) = Some i \<and> replica s (supervisor_mode info) i))
    (\<lambda>_ w'. \<exists>i. os_fs w' (supervisor_path p) = Some i \<and> replica s (supervisor_mode info) i)
    (install_supervisor cfg jid staged info) w"
  unfolding install_supervisor_alt install_path_ret [OF path] bindE_ret Let_def
proof (rule crash_safe_bind)
  let ?t = "supervisor_path p" and ?tmp = "supervisor_tmp (supervisor_path p) jid"
  show "crash_safe (\<lambda>f. f ?t = Some old \<or> (\<exists>i. f ?t = Some i \<and> replica s (supervisor_mode info) i))
      (\<lambda>_ w1. pres {?tmp} w w1) (attempt (os_remove ?tmp)) w"
    by (rule crash_safe_frame) (use ne old in \<open>auto simp: same_outside_def intro: keeps_attempt_remove\<close>)
  fix x w1 assume "pres {?tmp} w w1"
  then have "os_fs w1 staged = Some s" "os_fs w1 ?t = Some old"
    using pres_lookup [OF _ _ src] pres_lookup [OF _ _ old] ne by auto
  then show "crash_safe (\<lambda>f. f ?t = Some old \<or> (\<exists>i. f ?t = Some i \<and> replica s (supervisor_mode info) i))
      (\<lambda>_ w'. \<exists>i. os_fs w' ?t = Some i \<and> replica s (supervisor_mode info) i)
      (swap_in ''copy staged supervisor failed'' ''preserve supervisor ownership failed''
         ''replace supervisor binary failed'' staged ?tmp ?t (supervisor_mode info) info) w1"
    by (rule crash_safe_conseq [OF swap_in_crash_safe]) (use ne in auto)
qed

interpretation supervisor_swap: atomic_replacement
  "swap_in ''copy staged supervisor failed'' ''preserve supervisor ownership failed''
     ''replace supervisor binary failed'' staged tmp target mode info"
  "\<lambda>w. os_fs w staged \<noteq> None \<and> staged \<noteq> tmp \<and> tmp \<noteq> target"
  target "\<lambda>w i. \<exists>s. os_fs w staged = Some s \<and> replica s mode i"
proof (unfold_locales, goal_cases)
  case (1 w old r w')
  then obtain s where "os_fs w staged = Some s" by auto
  then show ?case
    using crash_safeD [OF swap_in_crash_safe 1(3)] 1 by (auto elim!: all_states_mono)
next
  case (2 w old u w')
  then obtain s where "os_fs w staged = Some s" by auto
  then show ?case
    using crash_safeD [OF swap_in_crash_safe 2(3)] 2 by auto
qed

section \<open>Installing\<close>

lemma keeps_install_supervisor:
  assumes "installed_at cfg = Some p"
  shows "keeps (pres {supervisor_path p, supervisor_tmp (supervisor_path p) jid})
    (install_supervisor cfg jid staged info)"
  unfolding install_supervisor_alt install_path_ret [OF assms] bindE_ret Let_def
  by (intro touch_rules keeps_calls keeps_swap_in) simp_all

lemma keeps_backup_supervisor: "b \<in> A \<Longrightarrow> keeps (pres A) (backup_supervisor p b)"
  unfolding backup_supervisor_def
  by (intro touch_rules keeps_calls)
     (auto split: sum.split intro!: touch_rules keeps_copy_file)

lemma keeps_install_db_backup:
  assumes "keeps (pres D) (backup_db (db_backup_path cfg jid))"
  shows "keeps (pres D) (install_db_backup cfg backup_db c jid)"
  unfolding install_db_backup_def
  by (intro touch_rules keeps_calls append_event_pres assms)
     (auto split: sum.split intro!: touch_rules append_event_pres)

lemma keeps_remove_names:
  "(\<And>n. n \<in> set ns \<Longrightarrow> path_join [d, n] \<in> A) \<Longrightarrow> keeps (pres A) (remove_all d ns)"
  by (induction ns) (auto intro!: touch_rules keeps_calls)

lemma prune_plan_names:
  "set (fst (prune_plan k items)) \<subseteq> fst ` set items \<and> set (snd (prune_plan k items)) \<subseteq> set items"
proof (induction k items rule: prune_plan.induct)
  case (1 k items)
  show ?case
  proof (cases "length items \<le> k")
    case True
    then show ?thesis by (simp add: prune_plan.simps)
  next
    case False
    have o: "oldest items < length items" using False by (intro oldest_less) auto
    have sub: "set (take (oldest items) items @ drop (Suc (oldest items)) items) \<subseteq> set items"
      by (auto dest: in_set_takeD in_set_dropD)
    show ?thesis
      using 1 [OF False refl] sub nth_mem [OF o] image_mono [OF sub, of fst]
      by (subst (1 2) prune_plan.simps) (simp add: False Let_def case_prod_beta del: set_append, blast)
  qed
qed

lemma read_dir_names:
  assumes "os_read_dir d w = (Inr es, w')"
  shows "fst ` set es \<subseteq> set (os_names w)"
  using assms by (auto simp: os_read_dir_def syscall_Inr List.map_filter_def split: if_splits)

lemma regular_items_names: "fst ` set (regular_items es) \<subseteq> fst ` set es"
  by (force simp: regular_items_def)

text \<open>Pruning removes files of its directory only.\<close>

lemma prune_remove_pres:
  assumes "fst ` set items \<subseteq> set (os_names w)"
  shows "pres {path_join [d, n] | n. n \<in> set (os_names w)} w (snd (remove_all d (fst (prune_plan k items)) w))"
proof -
  have "keeps (pres {path_join [d, n] | n. n \<in> set (os_names w)})
      (remove_all d (fst (prune_plan k items)) :: ('a, unit) os_prog)"
    by (rule keeps_remove_names) (use prune_plan_names [of k items] assms in blast)
  then show ?thesis by (simp add: keeps_def)
qed

lemma prune_backups_pres:
  "pres {path_join [d, n] | n. n \<in> set (os_names w)} w (snd (prune_backups cfg d w))"
proof (cases "os_read_dir d w")
  case (Pair r w1)
  have p1: "pres {} w w1" using keepsD [OF keeps_read_dir Pair] .
  show ?thesis
  proof (cases r)
    case (Inl e)
    then show ?thesis
      using Pair pres_mono [OF p1] by (auto simp: prune_backups_def prog_defs pres_refl)
  next
    case (Inr es)
    have names: "fst ` set (regular_items es) \<subseteq> set (os_names w1)"
      using regular_items_names [of es] read_dir_names [OF Pair [unfolded Inr]] pres_env [OF p1] by auto
    have "pres {path_join [d, n] | n. n \<in> set (os_names w)} w1
        (snd (remove_all d (fst (prune_plan (nat (cf_backup_retention cfg)) (regular_items es))) w1))"
      using prune_remove_pres [OF names, of d] pres_env [OF p1] by simp
    then show ?thesis
      using Pair Inr pres_mono [OF p1, of "{path_join [d, n] | n. n \<in> set (os_names w)}"]
      by (auto simp: prune_backups_def prog_defs pres_refl intro: pres_trans)
  qed
qed

text \<open>Pruning the database backups removes \<^verbatim>\<open>pre-update-*.db\<close> files of their directory only.\<close>

lemma prune_database_backups_pres:
  "pres {path_join [path_join [cf_data_dir cfg, ''backups''], n] | n. n \<in> set (os_names w) \<and> pre_update_db n} w
    (snd (prune_database_backups cfg w))"
proof (cases "os_read_dir (path_join [cf_data_dir cfg, ''backups'']) w")
  case (Pair r w1)
  let ?d = "path_join [cf_data_dir cfg, ''backups'']"
  let ?A = "{path_join [?d, n] | n. n \<in> set (os_names w) \<and> pre_update_db n}"
  have p1: "pres {} w w1" using keepsD [OF keeps_read_dir Pair] .
  show ?thesis
  proof (cases r)
    case (Inl e)
    then show ?thesis
      using Pair pres_mono [OF p1] by (auto simp: prune_database_backups_def Let_def prog_defs pres_refl)
  next
    case (Inr es)
    let ?items = "regular_items (filter (\<lambda>(n, i). pre_update_db n) es)"
    let ?vs = "fst (prune_plan (nat (cf_backup_retention cfg)) ?items)"
    have "fst ` set ?items \<subseteq> {n \<in> set (os_names w). pre_update_db n}"
      using regular_items_names [of "filter (\<lambda>(n, i). pre_update_db n) es"]
        read_dir_names [OF Pair [unfolded Inr]] pres_env [OF p1] by auto
    then have vs: "set ?vs \<subseteq> {n \<in> set (os_names w). pre_update_db n}"
      using conjunct1 [OF prune_plan_names [of "nat (cf_backup_retention cfg)" ?items]] by (rule subset_trans [rotated])
    have "keeps (pres ?A) (remove_all ?d ?vs :: ('a, unit) os_prog)"
      by (rule keeps_remove_names) (use subsetD [OF vs] in blast)
    then have "pres ?A w1 (snd (remove_all ?d ?vs w1))" by (simp add: keeps_def)
    then show ?thesis
      using Pair Inr pres_mono [OF p1, of ?A]
      by (auto simp: prune_database_backups_def Let_def prog_defs pres_refl intro: pres_trans)
  qed
qed

section \<open>What pruning keeps\<close>

lemma oldest_from_minimal:
  assumes "b < length items" and "xs = drop n items"
    and "\<forall>x \<in> set (take n items). snd (items ! b) \<le> snd x"
  shows "\<forall>x \<in> set items. snd (items ! oldest_from b n items xs) \<le> snd x"
  using assms
proof (induction xs arbitrary: b n)
  case Nil
  then show ?case by simp
next
  case (Cons x xs)
  have n: "n < length items"
    using Cons.prems(2) by (cases "n < length items") simp_all
  then have xs: "x = items ! n" "xs = drop (Suc n) items"
    using Cons.prems(2) Cons_nth_drop_Suc [OF n] by (metis list.inject)+
  have "set (take (Suc n) items) = insert (items ! n) (set (take n items))"
    using n by (simp add: take_Suc_conv_app_nth)
  then have "\<forall>y \<in> set (take (Suc n) items).
      snd (items ! (if snd x < snd (items ! b) then n else b)) \<le> snd y"
    using Cons.prems(3) xs(1) by auto
  moreover have "(if snd x < snd (items ! b) then n else b) < length items"
    using Cons.prems(1) n by simp
  ultimately show ?case
    unfolding oldest_from.simps by (intro Cons.IH [OF _ xs(2)])
qed

lemma oldest_minimal: "items \<noteq> [] \<Longrightarrow> \<forall>x \<in> set items. snd (items ! oldest items) \<le> snd x"
  unfolding oldest_def
  by (rule oldest_from_minimal) (cases items; auto)+

lemma mset_remove_nth:
  "i < length xs \<Longrightarrow> mset xs = add_mset (xs ! i) (mset (take i xs @ drop (Suc i) xs))"
  by (metis add_mset_add_single id_take_nth_drop mset.simps(2) mset_append union_mset_add_mset_right)

lemma prune_plan_spec:
  "length (snd (prune_plan k items)) = min k (length items) \<and>
   (\<exists>victims. map fst victims = fst (prune_plan k items) \<and>
      mset items = mset victims + mset (snd (prune_plan k items)) \<and>
      (\<forall>v \<in> set victims. \<forall>x \<in> set (snd (prune_plan k items)). snd v \<le> snd x))"
proof (induction k items rule: prune_plan.induct)
  case (1 k items)
  show ?case
  proof (cases "length items \<le> k")
    case True
    then show ?thesis by (simp add: prune_plan.simps)
  next
    case False
    let ?rest = "take (oldest items) items @ drop (Suc (oldest items)) items"
    have ne: "items \<noteq> []" using False by auto
    have o: "oldest items < length items" by (rule oldest_less [OF ne])
    obtain victims where v: "map fst victims = fst (prune_plan k ?rest)"
        "mset ?rest = mset victims + mset (snd (prune_plan k ?rest))"
        "\<forall>v \<in> set victims. \<forall>x \<in> set (snd (prune_plan k ?rest)). snd v \<le> snd x"
      and len: "length (snd (prune_plan k ?rest)) = min k (length ?rest)"
      using 1 [OF False refl] by auto
    have step: "prune_plan k items = (fst (items ! oldest items) # fst (prune_plan k ?rest), snd (prune_plan k ?rest))"
      using False by (subst prune_plan.simps) (simp add: Let_def case_prod_beta)
    have "set (snd (prune_plan k ?rest)) \<subseteq> set items"
      using prune_plan_names [of k ?rest] by (auto dest: in_set_takeD in_set_dropD)
    then have old: "\<forall>x \<in> set (snd (prune_plan k ?rest)). snd (items ! oldest items) \<le> snd x"
      using oldest_minimal [OF ne] by auto
    have "map fst ((items ! oldest items) # victims) = fst (prune_plan k items)"
      using v(1) step by simp
    moreover have "mset items = mset ((items ! oldest items) # victims) + mset (snd (prune_plan k items))"
      using mset_remove_nth [OF o] v(2) step by simp
    moreover have "\<forall>v \<in> set ((items ! oldest items) # victims). \<forall>x \<in> set (snd (prune_plan k items)). snd v \<le> snd x"
      using v(3) old step by simp
    moreover have "length (snd (prune_plan k items)) = min k (length items)"
      using len step o False by simp
    ultimately show ?thesis by blast
  qed
qed

section \<open>The installation is crash safe\<close>

text \<open>
  The paths an installation writes besides the binary are different from the binary and the
  staged file, and the temporary file is none of the backups.
\<close>

definition install_layout :: "update_cfg \<Rightarrow> string \<Rightarrow> string \<Rightarrow> string \<Rightarrow> string \<Rightarrow> gtime \<Rightarrow> bool" where
  "install_layout cfg p jid staged current t =
     (let bk = backup_path cfg current t in
      bk \<notin> {p, staged, install_tmp p jid} \<and>
      bk @ ''.supervisor'' \<notin> {p, staged} \<and> install_tmp p jid \<notin> {p, staged})"

definition old_or_backed_up :: "string \<Rightarrow> finfo \<Rightarrow> finfo \<Rightarrow> (string \<Rightarrow> bool) \<Rightarrow> fs \<Rightarrow> bool" where
  "old_or_backed_up p old s is_backup f \<longleftrightarrow>
     f p = Some old \<or>
     (\<exists>i bk b. f p = Some i \<and> replica s (perm old) i \<and> is_backup bk \<and> f bk = Some b \<and> replica old (perm old) b)"

lemma old_or_backed_up_old: "f p = Some old \<Longrightarrow> old_or_backed_up p old s B f"
  by (simp add: old_or_backed_up_def)

lemma install_main_crash_safe:
  fixes backup_db :: "string \<Rightarrow> ('z, unit) svc_prog"
  assumes path: "installed_at cfg = Some p"
    and db: "keeps (pres D) (backup_db (db_backup_path cfg jid))" and db_ne: "p \<notin> D" "staged \<notin> D"
    and old: "os_fs w p = Some old" and src: "os_fs w staged = Some s"
    and lay: "\<And>n. install_layout cfg p jid staged current (os_clock w n)"
  shows "crash_safe (old_or_backed_up p old s (\<lambda>bk. \<exists>n. bk = backup_path cfg current (os_clock w n)))
    (\<lambda>(q, bk, written, info) w'. q = p \<and> info = old \<and> os_names w' = os_names w \<and>
       (\<exists>i. os_fs w' p = Some i \<and> replica s (perm old) i) \<and>
       (\<exists>b. os_fs w' bk = Some b \<and> replica old (perm old) b))
    (install_main cfg backup_db c jid staged current) w"
    (is "crash_safe ?P ?Q _ _")
proof -
  define J where "J v \<longleftrightarrow> os_fs v p = Some old \<and> os_fs v staged = Some s \<and>
      os_clock v = os_clock w \<and> os_names v = os_names w" for v :: "'z svc_scheme"
  have Jw: "J w" using old src by (simp add: J_def)
  have frame: "crash_safe ?P (\<lambda>_ v. J v \<and> pres A u v) m u"
    if "keeps (pres A) m" "J u" "p \<notin> A" "staged \<notin> A" for m :: "('z, 'c) svc_prog" and u A
  proof (rule crash_safe_conseq [OF crash_safe_frame [OF that(1)]])
    show "?P f" if "same_outside A (os_fs u) f" for f
      using that \<open>J u\<close> \<open>p \<notin> A\<close> by (intro old_or_backed_up_old) (simp add: J_def same_outside_def)
    show "J v \<and> pres A u v" if "pres A u v" for v
      using that \<open>J u\<close> pres_lookup [OF that \<open>p \<notin> A\<close>] pres_lookup [OF that \<open>staged \<notin> A\<close>] pres_env [OF that]
      by (simp add: J_def)
  qed
  have final: "crash_safe ?P ?Q
      (seqE (swap_in m1 m2 m3 staged (install_tmp p jid) p (perm old) old)
        (seqE (append_event c jid ev) (ret (p, bk, written, old)))) u"
    if u: "J u" and bk: "bk = backup_path cfg current (os_clock w n)" "os_fs u bk = Some b" "replica old (perm old) b"
    for u bk b n m1 m2 m3 ev written
  proof (rule crash_safe_seq)
    have ne: "staged \<noteq> install_tmp p jid" "install_tmp p jid \<noteq> p" "bk \<notin> {install_tmp p jid, p}"
      using lay [of n] bk(1) by (auto simp: install_layout_def Let_def)
    let ?B = "\<lambda>f. f bk = Some b"
    have "crash_safe ?B (\<lambda>_ v. pres {install_tmp p jid, p} u v)
        (swap_in m1 m2 m3 staged (install_tmp p jid) p (perm old) old) u"
      by (rule crash_safe_frame, rule keeps_swap_in)
         (use bk ne in \<open>auto simp: same_outside_def\<close>)
    note frame_bk = this
    have swap: "crash_safe (\<lambda>f. f p = Some old \<or> (\<exists>i. f p = Some i \<and> replica s (perm old) i))
        (\<lambda>_ v. (\<exists>i. os_fs v p = Some i \<and> replica s (perm old) i) \<and> pres {install_tmp p jid, p} u v)
        (swap_in m1 m2 m3 staged (install_tmp p jid) p (perm old) old) u"
      using u ne by (intro swap_in_crash_safe) (simp_all add: J_def)
    show "crash_safe ?P (\<lambda>_ v. (\<exists>i. os_fs v p = Some i \<and> replica s (perm old) i) \<and>
          os_fs v bk = Some b \<and> os_names v = os_names w)
        (swap_in m1 m2 m3 staged (install_tmp p jid) p (perm old) old) u"
    proof (rule crash_safe_conseq [OF crash_safe_conj [OF swap frame_bk]])
      show "?P f" if "(f p = Some old \<or> (\<exists>i. f p = Some i \<and> replica s (perm old) i)) \<and> f bk = Some b" for f
        using that bk unfolding old_or_backed_up_def by blast
      fix v :: "'z svc_scheme"
      assume "((\<exists>i. os_fs v p = Some i \<and> replica s (perm old) i) \<and> pres {install_tmp p jid, p} u v) \<and>
        pres {install_tmp p jid, p} u v"
      then show "(\<exists>i. os_fs v p = Some i \<and> replica s (perm old) i) \<and> os_fs v bk = Some b \<and> os_names v = os_names w"
        using pres_lookup [of _ u v bk b] pres_env [of _ u v] u bk(2) ne(3) by (auto simp: J_def)
    qed
    fix x and v :: "'z svc_scheme"
    assume v: "(\<exists>i. os_fs v p = Some i \<and> replica s (perm old) i) \<and> os_fs v bk = Some b \<and> os_names v = os_names w"
    have env: "keeps (pres {}) (append_event c jid ev :: ('z, unit) svc_prog)" by (rule append_event_pres)
    show "crash_safe ?P ?Q (seqE (append_event c jid ev) (ret (p, bk, written, old))) v"
    proof (rule crash_safe_seq [OF crash_safe_frame [OF env]])
      show "?P f" if "same_outside {} (os_fs v) f" for f
        using that v bk unfolding old_or_backed_up_def same_outside_def by blast
      fix x and v2 :: "'z svc_scheme" assume "pres {} v v2" and P: "?P (os_fs v2)"
      then have "(\<exists>i. os_fs v2 p = Some i \<and> replica s (perm old) i) \<and> os_fs v2 bk = Some b \<and> os_names v2 = os_names w"
        using v pres_lookup [of "{}" v v2] pres_env [of "{}" v v2] by auto
      with P bk show "crash_safe ?P ?Q (ret (p, bk, written, old)) v2"
        by (intro crash_safe_ret) auto
    qed
  qed
  have tail: "crash_safe ?P ?Q
      (bindE (backup_supervisor p (bk @ ''.supervisor'')) (\<lambda>written.
         seqE (append_event c jid e1)
        (seqE (swap_in m1 m2 m3 staged (install_tmp p jid) p (perm old) old)
        (seqE (append_event c jid e2) (ret (p, bk, written, old)))))) u"
    if u: "J u" "os_fs u bk = Some b" and bk: "bk = backup_path cfg current (os_clock w n)" "replica old (perm old) b"
    for u bk b n m1 m2 m3 e1 e2
  proof (rule crash_safe_bind [OF frame [of "{bk @ ''.supervisor''}"]])
    show "keeps (pres {bk @ ''.supervisor''}) (backup_supervisor p (bk @ ''.supervisor'') :: ('z, bool) svc_prog)"
      by (rule keeps_backup_supervisor) simp
    show "p \<notin> {bk @ ''.supervisor''}" "staged \<notin> {bk @ ''.supervisor''}"
      using lay [of n] bk(1) by (auto simp: install_layout_def Let_def)
    fix written and v :: "'z svc_scheme" assume "J v \<and> pres {bk @ ''.supervisor''} u v"
    then have v: "J v" "os_fs v bk = Some b" using pres_lookup [of _ u v bk b] u by auto
    show "crash_safe ?P ?Q (seqE (append_event c jid e1)
        (seqE (swap_in m1 m2 m3 staged (install_tmp p jid) p (perm old) old)
        (seqE (append_event c jid e2) (ret (p, bk, written, old))))) v"
    proof (rule crash_safe_seq [OF frame [OF append_event_pres v(1)]])
      fix x and v2 :: "'z svc_scheme" assume "J v2 \<and> pres {} v v2"
      then show "crash_safe ?P ?Q (seqE (swap_in m1 m2 m3 staged (install_tmp p jid) p (perm old) old)
          (seqE (append_event c jid e2) (ret (p, bk, written, old)))) v2"
        using pres_lookup [of "{}" v v2 bk b] v bk by (intro final) auto
    qed simp_all
  qed (rule u(1))
  have mid: "crash_safe ?P ?Q
      (bindE (or_wrap m0 (os_stat p)) (\<lambda>info.
         if fi_kind info \<noteq> Regular then throw e
         else seqE (or_wrap m4 (copy_file p bk (perm info)))
          (bindE (backup_supervisor p (bk @ ''.supervisor'')) (\<lambda>written.
           seqE (append_event c jid e1)
          (seqE (swap_in m1 m2 m3 staged (install_tmp p jid) p (perm info) info)
          (seqE (append_event c jid e2) (ret (p, bk, written, info)))))))) u"
    if u: "J u" and bk: "bk = backup_path cfg current (os_clock w n)"
    for u bk n m0 m1 m2 m3 m4 e e1 e2
  proof (rule crash_safe_bind [OF frame [OF keeps_or_wrap [OF keeps_stat] u]])
    fix info and v :: "'z svc_scheme" assume info: "or_wrap m0 (os_stat p) u = (Inr info, v)" and v: "J v \<and> pres {} u v"
    have i: "info = old"
      using info u by (auto simp: or_wrap_Inr os_stat_def syscall_Inr J_def split: option.splits)
    have ne: "p \<notin> {bk}" "staged \<notin> {bk}" using lay [of n] bk by (auto simp: install_layout_def Let_def)
    show "crash_safe ?P ?Q (if fi_kind info \<noteq> Regular then throw e
         else seqE (or_wrap m4 (copy_file p bk (perm info)))
          (bindE (backup_supervisor p (bk @ ''.supervisor'')) (\<lambda>written.
           seqE (append_event c jid e1)
          (seqE (swap_in m1 m2 m3 staged (install_tmp p jid) p (perm info) info)
          (seqE (append_event c jid e2) (ret (p, bk, written, info))))))) v"
    proof (cases "fi_kind info \<noteq> Regular")
      case True
      then show ?thesis
        using v by (auto intro!: crash_safe_throw old_or_backed_up_old simp: J_def)
    next
      case False
      have k: "keeps (pres {bk}) (or_wrap m4 (copy_file p bk (perm old)) :: ('z, unit) svc_prog)"
        by (intro keeps_or_wrap keeps_copy_file) simp
      have "crash_safe ?P ?Q (seqE (or_wrap m4 (copy_file p bk (perm old)))
          (bindE (backup_supervisor p (bk @ ''.supervisor'')) (\<lambda>written.
           seqE (append_event c jid e1)
          (seqE (swap_in m1 m2 m3 staged (install_tmp p jid) p (perm old) old)
          (seqE (append_event c jid e2) (ret (p, bk, written, old))))))) v"
      proof (rule crash_safe_seq [OF frame [OF k _ ne]])
        fix x and v2 :: "'z svc_scheme"
        assume run: "or_wrap m4 (copy_file p bk (perm old)) v = (Inr x, v2)" and v2: "J v2 \<and> pres {bk} v v2"
        then obtain b where "os_fs v2 bk = Some b" "replica old (perm old) b"
          using copy_file_replica [of p bk "perm old" v x v2 old] v ne by (auto simp: or_wrap_Inr J_def)
        with v2 bk show "crash_safe ?P ?Q (bindE (backup_supervisor p (bk @ ''.supervisor'')) (\<lambda>written.
           seqE (append_event c jid e1)
          (seqE (swap_in m1 m2 m3 staged (install_tmp p jid) p (perm old) old)
          (seqE (append_event c jid e2) (ret (p, bk, written, old)))))) v2"
          by (intro tail) auto
      qed (use v in simp)
      with False i show ?thesis by simp
    qed
  qed simp_all
  show ?thesis
    unfolding install_main_def install_path_ret [OF path] bindE_ret Let_def
  proof (rule crash_safe_seq [OF frame [OF keeps_ensure_writable_dir Jw]])
    fix x and v1 :: "'z svc_scheme" assume v1: "J v1 \<and> pres {} w v1"
    show "crash_safe ?P ?Q (seqE (install_db_backup cfg backup_db c jid)
        (seqE (os_mkdir_all (backup_dir cfg)) (bindE now (\<lambda>t.
         bindE (or_wrap ''current binary is not readable'' (os_stat p)) (\<lambda>info.
         if fi_kind info \<noteq> Regular then throw (ErrMsg ''current binary path is not a regular file'')
         else seqE (or_wrap ''backup current binary failed'' (copy_file p (backup_path cfg current t) (perm info)))
          (bindE (backup_supervisor p (backup_path cfg current t @ ''.supervisor'')) (\<lambda>written.
           seqE (append_event c jid ''update.install.binary_backup.completed'')
          (seqE (swap_in ''copy staged binary failed'' ''preserve binary ownership failed'' ''replace binary failed''
               staged (install_tmp p jid) p (perm info) info)
          (seqE (append_event c jid ''update.install.binary_replace.completed'')
            (ret (p, backup_path cfg current t, written, info))))))))))) v1"
    proof (rule crash_safe_seq [OF frame [OF keeps_install_db_backup [where backup_db = backup_db, OF db] _ db_ne]],
        rule conjunct1 [OF v1], rule crash_safe_seq [OF frame [of "{}", OF keeps_mkdir_all]],
        erule conjunct1, simp, simp, rule crash_safe_bind [OF frame [of "{}", OF keeps_now]],
        erule conjunct1, simp, simp, goal_cases)
      case (1 _ v2 _ v3 t v4)
      then have "J v4" "t = os_clock v3 (os_calls v3)" "os_clock v3 = os_clock w"
        by (auto simp: now_def get_state_def J_def)
      then show ?case by (intro mid) auto
    qed
  qed simp_all
qed

text \<open>What runs after the replacement touches the supervisor and the pruned directories only.\<close>

definition other_paths :: "update_cfg \<Rightarrow> string \<Rightarrow> string \<Rightarrow> string list \<Rightarrow> string set" where
  "other_paths cfg p jid names =
     {supervisor_path p, supervisor_tmp (supervisor_path p) jid} \<union>
     {path_join [backup_dir cfg, n] | n. n \<in> set names} \<union>
     {path_join [path_join [cf_data_dir cfg, ''backups''], n] | n. n \<in> set names}"

lemma crash_safe_frame_at:
  assumes "pres A w (snd (m w))" and "\<And>f. same_outside A (os_fs w) f \<Longrightarrow> P f"
  shows "crash_safe P (\<lambda>_ w1. pres A w w1) m w"
proof -
  have "all_states w (snd (m w)) P"
    using assms unfolding pres_def by (blast intro: all_states_mono)
  then show ?thesis using assms(1) by (simp add: crash_safe_def)
qed

lemma install_crash_safe:
  fixes backup_db :: "string \<Rightarrow> ('z, unit) svc_prog"
  assumes path: "installed_at cfg = Some p"
    and db: "keeps (pres D) (backup_db (db_backup_path cfg jid))" and db_ne: "p \<notin> D" "staged \<notin> D"
    and old: "os_fs w p = Some old" and src: "os_fs w staged = Some s"
    and lay: "\<And>n. install_layout cfg p jid staged current (os_clock w n)"
    and other: "p \<notin> other_paths cfg p jid (os_names w)"
  shows "crash_safe (\<lambda>f. f p = Some old \<or> (\<exists>i. f p = Some i \<and> replica s (perm old) i))
    (\<lambda>_ w'. \<exists>i. os_fs w' p = Some i \<and> replica s (perm old) i)
    (install cfg backup_db c jid staged staged_supervisor current) w"
    (is "crash_safe ?P ?Q _ _")
  unfolding install_def
proof (rule crash_safe_bind [OF crash_safe_conseq [OF install_main_crash_safe [where backup_db = backup_db, OF path db db_ne old src lay]]])
  show "?P f" if "old_or_backed_up p old s B f" for f B
    using that by (auto simp: old_or_backed_up_def)
  let ?R = "\<lambda>v. os_names v = os_names w \<and> (\<exists>i. os_fs v p = Some i \<and> replica s (perm old) i)"
  let ?O = "other_paths cfg p jid (os_names w)"
  fix x :: "string \<times> string \<times> bool \<times> finfo" and w1 :: "'z svc_scheme"
  assume x: "case x of (q, bk, written, info) \<Rightarrow> ?R w1 \<and> q = p"
  have step: "crash_safe ?P (\<lambda>_. ?R) m u"
    if "pres ?O u (snd (m u))" "?R u" for m :: "('z, 'c) svc_prog" and u
  proof (rule crash_safe_conseq [OF crash_safe_frame_at [where m = m, OF that(1)]])
    show "?P f" if "same_outside ?O (os_fs u) f" for f
      using that other \<open>?R u\<close> unfolding same_outside_def by blast
    show "?R v" if "pres ?O u v" for v
      using that other \<open>?R u\<close> pres_lookup [OF that] pres_env [OF that] by metis
  qed simp
  have keep_sup: "keeps (pres ?O) (install_supervisor cfg jid st info :: ('z, unit) svc_prog)" for st info
    by (rule keeps_pres_mono [OF keeps_install_supervisor [OF path]]) (auto simp: other_paths_def)
  have sup: "pres ?O u (snd ((if b then bindE (attempt (install_supervisor cfg jid st info)) (\<lambda>r :: goerr + unit.
        ret (case r of Inl _ \<Rightarrow> (False, []) | Inr _ \<Rightarrow> (True, sb))) else ret (False, sb)) u))"
    for b st info sb and u :: "'z svc_scheme"
    by (rule keeps_def [THEN iffD1, THEN spec]) (intro keeps_whenI touch_rules keep_sup)
  have pr1: "pres ?O u (snd (prune_backups cfg (backup_dir cfg) u))" if "?R u" for u :: "'z svc_scheme"
    by (rule pres_mono [OF prune_backups_pres]) (use that in \<open>auto simp: other_paths_def\<close>)
  have pr2: "pres ?O u (snd (prune_database_backups cfg u))" if "?R u" for u :: "'z svc_scheme"
    by (rule pres_mono [OF prune_database_backups_pres]) (use that in \<open>auto simp: other_paths_def\<close>)
  obtain q bk written info where xs: "x = (q, bk, written, info)" by (cases x)
  have "crash_safe ?P (\<lambda>_. ?R) (bindE (if b then bindE (attempt (install_supervisor cfg jid st info)) (\<lambda>r :: goerr + unit.
        ret (case r of Inl _ \<Rightarrow> (False, []) | Inr _ \<Rightarrow> (True, sb))) else ret (False, sb)) (\<lambda>(installed, sup_backup).
     seqE (prune_backups cfg (backup_dir cfg)) (seqE (prune_database_backups cfg)
       (ret (res installed sup_backup))))) w1"
    for b st sb and res :: "bool \<Rightarrow> string \<Rightarrow> install_result"
  proof (rule crash_safe_bind [OF step [OF sup]], goal_cases)
    case 1
    then show ?case using x xs by simp
  next
    case (2 y w2)
    then show ?case
      by (cases y, simp only: prod.case)
         (intro crash_safe_seq [OF step [OF pr1]] crash_safe_seq [OF step [OF pr2]] crash_safe_ret, auto)
  qed
  then show "crash_safe ?P ?Q (case x of (p, backup, written, info) \<Rightarrow>
     let sbackup = (if written then backup @ ''.supervisor'' else []) in
     bindE (if trim_space staged_supervisor \<noteq> []
            then bindE (attempt (install_supervisor cfg jid staged_supervisor info)) (\<lambda>r :: goerr + unit.
                 ret (case r of Inl _ \<Rightarrow> (False, []) | Inr _ \<Rightarrow> (True, sbackup)))
            else ret (False, sbackup)) (\<lambda>(installed, sup_backup).
     seqE (prune_backups cfg (backup_dir cfg))
    (seqE (prune_database_backups cfg)
          (ret \<lparr>ir_install_path = p, ir_backup_path = backup, ir_supervisor_installed = installed,
               ir_supervisor_backup_path = sup_backup\<rparr>)))) w1"
    unfolding xs prod.case Let_def by (rule crash_safe_conseq) auto
qed auto

section \<open>Properties\<close>

text \<open>A small machine the properties are evaluated on: a binary, its backup and a staged update.\<close>

definition sample_file :: "string \<Rightarrow> nat \<Rightarrow> gtime \<Rightarrow> finfo" where
  "sample_file data mode t =
     \<lparr>fi_kind = Regular, fi_mode = mode, fi_uid = 0, fi_gid = 0, fi_mtime = t, fi_data = data\<rparr>"

definition sample_dir :: finfo where
  "sample_dir = \<lparr>fi_kind = Directory, fi_mode = 493, fi_uid = 0, fi_gid = 0, fi_mtime = 0, fi_data = []\<rparr>"

definition sample_svc :: svc where
  "sample_svc = \<lparr>os_fs = [''/opt'' \<mapsto> sample_dir, ''/opt/pl'' \<mapsto> sample_file ''old'' 493 1,
        ''/opt/phantom-supervisor'' \<mapsto> sample_file ''sup'' 493 1,
        ''/d/bak'' \<mapsto> sample_file ''good'' 420 1, ''/d/bak.x'' \<mapsto> sample_file ''good'' 493 1,
        ''/d/new'' \<mapsto> sample_file ''new'' 493 2],
     os_fault = (\<lambda>_. False), os_short = (\<lambda>_. 0), os_rand = (\<lambda>_. ''r''), os_clock = int,
     os_uid = 0, os_gid = 0,
     os_names = [''phantom-lancer-v1-00010101T000000Z'', ''phantom-lancer-v1-00010101T000000Z.supervisor'',
                 ''pre-update-j.db''],
     os_calls = 0, os_hist = [], sv_checks = [], sv_jobs = [], sv_events = [], sv_audit = [],
     sv_registered = [], sv_cancel_at = (\<lambda>_. None), sv_mem = empty_job, sv_restarts = 0,
     sv_self_exec = None\<rparr>"

definition sample_cfg :: update_cfg where
  "sample_cfg = \<lparr>cf_enabled = True, cf_asset_name = ''pl.tar.gz'', cf_restart_mode = ''exit'',
     cf_install_binary_path = ''/opt/pl'', cf_data_dir = ''/d'', cf_backup_retention = 1,
     cf_restart_timeout = 120 * second, cf_allow_insecure = False, cf_version = ''v1'', cf_platform = True,
     cf_executable = None, cf_log = True, cf_prepare_exec = False, cf_request_restart = True\<rparr>"

definition sample_backup_db :: "string \<Rightarrow> (unit, unit) svc_prog" where
  "sample_backup_db path =
     seqE (attempt (os_remove (path @ ''.tmp''))) (seqE (os_open_trunc (path @ ''.tmp'') 384) (os_rename (path @ ''.tmp'') path))"

text \<open>
  C2: RestoreBackup replaces the binary atomically.  At every point where the process may
  crash the installed binary is the old one or a complete, executable copy of the backup; it
  is the copy whenever the call reports success.
\<close>
theorem restore_backup_atomic:
  assumes "restore_backup target backup w = (r, w')"
    and "os_fs w backup = Some s" and "os_fs w target = Some old"
    and "restore_tmp target \<notin> {backup, target}"
  shows "all_states w w' (\<lambda>f. f target = Some old \<or> (\<exists>i. f target = Some i \<and> restored s i)) \<and>
    (r = Inr () \<longrightarrow> (\<exists>i. os_fs w' target = Some i \<and> restored s i))"
proof
  show "all_states w w' (\<lambda>f. f target = Some old \<or> (\<exists>i. f target = Some i \<and> restored s i))"
    using restore.crash_states [of w backup target old r w'] assms by (auto elim: all_states_mono)
  show "r = Inr () \<longrightarrow> (\<exists>i. os_fs w' target = Some i \<and> restored s i)"
    using restore.success [of w backup target old "()" w'] assms by auto
qed

theorem restore_backup_atomic_witness:
  "case restore_backup ''/opt/pl'' ''/d/bak.x'' sample_svc of (r, w') \<Rightarrow>
     r = Inr () \<and>
     all_states sample_svc w' (\<lambda>f. f ''/opt/pl'' = Some (sample_file ''old'' 493 1) \<or>
       (\<exists>i. f ''/opt/pl'' = Some i \<and> restored (sample_file ''good'' 493 1) i))"
proof -
  have ok: "fst (restore_backup ''/opt/pl'' ''/d/bak.x'' sample_svc) = Inr ()" by code_simp
  have tmp: "restore_tmp ''/opt/pl'' \<notin> {''/d/bak.x'', ''/opt/pl''}" by code_simp
  show ?thesis
    using restore_backup_atomic [of "''/opt/pl''" "''/d/bak.x''" sample_svc _ _ "sample_file ''good'' 493 1"
        "sample_file ''old'' 493 1", OF prod.collapse [symmetric] _ _ tmp] ok
    by (simp add: case_prod_beta) (simp add: sample_svc_def)
qed

text \<open>
  C1: A binary is replaced only after its backup is complete.  At every crash point of the
  installation's main phase, either the installed binary is the old one, or it is a complete
  copy of the staged binary with the old permissions and the backup file holds a complete
  copy of the old binary; a success reports that backup's path.
  The database backup may write any paths \<open>D\<close> besides these two files, its temporary file included.
\<close>
theorem binary_replaced_after_backup:
  fixes backup_db :: "string \<Rightarrow> ('z, unit) svc_prog"
  assumes "install_main cfg backup_db c jid staged current w = (r, w')"
    and "installed_at cfg = Some p" and "os_fs w p = Some old" and "os_fs w staged = Some s"
    and "keeps (pres D) (backup_db (db_backup_path cfg jid))" and "p \<notin> D" and "staged \<notin> D"
    and "\<forall>n. install_layout cfg p jid staged current (os_clock w n)"
  shows "all_states w w' (old_or_backed_up p old s (\<lambda>bk. \<exists>n. bk = backup_path cfg current (os_clock w n))) \<and>
    (\<forall>q bk written info. r = Inr (q, bk, written, info) \<longrightarrow>
       (\<exists>i b. os_fs w' p = Some i \<and> replica s (perm old) i \<and> os_fs w' bk = Some b \<and> replica old (perm old) b))"
proof -
  have "crash_safe (old_or_backed_up p old s (\<lambda>bk. \<exists>n. bk = backup_path cfg current (os_clock w n)))
    (\<lambda>(q, bk, written, info) w'. q = p \<and> info = old \<and> os_names w' = os_names w \<and>
       (\<exists>i. os_fs w' p = Some i \<and> replica s (perm old) i) \<and>
       (\<exists>b. os_fs w' bk = Some b \<and> replica old (perm old) b))
    (install_main cfg backup_db c jid staged current) w"
    using assms by (intro install_main_crash_safe [where D = D]) auto
  from crash_safeD [OF this assms(1)] show ?thesis by auto
qed

lemma sample_layout: "install_layout sample_cfg ''/opt/pl'' ''j'' ''/d/new'' ''v1'' 0"
  by code_simp

lemma keeps_sample_backup_db: "keeps (pres {p, p @ ''.tmp''}) (sample_backup_db p)"
  unfolding sample_backup_db_def
  by (intro touch_rules keeps_calls) simp_all

lemma sample_db_paths: "''/opt/pl'' \<notin> {db_backup_path sample_cfg ''j'', db_backup_path sample_cfg ''j'' @ ''.tmp''}"
  "''/d/new'' \<notin> {db_backup_path sample_cfg ''j'', db_backup_path sample_cfg ''j'' @ ''.tmp''}"
  by code_simp+

text \<open>The machine with a stopped clock, so that the backup's name is known.\<close>

definition stopped_svc :: svc where
  "stopped_svc = sample_svc\<lparr>os_clock := (\<lambda>_. 0)\<rparr>"

lemma stopped_svc_fields:
  "os_clock stopped_svc = (\<lambda>_. 0)" "os_fs stopped_svc = os_fs sample_svc" "os_names stopped_svc = os_names sample_svc"
  by (simp_all add: stopped_svc_def)

lemma sample_files:
  "os_fs sample_svc ''/opt/pl'' = Some (sample_file ''old'' 493 1)"
  "os_fs sample_svc ''/d/new'' = Some (sample_file ''new'' 493 2)"
  by (simp_all add: sample_svc_def)

lemma sample_installed: "installed_at sample_cfg = Some ''/opt/pl''"
  by code_simp

theorem binary_replaced_after_backup_witness:
  "case install_main sample_cfg sample_backup_db Background ''j'' ''/d/new'' ''v1'' stopped_svc of (r, w') \<Rightarrow>
     all_states stopped_svc w' (old_or_backed_up ''/opt/pl'' (sample_file ''old'' 493 1) (sample_file ''new'' 493 2)
       (\<lambda>bk. bk = backup_path sample_cfg ''v1'' 0))"
  using binary_replaced_after_backup [where backup_db = sample_backup_db, OF prod.collapse [symmetric]
      sample_installed _ _ keeps_sample_backup_db sample_db_paths(1) sample_db_paths(2),
      where w = stopped_svc and old = "sample_file ''old'' 493 1" and
        s = "sample_file ''new'' 493 2" and current = "''v1''" and c = Background]
  by (simp add: stopped_svc_fields sample_files sample_layout case_prod_beta)

text \<open>
  C3: The whole installation (backups, main binary, supervisor, pruning) leaves the installed
  binary old or completely new at every crash point, and completely new when it succeeds,
  whatever the supervisor step and the pruning do.
\<close>
theorem install_atomic:
  fixes backup_db :: "string \<Rightarrow> ('z, unit) svc_prog"
  assumes "install cfg backup_db c jid staged staged_supervisor current w = (r, w')"
    and "installed_at cfg = Some p" and "os_fs w p = Some old" and "os_fs w staged = Some s"
    and "keeps (pres D) (backup_db (db_backup_path cfg jid))" and "p \<notin> D" and "staged \<notin> D"
    and "\<forall>n. install_layout cfg p jid staged current (os_clock w n)"
    and "p \<notin> other_paths cfg p jid (os_names w)"
  shows "all_states w w' (\<lambda>f. f p = Some old \<or> (\<exists>i. f p = Some i \<and> replica s (perm old) i)) \<and>
    (\<forall>res. r = Inr res \<longrightarrow> (\<exists>i. os_fs w' p = Some i \<and> replica s (perm old) i))"
proof -
  have "crash_safe (\<lambda>f. f p = Some old \<or> (\<exists>i. f p = Some i \<and> replica s (perm old) i))
    (\<lambda>_ w'. \<exists>i. os_fs w' p = Some i \<and> replica s (perm old) i)
    (install cfg backup_db c jid staged staged_supervisor current) w"
    using assms by (intro install_crash_safe [where D = D]) auto
  from crash_safeD [OF this assms(1)] show ?thesis by auto
qed

lemma sample_other_paths: "''/opt/pl'' \<notin> other_paths sample_cfg ''/opt/pl'' ''j'' (os_names stopped_svc)"
proof -
  have "supervisor_path ''/opt/pl'' \<noteq> ''/opt/pl''"
    "supervisor_tmp (supervisor_path ''/opt/pl'') ''j'' \<noteq> ''/opt/pl''" by code_simp+
  moreover have "\<forall>n \<in> set (os_names sample_svc). path_join [backup_dir sample_cfg, n] \<noteq> ''/opt/pl''"
    "\<forall>n \<in> set (os_names sample_svc). path_join [path_join [cf_data_dir sample_cfg, ''backups''], n] \<noteq> ''/opt/pl''"
    by code_simp+
  ultimately show ?thesis by (auto simp: other_paths_def stopped_svc_fields)
qed

theorem install_atomic_witness:
  "case install sample_cfg sample_backup_db Background ''j'' ''/d/new'' [] ''v1'' stopped_svc of (r, w') \<Rightarrow>
     all_states stopped_svc w' (\<lambda>f. f ''/opt/pl'' = Some (sample_file ''old'' 493 1) \<or>
       (\<exists>i. f ''/opt/pl'' = Some i \<and> replica (sample_file ''new'' 493 2) (perm (sample_file ''old'' 493 1)) i))"
  using install_atomic [where backup_db = sample_backup_db, OF prod.collapse [symmetric]
      sample_installed _ _ keeps_sample_backup_db sample_db_paths(1) sample_db_paths(2) _ sample_other_paths,
      where old = "sample_file ''old'' 493 1" and s = "sample_file ''new'' 493 2" and
        current = "''v1''" and c = Background and staged_supervisor = "[]"]
  by (simp add: stopped_svc_fields sample_files sample_layout case_prod_beta)

text \<open>
  Pruning keeps the newest backups.  The removal loop leaves exactly as many items as the
  retention allows, removes the others once each, and removes no item newer than one it keeps.
\<close>
theorem prune_keeps_newest:
  "length (snd (prune_plan k items)) = min k (length items) \<and>
   (\<exists>victims. map fst victims = fst (prune_plan k items) \<and>
      mset items = mset victims + mset (snd (prune_plan k items)) \<and>
      (\<forall>v \<in> set victims. \<forall>x \<in> set (snd (prune_plan k items)). snd v \<le> snd x))"
  by (rule prune_plan_spec)

theorem prune_keeps_newest_witness:
  "prune_plan 2 [(''a'', 5), (''b'', 3), (''c'', 9), (''d'', 3)] = ([''b'', ''d''], [(''a'', 5), (''c'', 9)]) \<and>
   length (snd (prune_plan 2 [(''a'', 5), (''b'', 3), (''c'', 9), (''d'', 3)])) = 2"
proof (rule conjI)
  show "prune_plan 2 [(''a'', 5), (''b'', 3), (''c'', 9), (''d'', 3)] = ([''b'', ''d''], [(''a'', 5), (''c'', 9)])"
    by code_simp
  show "length (snd (prune_plan 2 [(''a'', 5), (''b'', 3), (''c'', 9), (''d'', 3)])) = 2"
    using prune_keeps_newest [of 2 "[(''a'', 5), (''b'', 3), (''c'', 9), (''d'', 3)]"] by simp
qed

text \<open>
  The plan counts the supervisor's copy as a backup of its own: with a retention of one, the
  copy of the main binary written just before is the one removed.
\<close>

lemma retention_one_drops_main_backup:
  "t \<le> t' \<Longrightarrow> prune_plan 1 [(bk, t), (bk @ ''.supervisor'', t')] = ([bk], [(bk @ ''.supervisor'', t')])"
  by (simp add: prune_plan.simps oldest_def)

end
