(* ===== verification/ServiceFrames.thy ===== *)
theory ServiceFrames
  imports Installer
begin

text \<open>
  What the file operations and the side calls of the update service leave alone.  \<open>os_only\<close>: an
  operating-system program changes no field of the service and neither the fault schedule nor the
  clock.  \<open>rows_kept\<close>: a program leaves the job rows, the memory copy of the job, the registered and
  cancelled jobs alone.  With no fault in the schedule a database call succeeds.
\<close>

definition os_only :: "'z os_scheme \<Rightarrow> 'z os_scheme \<Rightarrow> bool" where
  "os_only w w' \<longleftrightarrow> os.more w' = os.more w \<and> os_fault w' = os_fault w \<and> os_clock w' = os_clock w"

interpretation untouched: frame_relation os_only
  by unfold_locales (auto simp: os_only_def)

lemmas only_rules = untouched.keeps_rules keeps_whenI

named_theorems only_calls \<open>programs that change the operating system only\<close>

lemma only_syscall: "keeps os_only (syscall op)"
  by (auto simp: keeps_def syscall_def os_only_def Let_def case_prod_beta)

lemma only_syscall_state: "keeps os_only (\<lambda>w. syscall (op w) w)"
  by (auto simp: keeps_def syscall_def os_only_def Let_def case_prod_beta)

lemma only_basic [only_calls]:
  "keeps os_only now" "keeps os_only (os_stat p)" "keeps os_only (os_remove p)"
  "keeps os_only (os_remove_all p)" "keeps os_only (os_remove_tree p)" "keeps os_only (os_rename p q)"
  "keeps os_only (os_read_file p)" "keeps os_only (os_mkdir_all p)" "keeps os_only (os_open_read p)"
  "keeps os_only (os_chmod p m)" "keeps os_only (os_chown p u g)" "keeps os_only os_sync"
  unfolding now_def os_stat_def os_remove_def os_remove_all_def os_remove_tree_def os_rename_def
    os_read_file_def os_mkdir_all_def os_open_read_def os_chmod_def os_chown_def os_sync_def
  by (rule untouched.keeps_get only_syscall)+

lemma only_stateful [only_calls]:
  "keeps os_only (os_read_dir p)" "keeps os_only (os_open_trunc p m)" "keeps os_only (os_create_temp d n)"
  unfolding os_read_dir_def os_open_trunc_def os_create_temp_def Let_def
  by (rule only_syscall_state)+

lemma only_write [only_calls]: "keeps os_only (os_write p s)"
  by (auto simp: keeps_def os_write_def os_only_def Let_def split: option.splits)

lemma only_copy_data [only_calls]: "keeps os_only (os_copy_data p q)"
  by (auto simp: keeps_def os_copy_data_def os_only_def Let_def split: option.splits)

lemma only_write_file [only_calls]: "keeps os_only (os_write_file p s m)"
  unfolding os_write_file_def by (intro only_rules only_calls)

lemma only_or_cleanup: "keeps os_only m \<Longrightarrow> keeps os_only c \<Longrightarrow> keeps os_only (or_cleanup c msg m)"
  unfolding or_cleanup_def by (intro only_rules) (auto split: sum.split intro: only_rules)

lemma only_or_wrap: "keeps os_only m \<Longrightarrow> keeps os_only (or_wrap msg m)"
  unfolding or_wrap_def by (intro only_rules) (auto split: sum.split intro: only_rules)

lemma only_copy_file [only_calls]: "keeps os_only (copy_file p q m)"
  unfolding copy_file_def by (intro only_rules only_calls)

lemma only_ownership [only_calls]: "keeps os_only (preserve_ownership p i)"
  unfolding preserve_ownership_def by (intro only_rules only_calls)

lemma only_fsync_dir [only_calls]: "keeps os_only (fsync_dir d)"
  unfolding fsync_dir_def by (intro only_rules only_calls)

lemma only_ensure_dir [only_calls]: "keeps os_only (ensure_writable_dir d)"
  unfolding ensure_writable_dir_def by (intro only_rules only_calls)

lemma only_install_path [only_calls]: "keeps os_only (install_path cfg)"
  unfolding install_path_def by (auto split: option.split intro: only_rules)

lemma only_validate [only_calls]: "keeps os_only (validate_backup_binary p)"
  unfolding validate_backup_binary_def by (intro only_rules only_calls only_or_wrap)

lemma only_swap_in [only_calls]: "keeps os_only (swap_in a b c s t u m i)"
  unfolding swap_in_def by (intro only_rules only_calls only_or_cleanup)

lemma only_restore [only_calls]: "keeps os_only (restore_backup p b)"
  unfolding restore_backup_def Let_def by (intro only_rules only_calls)

lemma only_remove_all [only_calls]: "keeps os_only (remove_all d ns)"
  by (induction ns) (auto intro!: only_rules only_calls)

lemma only_prune_db [only_calls]: "keeps os_only (prune_database_backups cfg)"
  unfolding prune_database_backups_def Let_def
  by (intro only_rules only_calls) (auto split: sum.split intro!: only_rules only_calls)

section \<open>The rows of the service\<close>

definition rows_kept :: "'z svc_scheme \<Rightarrow> 'z svc_scheme \<Rightarrow> bool" where
  "rows_kept w w' \<longleftrightarrow> sv_jobs w' = sv_jobs w \<and> sv_mem w' = sv_mem w \<and> sv_registered w' = sv_registered w \<and>
     sv_cancel_at w' = sv_cancel_at w \<and> os_fault w' = os_fault w \<and> os_clock w' = os_clock w"

interpretation rows: frame_relation rows_kept
  by unfold_locales (auto simp: rows_kept_def)

lemmas rows_rules = rows.keeps_rules keeps_whenI

named_theorems rows_calls \<open>programs that leave the job rows alone\<close>

lemma os_only_rows: "os_only w w' \<Longrightarrow> rows_kept w w'"
  by (cases w; cases w') (simp add: os_only_def rows_kept_def)

lemma rows_os: "keeps os_only m \<Longrightarrow> keeps rows_kept m"
  by (simp add: keeps_def os_only_rows)

lemma rows_db:
  "(\<And>w. rows_kept w (snd (op w))) \<Longrightarrow> keeps rows_kept (db c op)"
  by (auto simp: keeps_def db_def Let_def rows_kept_def)

lemma rows_query [rows_calls]: "keeps rows_kept (db_query c q)"
  unfolding db_query_def by (rule rows_db) (simp add: rows.frame_refl)

lemma rows_event [rows_calls]: "keeps rows_kept (append_event c s t)"
  unfolding append_event_def db_exec_def by (intro rows_rules rows_db) (simp add: rows_kept_def)

lemma rows_audit [rows_calls]: "keeps rows_kept (add_audit c t)"
  unfolding add_audit_def db_exec_def by (intro rows_rules rows_db) (simp add: rows_kept_def)

lemma rows_now_text [rows_calls]: "keeps rows_kept now_text"
  unfolding now_text_def by (intro rows_rules rows_os only_calls)

lemma rows_new_id [rows_calls]: "keeps rows_kept (new_id p)"
  unfolding new_id_def by (intro rows_os only_syscall_state)

lemma rows_add_check [rows_calls]: "keeps rows_kept (add_system_update_check c k)"
  unfolding add_system_update_check_def Let_def
  by (intro rows_rules rows_calls rows_db) (simp add: rows_kept_def)

lemma rows_latest [rows_calls]:
  "keeps rows_kept (latest_system_update_check c)" "keeps rows_kept (active_system_update_job c)"
  "keeps rows_kept (latest_system_update_job c)" "keeps rows_kept (get_system_update_job c i)"
  unfolding latest_system_update_check_def active_system_update_job_def latest_system_update_job_def
    get_system_update_job_def
  by (rule rows_query)+

lemma rowsD: "keeps rows_kept m \<Longrightarrow> m w = (r, w') \<Longrightarrow> rows_kept w w'"
  by (rule keepsD)

section \<open>Calls that cannot fail\<close>

text \<open>Programs that swallow the errors of their parts always return.\<close>

definition returns :: "('w, 'e, 'a) prog \<Rightarrow> bool" where
  "returns m \<longleftrightarrow> (\<forall>w. \<exists>x w'. m w = (Inr x, w'))"

named_theorems returns_rules \<open>programs that always return\<close>

lemma returns_basic [returns_rules]:
  "returns (ret x)" "returns (get_state f)" "returns (modify g)"
  by (simp_all add: returns_def prog_defs)

lemma returns_attempt [returns_rules]: "returns (attempt m)"
  by (auto simp: returns_def attempt_def split: prod.split)

lemma returns_bindE [returns_rules]:
  assumes "returns m" and "\<And>x. returns (f x)"
  shows "returns (bindE m f)"
  unfolding returns_def
proof
  fix w
  obtain x w1 where "m w = (Inr x, w1)" using assms(1) unfolding returns_def by blast
  then show "\<exists>y w'. bindE m f w = (Inr y, w')"
    using assms(2) [of x] by (auto simp: bindE_def returns_def)
qed

lemma returns_seqE [returns_rules]: "returns m \<Longrightarrow> returns n \<Longrightarrow> returns (seqE m n)"
  unfolding seqE_def by (rule returns_bindE)

lemma returns_if [returns_rules]: "(b \<Longrightarrow> returns m) \<Longrightarrow> (\<not> b \<Longrightarrow> returns n) \<Longrightarrow> returns (if b then m else n)"
  by simp

lemma returns_whenE [returns_rules]: "returns m \<Longrightarrow> returns (whenE b m)"
  by (simp add: whenE_def returns_basic)

lemma returns_side_calls [returns_rules]:
  "returns (append_event c s t)" "returns (add_audit c t)" "returns now" "returns now_text"
  unfolding append_event_def add_audit_def now_def now_text_def by (intro returns_rules)+

lemma returnsD: "returns m \<Longrightarrow> m w = (r, w') \<Longrightarrow> \<exists>x. r = Inr x"
  unfolding returns_def by (metis prod.inject)

definition no_faults :: "'z os_scheme \<Rightarrow> bool" where
  "no_faults w \<longleftrightarrow> (\<forall>n. \<not> os_fault w n)"

lemma rows_no_faults: "rows_kept w w' \<Longrightarrow> no_faults w' = no_faults w"
  by (simp add: rows_kept_def no_faults_def)

lemma background_runs [simp]: "\<not> ctx_cancelled Background w"
  by (simp add: ctx_cancelled_def)

lemma db_exec_runs:
  assumes "no_faults w"
  shows "db_exec Background f w = (Inr (), f (w\<lparr>os_calls := Suc (os_calls w)\<rparr>))"
  using assms by (simp add: db_exec_def db_def no_faults_def Let_def)

lemma db_query_runs:
  assumes "no_faults w"
  shows "db_query Background q w =
    (case q (w\<lparr>os_calls := Suc (os_calls w)\<rparr>) of None \<Rightarrow> Inl err_not_found | Some x \<Rightarrow> Inr x,
     w\<lparr>os_calls := Suc (os_calls w)\<rparr>)"
  using assms by (simp add: db_query_def db_def no_faults_def Let_def)

lemma save_runs:
  assumes "no_faults w"
  shows "save_system_update_job Background j w =
    (Inr (), w\<lparr>os_calls := Suc (os_calls w), sv_jobs := save_row j (sv_jobs w)\<rparr>)"
  using assms by (simp add: save_system_update_job_def db_exec_runs)

end
