(* ===== verification/ReleaseCheck.thy ===== *)
theory ReleaseCheck
  imports Installer
begin

text \<open>
  \<^verbatim>\<open>internal/selfupdate/version.go\<close>, \<^verbatim>\<open>github.go\<close>, \<^verbatim>\<open>archive.go\<close>, \<^verbatim>\<open>download.go\<close> and
  \<^verbatim>\<open>supervisor_status.go\<close>: what makes a release applicable, how versions compare, and how a
  downloaded archive is checked and unpacked.  HTTP responses, the gzip and tar decoders and
  the SHA-256 function are inputs of the definitions.
\<close>

section \<open>Versions\<close>

definition version_part :: "string \<Rightarrow> int option" where
  "version_part s = (case atoi s of None \<Rightarrow> None | Some v \<Rightarrow> if v < 0 then None else Some v)"

fun version_parts :: "string list \<Rightarrow> (int \<times> int \<times> int) option" where
  "version_parts [a, b, c] =
     Option.bind (version_part a) (\<lambda>x. Option.bind (version_part b) (\<lambda>y.
     map_option (\<lambda>z. (x, y, z)) (version_part c)))"
| "version_parts _ = None"

definition parse_version :: "string \<Rightarrow> (int \<times> int \<times> int) option" where
  "parse_version raw =
     (let value = trim_prefix (trim_space raw) ''v'' in
      if value = [] \<or> value = ''dev'' \<or> contains value ''-dev'' then None
      else version_parts (split_byte (CHR ''.'') (cut_before (CHR ''-'') (cut_before (CHR ''+'') value))))"

text \<open>The comparison loop over the three parts; the outcome and whether both parsed.\<close>

fun compare_parts :: "int list \<Rightarrow> int list \<Rightarrow> int" where
  "compare_parts (c # cs) (l # ls) = (if c < l then - 1 else if l < c then 1 else compare_parts cs ls)"
| "compare_parts _ _ = 0"

definition triple_list :: "int \<times> int \<times> int \<Rightarrow> int list" where
  "triple_list = (\<lambda>(a, b, c). [a, b, c])"

definition compare_versions :: "string \<Rightarrow> string \<Rightarrow> int \<times> bool" where
  "compare_versions current latest =
     (case parse_version current of
        None \<Rightarrow> (0, False)
      | Some c \<Rightarrow> (case parse_version latest of
                    None \<Rightarrow> (0, False)
                  | Some l \<Rightarrow> (compare_parts (triple_list c) (triple_list l), True)))"

definition is_release_tag :: "string \<Rightarrow> bool" where
  "is_release_tag value = (has_prefix value ''v'' \<and> parse_version value \<noteq> None)"

section \<open>Download URLs\<close>

definition letter :: "char \<Rightarrow> bool" where
  "letter c = ((CHR ''a'' \<le> c \<and> c \<le> CHR ''z'') \<or> (CHR ''A'' \<le> c \<and> c \<le> CHR ''Z''))"

definition scheme_extra :: "char \<Rightarrow> bool" where
  "scheme_extra c = ((CHR ''0'' \<le> c \<and> c \<le> CHR ''9'') \<or> c \<in> set ''+-.'')"

text \<open>
  \<^verbatim>\<open>net/url\<close>'s scheme scan: the scheme up to the first colon, empty when a character that cannot
  be in a scheme comes first; \<open>None\<close> is the error of a leading colon.
\<close>

fun scan_scheme :: "string \<Rightarrow> string \<Rightarrow> string option" where
  "scan_scheme acc [] = Some []"
| "scan_scheme acc (c # s) =
     (if letter c then scan_scheme (c # acc) s
      else if scheme_extra c then (if acc = [] then Some [] else scan_scheme (c # acc) s)
      else if c = CHR '':'' then (if acc = [] then None else Some (rev acc))
      else Some [])"

text \<open>
  \<open>url_rest_ok\<close> stands for the remaining checks of \<^verbatim>\<open>url.Parse\<close> (control characters, host,
  port, escapes).
\<close>

definition validate_download_url :: "(string \<Rightarrow> bool) \<Rightarrow> string \<Rightarrow> bool \<Rightarrow> goerr + unit" where
  "validate_download_url url_rest_ok raw allow_insecure =
     (if \<not> url_rest_ok raw then Inl (ErrMsg ''parse error'')
      else case scan_scheme [] raw of
        None \<Rightarrow> Inl (ErrMsg ''missing protocol scheme'')
      | Some sch \<Rightarrow>
          let scheme = map lower_char sch in
          if scheme = ''https'' then Inr ()
          else if allow_insecure \<and> scheme = ''http'' then Inr ()
          else Inl (ErrMsg ''download URL must use HTTPS''))"

section \<open>Releases\<close>

record gh_asset =
  ga_name :: string
  ga_url :: string
  ga_size :: int

record gh_release =
  gr_id :: int
  gr_tag :: string
  gr_html_url :: string
  gr_draft :: bool
  gr_prerelease :: bool
  gr_published_at :: string
  gr_assets :: "gh_asset list"

definition empty_asset :: gh_asset where
  "empty_asset = \<lparr>ga_name = [], ga_url = [], ga_size = 0\<rparr>"

text \<open>The last asset of each name wins, as in the loop.\<close>

fun match_assets_loop :: "gh_asset list \<Rightarrow> string \<Rightarrow> gh_asset \<Rightarrow> gh_asset \<Rightarrow> gh_asset \<times> gh_asset" where
  "match_assets_loop [] name archive checksum = (archive, checksum)"
| "match_assets_loop (a # as) name archive checksum =
     match_assets_loop as name (if ga_name a = name then a else archive)
       (if ga_name a = name @ ''.sha256'' then a else checksum)"

definition match_assets :: "gh_asset list \<Rightarrow> string \<Rightarrow> gh_asset \<times> gh_asset" where
  "match_assets assets name = match_assets_loop assets name empty_asset empty_asset"

definition is_ok :: "'e + 'a \<Rightarrow> bool" where
  "is_ok r = (case r of Inl _ \<Rightarrow> False | Inr _ \<Rightarrow> True)"

definition release_base :: "update_cfg \<Rightarrow> gh_release \<Rightarrow> update_check" where
  "release_base cfg rel = empty_check\<lparr>uc_current_version := cf_version cfg,
     uc_latest_version := trim_space (gr_tag rel), uc_release_id := itoa (gr_id rel),
     uc_release_url := trim_space (gr_html_url rel), uc_published_at := trim_space (gr_published_at rel)\<rparr>"

text \<open>The fields set once the tag is accepted, before the reasons for refusal are tried in turn.\<close>

definition release_assets :: "update_cfg \<Rightarrow> gh_release \<Rightarrow> update_check" where
  "release_assets cfg rel =
     (let base = release_base cfg rel;
          (asset, checksum) = match_assets (gr_assets rel) (cf_asset_name cfg);
          (cmp, comparable) = compare_versions (cf_version cfg) (uc_latest_version base)
      in base\<lparr>uc_platform_supported := cf_platform cfg,
              uc_asset_name := ga_name asset,
              uc_asset_url := (if ga_name asset \<noteq> [] then ga_url asset else []),
              uc_asset_size_bytes := (if ga_name asset \<noteq> [] then ga_size asset else 0),
              uc_checksum_asset_url := (if ga_name checksum \<noteq> [] then ga_url checksum else []),
              uc_checksum_available := (ga_name checksum \<noteq> []),
              uc_comparable := comparable,
              uc_update_available := (\<not> comparable \<or> cmp < 0)\<rparr>)"

definition check_from_release :: "(string \<Rightarrow> bool) \<Rightarrow> update_cfg \<Rightarrow> gh_release \<Rightarrow> update_check" where
  "check_from_release url_rest_ok cfg rel =
     (let base = release_base cfg rel; check = release_assets cfg rel;
          (cmp, comparable) = compare_versions (cf_version cfg) (uc_latest_version base);
          allowed = (\<lambda>u. is_ok (validate_download_url url_rest_ok u (cf_allow_insecure cfg))) in
      if gr_draft rel \<or> gr_prerelease rel then base\<lparr>uc_reason := ''latest release is draft or prerelease''\<rparr>
      else if \<not> is_release_tag (uc_latest_version base)
        then base\<lparr>uc_reason := ''latest release tag is not v-prefixed semver''\<rparr>
      else if comparable \<and> 0 \<le> cmp then check\<lparr>uc_reason := ''current version is up to date''\<rparr>
      else if \<not> uc_platform_supported check
        then check\<lparr>uc_reason := ''current platform is not supported by the release asset''\<rparr>
      else if uc_asset_url check = [] then check\<lparr>uc_reason := ''matching release asset is missing''\<rparr>
      else if uc_checksum_asset_url check = [] then check\<lparr>uc_reason := ''checksum asset is missing''\<rparr>
      else if \<not> allowed (uc_asset_url check) then check\<lparr>uc_reason := ''release asset URL is not allowed''\<rparr>
      else if \<not> allowed (uc_checksum_asset_url check)
        then check\<lparr>uc_reason := ''checksum asset URL is not allowed''\<rparr>
      else check\<lparr>uc_can_apply := True\<rparr>)"

text \<open>The answer to the release request: a transport error, or a status with a decoded body.\<close>

record http_release =
  hr_status :: int
  hr_body_len :: nat
  hr_release :: "goerr + gh_release"
  hr_etag :: string

definition max_release_bytes :: nat where
  "max_release_bytes = 2 ^ 20"

text \<open>The check, whether the answer was \<^verbatim>\<open>304 Not Modified\<close>, and the error.\<close>

definition fetch_latest_release ::
  "(string \<Rightarrow> bool) \<Rightarrow> update_cfg \<Rightarrow> goerr + http_release \<Rightarrow> goerr + update_check option" where
  "fetch_latest_release url_rest_ok cfg resp =
     (case resp of
        Inl e \<Rightarrow> Inl e
      | Inr h \<Rightarrow>
          if hr_status h = 304 then Inr None
          else if hr_status h \<noteq> 200 then Inl (ErrMsg ''github release check failed'')
          else if max_release_bytes < hr_body_len h then Inl (ErrMsg ''github release response too large'')
          else case hr_release h of
            Inl e \<Rightarrow> Inl e
          | Inr rel \<Rightarrow> Inr (Some ((check_from_release url_rest_ok cfg rel)\<lparr>uc_etag := hr_etag h\<rparr>)))"

section \<open>Checksums\<close>

definition hex_char :: "char \<Rightarrow> bool" where
  "hex_char c = ((CHR ''0'' \<le> c \<and> c \<le> CHR ''9'') \<or> (CHR ''a'' \<le> c \<and> c \<le> CHR ''f''))"

definition parse_sha256 :: "(string \<Rightarrow> string) \<Rightarrow> string \<Rightarrow> goerr + string" where
  "parse_sha256 ul value =
     (case GoStd.fields value of
        [] \<Rightarrow> Inl (ErrMsg ''checksum file is empty'')
      | f # _ \<Rightarrow>
          let digest = to_lower ul (trim_space f) in
          if length digest \<noteq> 64 then Inl (ErrMsg ''checksum must be a SHA-256 hex digest'')
          else if \<not> list_all hex_char digest then Inl (ErrMsg ''checksum contains non-hex characters'')
          else Inr digest)"

text \<open>
  \<open>sha\<close> is the hex digest of the file's content, in lower case.  Both sides are then
  lower-case ASCII, where \<^verbatim>\<open>EqualFold\<close> is equality.
\<close>

definition verify_checksum ::
  "(string \<Rightarrow> string) \<Rightarrow> (string \<Rightarrow> string) \<Rightarrow> string \<Rightarrow> string \<Rightarrow> ('z, string) os_prog" where
  "verify_checksum ul sha archive checksum =
     bindE (os_read_file checksum) (\<lambda>data.
     case parse_sha256 ul data of
       Inl e \<Rightarrow> throw e
     | Inr want \<Rightarrow>
         bindE (os_read_file archive) (\<lambda>content.
         let got = sha content in
         if map lower_char got \<noteq> map lower_char want then throw (ErrMsg ''release checksum does not match'')
         else ret got))"

section \<open>Archives\<close>

text \<open>
  The tar reader's answers in order: an entry, whose content may be cut short by a decoding
  error, or an error of the reader; the end of the list is \<^verbatim>\<open>io.EOF\<close>.
\<close>

record tar_header =
  th_name :: string
  th_flag :: char
  th_size :: int
  th_data :: string
  th_broken :: bool

type_synonym tar_stream = "(goerr + tar_header) list"

definition max_archive_bytes :: int where
  "max_archive_bytes = 512 * 2 ^ 20"

definition release_binary_path :: string where
  "release_binary_path = ''phantom-lancer/bin/phantom-lancer''"

definition release_supervisor_path :: string where
  "release_supervisor_path = ''phantom-lancer/bin/phantom-supervisor''"

definition safe_tar_name :: "string \<Rightarrow> goerr + string" where
  "safe_tar_name name =
     (let clean = path_clean (trim_space name) in
      if clean = ''.'' \<or> has_prefix clean ''../'' \<or> has_prefix clean ''/'' \<or> contains clean ''/../''
      then Inl (ErrMsg ''release archive contains unsafe path'') else Inr clean)"

definition path_dir_raw :: "string \<Rightarrow> string" where
  "path_dir_raw value =
     (if slash \<in> set value then butlast (upto_last_slash value) else ''.'')"

definition write_extracted_binary :: "tar_header \<Rightarrow> string \<Rightarrow> ('z, unit) os_prog" where
  "write_extracted_binary h out =
     seqE (os_mkdir_all (path_dir_raw out))
    (seqE (os_open_trunc out 448)
    (seqE (os_write out (th_data h))
    (seqE (if th_broken h then throw (ErrMsg ''unexpected EOF'') else ret ())
    (seqE (os_chmod out 493) os_sync))))"

definition file_flag :: "char \<Rightarrow> bool" where
  "file_flag c = (c = CHR ''0'' \<or> c = CHR 0x00)"

text \<open>
  The extraction loop.  Its state: entries seen, bytes declared, whether the main binary was
  found, the supervisor's path once found.
\<close>

fun extract_loop ::
  "string \<Rightarrow> nat \<Rightarrow> int \<Rightarrow> bool \<Rightarrow> string \<Rightarrow> tar_stream \<Rightarrow> ('z, string) os_prog" where
  "extract_loop out files tot found spath [] =
     (if found then ret spath
      else throw (ErrMsg ''release archive does not contain phantom-lancer binary''))"
| "extract_loop out files tot found spath (Inl e # rest) = throw e"
| "extract_loop out files tot found spath (Inr h # rest) =
     (if 200 < Suc files then throw (ErrMsg ''release archive contains too many files'')
      else case safe_tar_name (th_name h) of
        Inl e \<Rightarrow> throw e
      | Inr clean \<Rightarrow>
          if th_flag h = CHR ''5'' then extract_loop out (Suc files) tot found spath rest
          else if \<not> file_flag (th_flag h)
            then throw (ErrMsg ''release archive contains unsupported file type'')
          else if max_archive_bytes < wrap64 (tot + th_size h)
            then throw (ErrMsg ''release archive expands beyond the allowed maximum'')
          else if clean = release_binary_path
            then seqE (write_extracted_binary h out)
                   (extract_loop out (Suc files) (wrap64 (tot + th_size h)) True spath rest)
          else if clean = release_supervisor_path
            then seqE (write_extracted_binary h (out @ ''.supervisor''))
                   (extract_loop out (Suc files) (wrap64 (tot + th_size h)) found (out @ ''.supervisor'') rest)
          else extract_loop out (Suc files) (wrap64 (tot + th_size h)) found spath rest)"

text \<open>\<open>decode\<close> is the gzip and tar decoding of the archive's content.\<close>

definition extract_binaries ::
  "(string \<Rightarrow> goerr + tar_stream) \<Rightarrow> string \<Rightarrow> string \<Rightarrow> ('z, string \<times> string) os_prog" where
  "extract_binaries decode archive out =
     bindE (os_read_file archive) (\<lambda>content.
     case decode content of
       Inl e \<Rightarrow> throw e
     | Inr entries \<Rightarrow> bindE (extract_loop out 0 0 False [] entries) (\<lambda>spath. ret (out, spath)))"

section \<open>Version order\<close>

lemma compare_parts_spec:
  "length cs = length ls \<Longrightarrow>
   (compare_parts cs ls < 0 \<longleftrightarrow> cs < ls) \<and> (compare_parts cs ls = 0 \<longleftrightarrow> cs = ls) \<and>
   (0 < compare_parts cs ls \<longleftrightarrow> ls < cs)"
  by (induction cs ls rule: list_induct2) (auto simp: not_less_iff_gr_or_eq)

lemma triple_list_inj [simp]: "triple_list x = triple_list y \<longleftrightarrow> x = y"
  by (auto simp: triple_list_def split: prod.splits)

lemma length_triple_list [simp]: "length (triple_list x) = 3"
  by (simp add: triple_list_def split: prod.split)

lemma compare_versions_comparable:
  "snd (compare_versions a b) \<longleftrightarrow> parse_version a \<noteq> None \<and> parse_version b \<noteq> None"
  by (auto simp: compare_versions_def split: option.splits)

lemma compare_versions_Some:
  "parse_version a = Some x \<Longrightarrow> parse_version b = Some y \<Longrightarrow>
   compare_versions a b = (compare_parts (triple_list x) (triple_list y), True)"
  by (simp add: compare_versions_def)

text \<open>
  C40: Version comparison is the lexicographic order of (major, minor, patch).  When both
  versions parse the result is comparable and negative, zero or positive exactly when the
  current version is smaller, equal or greater; otherwise they are not comparable.
\<close>
theorem compare_versions_lexicographic:
  "compare_versions a b =
    (case (parse_version a, parse_version b) of
       (Some x, Some y) \<Rightarrow>
         ((if triple_list x < triple_list y then - 1 else if x = y then 0 else 1), True)
     | _ \<Rightarrow> (0, False))"
proof -
  have range: "compare_parts cs ls \<in> {- 1, 0, 1}" for cs ls
    by (induction cs ls rule: compare_parts.induct) auto
  have "compare_parts (triple_list x) (triple_list y) =
      (if triple_list x < triple_list y then - 1 else if x = y then 0 else 1)" for x y
    using compare_parts_spec [of "triple_list x" "triple_list y"] range [of "triple_list x" "triple_list y"]
    by auto
  then show ?thesis by (auto simp: compare_versions_def split: option.split)
qed

section \<open>Version text\<close>

lemma itoa_no_sep:
  assumes "0 \<le> v"
  shows "CHR ''.'' \<notin> set (itoa v)" "CHR ''+'' \<notin> set (itoa v)" "CHR ''-'' \<notin> set (itoa v)"
  using itoa_code [OF assms, of "CHR ''.''"] itoa_code [OF assms, of "CHR ''+''"]
    itoa_code [OF assms, of "CHR ''-''"] by auto

lemma itoa_graphic: "0 \<le> v \<Longrightarrow> list_all graphic (itoa v)"
  by (fastforce simp: list_all_iff graphic_def dest: itoa_code)

lemma itoa_nonempty: "itoa v \<noteq> []"
  by (simp add: itoa_def)

definition version_body :: "int \<Rightarrow> int \<Rightarrow> int \<Rightarrow> string" where
  "version_body a b c = itoa a @ ''.'' @ itoa b @ ''.'' @ itoa c"

lemma version_body_chars:
  assumes "0 \<le> a" "0 \<le> b" "0 \<le> c" and "x \<in> set (version_body a b c)"
  shows "x = CHR ''.'' \<or> 48 \<le> (of_char x :: nat) \<and> of_char x \<le> (57 :: nat)"
  using assms(4) itoa_code [OF assms(1)] itoa_code [OF assms(2)] itoa_code [OF assms(3)]
  by (auto simp: version_body_def)

lemma cut_before_absent: "d \<notin> set s \<Longrightarrow> cut_before d s = s"
  by (simp add: cut_before_def takeWhile_eq_all_conv) blast

lemma contains_chars: "contains s p \<Longrightarrow> set p \<subseteq> set s"
  by (auto simp: contains_iff)

lemma version_part_itoa: "0 \<le> v \<Longrightarrow> v \<le> max_int64 \<Longrightarrow> version_part (itoa v) = Some v"
  by (simp add: version_part_def atoi_itoa min_int64_def)

text \<open>
  Printing and parsing versions are inverse.  Every version made of three numbers in the
  range of \<^verbatim>\<open>int\<close>, written \<^verbatim>\<open>vA.B.C\<close>, is a release tag that parses to these numbers.
\<close>
theorem parse_version_roundtrip:
  assumes "0 \<le> a" "a \<le> max_int64" "0 \<le> b" "b \<le> max_int64" "0 \<le> c" "c \<le> max_int64"
  shows "parse_version (''v'' @ itoa a @ ''.'' @ itoa b @ ''.'' @ itoa c) = Some (a, b, c) \<and>
    is_release_tag (''v'' @ itoa a @ ''.'' @ itoa b @ ''.'' @ itoa c)"
proof -
  let ?s = "version_body a b c"
  note chars = version_body_chars [OF assms(1,3,5)]
  have no: "CHR ''+'' \<notin> set ?s" "CHR ''-'' \<notin> set ?s" "CHR ''d'' \<notin> set ?s"
    using chars [of "CHR ''+''"] chars [of "CHR ''-''"] chars [of "CHR ''d''"] by auto
  have "list_all graphic (''v'' @ ?s)"
    unfolding list_all_iff using chars by (fastforce simp: graphic_def)
  then have "trim_prefix (trim_space (''v'' @ ?s)) ''v'' = ?s"
    by (simp add: trim_space_graphic trim_prefix_def has_prefix_def)
  moreover have "?s \<noteq> ''dev''" using no(3) by (metis list.set_intros(1))
  moreover have "?s \<noteq> []" by (simp add: version_body_def)
  moreover have "\<not> contains ?s ''-dev''" using no(2) contains_chars [of ?s "''-dev''"] by auto
  moreover have "split_byte (CHR ''.'') ?s = [itoa a, itoa b, itoa c]"
    unfolding version_body_def
    by (simp add: split_byte_append split_byte_no_sep itoa_no_sep assms)
  ultimately have "parse_version (''v'' @ ?s) = Some (a, b, c)"
    using no by (simp add: parse_version_def cut_before_absent version_part_itoa assms)
  then show ?thesis by (simp add: is_release_tag_def version_body_def has_prefix_def)
qed

theorem parse_version_roundtrip_witness:
  "parse_version (''v'' @ itoa 1 @ ''.'' @ itoa 20 @ ''.'' @ itoa 3) = Some (1, 20, 3)"
  using parse_version_roundtrip [of 1 20 3] by (simp add: max_int64_def)

section \<open>When a release may be installed\<close>

lemma can_apply_cases:
  "uc_can_apply (check_from_release url_rest_ok cfg rel) \<longleftrightarrow>
     \<not> gr_draft rel \<and> \<not> gr_prerelease rel \<and> is_release_tag (trim_space (gr_tag rel)) \<and>
     \<not> (snd (compare_versions (cf_version cfg) (trim_space (gr_tag rel))) \<and>
        0 \<le> fst (compare_versions (cf_version cfg) (trim_space (gr_tag rel)))) \<and>
     cf_platform cfg \<and>
     uc_asset_url (release_assets cfg rel) \<noteq> [] \<and> uc_checksum_asset_url (release_assets cfg rel) \<noteq> [] \<and>
     is_ok (validate_download_url url_rest_ok (uc_asset_url (release_assets cfg rel)) (cf_allow_insecure cfg)) \<and>
     is_ok (validate_download_url url_rest_ok (uc_checksum_asset_url (release_assets cfg rel)) (cf_allow_insecure cfg))"
proof -
  have base: "uc_can_apply (release_base cfg rel) = False" "uc_latest_version (release_base cfg rel) = trim_space (gr_tag rel)"
    by (simp_all add: release_base_def empty_check_def)
  have assets: "uc_can_apply (release_assets cfg rel) = False"
    "uc_platform_supported (release_assets cfg rel) = cf_platform cfg"
    by (simp_all add: release_assets_def Let_def release_base_def empty_check_def case_prod_beta)
  show ?thesis
    unfolding check_from_release_def Let_def case_prod_beta
    by (simp add: base assets)
qed

text \<open>
  A release is offered for installation exactly when it is a published release with a
  v-prefixed version tag that is not comparable to or newer than the running version, the
  platform is supported, and both the archive and its checksum have an allowed URL.
\<close>
theorem can_apply_iff:
  "uc_can_apply (check_from_release url_rest_ok cfg rel) \<longleftrightarrow>
     \<not> gr_draft rel \<and> \<not> gr_prerelease rel \<and> is_release_tag (trim_space (gr_tag rel)) \<and>
     \<not> (snd (compare_versions (cf_version cfg) (trim_space (gr_tag rel))) \<and>
        0 \<le> fst (compare_versions (cf_version cfg) (trim_space (gr_tag rel)))) \<and>
     cf_platform cfg \<and>
     uc_asset_url (release_assets cfg rel) \<noteq> [] \<and> uc_checksum_asset_url (release_assets cfg rel) \<noteq> [] \<and>
     is_ok (validate_download_url url_rest_ok (uc_asset_url (release_assets cfg rel)) (cf_allow_insecure cfg)) \<and>
     is_ok (validate_download_url url_rest_ok (uc_checksum_asset_url (release_assets cfg rel)) (cf_allow_insecure cfg))"
  by (rule can_apply_cases)

lemma scan_scheme_https:
  "is_ok (validate_download_url r u False) \<Longrightarrow> \<exists>s. scan_scheme [] u = Some s \<and> map lower_char s = ''https''"
  by (auto simp: validate_download_url_def is_ok_def Let_def split: if_splits option.splits sum.splits)

text \<open>
  Unless insecure downloads are switched on, an applicable release has \<^verbatim>\<open>https\<close> URLs for
  both the archive and the checksum.
\<close>
theorem applicable_release_uses_https:
  assumes "uc_can_apply (check_from_release url_rest_ok cfg rel)" and "\<not> cf_allow_insecure cfg"
    and "u \<in> {uc_asset_url (check_from_release url_rest_ok cfg rel),
              uc_checksum_asset_url (check_from_release url_rest_ok cfg rel)}"
  shows "\<exists>s. scan_scheme [] u = Some s \<and> map lower_char s = ''https''"
proof -
  have same: "check_from_release url_rest_ok cfg rel = (release_assets cfg rel)\<lparr>uc_can_apply := True\<rparr>"
    using assms(1)
    by (auto simp: check_from_release_def Let_def case_prod_beta release_assets_def release_base_def
        empty_check_def split: if_splits)
  show ?thesis
    using assms(1) [unfolded can_apply_cases] assms(2,3) unfolding same
    by (auto intro: scan_scheme_https)
qed

definition sample_release :: gh_release where
  "sample_release = \<lparr>gr_id = 7, gr_tag = ''v1.2.0'', gr_html_url = ''https://h/r'', gr_draft = False,
     gr_prerelease = False, gr_published_at = [],
     gr_assets = [\<lparr>ga_name = ''pl.tar.gz'', ga_url = ''HTTPS://h/a'', ga_size = 5\<rparr>,
                  \<lparr>ga_name = ''pl.tar.gz.sha256'', ga_url = ''https://h/s'', ga_size = 1\<rparr>]\<rparr>"

definition newer_cfg :: update_cfg where
  "newer_cfg = sample_cfg\<lparr>cf_version := ''v1.1.9''\<rparr>"

lemma sample_release_applies: "uc_can_apply (check_from_release (\<lambda>_. True) newer_cfg sample_release)"
proof -
  have t: "trim_space ''v1.2.0'' = ''v1.2.0''"
    by (rule trim_space_graphic) (simp add: graphic_def)
  have v: "parse_version ''v1.2.0'' = Some (1, 2, 0)" "parse_version ''v1.1.9'' = Some (1, 1, 9)"
    by code_simp+
  have u: "is_ok (validate_download_url (\<lambda>_. True) ''HTTPS://h/a'' False)"
    "is_ok (validate_download_url (\<lambda>_. True) ''https://h/s'' False)"
    by code_simp+
  show ?thesis
    unfolding can_apply_cases
    by (simp add: newer_cfg_def sample_cfg_def sample_release_def t v u is_release_tag_def has_prefix_def
        compare_versions_def triple_list_def release_assets_def release_base_def match_assets_def
        empty_asset_def Let_def)
qed

lemma sample_release_url: "uc_asset_url (check_from_release (\<lambda>_. True) newer_cfg sample_release) = ''HTTPS://h/a''"
proof -
  have "uc_asset_url (check_from_release r newer_cfg sample_release) = uc_asset_url (release_assets newer_cfg sample_release)"
    if "uc_can_apply (check_from_release r newer_cfg sample_release)" for r
    using that by (auto simp: check_from_release_def Let_def case_prod_beta release_assets_def release_base_def
        empty_check_def split: if_splits)
  moreover have "uc_asset_url (release_assets newer_cfg sample_release) = ''HTTPS://h/a''"
    by (simp add: newer_cfg_def sample_cfg_def sample_release_def release_assets_def release_base_def
        match_assets_def empty_asset_def Let_def case_prod_beta)
  ultimately show ?thesis using sample_release_applies by simp
qed

theorem applicable_release_uses_https_witness:
  "\<exists>s. scan_scheme [] ''HTTPS://h/a'' = Some s \<and> map lower_char s = ''https''"
  using applicable_release_uses_https [OF sample_release_applies, of "''HTTPS://h/a''"] sample_release_url
  by (simp add: newer_cfg_def sample_cfg_def)

section \<open>Checksums and archives\<close>

lemma parse_sha256_Inr:
  "parse_sha256 ul v = Inr d \<Longrightarrow> length d = 64 \<and> list_all hex_char d"
  by (auto simp: parse_sha256_def Let_def split: list.splits if_splits)

lemma read_file_Inr:
  "os_read_file p w = (Inr d, w') \<longleftrightarrow>
     \<not> os_fault w (os_calls w) \<and> (\<exists>i. os_fs w p = Some i \<and> fi_kind i \<noteq> Directory \<and> d = fi_data i) \<and>
     w' = w\<lparr>os_calls := Suc (os_calls w), os_hist := os_fs w # os_hist w\<rparr>"
  by (auto simp: os_read_file_def syscall_Inr split: option.splits)

lemma verify_checksum_Inr:
  assumes "verify_checksum ul sha archive checksum w = (Inr got, w')"
  shows "\<exists>a c want. os_fs w archive = Some a \<and> os_fs w checksum = Some c \<and>
    parse_sha256 ul (fi_data c) = Inr want \<and> length want = 64 \<and> list_all hex_char want \<and>
    got = sha (fi_data a) \<and> map lower_char got = map lower_char want"
proof -
  from assms obtain data w1 where st: "os_read_file checksum w = (Inr data, w1)"
    and rest: "(case parse_sha256 ul data of Inl e \<Rightarrow> throw e
       | Inr want \<Rightarrow> bindE (os_read_file archive) (\<lambda>content. let got = sha content in
           if map lower_char got \<noteq> map lower_char want then throw (ErrMsg ''release checksum does not match'')
           else ret got)) w1 = (Inr got, w')"
    unfolding verify_checksum_def bindE_Inr by blast
  from st obtain c where c: "os_fs w checksum = Some c" "data = fi_data c" "os_fs w1 = os_fs w"
    by (auto simp: read_file_Inr)
  from rest obtain want where want: "parse_sha256 ul data = Inr want"
    by (auto split: sum.splits)
  from rest obtain content w2 where "os_read_file archive w1 = (Inr content, w2)"
    "got = sha content" "map lower_char got = map lower_char want"
    by (auto simp: want run_Inr Let_def split: if_splits)
  then show ?thesis
    using c want parse_sha256_Inr [OF want] by (auto simp: read_file_Inr)
qed

definition zeros64 :: string where
  "zeros64 = replicate 64 (CHR ''0'')"

text \<open>
  An accepted name cannot start with \<^verbatim>\<open>../\<close>, but the bare \<^verbatim>\<open>..\<close>, which leaves the archive's root, is accepted.
  No branch of the extraction writes to it.
\<close>

lemma safe_tar_name_dotdot: "safe_tar_name ''..'' = Inr ''..''"
  by code_simp

section \<open>Extraction\<close>

definition is_main_entry :: "tar_header \<Rightarrow> bool" where
  "is_main_entry h = (safe_tar_name (th_name h) = Inr release_binary_path \<and> file_flag (th_flag h))"

lemma write_Inr:
  assumes "os_write p bytes w = (Inr x, w')"
  obtains d where "os_fs w p = Some d"
    "os_fs w' = (os_fs w)(p \<mapsto> d\<lparr>fi_data := fi_data d @ bytes, fi_mtime := os_clock w (os_calls w)\<rparr>)"
  using assms by (auto simp: os_write_def Let_def split: option.splits if_splits)

lemma open_trunc_empty:
  assumes "os_open_trunc p mode w = (Inr x, w')"
  obtains i where "os_fs w' = (os_fs w)(p \<mapsto> i)" "fi_data i = []"
  using assms by (auto simp: os_open_trunc_def syscall_Inr split: option.splits if_splits)

lemma mkdir_all_Inr:
  assumes "os_mkdir_all d w = (Inr x, w')" and "os_fs w p = Some i"
  shows "os_fs w' p = Some i"
  using assms by (auto simp: os_mkdir_all_def syscall_Inr split: option.splits if_splits)

text \<open>A written entry is the complete content with mode 0755.\<close>

lemma write_extracted_Inr:
  assumes "write_extracted_binary h out w = (Inr x, w')"
  shows "\<not> th_broken h \<and> (\<exists>i. os_fs w' out = Some i \<and> fi_data i = th_data h \<and> fi_mode i = 493)"
proof -
  from assms obtain w1 w2 w3 w4 w5 where st: "os_mkdir_all (path_dir_raw out) w = (Inr (), w1)"
      "os_open_trunc out 448 w1 = (Inr (), w2)" "os_write out (th_data h) w2 = (Inr (), w3)"
      "(if th_broken h then throw (ErrMsg ''unexpected EOF'') else ret ()) w3 = (Inr (), w4)"
      "os_chmod out 493 w4 = (Inr (), w5)" "os_sync w5 = (Inr x, w')"
    by (auto simp: write_extracted_binary_def run_Inr)
  obtain i where i: "os_fs w2 = (os_fs w1)(out \<mapsto> i)" "fi_data i = []" by (rule open_trunc_empty [OF st(2)])
  obtain d where d: "os_fs w2 out = Some d"
      "os_fs w3 = (os_fs w2)(out \<mapsto> d\<lparr>fi_data := fi_data d @ th_data h, fi_mtime := os_clock w2 (os_calls w2)\<rparr>)"
    by (rule write_Inr [OF st(3)])
  have b: "\<not> th_broken h" "w4 = w3" using st(4) by (auto simp: ret_Inr split: if_splits)
  obtain j where j: "os_fs w4 out = Some j" "os_fs w5 = (os_fs w4)(out \<mapsto> j\<lparr>fi_mode := 493\<rparr>)"
    by (rule chmod_Inr [OF st(5)])
  show ?thesis using i d b j sync_Inr [OF st(6)] by auto
qed

lemma keeps_write_extracted: "out \<in> A \<Longrightarrow> keeps (pres A) (write_extracted_binary h out)"
  unfolding write_extracted_binary_def by (intro touch_rules keeps_calls keeps_whenI)

lemma keeps_extract_loop:
  "out \<in> A \<Longrightarrow> out @ ''.supervisor'' \<in> A \<Longrightarrow> keeps (pres A) (extract_loop out files tot found spath es)"
proof (induction out files tot found spath es rule: extract_loop.induct)
  case (3 out files tot found spath h rest)
  then show ?case
    by (auto simp: split: sum.split intro!: touch_rules keeps_write_extracted)
qed (auto intro: touch_rules)

text \<open>
  What one step of the loop must have done when the whole loop succeeds: the entry was within
  the limits, and it wrote the output if it is the main binary.
\<close>

lemma extract_step:
  assumes "extract_loop out files tot found spath (Inr h # rest) w = (Inr s, w')"
  obtains w1 tot' found' spath' where "files < 200"
    "extract_loop out (Suc files) tot' found' spath' rest w1 = (Inr s, w')"
    "if is_main_entry h
     then found' \<and> (\<exists>i. os_fs w1 out = Some i \<and> fi_data i = th_data h \<and> fi_mode i = 493)
     else found' = found \<and> (\<forall>i. os_fs w out = Some i \<longrightarrow> os_fs w1 out = Some i)"
    "if file_flag (th_flag h)
     then tot' = wrap64 (tot + th_size h) \<and> tot' \<le> max_archive_bytes else tot' = tot"
proof -
  have sup_ne: "out \<notin> {out @ ''.supervisor''}" by simp
  from assms obtain clean where clean: "\<not> 200 < Suc files" "safe_tar_name (th_name h) = Inr clean"
    by (auto split: if_splits sum.splits)
  note run = assms [simplified extract_loop.simps clean sum.case if_False]
  show ?thesis
  proof (cases "th_flag h = CHR ''5''")
    case True
    then show ?thesis using run clean(1)
      by (intro that [of tot found spath w]) (auto simp: is_main_entry_def file_flag_def)
  next
    case False
    then have flag: "file_flag (th_flag h)" and size: "\<not> max_archive_bytes < wrap64 (tot + th_size h)"
      using run by (auto split: if_splits)
    note run = run [simplified False flag size if_False not_True_eq_False]
    consider "clean = release_binary_path" | "clean \<noteq> release_binary_path" "clean = release_supervisor_path"
      | "clean \<noteq> release_binary_path" "clean \<noteq> release_supervisor_path" by blast
    then show ?thesis
    proof cases
      case 1
      then obtain w1 where "write_extracted_binary h out w = (Inr (), w1)"
        "extract_loop out (Suc files) (wrap64 (tot + th_size h)) True spath rest w1 = (Inr s, w')"
        using run by (auto simp: run_Inr)
      then show ?thesis
        using clean flag size 1 write_extracted_Inr [of h out w "()" w1]
        by (intro that [of "wrap64 (tot + th_size h)" True spath w1]) (auto simp: is_main_entry_def)
    next
      case 2
      then obtain w1 where w1: "write_extracted_binary h (out @ ''.supervisor'') w = (Inr (), w1)"
        "extract_loop out (Suc files) (wrap64 (tot + th_size h)) found (out @ ''.supervisor'') rest w1 = (Inr s, w')"
        using run by (auto simp: run_Inr release_binary_path_def release_supervisor_path_def)
      have "pres {out @ ''.supervisor''} w w1"
        by (rule keepsD [OF keeps_write_extracted w1(1)]) simp
      then show ?thesis
        using clean flag size 2 w1(2) pres_lookup [OF _ sup_ne]
        by (intro that [of "wrap64 (tot + th_size h)" found "out @ ''.supervisor''" w1])
           (auto simp: is_main_entry_def)
    next
      case 3
      then show ?thesis using run clean flag size
        by (intro that [of "wrap64 (tot + th_size h)" found spath w]) (auto simp: is_main_entry_def)
    qed
  qed
qed

definition declared_bytes :: "tar_header list \<Rightarrow> int" where
  "declared_bytes hs = sum_list (map th_size (filter (\<lambda>h. file_flag (th_flag h)) hs))"

lemma extract_loop_Inr:
  assumes "extract_loop out files tot found spath es w = (Inr s, w')"
  shows "\<exists>hs. es = map Inr hs \<and> (hs = [] \<or> files + length hs \<le> 200) \<and>
    (if filter is_main_entry hs = [] then found \<and> (\<forall>i. os_fs w out = Some i \<longrightarrow> os_fs w' out = Some i)
     else \<exists>i. os_fs w' out = Some i \<and> fi_data i = th_data (last (filter is_main_entry hs)) \<and> fi_mode i = 493)"
  using assms
proof (induction es arbitrary: files tot found spath w)
  case Nil
  then show ?case by (auto simp: ret_Inr split: if_splits)
next
  case (Cons e rest)
  then obtain h where h: "e = Inr h" by (cases e) auto
  from Cons.prems [unfolded h] obtain w1 tot' found' spath' where st: "files < 200"
    "extract_loop out (Suc files) tot' found' spath' rest w1 = (Inr s, w')"
    "if is_main_entry h
     then found' \<and> (\<exists>i. os_fs w1 out = Some i \<and> fi_data i = th_data h \<and> fi_mode i = 493)
     else found' = found \<and> (\<forall>i. os_fs w out = Some i \<longrightarrow> os_fs w1 out = Some i)"
    by (rule extract_step)
  from Cons.IH [OF st(2)] obtain hs where hs: "rest = map Inr hs" "hs = [] \<or> Suc files + length hs \<le> 200"
    "if filter is_main_entry hs = [] then found' \<and> (\<forall>i. os_fs w1 out = Some i \<longrightarrow> os_fs w' out = Some i)
     else \<exists>i. os_fs w' out = Some i \<and> fi_data i = th_data (last (filter is_main_entry hs)) \<and> fi_mode i = 493"
    by blast
  show ?case
    using h hs st(1,3) by (intro exI [of _ "h # hs"]) (auto split: if_splits)
qed

lemma extract_loop_bytes:
  assumes "extract_loop out files tot found spath (map Inr hs) w = (Inr s, w')"
    and "\<forall>h \<in> set hs. 0 \<le> th_size h \<and> th_size h \<le> 2 ^ 62" and "0 \<le> tot" and "tot \<le> max_archive_bytes"
  shows "tot + declared_bytes hs \<le> max_archive_bytes"
  using assms
proof (induction hs arbitrary: files tot found spath w)
  case Nil
  then show ?case by (simp add: declared_bytes_def)
next
  case (Cons h hs)
  from Cons.prems(1) [unfolded list.map(2)] obtain w1 tot' found' spath' where st:
    "extract_loop out (Suc files) tot' found' spath' (map Inr hs) w1 = (Inr s, w')"
    "if file_flag (th_flag h) then tot' = wrap64 (tot + th_size h) \<and> tot' \<le> max_archive_bytes else tot' = tot"
    by (rule extract_step)
  have "wrap64 (tot + th_size h) = tot + th_size h"
    using Cons.prems(2-4) by (intro wrap64_id) (auto simp: max_int64_def min_int64_def max_archive_bytes_def)
  then have "0 \<le> tot'" "tot' \<le> max_archive_bytes" "tot' = tot + (if file_flag (th_flag h) then th_size h else 0)"
    using st(2) Cons.prems by (auto split: if_splits)
  then show ?case
    using Cons.IH [OF st(1)] Cons.prems(2) by (auto simp: declared_bytes_def split: if_splits)
qed

lemma extract_binaries_Inr:
  assumes "extract_binaries decode archive out w = (Inr (m, s), w')"
  shows "m = out \<and> pres {out, out @ ''.supervisor''} w w' \<and>
    (\<exists>a hs i. os_fs w archive = Some a \<and> decode (fi_data a) = Inr (map Inr hs) \<and> length hs \<le> 200 \<and>
       filter is_main_entry hs \<noteq> [] \<and> os_fs w' out = Some i \<and>
       fi_data i = th_data (last (filter is_main_entry hs)) \<and> fi_mode i = 493 \<and>
       ((\<forall>h \<in> set hs. 0 \<le> th_size h \<and> th_size h \<le> 2 ^ 62) \<longrightarrow> declared_bytes hs \<le> max_archive_bytes))"
proof -
  from assms obtain content w1 where st: "os_read_file archive w = (Inr content, w1)"
    and rest: "(case decode content of Inl e \<Rightarrow> throw e
      | Inr es \<Rightarrow> bindE (extract_loop out 0 0 False [] es) (\<lambda>spath. ret (out, spath))) w1 = (Inr (m, s), w')"
    unfolding extract_binaries_def bindE_Inr by blast
  obtain es where dec: "decode content = Inr es" using rest by (cases "decode content") simp_all
  with rest have es: "decode content = Inr es" "extract_loop out 0 0 False [] es w1 = (Inr s, w')" "m = out"
    by (auto simp only: sum.case bindE_Inr ret_Inr prod.inject)
  from extract_loop_Inr [OF es(2)] obtain hs i where hs: "es = map Inr hs" "length hs \<le> 200"
    "filter is_main_entry hs \<noteq> []" "os_fs w' out = Some i" "fi_data i = th_data (last (filter is_main_entry hs))" "fi_mode i = 493"
    by (auto split: if_splits)
  have "keeps (pres {out, out @ ''.supervisor''}) (extract_loop out 0 0 False [] es :: ('a, string) os_prog)"
    by (rule keeps_extract_loop) auto
  then have "pres {out, out @ ''.supervisor''} w1 w'" using es(2) by (rule keepsD)
  moreover have "pres {out, out @ ''.supervisor''} w w1" by (rule keepsD [OF keeps_read_file st])
  ultimately have "pres {out, out @ ''.supervisor''} w w'" by (blast intro: pres_trans)
  moreover have "(\<forall>h \<in> set hs. 0 \<le> th_size h \<and> th_size h \<le> 2 ^ 62) \<longrightarrow> declared_bytes hs \<le> max_archive_bytes"
    using extract_loop_bytes [OF es(2) [unfolded hs(1)]] by (auto simp: max_archive_bytes_def)
  ultimately show ?thesis
    using es hs st by (auto simp: read_file_Inr)
qed

text \<open>
  C4: Unpacking a release.  A successful extraction saw at most 200 entries, none an error,
  whose declared file sizes add up to at most 512 MiB (for sizes up to 2^62 each); the output
  is exactly the content of the archive's last main-binary entry with mode 0755; and no other
  existing file than the two outputs was touched at any point.
\<close>
theorem extract_binaries_sound:
  assumes "extract_binaries decode archive out w = (Inr (m, s), w')"
  shows "m = out \<and> pres {out, out @ ''.supervisor''} w w' \<and>
    (\<exists>a hs i. os_fs w archive = Some a \<and> decode (fi_data a) = Inr (map Inr hs) \<and> length hs \<le> 200 \<and>
       filter is_main_entry hs \<noteq> [] \<and> os_fs w' out = Some i \<and>
       fi_data i = th_data (last (filter is_main_entry hs)) \<and> fi_mode i = 493 \<and>
       ((\<forall>h \<in> set hs. 0 \<le> th_size h \<and> th_size h \<le> 2 ^ 62) \<longrightarrow> declared_bytes hs \<le> max_archive_bytes))"
  using assms by (rule extract_binaries_Inr)

text \<open>The counter of declared bytes wraps around: a huge second entry passes the limit.\<close>

lemma archive_limit_wraps:
  "\<not> max_archive_bytes < wrap64 (1 + max_int64)"
  by (simp add: max_archive_bytes_def wrap64_def max_int64_def)

definition sample_tar :: tar_stream where
  "sample_tar = [Inr \<lparr>th_name = ''phantom-lancer/bin/phantom-lancer'', th_flag = CHR ''0'', th_size = 3,
                      th_data = ''bin'', th_broken = False\<rparr>]"

lemma sample_tar_run:
  "\<exists>w'. extract_binaries (\<lambda>_. Inr sample_tar) ''/d/new'' ''/d/out'' sample_svc = (Inr (''/d/out'', []), w')"
proof -
  have "safe_tar_name ''phantom-lancer/bin/phantom-lancer'' = Inr release_binary_path" by code_simp
  then have "\<exists>w'. extract_loop ''/d/out'' 0 0 False [] sample_tar w = (Inr [], w')"
    if "\<forall>n. \<not> os_fault w n" "os_fs w ''/d'' = None" "os_fs w ''/d/out'' = None" for w :: "'a os_scheme"
    using that
    by (simp add: sample_tar_def file_flag_def max_archive_bytes_def wrap64_def seqE_Inr bindE_Inr ret_Inr
        write_extracted_binary_def os_mkdir_all_def os_open_trunc_def os_write_def os_chmod_def os_sync_def
        syscall_Inr path_dir_raw_def upto_last_slash_def slash_def Let_def)
  from this [of "sample_svc\<lparr>os_calls := Suc 0, os_hist := [os_fs sample_svc]\<rparr>"] show ?thesis
    by (simp add: extract_binaries_def bindE_Inr read_file_Inr ret_Inr)
       (simp add: sample_svc_def sample_file_def)
qed

theorem extract_binaries_sound_witness:
  "\<exists>w' i. os_fs w' ''/d/out'' = Some i \<and> fi_mode i = 493 \<and> pres {''/d/out'', ''/d/out.supervisor''} sample_svc w'"
proof -
  obtain w' where "extract_binaries (\<lambda>_. Inr sample_tar) ''/d/new'' ''/d/out'' sample_svc = (Inr (''/d/out'', []), w')"
    using sample_tar_run by blast
  from extract_binaries_sound [OF this] show ?thesis by auto
qed

end
