(* ===== verification/GoJson.thy ===== *)
theory GoJson
  imports GoStd
begin

text \<open>
  \<^verbatim>\<open>encoding/json\<close> as the components use it: values, the printers behind \<^verbatim>\<open>Marshal\<close> and
  \<^verbatim>\<open>MarshalIndent\<close>, the parser behind \<^verbatim>\<open>Unmarshal\<close>, and the proof that parsing undoes printing.
  Numbers keep their literal text.  String bytes outside the escapes are passed through, so
  texts are taken to be valid UTF-8.
\<close>

datatype json =
    JNull
  | JBool bool
  | JNum string
  | JStr string
  | JArr "json list"
  | JObj "(string \<times> json) list"

section \<open>Printing\<close>

definition quote_char :: char where
  "quote_char = CHR 0x22"

definition backslash :: char where
  "backslash = CHR 0x5C"

definition hex_digit :: "nat \<Rightarrow> char" where
  "hex_digit d = (if d < 10 then char_of (48 + d) else char_of (87 + d))"

definition escape_code :: "nat \<Rightarrow> string" where
  "escape_code n = [backslash, CHR ''u'', hex_digit (n div 4096), hex_digit (n div 256 mod 16),
     hex_digit (n div 16 mod 16), hex_digit (n mod 16)]"

text \<open>The HTML-safe escaping of \<^verbatim>\<open>Marshal\<close>, rune by rune.\<close>

definition escape_ascii :: "char \<Rightarrow> string" where
  "escape_ascii c =
     (let n = of_char c :: nat in
      if c = quote_char \<or> c = backslash then [backslash, c]
      else if n = 8 then [backslash, CHR ''b'']
      else if n = 12 then [backslash, CHR ''f'']
      else if n = 10 then [backslash, CHR ''n'']
      else if n = 13 then [backslash, CHR ''r'']
      else if n = 9 then [backslash, CHR ''t'']
      else if n < 32 \<or> c = CHR ''<'' \<or> c = CHR ''>'' \<or> c = CHR ''&'' then escape_code n
      else [c])"

definition escape_rune :: "string \<Rightarrow> string" where
  "escape_rune r =
     (if length r = 1 then (if ascii (hd r) then escape_ascii (hd r) else escape_code 65533)
      else if r = [CHR 0xE2, CHR 0x80, CHR 0xA8] then escape_code 8232
      else if r = [CHR 0xE2, CHR 0x80, CHR 0xA9] then escape_code 8233
      else r)"

definition quote_string :: "string \<Rightarrow> string" where
  "quote_string s = quote_char # concat (map escape_rune (runes s)) @ [quote_char]"

text \<open>
  One printer for both layouts: \<open>ind\<close> chooses the indented one (two blanks per level, a blank
  after the colon, nothing inside empty brackets).
\<close>

definition newline_at :: "bool \<Rightarrow> nat \<Rightarrow> string" where
  "newline_at ind k = (if ind then CHR 0x0A # replicate (2 * k) CHR 0x20 else [])"

fun json_text :: "bool \<Rightarrow> nat \<Rightarrow> json \<Rightarrow> string"
  and json_elems :: "bool \<Rightarrow> nat \<Rightarrow> json list \<Rightarrow> string"
  and json_members :: "bool \<Rightarrow> nat \<Rightarrow> (string \<times> json) list \<Rightarrow> string" where
  "json_text ind k JNull = ''null''"
| "json_text ind k (JBool b) = (if b then ''true'' else ''false'')"
| "json_text ind k (JNum s) = s"
| "json_text ind k (JStr s) = quote_string s"
| "json_text ind k (JArr vs) =
     (if vs = [] then ''[]'' else ''['' @ json_elems ind (Suc k) vs @ newline_at ind k @ '']'')"
| "json_text ind k (JObj ms) =
     (if ms = [] then ''{}'' else ''{'' @ json_members ind (Suc k) ms @ newline_at ind k @ ''}'')"
| "json_elems ind k [] = []"
| "json_elems ind k (v # vs) =
     newline_at ind k @ json_text ind k v @ (if vs = [] then [] else '','' @ json_elems ind k vs)"
| "json_members ind k [] = []"
| "json_members ind k ((n, v) # ms) =
     newline_at ind k @ quote_string n @ (if ind then '': '' else '':'') @ json_text ind k v @
     (if ms = [] then [] else '','' @ json_members ind k ms)"

definition marshal :: "json \<Rightarrow> string" where
  "marshal v = json_text False 0 v"

definition marshal_indent :: "json \<Rightarrow> string" where
  "marshal_indent v = json_text True 0 v"

section \<open>Parsing\<close>

definition json_space :: "char \<Rightarrow> bool" where
  "json_space c = (c = CHR 0x20 \<or> c = CHR 0x0A \<or> c = CHR 0x0D \<or> c = CHR 0x09)"

definition skip_ws :: "string \<Rightarrow> string" where
  "skip_ws s = dropWhile json_space s"

definition hex_val :: "char \<Rightarrow> nat option" where
  "hex_val c =
     (let n = of_char c :: nat in
      if 48 \<le> n \<and> n \<le> 57 then Some (n - 48)
      else if 97 \<le> n \<and> n \<le> 102 then Some (n - 87)
      else if 65 \<le> n \<and> n \<le> 70 then Some (n - 55) else None)"

fun hex4 :: "string \<Rightarrow> (nat \<times> string) option" where
  "hex4 (a # b # c # d # s) =
     Option.bind (hex_val a) (\<lambda>x. Option.bind (hex_val b) (\<lambda>y. Option.bind (hex_val c) (\<lambda>z.
     map_option (\<lambda>v. (4096 * x + 256 * y + 16 * z + v, s)) (hex_val d))))"
| "hex4 _ = None"

definition utf8 :: "nat \<Rightarrow> string" where
  "utf8 n =
     (if n < 128 then [char_of n]
      else if n < 2048 then [char_of (192 + n div 64), char_of (128 + n mod 64)]
      else if n < 65536 then [char_of (224 + n div 4096), char_of (128 + n div 64 mod 64), char_of (128 + n mod 64)]
      else [char_of (240 + n div 262144), char_of (128 + n div 4096 mod 64),
            char_of (128 + n div 64 mod 64), char_of (128 + n mod 64)])"

definition simple_escape :: "char \<Rightarrow> char option" where
  "simple_escape e =
     (if e = quote_char \<or> e = backslash \<or> e = CHR ''/'' then Some e
      else if e = CHR ''b'' then Some CHR 0x08
      else if e = CHR ''f'' then Some CHR 0x0C
      else if e = CHR ''n'' then Some CHR 0x0A
      else if e = CHR ''r'' then Some CHR 0x0D
      else if e = CHR ''t'' then Some CHR 0x09 else None)"

text \<open>
  One \<^verbatim>\<open>\u\<close> escape, its four digits already read: a surrogate pair is one rune, a lone surrogate
  is U+FFFD.
\<close>

definition unicode_escape :: "nat \<Rightarrow> string \<Rightarrow> string \<times> string" where
  "unicode_escape n s =
     (if 55296 \<le> n \<and> n < 57344 then
        (if n < 56320 \<and> take 2 s = [backslash, CHR ''u''] then
           (case hex4 (drop 2 s) of
              Some (m, s') \<Rightarrow>
                if 56320 \<le> m \<and> m < 57344 then (utf8 (65536 + 1024 * (n - 55296) + (m - 56320)), s')
                else (utf8 65533, s)
            | None \<Rightarrow> (utf8 65533, s))
         else (utf8 65533, s))
      else (utf8 n, s))"

lemma hex4_length: "hex4 s = Some (n, t) \<Longrightarrow> length t < length s"
  by (induction s rule: hex4.induct) (auto simp: bind_eq_Some_conv)

lemma unicode_escape_length: "length (snd (unicode_escape n s)) \<le> length s"
  by (auto simp: unicode_escape_def split: option.split dest!: hex4_length)

function parse_str :: "string \<Rightarrow> (string \<times> string) option" where
  "parse_str [] = None"
| "parse_str (c # t) =
     (if c = quote_char then Some ([], t)
      else if c = backslash then
        (case t of
           [] \<Rightarrow> None
         | e # u \<Rightarrow>
             if e = CHR ''u'' then
               (case hex4 u of
                  None \<Rightarrow> None
                | Some (n, u1) \<Rightarrow>
                    map_option (\<lambda>(r, rest). (fst (unicode_escape n u1) @ r, rest))
                      (parse_str (snd (unicode_escape n u1))))
             else (case simple_escape e of
                     None \<Rightarrow> None
                   | Some d \<Rightarrow> map_option (\<lambda>(r, rest). (d # r, rest)) (parse_str u)))
      else if of_char c < (32 :: nat) then None
      else map_option (\<lambda>(r, rest). (c # r, rest)) (parse_str t))"
  by pat_completeness auto

termination parse_str
proof (relation "measure length", goal_cases)
  case (2 c t e u x n u1)
  then show ?case using unicode_escape_length [of n u1] hex4_length [of u n u1] by auto
qed auto

definition number_char :: "char \<Rightarrow> bool" where
  "number_char c = (c \<in> set ''0123456789+-.eE'')"

definition digit :: "char \<Rightarrow> bool" where
  "digit c = (digit_val c \<noteq> None)"

text \<open>The number grammar: sign, integer part without leading zeros, fraction, exponent.\<close>

definition valid_exp :: "string \<Rightarrow> bool" where
  "valid_exp s =
     (case s of [] \<Rightarrow> True
      | c # t \<Rightarrow> (c = CHR ''e'' \<or> c = CHR ''E'') \<and>
          (let u = (case t of d # t' \<Rightarrow> if d = CHR ''+'' \<or> d = CHR ''-'' then t' else t | [] \<Rightarrow> [])
           in u \<noteq> [] \<and> list_all digit u))"

definition valid_frac :: "string \<Rightarrow> bool" where
  "valid_frac s =
     (case s of
        c # t \<Rightarrow> if c = CHR ''.'' then takeWhile digit t \<noteq> [] \<and> valid_exp (dropWhile digit t) else valid_exp s
      | [] \<Rightarrow> True)"

definition valid_number :: "string \<Rightarrow> bool" where
  "valid_number s =
     (let t = (case s of c # s' \<Rightarrow> if c = CHR ''-'' then s' else s | [] \<Rightarrow> []);
          ds = takeWhile digit t
      in ds \<noteq> [] \<and> (hd ds = CHR ''0'' \<longrightarrow> length ds = 1) \<and> valid_frac (dropWhile digit t))"

fun parse_value :: "nat \<Rightarrow> string \<Rightarrow> (json \<times> string) option"
  and parse_elems :: "nat \<Rightarrow> string \<Rightarrow> (json list \<times> string) option"
  and parse_members :: "nat \<Rightarrow> string \<Rightarrow> ((string \<times> json) list \<times> string) option" where
  "parse_value 0 s = None"
| "parse_value (Suc n) s =
     (case skip_ws s of
        [] \<Rightarrow> None
      | c # t \<Rightarrow>
          if c = CHR ''{'' then
            (if take 1 (skip_ws t) = ''}'' then Some (JObj [], drop 1 (skip_ws t))
             else map_option (\<lambda>(ms, rest). (JObj ms, rest)) (parse_members n t))
          else if c = CHR ''['' then
            (if take 1 (skip_ws t) = '']'' then Some (JArr [], drop 1 (skip_ws t))
             else map_option (\<lambda>(vs, rest). (JArr vs, rest)) (parse_elems n t))
          else if c = quote_char then map_option (\<lambda>(r, rest). (JStr r, rest)) (parse_str t)
          else if has_prefix (c # t) ''null'' then Some (JNull, drop 4 (c # t))
          else if has_prefix (c # t) ''true'' then Some (JBool True, drop 4 (c # t))
          else if has_prefix (c # t) ''false'' then Some (JBool False, drop 5 (c # t))
          else (let lit = takeWhile number_char (c # t) in
                if valid_number lit then Some (JNum lit, dropWhile number_char (c # t)) else None))"
| "parse_elems 0 s = None"
| "parse_elems (Suc n) s =
     Option.bind (parse_value n s) (\<lambda>(v, s1).
       case skip_ws s1 of
         c # s2 \<Rightarrow> if c = CHR '']'' then Some ([v], s2)
                  else if c = CHR '','' then map_option (\<lambda>(vs, rest). (v # vs, rest)) (parse_elems n s2)
                  else None
       | [] \<Rightarrow> None)"
| "parse_members 0 s = None"
| "parse_members (Suc n) s =
     (case skip_ws s of
        q # s0 \<Rightarrow>
          if q \<noteq> quote_char then None
          else Option.bind (parse_str s0) (\<lambda>(k, s1).
            case skip_ws s1 of
              c # s2 \<Rightarrow>
                if c \<noteq> CHR '':'' then None
                else Option.bind (parse_value n s2) (\<lambda>(v, s3).
                  case skip_ws s3 of
                    d # s4 \<Rightarrow> if d = CHR ''}'' then Some ([(k, v)], s4)
                             else if d = CHR '','' then map_option (\<lambda>(ms, rest). ((k, v) # ms, rest)) (parse_members n s4)
                             else None
                  | [] \<Rightarrow> None)
            | [] \<Rightarrow> None)
      | [] \<Rightarrow> None)"

text \<open>
  The whole text is one value with white space around it.  The recursion uses up one unit of
  fuel per call and at least one character per two calls, so this fuel is never short.
\<close>

definition unmarshal :: "string \<Rightarrow> json option" where
  "unmarshal s =
     Option.bind (parse_value (2 * length s + 2) s) (\<lambda>(v, rest).
       if skip_ws rest = [] then Some v else None)"

text \<open>
  \<^verbatim>\<open>encoding/json\<close> matches a key exactly, else up to case folding; besides the ASCII letters only
  U+017F (folds to s) and U+212A (folds to k) can make a key equal to an ASCII field name.
\<close>

definition fold_rune :: "string \<Rightarrow> string" where
  "fold_rune r = (if r = [CHR 0xC5, CHR 0xBF] then ''s''
     else if r = [CHR 0xE2, CHR 0x84, CHR 0xAA] then ''k'' else map lower_char r)"

definition fold_name :: "string \<Rightarrow> string" where
  "fold_name s = concat (map fold_rune (runes s))"

section \<open>Parsing undoes printing\<close>

lemma hex_val_digit: "d < 16 \<Longrightarrow> hex_val (hex_digit d) = Some d"
  by (simp add: hex_val_def hex_digit_def)

lemma hex4_code:
  assumes "n < 65536"
  shows "hex4 (drop 2 (escape_code n) @ t) = Some (n, t)"
proof -
  have d: "n div 4096 < 16" using assms by simp
  have "n = 4096 * (n div 4096) + n mod 4096" by simp
  moreover have "n mod 4096 = 256 * (n div 256 mod 16) + n mod 256"
    using mod_mult2_eq [of n 256 16] by simp
  moreover have "n mod 256 = 16 * (n div 16 mod 16) + n mod 16"
    using mod_mult2_eq [of n 16 16] by simp
  ultimately have "4096 * (n div 4096) + 256 * (n div 256 mod 16) + 16 * (n div 16 mod 16) + n mod 16 = n"
    by linarith
  then show ?thesis by (simp add: escape_code_def hex_val_digit d)
qed

lemma parse_str_quote [simp]: "parse_str (quote_char # rest) = Some ([], rest)"
  by simp

lemma ascii_code: "ascii c \<Longrightarrow> (of_char c :: nat) < 128"
  by (simp add: ascii_def)

lemma parse_str_escape:
  assumes "ascii c"
  shows "parse_str (escape_ascii c @ t) = map_option (\<lambda>(r, rest). (c # r, rest)) (parse_str t)"
proof -
  let ?n = "of_char c :: nat"
  have simple: "parse_str (backslash # e # t) = map_option (\<lambda>(r, rest). (d # r, rest)) (parse_str t)"
    if "simple_escape e = Some d" "e \<noteq> CHR ''u''" for e d
    using that by (simp add: backslash_def quote_char_def)
  have code: "parse_str (escape_code ?n @ t) = map_option (\<lambda>(r, rest). (c # r, rest)) (parse_str t)"
  proof -
    have h: "hex4 (drop 2 (escape_code ?n) @ t) = Some (?n, t)"
      using ascii_code [OF assms] by (intro hex4_code) simp
    have "unicode_escape ?n t = ([c], t)"
      using ascii_code [OF assms] by (simp add: unicode_escape_def utf8_def)
    then show ?thesis
      using h by (simp add: escape_code_def backslash_def quote_char_def)
  qed
  have by_code: "c = d" if "?n = of_char d" for d
    using that by simp
  consider (q) "c = quote_char \<or> c = backslash" | (b) "?n = 8" | (f) "?n = 12" | (n) "?n = 10" | (r) "?n = 13"
    | (t) "?n = 9"
    | (other) "c \<noteq> quote_char" "c \<noteq> backslash" "?n \<noteq> 8" "?n \<noteq> 12" "?n \<noteq> 10" "?n \<noteq> 13" "?n \<noteq> 9"
    by blast
  then show ?thesis
  proof cases
    case q
    then have "escape_ascii c = [backslash, c]" by (simp add: escape_ascii_def)
    moreover have "simple_escape c = Some c" "c \<noteq> CHR ''u''"
      using q by (auto simp: simple_escape_def quote_char_def backslash_def)
    ultimately show ?thesis using simple by simp
  next
    case b
    then have "c = CHR 0x08" by (intro by_code) simp
    then show ?thesis
      using simple [of "CHR ''b''" "CHR 0x08"]
      by (simp add: escape_ascii_def quote_char_def backslash_def simple_escape_def)
  next
    case f
    then have "c = CHR 0x0C" by (intro by_code) simp
    then show ?thesis
      using simple [of "CHR ''f''" "CHR 0x0C"]
      by (simp add: escape_ascii_def quote_char_def backslash_def simple_escape_def)
  next
    case n
    then have "c = CHR 0x0A" by (intro by_code) simp
    then show ?thesis
      using simple [of "CHR ''n''" "CHR 0x0A"]
      by (simp add: escape_ascii_def quote_char_def backslash_def simple_escape_def)
  next
    case r
    then have "c = CHR 0x0D" by (intro by_code) simp
    then show ?thesis
      using simple [of "CHR ''r''" "CHR 0x0D"]
      by (simp add: escape_ascii_def quote_char_def backslash_def simple_escape_def)
  next
    case t
    then have "c = CHR 0x09" by (intro by_code) simp
    then show ?thesis
      using simple [of "CHR ''t''" "CHR 0x09"]
      by (simp add: escape_ascii_def quote_char_def backslash_def simple_escape_def)
  next
    case other
    then have e: "escape_ascii c =
        (if ?n < 32 \<or> c = CHR ''<'' \<or> c = CHR ''>'' \<or> c = CHR ''&'' then escape_code ?n else [c])"
      by (simp add: escape_ascii_def)
    show ?thesis
    proof (cases "?n < 32 \<or> c = CHR ''<'' \<or> c = CHR ''>'' \<or> c = CHR ''&''")
      case True
      then show ?thesis using e code by simp
    next
      case False
      then show ?thesis using e other by simp
    qed
  qed
qed

declare parse_str.simps [simp del]

lemma quote_string_ascii:
  "list_all ascii s \<Longrightarrow> quote_string s = quote_char # concat (map escape_ascii s) @ [quote_char]"
proof -
  assume a: "list_all ascii s"
  have "concat (map (\<lambda>c. escape_rune [c]) s) = concat (map escape_ascii s)"
    using a by (induction s) (auto simp: escape_rune_def)
  then show ?thesis by (simp add: quote_string_def runes_ascii [OF a] comp_def)
qed

lemma parse_str_quoted:
  "list_all ascii s \<Longrightarrow> parse_str (concat (map escape_ascii s) @ quote_char # rest) = Some (s, rest)"
proof (induction s)
  case Nil
  show ?case by (simp add: parse_str.simps)
next
  case (Cons c s)
  then show ?case by (simp add: parse_str_escape)
qed

fun wf_json :: "json \<Rightarrow> bool" where
  "wf_json JNull = True"
| "wf_json (JBool b) = True"
| "wf_json (JNum s) = (valid_number s \<and> list_all number_char s)"
| "wf_json (JStr s) = list_all ascii s"
| "wf_json (JArr vs) = list_all wf_json vs"
| "wf_json (JObj ms) = list_all (\<lambda>(n, v). list_all ascii n \<and> wf_json v) ms"

text \<open>The fuel a printed value needs.\<close>

fun cost :: "json \<Rightarrow> nat" where
  "cost (JArr vs) = Suc (sum_list (map (\<lambda>v. Suc (cost v)) vs))"
| "cost (JObj ms) = Suc (sum_list (map (\<lambda>(n, v). Suc (cost v)) ms))"
| "cost _ = 1"

definition stops :: "string \<Rightarrow> bool" where
  "stops s \<longleftrightarrow> s = [] \<or> \<not> number_char (hd s)"

lemma skip_ws_newline [simp]: "skip_ws (newline_at ind k @ s) = skip_ws s"
proof -
  have "dropWhile json_space (replicate j CHR 0x20 @ s) = dropWhile json_space s" for j
    by (induction j) (simp_all add: json_space_def)
  then show ?thesis by (simp add: skip_ws_def newline_at_def json_space_def)
qed

lemma parse_value_newline [simp]: "parse_value n (newline_at ind k @ s) = parse_value n s"
  by (cases n) simp_all

lemma stops_newline: "\<not> number_char c \<Longrightarrow> stops (newline_at ind k @ c # s)"
  by (auto simp: stops_def newline_at_def number_char_def)

lemma valid_number_first:
  assumes "valid_number s"
  shows "\<exists>c t. s = c # t \<and> (c = CHR ''-'' \<or> digit c)"
proof (cases s)
  case Nil
  then show ?thesis using assms by (simp add: valid_number_def)
next
  case (Cons c t)
  then show ?thesis
    using assms by (cases "c = CHR ''-''") (auto simp: valid_number_def Let_def split: if_splits)
qed

lemma parse_number:
  assumes "valid_number s" and "list_all number_char s" and "stops rest"
  shows "parse_value (Suc n) (s @ rest) = Some (JNum s, rest)"
proof -
  obtain c t where s: "s = c # t" "c = CHR ''-'' \<or> digit c" using valid_number_first [OF assms(1)] by blast
  have "takeWhile number_char (s @ rest) = s" "dropWhile number_char (s @ rest) = rest"
    using assms(2,3) by (auto simp: stops_def list_all_iff takeWhile_append2 dropWhile_append2 takeWhile_eq_Nil_iff
        dropWhile_eq_self_iff)
  moreover have "skip_ws (s @ rest) = s @ rest" "c \<notin> set ''{[ntf''" "c \<noteq> quote_char"
    using s by (auto simp: skip_ws_def json_space_def quote_char_def digit_def digit_val_def Let_def)
  ultimately show ?thesis using assms(1) s(1) by (simp add: has_prefix_def)
qed

lemma skip_ws_char: "\<not> json_space c \<Longrightarrow> skip_ws (c # s) = c # s"
  by (simp add: skip_ws_def)

lemma spaces [simp]:
  "\<not> json_space CHR ''['' \<and> \<not> json_space CHR '']'' \<and> \<not> json_space CHR ''{'' \<and> \<not> json_space CHR ''}'' \<and>
   \<not> json_space CHR '','' \<and> \<not> json_space CHR '':'' \<and> \<not> json_space quote_char \<and>
   \<not> json_space CHR ''n'' \<and> \<not> json_space CHR ''t'' \<and> \<not> json_space CHR ''f''"
  by (simp add: json_space_def quote_char_def)

text \<open>The first character of a printed value is never a closing bracket or white space.\<close>

lemma json_text_first:
  assumes "wf_json v"
  shows "\<exists>c t. json_text ind k v = c # t \<and> \<not> json_space c \<and> c \<noteq> CHR '']'' \<and> c \<noteq> CHR ''}''"
proof (cases v)
  case (JNum s)
  then obtain c t where "s = c # t" "c = CHR ''-'' \<or> digit c"
    using assms valid_number_first [of s] by auto
  then show ?thesis
    using JNum by (auto simp: json_space_def digit_def digit_val_def Let_def)
qed (auto simp: json_space_def quote_string_def quote_char_def)

lemma elems_first:
  assumes "vs \<noteq> []" and "list_all wf_json vs"
  shows "take 1 (skip_ws (json_elems ind k vs @ rest)) \<noteq> '']''"
proof -
  obtain v vs' where vs: "vs = v # vs'" using assms(1) by (cases vs) auto
  with assms(2) obtain c t where "json_text ind k v = c # t" "\<not> json_space c" "c \<noteq> CHR '']''"
    using json_text_first [of v ind k] by auto
  then show ?thesis using vs by (simp add: skip_ws_char)
qed

lemma members_first:
  "ms \<noteq> [] \<Longrightarrow> take 1 (skip_ws (json_members ind k ms @ rest)) \<noteq> ''}''"
  by (cases ms) (auto simp: quote_string_def skip_ws_char quote_char_def json_space_def)

lemma parse_quoted_value:
  "list_all ascii s \<Longrightarrow> parse_value (Suc n) (quote_string s @ rest) = Some (JStr s, rest)"
  by (simp add: quote_string_ascii skip_ws_char parse_str_quoted) (simp add: quote_char_def)

lemma parse_print:
  shows "\<lbrakk>wf_json v; stops rest; cost v \<le> n\<rbrakk> \<Longrightarrow> parse_value n (json_text ind k v @ rest) = Some (v, rest)"
    and "\<lbrakk>list_all wf_json vs; vs \<noteq> []; sum_list (map (\<lambda>v. Suc (cost v)) vs) \<le> n\<rbrakk> \<Longrightarrow>
      parse_elems n (json_elems ind k vs @ newline_at ind j @ CHR '']'' # rest) = Some (vs, rest)"
    and "\<lbrakk>list_all (\<lambda>(n, v). list_all ascii n \<and> wf_json v) ms; ms \<noteq> [];
        sum_list (map (\<lambda>(n, v). Suc (cost v)) ms) \<le> n\<rbrakk> \<Longrightarrow>
      parse_members n (json_members ind k ms @ newline_at ind j @ CHR ''}'' # rest) = Some (ms, rest)"
proof (induction ind k v and ind k vs and ind k ms arbitrary: n rest and n j rest and n j rest
    rule: json_text_json_elems_json_members.induct)
  case (1 ind k)
  then show ?case by (cases n) (auto simp: skip_ws_char quote_char_def has_prefix_def)
next
  case (2 ind k b)
  then show ?case by (cases n) (auto simp: skip_ws_char quote_char_def has_prefix_def)
next
  case (3 ind k s)
  then show ?case by (cases n) (simp_all del: parse_value.simps add: parse_number)
next
  case (4 ind k s)
  then show ?case by (cases n) (simp_all del: parse_value.simps add: parse_quoted_value)
next
  case (5 ind k vs)
  then obtain m where n: "n = Suc m" "vs \<noteq> [] \<Longrightarrow> sum_list (map (\<lambda>v. Suc (cost v)) vs) \<le> m"
    by (cases n) auto
  show ?case
  proof (cases "vs = []")
    case True
    then show ?thesis using n by (simp add: skip_ws_char)
  next
    case False
    have "parse_elems m (json_elems ind (Suc k) vs @ newline_at ind k @ CHR '']'' # rest) = Some (vs, rest)"
      using 5 False n by simp
    then show ?thesis
      using False n elems_first [OF False, of ind "Suc k" "newline_at ind k @ CHR '']'' # rest"] 5(2)
      by (simp add: skip_ws_char)
  qed
next
  case (6 ind k ms)
  then obtain m where n: "n = Suc m" "ms \<noteq> [] \<Longrightarrow> sum_list (map (\<lambda>(n, v). Suc (cost v)) ms) \<le> m"
    by (cases n) auto
  show ?case
  proof (cases "ms = []")
    case True
    then show ?thesis using n by (simp add: skip_ws_char)
  next
    case False
    have "parse_members m (json_members ind (Suc k) ms @ newline_at ind k @ CHR ''}'' # rest) = Some (ms, rest)"
      using 6 False n by simp
    then show ?thesis
      using False n members_first [OF False, of ind "Suc k" "newline_at ind k @ CHR ''}'' # rest"]
      by (simp add: skip_ws_char)
  qed
next
  case (7 ind k)
  then show ?case by simp
next
  case (8 ind k v vs)
  then obtain m where n: "n = Suc m" "cost v \<le> m" "sum_list (map (\<lambda>v. Suc (cost v)) vs) \<le> m"
    by (cases n) auto
  show ?case
  proof (cases "vs = []")
    case True
    have "parse_value m (json_text ind k v @ newline_at ind j @ CHR '']'' # rest) =
        Some (v, newline_at ind j @ CHR '']'' # rest)"
      using 8 n by (intro 8(1)) (auto intro: stops_newline simp: number_char_def)
    then show ?thesis using True n by (simp add: skip_ws_char)
  next
    case False
    let ?tail = "json_elems ind k vs @ newline_at ind j @ CHR '']'' # rest"
    have "parse_value m (json_text ind k v @ CHR '','' # ?tail) = Some (v, CHR '','' # ?tail)"
      using 8 n by (intro 8(1)) (auto simp: stops_def number_char_def)
    moreover have "parse_elems m ?tail = Some (vs, rest)"
      using 8 n False by (intro 8(2)) auto
    ultimately show ?thesis using False n by (simp add: skip_ws_char)
  qed
next
  case (9 ind k)
  then show ?case by simp
next
  case (10 ind k key v ms)
  then obtain m where n: "n = Suc m" "cost v \<le> m" "sum_list (map (\<lambda>(n, v). Suc (cost v)) ms) \<le> m"
    by (cases n) auto
  have key: "list_all ascii key" using 10 by simp
  let ?colon = "if ind then '': '' else '':''"
  have sep: "parse_value m (drop 1 ?colon @ s) = parse_value m s" for s
    by (cases m) (simp_all add: skip_ws_def json_space_def)
  let ?close = "newline_at ind j @ CHR ''}'' # rest"
  let ?tail = "if ms = [] then ?close else CHR '','' # json_members ind k ms @ ?close"
  have v: "parse_value m (json_text ind k v @ ?tail) = Some (v, ?tail)"
  proof (rule 10(1))
    have "\<not> number_char CHR ''}''" "\<not> number_char CHR '',''" by (simp_all add: number_char_def)
    then show "stops ?tail" using stops_newline [of "CHR ''}''" ind j rest] by (simp add: stops_def)
  qed (use 10 n in auto)
  have ms: "parse_members m (json_members ind k ms @ ?close) = Some (ms, rest)" if "ms \<noteq> []"
    using 10 n that by (intro 10(2)) auto
  have "json_members ind k ((key, v) # ms) @ ?close =
      newline_at ind k @ quote_char # concat (map escape_ascii key) @ quote_char # CHR '':'' # drop 1 ?colon @ json_text ind k v @ ?tail"
    by (simp add: quote_string_ascii [OF key])
  then show ?case
    using n v ms sep [of "json_text ind k v @ ?tail"]
    by (simp add: skip_ws_char parse_str_quoted [OF key] del: json_members.simps split: if_splits)
qed

lemma cost_length:
  shows "wf_json v \<Longrightarrow> Suc (cost v) \<le> 2 * length (json_text ind k v)"
    and "list_all wf_json vs \<Longrightarrow> sum_list (map (\<lambda>v. Suc (cost v)) vs) \<le> 2 * length (json_elems ind k vs)"
    and "list_all (\<lambda>(n, v). list_all ascii n \<and> wf_json v) ms \<Longrightarrow>
      sum_list (map (\<lambda>(n, v). Suc (cost v)) ms) \<le> 2 * length (json_members ind k ms)"
proof (induction ind k v and ind k vs and ind k ms rule: json_text_json_elems_json_members.induct)
  case (3 ind k s)
  then show ?case using valid_number_first [of s] by auto
qed (auto simp: quote_string_def)

theorem unmarshal_json_text:
  assumes "wf_json v"
  shows "unmarshal (json_text ind 0 v) = Some v"
  using parse_print(1) [OF assms, of "[]" "2 * length (json_text ind 0 v) + 2" ind 0] cost_length(1) [OF assms, of ind 0]
  by (simp add: unmarshal_def stops_def skip_ws_def del: parse_value.simps)

end
