(* ===== verification/SelfUpdate.thy ===== *)
theory SelfUpdate
  imports ServiceFrames ReleaseCheck GoJson
begin

text \<open>
  \<^verbatim>\<open>internal/selfupdate/service.go\<close>, \<^verbatim>\<open>download.go\<close> and \<^verbatim>\<open>handoff.go\<close>: the life of an update job
  (apply, run, cancel, boot confirmation, rollback), the downloads and the hand-off file for the
  supervisor.  HTTP, the staged binary's \<^verbatim>\<open>--version\<close> run, the decoders and the redaction of log
  text are fields of the environment record.  The run's goroutine is the program \<open>run\<close>; its panic
  fence is \<open>fail_job\<close>.  Messages that are Chinese in the source are rendered in English.
\<close>

section \<open>Environment\<close>

record http_body =
  hb_status :: int
  hb_length :: int
  hb_chunks :: "string list"
  hb_end :: "goerr option"

text \<open>\<open>ev_http\<close> and \<open>ev_release\<close> answer by URL and call number; \<open>ev_run_version\<close> sees the disk.\<close>

record 'z update_env =
  ev_http :: "string \<Rightarrow> nat \<Rightarrow> goerr + http_body"
  ev_release :: "string \<Rightarrow> nat \<Rightarrow> goerr + http_release"
  ev_backup_db :: "string \<Rightarrow> ('z, unit) svc_prog"
  ev_sha :: "string \<Rightarrow> string"
  ev_decode :: "string \<Rightarrow> goerr + tar_stream"
  ev_run_version :: "string \<Rightarrow> fs \<Rightarrow> goerr option \<times> string"
  ev_lower :: "string \<Rightarrow> string"
  ev_url_ok :: "string \<Rightarrow> bool"
  ev_safe_text :: "string \<Rightarrow> nat \<Rightarrow> string"

fun err_text :: "goerr \<Rightarrow> string" where
  "err_text (ErrOs ENOENT) = ''no such file or directory''"
| "err_text (ErrOs EIO) = ''input/output error''"
| "err_text (ErrMsg m) = m"
| "err_text (ErrWrap m e) = m @ '': '' @ err_text e"

definition set_mem :: "(update_job \<Rightarrow> update_job) \<Rightarrow> ('z, unit) svc_prog" where
  "set_mem f = modify (\<lambda>w. w\<lparr>sv_mem := f (sv_mem w)\<rparr>)"

definition get_mem :: "('z, update_job) svc_prog" where
  "get_mem = get_state sv_mem"

text \<open>A deferred call: it runs whatever the outcome, and its own outcome is ignored.\<close>

definition with_cleanup :: "('z, unit) svc_prog \<Rightarrow> ('z, 'a) svc_prog \<Rightarrow> ('z, 'a) svc_prog" where
  "with_cleanup cleanup m =
     bindE (attempt m) (\<lambda>r :: goerr + 'a.
     bindE (attempt cleanup) (\<lambda>_ :: goerr + unit.
     case r of Inl e \<Rightarrow> throw e | Inr x \<Rightarrow> ret x))"

definition ignore_error :: "('z, 'a) svc_prog \<Rightarrow> ('z, unit) svc_prog" where
  "ignore_error m = bindE (attempt m) (\<lambda>_ :: goerr + 'a. ret ())"

section \<open>The hand-off file\<close>

definition handoff_file_name :: string where
  "handoff_file_name = ''update-handoff.json''"

definition handoff_schema_version :: int where
  "handoff_schema_version = 1"

definition run_dir :: "update_cfg \<Rightarrow> string" where
  "run_dir cfg = path_join [cf_data_dir cfg, ''run'']"

definition handoff_path :: "update_cfg \<Rightarrow> string" where
  "handoff_path cfg = path_join [run_dir cfg, handoff_file_name]"

text \<open>The JSON object of the hand-off, the two supervisor paths omitted when empty.\<close>

definition handoff_json :: "handoff_file \<Rightarrow> json" where
  "handoff_json h = JObj (
     [(''schemaVersion'', JNum (itoa (hf_schema_version h))), (''jobId'', JStr (hf_job_id h)),
      (''source'', JStr (hf_source h)), (''currentVersion'', JStr (hf_current_version h)),
      (''targetVersion'', JStr (hf_target_version h)), (''mainBinaryPath'', JStr (hf_main_binary_path h)),
      (''mainBackupPath'', JStr (hf_main_backup_path h))] @
     (if hf_supervisor_binary_path h = [] then []
      else [(''supervisorBinaryPath'', JStr (hf_supervisor_binary_path h))]) @
     (if hf_supervisor_backup_path h = [] then []
      else [(''supervisorBackupPath'', JStr (hf_supervisor_backup_path h))]) @
     [(''requestedAt'', JStr (hf_requested_at h)),
      (''restartTimeoutSeconds'', JNum (itoa (hf_restart_timeout_sec h)))])"

definition handoff_text :: "handoff_file \<Rightarrow> string" where
  "handoff_text h = marshal_indent (handoff_json h)"

text \<open>\<^verbatim>\<open>Format(time.RFC3339)\<close>: the fraction of the second is cut off.\<close>

definition format_rfc3339 :: "gtime \<Rightarrow> string" where
  "format_rfc3339 t = format_rfc3339nano (t - t mod second)"

text \<open>The write itself: temporary file, flush, close, rename, flush of the directory.\<close>

definition write_handoff_file :: "update_cfg \<Rightarrow> string \<Rightarrow> ('z, unit) svc_prog" where
  "write_handoff_file cfg text =
     (let tmp = path_join [run_dir cfg, handoff_file_name @ ''.tmp''] in
      bindE (attempt (os_remove_all tmp)) (\<lambda>_ :: goerr + unit.
      bindE (attempt (os_open_trunc tmp 384)) (\<lambda>o1 :: goerr + unit. case o1 of
        Inl _ \<Rightarrow> ret ()
      | Inr _ \<Rightarrow>
          bindE (attempt (seqE (os_write tmp text) (seqE os_sync (seqE os_sync
            (seqE (os_rename tmp (handoff_path cfg)) (fsync_dir (run_dir cfg))))))) (\<lambda>r :: goerr + unit. case r of
            Inl _ \<Rightarrow> ignore_error (os_remove tmp)
          | Inr _ \<Rightarrow> ret ()))))"

definition handoff_payload ::
  "update_cfg \<Rightarrow> string \<Rightarrow> string \<Rightarrow> string \<Rightarrow> string \<Rightarrow> string \<Rightarrow> string \<Rightarrow> string \<Rightarrow> string \<Rightarrow> gtime \<Rightarrow> handoff_file" where
  "handoff_payload cfg jid source current target install_p backup sup_bin sup_backup t =
     (let cur = (if current = [] then cf_version cfg else current);
          (c1, t1) = (if source = ''rollback'' then (target, cur) else (cur, target));
          secs = cf_restart_timeout cfg div second in
      \<lparr>hf_schema_version = handoff_schema_version, hf_job_id = jid, hf_source = source,
       hf_current_version = c1, hf_target_version = t1, hf_main_binary_path = install_p,
       hf_main_backup_path = backup, hf_supervisor_binary_path = sup_bin,
       hf_supervisor_backup_path = trim_space sup_backup, hf_requested_at = format_rfc3339 t,
       hf_restart_timeout_sec = (if secs \<le> 0 then 120 else secs)\<rparr>)"

definition write_handoff ::
  "update_cfg \<Rightarrow> string \<Rightarrow> string \<Rightarrow> string \<Rightarrow> string \<Rightarrow> string \<Rightarrow> string \<Rightarrow> string \<Rightarrow> ('z, unit) svc_prog" where
  "write_handoff cfg jid source current target install_p backup sup_backup =
     bindE (attempt (os_mkdir_all (run_dir cfg))) (\<lambda>d :: goerr + unit.
     if \<not> is_ok d \<and> cf_log cfg then ret ()
     else bindE (attempt (os_stat (supervisor_path install_p))) (\<lambda>s :: goerr + finfo.
          bindE now (\<lambda>t.
          write_handoff_file cfg (handoff_text (handoff_payload cfg jid source current target install_p backup
            (if is_ok s then supervisor_path install_p else []) sup_backup t)))))"

definition delete_handoff :: "update_cfg \<Rightarrow> ('z, unit) svc_prog" where
  "delete_handoff cfg = ignore_error (os_remove (handoff_path cfg))"

section \<open>Downloads\<close>

record staging =
  sg_dir :: string
  sg_archive_part :: string
  sg_archive :: string
  sg_checksum :: string
  sg_staged_binary :: string

definition staging_paths :: "update_cfg \<Rightarrow> string \<Rightarrow> staging" where
  "staging_paths cfg jid =
     (let dir = path_join [cf_data_dir cfg, ''updates'', ''staging'', jid] in
      \<lparr>sg_dir = dir, sg_archive_part = path_join [dir, ''archive.tar.gz.part''],
       sg_archive = path_join [dir, ''archive.tar.gz''], sg_checksum = path_join [dir, ''archive.tar.gz.sha256''],
       sg_staged_binary = path_join [dir, ''phantom-lancer'']\<rparr>)"

definition prepare_staging :: "update_cfg \<Rightarrow> string \<Rightarrow> ('z, staging) svc_prog" where
  "prepare_staging cfg jid =
     seqE (os_mkdir_all (sg_dir (staging_paths cfg jid))) (ret (staging_paths cfg jid))"

definition http_get :: "'z update_env \<Rightarrow> ctx \<Rightarrow> string \<Rightarrow> ('z, http_body) svc_prog" where
  "http_get env c url =
     bindE (get_state (\<lambda>w. if ctx_cancelled c w then Inl err_canceled else ev_http env url (os_calls w)))
       (\<lambda>r. case r of Inl e \<Rightarrow> throw e | Inr b \<Rightarrow> ret b)"

text \<open>
  The copy loop over the chunks \<^verbatim>\<open>Read\<close> returns.  Progress is saved every half second and when
  the announced length is reached.
\<close>

fun download_loop ::
  "ctx \<Rightarrow> string \<Rightarrow> int \<Rightarrow> int \<Rightarrow> int \<Rightarrow> gtime \<Rightarrow> string list \<Rightarrow> goerr option \<Rightarrow> ('z, int) svc_prog" where
  "download_loop c path mx clen got prev [] fin =
     (case fin of None \<Rightarrow> ret got | Some e \<Rightarrow> throw e)"
| "download_loop c path mx clen got prev (b # bs) fin =
     (if b = [] then download_loop c path mx clen got prev bs fin
      else if mx < got + int (length b) then throw (ErrMsg ''download exceeded the allowed maximum'')
      else seqE (os_write path b)
          (seqE (set_mem (\<lambda>j. j\<lparr>uj_bytes_downloaded := got + int (length b)\<rparr>))
          (bindE now (\<lambda>t.
           if 500000000 \<le> time_sub t prev \<or> got + int (length b) = clen then
             bindE now (\<lambda>t2.
             bindE get_mem (\<lambda>j.
             seqE (save_system_update_job c j)
            (seqE (append_event c (uj_id j) ''update.download.progress'')
                  (download_loop c path mx clen (got + int (length b)) t2 bs fin))))
           else download_loop c path mx clen (got + int (length b)) prev bs fin))))"

definition download :: "update_cfg \<Rightarrow> 'z update_env \<Rightarrow> ctx \<Rightarrow> string \<Rightarrow> string \<Rightarrow> int \<Rightarrow> ('z, unit) svc_prog" where
  "download cfg env c url path mx =
     (case validate_download_url (ev_url_ok env) url (cf_allow_insecure cfg) of
        Inl e \<Rightarrow> throw e
      | Inr _ \<Rightarrow>
          bindE (http_get env c url) (\<lambda>b.
          if hb_status b \<noteq> 200 then throw (ErrMsg ''download failed'')
          else if mx < hb_length b then throw (ErrMsg ''download is larger than the allowed maximum'')
          else
            seqE (whenE (0 < hb_length b) (set_mem (\<lambda>j. j\<lparr>uj_total_bytes := hb_length b\<rparr>)))
           (seqE (os_mkdir_all (path_dir path))
           (seqE (os_open_trunc path 384)
           (bindE now (\<lambda>t.
            bindE (download_loop c path mx (hb_length b) 0 t (hb_chunks b) (hb_end b)) (\<lambda>got.
            seqE os_sync
           (seqE (set_mem (\<lambda>j. j\<lparr>uj_bytes_downloaded := got\<rparr>))
           (bindE get_mem (save_system_update_job c))))))))))"

definition max_checksum_bytes :: nat where
  "max_checksum_bytes = 4096"

text \<open>\<^verbatim>\<open>io.ReadAll\<close> behind a limit of one byte more than allowed: an error beyond it is never seen.\<close>

definition download_checksum ::
  "update_cfg \<Rightarrow> 'z update_env \<Rightarrow> ctx \<Rightarrow> string \<Rightarrow> string \<Rightarrow> ('z, unit) svc_prog" where
  "download_checksum cfg env c url path =
     (case validate_download_url (ev_url_ok env) url (cf_allow_insecure cfg) of
        Inl e \<Rightarrow> throw e
      | Inr _ \<Rightarrow>
          bindE (http_get env c url) (\<lambda>b.
          if hb_status b \<noteq> 200 then throw (ErrMsg ''checksum download failed'')
          else if length (concat (hb_chunks b)) \<le> max_checksum_bytes \<and> hb_end b \<noteq> None
            then throw (the (hb_end b))
          else if max_checksum_bytes < length (concat (hb_chunks b))
            then throw (ErrMsg ''checksum file is too large'')
          else os_write_file path (concat (hb_chunks b)) 384))"

definition verify_staged_version :: "'z update_env \<Rightarrow> string \<Rightarrow> string \<Rightarrow> ('z, unit) svc_prog" where
  "verify_staged_version env path target =
     bindE (get_state (\<lambda>w. ev_run_version env path (os_fs w))) (\<lambda>(err, out).
     case err of
       Some e \<Rightarrow> throw (ErrWrap ''staged binary version check failed'' e)
     | None \<Rightarrow> if contains out target then ret ()
               else throw (ErrMsg ''staged binary version does not match target''))"

section \<open>Running a job\<close>

definition save :: "ctx \<Rightarrow> update_job \<Rightarrow> ('z, unit) svc_prog" where
  "save c job =
     seqE (save_system_update_job c job) (append_event c (uj_id job) ''update.job.updated'')"

definition save_mem :: "ctx \<Rightarrow> ('z, unit) svc_prog" where
  "save_mem c = bindE get_mem (save c)"

definition mem_event :: "ctx \<Rightarrow> string \<Rightarrow> ('z, unit) svc_prog" where
  "mem_event c typ = bindE get_mem (\<lambda>j. append_event c (uj_id j) typ)"

definition set_phase :: "string \<Rightarrow> ('z, unit) svc_prog" where
  "set_phase p = set_mem (\<lambda>j. j\<lparr>uj_phase := p\<rparr>)"

text \<open>The first half of \<^verbatim>\<open>execute\<close>: download, verify, unpack, check the version.\<close>

definition download_phase ::
  "update_cfg \<Rightarrow> 'z update_env \<Rightarrow> ctx \<Rightarrow> update_check \<Rightarrow> staging \<Rightarrow> ('z, unit) svc_prog" where
  "download_phase cfg env c check st =
     seqE (set_phase ''downloading'')
    (seqE (save_mem c)
    (seqE (mem_event c ''update.download.started'')
    (seqE (download cfg env c (uc_asset_url check) (sg_archive_part st) max_archive_bytes)
    (seqE (os_rename (sg_archive_part st) (sg_archive st))
    (seqE (download_checksum cfg env c (uc_checksum_asset_url check) (sg_checksum st))
          (mem_event c ''update.download.completed''))))))"

definition verify_phase :: "'z update_env \<Rightarrow> ctx \<Rightarrow> staging \<Rightarrow> ('z, unit) svc_prog" where
  "verify_phase env c st =
     seqE (set_phase ''verifying'')
    (seqE (save_mem c)
    (bindE (verify_checksum (ev_lower env) (ev_sha env) (sg_archive st) (sg_checksum st)) (\<lambda>digest.
     seqE (set_mem (\<lambda>j. j\<lparr>uj_checksum_sha256 := digest\<rparr>))
    (seqE (save_mem c)
          (mem_event c ''update.verify.completed'')))))"

definition extract_phase :: "'z update_env \<Rightarrow> ctx \<Rightarrow> staging \<Rightarrow> ('z, string) svc_prog" where
  "extract_phase env c st =
     seqE (set_phase ''extracting'')
    (seqE (save_mem c)
    (bindE (extract_binaries (ev_decode env) (sg_archive st) (sg_staged_binary st)) (\<lambda>(m, staged_supervisor).
     bindE get_mem (\<lambda>j.
     seqE (verify_staged_version env (sg_staged_binary st) (uj_target_version j))
    (seqE (mem_event c ''update.extract.completed'')
          (ret staged_supervisor))))))"

definition request_restart :: "update_cfg \<Rightarrow> ('z, unit) svc_prog" where
  "request_restart cfg =
     whenE (cf_request_restart cfg) (modify (\<lambda>w. w\<lparr>sv_restarts := Suc (sv_restarts w)\<rparr>))"

definition dispatch_restart ::
  "update_cfg \<Rightarrow> string \<Rightarrow> string \<Rightarrow> string \<Rightarrow> string \<Rightarrow> string \<Rightarrow> string \<Rightarrow> ('z, unit) svc_prog" where
  "dispatch_restart cfg jid target install_p backup sup_backup source =
     seqE (write_handoff cfg jid source [] target install_p backup sup_backup)
       (if cf_restart_mode cfg = ''exit'' then request_restart cfg
        else if cf_restart_mode cfg = ''self-exec'' then
          seqE (whenE (cf_prepare_exec cfg) (modify (\<lambda>w. w\<lparr>sv_self_exec := Some install_p\<rparr>)))
               (request_restart cfg)
        else ret ())"

text \<open>The second half: install, record it, mark the job as restarting, request the restart.\<close>

definition install_phase ::
  "update_cfg \<Rightarrow> 'z update_env \<Rightarrow> ctx \<Rightarrow> staging \<Rightarrow> string \<Rightarrow> ('z, unit) svc_prog" where
  "install_phase cfg env c st staged_supervisor =
     seqE (set_phase ''installing'')
    (seqE (save_mem c)
    (seqE (mem_event c ''update.install.started'')
    (bindE get_mem (\<lambda>j.
     bindE (install cfg (ev_backup_db env) c (uj_id j) (sg_staged_binary st) staged_supervisor (uj_current_version j)) (\<lambda>res.
     seqE (set_mem (\<lambda>j. j\<lparr>uj_install_binary_path := ir_install_path res, uj_backup_binary_path := ir_backup_path res\<rparr>))
    (seqE (save_mem c)
    (seqE (add_audit c ''system.update.install'')
    (seqE (mem_event c ''update.install.completed'')
    (bindE now_text (\<lambda>t.
     seqE (set_mem (\<lambda>j. j\<lparr>uj_status := ''restarting'', uj_phase := ''restarting'', uj_completed_at := t\<rparr>))
    (seqE (save_mem c)
    (seqE (mem_event c ''update.restart.requested'')
    (seqE (add_audit c ''system.update.restart_requested'')
    (bindE get_mem (\<lambda>j.
     dispatch_restart cfg (uj_id j) (uj_target_version j) (ir_install_path res) (ir_backup_path res)
       (ir_supervisor_backup_path res) ''update'')))))))))))))))"

definition execute :: "update_cfg \<Rightarrow> 'z update_env \<Rightarrow> ctx \<Rightarrow> update_check \<Rightarrow> ('z, unit) svc_prog" where
  "execute cfg env c check =
     bindE get_mem (\<lambda>j.
     bindE (prepare_staging cfg (uj_id j)) (\<lambda>st.
     with_cleanup (os_remove_tree (sg_dir st))
       (seqE (download_phase cfg env c check st)
       (seqE (verify_phase env c st)
       (bindE (extract_phase env c st) (install_phase cfg env c st))))))"

text \<open>The final state of a failed job; the redaction and the cut to 500 bytes are \<open>ev_safe_text\<close>.\<close>

definition fail :: "'z update_env \<Rightarrow> ctx \<Rightarrow> update_job \<Rightarrow> goerr \<Rightarrow> ('z, unit) svc_prog" where
  "fail env c job e =
     bindE now_text (\<lambda>t.
     let job' = job\<lparr>uj_status := ''failed'', uj_error_message := ev_safe_text env (err_text e) 500,
                   uj_completed_at := t\<rparr> in
     seqE (ignore_error (save c job'))
    (seqE (append_event c (uj_id job) ''update.failed'')
          (add_audit c ''system.update.failed'')))"

definition truncate_text :: "string \<Rightarrow> nat \<Rightarrow> string" where
  "truncate_text value mx = (let v = trim_space value in if length v \<le> mx then v else take mx v)"

definition short_checksum :: "string \<Rightarrow> string" where
  "short_checksum value = (if length value \<le> 12 then value else take 12 value)"

definition fail_job :: "'z update_env \<Rightarrow> ctx \<Rightarrow> string \<Rightarrow> string \<Rightarrow> ('z, unit) svc_prog" where
  "fail_job env c jid message =
     bindE (get_system_update_job c jid) (\<lambda>job. fail env c job (ErrMsg (truncate_text message 500)))"

definition cancelled_job :: "update_job \<Rightarrow> string \<Rightarrow> update_job" where
  "cancelled_job job t =
     job\<lparr>uj_status := ''cancelled'', uj_error_message := ''update cancelled by the user'', uj_completed_at := t\<rparr>"

definition run_body :: "update_cfg \<Rightarrow> 'z update_env \<Rightarrow> string \<Rightarrow> update_check \<Rightarrow> ('z, unit) svc_prog" where
  "run_body cfg env jid check =
     bindE (get_system_update_job Background jid) (\<lambda>job.
     bindE now_text (\<lambda>t.
     seqE (set_mem (\<lambda>_. job\<lparr>uj_status := ''running'', uj_started_at := t\<rparr>))
    (seqE (save_mem Background)
    (bindE (attempt (execute cfg env (JobCtx jid) check)) (\<lambda>r :: goerr + unit. case r of
       Inr _ \<Rightarrow> ret ()
     | Inl e \<Rightarrow>
         bindE (get_state (ctx_cancelled (JobCtx jid))) (\<lambda>cancelled.
         bindE get_mem (\<lambda>j.
         if cancelled then
           bindE now_text (\<lambda>t2.
           seqE (ignore_error (save Background (cancelled_job j t2)))
                (append_event Background jid ''update.cancelled''))
         else fail env Background j e)))))))"

text \<open>\<^verbatim>\<open>run\<close>: the errors of its steps end it; the cancel function is deregistered last.\<close>

definition run :: "update_cfg \<Rightarrow> 'z update_env \<Rightarrow> string \<Rightarrow> update_check \<Rightarrow> ('z, unit) svc_prog" where
  "run cfg env jid check =
     seqE (ignore_error (run_body cfg env jid check))
          (modify (\<lambda>w. w\<lparr>sv_registered := removeAll jid (sv_registered w)\<rparr>))"

section \<open>Requests\<close>

record apply_request =
  ar_target_version :: string
  ar_release_id :: string
  ar_confirm_service :: bool
  ar_confirm_task :: bool

definition target_mismatch :: "update_check \<Rightarrow> string \<Rightarrow> string \<Rightarrow> bool" where
  "target_mismatch check target release_id =
     (trim_space target \<noteq> uc_latest_version check \<or> trim_space release_id \<noteq> uc_release_id check)"

definition apply_update :: "update_cfg \<Rightarrow> ctx \<Rightarrow> apply_request \<Rightarrow> ('z, update_job) svc_prog" where
  "apply_update cfg c req =
     (if \<not> cf_enabled cfg then throw (ErrMsg ''updates are disabled'')
      else if \<not> ar_confirm_service req \<or> \<not> ar_confirm_task req
        then throw (ErrMsg ''update interruption confirmation is required'')
      else bindE (attempt (active_system_update_job c)) (\<lambda>active :: goerr + update_job.
        if is_ok active then throw (ErrMsg ''update job already active'')
        else bindE (attempt (latest_system_update_check c)) (\<lambda>latest :: goerr + update_check.
          case latest of
            Inl _ \<Rightarrow> throw (ErrMsg ''check for updates before applying'')
          | Inr check \<Rightarrow>
              if target_mismatch check (ar_target_version req) (ar_release_id req)
                then throw (ErrMsg ''requested update does not match the latest checked release'')
              else if \<not> uc_can_apply check
                then throw (ErrMsg (if uc_reason check \<noteq> [] then uc_reason check
                                    else ''latest release cannot be applied''))
              else
                bindE (create_system_update_job c (empty_job\<lparr>uj_current_version := uc_current_version check,
                  uj_target_version := uc_latest_version check, uj_release_id := uc_release_id check,
                  uj_asset_name := uc_asset_name check, uj_status := ''queued'', uj_phase := ''created'',
                  uj_total_bytes := uc_asset_size_bytes check\<rparr>)) (\<lambda>job.
                seqE (append_event c (uj_id job) ''update.job.created'')
               (seqE (modify (\<lambda>w. w\<lparr>sv_registered := uj_id job # sv_registered w\<rparr>))
                     (ret job))))))"

fun each :: "('a \<Rightarrow> ('z, unit) svc_prog) \<Rightarrow> 'a list \<Rightarrow> ('z, unit) svc_prog" where
  "each f [] = ret ()"
| "each f (x # xs) = seqE (f x) (each f xs)"

definition ensure :: "update_cfg \<Rightarrow> ctx \<Rightarrow> ('z, unit) svc_prog" where
  "ensure cfg c =
     bindE (interrupt_stale_system_update_jobs c
       ''service restarted, the left-over update job was marked as failed'') (\<lambda>stale.
     seqE (each (\<lambda>jid. append_event c jid ''update.job.interrupted'') stale)
    (seqE (whenE (stale \<noteq> []) (add_audit c ''system.update.interrupted''))
          (prune_database_backups cfg)))"

text \<open>The cancel function of a registered job cancels its context from now on.\<close>

definition call_cancel :: "string \<Rightarrow> ('z, unit) svc_prog" where
  "call_cancel jid = modify (\<lambda>w.
     if jid \<in> set (sv_registered w) \<and> sv_cancel_at w jid = None
     then w\<lparr>sv_cancel_at := (sv_cancel_at w)(jid \<mapsto> os_calls w)\<rparr> else w)"

definition cancel :: "ctx \<Rightarrow> string \<Rightarrow> ('z, update_job) svc_prog" where
  "cancel c jid =
     bindE (get_system_update_job c jid) (\<lambda>job.
     if uj_phase job = ''installing'' \<or> uj_phase job = ''restarting'' \<or> uj_status job = ''completed''
       then throw (ErrMsg ''update can no longer be cancelled'')
     else
       seqE (call_cancel jid)
      (bindE now_text (\<lambda>t.
       let job' = cancelled_job job t in
       seqE (save_system_update_job c job')
      (seqE (append_event c (uj_id job) ''update.cancelled'')
            (ret job')))))"

definition check_update :: "update_cfg \<Rightarrow> 'z update_env \<Rightarrow> ctx \<Rightarrow> ('z, update_check) svc_prog" where
  "check_update cfg env c =
     (if \<not> cf_enabled cfg then
        add_system_update_check c (empty_check\<lparr>uc_current_version := cf_version cfg, uc_reason := ''updates are disabled''\<rparr>)
      else
        bindE (attempt (latest_system_update_check c)) (\<lambda>p :: goerr + update_check.
        let previous = (case p of Inl _ \<Rightarrow> empty_check | Inr k \<Rightarrow> k); etag = uc_etag previous in
        seqE (append_event c ''default'' ''update.check.started'')
       (bindE (get_state (\<lambda>w. fetch_latest_release (ev_url_ok env) cfg (ev_release env etag (os_calls w)))) (\<lambda>r.
        case r of
          Inr None \<Rightarrow>
            if uc_id previous \<noteq> [] then
              seqE (append_event c ''default'' ''update.check.completed'') (ret previous)
            else bindE (add_system_update_check c empty_check) (\<lambda>stored.
              seqE (append_event c ''default'' ''update.check.completed'') (ret stored))
        | Inl e \<Rightarrow>
            bindE (attempt (add_system_update_check c (empty_check\<lparr>uc_current_version := cf_version cfg,
              uc_error_message := ev_safe_text env (err_text e) 300, uc_reason := ''release check failed'',
              uc_etag := etag\<rparr>))) (\<lambda>stored :: goerr + update_check.
            seqE (append_event c ''default'' ''update.check.completed'')
                 (case stored of Inl e2 \<Rightarrow> throw e2 | Inr _ \<Rightarrow> throw e))
        | Inr (Some check) \<Rightarrow>
            bindE (add_system_update_check c check) (\<lambda>stored.
              seqE (append_event c ''default'' ''update.check.completed'') (ret stored))))))"

section \<open>Boot confirmation and rollback\<close>

fun first_time :: "string list \<Rightarrow> gtime option" where
  "first_time [] = None"
| "first_time (s # ss) =
     (if trim_space s = [] then first_time ss
      else case parse_rfc3339 s of Some t \<Rightarrow> Some t | None \<Rightarrow> first_time ss)"

definition restart_requested_at :: "update_job \<Rightarrow> gtime option" where
  "restart_requested_at job = first_time [uj_completed_at job, uj_started_at job, uj_created_at job]"

definition supervisor_backup_path_for :: "string \<Rightarrow> string" where
  "supervisor_backup_path_for main = (if trim_space main = [] then [] else main @ ''.supervisor'')"

text \<open>Best-effort restore of the supervisor's backup beside the main one.\<close>

definition restore_sibling :: "string \<Rightarrow> string \<Rightarrow> ('z, unit) svc_prog" where
  "restore_sibling install_p backup =
     bindE (attempt (os_stat (backup @ ''.supervisor''))) (\<lambda>s :: goerr + finfo. case s of
       Inl _ \<Rightarrow> ret ()
     | Inr i \<Rightarrow> if fi_kind i \<noteq> Regular then ret ()
               else ignore_error (restore_backup (supervisor_path install_p) (backup @ ''.supervisor'')))"

definition reconcile_manual_upgrade :: "update_cfg \<Rightarrow> ctx \<Rightarrow> ('z, unit) svc_prog" where
  "reconcile_manual_upgrade cfg c =
     (let v = trim_space (cf_version cfg) in
      if v = [] \<or> v = ''dev'' \<or> contains v ''-dev'' then ret ()
      else bindE (attempt (active_system_update_job c)) (\<lambda>active :: goerr + update_job.
        if (case active of Inl _ \<Rightarrow> False | Inr j \<Rightarrow> uj_id j \<noteq> []) then ret ()
        else bindE (attempt (latest_system_update_check c)) (\<lambda>latest :: goerr + update_check.
          if (case latest of Inl _ \<Rightarrow> False | Inr k \<Rightarrow> trim_space (uc_current_version k) = v) then ret ()
          else
            let base = (case latest of
                  Inr k \<Rightarrow> if uc_id k \<noteq> [] then k else empty_check\<lparr>uc_platform_supported := cf_platform cfg\<rparr>
                | Inl _ \<Rightarrow> empty_check\<lparr>uc_platform_supported := cf_platform cfg\<rparr>);
                next = base\<lparr>uc_current_version := v\<rparr>;
                (cmp, ok) = compare_versions v (uc_latest_version next);
                next' = (if ok \<and> 0 < cmp then
                    next\<lparr>uc_latest_version := v, uc_update_available := False, uc_can_apply := False,
                      uc_comparable := True, uc_reason := ''manual_upgrade_detected'', uc_release_id := [],
                      uc_release_url := [], uc_published_at := [], uc_asset_name := [], uc_asset_size_bytes := 0,
                      uc_asset_url := [], uc_checksum_asset_url := [], uc_checksum_available := False,
                      uc_etag := [], uc_error_message := []\<rparr>
                  else if \<not> ok then next\<lparr>uc_comparable := False\<rparr> else next)
            in ignore_error (add_system_update_check c next'))))"

text \<open>The watchdog's rollback: the path restored, \<open>None\<close> when there was no rollback.\<close>

definition watchdog_rollback :: "update_cfg \<Rightarrow> ctx \<Rightarrow> update_job \<Rightarrow> ('z, string option) svc_prog" where
  "watchdog_rollback cfg c job =
     (let backup = uj_backup_binary_path job in
      if backup = [] then ret None
      else bindE (attempt (validate_backup_binary backup)) (\<lambda>v :: goerr + finfo.
        if \<not> is_ok v then ret None
        else bindE (attempt (install_path cfg)) (\<lambda>ip :: goerr + string. case ip of
          Inl _ \<Rightarrow> ret None
        | Inr p \<Rightarrow>
            bindE (attempt (restore_backup p backup)) (\<lambda>rb :: goerr + unit.
            if \<not> is_ok rb then ret None
            else seqE (restore_sibling p backup)
                (seqE (add_audit c ''system.update.rollback_auto'')
                (seqE (append_event c (uj_id job) ''update.rollback.applied'')
                      (ret (Some p))))))))"

definition mismatch_message :: "update_job \<Rightarrow> string \<Rightarrow> bool \<Rightarrow> string option \<Rightarrow> string" where
  "mismatch_message job current elapsed rolled =
     ''service restarted with version '' @ current @ '' instead of target '' @ uj_target_version job @
     (if rolled \<noteq> None then ''; restart watchdog timed out, backup binary restored automatically''
      else if \<not> elapsed then ''; version mismatch was detected before the restart watchdog timeout while the non-target process is already serving''
      else if uj_backup_binary_path job = [] then ''; no backup binary available for auto-rollback'' else [])"

definition confirm_mismatch :: "update_cfg \<Rightarrow> ctx \<Rightarrow> update_job \<Rightarrow> string \<Rightarrow> bool \<Rightarrow> ('z, string option) svc_prog" where
  "confirm_mismatch cfg c job current elapsed =
     bindE (if elapsed then watchdog_rollback cfg c job else ret None) (\<lambda>rolled.
     bindE now_text (\<lambda>t.
     bindE (attempt (save_system_update_job c (job\<lparr>uj_status := ''failed'',
       uj_error_message := mismatch_message job current elapsed rolled, uj_completed_at := t\<rparr>))) (\<lambda>s :: goerr + unit.
     if \<not> is_ok s then ret rolled
     else seqE (append_event c (uj_id job) ''update.failed'')
         (seqE (add_audit c ''system.update.boot_mismatch'') (ret rolled)))))"

definition confirm_target :: "ctx \<Rightarrow> update_job \<Rightarrow> ('z, string option) svc_prog" where
  "confirm_target c job =
     bindE now_text (\<lambda>t.
     bindE (attempt (save_system_update_job c (job\<lparr>uj_status := ''completed'', uj_phase := ''completed'',
       uj_completed_at := t\<rparr>))) (\<lambda>s :: goerr + unit.
     if \<not> is_ok s then ret None
     else seqE (add_audit c ''system.update.completed'')
         (seqE (append_event c (uj_id job) ''update.completed'') (ret None))))"

definition confirm_job :: "update_cfg \<Rightarrow> ctx \<Rightarrow> ('z, string option) svc_prog" where
  "confirm_job cfg c =
     bindE (attempt (latest_system_update_job c)) (\<lambda>r :: goerr + update_job. case r of
       Inl _ \<Rightarrow> ret None
     | Inr job \<Rightarrow>
         if uj_target_version job = [] \<or> uj_status job \<noteq> ''restarting'' then ret None
         else
           let v = trim_space (cf_version cfg); current = (if v = [] then ''unknown'' else v);
               timeout = (if cf_restart_timeout cfg \<le> 0 then 120 * second else cf_restart_timeout cfg) in
           bindE now (\<lambda>t.
           let elapsed = (case restart_requested_at job of None \<Rightarrow> True | Some q \<Rightarrow> timeout < time_sub t q) in
           if uj_target_version job = current then confirm_target c job
           else confirm_mismatch cfg c job current elapsed))"

definition confirm_boot :: "update_cfg \<Rightarrow> ctx \<Rightarrow> ('z, string option) svc_prog" where
  "confirm_boot cfg c =
     seqE (reconcile_manual_upgrade cfg c) (with_cleanup (delete_handoff cfg) (confirm_job cfg c))"

definition rollback_note :: "string \<Rightarrow> string" where
  "rollback_note msg =
     (if contains msg ''rollback applied'' then msg
      else if trim_space msg = [] then ''rollback applied''
      else msg @ '' + rollback applied'')"

definition rollback :: "update_cfg \<Rightarrow> ctx \<Rightarrow> string \<Rightarrow> ('z, update_job \<times> string) svc_prog" where
  "rollback cfg c jid =
     bindE (get_system_update_job c jid) (\<lambda>job.
     if active_status (uj_status job)
       then throw (ErrMsg ''cannot rollback a job that is still in progress; cancel it first'')
     else
       seqE (or_wrap ''rollback: backup binary invalid or missing'' (validate_backup_binary (uj_backup_binary_path job)))
      (bindE (install_path cfg) (\<lambda>p.
       seqE (restore_backup p (uj_backup_binary_path job))
      (seqE (restore_sibling p (uj_backup_binary_path job))
      (bindE now_text (\<lambda>t.
       let already = contains (uj_error_message job) ''rollback applied'';
           job' = job\<lparr>uj_error_message := rollback_note (uj_error_message job), uj_completed_at := t\<rparr>;
           sup_backup = supervisor_backup_path_for (uj_backup_binary_path job) in
       seqE (save_system_update_job c job')
      (seqE (append_event c (uj_id job) ''update.rollback.applied'')
      (seqE (add_audit c ''system.update.rollback'')
      (seqE (if already then ret ()
             else
               seqE (append_event c (uj_id job) ''update.restart.requested'')
              (seqE (add_audit c ''system.update.restart_requested'')
              (seqE (write_handoff cfg (uj_id job) ''rollback'' (uj_target_version job) (uj_current_version job) p
                       (uj_backup_binary_path job) sup_backup)
                    (dispatch_restart cfg (uj_id job) (uj_current_version job) p (uj_backup_binary_path job)
                       sup_backup ''rollback''))))
            (ret (job', p)))))))))))"

end
