(* ===== verification/UpdateLife.thy ===== *)
theory UpdateLife
  imports SelfUpdate
begin

text \<open>
  The life of an update job: what \<open>apply_update\<close> admits, what the start-up clean-up and the boot
  confirmation leave in the job table, what the run may touch before it installs, and the atomic
  write of the hand-off file.
\<close>

section \<open>Outcomes of single calls\<close>

lemma attempt_result: "attempt m w = (Inr r, w') \<longleftrightarrow> m w = (r, w')"
  by (auto simp: attempt_def split: prod.split)

lemma attempt_not_Inl [simp]: "attempt m w \<noteq> (Inl e, w')"
  by (auto simp: attempt_def split: prod.split)

lemma db_query_result:
  assumes "db_query c q w = (r, w')"
  shows "w' = w\<lparr>os_calls := Suc (os_calls w)\<rparr> \<and> (\<forall>x. r = Inr x \<longrightarrow> q w' = Some x) \<and>
    (\<forall>e. r = Inl e \<longrightarrow> ctx_cancelled c w \<or> os_fault w (os_calls w) \<or> q w' = None)"
  using assms by (auto simp: db_query_def db_def Let_def split: if_splits option.splits)

lemma create_job_result:
  assumes "create_system_update_job c job w = (Inr row, w')"
  shows "sv_jobs w' = sv_jobs w @ [row] \<and> uj_id row \<notin> uj_id ` set (sv_jobs w) \<and>
    uj_target_version row = uj_target_version job \<and> uj_release_id row = uj_release_id job \<and>
    uj_status row = (if trim_space (uj_status job) = [] then ''running'' else trim_space (uj_status job))"
proof -
  from assms obtain jid w1 t w2 w3 where st: "new_id ''upd'' w = (Inr jid, w1)" "now_text w1 = (Inr t, w2)"
      "db c (\<lambda>w. if uj_id row \<in> uj_id ` set (sv_jobs w) then (Inl err_db, w)
         else (Inr (), w\<lparr>sv_jobs := sv_jobs w @ [row]\<rparr>)) w2 = (Inr (), w3)"
      and w': "w' = w3" and row: "row = job\<lparr>uj_id := jid,
         uj_status := (if trim_space (uj_status job) = [] then ''running'' else trim_space (uj_status job)),
         uj_phase := (if trim_space (uj_phase job) = [] then ''created'' else trim_space (uj_phase job)),
         uj_created_at := t\<rparr>"
    unfolding create_system_update_job_def bindE_Inr ret_Inr Let_def by auto
  have "rows_kept w w2"
    using rowsD [OF rows_new_id st(1)] rowsD [OF rows_now_text st(2)] by (rule rows.frame_trans)
  then have "sv_jobs w2 = sv_jobs w" by (simp add: rows_kept_def)
  with st(3) w' row show ?thesis
    by (auto simp: db_def Let_def split: if_splits)
qed

section \<open>Admission of an update\<close>

definition no_update_active :: "ctx \<Rightarrow> 'z svc_scheme \<Rightarrow> bool" where
  "no_update_active c w \<longleftrightarrow> ctx_cancelled c w \<or> os_fault w (os_calls w) \<or>
     (\<forall>j \<in> set (sv_jobs w). \<not> active_status (uj_status j))"

text \<open>
  C14: Apply creates a job only for an enabled service, with both confirmations given, for the
  latest checked release, named by version and id, that can be applied, and while no job is
  active (a failing look-up of the active job counts as none).  The new job is the only new row;
  it is queued, carries that release's version, and is registered for cancellation.
\<close>
theorem apply_admits_only_checked_release:
  assumes "apply_update cfg c req w = (Inr job, w')"
  shows "cf_enabled cfg \<and> ar_confirm_service req \<and> ar_confirm_task req \<and> no_update_active c w \<and>
    (\<exists>check. latest_by uc_checked_at (sv_checks w) = Some check \<and> uc_can_apply check \<and>
       trim_space (ar_target_version req) = uc_latest_version check \<and>
       trim_space (ar_release_id req) = uc_release_id check \<and>
       uj_target_version job = uc_latest_version check) \<and>
    sv_jobs w' = sv_jobs w @ [job] \<and> uj_id job \<notin> uj_id ` set (sv_jobs w) \<and>
    uj_status job = ''queued'' \<and> uj_id job \<in> set (sv_registered w')"
proof -
  have guard: "cf_enabled cfg \<and> ar_confirm_service req \<and> ar_confirm_task req"
    using assms by (auto simp: apply_update_def split: if_splits)
  from assms guard obtain active w1 latest w2 where
    st: "active_system_update_job c w = (active, w1)" "\<not> is_ok active"
      "latest_system_update_check c w1 = (latest, w2)" and
    rest: "(case latest of Inl _ \<Rightarrow> throw (ErrMsg ''check for updates before applying'')
      | Inr check \<Rightarrow>
          if target_mismatch check (ar_target_version req) (ar_release_id req)
            then throw (ErrMsg ''requested update does not match the latest checked release'')
          else if \<not> uc_can_apply check
            then throw (ErrMsg (if uc_reason check \<noteq> [] then uc_reason check else ''latest release cannot be applied''))
          else
            bindE (create_system_update_job c (empty_job\<lparr>uj_current_version := uc_current_version check,
              uj_target_version := uc_latest_version check, uj_release_id := uc_release_id check,
              uj_asset_name := uc_asset_name check, uj_status := ''queued'', uj_phase := ''created'',
              uj_total_bytes := uc_asset_size_bytes check\<rparr>)) (\<lambda>job.
            seqE (append_event c (uj_id job) ''update.job.created'')
           (seqE (modify (\<lambda>w. w\<lparr>sv_registered := uj_id job # sv_registered w\<rparr>)) (ret job)))) w2 = (Inr job, w')"
    by (auto simp: apply_update_def bindE_Inr attempt_result split: if_splits)
  from st(1) have w1: "w1 = w\<lparr>os_calls := Suc (os_calls w)\<rparr>"
    and act: "\<And>e. active = Inl e \<Longrightarrow> ctx_cancelled c w \<or> os_fault w (os_calls w) \<or>
      filter (\<lambda>j. active_status (uj_status j)) (sv_jobs w) = []"
    unfolding active_system_update_job_def using db_query_result by (fastforce)+
  have none: "no_update_active c w"
    using act st(2) by (cases active) (auto simp: no_update_active_def filter_empty_conv is_ok_def)
  from rest obtain check where check: "latest = Inr check" by (cases latest) auto
  with st(3) w1 have w2: "w2 = w1\<lparr>os_calls := Suc (os_calls w1)\<rparr>"
    and row: "latest_by uc_checked_at (sv_checks w) = Some check"
    unfolding latest_system_update_check_def by (auto dest!: db_query_result)
  from rest check obtain w3 w4 where ok: "\<not> target_mismatch check (ar_target_version req) (ar_release_id req)"
      "uc_can_apply check" and made: "create_system_update_job c (empty_job\<lparr>uj_current_version := uc_current_version check,
              uj_target_version := uc_latest_version check, uj_release_id := uc_release_id check,
              uj_asset_name := uc_asset_name check, uj_status := ''queued'', uj_phase := ''created'',
              uj_total_bytes := uc_asset_size_bytes check\<rparr>) w2 = (Inr job, w3)"
      and ev: "append_event c (uj_id job) ''update.job.created'' w3 = (Inr (), w4)"
      and w': "w' = w4\<lparr>sv_registered := uj_id job # sv_registered w4\<rparr>"
    by (auto simp: seqE_Inr bindE_Inr ret_Inr modify_def split: if_splits)
  have "sv_jobs w4 = sv_jobs w3" using rowsD [OF rows_event ev] by (simp add: rows_kept_def)
  moreover have "trim_space ''queued'' = ''queued''" by code_simp
  ultimately show ?thesis
    using guard none row ok create_job_result [OF made] w' w2 w1
    by (auto simp: target_mismatch_def)
qed


definition offered_check :: update_check where
  "offered_check = empty_check\<lparr>uc_id := ''c'', uc_latest_version := ''v2'', uc_release_id := ''7'',
     uc_can_apply := True, uc_checked_at := ''t''\<rparr>"

definition offered_svc :: svc where
  "offered_svc = sample_svc\<lparr>sv_checks := [offered_check]\<rparr>"

definition offered_request :: apply_request where
  "offered_request = \<lparr>ar_target_version = ''v2'', ar_release_id = ''7'', ar_confirm_service = True,
     ar_confirm_task = True\<rparr>"

theorem apply_admits_only_checked_release_witness:
  "\<exists>job w'. apply_update sample_cfg Background offered_request offered_svc = (Inr job, w') \<and>
     uj_status job = ''queued'' \<and> sv_jobs w' = sv_jobs offered_svc @ [job]"
proof -
  have "\<not> target_mismatch offered_check ''v2'' ''7''" by code_simp
  then have "is_ok (fst (apply_update sample_cfg Background offered_request offered_svc))"
    by (simp add: apply_update_def offered_request_def sample_cfg_def offered_svc_def sample_svc_def
        active_system_update_job_def latest_system_update_check_def create_system_update_job_def
        db_query_def db_def is_ok_def prog_defs ctx_cancelled_def new_id_def syscall_def now_text_def
        now_def append_event_def db_exec_def Let_def offered_check_def)
  then obtain job w' where ran: "apply_update sample_cfg Background offered_request offered_svc = (Inr job, w')"
    by (metis is_ok_def old.sum.simps(5) prod.collapse sum.collapse(2) sum.exhaust_sel)
  from apply_admits_only_checked_release [OF this] show ?thesis using ran by blast
qed

section \<open>Start-up\<close>

lemma rows_each: "(\<And>x. keeps rows_kept (f x)) \<Longrightarrow> keeps rows_kept (each f xs)"
  by (induction xs) (auto intro!: rows_rules)

text \<open>
  C15: The start-up clean-up leaves no job queued or running: exactly the rows that were so
  become failed, with one message and time, and every other row is untouched.
\<close>
theorem ensure_fails_stale_jobs:
  assumes "ensure cfg Background w = (r, w')" and "no_faults w"
  shows "\<exists>message t. sv_jobs w' = map (fail_stale_row message t) (sv_jobs w) \<and>
    (\<forall>j \<in> set (sv_jobs w'). \<not> stale_status (uj_status j)) \<and> length (sv_jobs w') = length (sv_jobs w)"
proof -
  obtain q w1 where q: "interrupt_stale_system_update_jobs Background
      ''service restarted, the left-over update job was marked as failed'' w = (q, w1)" by fastforce
  have stale: "\<exists>message t. sv_jobs w1 = map (fail_stale_row message t) (sv_jobs w)"
  proof (cases "stale_ids (sv_jobs w) = []")
    case True
    then have "\<forall>j \<in> set (sv_jobs w). \<not> stale_status (uj_status j)"
      by (auto simp: stale_ids_def filter_empty_conv dest!: arg_cong [where f = set])
    then have "map (fail_stale_row m t) (sv_jobs w) = sv_jobs w" for m t
      by (auto simp: fail_stale_row_def intro!: map_idI)
    with q True show ?thesis
      by (auto simp: interrupt_stale_system_update_jobs_def db_query_runs [OF assms(2)] bindE_def ret_def)
  next
    case False
    let ?w = "w\<lparr>os_calls := Suc (os_calls w)\<rparr>"
    obtain t where t: "now_text ?w = (Inr t, ?w)"
      by (simp add: now_text_def now_def prog_defs)
    have nf: "no_faults ?w" using assms(2) by (simp add: no_faults_def)
    from q False t show ?thesis
      by (auto simp: interrupt_stale_system_update_jobs_def db_query_runs [OF assms(2)] bindE_def seqE_def
          ret_def db_exec_runs [OF nf] Let_def split: if_splits) blast+
  qed
  have "rows_kept w1 w'"
  proof (cases q)
    case (Inl e)
    then show ?thesis using assms(1) q by (simp add: ensure_def bindE_def rows.frame_refl)
  next
    case (Inr stale)
    have "keeps rows_kept (seqE (each (\<lambda>jid. append_event Background jid ''update.job.interrupted'') stale)
        (seqE (whenE (stale \<noteq> []) (add_audit Background ''system.update.interrupted'')) (prune_database_backups cfg)))"
      by (intro rows_rules rows_each rows_calls rows_os [OF only_prune_db])
    then show ?thesis using assms(1) q Inr by (auto simp: ensure_def bindE_def dest: keepsD)
  qed
  then have "sv_jobs w' = sv_jobs w1" by (simp add: rows_kept_def)
  moreover have "\<not> stale_status (uj_status (fail_stale_row m t j))" for m t j
    by (simp add: fail_stale_row_def stale_status_def)
  ultimately show ?thesis using stale by auto
qed

definition stale_svc :: svc where
  "stale_svc = sample_svc\<lparr>sv_jobs := [empty_job\<lparr>uj_id := ''a'', uj_status := ''running''\<rparr>,
     empty_job\<lparr>uj_id := ''b'', uj_status := ''restarting''\<rparr>]\<rparr>"

lemma stale_svc_calm: "no_faults stale_svc"
  by (simp add: no_faults_def stale_svc_def sample_svc_def)

theorem ensure_fails_stale_jobs_witness:
  "\<exists>message t. sv_jobs (snd (ensure sample_cfg Background stale_svc)) =
     map (fail_stale_row message t) (sv_jobs stale_svc)"
  using ensure_fails_stale_jobs [OF prod.collapse [symmetric] stale_svc_calm, of sample_cfg] by blast

section \<open>Boot confirmation\<close>

lemma only_ignore: "keeps os_only m \<Longrightarrow> keeps os_only (ignore_error m)"
  unfolding ignore_error_def by (intro only_rules)

lemma rows_ignore: "keeps rows_kept m \<Longrightarrow> keeps rows_kept (ignore_error m)"
  unfolding ignore_error_def by (intro rows_rules)

lemma only_restore_sibling: "keeps os_only (restore_sibling p b)"
  unfolding restore_sibling_def
  by (intro only_rules only_calls) (auto split: sum.split intro!: only_rules only_calls only_ignore)

lemma rows_watchdog: "keeps rows_kept (watchdog_rollback cfg c job)"
  unfolding watchdog_rollback_def Let_def
  by (auto split: sum.split intro!: rows_rules rows_calls rows_os [OF only_validate] rows_os [OF only_install_path]
      rows_os [OF only_restore] rows_os [OF only_restore_sibling])

lemma returns_ignore [returns_rules]: "returns (ignore_error m)"
  unfolding ignore_error_def by (intro returns_rules)

lemma returns_case_prod: "(\<And>a b. returns (f a b)) \<Longrightarrow> returns (case p of (a, b) \<Rightarrow> f a b)"
  by (cases p) simp

lemma returns_Let: "(\<And>y. returns (f y)) \<Longrightarrow> returns (Let x f)"
  by simp

lemma returns_watchdog: "returns (watchdog_rollback cfg c job)"
  unfolding watchdog_rollback_def restore_sibling_def Let_def
  by (auto split: sum.split intro!: returns_rules)

lemma rows_reconcile: "keeps rows_kept (reconcile_manual_upgrade cfg c)"
  unfolding reconcile_manual_upgrade_def Let_def
  by (auto split: sum.split prod.split intro!: rows_rules rows_calls rows_ignore)

lemma rows_delete_handoff: "keeps rows_kept (delete_handoff cfg)"
  unfolding delete_handoff_def by (intro rows_os only_ignore only_calls)

definition booted_version :: "update_cfg \<Rightarrow> string" where
  "booted_version cfg = (if trim_space (cf_version cfg) = [] then ''unknown'' else trim_space (cf_version cfg))"

text \<open>Row by row: the rows of the job take \<open>st\<close> as status, the others stay.\<close>

definition only_job_finished :: "string \<Rightarrow> string \<Rightarrow> update_job list \<Rightarrow> update_job list \<Rightarrow> bool" where
  "only_job_finished jid st jobs jobs' \<longleftrightarrow>
     list_all2 (\<lambda>j j'. uj_id j' = uj_id j \<and> (if uj_id j = jid then uj_status j' = st else j' = j)) jobs jobs'"

lemma save_row_finished:
  "only_job_finished (uj_id j) (uj_status j) jobs (save_row j jobs)"
  by (induction jobs) (auto simp: only_job_finished_def save_row_def save_columns_def)

lemma save_then_kept:
  assumes "no_faults w" and "keeps rows_kept n" and "uj_id j = jid" and "uj_status j = st"
    and "bindE (attempt (save_system_update_job Background j)) (\<lambda>s :: goerr + unit. if \<not> is_ok s then ret x else n) w = (r, w')"
  shows "only_job_finished jid st (sv_jobs w) (sv_jobs w')"
proof -
  let ?w = "w\<lparr>os_calls := Suc (os_calls w), sv_jobs := save_row j (sv_jobs w)\<rparr>"
  have "n ?w = (r, w')"
    using assms(5) by (simp add: bindE_def attempt_def save_runs [OF assms(1)] is_ok_def)
  then have "sv_jobs w' = save_row j (sv_jobs w)"
    using rowsD [OF assms(2)] by (fastforce simp: rows_kept_def)
  then show ?thesis using save_row_finished [of j "sv_jobs w"] assms(3,4) by simp
qed

lemma now_text_runs: "\<exists>t. now_text w = (Inr t, w)"
  by (simp add: now_text_def now_def prog_defs)

lemma confirm_target_finishes:
  assumes "confirm_target Background job w = (r, w')" and "no_faults w"
  shows "only_job_finished (uj_id job) ''completed'' (sv_jobs w) (sv_jobs w')"
proof -
  obtain t where t: "now_text w = (Inr t, w)" using now_text_runs by blast
  have k: "keeps rows_kept (seqE (add_audit Background ''system.update.completed'')
      (seqE (append_event Background (uj_id job) ''update.completed'') (ret (None :: string option))))"
    by (intro rows_rules rows_calls)
  from save_then_kept [OF assms(2) k] assms(1) t show ?thesis
    by (fastforce simp: confirm_target_def bindE_def [of now_text])
qed

lemma confirm_mismatch_finishes:
  assumes "confirm_mismatch cfg Background job current el w = (r, w')" and "no_faults w"
  shows "only_job_finished (uj_id job) ''failed'' (sv_jobs w) (sv_jobs w')"
proof -
  let ?wd = "if el then watchdog_rollback cfg Background job else ret None"
  have kw: "keeps rows_kept ?wd" by (intro rows_rules rows_watchdog)
  obtain q w1 where q: "?wd w = (q, w1)" by fastforce
  have kept: "rows_kept w w1" using kw q by (rule keepsD)
  have "returns ?wd" by (intro returns_rules returns_watchdog)
  then obtain rolled where Inr: "q = Inr rolled"
    using q returnsD [where m = "?wd"] by blast
  obtain t where t: "now_text w1 = (Inr t, w1)" using now_text_runs by blast
  have k: "keeps rows_kept (seqE (append_event Background (uj_id job) ''update.failed'')
      (seqE (add_audit Background ''system.update.boot_mismatch'') (ret rolled)))"
    by (intro rows_rules rows_calls)
  have nf: "no_faults w1" using rows_no_faults [OF kept] assms(2) by simp
  have "only_job_finished (uj_id job) ''failed'' (sv_jobs w1) (sv_jobs w')"
    using save_then_kept [OF nf k] assms(1) q Inr t
    by (fastforce simp: confirm_mismatch_def bindE_def [of "?wd"] bindE_def [of now_text])
  then show ?thesis using kept by (simp add: rows_kept_def)
qed

lemma returns_reconcile: "returns (reconcile_manual_upgrade cfg c)"
  unfolding reconcile_manual_upgrade_def
  apply (rule returns_Let)
  apply (rule returns_if, rule returns_basic)
  apply (rule returns_bindE [OF returns_attempt])
  apply (rule returns_if, rule returns_basic)
  apply (rule returns_bindE [OF returns_attempt])
  apply (rule returns_if, rule returns_basic)
  apply (rule returns_Let)+
  apply (rule returns_case_prod)
  apply (rule returns_Let)
  apply (rule returns_ignore)
  done

text \<open>
  C13: A boot settles a restarting job.  When the latest job is restarting, the first boot marks it
  completed if the running version is the job's target, failed otherwise; no other row changes.
\<close>
theorem boot_settles_restarting_job:
  assumes "confirm_boot cfg Background w = (r, w')" and "no_faults w"
    and "latest_by uj_created_at (sv_jobs w) = Some job"
    and "uj_status job = ''restarting''" and "uj_target_version job \<noteq> []"
  shows "only_job_finished (uj_id job)
    (if uj_target_version job = booted_version cfg then ''completed'' else ''failed'') (sv_jobs w) (sv_jobs w')"
proof -
  obtain q1 w1 where q1: "reconcile_manual_upgrade cfg Background w = (q1, w1)" by fastforce
  have k1: "rows_kept w w1" using rows_reconcile q1 by (rule keepsD)
  obtain x1 where x1: "q1 = Inr x1" using returnsD [OF returns_reconcile q1] by auto
  obtain q2 w2 where q2: "confirm_job cfg Background w1 = (q2, w2)" by fastforce
  obtain q3 w3 where q3: "delete_handoff cfg w2 = (q3, w3)" by fastforce
  have k3: "rows_kept w2 w3" using rows_delete_handoff q3 by (rule keepsD)
  have "w' = w3"
    using assms(1) q1 x1 q2 q3
    by (auto simp: confirm_boot_def with_cleanup_def prog_defs split: sum.splits)
  moreover have "only_job_finished (uj_id job)
    (if uj_target_version job = booted_version cfg then ''completed'' else ''failed'') (sv_jobs w1) (sv_jobs w2)"
  proof -
    let ?w = "w1\<lparr>os_calls := Suc (os_calls w1)\<rparr>"
    have nf: "no_faults w1" "no_faults ?w"
      using rows_no_faults [OF k1] assms(2) by (simp_all add: no_faults_def)
    have "latest_by uj_created_at (sv_jobs ?w) = Some job"
      using k1 assms(3) by (simp add: rows_kept_def)
    then have "latest_system_update_job Background w1 = (Inr job, ?w)"
      by (simp add: latest_system_update_job_def db_query_runs [OF nf(1)])
    with q2 assms(4,5) obtain el where
      "(if uj_target_version job = booted_version cfg then confirm_target Background job
        else confirm_mismatch cfg Background job (booted_version cfg) el) ?w = (q2, w2)"
      by (auto simp: confirm_job_def booted_version_def prog_defs now_def Let_def split: if_splits)
    then show ?thesis
      using confirm_target_finishes [OF _ nf(2)] confirm_mismatch_finishes [OF _ nf(2)]
      by (auto split: if_splits)
  qed
  ultimately show ?thesis using k1 k3 by (simp add: rows_kept_def)
qed

definition restarting_svc :: svc where
  "restarting_svc = stopped_svc\<lparr>sv_jobs := [empty_job\<lparr>uj_id := ''a'', uj_status := ''restarting'',
     uj_target_version := ''v1''\<rparr>]\<rparr>"

theorem boot_settles_restarting_job_witness:
  "only_job_finished ''a'' ''completed'' (sv_jobs restarting_svc)
     (sv_jobs (snd (confirm_boot sample_cfg Background restarting_svc)))"
proof -
  have "booted_version sample_cfg = ''v1''" by code_simp
  then show ?thesis
    using boot_settles_restarting_job [OF prod.collapse [symmetric], of restarting_svc
        "empty_job\<lparr>uj_id := ''a'', uj_status := ''restarting'', uj_target_version := ''v1''\<rparr>" sample_cfg]
    by (simp add: restarting_svc_def no_faults_def stopped_svc_def sample_svc_def)
qed

section \<open>Before the installation\<close>

definition staging_files :: "staging \<Rightarrow> string set" where
  "staging_files st = {sg_archive_part st, sg_archive st, sg_checksum st, sg_staged_binary st,
     sg_staged_binary st @ ''.supervisor''}"

lemma touch_mem:
  "keeps (pres A) (set_mem f)" "keeps (pres A) get_mem" "keeps (pres A) (mem_event c t)"
  "keeps (pres A) (save c j)" "keeps (pres A) (save_mem c)" "keeps (pres A) (set_phase p)"
proof -
  show m: "keeps (pres A) (set_mem f)" for f
    by (simp add: keeps_def set_mem_def modify_def pres_def all_states_def)
  show g: "keeps (pres A) get_mem" unfolding get_mem_def by (rule touch.keeps_get)
  show "keeps (pres A) (mem_event c t)"
    unfolding mem_event_def by (intro touch_rules g append_event_pres)
  show sv: "keeps (pres A) (save c j)" for j
    unfolding save_def by (intro touch_rules save_job_pres append_event_pres)
  show "keeps (pres A) (save_mem c)" unfolding save_mem_def by (intro touch_rules g sv)
  show "keeps (pres A) (set_phase p)" unfolding set_phase_def by (rule m)
qed

lemma touch_http_get: "keeps (pres A) (http_get env c u)"
  unfolding http_get_def by (intro touch_rules) (auto split: sum.split intro!: touch_rules)

lemma touch_download_loop:
  "p \<in> A \<Longrightarrow> keeps (pres A) (download_loop c p mx clen got prev bs fin)"
proof (induction bs arbitrary: got prev)
  case Nil
  then show ?case by (auto split: option.split intro!: touch_rules)
next
  case (Cons b bs)
  then show ?case
    by (auto intro!: touch_rules keeps_write keeps_now touch_mem save_job_pres append_event_pres)
qed

lemma touch_download: "p \<in> A \<Longrightarrow> keeps (pres A) (download cfg env c u p mx)"
  unfolding download_def
  by (auto split: sum.split intro!: touch_rules touch_http_get touch_download_loop keeps_mkdir_all
      keeps_open_trunc keeps_now keeps_sync touch_mem save_job_pres)

lemma touch_download_checksum: "p \<in> A \<Longrightarrow> keeps (pres A) (download_checksum cfg env c u p)"
  unfolding download_checksum_def
  by (auto split: sum.split intro!: touch_rules touch_http_get keeps_write_file)

lemma touch_download_phase:
  "sg_archive_part st \<in> A \<Longrightarrow> sg_archive st \<in> A \<Longrightarrow> sg_checksum st \<in> A \<Longrightarrow>
   keeps (pres A) (download_phase cfg env c check st)"
  unfolding download_phase_def
  by (intro touch_rules touch_mem touch_download keeps_rename touch_download_checksum)

lemma touch_verify_checksum: "keeps (pres A) (verify_checksum ul sha a k)"
  unfolding verify_checksum_def Let_def
  by (auto split: sum.split intro!: touch_rules keeps_read_file)

lemma touch_verify_phase: "keeps (pres A) (verify_phase env c st)"
  unfolding verify_phase_def by (intro touch_rules touch_mem touch_verify_checksum)

lemma touch_verify_version: "keeps (pres A) (verify_staged_version env p v)"
  unfolding verify_staged_version_def by (auto split: option.split intro!: touch_rules)

lemma touch_extract_binaries:
  "out \<in> A \<Longrightarrow> out @ ''.supervisor'' \<in> A \<Longrightarrow> keeps (pres A) (extract_binaries dec a out)"
  unfolding extract_binaries_def
  by (auto split: sum.split intro!: touch_rules keeps_read_file keeps_extract_loop)

lemma touch_extract_phase:
  "sg_staged_binary st \<in> A \<Longrightarrow> sg_staged_binary st @ ''.supervisor'' \<in> A \<Longrightarrow>
   keeps (pres A) (extract_phase env c st)"
  unfolding extract_phase_def case_prod_unfold
  by (intro touch_rules touch_mem touch_extract_binaries touch_verify_version)

text \<open>The digest and the target version of the job in memory.\<close>

definition digest_kept :: "'z svc_scheme \<Rightarrow> 'z svc_scheme \<Rightarrow> bool" where
  "digest_kept w w' \<longleftrightarrow> uj_checksum_sha256 (sv_mem w') = uj_checksum_sha256 (sv_mem w) \<and>
     uj_target_version (sv_mem w') = uj_target_version (sv_mem w)"

interpretation digest: frame_relation digest_kept
  by unfold_locales (auto simp: digest_kept_def)

lemma digest_rows: "keeps rows_kept m \<Longrightarrow> keeps digest_kept m"
  by (simp add: keeps_def rows_kept_def digest_kept_def)

lemma digest_os: "keeps os_only m \<Longrightarrow> keeps digest_kept m"
  by (intro digest_rows rows_os)

lemma digest_mem:
  "keeps digest_kept get_mem" "keeps digest_kept (mem_event c t)" "keeps digest_kept (save_mem c)"
  "keeps digest_kept (set_phase p)"
proof -
  show g: "keeps digest_kept get_mem" unfolding get_mem_def by (rule digest.keeps_get)
  show "keeps digest_kept (mem_event c t)"
    unfolding mem_event_def by (intro digest.keeps_rules g digest_rows rows_event)
  have "keeps digest_kept (save_system_update_job c j)" for j
    by (auto simp: keeps_def save_system_update_job_def db_exec_def db_def Let_def digest_kept_def)
  then show "keeps digest_kept (save_mem c)"
    unfolding save_mem_def save_def by (intro digest.keeps_rules g digest_rows [OF rows_event])
  show "keeps digest_kept (set_phase p)"
    by (simp add: keeps_def set_phase_def set_mem_def modify_def digest_kept_def)
qed

lemma only_write_extracted: "keeps os_only (write_extracted_binary h out)"
  unfolding write_extracted_binary_def by (intro only_rules only_calls)

lemma only_extract_loop: "keeps os_only (extract_loop out files tot found spath es)"
proof (induction out files tot found spath es rule: extract_loop.induct)
  case (3 out files tot found spath h rest)
  then show ?case by (auto split: sum.split intro!: only_rules only_write_extracted)
qed (auto intro: only_rules)

lemma only_extract_binaries: "keeps os_only (extract_binaries dec a out)"
  unfolding extract_binaries_def
  by (auto split: sum.split intro!: only_rules only_calls only_extract_loop)

text \<open>What the verification proves of the archive, and leaves in the job.\<close>

section \<open>Paths in a directory\<close>

lemma split_byte_snoc: "d \<notin> set n \<Longrightarrow> split_byte d (s @ d # n) = split_byte d s @ [n]"
proof (induction s)
  case Nil
  then show ?case by (simp add: split_byte_no_sep)
next
  case (Cons c s)
  obtain p ps where "split_byte d s = p # ps" by (metis neq_Nil_conv split_byte_nonempty)
  then show ?case using Cons by simp
qed

lemma clean_comps_snoc:
  assumes "d \<noteq> []" and "plain_comp n"
  shows "clean_comps (d @ slash # n) = clean_comps d @ [n]"
proof -
  have "is_abs (d @ slash # n) = is_abs d" using assms(1) by (cases d) (auto simp: is_abs_def has_prefix_def)
  moreover have "split_byte slash (d @ slash # n) = split_byte slash d @ [n]"
    using assms(2) by (intro split_byte_snoc) (simp add: plain_comp_def)
  ultimately show ?thesis using assms(2) by (simp add: clean_comps_def plain_comp_def)
qed

lemma join_with_snoc: "cs \<noteq> [] \<Longrightarrow> join_with sep (cs @ [n]) = join_with sep cs @ sep @ n"
  by (induction cs) (auto simp: join_with_Cons)

text \<open>Joining a plain name to a directory appends it to a text that depends on the directory only.\<close>

lemma path_join_plain:
  assumes "d \<noteq> []"
  shows "\<exists>pre. \<forall>n. plain_comp n \<longrightarrow> path_join [d, n] = pre @ n"
proof -
  let ?pre = "(if is_abs d then [slash] else []) @
    (if clean_comps d = [] then [] else join_with [slash] (clean_comps d) @ [slash])"
  have "path_join [d, n] = ?pre @ n" if "plain_comp n" for n
  proof -
    have "is_abs (d @ slash # n) = is_abs d" using assms by (cases d) (auto simp: is_abs_def has_prefix_def)
    then show ?thesis
      using assms clean_comps_snoc [OF assms that]
      by (auto simp: path_join.simps path_clean_def join_with_snoc Let_def)
  qed
  then show ?thesis by blast
qed

lemma path_clean_nonempty: "path_clean p \<noteq> []"
  using join_with_eq_Nil [of "[slash]" "clean_comps p"] clean_comps_nonempty_comp [of _ p]
  by (auto simp: path_clean_def Let_def)

lemma path_join_nonempty: "e \<noteq> [] \<Longrightarrow> path_join (e # es) \<noteq> []"
  by (simp add: path_join.simps path_clean_nonempty)

lemma staging_distinct:
  "distinct [sg_archive_part (staging_paths cfg jid), sg_archive (staging_paths cfg jid), sg_checksum (staging_paths cfg jid)]"
proof -
  have "path_join [cf_data_dir cfg, ''updates'', ''staging'', jid] \<noteq> []"
    by (cases "cf_data_dir cfg = []") (auto simp: path_join.simps path_clean_nonempty)
  then obtain pre where pre: "\<forall>n. plain_comp n \<longrightarrow> path_join [path_join [cf_data_dir cfg, ''updates'', ''staging'', jid], n] = pre @ n"
    using path_join_plain by blast
  have "plain_comp ''archive.tar.gz.part''" "plain_comp ''archive.tar.gz''" "plain_comp ''archive.tar.gz.sha256''" by code_simp+
  then show ?thesis by (simp add: staging_paths_def Let_def pre)
qed

section \<open>What the downloads leave on disk\<close>

lemma http_get_Inr: "http_get env c u w = (Inr b, w') \<Longrightarrow> (\<exists>n. ev_http env u n = Inr b) \<and> w' = w"
  by (auto simp: http_get_def bindE_Inr get_state_def ret_def split: sum.splits if_splits)

definition holds_data :: "string \<Rightarrow> string \<Rightarrow> 'z os_scheme \<Rightarrow> bool" where
  "holds_data p d w \<longleftrightarrow> map_option fi_data (os_fs w p) = Some d"

lemma holds_pres: "keeps (pres A) m \<Longrightarrow> m w = (r, w') \<Longrightarrow> p \<notin> A \<Longrightarrow> holds_data p d w \<Longrightarrow> holds_data p d w'"
  by (auto simp: holds_data_def dest: keepsD pres_lookup)

lemma download_loop_data:
  "download_loop c p mx clen got prev bs fin w = (Inr g, w') \<Longrightarrow> holds_data p d w \<Longrightarrow> holds_data p (d @ concat bs) w'"
proof (induction bs arbitrary: got prev w d)
  case Nil
  then show ?case by (auto simp: ret_def split: option.splits)
next
  case (Cons b bs)
  show ?case
  proof (cases "b = []")
    case True
    then show ?thesis using Cons by simp
  next
    case False
    from Cons.prems(1) False obtain w1 w2 where wr: "os_write p b w = (Inr (), w1)"
      and mem: "set_mem (\<lambda>j. j\<lparr>uj_bytes_downloaded := got + int (length b)\<rparr>) w1 = (Inr (), w2)"
      and rest: "bindE now (\<lambda>t. if 500000000 \<le> time_sub t prev \<or> got + int (length b) = clen then
             bindE now (\<lambda>t2. bindE get_mem (\<lambda>j. seqE (save_system_update_job c j)
            (seqE (append_event c (uj_id j) ''update.download.progress'')
                  (download_loop c p mx clen (got + int (length b)) t2 bs fin))))
           else download_loop c p mx clen (got + int (length b)) prev bs fin) w2 = (Inr g, w')"
      by (auto simp: seqE_Inr split: if_splits)
    from wr obtain i where "os_fs w p = Some i" "os_fs w1 p = Some (i\<lparr>fi_data := fi_data i @ b, fi_mtime := os_clock w (os_calls w)\<rparr>)"
      by (rule write_Inr) auto
    with Cons.prems(2) have "holds_data p (d @ b) w1" by (simp add: holds_data_def)
    then have h2: "holds_data p (d @ b) w2" using holds_pres [OF touch_mem(1) mem, of p "{}"] by blast
    have quiet: "keeps (pres {}) now" "keeps (pres {}) get_mem" "keeps (pres {}) (save_system_update_job c j)"
      "keeps (pres {}) (append_event c i ''update.download.progress'')" for j i
      by (intro keeps_now touch_mem save_job_pres append_event_pres)+
    from rest obtain t u where t: "now w2 = (Inr t, u)" and more: "(if 500000000 \<le> time_sub t prev \<or> got + int (length b) = clen then
             bindE now (\<lambda>t2. bindE get_mem (\<lambda>j. seqE (save_system_update_job c j)
            (seqE (append_event c (uj_id j) ''update.download.progress'')
                  (download_loop c p mx clen (got + int (length b)) t2 bs fin))))
           else download_loop c p mx clen (got + int (length b)) prev bs fin) u = (Inr g, w')"
      by (auto simp: bindE_Inr)
    have hu: "holds_data p (d @ b) u" using holds_pres [OF quiet(1) t _ h2] by simp
    have "\<exists>prev' w3. download_loop c p mx clen (got + int (length b)) prev' bs fin w3 = (Inr g, w') \<and> holds_data p (d @ b) w3"
    proof (cases "500000000 \<le> time_sub t prev \<or> got + int (length b) = clen")
      case True
      with more obtain t2 u1 j u2 u3 u4 where s: "now u = (Inr t2, u1)" "get_mem u1 = (Inr j, u2)"
          "save_system_update_job c j u2 = (Inr (), u3)" "append_event c (uj_id j) ''update.download.progress'' u3 = (Inr (), u4)"
          "download_loop c p mx clen (got + int (length b)) t2 bs fin u4 = (Inr g, w')"
        by (auto simp: bindE_Inr seqE_Inr)
      have "holds_data p (d @ b) u1" using holds_pres [OF quiet(1) s(1) _ hu] by simp
      then have "holds_data p (d @ b) u2" using holds_pres [OF quiet(2) s(2)] by simp
      then have "holds_data p (d @ b) u3" using holds_pres [OF quiet(3) s(3)] by simp
      then have "holds_data p (d @ b) u4" using holds_pres [OF quiet(4) s(4)] by simp
      then show ?thesis using s(5) by blast
    next
      case False
      then show ?thesis using more hu by auto
    qed
    then obtain prev' w3 where "download_loop c p mx clen (got + int (length b)) prev' bs fin w3 = (Inr g, w')" "holds_data p (d @ b) w3" by blast
    from Cons.IH [OF this] show ?thesis by simp
  qed
qed

lemma download_data:
  assumes "download cfg env c u p mx w = (Inr (), w')"
  shows "\<exists>n b. ev_http env u n = Inr b \<and> holds_data p (concat (hb_chunks b)) w'"
proof -
  from assms obtain b w0 w1 w2 w3 w4 t where get: "http_get env c u w = (Inr b, w0)"
    and opened: "os_open_trunc p 384 w1 = (Inr (), w2)" and now: "now w2 = (Inr t, w3)"
    and rest: "bindE (download_loop c p mx (hb_length b) 0 t (hb_chunks b) (hb_end b)) (\<lambda>got.
            seqE os_sync (seqE (set_mem (\<lambda>j. j\<lparr>uj_bytes_downloaded := got\<rparr>)) (bindE get_mem (save_system_update_job c)))) w3 = (Inr (), w')"
    unfolding download_def by (auto simp: bindE_Inr seqE_Inr split: sum.splits if_splits)
  from opened have "holds_data p [] w2" by (rule open_trunc_empty) (simp add: holds_data_def)
  then have "holds_data p [] w3" using holds_pres [OF keeps_now now, of p "{}"] by blast
  with rest obtain g w5 where "holds_data p (concat (hb_chunks b)) w5"
    "seqE os_sync (seqE (set_mem (\<lambda>j. j\<lparr>uj_bytes_downloaded := g\<rparr>)) (bindE get_mem (save_system_update_job c))) w5 = (Inr (), w')"
    using download_loop_data [where d = "[]"] by (fastforce simp: bindE_Inr)
  moreover have "keeps (pres {}) (seqE os_sync (seqE (set_mem (\<lambda>j. j\<lparr>uj_bytes_downloaded := g\<rparr>)) (bindE get_mem (save_system_update_job c))))"
    by (intro touch_rules keeps_sync touch_mem save_job_pres)
  ultimately have "holds_data p (concat (hb_chunks b)) w'" using holds_pres [of "{}"] by blast
  then show ?thesis using http_get_Inr [OF get] by blast
qed

lemma download_checksum_data:
  assumes "download_checksum cfg env c u p w = (Inr (), w')"
  shows "\<exists>n b. ev_http env u n = Inr b \<and> holds_data p (concat (hb_chunks b)) w'"
proof -
  from assms obtain b w0 w1 w2 where get: "http_get env c u w = (Inr b, w0)"
    and opened: "os_open_trunc p 384 w0 = (Inr (), w1)" and wr: "os_write p (concat (hb_chunks b)) w1 = (Inr (), w2)"
    and sync: "os_sync w2 = (Inr (), w')"
    unfolding download_checksum_def os_write_file_def by (auto simp: bindE_Inr seqE_Inr split: sum.splits if_splits)
  from opened have "holds_data p [] w1" by (rule open_trunc_empty) (simp add: holds_data_def)
  with wr have "holds_data p (concat (hb_chunks b)) w2" by (elim write_Inr) (auto simp: holds_data_def)
  then have "holds_data p (concat (hb_chunks b)) w'" using holds_pres [OF keeps_sync sync, of p "{}"] by blast
  then show ?thesis using http_get_Inr [OF get] by blast
qed

lemma download_phase_data:
  assumes "download_phase cfg env c check st w = (Inr (), w')" "distinct [sg_archive_part st, sg_archive st, sg_checksum st]"
  shows "\<exists>na nk ab kb. ev_http env (uc_asset_url check) na = Inr ab \<and> ev_http env (uc_checksum_asset_url check) nk = Inr kb \<and>
    holds_data (sg_archive st) (concat (hb_chunks ab)) w' \<and> holds_data (sg_checksum st) (concat (hb_chunks kb)) w'"
proof -
  from assms(1) obtain w0 w1 w2 w3 where
      dl: "download cfg env c (uc_asset_url check) (sg_archive_part st) max_archive_bytes w0 = (Inr (), w1)"
    and mv: "os_rename (sg_archive_part st) (sg_archive st) w1 = (Inr (), w2)"
    and ck: "download_checksum cfg env c (uc_checksum_asset_url check) (sg_checksum st) w2 = (Inr (), w3)"
    and ev: "mem_event c ''update.download.completed'' w3 = (Inr (), w')"
    unfolding download_phase_def by (auto simp: seqE_Inr)
  from download_data [OF dl] obtain na ab where ab: "ev_http env (uc_asset_url check) na = Inr ab"
    "holds_data (sg_archive_part st) (concat (hb_chunks ab)) w1" by blast
  have "holds_data (sg_archive st) (concat (hb_chunks ab)) w2"
    using mv ab(2) assms(2) by (auto simp: os_rename_def syscall_Inr holds_data_def split: option.splits if_splits)
  then have "holds_data (sg_archive st) (concat (hb_chunks ab)) w3"
    using holds_pres [OF touch_download_checksum ck, of "{sg_checksum st}" "sg_archive st"] assms(2) by simp
  moreover from download_checksum_data [OF ck] obtain nk kb where kb: "ev_http env (uc_checksum_asset_url check) nk = Inr kb"
    "holds_data (sg_checksum st) (concat (hb_chunks kb)) w3" by blast
  ultimately show ?thesis
    using holds_pres [OF touch_mem(3) ev, of "sg_archive st" "{}"] holds_pres [OF touch_mem(3) ev, of "sg_checksum st" "{}"] ab(1) kb by blast
qed

lemma verify_phase_Inr:
  assumes run: "verify_phase env c st w = (Inr (), w')" and da: "holds_data (sg_archive st) da w" and dk: "holds_data (sg_checksum st) dk w"
  shows "\<exists>want. holds_data (sg_archive st) da w' \<and> parse_sha256 (ev_lower env) dk = Inr want \<and>
    map lower_char (ev_sha env da) = map lower_char want \<and> uj_checksum_sha256 (sv_mem w') = ev_sha env da"
proof -
  from run obtain w0 w1 digest w2 where ph: "set_phase ''verifying'' w = (Inr (), w0)" and sv: "save_mem c w0 = (Inr (), w1)"
    and v: "verify_checksum (ev_lower env) (ev_sha env) (sg_archive st) (sg_checksum st) w1 = (Inr digest, w2)"
    and rest: "seqE (set_mem (\<lambda>j. j\<lparr>uj_checksum_sha256 := digest\<rparr>))
      (seqE (save_mem c) (mem_event c ''update.verify.completed'')) w2 = (Inr (), w')"
    unfolding verify_phase_def by (auto simp: seqE_Inr bindE_Inr)
  have at1: "holds_data p d w1" if "holds_data p d w" for p d
    using holds_pres [OF touch_mem(5) sv, of p "{}"] holds_pres [OF touch_mem(6) ph, of p "{}"] that by blast
  let ?w = "w2\<lparr>sv_mem := (sv_mem w2)\<lparr>uj_checksum_sha256 := digest\<rparr>\<rparr>"
  from rest have tail: "seqE (save_mem c) (mem_event c ''update.verify.completed'') ?w = (Inr (), w')"
    by (simp add: seqE_def bindE_def set_mem_def modify_def)
  from verify_checksum_Inr [OF v] at1 [OF da] at1 [OF dk] obtain want where
    want: "parse_sha256 (ev_lower env) dk = Inr want" "digest = ev_sha env da" "map lower_char digest = map lower_char want"
    by (auto simp: holds_data_def)
  have "holds_data (sg_archive st) da w2" using holds_pres [OF touch_verify_checksum v, of "sg_archive st" "{}"] at1 [OF da] by simp
  then have "holds_data (sg_archive st) da ?w" by (simp add: holds_data_def)
  moreover have quiet: "keeps (pres {}) (seqE (save_mem c) (mem_event c ''update.verify.completed''))"
    by (intro touch_rules touch_mem)
  ultimately have "holds_data (sg_archive st) da w'" using holds_pres [OF quiet tail] by blast
  moreover have "keeps digest_kept (seqE (save_mem c) (mem_event c ''update.verify.completed''))"
    by (intro digest.keeps_rules digest_mem)
  then have "digest_kept ?w w'" using tail by (rule keepsD)
  ultimately show ?thesis using want by (auto simp: digest_kept_def)
qed

text \<open>What the unpacking leaves on disk.\<close>

lemma extract_phase_Inr:
  assumes "extract_phase env c st w = (Inr s, w')" and "os_fs w (sg_archive st) = Some a"
  shows "digest_kept w w' \<and> (\<exists>hs i out. ev_decode env (fi_data a) = Inr (map Inr hs) \<and>
    filter is_main_entry hs \<noteq> [] \<and> os_fs w' (sg_staged_binary st) = Some i \<and>
    fi_data i = th_data (last (filter is_main_entry hs)) \<and>
    ev_run_version env (sg_staged_binary st) (os_fs w') = (None, out) \<and> contains out (uj_target_version (sv_mem w')))"
proof -
  from assms(1) obtain w1 m w2 w3 w4 where
    pre: "seqE (set_phase ''extracting'') (save_mem c) w = (Inr (), w1)"
    and ex: "extract_binaries (ev_decode env) (sg_archive st) (sg_staged_binary st) w1 = (Inr (m, s), w2)"
    and ver: "verify_staged_version env (sg_staged_binary st) (uj_target_version (sv_mem w2)) w2 = (Inr (), w3)"
    and ev: "mem_event c ''update.extract.completed'' w3 = (Inr (), w4)" and w4: "w4 = w'"
    unfolding extract_phase_def seqE_Inr bindE_Inr case_prod_unfold get_mem_def ret_Inr
    by (fastforce simp: get_state_def)
  have "keeps (pres {}) (seqE (set_phase ''extracting'') (save_mem c))" by (intro touch_rules touch_mem)
  then have "pres {} w w1" using pre by (rule keepsD)
  have "os_fs w1 (sg_archive st) = Some a"
    using pres_lookup [OF \<open>pres {} w w1\<close> _ assms(2)] by simp
  with extract_binaries_Inr [OF ex] obtain hs i where hs: "ev_decode env (fi_data a) = Inr (map Inr hs)"
    "filter is_main_entry hs \<noteq> []" "os_fs w2 (sg_staged_binary st) = Some i"
    "fi_data i = th_data (last (filter is_main_entry hs))" by auto
  obtain out where w3: "w3 = w2" and ok: "ev_run_version env (sg_staged_binary st) (os_fs w2) = (None, out)"
    "contains out (uj_target_version (sv_mem w2))"
    using ver by (auto simp: verify_staged_version_def bindE_Inr get_state_def ret_def
        split: option.splits if_splits prod.splits)
  have "os_fs w' = os_fs w2"
    using ev w3 w4 by (auto simp: mem_event_def get_mem_def append_event_def db_exec_def db_def prog_defs Let_def
        split: if_splits)
  moreover have k4: "digest_kept w2 w'" using keepsD [OF digest_mem(2) ev] w3 w4 by simp
  moreover have "keeps digest_kept (seqE (set_phase ''extracting'') (save_mem c))"
    by (intro digest.keeps_rules digest_mem)
  then have "digest_kept w w1" using pre by (rule keepsD)
  moreover have "digest_kept w1 w2" by (rule keepsD [OF digest_os [OF only_extract_binaries] ex])
  ultimately show ?thesis
    using hs ok by (auto simp: digest_kept_def intro: digest.frame_trans)
qed

text \<open>
  The staged binary is the last main-binary entry of an archive whose SHA-256, recorded in the job,
  is the published one, and it reports the job's target version.
\<close>

definition staged_verified :: "'z update_env \<Rightarrow> string \<Rightarrow> string \<Rightarrow> staging \<Rightarrow> 'z svc_scheme \<Rightarrow> bool" where
  "staged_verified env archive_url checksum_url st w \<longleftrightarrow>
     (\<exists>na nk ab kb content want hs i out.
        ev_http env archive_url na = Inr ab \<and> content = concat (hb_chunks ab) \<and>
        ev_http env checksum_url nk = Inr kb \<and> parse_sha256 (ev_lower env) (concat (hb_chunks kb)) = Inr want \<and>
        map lower_char (ev_sha env content) = map lower_char want \<and>
        uj_checksum_sha256 (sv_mem w) = ev_sha env content \<and>
        ev_decode env content = Inr (map Inr hs) \<and> filter is_main_entry hs \<noteq> [] \<and>
        os_fs w (sg_staged_binary st) = Some i \<and> fi_data i = th_data (last (filter is_main_entry hs)) \<and>
        ev_run_version env (sg_staged_binary st) (os_fs w) = (None, out) \<and>
        contains out (uj_target_version (sv_mem w)))"

text \<open>
  C5: Everything before the installation is confined and verified.  Download, verification and unpacking change no
  existing file but the five staging files at any crash point, whatever the server sends.  When they succeed, the
  bytes that the archive's URL answered have the SHA-256 named by the text that the checksum's URL answered, the job
  carries this digest, the staged binary is byte for byte the last main-binary entry of the archive decoded from
  those bytes, and run from that disk it reports the target version.
\<close>
theorem nothing_installed_unverified:
  assumes "seqE (download_phase cfg env c check (staging_paths cfg jid)) (seqE (verify_phase env c (staging_paths cfg jid))
    (extract_phase env c (staging_paths cfg jid))) w = (r, w')"
  shows "pres (staging_files (staging_paths cfg jid)) w w' \<and>
    (r \<in> range Inr \<longrightarrow> staged_verified env (uc_asset_url check) (uc_checksum_asset_url check) (staging_paths cfg jid) w')"
proof
  let ?st = "staging_paths cfg jid"
  have "keeps (pres (staging_files ?st)) (seqE (download_phase cfg env c check ?st)
      (seqE (verify_phase env c ?st) (extract_phase env c ?st)))"
    by (intro touch_rules touch_download_phase touch_verify_phase touch_extract_phase)
       (simp_all add: staging_files_def)
  then show "pres (staging_files ?st) w w'" using assms by (rule keepsD)
  show "r \<in> range Inr \<longrightarrow> staged_verified env (uc_asset_url check) (uc_checksum_asset_url check) ?st w'"
  proof
    assume "r \<in> range Inr"
    then obtain s where r: "r = Inr s" by auto
    from assms [unfolded r seqE_Inr] obtain w0 w1 where d: "download_phase cfg env c check ?st w = (Inr (), w0)"
      and v: "verify_phase env c ?st w0 = (Inr (), w1)" and x: "extract_phase env c ?st w1 = (Inr s, w')" by auto
    from download_phase_data [OF d staging_distinct] obtain na nk ab kb where
      http: "ev_http env (uc_asset_url check) na = Inr ab" "ev_http env (uc_checksum_asset_url check) nk = Inr kb"
      and data: "holds_data (sg_archive ?st) (concat (hb_chunks ab)) w0" "holds_data (sg_checksum ?st) (concat (hb_chunks kb)) w0" by blast
    from verify_phase_Inr [OF v data] obtain want where want: "holds_data (sg_archive ?st) (concat (hb_chunks ab)) w1"
      "parse_sha256 (ev_lower env) (concat (hb_chunks kb)) = Inr want"
      "map lower_char (ev_sha env (concat (hb_chunks ab))) = map lower_char want"
      "uj_checksum_sha256 (sv_mem w1) = ev_sha env (concat (hb_chunks ab))" by blast
    from want(1) obtain a where a: "os_fs w1 (sg_archive ?st) = Some a" "fi_data a = concat (hb_chunks ab)" by (auto simp: holds_data_def)
    from extract_phase_Inr [OF x a(1)] obtain hs i out where e: "digest_kept w1 w'" "ev_decode env (concat (hb_chunks ab)) = Inr (map Inr hs)"
      "filter is_main_entry hs \<noteq> []" "os_fs w' (sg_staged_binary ?st) = Some i" "fi_data i = th_data (last (filter is_main_entry hs))"
      "ev_run_version env (sg_staged_binary ?st) (os_fs w') = (None, out)" "contains out (uj_target_version (sv_mem w'))"
      unfolding a(2) by blast
    have "uj_checksum_sha256 (sv_mem w') = ev_sha env (concat (hb_chunks ab))" using e(1) want(4) by (simp add: digest_kept_def)
    with http want e show "staged_verified env (uc_asset_url check) (uc_checksum_asset_url check) ?st w'"
      unfolding staged_verified_def by blast
  qed
qed

definition sample_env :: "unit update_env" where
  "sample_env = \<lparr>ev_http = (\<lambda>_ _. Inl (ErrMsg ''connection refused'')), ev_release = (\<lambda>_ _. Inl (ErrMsg ''connection refused'')),
     ev_backup_db = sample_backup_db, ev_sha = id, ev_decode = (\<lambda>_. Inl (ErrMsg ''not gzip'')),
     ev_run_version = (\<lambda>_ _. (None, ''v1'')), ev_lower = id, ev_url_ok = (\<lambda>_. True),
     ev_safe_text = (\<lambda>s n. take n s)\<rparr>"

text \<open>A server with an archive of four bytes, its digest and a binary that reports \<^verbatim>\<open>v1\<close>.\<close>

definition serving_env :: "unit update_env" where
  "serving_env = sample_env\<lparr>ev_http := (\<lambda>u _. Inr \<lparr>hb_status = 200, hb_length = -1,
        hb_chunks = (if u = ''https://h/a'' then [''bi'', ''ts''] else [zeros64]), hb_end = None\<rparr>),
     ev_sha := (\<lambda>_. zeros64), ev_decode := (\<lambda>_. Inr sample_tar)\<rparr>"

definition serving_check :: update_check where
  "serving_check = offered_check\<lparr>uc_asset_url := ''https://h/a'', uc_checksum_asset_url := ''https://h/k''\<rparr>"

definition serving_svc :: svc where
  "serving_svc = stopped_svc\<lparr>os_fs := [''/d/updates/staging/j'' \<mapsto> sample_dir], sv_mem := empty_job\<lparr>uj_target_version := ''v1''\<rparr>\<rparr>"

lemma zeros_digest: "parse_sha256 id zeros64 = Inr zeros64"
proof -
  have "list_all graphic zeros64" "list_all hex_char zeros64" "list_all ascii zeros64"
    "map lower_char zeros64 = zeros64"
    by (simp_all add: zeros64_def list_all_iff graphic_def hex_char_def ascii_def lower_char_def)
  moreover have "length zeros64 = 64" "zeros64 \<noteq> []" by (simp_all add: zeros64_def)
  ultimately show ?thesis by (simp add: parse_sha256_def fields_graphic trim_space_graphic to_lower_def)
qed

lemma serving_paths: "staging_paths sample_cfg ''j'' =
  \<lparr>sg_dir = ''/d/updates/staging/j'', sg_archive_part = ''/d/updates/staging/j/archive.tar.gz.part'',
   sg_archive = ''/d/updates/staging/j/archive.tar.gz'', sg_checksum = ''/d/updates/staging/j/archive.tar.gz.sha256'',
   sg_staged_binary = ''/d/updates/staging/j/phantom-lancer''\<rparr>"
  by code_simp

lemma serving_facts: "validate_download_url (\<lambda>_. True) ''https://h/a'' False = Inr ()" "validate_download_url (\<lambda>_. True) ''https://h/k'' False = Inr ()"
  "path_dir ''/d/updates/staging/j/archive.tar.gz.part'' = ''/d/updates/staging/j''"
  "safe_tar_name ''phantom-lancer/bin/phantom-lancer'' = Inr release_binary_path" "contains ''v1'' ''v1''"
  by code_simp+

text \<open>A world in which nothing fails, with the kinds and the contents of its files.\<close>

definition serving :: "(string \<rightharpoonup> fkind \<times> string) \<Rightarrow> svc \<Rightarrow> bool" where
  "serving A w \<longleftrightarrow> (\<lambda>p. map_option (\<lambda>i. (fi_kind i, fi_data i)) (os_fs w p)) = A \<and> os_fault w = (\<lambda>_. False) \<and>
     os_clock w = (\<lambda>_. 0) \<and> uj_target_version (sv_mem w) = ''v1''"

lemma serving_file: "serving A w \<Longrightarrow> A p = Some (k, d) \<Longrightarrow> \<exists>i. os_fs w p = Some i \<and> fi_kind i = k \<and> fi_data i = d"
  by (auto simp: serving_def)

lemma serving_none: "serving A w \<Longrightarrow> A p = None \<Longrightarrow> os_fs w p = None"
  by (auto simp: serving_def)

abbreviation serves :: "(string \<rightharpoonup> fkind \<times> string) \<Rightarrow> (unit, 'a) svc_prog \<Rightarrow> ('a \<Rightarrow> svc \<Rightarrow> bool) \<Rightarrow> bool" where
  "serves A m Q \<equiv> triple (serving A) m Q (\<lambda>_ _. False)"

lemma serving_mem:
  "(\<And>j. uj_target_version (f j) = uj_target_version j) \<Longrightarrow> serves A (set_mem f) (\<lambda>_. serving A)"
  "serves A (set_phase p) (\<lambda>_. serving A)" "serves A (save_mem Background) (\<lambda>_. serving A)"
  "serves A (mem_event Background t) (\<lambda>_. serving A)" "serves A (bindE get_mem (save_system_update_job Background)) (\<lambda>_. serving A)"
  by (auto simp: triple_def serving_def set_mem_def set_phase_def modify_def save_mem_def save_def mem_event_def get_mem_def get_state_def
      save_system_update_job_def append_event_def db_exec_def db_def ctx_cancelled_def attempt_def seqE_def bindE_def ret_def Let_def)

lemma serving_disk: "serving A w \<Longrightarrow> (\<lambda>p. map_option (\<lambda>i. (fi_kind i, fi_data i)) (g p)) = B \<Longrightarrow>
    serving B (w\<lparr>os_calls := n, os_fs := g, os_hist := h\<rparr>)"
  by (simp add: serving_def)

lemma serving_syscall:
  assumes "\<And>w. serving A w \<Longrightarrow> \<exists>x g. op (os_fs w) = (Inr x, g) \<and> (\<forall>n h. Q x (w\<lparr>os_calls := n, os_fs := g, os_hist := h\<rparr>))"
  shows "serves A (syscall op) Q"
  unfolding triple_def
proof (intro allI impI)
  fix w assume w: "serving A w"
  from assms [OF w] obtain x g where op: "op (os_fs w) = (Inr x, g)" "\<And>n h. Q x (w\<lparr>os_calls := n, os_fs := g, os_hist := h\<rparr>)" by blast
  have "\<not> os_fault w (os_calls w)" using w by (simp add: serving_def)
  with op show "case syscall op w of (Inl e, w') \<Rightarrow> False | (Inr x, w') \<Rightarrow> Q x w'" by (simp add: syscall_def)
qed

lemma disk_upd:
  "(\<lambda>p. map_option (\<lambda>i. (fi_kind i, fi_data i)) (f p)) = A \<Longrightarrow>
   (\<lambda>p. map_option (\<lambda>i. (fi_kind i, fi_data i)) ((f(q \<mapsto> j)) p)) = A(q \<mapsto> (fi_kind j, fi_data j))"
  by auto

lemma serving_files:
  "A p = Some (Directory, d) \<Longrightarrow> serves A (os_mkdir_all p) (\<lambda>_. serving A)"
  "A p = None \<Longrightarrow> serves A (os_open_trunc p m) (\<lambda>_. serving (A(p \<mapsto> (Regular, []))))"
  "A p = Some (k, d) \<Longrightarrow> serves A (os_write p b) (\<lambda>_. serving (A(p \<mapsto> (k, d @ b))))"
  "A p = Some (k, d) \<Longrightarrow> serves A (os_chmod p m) (\<lambda>_. serving A)"
  "serves A os_sync (\<lambda>_. serving A)"
  "A p = Some (Regular, d) \<Longrightarrow> serves A (os_read_file p) (\<lambda>x w. x = d \<and> serving A w)"
  "A p = Some (Regular, d) \<Longrightarrow> A q = None \<Longrightarrow> p \<noteq> q \<Longrightarrow> serves A (os_rename p q) (\<lambda>_. serving (A(q \<mapsto> (Regular, d), p := None)))"
proof -
  note disk = serving_def fun_eq_iff
  show "A p = Some (Directory, d) \<Longrightarrow> serves A (os_mkdir_all p) (\<lambda>_. serving A)"
    unfolding os_mkdir_all_def by (rule serving_syscall, frule (1) serving_file) (auto simp: disk)
  show "A p = None \<Longrightarrow> serves A (os_open_trunc p m) (\<lambda>_. serving (A(p \<mapsto> (Regular, []))))"
    unfolding triple_def
    by (intro allI impI, frule (1) serving_none) (auto simp: os_open_trunc_def syscall_def Let_def disk)
  show "A p = Some (k, d) \<Longrightarrow> serves A (os_write p b) (\<lambda>_. serving (A(p \<mapsto> (k, d @ b))))"
    unfolding triple_def by (intro allI impI, frule (1) serving_file) (auto simp: os_write_def Let_def disk)
  show "A p = Some (k, d) \<Longrightarrow> serves A (os_chmod p m) (\<lambda>_. serving A)"
    unfolding triple_def by (intro allI impI, frule (1) serving_file) (auto simp: os_chmod_def syscall_def Let_def disk)
  show "serves A os_sync (\<lambda>_. serving A)"
    unfolding os_sync_def by (rule serving_syscall) (auto simp: disk)
  show "A p = Some (Regular, d) \<Longrightarrow> serves A (os_read_file p) (\<lambda>x w. x = d \<and> serving A w)"
    unfolding os_read_file_def by (rule serving_syscall, frule (1) serving_file) (auto simp: disk)
  show "A p = Some (Regular, d) \<Longrightarrow> A q = None \<Longrightarrow> p \<noteq> q \<Longrightarrow> serves A (os_rename p q) (\<lambda>_. serving (A(q \<mapsto> (Regular, d), p := None)))"
    unfolding triple_def by (intro allI impI, frule (1) serving_file, frule (1) serving_none) (auto simp: os_rename_def syscall_def Let_def disk)
qed

lemma serving_get:
  "ev_http env u = (\<lambda>_. Inr b) \<Longrightarrow> serves A (http_get env Background u) (\<lambda>x w. x = b \<and> serving A w)"
  by (auto simp: triple_def http_get_def bindE_def get_state_def ret_def ctx_cancelled_def)

lemma serving_now: "serves A now (\<lambda>t w. t = 0 \<and> serving A w)"
  by (auto simp: triple_def now_def get_state_def serving_def)

lemma serves_given: "(b \<Longrightarrow> serves A m Q) \<Longrightarrow> triple (\<lambda>w. b \<and> serving A w) m Q (\<lambda>_ _. False)"
  by (auto simp: triple_def)

abbreviation serving_body :: "string list \<Rightarrow> http_body" where
  "serving_body bs \<equiv> \<lparr>hb_status = 200, hb_length = -1, hb_chunks = bs, hb_end = None\<rparr>"

lemma download_loop_chunk:
  assumes "b \<noteq> []" "\<not> mx < got + int (length b)"
  shows "download_loop c p mx clen got prev (b # bs) fin =
    seqE (os_write p b) (seqE (set_mem (\<lambda>j. j\<lparr>uj_bytes_downloaded := got + int (length b)\<rparr>))
      (bindE now (\<lambda>t. if 500000000 \<le> time_sub t prev \<or> got + int (length b) = clen then
             bindE now (\<lambda>t2. bindE get_mem (\<lambda>j. seqE (save_system_update_job c j)
            (seqE (append_event c (uj_id j) ''update.download.progress'')
                  (download_loop c p mx clen (got + int (length b)) t2 bs fin))))
           else download_loop c p mx clen (got + int (length b)) prev bs fin)))"
  using assms by simp

lemma serving_loop:
  "A p = Some (Regular, d) \<Longrightarrow> 0 \<le> got \<Longrightarrow> got + int (length (concat bs)) \<le> mx \<Longrightarrow>
   serves A (download_loop Background p mx (-1) got 0 bs None) (\<lambda>_. serving (A(p \<mapsto> (Regular, d @ concat bs))))"
proof (induction bs arbitrary: got d A)
  case Nil
  then have "A(p \<mapsto> (Regular, d)) = A" by (auto simp: fun_eq_iff)
  then show ?case by (auto intro: triple_ret)
next
  case (Cons b bs)
  let ?A = "A(p \<mapsto> (Regular, d @ b))"
  have "serves ?A (download_loop Background p mx (-1) (got + int (length b)) 0 bs None) (\<lambda>_. serving (?A(p \<mapsto> (Regular, (d @ b) @ concat bs))))"
    by (rule Cons.IH) (use Cons.prems in simp_all)
  then have rest: "serves ?A (download_loop Background p mx (-1) (got + int (length b)) 0 bs None) (\<lambda>_. serving (A(p \<mapsto> (Regular, d @ concat (b # bs)))))"
    by (simp only: fun_upd_upd append_assoc concat.simps)
  show ?case
  proof (cases "b = []")
    case True
    have A: "?A = A" using Cons.prems(1) True by (auto simp: fun_eq_iff)
    have loop: "download_loop Background p mx (-1) got 0 (b # bs) None = download_loop Background p mx (-1) (got + int (length b)) 0 bs None"
      by (simp add: True)
    show ?thesis unfolding loop using rest unfolding A .
  next
    case False
    have time: "\<not> (500000000 \<le> time_sub 0 0 \<or> got + int (length b) = - 1)" using Cons.prems(2) by (simp add: time_sub_def min_int64_def max_int64_def)
    have step: "serves A (seqE (os_write p b) (seqE (set_mem (\<lambda>j. j\<lparr>uj_bytes_downloaded := got + int (length b)\<rparr>))
        (bindE now (\<lambda>t. if 500000000 \<le> time_sub t 0 \<or> got + int (length b) = - 1 then f t
           else download_loop Background p mx (-1) (got + int (length b)) 0 bs None)))) (\<lambda>_. serving (A(p \<mapsto> (Regular, d @ concat (b # bs)))))" for f
      by (rule triple_seqE [OF serving_files(3) [of A, OF Cons.prems(1)]], rule triple_seqE [OF serving_mem(1)], simp,
          rule triple_bindE [OF serving_now], rule serves_given) (use rest time in simp)
    have fits: "\<not> mx < got + int (length b)" using Cons.prems(3) by simp
    show ?thesis unfolding download_loop_chunk [OF False fits] by (rule step)
  qed
qed

lemma serving_download:
  assumes "ev_http env u = (\<lambda>_. Inr (serving_body bs))" "validate_download_url (ev_url_ok env) u (cf_allow_insecure cfg) = Inr ()"
    and "A (path_dir p) = Some (Directory, x)" "A p = None" "int (length (concat bs)) \<le> mx" "0 \<le> mx"
  shows "serves A (download cfg env Background u p mx) (\<lambda>_. serving (A(p \<mapsto> (Regular, concat bs))))"
proof -
  have "serves (A(p \<mapsto> (Regular, []))) (download_loop Background p mx (-1) 0 0 bs None) (\<lambda>_. serving (A(p \<mapsto> (Regular, concat bs))))"
    using serving_loop [of "A(p \<mapsto> (Regular, []))" p "[]" 0 bs mx] assms(5) by simp
  then have tail: "serves (A(p \<mapsto> (Regular, []))) (bindE (download_loop Background p mx (-1) 0 0 bs None) (\<lambda>got. seqE os_sync
      (seqE (set_mem (\<lambda>j. j\<lparr>uj_bytes_downloaded := got\<rparr>)) (bindE get_mem (save_system_update_job Background))))) (\<lambda>_. serving (A(p \<mapsto> (Regular, concat bs))))"
    by (rule triple_bindE, intro triple_seqE [OF serving_files(5)] triple_seqE [OF serving_mem(1)] serving_mem(5)) simp
  show ?thesis
    unfolding download_def assms(2) sum.case
    by (rule triple_bindE [OF serving_get [of env u, OF assms(1)]], rule serves_given)
      (use assms(6) in \<open>auto simp: whenE_def seqE_def [of "ret ()"] intro!: triple_seqE [OF serving_files(1) [of A, OF assms(3)]] triple_seqE [OF serving_files(2) [of A, OF assms(4)]]
        triple_bindE [OF serving_now] serves_given tail\<close>)
qed

lemma serving_checksum:
  assumes "ev_http env u = (\<lambda>_. Inr (serving_body bs))" "validate_download_url (ev_url_ok env) u (cf_allow_insecure cfg) = Inr ()"
    and "A p = None" "length (concat bs) \<le> max_checksum_bytes"
  shows "serves A (download_checksum cfg env Background u p) (\<lambda>_. serving (A(p \<mapsto> (Regular, concat bs))))"
proof -
  have "serves (A(p \<mapsto> (Regular, []))) (seqE (os_write p (concat bs)) os_sync) (\<lambda>_. serving ((A(p \<mapsto> (Regular, [])))(p \<mapsto> (Regular, [] @ concat bs))))"
    by (rule triple_seqE [OF serving_files(3) serving_files(5)]) simp
  then have "serves A (os_write_file p (concat bs) 384) (\<lambda>_. serving (A(p \<mapsto> (Regular, concat bs))))"
    unfolding os_write_file_def by (intro triple_seqE [OF serving_files(2) [of A, OF assms(3)]]) (simp only: fun_upd_upd append_Nil)
  then show ?thesis
    unfolding download_checksum_def assms(2) sum.case
    by (intro triple_bindE [OF serving_get [of env u, OF assms(1)]] serves_given) (use assms(4) in simp)
qed

abbreviation staged_dir :: "string \<rightharpoonup> fkind \<times> string" where
  "staged_dir \<equiv> [''/d/updates/staging/j'' \<mapsto> (Directory, [])]"

abbreviation staged_files :: "string \<rightharpoonup> fkind \<times> string" where
  "staged_files \<equiv> staged_dir(''/d/updates/staging/j/archive.tar.gz'' \<mapsto> (Regular, ''bits''),
     ''/d/updates/staging/j/archive.tar.gz.sha256'' \<mapsto> (Regular, zeros64))"

lemma serving_fields: "ev_http serving_env ''https://h/a'' = (\<lambda>_. Inr (serving_body [''bi'', ''ts'']))"
  "ev_http serving_env ''https://h/k'' = (\<lambda>_. Inr (serving_body [zeros64]))" "ev_url_ok serving_env = (\<lambda>_. True)"
  "cf_allow_insecure sample_cfg = False" "ev_lower serving_env = id" "ev_sha serving_env = (\<lambda>_. zeros64)"
  "ev_decode serving_env = (\<lambda>_. Inr sample_tar)" "ev_run_version serving_env = (\<lambda>_ _. (None, ''v1''))"
  "uc_asset_url serving_check = ''https://h/a''" "uc_checksum_asset_url serving_check = ''https://h/k''"
  by (simp_all add: serving_env_def sample_env_def sample_cfg_def serving_check_def)

lemma serving_download_phase:
  "serves staged_dir (download_phase sample_cfg serving_env Background serving_check (staging_paths sample_cfg ''j'')) (\<lambda>_. serving staged_files)"
proof -
  let ?part = "''/d/updates/staging/j/archive.tar.gz.part''" and ?archive = "''/d/updates/staging/j/archive.tar.gz''"
    and ?sum = "''/d/updates/staging/j/archive.tar.gz.sha256''"
  have dl: "serves staged_dir (download sample_cfg serving_env Background ''https://h/a'' ?part max_archive_bytes) (\<lambda>_. serving (staged_dir(?part \<mapsto> (Regular, ''bits''))))"
    using serving_download [of serving_env "''https://h/a''" "[''bi'', ''ts'']" sample_cfg staged_dir ?part "[]" max_archive_bytes]
    by (simp add: serving_fields serving_facts max_archive_bytes_def)
  have mv: "serves (staged_dir(?part \<mapsto> (Regular, ''bits''))) (os_rename ?part ?archive) (\<lambda>_. serving (staged_dir(?archive \<mapsto> (Regular, ''bits''))))"
    by (rule triple_conseq [OF serving_files(7) [of "staged_dir(?part \<mapsto> (Regular, ''bits''))" ?part "''bits''" ?archive]]) (simp_all add: fun_upd_twist)
  have ck: "serves (staged_dir(?archive \<mapsto> (Regular, ''bits''))) (download_checksum sample_cfg serving_env Background ''https://h/k'' ?sum) (\<lambda>_. serving staged_files)"
    using serving_checksum [of serving_env "''https://h/k''" "[zeros64]" sample_cfg "staged_dir(?archive \<mapsto> (Regular, ''bits''))" ?sum]
    by (simp add: serving_fields serving_facts max_checksum_bytes_def zeros64_def)
  show ?thesis
    unfolding download_phase_def serving_paths staging.simps serving_fields
    by (rule triple_seqE [OF serving_mem(2)], rule triple_seqE [OF serving_mem(3)], rule triple_seqE [OF serving_mem(4)],
        rule triple_seqE [OF dl], rule triple_seqE [OF mv], rule triple_seqE [OF ck], rule serving_mem(4))
qed

lemma serving_verify_phase:
  "serves staged_files (verify_phase serving_env Background (staging_paths sample_cfg ''j'')) (\<lambda>_. serving staged_files)"
proof -
  have vc: "serves staged_files (verify_checksum id (\<lambda>_. zeros64) ''/d/updates/staging/j/archive.tar.gz'' ''/d/updates/staging/j/archive.tar.gz.sha256'')
      (\<lambda>_. serving staged_files)"
    unfolding verify_checksum_def Let_def
    by (rule triple_bindE [OF serving_files(6) [where d = zeros64]], simp, rule serves_given,
        simp only: zeros_digest sum.case, rule triple_bindE [OF serving_files(6) [where d = "''bits''"]], simp, rule serves_given)
      (simp add: triple_ret)
  show ?thesis
    unfolding verify_phase_def serving_paths staging.simps serving_fields
    by (rule triple_seqE [OF serving_mem(2)], rule triple_seqE [OF serving_mem(3)], rule triple_bindE [OF vc],
        rule triple_seqE [OF serving_mem(1)], simp, rule triple_seqE [OF serving_mem(3)], rule serving_mem(4))
qed

lemma serving_extract_phase:
  "serves staged_files (extract_phase serving_env Background (staging_paths sample_cfg ''j'')) (\<lambda>_ _. True)"
proof -
  let ?out = "''/d/updates/staging/j/phantom-lancer''"
  let ?after = "staged_files(?out \<mapsto> (Regular, [] @ ''bin''))"
  have dir: "path_dir_raw ?out = ''/d/updates/staging/j''" by code_simp
  have mk: "serves staged_files (os_mkdir_all ''/d/updates/staging/j'') (\<lambda>_. serving staged_files)"
    by (rule serving_files(1)) simp
  have op: "serves staged_files (os_open_trunc ?out m) (\<lambda>_. serving (staged_files(?out \<mapsto> (Regular, []))))" for m
    by (rule serving_files(2)) simp
  have wb: "serves (staged_files(?out \<mapsto> (Regular, []))) (os_write ?out ''bin'') (\<lambda>_. serving ?after)"
    using serving_files(3) [of "staged_files(?out \<mapsto> (Regular, []))" ?out Regular "[]" "''bin''"] by (simp only: fun_upd_upd fun_upd_same)
  have ch: "serves ?after (os_chmod ?out m) (\<lambda>_. serving ?after)" for m
    by (rule serving_files(4)) simp
  have wr: "serves staged_files (write_extracted_binary \<lparr>th_name = n, th_flag = k, th_size = z, th_data = ''bin'', th_broken = False\<rparr> ?out)
      (\<lambda>_. serving ?after)" for n k z
    unfolding write_extracted_binary_def dir tar_header.simps if_False
    by (rule triple_seqE [OF mk], rule triple_seqE [OF op], rule triple_seqE [OF wb], rule triple_seqE [OF triple_ret [of "serving ?after"]],
        assumption, rule triple_seqE [OF ch serving_files(5)])
  have lp: "serves staged_files (extract_loop ?out 0 0 False [] sample_tar) (\<lambda>_. serving ?after)"
    using triple_seqE [OF wr triple_ret [of "serving ?after" "\<lambda>_. serving ?after" "[]"]]
    by (simp add: sample_tar_def serving_facts file_flag_def max_archive_bytes_def wrap64_def)
  have ex: "serves staged_files (extract_binaries (\<lambda>_. Inr sample_tar) ''/d/updates/staging/j/archive.tar.gz'' ?out) (\<lambda>_. serving ?after)"
    unfolding extract_binaries_def sum.case
    by (rule triple_bindE [OF serving_files(6) [where d = "''bits''"]], simp, rule serves_given, rule triple_bindE [OF lp]) (rule triple_ret)
  have mem: "serves A get_mem (\<lambda>j w. uj_target_version j = ''v1'' \<and> serving A w)" for A
    by (auto simp: triple_def get_mem_def get_state_def serving_def)
  have pre: "has_prefix ''v1'' ''v1''" by code_simp
  have ver: "serves A (verify_staged_version serving_env p ''v1'') (\<lambda>_. serving A)" for A p
    by (auto simp: triple_def verify_staged_version_def bindE_def get_state_def serving_fields serving_facts pre ret_def)
  show ?thesis
    unfolding extract_phase_def serving_paths staging.simps serving_fields case_prod_unfold
    by (rule triple_seqE [OF serving_mem(2)], rule triple_seqE [OF serving_mem(3)], rule triple_bindE [OF ex], rule triple_bindE [OF mem],
        rule serves_given, simp only:, rule triple_seqE [OF ver], rule triple_seqE [OF serving_mem(4)], rule triple_ret, rule TrueI)
qed

theorem nothing_installed_unverified_witness:
  "\<exists>s w. seqE (download_phase sample_cfg serving_env Background serving_check (staging_paths sample_cfg ''j''))
      (seqE (verify_phase serving_env Background (staging_paths sample_cfg ''j''))
        (extract_phase serving_env Background (staging_paths sample_cfg ''j''))) serving_svc = (Inr s, w) \<and>
    staged_verified serving_env ''https://h/a'' ''https://h/k'' (staging_paths sample_cfg ''j'') w"
proof -
  let ?m = "seqE (download_phase sample_cfg serving_env Background serving_check (staging_paths sample_cfg ''j''))
      (seqE (verify_phase serving_env Background (staging_paths sample_cfg ''j''))
        (extract_phase serving_env Background (staging_paths sample_cfg ''j'')))"
  have "serves staged_dir ?m (\<lambda>_ _. True)"
    by (rule triple_seqE [OF serving_download_phase triple_seqE [OF serving_verify_phase serving_extract_phase]])
  moreover have "serving staged_dir serving_svc"
    by (auto simp: serving_def serving_svc_def sample_dir_def stopped_svc_def sample_svc_def fun_eq_iff)
  ultimately obtain s w where run: "?m serving_svc = (Inr s, w)"
    by (cases "?m serving_svc"; cases "fst (?m serving_svc)") (auto simp: triple_def)
  with nothing_installed_unverified [OF run] show ?thesis by (auto simp: serving_fields)
qed

section \<open>The hand-off file\<close>

lemma handoff_tmp_other: "path_join [run_dir cfg, handoff_file_name @ ''.tmp''] \<noteq> handoff_path cfg"
proof -
  have "run_dir cfg \<noteq> []"
    by (cases "cf_data_dir cfg = []") (auto simp: run_dir_def path_join.simps path_clean_nonempty)
  then obtain pre where pre: "\<forall>n. plain_comp n \<longrightarrow> path_join [run_dir cfg, n] = pre @ n"
    using path_join_plain by blast
  have "plain_comp handoff_file_name" "plain_comp (handoff_file_name @ ''.tmp'')" by code_simp+
  then show ?thesis by (simp add: handoff_path_def pre)
qed

text \<open>The exact frame: every path outside \<open>A\<close>, missing or not, is the same at every crash point.\<close>

definition still :: "string set \<Rightarrow> 'z os_scheme \<Rightarrow> 'z os_scheme \<Rightarrow> bool" where
  "still A w w' \<longleftrightarrow> all_states w w' (\<lambda>g. \<forall>q. q \<notin> A \<longrightarrow> g q = os_fs w q)"

lemma still_trans: "still A u v \<Longrightarrow> still A v w \<Longrightarrow> still A u w"
proof -
  assume uv: "still A u v" and vw: "still A v w"
  have "\<forall>q. q \<notin> A \<longrightarrow> os_fs v q = os_fs u q" using all_states_final [OF uv [unfolded still_def]] .
  then have "all_states v w (\<lambda>g. \<forall>q. q \<notin> A \<longrightarrow> g q = os_fs u q)"
    using vw unfolding still_def by (elim all_states_mono) auto
  then show ?thesis
    using uv unfolding still_def by (blast intro: all_states_trans)
qed

interpretation still: frame_relation "still A"
  by unfold_locales (simp add: still_def all_states_refl, fact still_trans)

lemma still_syscall_state:
  assumes "\<And>w f q. q \<notin> A \<Longrightarrow> snd (op w f) q = f q"
  shows "keeps (still A) (\<lambda>w. syscall (op w) w)"
  using assms
  by (auto simp: keeps_def syscall_def still_def all_states_def Let_def case_prod_beta split: if_splits)

lemma still_syscall: "(\<And>f q. q \<notin> A \<Longrightarrow> snd (op f) q = f q) \<Longrightarrow> keeps (still A) (syscall op)"
  by (rule still_syscall_state)

lemma still_calls:
  shows still_remove: "keeps (still {p}) (os_remove p)"
    and still_remove_all: "keeps (still {p}) (os_remove_all p)"
    and still_open: "keeps (still {p}) (os_open_trunc p m)"
    and still_write: "keeps (still {p}) (os_write p s)"
    and still_sync: "keeps (still {p}) os_sync"
    and still_read: "keeps (still {p}) (os_open_read d)"
proof -
  show "keeps (still {p}) (os_remove p)" unfolding os_remove_def by (rule still_syscall) simp
  show "keeps (still {p}) (os_remove_all p)" unfolding os_remove_all_def by (rule still_syscall) simp
  show "keeps (still {p}) (os_open_trunc p m)"
    unfolding os_open_trunc_def by (rule still_syscall_state) (simp split: option.split)
  show "keeps (still {p}) (os_write p s)"
    by (auto simp: keeps_def os_write_def still_def all_states_def Let_def split: option.splits)
  show "keeps (still {p}) os_sync" unfolding os_sync_def by (rule still_syscall) simp
  show "keeps (still {p}) (os_open_read d)" unfolding os_open_read_def by (rule still_syscall) simp
qed

lemma still_safe:
  assumes "keeps (still {t}) m" and "t \<noteq> p" and "P (os_fs u p)"
  shows "crash_safe (\<lambda>f. P (f p)) (\<lambda>_ w1. P (os_fs w1 p)) m u"
proof -
  have "still {t} u (snd (m u))" using assms(1) by (simp add: keeps_def)
  then have "all_states u (snd (m u)) (\<lambda>f. P (f p))"
    unfolding still_def using assms(2,3) by (elim all_states_mono) auto
  then show ?thesis by (auto simp: crash_safe_def dest: all_states_final)
qed

lemma crash_safe_attempt:
  assumes "crash_safe P Q m w"
  shows "crash_safe P (\<lambda>_ w1. P (os_fs w1)) (attempt m) w"
  using assms by (auto simp: crash_safe_def attempt_def case_prod_beta dest: all_states_final)

lemma rename_safe:
  assumes "os_fs u t = Some i" and "P (Some i)" and "P (os_fs u p)" and "t \<noteq> p"
  shows "crash_safe (\<lambda>f. P (f p)) (\<lambda>_ w1. P (os_fs w1 p)) (os_rename t p) u"
proof -
  obtain r w1 where r: "os_rename t p u = (r, w1)" by fastforce
  have "P (os_fs w1 p)" using rename_cases [OF r assms(4)] assms by auto
  then show ?thesis
    using r rename_hist [OF r] by (auto simp: crash_safe_def all_states_def)
qed

definition handoff_tmp :: "update_cfg \<Rightarrow> string" where
  "handoff_tmp cfg = path_join [run_dir cfg, handoff_file_name @ ''.tmp'']"

text \<open>
  C12: The hand-off file is written atomically.  At every point where the process may crash the
  file is what it was before (or still missing), or it holds the complete new text: the supervisor
  never reads a torn hand-off.
\<close>
theorem handoff_written_atomically:
  fixes w :: "'z svc_scheme"
  assumes "write_handoff_file cfg text w = (r, w')"
  shows "all_states w w' (\<lambda>f. f (handoff_path cfg) = os_fs w (handoff_path cfg) \<or>
    (\<exists>i. f (handoff_path cfg) = Some i \<and> fi_data i = text))"
proof -
  let ?p = "handoff_path cfg" and ?t = "handoff_tmp cfg"
  have ne: "?t \<noteq> ?p" unfolding handoff_tmp_def by (rule handoff_tmp_other)
  define P where "P o1 \<longleftrightarrow> o1 = os_fs w (handoff_path cfg) \<or> (\<exists>i. o1 = Some i \<and> fi_data i = text)" for o1
  have still: "crash_safe (\<lambda>f. P (f ?p)) (\<lambda>_ w1. P (os_fs w1 ?p)) m u"
    if "keeps (still {?t}) m" "P (os_fs u ?p)" for m :: "('z, 'b) svc_prog" and u
    using that ne by (intro still_safe [where P = P and t = ?t])
  have body: "crash_safe (\<lambda>f. P (f ?p)) (\<lambda>_ w1. P (os_fs w1 ?p))
      (seqE (os_write ?t text) (seqE os_sync (seqE os_sync (seqE (os_rename ?t ?p) (fsync_dir (run_dir cfg)))))) u"
    if "os_fs u ?t = Some i" "fi_data i = []" "P (os_fs u ?p)" for i and u :: "'z svc_scheme"
  proof (rule crash_safe_seq [OF still [OF still_write that(3)]])
    fix x u1 assume w1: "os_write ?t text u = (Inr x, u1)" and P1: "P (os_fs u1 ?p)"
    from w1 that obtain j where j: "os_fs u1 ?t = Some j" "fi_data j = text"
      by (elim write_Inr) auto
    show "crash_safe (\<lambda>f. P (f ?p)) (\<lambda>_ w1. P (os_fs w1 ?p))
        (seqE os_sync (seqE os_sync (seqE (os_rename ?t ?p) (fsync_dir (run_dir cfg))))) u1"
    proof (rule crash_safe_seq [OF still [OF still_sync P1]])
      fix x u2 assume s2: "os_sync u1 = (Inr x, u2)" and P2: "P (os_fs u2 ?p)"
      show "crash_safe (\<lambda>f. P (f ?p)) (\<lambda>_ w1. P (os_fs w1 ?p))
          (seqE os_sync (seqE (os_rename ?t ?p) (fsync_dir (run_dir cfg)))) u2"
      proof (rule crash_safe_seq [OF still [OF still_sync P2]])
        fix x u3 assume s3: "os_sync u2 = (Inr x, u3)" and P3: "P (os_fs u3 ?p)"
        have t3: "os_fs u3 ?t = Some j" using j sync_Inr [OF s2] sync_Inr [OF s3] by simp
        show "crash_safe (\<lambda>f. P (f ?p)) (\<lambda>_ w1. P (os_fs w1 ?p))
            (seqE (os_rename ?t ?p) (fsync_dir (run_dir cfg))) u3"
        proof (rule crash_safe_seq [OF rename_safe [where P = P, OF t3 _ P3 ne]])
          show "P (Some j)" using j by (auto simp: P_def)
          show "crash_safe (\<lambda>f. P (f ?p)) (\<lambda>_ w1. P (os_fs w1 ?p)) (fsync_dir (run_dir cfg)) u4"
            if "P (os_fs u4 ?p)" for u4 :: "'z svc_scheme"
            unfolding fsync_dir_def using that
            by (intro still still.keeps_rules still_calls)
        qed
      qed
    qed
  qed
  have "crash_safe (\<lambda>f. P (f ?p)) (\<lambda>_ w1. P (os_fs w1 ?p)) (write_handoff_file cfg text) w"
    unfolding write_handoff_file_def Let_def handoff_tmp_def [symmetric]
  proof (rule crash_safe_bind [OF crash_safe_attempt [OF still [OF still_remove_all]]])
    show "P (os_fs w ?p)" by (simp add: P_def)
    fix x and u :: "'z svc_scheme" assume P: "P (os_fs u ?p)"
    show "crash_safe (\<lambda>f. P (f ?p)) (\<lambda>_ w1. P (os_fs w1 ?p))
       (bindE (attempt (os_open_trunc ?t 384)) (\<lambda>o1 :: goerr + unit. case o1 of
        Inl _ \<Rightarrow> ret ()
      | Inr _ \<Rightarrow>
          bindE (attempt (seqE (os_write ?t text) (seqE os_sync (seqE os_sync
            (seqE (os_rename ?t ?p) (fsync_dir (run_dir cfg))))))) (\<lambda>r :: goerr + unit. case r of
            Inl _ \<Rightarrow> ignore_error (os_remove ?t)
          | Inr _ \<Rightarrow> ret ()))) u"
    proof (rule crash_safe_bind [OF crash_safe_attempt [OF still [OF still_open P]]])
      fix o1 and u1 :: "'z svc_scheme" assume o1: "attempt (os_open_trunc ?t 384) u = (Inr o1, u1)" and P1: "P (os_fs u1 ?p)"
      show "crash_safe (\<lambda>f. P (f ?p)) (\<lambda>_ w1. P (os_fs w1 ?p)) (case o1 of
        Inl _ \<Rightarrow> ret ()
      | Inr _ \<Rightarrow>
          bindE (attempt (seqE (os_write ?t text) (seqE os_sync (seqE os_sync
            (seqE (os_rename ?t ?p) (fsync_dir (run_dir cfg))))))) (\<lambda>r :: goerr + unit. case r of
            Inl _ \<Rightarrow> ignore_error (os_remove ?t)
          | Inr _ \<Rightarrow> ret ())) u1"
      proof (cases o1)
        case (Inl e)
        then show ?thesis using P1 by (simp add: crash_safe_ret)
      next
        case (Inr y)
        with o1 have "os_open_trunc ?t 384 u = (Inr y, u1)" by (simp add: attempt_result)
        then obtain i where i: "os_fs u1 ?t = Some i" "fi_data i = []" by (elim open_trunc_empty) auto
        show ?thesis
          unfolding Inr sum.case
        proof (rule crash_safe_bind [OF crash_safe_attempt [OF body [OF i P1]]])
          fix r and u2 :: "'z svc_scheme" assume P2: "P (os_fs u2 ?p)"
          then show "crash_safe (\<lambda>f. P (f ?p)) (\<lambda>_ w1. P (os_fs w1 ?p))
            (case r of Inl _ \<Rightarrow> ignore_error (os_remove ?t) | Inr _ \<Rightarrow> ret ()) u2"
            unfolding ignore_error_def
            by (auto split: sum.split intro!: crash_safe_ret still still.keeps_rules still_calls)
        qed
      qed
    qed
  qed
  then show ?thesis using crash_safeD assms(1) unfolding P_def by fast
qed

theorem handoff_written_atomically_witness:
  "all_states sample_svc (snd (write_handoff_file sample_cfg ''{}'' sample_svc))
     (\<lambda>f. f (handoff_path sample_cfg) = os_fs sample_svc (handoff_path sample_cfg) \<or>
       (\<exists>i. f (handoff_path sample_cfg) = Some i \<and> fi_data i = ''{}''))"
  using handoff_written_atomically [OF prod.collapse [symmetric]] by blast

end
