(* ===== verification/Supervisor.thy ===== *)
theory Supervisor
  imports UpdateLife
begin

text \<open>
  \<^verbatim>\<open>internal/supervisor\<close>: the outer process that starts the service, restarts it with a back-off,
  and rolls a failing update back.  The processes are the environment record: \<open>se_spawn\<close> starts a
  child, \<open>se_flock\<close> answers \<^verbatim>\<open>flock\<close>.  One turn of the main loop is an \<open>iteration\<close>, which says what the
  outside world does in it (cancellation, how the child ended); the end of the script is a
  cancellation seen at the head of the loop.  Signals and sleeps are recorded in the state.
\<close>

section \<open>Configuration and state\<close>

record sup_cfg =
  sc_child_binary :: string
  sc_child_args :: "string list"
  sc_child_env :: "string list"
  sc_supervisor_pid_file :: string
  sc_child_pid_file :: string
  sc_lock_file :: string
  sc_log_file :: string
  sc_handoff_file :: string
  sc_min_delay :: duration
  sc_max_delay :: duration
  sc_stable_after :: duration
  sc_stop_timeout :: duration

datatype signal = SigTerm | SigKill

record sup = os +
  sp_fast_fail :: int
  sp_last_job :: string
  sp_lock :: bool
  sp_child :: "int option"
  sp_stopping :: bool
  sp_signals :: "(int \<times> signal) list"
  sp_delays :: "duration list"

type_synonym ('z, 'a) sup_prog = "('z sup_scheme, goerr, 'a) prog"

record sup_env =
  se_pid :: int
  se_environ :: "string list"
  se_abs :: "string \<Rightarrow> string option"
  se_flock :: "nat \<Rightarrow> goerr option"
  se_spawn :: "string \<Rightarrow> string list \<Rightarrow> string list \<Rightarrow> nat \<Rightarrow> goerr + int"

datatype wait_outcome =
    WaitOk
  | WaitExited int
  | WaitSignaled int
  | WaitOther int
  | WaitNoStatus int
  | WaitFailed

record child_exit =
  ce_pid :: int
  ce_exit_code :: int
  ce_signal :: int
  ce_uptime :: duration

record iteration =
  it_cancelled :: bool
  it_dies :: bool
  it_wait :: wait_outcome
  it_sleep_cancelled :: bool

definition apply_defaults :: "sup_cfg \<Rightarrow> sup_cfg" where
  "apply_defaults c =
     c\<lparr>sc_min_delay := (if sc_min_delay c \<le> 0 then second else sc_min_delay c),
       sc_max_delay := (if sc_max_delay c \<le> 0 then 30 * second else sc_max_delay c),
       sc_stable_after := (if sc_stable_after c \<le> 0 then 60 * second else sc_stable_after c),
       sc_stop_timeout := (if sc_stop_timeout c \<le> 0 then 10 * second else sc_stop_timeout c)\<rparr>"

definition validate_cfg :: "sup_env \<Rightarrow> sup_cfg \<Rightarrow> goerr + sup_cfg" where
  "validate_cfg env c =
     (if trim_space (sc_child_binary c) = [] then Inl (ErrMsg ''supervisor config: ChildBinary is required'')
      else if is_abs (sc_child_binary c) then Inr c
      else case se_abs env (sc_child_binary c) of None \<Rightarrow> Inr c | Some p \<Rightarrow> Inr (c\<lparr>sc_child_binary := p\<rparr>))"

definition new_supervisor :: "sup_env \<Rightarrow> sup_cfg \<Rightarrow> goerr + sup_cfg" where
  "new_supervisor env c = validate_cfg env (apply_defaults c)"

section \<open>Back-off\<close>

definition backoff_table :: "duration list" where
  "backoff_table = [1 * second, 2 * second, 5 * second, 10 * second, 30 * second]"

definition backoff_step :: "int \<Rightarrow> duration \<Rightarrow> duration \<Rightarrow> duration" where
  "backoff_step n mn mx =
     (if n \<le> 0 then 0
      else
        let idx = (if int (length backoff_table) \<le> n - 1 then length backoff_table - 1 else nat (n - 1));
            d = backoff_table ! idx;
            d1 = (if 0 < mn \<and> d < mn then mn else d)
        in if 0 < mx \<and> mx < d1 then mx else d1)"

record tracker =
  bt_min :: duration
  bt_max :: duration
  bt_stable :: duration
  bt_attempts :: int

definition next_delay :: "tracker \<Rightarrow> duration \<times> tracker" where
  "next_delay b =
     (let b' = b\<lparr>bt_attempts := wrap64 (bt_attempts b + 1)\<rparr>
      in (backoff_step (bt_attempts b') (bt_min b) (bt_max b), b'))"

definition observe_uptime :: "tracker \<Rightarrow> duration \<Rightarrow> tracker" where
  "observe_uptime b uptime =
     (let threshold = (if bt_stable b \<le> 0 then 60 * second else bt_stable b)
      in if threshold < uptime then b\<lparr>bt_attempts := 0\<rparr> else b)"

definition new_tracker :: "sup_cfg \<Rightarrow> tracker" where
  "new_tracker c = \<lparr>bt_min = sc_min_delay c, bt_max = sc_max_delay c, bt_stable = sc_stable_after c, bt_attempts = 0\<rparr>"

section \<open>Process id files and the lock\<close>

definition sup_fsync_dir :: "string \<Rightarrow> ('z, unit) os_prog" where
  "sup_fsync_dir dir = seqE (or_wrap ''open dir for fsync'' (os_open_read dir)) os_sync"

definition write_pid_file :: "string \<Rightarrow> int \<Rightarrow> ('z, unit) os_prog" where
  "write_pid_file path pid =
     (let tmp = path @ ''.tmp'' in
      seqE (or_wrap ''mkdir pid dir'' (os_mkdir_all (path_dir path)))
     (seqE (or_cleanup (os_remove tmp) ''write tmp pid file'' (os_write_file tmp (itoa pid @ [CHR 0x0A]) 384))
     (seqE (or_cleanup (os_remove tmp) ''rename pid file'' (os_rename tmp path))
           (sup_fsync_dir (path_dir path)))))"

definition remove_pid_file :: "string \<Rightarrow> ('z, unit) os_prog" where
  "remove_pid_file path =
     bindE (attempt (os_remove path)) (\<lambda>r :: goerr + unit. case r of
       Inr _ \<Rightarrow> ret ()
     | Inl e \<Rightarrow> if is_not_exist e then ret () else throw (ErrWrap ''remove pid file'' e))"

definition read_pid_file :: "string \<Rightarrow> ('z, int) os_prog" where
  "read_pid_file path =
     bindE (attempt (os_read_file path)) (\<lambda>r. case r of
       Inl e \<Rightarrow> if is_not_exist e then ret 0 else throw (ErrWrap ''read pid file'' e)
     | Inr raw \<Rightarrow> (case atoi (trim_space raw) of
          None \<Rightarrow> throw (ErrMsg ''parse pid file'')
        | Some pid \<Rightarrow> ret pid))"

text \<open>\<^verbatim>\<open>O_CREATE|O_RDWR\<close>: an existing file keeps its content; \<^verbatim>\<open>WriteAt\<close> offset 0; \<^verbatim>\<open>Truncate\<close>.\<close>

definition os_open_create :: "string \<Rightarrow> nat \<Rightarrow> ('z, unit) os_prog" where
  "os_open_create p mode = (\<lambda>w. syscall (\<lambda>f.
     case f p of
       Some i \<Rightarrow> if fi_kind i = Directory then (Inl EIO, f) else (Inr (), f)
     | None \<Rightarrow> (Inr (), f(p \<mapsto> \<lparr>fi_kind = Regular, fi_mode = mode, fi_uid = os_uid w, fi_gid = os_gid w,
                                fi_mtime = os_clock w (os_calls w), fi_data = []\<rparr>))) w)"

definition os_overwrite :: "string \<Rightarrow> string \<Rightarrow> ('z, unit) os_prog" where
  "os_overwrite p bytes = syscall (\<lambda>f. case f p of None \<Rightarrow> (Inl ENOENT, f)
     | Some i \<Rightarrow> (Inr (), f(p \<mapsto> i\<lparr>fi_data := bytes @ drop (length bytes) (fi_data i)\<rparr>)))"

definition os_truncate :: "string \<Rightarrow> nat \<Rightarrow> ('z, unit) os_prog" where
  "os_truncate p n = syscall (\<lambda>f. case f p of None \<Rightarrow> (Inl ENOENT, f)
     | Some i \<Rightarrow> (Inr (), f(p \<mapsto> i\<lparr>fi_data := take n (fi_data i)\<rparr>)))"

definition acquire_lock :: "sup_env \<Rightarrow> string \<Rightarrow> ('z, unit) os_prog" where
  "acquire_lock env path =
     seqE (or_wrap ''mkdir lock dir'' (os_mkdir_all (path_dir path)))
    (seqE (or_wrap ''open lock file'' (os_open_create path 384))
    (bindE (get_state (\<lambda>w. se_flock env (os_calls w))) (\<lambda>held. case held of
       Some e \<Rightarrow> bindE (attempt os_sync) (\<lambda>_ :: goerr + unit. throw (ErrWrap path e))
     | None \<Rightarrow>
         let payload = itoa (se_pid env) @ [CHR 0x0A] in
         bindE (attempt (os_overwrite path payload)) (\<lambda>r :: goerr + unit. case r of
           Inl _ \<Rightarrow> ret ()
         | Inr _ \<Rightarrow> bindE (attempt (os_truncate path (length payload))) (\<lambda>_ :: goerr + unit. ret ())))))"

section \<open>Reading the hand-off\<close>

definition handoff_fields :: "string list" where
  "handoff_fields = [''schemaVersion'', ''jobId'', ''source'', ''currentVersion'', ''targetVersion'',
     ''mainBinaryPath'', ''mainBackupPath'', ''supervisorBinaryPath'', ''supervisorBackupPath'',
     ''requestedAt'', ''restartTimeoutSeconds'']"

definition field_name :: "string \<Rightarrow> string option" where
  "field_name key =
     (if key \<in> set handoff_fields then Some key
      else List.find (\<lambda>n. fold_name n = fold_name key) handoff_fields)"

text \<open>A JSON value into a string or an integer field: null leaves it, another type is an error.\<close>

definition decode_str :: "json \<Rightarrow> (string \<Rightarrow> 'h) \<Rightarrow> 'h \<Rightarrow> 'h option" where
  "decode_str v put h = (case v of JStr s \<Rightarrow> Some (put s) | JNull \<Rightarrow> Some h | _ \<Rightarrow> None)"

definition decode_int :: "json \<Rightarrow> (int \<Rightarrow> 'h) \<Rightarrow> 'h \<Rightarrow> 'h option" where
  "decode_int v put h =
     (case v of JNum s \<Rightarrow> map_option put (atoi s) | JNull \<Rightarrow> Some h | _ \<Rightarrow> None)"

definition decode_field :: "handoff_file \<Rightarrow> string \<times> json \<Rightarrow> handoff_file option" where
  "decode_field h = (\<lambda>(key, v).
     case field_name key of
       None \<Rightarrow> Some h
     | Some n \<Rightarrow>
         if n = ''schemaVersion'' then decode_int v (\<lambda>x. h\<lparr>hf_schema_version := x\<rparr>) h
         else if n = ''jobId'' then decode_str v (\<lambda>x. h\<lparr>hf_job_id := x\<rparr>) h
         else if n = ''source'' then decode_str v (\<lambda>x. h\<lparr>hf_source := x\<rparr>) h
         else if n = ''currentVersion'' then decode_str v (\<lambda>x. h\<lparr>hf_current_version := x\<rparr>) h
         else if n = ''targetVersion'' then decode_str v (\<lambda>x. h\<lparr>hf_target_version := x\<rparr>) h
         else if n = ''mainBinaryPath'' then decode_str v (\<lambda>x. h\<lparr>hf_main_binary_path := x\<rparr>) h
         else if n = ''mainBackupPath'' then decode_str v (\<lambda>x. h\<lparr>hf_main_backup_path := x\<rparr>) h
         else if n = ''supervisorBinaryPath'' then decode_str v (\<lambda>x. h\<lparr>hf_supervisor_binary_path := x\<rparr>) h
         else if n = ''supervisorBackupPath'' then decode_str v (\<lambda>x. h\<lparr>hf_supervisor_backup_path := x\<rparr>) h
         else if n = ''requestedAt'' then decode_str v (\<lambda>x. h\<lparr>hf_requested_at := x\<rparr>) h
         else decode_int v (\<lambda>x. h\<lparr>hf_restart_timeout_sec := x\<rparr>) h)"

fun decode_fields :: "handoff_file \<Rightarrow> (string \<times> json) list \<Rightarrow> handoff_file option" where
  "decode_fields h [] = Some h"
| "decode_fields h (m # ms) = Option.bind (decode_field h m) (\<lambda>h'. decode_fields h' ms)"

definition empty_handoff :: handoff_file where
  "empty_handoff = \<lparr>hf_schema_version = 0, hf_job_id = [], hf_source = [], hf_current_version = [],
     hf_target_version = [], hf_main_binary_path = [], hf_main_backup_path = [], hf_supervisor_binary_path = [],
     hf_supervisor_backup_path = [], hf_requested_at = [], hf_restart_timeout_sec = 0\<rparr>"

definition decode_handoff :: "json \<Rightarrow> handoff_file option" where
  "decode_handoff v =
     (case v of JNull \<Rightarrow> Some empty_handoff | JObj ms \<Rightarrow> decode_fields empty_handoff ms | _ \<Rightarrow> None)"

definition supported_schema :: int where
  "supported_schema = 1"

definition read_handoff :: "string \<Rightarrow> ('z, handoff_file option) os_prog" where
  "read_handoff path =
     bindE (attempt (os_read_file path)) (\<lambda>r. case r of
       Inl e \<Rightarrow> if is_not_exist e then ret None else throw (ErrWrap ''read handoff file'' e)
     | Inr content \<Rightarrow>
         (case Option.bind (unmarshal content) decode_handoff of
            None \<Rightarrow> throw (ErrMsg ''parse handoff file'')
          | Some h \<Rightarrow>
              if hf_schema_version h < supported_schema then throw (ErrMsg ''handoff schema version is not supported'')
              else if supported_schema < hf_schema_version h then ret None
              else ret (Some h)))"

definition handoff_timeout :: "handoff_file \<Rightarrow> duration" where
  "handoff_timeout h =
     (if hf_restart_timeout_sec h \<le> 0 then 120 * second else wrap64 (hf_restart_timeout_sec h * second))"

definition is_expired :: "handoff_file \<Rightarrow> gtime \<Rightarrow> bool" where
  "is_expired h t =
     (case parse_rfc3339 (hf_requested_at h) of
        None \<Rightarrow> True
      | Some started \<Rightarrow> handoff_timeout h \<le> time_sub t started)"

definition remaining :: "handoff_file \<Rightarrow> gtime \<Rightarrow> duration" where
  "remaining h t =
     (case parse_rfc3339 (hf_requested_at h) of
        None \<Rightarrow> 0
      | Some started \<Rightarrow> wrap64 (handoff_timeout h - time_sub t started))"

section \<open>The roll-back after an exit\<close>

definition fast_fail_threshold :: int where
  "fast_fail_threshold = 3"

definition fast_fail_max_uptime :: duration where
  "fast_fail_max_uptime = 10 * second"

definition set_fast_fail :: "int \<Rightarrow> ('z, unit) sup_prog" where
  "set_fast_fail n = modify (\<lambda>w. w\<lparr>sp_fast_fail := n\<rparr>)"

definition no_handoff :: "('z, bool) sup_prog" where
  "no_handoff = seqE (modify (\<lambda>w. w\<lparr>sp_fast_fail := 0, sp_last_job := []\<rparr>)) (ret False)"

text \<open>The counter: a new job starts it again, a short run adds one, a long run clears it.\<close>

definition count_exit :: "handoff_file \<Rightarrow> duration \<Rightarrow> ('z, unit) sup_prog" where
  "count_exit h uptime = modify (\<lambda>w.
     let n = (if hf_job_id h \<noteq> sp_last_job w then 0 else sp_fast_fail w) in
     w\<lparr>sp_last_job := hf_job_id h, sp_fast_fail := (if uptime < fast_fail_max_uptime then wrap64 (n + 1) else 0)\<rparr>)"

definition restore_supervisor :: "handoff_file \<Rightarrow> ('z, unit) os_prog" where
  "restore_supervisor h =
     (if trim_space (hf_supervisor_binary_path h) = [] \<or> trim_space (hf_supervisor_backup_path h) = [] then ret ()
      else bindE (attempt (os_stat (hf_supervisor_backup_path h))) (\<lambda>s :: goerr + finfo. case s of
        Inl _ \<Rightarrow> ret ()
      | Inr i \<Rightarrow> if fi_kind i \<noteq> Regular then ret ()
                else bindE (attempt (restore_backup (hf_supervisor_binary_path h) (hf_supervisor_backup_path h)))
                       (\<lambda>_ :: goerr + unit. ret ())))"

definition handle_handoff_after_exit :: "sup_cfg \<Rightarrow> duration \<Rightarrow> ('z, bool) sup_prog" where
  "handle_handoff_after_exit cfg uptime =
     bindE (attempt (read_handoff (sc_handoff_file cfg))) (\<lambda>r :: goerr + handoff_file option. case r of
       Inl _ \<Rightarrow> no_handoff
     | Inr None \<Rightarrow> no_handoff
     | Inr (Some h) \<Rightarrow>
         seqE (count_exit h uptime)
        (bindE now (\<lambda>t.
         bindE (get_state (\<lambda>w. fast_fail_threshold \<le> sp_fast_fail w)) (\<lambda>fast_fail_hit.
         if \<not> fast_fail_hit \<and> \<not> is_expired h t then ret False
         else if hf_main_backup_path h = [] \<or> hf_main_binary_path h = [] then ret False
         else seqE (or_wrap ''restore backup'' (restore_backup (hf_main_binary_path h) (hf_main_backup_path h)))
             (seqE (restore_supervisor h)
             (seqE (set_fast_fail 0) (ret True)))))))"

section \<open>The child process\<close>

definition child_environment :: "sup_env \<Rightarrow> sup_cfg \<Rightarrow> string list" where
  "child_environment env cfg =
     se_environ env @ sc_child_env cfg @
     [''PL_UNDER_SUPERVISOR=1'', ''PL_SUPERVISOR_PID='' @ itoa (se_pid env)] @
     (if sc_log_file cfg \<noteq> [] then [''PL_SUPERVISOR_LOG_FILE='' @ sc_log_file cfg] else []) @
     (if sc_handoff_file cfg \<noteq> [] then [''PL_SUPERVISOR_HANDOFF_FILE='' @ sc_handoff_file cfg] else [])"

definition elapse :: "('z, unit) os_prog" where
  "elapse = modify (\<lambda>w. w\<lparr>os_calls := Suc (os_calls w)\<rparr>)"

text \<open>The process id and the start time of the new child.\<close>

definition start_child :: "sup_env \<Rightarrow> sup_cfg \<Rightarrow> ('z, int \<times> gtime) sup_prog" where
  "start_child env cfg =
     bindE (get_state (\<lambda>w. se_spawn env (sc_child_binary cfg) (sc_child_args cfg) (child_environment env cfg) (os_calls w)))
       (\<lambda>r. seqE elapse (case r of
          Inl e \<Rightarrow> throw (ErrWrap ''start child'' e)
        | Inr pid \<Rightarrow>
            bindE now (\<lambda>started.
            seqE (modify (\<lambda>w. w\<lparr>sp_child := Some pid\<rparr>))
           (seqE (whenE (sc_child_pid_file cfg \<noteq> [])
                   (bindE (attempt (write_pid_file (sc_child_pid_file cfg) pid)) (\<lambda>_ :: goerr + unit. ret ())))
                 (ret (pid, started))))))"

definition exit_of :: "wait_outcome \<Rightarrow> int \<times> int" where
  "exit_of o1 = (case o1 of
      WaitOk \<Rightarrow> (0, 0)
    | WaitExited n \<Rightarrow> (n, 0)
    | WaitSignaled s \<Rightarrow> (- 1, s)
    | WaitOther n \<Rightarrow> (n, 0)
    | WaitNoStatus n \<Rightarrow> (n, 0)
    | WaitFailed \<Rightarrow> (- 128, 0))"

definition wait_child :: "sup_cfg \<Rightarrow> int \<Rightarrow> gtime \<Rightarrow> wait_outcome \<Rightarrow> ('z, child_exit) sup_prog" where
  "wait_child cfg pid started outcome =
     seqE elapse
    (bindE now (\<lambda>exited.
     seqE (modify (\<lambda>w. w\<lparr>sp_child := None\<rparr>))
    (seqE (whenE (sc_child_pid_file cfg \<noteq> [])
            (bindE (attempt (remove_pid_file (sc_child_pid_file cfg))) (\<lambda>_ :: goerr + unit. ret ())))
          (ret \<lparr>ce_pid = pid, ce_exit_code = fst (exit_of outcome), ce_signal = snd (exit_of outcome),
               ce_uptime = time_sub exited started\<rparr>))))"

text \<open>SIGTERM to the child's group, and SIGKILL when it is still there after the poll.\<close>

definition stop_child :: "bool \<Rightarrow> ('z, unit) sup_prog" where
  "stop_child dies =
     bindE (get_state sp_child) (\<lambda>c. case c of
       None \<Rightarrow> ret ()
     | Some pid \<Rightarrow>
         seqE (modify (\<lambda>w. w\<lparr>sp_signals := (- pid, SigTerm) # sp_signals w\<rparr>))
         (whenE (\<not> dies) (modify (\<lambda>w. w\<lparr>sp_signals := (- pid, SigKill) # sp_signals w\<rparr>))))"

definition sleep_or_stop :: "duration \<Rightarrow> bool \<Rightarrow> ('z, bool) sup_prog" where
  "sleep_or_stop delay cancelled =
     seqE elapse
    (seqE (modify (\<lambda>w. w\<lparr>sp_delays := delay # sp_delays w\<rparr>)) (ret (\<not> cancelled)))"

section \<open>The main loop\<close>

definition bootstrap :: "sup_env \<Rightarrow> sup_cfg \<Rightarrow> ('z, unit) sup_prog" where
  "bootstrap env cfg =
     seqE (if sc_lock_file cfg = [] then ret ()
           else seqE (or_wrap ''acquire lock'' (acquire_lock env (sc_lock_file cfg)))
                     (modify (\<lambda>w. w\<lparr>sp_lock := True\<rparr>)))
      (if sc_supervisor_pid_file cfg = [] then ret ()
       else bindE (attempt (write_pid_file (sc_supervisor_pid_file cfg) (se_pid env))) (\<lambda>r :: goerr + unit. case r of
         Inr _ \<Rightarrow> ret ()
       | Inl e \<Rightarrow> seqE (modify (\<lambda>w. w\<lparr>sp_lock := False\<rparr>))
                      (throw (ErrWrap ''write supervisor pid file'' e))))"

fun run_loop :: "sup_env \<Rightarrow> sup_cfg \<Rightarrow> tracker \<Rightarrow> iteration list \<Rightarrow> ('z, unit) sup_prog" where
  "run_loop env cfg b [] = ret ()"
| "run_loop env cfg b (it # its) =
     bindE (attempt (start_child env cfg)) (\<lambda>r :: goerr + int \<times> gtime. case r of
       Inl _ \<Rightarrow>
         (let (d, b') = next_delay (observe_uptime b 0)
          in bindE (sleep_or_stop d (it_sleep_cancelled it)) (\<lambda>go.
             if go then run_loop env cfg b' its else ret ()))
     | Inr (pid, started) \<Rightarrow>
         if it_cancelled it then
           seqE (modify (\<lambda>w. w\<lparr>sp_stopping := True\<rparr>))
          (seqE (stop_child (it_dies it))
          (bindE (wait_child cfg pid started (it_wait it)) (\<lambda>_. ret ())))
         else
           bindE (wait_child cfg pid started (it_wait it)) (\<lambda>ce.
           bindE (get_state sp_stopping) (\<lambda>stopping.
           if stopping then ret ()
           else bindE (attempt (handle_handoff_after_exit cfg (ce_uptime ce))) (\<lambda>h :: goerr + bool.
             let rolled_back = (case h of Inl _ \<Rightarrow> False | Inr x \<Rightarrow> x);
                 (d, b') = next_delay (if rolled_back then new_tracker cfg else observe_uptime b (ce_uptime ce))
             in bindE (sleep_or_stop d (it_sleep_cancelled it)) (\<lambda>go.
                if go then run_loop env cfg b' its else ret ())))))"

text \<open>The first error of the clean-up is its result; every step runs.\<close>

definition cleanup_final :: "sup_cfg \<Rightarrow> ('z, goerr option) sup_prog" where
  "cleanup_final cfg =
     bindE (if sc_child_pid_file cfg = [] then ret (Inr ()) else attempt (remove_pid_file (sc_child_pid_file cfg)))
       (\<lambda>r1 :: goerr + unit.
     bindE (if sc_supervisor_pid_file cfg = [] then ret (Inr ()) else attempt (remove_pid_file (sc_supervisor_pid_file cfg)))
       (\<lambda>r2 :: goerr + unit.
     bindE (get_state sp_lock) (\<lambda>locked.
     bindE (if \<not> locked then ret (Inr ()) else attempt os_sync) (\<lambda>r3 :: goerr + unit.
     seqE (modify (\<lambda>w. w\<lparr>sp_lock := False\<rparr>))
          (ret (case r1 of Inl e \<Rightarrow> Some e | Inr _ \<Rightarrow>
                (case r2 of Inl e \<Rightarrow> Some e | Inr _ \<Rightarrow>
                (case r3 of Inl e \<Rightarrow> Some e | Inr _ \<Rightarrow> None))))))))"

definition supervise :: "sup_env \<Rightarrow> sup_cfg \<Rightarrow> iteration list \<Rightarrow> ('z, unit) sup_prog" where
  "supervise env cfg its =
     seqE (run_loop env cfg (new_tracker cfg) its) (bindE (cleanup_final cfg) (\<lambda>_. ret ()))"

end
