(* ===== verification/SupervisorLife.thy ===== *)
theory SupervisorLife
  imports Supervisor
begin

text \<open>
  The supervisor's promises: it reads back the hand-off the service wrote, restarts at a bounded
  pace, rolls back only an update that keeps failing or has run out of time, and leaves neither a
  child nor the lock behind.
\<close>

section \<open>The hand-off across the two processes\<close>

definition handoff_valid :: "handoff_file \<Rightarrow> bool" where
  "handoff_valid h \<longleftrightarrow> hf_schema_version h = supported_schema \<and>
     min_int64 \<le> hf_restart_timeout_sec h \<and> 0 \<le> hf_restart_timeout_sec h \<and> hf_restart_timeout_sec h \<le> max_int64 \<and>
     list_all (list_all ascii) [hf_job_id h, hf_source h, hf_current_version h, hf_target_version h,
       hf_main_binary_path h, hf_main_backup_path h, hf_supervisor_binary_path h, hf_supervisor_backup_path h,
       hf_requested_at h]"

lemma digit_chars:
  assumes "d < 10"
  shows "number_char (digit_char d)" "digit (digit_char d)" "digit_char d = CHR ''0'' \<longleftrightarrow> d = 0"
proof -
  have "list_all (\<lambda>d. number_char (digit_char d) \<and> digit (digit_char d) \<and> ((digit_char d = CHR ''0'') = (d = 0))) [0..<10]"
    by code_simp
  with assms show "number_char (digit_char d)" "digit (digit_char d)" "digit_char d = CHR ''0'' \<longleftrightarrow> d = 0"
    by (auto simp: list_all_iff)
qed

lemma nat_digits_list: "list_all (\<lambda>c. number_char c \<and> digit c) (nat_digits n)"
  unfolding list_all_iff using nat_digits_chars [of _ n] digit_chars by fastforce

lemma nat_digits_leading: "0 < n \<Longrightarrow> hd (nat_digits n) \<noteq> CHR ''0''"
proof (induction n rule: nat_digits.induct)
  case (1 n)
  then show ?case
    using digit_chars(3) [of n] by (subst nat_digits.simps) (auto simp: hd_append)
qed

lemma nat_digits_short: "length (nat_digits 0) = 1"
  by (subst nat_digits.simps) simp

lemma itoa_number:
  assumes "0 \<le> v"
  shows "valid_number (itoa v)" "list_all number_char (itoa v)"
proof -
  let ?s = "nat_digits (nat v)"
  have all: "list_all (\<lambda>c. number_char c \<and> digit c) ?s" by (rule nat_digits_list)
  obtain c t where ct: "?s = c # t" by (metis nat_digits_nonempty neq_Nil_conv)
  obtain d where d: "d < 10" "c = digit_char d" using nat_digits_chars [of c "nat v"] ct by auto
  have "takeWhile digit ?s = ?s" "dropWhile digit ?s = []"
    using all by (auto simp: list_all_iff)
  moreover have "hd ?s = CHR ''0'' \<longrightarrow> length ?s = 1"
    using nat_digits_leading [of "nat v"] nat_digits_short by (cases "nat v = 0") auto
  moreover have "c \<noteq> CHR ''-''" "digit c" using digit_char_not_sign digit_chars(2) d by auto
  moreover have "dropWhile digit t = []"
    using all ct by (auto simp: list_all_iff)
  ultimately show "valid_number (itoa v)"
    using assms ct by (auto simp: valid_number_def itoa_def valid_frac_def valid_exp_def Let_def
        simp del: dropWhile_eq_Nil_conv takeWhile_eq_all_conv split: if_splits)
  show "list_all number_char (itoa v)" using assms all by (auto simp: itoa_def list_all_iff)
qed

lemma wf_handoff_json: "handoff_valid h \<Longrightarrow> wf_json (handoff_json h)"
  using itoa_number [of "hf_restart_timeout_sec h"] itoa_number [of 1]
  by (auto simp: handoff_valid_def handoff_json_def supported_schema_def ascii_def)

lemma field_names:
  "field_name ''schemaVersion'' = Some ''schemaVersion''" "field_name ''jobId'' = Some ''jobId''"
  "field_name ''source'' = Some ''source''" "field_name ''currentVersion'' = Some ''currentVersion''"
  "field_name ''targetVersion'' = Some ''targetVersion''" "field_name ''mainBinaryPath'' = Some ''mainBinaryPath''"
  "field_name ''mainBackupPath'' = Some ''mainBackupPath''"
  "field_name ''supervisorBinaryPath'' = Some ''supervisorBinaryPath''"
  "field_name ''supervisorBackupPath'' = Some ''supervisorBackupPath''"
  "field_name ''requestedAt'' = Some ''requestedAt''"
  "field_name ''restartTimeoutSeconds'' = Some ''restartTimeoutSeconds''"
  by (simp_all add: field_name_def handoff_fields_def)

lemma decode_handoff_json:
  assumes "handoff_valid h"
  shows "decode_handoff (handoff_json h) = Some h"
proof -
  have "atoi (itoa (hf_schema_version h)) = Some (hf_schema_version h)"
    "atoi (itoa (hf_restart_timeout_sec h)) = Some (hf_restart_timeout_sec h)"
    using assms by (auto simp: handoff_valid_def supported_schema_def min_int64_def max_int64_def intro!: atoi_itoa)
  then show ?thesis
    by (cases h) (auto simp: decode_handoff_def handoff_json_def decode_field_def field_names decode_str_def
        decode_int_def empty_handoff_def)
qed

text \<open>
  C16: The supervisor reads back the hand-off exactly as the service wrote it: every field of a
  hand-off with ASCII texts and a non-negative 64-bit timeout survives the JSON text on disk.
\<close>
theorem handoff_read_back:
  fixes w :: "'z os_scheme"
  assumes "handoff_valid h" and "os_fs w path = Some i" and "fi_kind i = Regular"
    and "fi_data i = handoff_text h" and "\<not> os_fault w (os_calls w)"
  shows "fst (read_handoff path w) = Inr (Some h)"
proof -
  have "unmarshal (handoff_text h) = Some (handoff_json h)"
    unfolding handoff_text_def marshal_indent_def
    using wf_handoff_json [OF assms(1)] by (rule unmarshal_json_text)
  then show ?thesis
    using assms decode_handoff_json [OF assms(1)]
    by (simp add: read_handoff_def os_read_file_def syscall_def prog_defs handoff_valid_def Let_def)
qed

definition sample_handoff :: handoff_file where
  "sample_handoff = empty_handoff\<lparr>hf_schema_version := 1, hf_job_id := ''j'', hf_main_binary_path := ''/opt/pl'',
     hf_main_backup_path := ''/d/bak.x'', hf_restart_timeout_sec := 120\<rparr>"

theorem handoff_read_back_witness:
  "fst (read_handoff ''/h'' (sample_svc\<lparr>os_fs := [''/h'' \<mapsto> sample_file (handoff_text sample_handoff) 384 0]\<rparr>)) =
     Inr (Some sample_handoff)"
proof -
  have "handoff_valid sample_handoff" by code_simp
  then show ?thesis
    by (rule handoff_read_back [where i = "sample_file (handoff_text sample_handoff) 384 0"])
       (simp_all add: sample_file_def sample_svc_def)
qed

section \<open>The pace of restarts\<close>

lemma backoff_step_bounds:
  assumes "0 < n" and "0 < mn" and "mn \<le> mx"
  shows "mn \<le> backoff_step n mn mx \<and> backoff_step n mn mx \<le> mx"
  using assms by (auto simp: backoff_step_def Let_def)

lemma backoff_step_mono:
  assumes "n \<le> m"
  shows "backoff_step n mn mx \<le> backoff_step m mn mx"
proof (cases "n \<le> 0")
  case True
  have "0 \<le> backoff_table ! nat (m - 1)" if "nat (m - 1) < 5"
    using that by (auto simp: backoff_table_def nth_Cons split: nat.splits)
  then show ?thesis using True by (auto simp: backoff_step_def backoff_table_def Let_def)
next
  case False
  have tab: "sorted backoff_table" by (simp add: backoff_table_def)
  let ?i = "\<lambda>n. if int (length backoff_table) \<le> n - 1 then length backoff_table - 1 else nat (n - 1)"
  have "?i n \<le> ?i m" "?i m < length backoff_table"
    using assms False by (auto simp: backoff_table_def)
  then have "backoff_table ! ?i n \<le> backoff_table ! ?i m"
    using tab by (intro sorted_nth_mono)
  then show ?thesis using assms False by (auto simp: backoff_step_def Let_def)
qed

text \<open>What a run adds to the record of sleeps.\<close>

definition slept :: "(duration \<Rightarrow> bool) \<Rightarrow> 'z sup_scheme \<Rightarrow> 'z sup_scheme \<Rightarrow> bool" where
  "slept P w w' \<longleftrightarrow> (\<exists>ds. sp_delays w' = ds @ sp_delays w \<and> (\<forall>d \<in> set ds. P d))"

interpretation slept: frame_relation "slept P"
proof
  show "slept P w w" for w :: "'z sup_scheme" by (simp add: slept_def)
  show "slept P u w" if "slept P u v" "slept P v w" for u v w :: "'z sup_scheme"
  proof -
    from that obtain d1 d2 where "sp_delays v = d1 @ sp_delays u" "\<forall>d \<in> set d1. P d"
      "sp_delays w = d2 @ sp_delays v" "\<forall>d \<in> set d2. P d" by (auto simp: slept_def)
    then have "sp_delays w = (d2 @ d1) @ sp_delays u" "\<forall>d \<in> set (d2 @ d1). P d" by auto
    then show ?thesis unfolding slept_def by blast
  qed
qed

lemma os_only_sup:
  "os_only w w' \<Longrightarrow> sp_delays w' = sp_delays w \<and> sp_fast_fail w' = sp_fast_fail w \<and> sp_last_job w' = sp_last_job w \<and>
     sp_lock w' = sp_lock w \<and> sp_child w' = sp_child w \<and> sp_stopping w' = sp_stopping w \<and> sp_signals w' = sp_signals w"
  by (cases w; cases w') (simp add: os_only_def)

lemma slept_os: "keeps os_only m \<Longrightarrow> keeps (slept P) m"
  unfolding keeps_def slept_def using os_only_sup by (metis append_Nil empty_iff empty_set)

lemma only_elapse: "keeps os_only elapse"
  by (simp add: keeps_def elapse_def modify_def os_only_def)

lemma only_pid_files [only_calls]:
  "keeps os_only (write_pid_file p n)" "keeps os_only (remove_pid_file p)" "keeps os_only (read_pid_file p)"
proof -
  show "keeps os_only (write_pid_file p n)"
    unfolding write_pid_file_def sup_fsync_dir_def Let_def
    by (intro only_rules only_calls only_or_wrap only_or_cleanup)
  show "keeps os_only (remove_pid_file p)" "keeps os_only (read_pid_file p)"
    unfolding remove_pid_file_def read_pid_file_def
    by (auto split: sum.split option.split intro!: only_rules only_calls)
qed

lemma only_read_handoff: "keeps os_only (read_handoff p)"
  unfolding read_handoff_def by (auto split: sum.split option.split intro!: only_rules only_calls)

lemma only_restore_supervisor: "keeps os_only (restore_supervisor h)"
  unfolding restore_supervisor_def by (auto split: sum.split intro!: only_rules only_calls)

lemma slept_modify:
  "(\<And>w. sp_delays (f w) = sp_delays w) \<Longrightarrow> keeps (slept P) (modify f)"
  by (simp add: keeps_def modify_def slept_def)

lemma slept_rules_sleep: "P d \<Longrightarrow> keeps (slept P) (sleep_or_stop d c)"
proof -
  assume P: "P d"
  have "slept P w (w\<lparr>os_calls := Suc (os_calls w), sp_delays := d # sp_delays w\<rparr>)" for w :: "'a sup_scheme"
    using P unfolding slept_def by (intro exI [of _ "[d]"]) simp
  then show ?thesis by (simp add: keeps_def sleep_or_stop_def elapse_def prog_defs)
qed

lemmas slept_rules = slept.keeps_rules keeps_whenI

lemmas slept_parts =
  slept_os [OF only_elapse] slept_os [OF only_basic(1)] slept_os [OF only_pid_files(1)] slept_os [OF only_pid_files(2)]
  slept_os [OF only_or_wrap [OF only_restore]] slept_os [OF only_restore_supervisor] slept_os [OF only_read_handoff]

lemma slept_start: "keeps (slept P) (start_child env cfg)"
  unfolding start_child_def
  by (auto split: sum.split intro!: slept_rules slept_modify slept_parts)

lemma slept_wait: "keeps (slept P) (wait_child cfg pid started o1)"
  unfolding wait_child_def by (auto intro!: slept_rules slept_modify slept_parts)

lemma slept_stop: "keeps (slept P) (stop_child dies)"
  unfolding stop_child_def by (auto split: option.split intro!: slept_rules slept_modify)

lemma slept_handle: "keeps (slept P) (handle_handoff_after_exit cfg up)"
  unfolding handle_handoff_after_exit_def no_handoff_def set_fast_fail_def count_exit_def
  by (auto split: sum.split option.split intro!: slept_rules slept_modify slept_parts simp: Let_def)

definition pace_ok :: "sup_cfg \<Rightarrow> duration \<Rightarrow> bool" where
  "pace_ok cfg d \<longleftrightarrow> sc_min_delay cfg \<le> d \<and> d \<le> sc_max_delay cfg"

definition tracker_ok :: "sup_cfg \<Rightarrow> tracker \<Rightarrow> nat \<Rightarrow> bool" where
  "tracker_ok cfg b n \<longleftrightarrow> bt_min b = sc_min_delay cfg \<and> bt_max b = sc_max_delay cfg \<and> 0 \<le> bt_attempts b \<and>
     bt_attempts b + int n \<le> max_int64"

lemma tracker_ok_observe: "tracker_ok cfg b n \<Longrightarrow> tracker_ok cfg (observe_uptime b u) n"
  by (auto simp: tracker_ok_def observe_uptime_def Let_def)

lemma tracker_ok_new: "int n \<le> max_int64 \<Longrightarrow> tracker_ok cfg (new_tracker cfg) n"
  by (simp add: tracker_ok_def new_tracker_def)

lemma tracker_ok_next:
  assumes "tracker_ok cfg b (Suc n)" and "0 < sc_min_delay cfg" and "sc_min_delay cfg \<le> sc_max_delay cfg"
    and "next_delay b = (d, b')"
  shows "tracker_ok cfg b' n \<and> pace_ok cfg d"
proof -
  have "wrap64 (bt_attempts b + 1) = bt_attempts b + 1"
    using assms(1) by (intro wrap64_id) (auto simp: tracker_ok_def min_int64_def)
  then show ?thesis
    using assms backoff_step_bounds [of "bt_attempts b + 1" "sc_min_delay cfg" "sc_max_delay cfg"]
    by (auto simp: next_delay_def Let_def tracker_ok_def pace_ok_def)
qed

lemma slept_run_loop:
  assumes "0 < sc_min_delay cfg" and "sc_min_delay cfg \<le> sc_max_delay cfg"
  shows "tracker_ok cfg b (length its) \<Longrightarrow> keeps (slept (pace_ok cfg)) (run_loop env cfg b its :: ('z, unit) sup_prog)"
proof (induction its arbitrary: b)
  case Nil
  then show ?case by (simp add: slept.keeps_ret)
next
  case (Cons it its)
  have sleep: "keeps (slept (pace_ok cfg)) (sleep_or_stop d c :: ('z, bool) sup_prog)"
    and next_run: "keeps (slept (pace_ok cfg)) (run_loop env cfg b' its :: ('z, unit) sup_prog)"
    if "next_delay t = (d, b')" "tracker_ok cfg t (Suc (length its))" for t d b' c
    using tracker_ok_next [OF that(2) assms that(1)] by (auto intro: slept_rules_sleep Cons.IH)
  have tr: "tracker_ok cfg b (Suc (length its))" "tracker_ok cfg (new_tracker cfg) (Suc (length its))"
    using Cons.prems by (auto simp: tracker_ok_def new_tracker_def)
  show ?case
    unfolding run_loop.simps
    by (rule slept.keeps_bindE [OF slept.keeps_attempt [OF slept_start]])
       (auto split: sum.split prod.split
          intro!: slept_rules slept_modify slept_stop slept_wait slept_handle tr
          elim!: sleep next_run intro: tracker_ok_observe)
qed

text \<open>
  C18: Restarts neither spin nor stall.  Whatever the children do, every pause between two starts
  lies between the configured minimum and maximum delay, over any run the 64-bit counter can count.
\<close>
theorem restart_pace_bounded:
  assumes "new_supervisor env cfg0 = Inr cfg" and "supervise env cfg its w = (r, w')"
    and "sc_min_delay cfg \<le> sc_max_delay cfg" and "int (length its) \<le> max_int64"
  shows "\<exists>ds. sp_delays w' = ds @ sp_delays w \<and> (\<forall>d \<in> set ds. sc_min_delay cfg \<le> d \<and> d \<le> sc_max_delay cfg)"
proof -
  have "0 < sc_min_delay cfg"
    using assms(1) by (auto simp: new_supervisor_def validate_cfg_def apply_defaults_def split: if_splits option.splits)
  then have "keeps (slept (pace_ok cfg)) (run_loop env cfg (new_tracker cfg) its)"
    using assms(3,4) by (intro slept_run_loop tracker_ok_new)
  moreover have "keeps (slept (pace_ok cfg)) (cleanup_final cfg)"
    unfolding cleanup_final_def
    by (auto intro!: slept_rules slept_modify slept_parts slept_os [OF only_basic(12)])
  ultimately have "keeps (slept (pace_ok cfg)) (supervise env cfg its)"
    unfolding supervise_def by (intro slept_rules)
  then have "slept (pace_ok cfg) w w'" using assms(2) by (rule keepsD)
  then show ?thesis by (simp add: slept_def pace_ok_def)
qed

definition sample_sup_env :: sup_env where
  "sample_sup_env = \<lparr>se_pid = 7, se_environ = [], se_abs = Some, se_flock = (\<lambda>_. None),
     se_spawn = (\<lambda>_ _ _ n. if n = 0 then Inl (ErrMsg ''exec format error'') else Inr 9)\<rparr>"

definition sample_sup_cfg :: sup_cfg where
  "sample_sup_cfg = apply_defaults \<lparr>sc_child_binary = ''/opt/pl'', sc_child_args = [], sc_child_env = [],
     sc_supervisor_pid_file = [], sc_child_pid_file = [], sc_lock_file = [], sc_log_file = [],
     sc_handoff_file = ''/h'', sc_min_delay = 0, sc_max_delay = 0, sc_stable_after = 0, sc_stop_timeout = 0\<rparr>"

definition sample_sup :: sup where
  "sample_sup = \<lparr>os_fs = [''/opt'' \<mapsto> sample_dir, ''/opt/pl'' \<mapsto> sample_file ''old'' 493 1, ''/d/bak.x'' \<mapsto> sample_file ''good'' 493 1,
       ''/h'' \<mapsto> sample_file (handoff_text sample_handoff) 384 0],
     os_fault = (\<lambda>_. False), os_short = (\<lambda>_. 0), os_rand = (\<lambda>_. ''r''), os_clock = int,
     os_uid = 0, os_gid = 0, os_names = [], os_calls = 0, os_hist = [], sp_fast_fail = 2, sp_last_job = ''j'',
     sp_lock = True, sp_child = None, sp_stopping = False, sp_signals = [], sp_delays = []\<rparr>"

definition sample_iterations :: "iteration list" where
  "sample_iterations =
     [\<lparr>it_cancelled = False, it_dies = True, it_wait = WaitExited 1, it_sleep_cancelled = False\<rparr>,
      \<lparr>it_cancelled = False, it_dies = True, it_wait = WaitExited 1, it_sleep_cancelled = True\<rparr>]"

lemma sample_sup_valid: "new_supervisor sample_sup_env sample_sup_cfg = Inr sample_sup_cfg"
  by code_simp

theorem restart_pace_bounded_witness:
  "\<exists>ds. sp_delays (snd (supervise sample_sup_env sample_sup_cfg sample_iterations sample_sup)) = ds \<and>
     (\<forall>d \<in> set ds. 1000000000 \<le> d \<and> d \<le> 30000000000)"
  using restart_pace_bounded [OF sample_sup_valid prod.collapse [symmetric], of sample_iterations sample_sup]
  by (simp add: sample_sup_cfg_def apply_defaults_def sample_iterations_def max_int64_def sample_sup_def)

section \<open>When a roll-back happens\<close>

text \<open>
  C17: The supervisor rolls back only a failing update.  A roll-back is reported only when a
  readable hand-off names both paths and its time is over or this is at least the third short exit
  in a row of that job; then the main binary's restore from the backup succeeded, and the counter
  starts again.
\<close>
theorem rollback_only_on_failure:
  fixes w w' :: "'z sup_scheme"
  assumes "handle_handoff_after_exit cfg uptime w = (Inr True, w')"
  shows "\<exists>h w1 (w2 :: 'z sup_scheme) w3. read_handoff (sc_handoff_file cfg) w = (Inr (Some h), w1) \<and>
    hf_main_backup_path h \<noteq> [] \<and> hf_main_binary_path h \<noteq> [] \<and>
    (is_expired h (os_clock w1 (os_calls w1)) \<or>
     uptime < fast_fail_max_uptime \<and> sp_last_job w = hf_job_id h \<and> 3 \<le> wrap64 (sp_fast_fail w + 1)) \<and>
    os_fs w2 = os_fs w \<and> restore_backup (hf_main_binary_path h) (hf_main_backup_path h) w2 = (Inr (), w3) \<and>
    sp_fast_fail w' = 0 \<and> sp_last_job w' = hf_job_id h"
proof -
  obtain r w1 where r: "read_handoff (sc_handoff_file cfg) w = (r, w1)" by fastforce
  have same: "sp_fast_fail w1 = sp_fast_fail w" "sp_last_job w1 = sp_last_job w"
    using os_only_sup [OF keepsD [OF only_read_handoff r]] by auto
  have fs: "os_fs w1 = os_fs w"
    using r by (auto simp: read_handoff_def os_read_file_def syscall_def prog_defs Let_def
        split: if_splits option.splits sum.splits)
  from assms r obtain h where h: "r = Inr (Some h)"
    by (auto simp: handle_handoff_after_exit_def no_handoff_def prog_defs split: sum.splits option.splits)
  let ?n = "(if uptime < fast_fail_max_uptime then wrap64 ((if hf_job_id h \<noteq> sp_last_job w then 0 else sp_fast_fail w) + 1) else 0)"
  let ?w = "w1\<lparr>sp_last_job := hf_job_id h, sp_fast_fail := ?n\<rparr>"
  have count: "count_exit h uptime w1 = (Inr (), ?w)"
    by (simp add: count_exit_def modify_def same Let_def)
  from assms r h count have rest: "(if \<not> fast_fail_threshold \<le> ?n \<and> \<not> is_expired h (os_clock w1 (os_calls w1)) then ret False
         else if hf_main_backup_path h = [] \<or> hf_main_binary_path h = [] then ret False
         else seqE (or_wrap ''restore backup'' (restore_backup (hf_main_binary_path h) (hf_main_backup_path h)))
             (seqE (restore_supervisor h)
             (seqE (set_fast_fail 0) (ret True)))) ?w = (Inr True, w')"
    by (simp add: handle_handoff_after_exit_def attempt_def bindE_def seqE_def now_def get_state_def)
  then have why: "fast_fail_threshold \<le> ?n \<or> is_expired h (os_clock w1 (os_calls w1))"
    and paths: "hf_main_backup_path h \<noteq> [] \<and> hf_main_binary_path h \<noteq> []"
    by (auto simp: ret_def split: if_splits)
  with rest obtain w3 w4 where main: "restore_backup (hf_main_binary_path h) (hf_main_backup_path h) ?w = (Inr (), w3)"
    and sup: "restore_supervisor h w3 = (Inr (), w4)" and w': "w' = w4\<lparr>sp_fast_fail := 0\<rparr>"
    by (auto simp: seqE_Inr or_wrap_Inr set_fast_fail_def modify_def ret_def split: if_splits)
  have job: "sp_last_job w4 = hf_job_id h"
    using os_only_sup [OF keepsD [OF only_restore main]] os_only_sup [OF keepsD [OF only_restore_supervisor sup]] by simp
  have "is_expired h (os_clock w1 (os_calls w1)) \<or>
     uptime < fast_fail_max_uptime \<and> sp_last_job w = hf_job_id h \<and> 3 \<le> wrap64 (sp_fast_fail w + 1)"
    using why by (auto simp: fast_fail_threshold_def wrap64_def split: if_splits)
  moreover have "os_fs ?w = os_fs w" using fs by simp
  moreover have "sp_fast_fail w' = 0" "sp_last_job w' = hf_job_id h" using w' job by simp_all
  ultimately show ?thesis using r h paths main by blast
qed

lemma sample_sup_paths:
  "path_dir ''/opt/pl'' = ''/opt''" "restore_tmp ''/opt/pl'' = ''/opt/.phantom-lancer.rollback.tmp''"
  "path_join [''/opt'', ''.phantom-lancer-write-test-r''] = ''/opt/.phantom-lancer-write-test-r''"
  "trim_space ''/opt/pl'' = ''/opt/pl''" "trim_space ''/d/bak.x'' = ''/d/bak.x''"
  "perm (sample_file ''good'' 493 1) AND 73 = 73"
  by code_simp+

lemma sample_restore_runs:
  "fst (restore_backup ''/opt/pl'' ''/d/bak.x'' (sample_sup\<lparr>os_calls := n, os_hist := hs, sp_last_job := j,
     sp_fast_fail := k\<rparr>)) = Inr ()"
  by (simp add: restore_backup_def sample_sup_paths validate_backup_binary_def or_wrap_def or_cleanup_def os_stat_def
      syscall_def prog_defs sample_sup_def Let_def ensure_writable_dir_def os_create_temp_def os_remove_def os_sync_def
      sample_dir_def swap_in_def copy_file_def os_open_read_def os_open_trunc_def os_copy_data_def os_chmod_def
      preserve_ownership_def os_chown_def os_rename_def fsync_dir_def perm_def sample_file_def)

lemma sample_rollback_runs: "fst (handle_handoff_after_exit sample_sup_cfg 5 sample_sup) = Inr True"
proof -
  have h: "unmarshal (handoff_text sample_handoff) = Some (handoff_json sample_handoff)"
    unfolding handoff_text_def marshal_indent_def
    by (rule unmarshal_json_text, rule wf_handoff_json) code_simp
  have d: "decode_handoff (handoff_json sample_handoff) = Some sample_handoff"
    by (rule decode_handoff_json) code_simp
  let ?w = "sample_sup\<lparr>os_calls := 1, os_hist := [os_fs sample_sup]\<rparr>"
  have r: "read_handoff ''/h'' sample_sup = (Inr (Some sample_handoff), ?w)"
    by (simp add: read_handoff_def os_read_file_def syscall_def prog_defs sample_sup_def sample_file_def h d
        supported_schema_def Let_def) (simp add: sample_handoff_def)
  let ?v = "sample_sup\<lparr>os_calls := 1, os_hist := [os_fs sample_sup], sp_last_job := ''j'', sp_fast_fail := 3\<rparr>"
  have c: "count_exit sample_handoff 5 ?w = (Inr (), ?v)"
    by (simp add: count_exit_def modify_def fast_fail_max_uptime_def sample_handoff_def sample_sup_def Let_def)
       (simp add: wrap64_def)
  obtain w3 where m: "restore_backup ''/opt/pl'' ''/d/bak.x'' ?v = (Inr (), w3)"
    using sample_restore_runs [where n = 1 and hs = "[os_fs sample_sup]" and j = "''j''" and k = 3] by (metis prod.collapse)
  have s: "restore_supervisor sample_handoff w3 = (Inr (), w3)"
    by (simp add: ret_def restore_supervisor_def sample_handoff_def empty_handoff_def)
  have "sc_handoff_file sample_sup_cfg = ''/h''" by (simp add: sample_sup_cfg_def apply_defaults_def)
  moreover have "hf_main_binary_path sample_handoff = ''/opt/pl''" "hf_main_backup_path sample_handoff = ''/d/bak.x''"
    by (simp_all add: sample_handoff_def)
  moreover have "fast_fail_threshold \<le> sp_fast_fail ?v" by (simp add: fast_fail_threshold_def)
  ultimately show ?thesis
    using r c m s by (simp add: handle_handoff_after_exit_def attempt_def bindE_def seqE_def now_def get_state_def
        or_wrap_def set_fast_fail_def modify_def ret_def)
qed

theorem rollback_only_on_failure_witness:
  "\<exists>h w1. read_handoff ''/h'' sample_sup = (Inr (Some h), w1) \<and> hf_main_binary_path h \<noteq> [] \<and>
     sp_fast_fail (snd (handle_handoff_after_exit sample_sup_cfg 5 sample_sup)) = 0"
proof -
  have "handle_handoff_after_exit sample_sup_cfg 5 sample_sup =
      (Inr True, snd (handle_handoff_after_exit sample_sup_cfg 5 sample_sup))"
    using sample_rollback_runs by (metis prod.collapse)
  from rollback_only_on_failure [OF this] show ?thesis
    by (auto simp: sample_sup_cfg_def apply_defaults_def)
qed

section \<open>Shutting down\<close>

definition same_child :: "'z sup_scheme \<Rightarrow> 'z sup_scheme \<Rightarrow> bool" where
  "same_child w w' \<longleftrightarrow> sp_child w' = sp_child w"

interpretation same_child: frame_relation same_child
  by unfold_locales (auto simp: same_child_def)

lemma same_child_os: "keeps os_only m \<Longrightarrow> keeps same_child m"
  using os_only_sup by (fastforce simp: keeps_def same_child_def)

lemma same_child_modify: "(\<And>w. sp_child (f w) = sp_child w) \<Longrightarrow> keeps same_child (modify f)"
  by (simp add: keeps_def modify_def same_child_def)

lemmas same_child_rules = same_child.keeps_rules keeps_whenI

lemmas same_child_parts =
  same_child_os [OF only_elapse] same_child_os [OF only_basic(1)] same_child_os [OF only_basic(12)]
  same_child_os [OF only_pid_files(1)] same_child_os [OF only_pid_files(2)]
  same_child_os [OF only_or_wrap [OF only_restore]] same_child_os [OF only_restore_supervisor]
  same_child_os [OF only_read_handoff]

lemma same_child_programs:
  "keeps same_child (handle_handoff_after_exit cfg up)" "keeps same_child (sleep_or_stop d c)"
  "keeps same_child (cleanup_final cfg)"
  unfolding handle_handoff_after_exit_def no_handoff_def set_fast_fail_def count_exit_def sleep_or_stop_def
    cleanup_final_def
  by (auto split: sum.split option.split intro!: same_child_rules same_child_modify same_child_parts simp: Let_def)

lemma returns_sleep: "returns (sleep_or_stop d c)"
  unfolding sleep_or_stop_def elapse_def by (intro returns_rules)

lemma returns_stop: "returns (stop_child dies)"
  unfolding stop_child_def by (auto split: option.split intro!: returns_rules)

lemma returns_wait: "returns (wait_child cfg pid started o1)"
  unfolding wait_child_def elapse_def by (intro returns_rules)

lemma returns_cleanup: "returns (cleanup_final cfg)"
  unfolding cleanup_final_def by (intro returns_rules)

lemma run_steps:
  "seqE (modify f) n w = n (f w)" "bindE (get_state g) k w = k (g w) w"
  "bindE (attempt m) l w = l (fst (m w)) (snd (m w))" "bindE now p v = p (os_clock v (os_calls v)) v"
  "seqE elapse q v = q (v\<lparr>os_calls := Suc (os_calls v)\<rparr>)"
  by (simp_all add: prog_defs now_def elapse_def case_prod_beta)

lemma wait_child_clears: "wait_child cfg pid started o1 w = (r, w') \<Longrightarrow> sp_child w' = None"
proof -
  assume run: "wait_child cfg pid started o1 w = (r, w')"
  let ?tail = "seqE (whenE (sc_child_pid_file cfg \<noteq> [])
            (bindE (attempt (remove_pid_file (sc_child_pid_file cfg))) (\<lambda>_ :: goerr + unit. ret ())))
          (ret \<lparr>ce_pid = pid, ce_exit_code = fst (exit_of o1), ce_signal = snd (exit_of o1),
               ce_uptime = time_sub (os_clock (w\<lparr>os_calls := Suc (os_calls w)\<rparr>) (os_calls (w\<lparr>os_calls := Suc (os_calls w)\<rparr>))) started\<rparr>)"
  have "keeps same_child ?tail" by (intro same_child_rules same_child_parts)
  moreover have "?tail (w\<lparr>os_calls := Suc (os_calls w), sp_child := None\<rparr>) = (r, w')"
    using run by (simp add: wait_child_def run_steps)
  ultimately show ?thesis by (auto simp: same_child_def dest: keepsD)
qed

lemma start_child_error: "start_child env cfg w = (Inl e, w') \<Longrightarrow> sp_child w' = sp_child w"
  by (auto simp: start_child_def elapse_def now_def prog_defs split: sum.splits prod.splits if_splits)

lemma run_loop_clears:
  "sp_child w = None \<Longrightarrow> run_loop env cfg b its w = (r, w') \<Longrightarrow> r = Inr () \<and> sp_child w' = None"
proof (induction its arbitrary: b w)
  case Nil
  then show ?case by (simp add: ret_def)
next
  case (Cons it its)
  have pause: "r = Inr () \<and> sp_child w' = None"
    if "sp_child u = None" "bindE (sleep_or_stop d c) (\<lambda>go. if go then run_loop env cfg b' its else ret ()) u = (r, w')"
    for u d c b'
  proof -
    obtain q u1 where q: "sleep_or_stop d c u = (q, u1)" by fastforce
    obtain go where "q = Inr go" using returnsD [OF returns_sleep q] by auto
    moreover have "sp_child u1 = None"
      using keepsD [OF same_child_programs(2) q] that(1) by (simp add: same_child_def)
    ultimately show ?thesis
      using that(2) q Cons.IH [of u1 b'] by (auto simp: bindE_def ret_def split: if_splits)
  qed
  obtain s w1 where s: "start_child env cfg w = (s, w1)" by fastforce
  show ?case
  proof (cases s)
    case (Inl e)
    have "sp_child w1 = None" using start_child_error [OF s [unfolded Inl]] Cons.prems(1) by simp
    then show ?thesis
      using Cons.prems(2) s Inl by (auto simp: run_steps split: prod.splits dest!: pause)
  next
    case (Inr ps)
    obtain pid started where ps: "ps = (pid, started)" by fastforce
    show ?thesis
    proof (cases "it_cancelled it")
      case True
      obtain q w2 where q: "stop_child (it_dies it) (w1\<lparr>sp_stopping := True\<rparr>) = (q, w2)" by fastforce
      obtain x w3 where x: "wait_child cfg pid started (it_wait it) w2 = (x, w3)" by fastforce
      have "q = Inr ()" "\<exists>ce. x = Inr ce"
        using returnsD [OF returns_stop q] returnsD [OF returns_wait x] by auto
      then show ?thesis
        using Cons.prems(2) s Inr ps True q x wait_child_clears [OF x]
        by (auto simp: bindE_def seqE_def attempt_def modify_def ret_def)
    next
      case False
      obtain x w2 where x: "wait_child cfg pid started (it_wait it) w1 = (x, w2)" by fastforce
      obtain ce where ce: "x = Inr ce" using returnsD [OF returns_wait x] by auto
      obtain h w3 where h: "handle_handoff_after_exit cfg (ce_uptime ce) w2 = (h, w3)" by fastforce
      have c2: "sp_child w2 = None" by (rule wait_child_clears [OF x])
      have c3: "sp_child w3 = None" using keepsD [OF same_child_programs(1) h] c2 by (simp add: same_child_def)
      show ?thesis
      proof (cases "sp_stopping w2")
        case True
        then show ?thesis
          using Cons.prems(2) s Inr ps False x ce c2 by (auto simp: bindE_def attempt_def get_state_def ret_def)
      next
        case stop: False
        let ?t = "if (case h of Inl _ \<Rightarrow> False | Inr x \<Rightarrow> x) then new_tracker cfg else observe_uptime b (ce_uptime ce)"
        obtain d b' where nd: "next_delay ?t = (d, b')" by fastforce
        have "bindE (sleep_or_stop d (it_sleep_cancelled it)) (\<lambda>go. if go then run_loop env cfg b' its else ret ()) w3 = (r, w')"
          using Cons.prems(2) s Inr ps False x ce stop h nd
          by (simp add: run_steps bindE_def [of "wait_child _ _ _ _"] Let_def)
        with c3 show ?thesis by (rule pause)
      qed
    qed
  qed
qed

text \<open>
  C19: The supervisor leaves nothing behind.  When the main loop ends, for whatever reason, the
  supervisor returns without an error, the lock is released and no child is on record.  The comments on
  \<^verbatim>\<open>Run\<close> promise an error when \<^verbatim>\<open>startChild\<close> fails repeatedly and on an unrecoverable IO error; the code
  has no such return, a failing start only leads to the next back-off.
\<close>
theorem supervise_releases:
  fixes w w' :: "'z sup_scheme"
  assumes "supervise env cfg its w = (r, w')" and "sp_child w = None"
  shows "r = Inr () \<and> \<not> sp_lock w' \<and> sp_child w' = None"
proof -
  obtain q w1 where q: "run_loop env cfg (new_tracker cfg) its w = (q, w1)" by fastforce
  obtain x w2 where x: "cleanup_final cfg w1 = (x, w2)" by fastforce
  have "q = Inr ()" "sp_child w1 = None" using run_loop_clears [OF assms(2) q] by auto
  moreover obtain y where "x = Inr y" using returnsD [OF returns_cleanup x] by auto
  moreover have "sp_child w2 = sp_child w1"
    using keepsD [OF same_child_programs(3) x] by (simp add: same_child_def)
  moreover have "\<not> sp_lock w2"
    using x by (auto simp: cleanup_final_def bindE_def seqE_def modify_def ret_def attempt_def get_state_def
        split: prod.splits sum.splits if_splits)
  ultimately show ?thesis
    using assms(1) q x by (auto simp: supervise_def seqE_def bindE_def ret_def)
qed

theorem supervise_releases_witness:
  "\<not> sp_lock (snd (supervise sample_sup_env sample_sup_cfg sample_iterations sample_sup))"
  using supervise_releases [OF prod.collapse [symmetric], where env = sample_sup_env and cfg = sample_sup_cfg and its = sample_iterations and w = sample_sup]
  by (simp add: sample_sup_def)

end
