(* ===== verification/SupervisorStatus.thy ===== *)
theory SupervisorStatus
  imports ServiceFrames
begin

text \<open>
  \<^verbatim>\<open>internal/selfupdate/supervisor_status.go\<close>: how the service finds the supervisor above it, from the
  environment or a pid file, and probes it with signal 0.  The environment variables and the answer
  of the probe are parameters; \<open>err_text\<close> is an error's message.
\<close>

record supervisor_status =
  ss_under_supervisor :: bool
  ss_alive :: bool
  ss_pid :: int
  ss_pid_source :: string
  ss_child_pid :: int
  ss_last_error :: string

definition read_int_file :: "string \<Rightarrow> ('z, int) os_prog" where
  "read_int_file path =
     bindE (os_read_file path) (\<lambda>raw.
     let txt = trim_space raw in
     if txt = [] then ret 0
     else case atoi txt of None \<Rightarrow> throw (ErrMsg ''strconv.Atoi: invalid syntax'') | Some v \<Rightarrow> ret v)"

definition truncate_error :: "string \<Rightarrow> nat \<Rightarrow> string" where
  "truncate_error msg mx =
     (let out = trim_space msg in
      if length out \<le> mx then out else take mx out @ [CHR 0xE2, CHR 0x80, CHR 0xA6])"

text \<open>The supervisor's pid, where it came from, and the first problem met.\<close>

definition resolve_pid ::
  "(string \<Rightarrow> string) \<Rightarrow> (goerr \<Rightarrow> string) \<Rightarrow> string \<Rightarrow> ('z, int \<times> string \<times> string) os_prog" where
  "resolve_pid getenv err_text pid_file =
     (let raw = trim_space (getenv ''PL_SUPERVISOR_PID'');
          from_env = (if raw = [] then None
                      else case atoi raw of Some p \<Rightarrow> (if 0 < p then Some p else None) | None \<Rightarrow> None);
          env_error = (if raw \<noteq> [] \<and> from_env = None then ''PL_SUPERVISOR_PID is not a valid integer'' else [])
      in case from_env of
           Some p \<Rightarrow> ret (p, ''env'', env_error)
         | None \<Rightarrow>
             bindE (attempt (read_int_file pid_file)) (\<lambda>r :: goerr + int. case r of
               Inr p \<Rightarrow> if 0 < p then ret (p, ''pidfile'', env_error) else ret (0, [], env_error)
             | Inl e \<Rightarrow>
                 if env_error = [] \<and> \<not> is_not_exist e
                 then ret (0, [], ''supervisor pidfile: '' @ truncate_error (err_text e) 120)
                 else ret (0, [], env_error)))"

definition status_problem :: "bool \<Rightarrow> int \<Rightarrow> string option \<Rightarrow> string \<Rightarrow> string" where
  "status_problem supervised pid sig problem =
     (if problem \<noteq> [] then problem
      else if 0 < pid then (case sig of None \<Rightarrow> [] | Some e \<Rightarrow> ''signal 0: '' @ truncate_error e 120)
      else if supervised then ''supervisor PID could not be resolved'' else [])"

text \<open>\<open>probe\<close> is the outcome of signal 0: \<open>None\<close> when it was accepted, else the error's text.\<close>

definition resolve_supervisor_status ::
  "(string \<Rightarrow> string) \<Rightarrow> (goerr \<Rightarrow> string) \<Rightarrow> (int \<Rightarrow> string option) \<Rightarrow> string \<Rightarrow> ('z, supervisor_status) os_prog" where
  "resolve_supervisor_status getenv err_text probe data_dir =
     (let supervised = (getenv ''PL_UNDER_SUPERVISOR'' = ''1'');
          run_dir = path_join [data_dir, ''run''];
          pid_file = (if getenv ''PL_SUPERVISOR_PID_FILE'' = [] then path_join [run_dir, ''phantom-supervisor.pid'']
                      else getenv ''PL_SUPERVISOR_PID_FILE'');
          child_file = (if getenv ''PL_CHILD_PID_FILE'' = [] then path_join [run_dir, ''phantom-lancer.pid'']
                        else getenv ''PL_CHILD_PID_FILE'')
      in bindE (resolve_pid getenv err_text pid_file) (\<lambda>(pid, source, problem).
         let sig = (if 0 < pid then probe pid else None)
         in bindE (attempt (read_int_file child_file)) (\<lambda>c :: goerr + int.
            ret \<lparr>ss_under_supervisor = supervised, ss_alive = (0 < pid \<and> sig = None), ss_pid = pid,
                 ss_pid_source = source,
                 ss_child_pid = (case c of Inr p \<Rightarrow> if 0 < p then p else 0 | Inl _ \<Rightarrow> 0),
                 ss_last_error = status_problem supervised pid sig problem\<rparr>)))"

lemma attempt_step: "bindE (attempt m) l w = l (fst (m w)) (snd (m w))"
  by (simp add: prog_defs case_prod_beta)

lemma resolve_pid_result:
  assumes "resolve_pid getenv err_text pid_file w = (r, w')"
  shows "\<exists>pid source problem. r = Inr (pid, source, problem) \<and> 0 \<le> pid \<and>
    (pid = 0 \<longleftrightarrow> source = []) \<and> (source = ''env'' \<longrightarrow> atoi (trim_space (getenv ''PL_SUPERVISOR_PID'')) = Some pid)"
  using assms
  by (auto simp: resolve_pid_def prog_defs Let_def split: option.splits if_splits sum.splits prod.splits)

text \<open>
  C20: The status is well formed and honest.  Resolving it never fails; alive is claimed only for a
  positive pid that accepted signal 0; the pid is positive exactly when its source is named; and an
  under-supervisor process without a pid always reports a problem.  The comment on \<^verbatim>\<open>PIDSource\<close> promises an
  empty source outside a supervisor; the code names the source of every positive pid, and so does the theorem.
\<close>
theorem supervisor_status_sound:
  assumes "resolve_supervisor_status getenv err_text probe data_dir w = (r, w')"
  shows "\<exists>st. r = Inr st \<and> (ss_alive st \<longrightarrow> 0 < ss_pid st \<and> probe (ss_pid st) = None) \<and>
    0 \<le> ss_pid st \<and> 0 \<le> ss_child_pid st \<and> (0 < ss_pid st \<longleftrightarrow> ss_pid_source st \<noteq> []) \<and>
    (ss_under_supervisor st \<and> \<not> ss_alive st \<longrightarrow> ss_last_error st \<noteq> [])"
proof -
  let ?file = "if getenv ''PL_SUPERVISOR_PID_FILE'' = [] then path_join [path_join [data_dir, ''run''], ''phantom-supervisor.pid'']
      else getenv ''PL_SUPERVISOR_PID_FILE''"
  obtain q w1 where q: "resolve_pid getenv err_text ?file w = (q, w1)" by fastforce
  from resolve_pid_result [OF q] obtain pid source problem where
    p: "q = Inr (pid, source, problem)" "0 \<le> pid" "pid = 0 \<longleftrightarrow> source = []" by blast
  define c where "c = fst (read_int_file (if getenv ''PL_CHILD_PID_FILE'' = [] then path_join [path_join [data_dir, ''run''], ''phantom-lancer.pid'']
      else getenv ''PL_CHILD_PID_FILE'') w1)"
  from assms q p(1) have r: "r = Inr \<lparr>ss_under_supervisor = (getenv ''PL_UNDER_SUPERVISOR'' = ''1''),
      ss_alive = (0 < pid \<and> (if 0 < pid then probe pid else None) = None), ss_pid = pid, ss_pid_source = source,
      ss_child_pid = (case c of Inr p \<Rightarrow> if 0 < p then p else 0 | Inl _ \<Rightarrow> 0),
      ss_last_error = status_problem (getenv ''PL_UNDER_SUPERVISOR'' = ''1'') pid (if 0 < pid then probe pid else None) problem\<rparr>"
    by (simp add: resolve_supervisor_status_def Let_def bindE_def [of "resolve_pid _ _ _"] attempt_step)
       (auto simp: ret_def c_def)
  show ?thesis
    unfolding r using p(2,3) by (cases c; cases "probe pid") (auto simp: status_problem_def)
qed

theorem supervisor_status_sound_witness:
  "\<exists>st. fst (resolve_supervisor_status (\<lambda>n. if n = ''PL_UNDER_SUPERVISOR'' then ''1'' else []) (\<lambda>_. ''e'') (\<lambda>_. None) ''/d'' sample_svc) = Inr st \<and>
     (ss_under_supervisor st \<and> \<not> ss_alive st \<longrightarrow> ss_last_error st \<noteq> [])"
  using supervisor_status_sound [OF prod.collapse [symmetric],
      where getenv = "\<lambda>n. if n = ''PL_UNDER_SUPERVISOR'' then ''1'' else []" and err_text = "\<lambda>_. ''e''" and probe = "\<lambda>_. None" and data_dir = "''/d''" and w = sample_svc]
  by blast

end
