(* ===== verification/TaskPool.thy ===== *)
theory TaskPool
  imports GoTime Prelude "HOL-Library.AList"
begin

text \<open>
  \<^verbatim>\<open>internal/stockv2/agent_task_pool.go\<close>: the in-memory pool through which an agent's result reaches
  the code waiting for it.  Entries live in a heap (a waiter keeps its pointer after the entry left
  the pool); the pool maps ids to addresses.  A closed result channel is a counter, so a second
  close, which panics in Go, is visible.  Every operation takes the time it reads and runs under
  its locks, so a concurrent execution is a sequence of operations.  \<open>'r\<close> is the submitted result.
\<close>

datatype task_status = Waiting | Submitted | Expired | TaskCancelled

datatype task_error = ErrTaskNotFound | ErrTaskDuplicate | ErrTaskExpired | ErrTaskTypeMismatch
  | ErrNilResult | ErrCtx

record 'r task_entry =
  te_id :: string
  te_type :: string
  te_agent_run :: string
  te_review :: string
  te_discovery_run :: string
  te_opportunity :: string
  te_deadline :: gtime
  te_status :: task_status
  te_result :: "'r option"
  te_submitted_at :: gtime
  te_submit_count :: nat
  te_closed :: nat

record 'r task_pool =
  tp_heap :: "'r task_entry list"
  tp_tasks :: "(string \<times> nat) list"

definition default_task_ttl :: duration where
  "default_task_ttl = 600 * second"

definition default_cleanup_interval :: duration where
  "default_cleanup_interval = 30 * second"

definition opportunity_task_type :: string where
  "opportunity_task_type = ''opportunity_discovery''"

definition new_pool :: "'r task_pool" where
  "new_pool = \<lparr>tp_heap = [], tp_tasks = []\<rparr>"

definition cleanup_interval :: "duration \<Rightarrow> duration" where
  "cleanup_interval d = (if d \<le> 0 then default_cleanup_interval else d)"

section \<open>Operations\<close>

text \<open>\<open>rnd\<close> is the hex text of the random bytes.  The result is the id and the entry's address.\<close>

definition create_task ::
  "string \<Rightarrow> string \<Rightarrow> string \<Rightarrow> duration \<Rightarrow> string \<Rightarrow> gtime \<Rightarrow> 'r task_pool \<Rightarrow> (string \<times> nat) \<times> 'r task_pool" where
  "create_task typ agent_run review ttl rnd now p =
     (let life = (if ttl \<le> 0 then default_task_ttl else ttl);
          tid = ''task-'' @ rnd;
          entry = \<lparr>te_id = tid, te_type = typ, te_agent_run = agent_run, te_review = review,
            te_discovery_run = [], te_opportunity = [], te_deadline = time_add now life, te_status = Waiting,
            te_result = None, te_submitted_at = 0, te_submit_count = 0, te_closed = 0\<rparr>;
          addr = length (tp_heap p)
      in ((tid, addr), \<lparr>tp_heap = tp_heap p @ [entry], tp_tasks = AList.update tid addr (tp_tasks p)\<rparr>))"

definition set_entry :: "nat \<Rightarrow> ('r task_entry \<Rightarrow> 'r task_entry) \<Rightarrow> 'r task_pool \<Rightarrow> 'r task_pool" where
  "set_entry addr f p = p\<lparr>tp_heap := (tp_heap p)[addr := f (tp_heap p ! addr)]\<rparr>"

definition create_opportunity_discovery_task ::
  "string \<Rightarrow> string \<Rightarrow> string \<Rightarrow> duration \<Rightarrow> string \<Rightarrow> gtime \<Rightarrow> 'r task_pool \<Rightarrow> (string \<times> nat) \<times> 'r task_pool" where
  "create_opportunity_discovery_task agent_run discovery_run opportunity ttl rnd now p =
     (let ((tid, addr), p') = create_task opportunity_task_type agent_run [] ttl rnd now p
      in ((tid, addr), set_entry addr (\<lambda>e. e\<lparr>te_discovery_run := discovery_run, te_opportunity := opportunity\<rparr>) p'))"

definition get_task :: "'r task_pool \<Rightarrow> string \<Rightarrow> nat option" where
  "get_task p tid = map_of (tp_tasks p) tid"

text \<open>The guards of a submission, in order; the second component is the entry left behind.\<close>

definition submit_entry ::
  "string \<Rightarrow> 'r \<Rightarrow> gtime \<Rightarrow> gtime \<Rightarrow> 'r task_entry \<Rightarrow> (string \<times> task_error option) \<times> 'r task_entry" where
  "submit_entry typ res now now2 e =
     (if te_deadline e < now then ((''expired'', Some ErrTaskExpired), e\<lparr>te_status := Expired\<rparr>)
      else if te_status e = Expired then ((''expired'', Some ErrTaskExpired), e)
      else if te_status e = Submitted then ((''duplicate'', Some ErrTaskDuplicate), e)
      else if te_type e \<noteq> typ then ((''invalid_task'', Some ErrTaskTypeMismatch), e)
      else ((''accepted'', None),
            e\<lparr>te_result := Some res, te_submitted_at := now2, te_submit_count := Suc (te_submit_count e),
              te_status := Submitted, te_closed := Suc (te_closed e)\<rparr>))"

definition submit_result ::
  "string \<Rightarrow> string \<Rightarrow> 'r \<Rightarrow> gtime \<Rightarrow> gtime \<Rightarrow> 'r task_pool \<Rightarrow> (string \<times> task_error option) \<times> 'r task_pool" where
  "submit_result tid typ res now now2 p =
     (case get_task p tid of
        None \<Rightarrow> ((''invalid_task'', Some ErrTaskNotFound), p)
      | Some addr \<Rightarrow>
          let (out, e) = submit_entry typ res now now2 (tp_heap p ! addr) in (out, set_entry addr (\<lambda>_. e) p))"

text \<open>
  What the select of a waiter can return: nothing while both channels are silent; the context's
  error or the result when they speak; \<open>ctx_first\<close> is the choice when both do.
\<close>

definition wait_entry :: "bool \<Rightarrow> bool \<Rightarrow> 'r task_entry \<Rightarrow> (task_error + 'r) option" where
  "wait_entry ctx_done ctx_first e =
     (if ctx_done \<and> (ctx_first \<or> te_closed e = 0) then Some (Inl ErrCtx)
      else if 0 < te_closed e then
        Some (case te_result e of None \<Rightarrow> Inl ErrNilResult | Some x \<Rightarrow> Inr x)
      else None)"

definition wait_for_result :: "bool \<Rightarrow> bool \<Rightarrow> string \<Rightarrow> 'r task_pool \<Rightarrow> (task_error + 'r) option" where
  "wait_for_result ctx_done ctx_first tid p =
     (case get_task p tid of
        None \<Rightarrow> Some (Inl ErrTaskNotFound)
      | Some addr \<Rightarrow> wait_entry ctx_done ctx_first (tp_heap p ! addr))"

definition remove_task :: "string \<Rightarrow> 'r task_pool \<Rightarrow> 'r task_pool" where
  "remove_task tid p = p\<lparr>tp_tasks := AList.delete tid (tp_tasks p)\<rparr>"

definition expire_entry :: "gtime \<Rightarrow> 'r task_entry \<Rightarrow> 'r task_entry" where
  "expire_entry now e =
     (if te_deadline e < now \<and> te_status e = Waiting
      then e\<lparr>te_status := Expired, te_closed := Suc (te_closed e)\<rparr> else e)"

definition drop_entry :: "gtime \<Rightarrow> 'r task_entry \<Rightarrow> bool" where
  "drop_entry now e \<longleftrightarrow>
     te_status e = Submitted \<and> time_add (te_submitted_at e) (3600 * second) < now \<or>
     te_status e = Expired \<and> time_add (te_deadline e) (300 * second) < now"

text \<open>One turn of the clean-up loop over the pool, in the map's iteration order.\<close>

fun cleanup_loop :: "gtime \<Rightarrow> (string \<times> nat) list \<Rightarrow> 'r task_pool \<Rightarrow> 'r task_pool" where
  "cleanup_loop now [] p = p"
| "cleanup_loop now ((tid, addr) # ts) p =
     (let e = expire_entry now (tp_heap p ! addr);
          p1 = set_entry addr (\<lambda>_. e) p;
          p2 = (if drop_entry now e then remove_task tid p1 else p1)
      in cleanup_loop now ts p2)"

definition cleanup_expired :: "gtime \<Rightarrow> 'r task_pool \<Rightarrow> 'r task_pool" where
  "cleanup_expired now p = cleanup_loop now (tp_tasks p) p"

section \<open>Runs\<close>

datatype 'r pool_op =
    OpCreate string string string duration string gtime
  | OpDiscover string string string duration string gtime
  | OpSubmit string string 'r gtime gtime
  | OpRemove string
  | OpCleanup gtime

fun pool_step :: "'r pool_op \<Rightarrow> 'r task_pool \<Rightarrow> 'r task_pool" where
  "pool_step (OpCreate typ a r ttl rnd now) p = snd (create_task typ a r ttl rnd now p)"
| "pool_step (OpDiscover a d opp ttl rnd now) p = snd (create_opportunity_discovery_task a d opp ttl rnd now p)"
| "pool_step (OpSubmit tid typ res now now2) p = snd (submit_result tid typ res now now2 p)"
| "pool_step (OpRemove tid) p = remove_task tid p"
| "pool_step (OpCleanup now) p = cleanup_expired now p"

section \<open>The invariant\<close>

text \<open>
  What every entry satisfies: the channel is closed at most once and only out of the waiting state;
  a result was accepted at most once, and then the channel is closed.
\<close>

definition entry_ok :: "'r task_entry \<Rightarrow> bool" where
  "entry_ok e \<longleftrightarrow> te_closed e \<le> 1 \<and> te_status e \<noteq> TaskCancelled \<and>
     (te_status e = Waiting \<longrightarrow> te_closed e = 0 \<and> te_result e = None) \<and>
     (te_status e = Submitted \<longrightarrow> te_result e \<noteq> None) \<and>
     (te_result e \<noteq> None \<longrightarrow> te_closed e = 1) \<and>
     te_submit_count e = (if te_result e = None then 0 else 1)"

definition pool_ok :: "'r task_pool \<Rightarrow> bool" where
  "pool_ok p \<longleftrightarrow> list_all entry_ok (tp_heap p) \<and> (\<forall>(t, a) \<in> set (tp_tasks p). a < length (tp_heap p))"

lemma pool_ok_new: "pool_ok new_pool"
  by (simp add: pool_ok_def new_pool_def)

lemma pool_ok_get: "pool_ok p \<Longrightarrow> get_task p tid = Some a \<Longrightarrow> a < length (tp_heap p)"
  by (auto simp: pool_ok_def get_task_def dest!: map_of_SomeD)

lemma update_set: "set (AList.update k v ts) \<subseteq> insert (k, v) (set ts)"
  by (induction ts) auto

lemma pool_ok_create:
  assumes "pool_ok p"
  shows "pool_ok (snd (create_task typ a r ttl rnd now p))"
    and "fst (create_task typ a r ttl rnd now p) = (''task-'' @ rnd, length (tp_heap p))"
  using assms update_set [of "''task-'' @ rnd" "length (tp_heap p)" "tp_tasks p"]
  by (auto simp: create_task_def pool_ok_def entry_ok_def Let_def) (fastforce simp: less_Suc_eq)

lemma pool_ok_set:
  assumes "pool_ok p" and "a < length (tp_heap p) \<Longrightarrow> entry_ok (f (tp_heap p ! a))"
  shows "pool_ok (set_entry a f p)"
proof -
  have "entry_ok e" if "e \<in> set ((tp_heap p)[a := f (tp_heap p ! a)])" for e
    using that assms set_update_subset_insert [of "tp_heap p" a "f (tp_heap p ! a)"]
    by (cases "a < length (tp_heap p)") (auto simp: pool_ok_def list_all_iff list_update_beyond not_less)
  then show ?thesis using assms(1) by (auto simp: pool_ok_def set_entry_def list_all_iff)
qed

lemma pool_ok_entry: "pool_ok p \<Longrightarrow> a < length (tp_heap p) \<Longrightarrow> entry_ok (tp_heap p ! a)"
  by (simp add: pool_ok_def list_all_length)

lemma entry_ok_submit: "entry_ok e \<Longrightarrow> entry_ok (snd (submit_entry typ res now now2 e))"
  by (cases "te_status e") (auto simp: entry_ok_def submit_entry_def)

lemma entry_ok_expire: "entry_ok e \<Longrightarrow> entry_ok (expire_entry now e)"
  by (auto simp: entry_ok_def expire_entry_def)

lemma pool_ok_remove: "pool_ok p \<Longrightarrow> pool_ok (remove_task tid p)"
  by (auto simp: pool_ok_def remove_task_def AList.delete_eq)

lemma cleanup_loop_keeps:
  assumes set: "\<And>q a. Q q \<Longrightarrow> Q (set_entry a (\<lambda>_. expire_entry now (tp_heap q ! a)) q)"
    and del: "\<And>q tid. Q q \<Longrightarrow> Q (remove_task tid q)"
  shows "Q p \<Longrightarrow> Q (cleanup_loop now ts p)"
  by (induction ts arbitrary: p) (auto simp: Let_def set del)

lemma pool_ok_step:
  assumes "pool_ok p"
  shows "pool_ok (pool_step q p)"
proof (cases q)
  case (OpDiscover a d opp ttl rnd now)
  let ?p = "snd (create_task opportunity_task_type a [] ttl rnd now p)"
  have ok: "pool_ok ?p" using assms by (rule pool_ok_create)
  then have "pool_ok (set_entry (length (tp_heap p)) (\<lambda>e. e\<lparr>te_discovery_run := d, te_opportunity := opp\<rparr>) ?p)"
    by (intro pool_ok_set) (auto dest: pool_ok_entry simp: entry_ok_def)
  moreover obtain i where "create_task opportunity_task_type a [] ttl rnd now p = ((i, length (tp_heap p)), ?p)"
    using pool_ok_create(2) [OF assms, of opportunity_task_type a "[]" ttl rnd now] by (metis prod.collapse)
  ultimately show ?thesis
    using OpDiscover by (auto simp: create_opportunity_discovery_task_def Let_def split: prod.splits)
next
  case (OpSubmit tid ty res now now2)
  then show ?thesis
    using assms
    by (auto simp: submit_result_def case_prod_beta Let_def split: option.splits
        intro!: pool_ok_set entry_ok_submit pool_ok_entry)
next
  case (OpCleanup now)
  then show ?thesis
    using assms
    by (auto simp: cleanup_expired_def intro!: cleanup_loop_keeps [where Q = pool_ok] pool_ok_set
        entry_ok_expire pool_ok_entry pool_ok_remove)
qed (use assms in \<open>auto intro: pool_ok_create pool_ok_remove\<close>)

interpretation pool: op_system pool_step pool_ok
  by unfold_locales (rule pool_ok_step)

text \<open>
  C23: A result is accepted at most once and nothing is closed twice.  After any sequence of
  operations on a new pool, every entry ever created has accepted at most one result, its channel
  was closed at most once (a second close panics), and it is closed whenever a result is there.
\<close>
theorem pool_accepts_once:
  assumes "e \<in> set (tp_heap (fold pool_step qs new_pool))"
  shows "te_submit_count e \<le> 1 \<and> te_closed e \<le> 1 \<and> (te_result e \<noteq> None \<longleftrightarrow> te_submit_count e = 1) \<and>
    (te_result e \<noteq> None \<longrightarrow> te_closed e = 1) \<and> (te_status e = Waiting \<longrightarrow> te_closed e = 0)"
proof -
  have "pool_ok (fold pool_step qs new_pool)" using pool_ok_new by (rule pool.run_inv)
  then have "entry_ok e" using assms by (auto simp: pool_ok_def list_all_iff)
  then show ?thesis by (auto simp: entry_ok_def)
qed

definition sample_ops :: "string pool_op list" where
  "sample_ops = [OpCreate ''t'' ''a'' ''r'' 0 ''0'' 5, OpSubmit ''task-0'' ''t'' ''x'' 6 6, OpSubmit ''task-0'' ''t'' ''y'' 7 7]"

theorem pool_accepts_once_witness:
  "\<exists>e. e \<in> set (tp_heap (fold pool_step sample_ops new_pool)) \<and> te_submit_count e \<le> 1 \<and> te_result e = Some ''x''"
proof -
  let ?e = "hd (tp_heap (fold pool_step sample_ops (new_pool :: string task_pool)))"
  have "?e \<in> set (tp_heap (fold pool_step sample_ops new_pool)) \<and> te_result ?e = Some ''x''"
    by (simp add: sample_ops_def create_task_def new_pool_def submit_result_def get_task_def submit_entry_def
        set_entry_def Let_def time_add_def default_task_ttl_def)
  with pool_accepts_once [of ?e sample_ops] show ?thesis by blast
qed

section \<open>Delivery\<close>

lemma set_entry_other [simp]: "b \<noteq> a \<Longrightarrow> tp_heap (set_entry b f p) ! a = tp_heap p ! a"
  by (simp add: set_entry_def)

lemma set_entry_same: "a < length (tp_heap p) \<Longrightarrow> tp_heap (set_entry a f p) ! a = f (tp_heap p ! a)"
  by (simp add: set_entry_def)

lemma length_set_entry [simp]: "length (tp_heap (set_entry b f p)) = length (tp_heap p)"
  by (simp add: set_entry_def)

lemma heap_remove [simp]: "tp_heap (remove_task tid p) = tp_heap p"
  by (simp add: remove_task_def)

text \<open>
  A property of one entry that neither a submission, nor an expiry, nor the fields of a discovery
  task can end holds of that entry for ever.
\<close>

definition lasting :: "('r task_entry \<Rightarrow> bool) \<Rightarrow> bool" where
  "lasting P \<longleftrightarrow> (\<forall>e. P e \<longrightarrow> (\<forall>ty res t t2. P (snd (submit_entry ty res t t2 e))) \<and> (\<forall>t. P (expire_entry t e)))"

definition holds_at :: "('r task_entry \<Rightarrow> bool) \<Rightarrow> nat \<Rightarrow> 'r task_pool \<Rightarrow> bool" where
  "holds_at P a p \<longleftrightarrow> pool_ok p \<and> a < length (tp_heap p) \<and> P (tp_heap p ! a)"

lemma holds_at_set:
  assumes "pool_ok (set_entry b f p)" and "holds_at P a p" and "b = a \<Longrightarrow> P (f (tp_heap p ! a))"
  shows "holds_at P a (set_entry b f p)"
  using assms by (cases "b = a") (auto simp: holds_at_def set_entry_same)

lemma holds_at_create:
  assumes "holds_at P a p"
  shows "holds_at P a (snd (create_task ty r v ttl rnd now p))"
  using assms pool_ok_create(1) [of p ty r v ttl rnd now]
  by (auto simp: holds_at_def create_task_def Let_def nth_append)

lemma holds_at_step:
  assumes P: "lasting P" and p: "holds_at P a p"
  shows "holds_at P a (pool_step q p)"
proof -
  have ok: "pool_ok p" using p by (simp add: holds_at_def)
  show ?thesis
  proof (cases q)
    case (OpDiscover ar d opp ttl rnd now)
    let ?c = "create_task opportunity_task_type ar [] ttl rnd now p"
    have "fst ?c = (''task-'' @ rnd, length (tp_heap p))" by (rule pool_ok_create(2) [OF ok])
    then have "pool_step q p = set_entry (length (tp_heap p)) (\<lambda>e. e\<lparr>te_discovery_run := d, te_opportunity := opp\<rparr>) (snd ?c)"
      using OpDiscover by (cases ?c) (auto simp: create_opportunity_discovery_task_def Let_def)
    then show ?thesis
      using holds_at_set [of "length (tp_heap p)" _ "snd ?c" P a] holds_at_create [OF p, of opportunity_task_type ar "[]" ttl rnd now]
        pool_ok_step [OF ok, of q] p by (auto simp: holds_at_def)
  next
    case (OpSubmit tid ty res now now2)
    have "holds_at P a (set_entry b (\<lambda>_. snd (submit_entry ty res now now2 (tp_heap p ! b))) p)"
      if "get_task p tid = Some b" for b
    proof (rule holds_at_set [OF _ p])
      show "pool_ok (set_entry b (\<lambda>_. snd (submit_entry ty res now now2 (tp_heap p ! b))) p)"
        using ok by (intro pool_ok_set entry_ok_submit pool_ok_entry)
    qed (use P p in \<open>auto simp: lasting_def holds_at_def\<close>)
    then show ?thesis
      using OpSubmit p by (auto simp: submit_result_def Let_def case_prod_beta split: option.splits)
  next
    case (OpCleanup now)
    have "holds_at P a (set_entry b (\<lambda>_. expire_entry now (tp_heap u ! b)) u)" if "holds_at P a u" for u b
    proof (rule holds_at_set [OF _ that])
      show "pool_ok (set_entry b (\<lambda>_. expire_entry now (tp_heap u ! b)) u)"
        using that by (intro pool_ok_set entry_ok_expire pool_ok_entry) (auto simp: holds_at_def)
    qed (use P that in \<open>auto simp: lasting_def holds_at_def\<close>)
    moreover have "holds_at P a (remove_task tid u)" if "holds_at P a u" for u tid
      using that by (simp add: holds_at_def pool_ok_remove)
    ultimately have "holds_at P a (cleanup_loop now (tp_tasks p) p)"
      using p by (intro cleanup_loop_keeps [where Q = "holds_at P a"])
    then show ?thesis using OpCleanup by (simp add: cleanup_expired_def)
  next
    case (OpRemove tid)
    then show ?thesis using p pool_ok_remove [OF ok] by (auto simp: holds_at_def)
  qed (use holds_at_create [OF p] in auto)
qed

lemma holds_at_run: "lasting P \<Longrightarrow> holds_at P a p \<Longrightarrow> holds_at P a (fold pool_step qs p)"
  by (induction qs arbitrary: p) (auto intro: holds_at_step)

text \<open>
  C24: An accepted result is final and reaches the waiter.  From the moment a submission is
  accepted, whatever operations follow, the entry keeps exactly that result and a wait on it
  returns it unless the context ended first.
\<close>
theorem accepted_result_is_final:
  assumes "pool_ok p" and "get_task p tid = Some a"
    and "submit_result tid ty res now now2 p = ((''accepted'', None), p')"
  shows "te_result (tp_heap (fold pool_step qs p') ! a) = Some res \<and>
    wait_entry False c (tp_heap (fold pool_step qs p') ! a) = Some (Inr res)"
proof -
  let ?P = "\<lambda>e. te_result e = Some res \<and> te_status e \<noteq> Waiting \<and>
    (te_status e = Submitted \<or> te_status e = Expired) \<and> 0 < te_closed e"
  have a: "a < length (tp_heap p)" using assms(1,2) by (rule pool_ok_get)
  have p': "pool_ok p'"
    using pool_ok_step [OF assms(1), of "OpSubmit tid ty res now now2"] assms(3) by simp
  from assms have "?P (tp_heap p' ! a)" "length (tp_heap p') = length (tp_heap p)"
    using a by (auto simp: submit_result_def submit_entry_def set_entry_def Let_def split: if_splits)
  then have "holds_at ?P a p'" using a p' by (simp add: holds_at_def)
  moreover have "lasting ?P"
    by (auto simp: lasting_def submit_entry_def expire_entry_def)
  ultimately have "holds_at ?P a (fold pool_step qs p')" by (intro holds_at_run)
  then show ?thesis by (auto simp: holds_at_def wait_entry_def)
qed

definition one_task_pool :: "string task_pool" where
  "one_task_pool = pool_step (OpCreate ''t'' ''a'' ''r'' 0 ''0'' 5) new_pool"

lemma one_task_pool_ok: "pool_ok one_task_pool"
  unfolding one_task_pool_def by (intro pool_ok_step pool_ok_new)

lemma one_task_pool_get: "get_task one_task_pool ''task-0'' = Some 0"
  by (simp add: one_task_pool_def create_task_def new_pool_def get_task_def Let_def)

theorem accepted_result_is_final_witness:
  "wait_entry False False (tp_heap (pool_step (OpCleanup (10 ^ 20))
     (snd (submit_result ''task-0'' ''t'' ''x'' 6 6 one_task_pool))) ! 0) = Some (Inr ''x'')"
proof -
  have "submit_result ''task-0'' ''t'' ''x'' 6 6 one_task_pool =
      ((''accepted'', None), snd (submit_result ''task-0'' ''t'' ''x'' 6 6 one_task_pool))"
    by (simp add: submit_result_def get_task_def submit_entry_def one_task_pool_def create_task_def new_pool_def
        Let_def time_add_def default_task_ttl_def)
  from accepted_result_is_final [OF one_task_pool_ok one_task_pool_get this, of "[OpCleanup (10 ^ 20)]" False]
  show ?thesis by simp
qed

text \<open>
  C25: A late submission strands the waiter.  A submission past the deadline of a waiting task marks
  it expired without closing its channel; from then on no operation closes it, so a wait returns
  nothing but the end of its context (the clean-up wakes waiters of waiting tasks only).
\<close>
theorem late_submission_strands_waiter:
  assumes "pool_ok p" and "get_task p tid = Some a" and "te_status (tp_heap p ! a) = Waiting"
    and "te_deadline (tp_heap p ! a) < now"
  shows "wait_entry False c (tp_heap (fold pool_step qs (snd (submit_result tid ty res now now2 p))) ! a) = None"
proof -
  let ?P = "\<lambda>e. te_status e = Expired \<and> te_closed e = 0"
  have a: "a < length (tp_heap p)" using assms(1,2) by (rule pool_ok_get)
  let ?p = "snd (submit_result tid ty res now now2 p)"
  have "pool_ok ?p" using pool_ok_step [OF assms(1), of "OpSubmit tid ty res now now2"] by simp
  moreover have "te_closed (tp_heap p ! a) = 0"
    using pool_ok_entry [OF assms(1) a] assms(3) by (simp add: entry_ok_def)
  ultimately have "holds_at ?P a ?p"
    using a assms by (simp add: holds_at_def submit_result_def submit_entry_def set_entry_def)
  moreover have "lasting ?P" by (auto simp: lasting_def submit_entry_def expire_entry_def)
  ultimately have "holds_at ?P a (fold pool_step qs ?p)" by (intro holds_at_run)
  then show ?thesis by (simp add: holds_at_def wait_entry_def)
qed

theorem late_submission_strands_waiter_witness:
  "wait_entry False False (tp_heap (pool_step (OpCleanup (10 ^ 20))
     (snd (submit_result ''task-0'' ''t'' ''x'' (10 ^ 13) (10 ^ 13) one_task_pool))) ! 0) = None"
proof -
  have "te_status (tp_heap one_task_pool ! 0) = Waiting" "te_deadline (tp_heap one_task_pool ! 0) < 10 ^ 13"
    by (simp_all add: one_task_pool_def create_task_def new_pool_def Let_def time_add_def default_task_ttl_def)
  from late_submission_strands_waiter [OF one_task_pool_ok one_task_pool_get this, of False "[OpCleanup (10 ^ 20)]"]
  show ?thesis by simp
qed

end
