(* ===== verification/EventHub.thy ===== *)
theory EventHub
  imports GoStd Prelude "HOL-Library.AList" "HOL-Library.Sublist"
begin

text \<open>
  \<^verbatim>\<open>internal/events/hub.go\<close>, the in-process event hub.  Channels are addresses into a heap of buffers; a send on
  a closed channel, which panics in Go, is counted.  Every operation runs under the hub's lock, so
  a concurrent execution is a sequence of operations.
\<close>

section \<open>The hub\<close>

record event =
  ev_id :: string
  ev_scope :: string
  ev_scope_id :: string
  ev_sequence :: int
  ev_type :: string

record 'e chan =
  ch_buf :: "'e list"
  ch_closed :: bool

record 'e hub =
  hb_chans :: "'e chan list"
  hb_subs :: "(string \<times> nat list) list"
  hb_panics :: nat

definition hub_capacity :: nat where
  "hub_capacity = 32"

definition new_hub :: "'e hub" where
  "new_hub = \<lparr>hb_chans = [], hb_subs = [], hb_panics = 0\<rparr>"

definition sub_key :: "string \<Rightarrow> string \<Rightarrow> string" where
  "sub_key scope scope_id = scope @ '':'' @ scope_id"

definition subs_of :: "'e hub \<Rightarrow> string \<Rightarrow> nat list" where
  "subs_of h key = (case map_of (hb_subs h) key of None \<Rightarrow> [] | Some cs \<Rightarrow> cs)"

definition subscribe :: "string \<Rightarrow> string \<Rightarrow> 'e hub \<Rightarrow> nat \<times> 'e hub" where
  "subscribe scope scope_id h =
     (let key = sub_key scope scope_id; ch = length (hb_chans h)
      in (ch, h\<lparr>hb_chans := hb_chans h @ [\<lparr>ch_buf = [], ch_closed = False\<rparr>],
                hb_subs := AList.update key (ch # subs_of h key) (hb_subs h)\<rparr>))"

text \<open>The goroutine of a subscription, when its context ends.\<close>

definition unsubscribe :: "string \<Rightarrow> nat \<Rightarrow> 'e hub \<Rightarrow> 'e hub" where
  "unsubscribe key ch h =
     (let cs = removeAll ch (subs_of h key);
          subs = (if cs = [] then AList.delete key (hb_subs h) else AList.update key cs (hb_subs h))
      in h\<lparr>hb_subs := subs, hb_chans := (hb_chans h)[ch := (hb_chans h ! ch)\<lparr>ch_closed := True\<rparr>]\<rparr>)"

text \<open>A send that does not block: a full channel drops the event.\<close>

definition send :: "'e \<Rightarrow> nat \<Rightarrow> 'e hub \<Rightarrow> 'e hub" where
  "send e ch h =
     (let c = hb_chans h ! ch in
      if ch_closed c then h\<lparr>hb_panics := Suc (hb_panics h)\<rparr>
      else if length (ch_buf c) < hub_capacity
        then h\<lparr>hb_chans := (hb_chans h)[ch := c\<lparr>ch_buf := ch_buf c @ [e]\<rparr>]\<rparr>
      else h)"

definition publish :: "event \<Rightarrow> event hub \<Rightarrow> event hub" where
  "publish e h = fold (send e) (subs_of h (sub_key (ev_scope e) (ev_scope_id e))) h"

definition receive :: "nat \<Rightarrow> 'e hub \<Rightarrow> 'e option \<times> 'e hub" where
  "receive ch h =
     (case ch_buf (hb_chans h ! ch) of
        [] \<Rightarrow> (None, h)
      | e # es \<Rightarrow> (Some e, h\<lparr>hb_chans := (hb_chans h)[ch := (hb_chans h ! ch)\<lparr>ch_buf := es\<rparr>]\<rparr>))"

text \<open>Every subscribed channel is open and subscribed once; buffers are within the capacity.\<close>

definition hub_ok :: "'e hub \<Rightarrow> bool" where
  "hub_ok h \<longleftrightarrow> hb_panics h = 0 \<and> (\<forall>key. distinct (subs_of h key)) \<and>
     (\<forall>key ch. ch \<in> set (subs_of h key) \<longrightarrow> ch < length (hb_chans h) \<and> \<not> ch_closed (hb_chans h ! ch)) \<and>
     (\<forall>key key' ch. ch \<in> set (subs_of h key) \<longrightarrow> ch \<in> set (subs_of h key') \<longrightarrow> key' = key) \<and>
     (\<forall>i < length (hb_chans h). length (ch_buf (hb_chans h ! i)) \<le> hub_capacity)"

lemma hub_okI:
  assumes "hb_panics h = 0" and "\<And>key. distinct (subs_of h key)"
    and "\<And>key ch. ch \<in> set (subs_of h key) \<Longrightarrow> ch < length (hb_chans h) \<and> \<not> ch_closed (hb_chans h ! ch)"
    and "\<And>key key' ch. ch \<in> set (subs_of h key) \<Longrightarrow> ch \<in> set (subs_of h key') \<Longrightarrow> key' = key"
    and "\<And>i. i < length (hb_chans h) \<Longrightarrow> length (ch_buf (hb_chans h ! i)) \<le> hub_capacity"
  shows "hub_ok h"
  unfolding hub_ok_def using assms by blast

lemma hub_okD:
  assumes "hub_ok h"
  shows "hb_panics h = 0" and "distinct (subs_of h key)"
    and "ch \<in> set (subs_of h key) \<Longrightarrow> ch < length (hb_chans h)"
    and "ch \<in> set (subs_of h key) \<Longrightarrow> \<not> ch_closed (hb_chans h ! ch)"
    and "ch \<in> set (subs_of h key) \<Longrightarrow> ch \<in> set (subs_of h key') \<Longrightarrow> key' = key"
    and "i < length (hb_chans h) \<Longrightarrow> length (ch_buf (hb_chans h ! i)) \<le> hub_capacity"
  using assms unfolding hub_ok_def by blast+

lemma subs_update [simp]:
  "subs_of (h\<lparr>hb_subs := AList.update k cs (hb_subs h), hb_chans := X\<rparr>) key = (if key = k then cs else subs_of h key)"
  "subs_of (h\<lparr>hb_chans := X, hb_subs := AList.update k cs (hb_subs h)\<rparr>) key = (if key = k then cs else subs_of h key)"
  by (auto simp: subs_of_def update_conv')

lemma subs_delete [simp]:
  "subs_of (h\<lparr>hb_subs := AList.delete k (hb_subs h), hb_chans := X\<rparr>) key = (if key = k then [] else subs_of h key)"
  by (auto simp: subs_of_def delete_conv')

lemma subs_unsubscribe: "subs_of (unsubscribe k ch h) key = (if key = k then removeAll ch (subs_of h k) else subs_of h key)"
  by (auto simp: unsubscribe_def Let_def)

lemma chans_unsubscribe: "hb_chans (unsubscribe k ch h) = (hb_chans h)[ch := (hb_chans h ! ch)\<lparr>ch_closed := True\<rparr>]"
  by (auto simp: unsubscribe_def Let_def)

lemma hub_ok_subscribe:
  assumes ok: "hub_ok h"
  shows "hub_ok (snd (subscribe s i h))"
proof (rule hub_okI)
  let ?h = "snd (subscribe s i h)"
  have fresh: "length (hb_chans h) \<notin> set (subs_of h key)" for key
    using hub_okD(3) [OF ok, of "length (hb_chans h)" key] by auto
  have subs: "subs_of ?h key = (if key = sub_key s i then length (hb_chans h) # subs_of h (sub_key s i) else subs_of h key)" for key
    by (simp add: subscribe_def Let_def)
  show "hb_panics ?h = 0" using hub_okD(1) [OF ok] by (simp add: subscribe_def Let_def)
  show "distinct (subs_of ?h key)" for key using hub_okD(2) [OF ok] fresh by (simp add: subs)
  show "ch < length (hb_chans ?h) \<and> \<not> ch_closed (hb_chans ?h ! ch)" if "ch \<in> set (subs_of ?h key)" for key ch
    using that hub_okD(3,4) [OF ok, of ch key]
    by (auto simp: subs subscribe_def Let_def nth_append split: if_splits)
  show "key' = key" if "ch \<in> set (subs_of ?h key)" "ch \<in> set (subs_of ?h key')" for key key' ch
    using that fresh hub_okD(5) [OF ok, of ch] by (auto simp: subs split: if_splits)
  show "length (ch_buf (hb_chans ?h ! k)) \<le> hub_capacity" if "k < length (hb_chans ?h)" for k
    using that hub_okD(6) [OF ok, of k] by (auto simp: subscribe_def Let_def nth_append)
qed

lemma hub_ok_unsubscribe:
  assumes ok: "hub_ok h" and "ch \<in> set (subs_of h key)"
  shows "hub_ok (unsubscribe key ch h)"
proof (rule hub_okI)
  let ?h = "unsubscribe key ch h"
  show "hb_panics ?h = 0" using hub_okD(1) [OF ok] by (simp add: unsubscribe_def Let_def)
  show "distinct (subs_of ?h k)" for k
    using hub_okD(2) [OF ok] by (simp add: subs_unsubscribe distinct_removeAll)
  show "c < length (hb_chans ?h) \<and> \<not> ch_closed (hb_chans ?h ! c)" if "c \<in> set (subs_of ?h k)" for k c
    using that hub_okD(3,4) [OF ok, of c k] hub_okD(5) [OF ok assms(2), of k]
    by (cases "c = ch") (auto simp: subs_unsubscribe chans_unsubscribe split: if_splits)
  show "k' = k" if "c \<in> set (subs_of ?h k)" "c \<in> set (subs_of ?h k')" for k k' c
    using that hub_okD(5) [OF ok, of c k k'] by (auto simp: subs_unsubscribe split: if_splits)
  show "length (ch_buf (hb_chans ?h ! i)) \<le> hub_capacity" if "i < length (hb_chans ?h)" for i
    using that hub_okD(6) [OF ok, of i] by (cases "i = ch") (simp_all add: chans_unsubscribe)
qed

lemma subs_send [simp]: "subs_of (send e ch h) key = subs_of h key"
  by (simp add: send_def subs_of_def Let_def)

lemma send_chan:
  assumes "ch < length (hb_chans h)" and "\<not> ch_closed (hb_chans h ! ch)"
  shows "hb_chans (send e ch h) ! c =
    (if c = ch \<and> length (ch_buf (hb_chans h ! ch)) < hub_capacity
     then (hb_chans h ! ch)\<lparr>ch_buf := ch_buf (hb_chans h ! ch) @ [e]\<rparr> else hb_chans h ! c)"
    and "length (hb_chans (send e ch h)) = length (hb_chans h)" and "hb_panics (send e ch h) = hb_panics h"
  using assms by (auto simp: send_def Let_def)

lemma hub_ok_send:
  assumes ok: "hub_ok h" and "ch \<in> set (subs_of h key)"
  shows "hub_ok (send e ch h)"
proof (rule hub_okI)
  note ch = hub_okD(3,4) [OF ok assms(2)]
  show "hb_panics (send e ch h) = 0" using hub_okD(1) [OF ok] by (simp add: send_chan [OF ch])
  show "distinct (subs_of (send e ch h) k)" for k using hub_okD(2) [OF ok] by simp
  show "c < length (hb_chans (send e ch h)) \<and> \<not> ch_closed (hb_chans (send e ch h) ! c)"
    if "c \<in> set (subs_of (send e ch h) k)" for k c
    using that hub_okD(3,4) [OF ok, of c k] ch by (simp add: send_chan [OF ch])
  show "k' = k" if "c \<in> set (subs_of (send e ch h) k)" "c \<in> set (subs_of (send e ch h) k')" for k k' c
    using that hub_okD(5) [OF ok, of c k k'] by simp
  show "length (ch_buf (hb_chans (send e ch h) ! i)) \<le> hub_capacity" if "i < length (hb_chans (send e ch h))" for i
    using that hub_okD(6) [OF ok, of i] by (simp add: send_chan [OF ch])
qed

lemma send_all:
  assumes "hub_ok h" and "set cs \<subseteq> set (subs_of h key)" and "distinct cs"
  shows "hub_ok (fold (send e) cs h) \<and> length (hb_chans (fold (send e) cs h)) = length (hb_chans h) \<and>
    (\<forall>k. subs_of (fold (send e) cs h) k = subs_of h k) \<and>
    (\<forall>c. hb_chans (fold (send e) cs h) ! c =
      (if c \<in> set cs \<and> length (ch_buf (hb_chans h ! c)) < hub_capacity
       then (hb_chans h ! c)\<lparr>ch_buf := ch_buf (hb_chans h ! c) @ [e]\<rparr> else hb_chans h ! c))"
  using assms
proof (induction cs arbitrary: h)
  case Nil
  then show ?case by simp
next
  case (Cons c cs)
  have c: "c \<in> set (subs_of h key)" using Cons.prems by simp
  note ch = hub_okD(3,4) [OF Cons.prems(1) c]
  have "hub_ok (send e c h)" using Cons.prems(1) c by (rule hub_ok_send)
  from Cons.IH [OF this] Cons.prems show ?case
    by (auto simp: send_chan [OF ch])
qed

lemma publish_effect:
  assumes "hub_ok h"
  shows "hub_ok (publish e h)" and "length (hb_chans (publish e h)) = length (hb_chans h)"
    and "subs_of (publish e h) k = subs_of h k"
    and "hb_chans (publish e h) ! c =
      (if c \<in> set (subs_of h (sub_key (ev_scope e) (ev_scope_id e))) \<and> length (ch_buf (hb_chans h ! c)) < hub_capacity
       then (hb_chans h ! c)\<lparr>ch_buf := ch_buf (hb_chans h ! c) @ [e]\<rparr> else hb_chans h ! c)"
  using send_all [OF assms subset_refl hub_okD(2) [OF assms], where e = e and key = "sub_key (ev_scope e) (ev_scope_id e)"]
  by (simp_all add: publish_def)

section \<open>Runs of the hub\<close>

datatype hub_op =
    HubSubscribe string string
  | HubEnd string nat
  | HubPublish event
  | HubReceive nat

text \<open>A context ends once: the end of a subscription that is not there is not a step of the hub.\<close>

fun hub_step :: "hub_op \<Rightarrow> event hub \<Rightarrow> event hub" where
  "hub_step (HubSubscribe s i) h = snd (subscribe s i h)"
| "hub_step (HubEnd key ch) h = (if ch \<in> set (subs_of h key) then unsubscribe key ch h else h)"
| "hub_step (HubPublish e) h = publish e h"
| "hub_step (HubReceive ch) h = snd (receive ch h)"

lemma hub_ok_receive:
  assumes ok: "hub_ok h"
  shows "hub_ok (snd (receive ch h))"
proof (rule hub_okI)
  let ?h = "snd (receive ch h)"
  have subs: "subs_of ?h k = subs_of h k" for k
    by (simp add: receive_def subs_of_def split: list.split)
  have len: "length (hb_chans ?h) = length (hb_chans h)" by (simp add: receive_def split: list.split)
  have chan: "ch_closed (hb_chans ?h ! c) = ch_closed (hb_chans h ! c)"
    "length (ch_buf (hb_chans ?h ! c)) \<le> length (ch_buf (hb_chans h ! c))" if "c < length (hb_chans h)" for c
    using that by (cases "ch = c"; auto simp: receive_def split: list.split)+
  show "hb_panics ?h = 0" using hub_okD(1) [OF ok] by (simp add: receive_def split: list.split)
  show "distinct (subs_of ?h k)" for k using hub_okD(2) [OF ok] by (simp add: subs)
  show "c < length (hb_chans ?h) \<and> \<not> ch_closed (hb_chans ?h ! c)" if "c \<in> set (subs_of ?h k)" for k c
    using that hub_okD(3,4) [OF ok, of c k] chan by (simp add: subs len)
  show "k' = k" if "c \<in> set (subs_of ?h k)" "c \<in> set (subs_of ?h k')" for k k' c
    using that hub_okD(5) [OF ok, of c k k'] by (simp add: subs)
  show "length (ch_buf (hb_chans ?h ! i)) \<le> hub_capacity" if "i < length (hb_chans ?h)" for i
    using that hub_okD(6) [OF ok, of i] chan(2) [of i] by (simp add: len)
qed

interpretation hub: op_system hub_step hub_ok
proof
  show "hub_ok (hub_step a h)" if "hub_ok h" for a h
    using that
    by (cases a) (auto intro: hub_ok_subscribe hub_ok_unsubscribe publish_effect(1) hub_ok_receive)
qed

lemma hub_ok_new: "hub_ok new_hub"
  by (rule hub_okI) (auto simp: new_hub_def subs_of_def)

text \<open>
  The hub never sends on a closed channel, and a publication reaches exactly the subscribers of
  its scope with room.  At any point of any run of subscriptions, ends, publications and receptions,
  publishing appends the event to each open channel of its key that holds fewer than 32 events and
  changes no other channel.
\<close>
theorem publish_reaches_subscribers:
  fixes e :: event
  shows "let h = fold hub_step qs new_hub; subs = subs_of h (sub_key (ev_scope e) (ev_scope_id e)); h' = publish e h in
    hb_panics h' = 0 \<and> length (hb_chans h') = length (hb_chans h) \<and>
    (\<forall>c. hb_chans h' ! c = (if c \<in> set subs \<and> length (ch_buf (hb_chans h ! c)) < 32
       then (hb_chans h ! c)\<lparr>ch_buf := ch_buf (hb_chans h ! c) @ [e]\<rparr> else hb_chans h ! c)) \<and>
    list_all (\<lambda>c. \<not> ch_closed (hb_chans h' ! c)) subs"
proof -
  let ?h = "fold hub_step qs new_hub"
  have ok: "hub_ok ?h" using hub_ok_new by (rule hub.run_inv)
  note eff = publish_effect [OF ok, of e]
  have "list_all (\<lambda>c. \<not> ch_closed (hb_chans (publish e ?h) ! c)) (subs_of ?h (sub_key (ev_scope e) (ev_scope_id e)))"
    using hub_okD(4) [OF eff(1)] eff(3) by (auto simp: list_all_iff)
  then show ?thesis
    using eff hub_okD(1) [OF eff(1)] by (simp add: hub_capacity_def Let_def)
qed

end
