(* ===== verification/LogSampler.thy ===== *)
theory LogSampler
  imports GoStd Prelude "HOL-Library.AList"
begin

text \<open>
  \<^verbatim>\<open>internal/logsampler/sampler.go\<close>: the keyed "at most once per interval" gate.  The map is an
  association list; pruning happens when it has grown past 512 keys.
\<close>

record sampler =
  sm_interval :: duration
  sm_last :: "(string \<times> gtime) list"
  sm_always :: bool

definition new_sampler :: "duration \<Rightarrow> sampler" where
  "new_sampler d = \<lparr>sm_interval = (if d < 0 then 0 else d), sm_last = [], sm_always = False\<rparr>"

definition prune_cap :: nat where
  "prune_cap = 512"

text \<open>\<^verbatim>\<open>now.Add(-s.interval * 2)\<close>: the product wraps around \<^verbatim>\<open>int64\<close>.\<close>

definition prune_cutoff :: "duration \<Rightarrow> gtime \<Rightarrow> gtime" where
  "prune_cutoff d now = time_add now (wrap64 (wrap64 (- d) * 2))"

definition prune_last :: "duration \<Rightarrow> gtime \<Rightarrow> (string \<times> gtime) list \<Rightarrow> (string \<times> gtime) list" where
  "prune_last d now ls =
     (if prune_cap < length ls then filter (\<lambda>(k, t). \<not> t < prune_cutoff d now) ls else ls)"

definition allow :: "string \<Rightarrow> gtime \<Rightarrow> sampler \<Rightarrow> bool \<times> sampler" where
  "allow key now s =
     (if sm_always s \<or> sm_interval s = 0 then (True, s)
      else
        let ls = prune_last (sm_interval s) now (sm_last s) in
        if (case map_of ls key of Some prev \<Rightarrow> time_sub now prev < sm_interval s | None \<Rightarrow> False)
        then (False, s\<lparr>sm_last := ls\<rparr>)
        else (True, s\<lparr>sm_last := AList.update key now ls\<rparr>))"

text \<open>The answers to a series of calls.\<close>

fun allow_all :: "sampler \<Rightarrow> (string \<times> gtime) list \<Rightarrow> (string \<times> gtime) list" where
  "allow_all s [] = []"
| "allow_all s ((k, t) # cs) =
     (let (ok, s') = allow k t s in (if ok then [(k, t)] else []) @ allow_all s' cs)"

section \<open>Spacing\<close>

text \<open>
  \<open>fresh s L now\<close>: \<open>L\<close> gives for each key its last emission; the sampler still knows it, or it is more
  than two intervals old.
\<close>

definition fresh :: "sampler \<Rightarrow> (string \<rightharpoonup> gtime) \<Rightarrow> gtime \<Rightarrow> bool" where
  "fresh s L now \<longleftrightarrow> distinct (map fst (sm_last s)) \<and>
     (\<forall>k t. L k = Some t \<longrightarrow> t \<le> now \<and> (map_of (sm_last s) k = Some t \<or> t + 2 * sm_interval s < now))"

lemma prune_cutoff_small:
  assumes "0 < d" and "d \<le> 2 ^ 61"
  shows "prune_cutoff d now = now - 2 * d"
  using assms by (simp add: prune_cutoff_def time_add_def wrap64_def)

lemma map_of_prune:
  assumes "distinct (map fst ls)" and "0 < d" and "d \<le> 2 ^ 61" and "map_of ls k = Some t"
  shows "map_of (prune_last d now ls) k = Some t \<or> t + 2 * d < now"
proof -
  have "(k, t) \<in> set ls" using assms(4) by (rule map_of_SomeD)
  then have "(k, t) \<in> set (prune_last d now ls) \<or> t + 2 * d < now"
    using prune_cutoff_small [OF assms(2,3), of now] by (auto simp: prune_last_def)
  moreover have "distinct (map fst (prune_last d now ls))"
    using assms(1) by (auto simp: prune_last_def intro: distinct_map_filter)
  ultimately show ?thesis by auto
qed

lemma allow_step:
  assumes s: "\<not> sm_always s" "0 < sm_interval s" "sm_interval s \<le> 2 ^ 61"
    and f: "fresh s L t0" and t: "t0 \<le> t" and r: "allow k t s = (ok, s')"
  shows "fresh s' (if ok then L(k \<mapsto> t) else L) t \<and> sm_always s' = sm_always s \<and> sm_interval s' = sm_interval s \<and>
    (ok \<longrightarrow> (\<forall>p. L k = Some p \<longrightarrow> sm_interval s \<le> t - p))"
proof -
  let ?ls = "prune_last (sm_interval s) t (sm_last s)"
  have dist: "distinct (map fst ?ls)"
    using f by (auto simp: fresh_def prune_last_def intro: distinct_map_filter)
  have kept: "p \<le> t \<and> (map_of ?ls k' = Some p \<or> p + 2 * sm_interval s < t)" if "L k' = Some p" for k' p
    using that f t map_of_prune [OF _ s(2,3), of "sm_last s" k' p t] by (fastforce simp: fresh_def)
  have old: "sm_interval s \<le> t - p" if "L k = Some p" "ok" for p
  proof (cases "map_of ?ls k = Some p")
    case True
    then have "\<not> time_sub t p < sm_interval s"
      using r that(2) s by (auto simp: allow_def Let_def split: if_splits)
    then show ?thesis
      using s(2,3) by (auto simp: time_sub_def max_int64_def min_int64_def split: if_splits)
  next
    case False
    then show ?thesis using kept [OF that(1)] s(2) by auto
  qed
  have s': "sm_always s' = sm_always s \<and> sm_interval s' = sm_interval s \<and>
      sm_last s' = (if ok then AList.update k t ?ls else ?ls)"
    using r s by (auto simp: allow_def Let_def split: if_splits)
  have "fresh s' (if ok then L(k \<mapsto> t) else L) t"
    unfolding fresh_def using s' dist kept
    by (cases ok) (auto simp: update_conv' distinct_update simp del: map_of_eq_Some_iff)
  then show ?thesis using s' old by blast
qed

definition sampling :: "duration \<Rightarrow> sampler \<Rightarrow> bool" where
  "sampling d s \<longleftrightarrow> \<not> sm_always s \<and> sm_interval s = d \<and> 0 < d \<and> d \<le> 2 ^ 61"

lemma sampling_step:
  assumes "sampling d s" and "fresh s L t0" and "t0 \<le> t" and "allow k t s = (ok, s')"
  shows "sampling d s'" and "fresh s' (if ok then L(k \<mapsto> t) else L) t" and "ok \<Longrightarrow> L k = Some p \<Longrightarrow> d \<le> t - p"
  using allow_step [OF _ _ _ assms(2-4)] assms(1) by (auto simp: sampling_def)

lemma next_emission:
  assumes "sampling d s" and "fresh s L t0" and "sorted (t0 # map snd cs)"
    and "allow_all s cs = bs @ (k, t2) # rest" and "L k = Some p"
  shows "d \<le> t2 - p"
  using assms
proof (induction cs arbitrary: s L t0 bs p)
  case (Cons c cs)
  obtain k' t' where c: "c = (k', t')" by fastforce
  obtain ok s' where a: "allow k' t' s = (ok, s')" by fastforce
  have t': "t0 \<le> t'" "sorted (t' # map snd cs)" using Cons.prems(3) c by auto
  note step = sampling_step [OF Cons.prems(1,2) t'(1) a]
  have p: "p \<le> t'" using Cons.prems(2,5) t'(1) unfolding fresh_def by (meson order_trans)
  show ?case
  proof (cases ok)
    case False
    then show ?thesis
      using Cons.IH [OF step(1) step(2) t'(2), of bs p] Cons.prems(4,5) a c by simp
  next
    case True
    then have out: "(k', t') # allow_all s' cs = bs @ (k, t2) # rest" using Cons.prems(4) a c by simp
    show ?thesis
    proof (cases bs)
      case Nil
      then show ?thesis using out step(3) [OF True] Cons.prems(5) by auto
    next
      case (Cons b bs')
      then have "allow_all s' cs = bs' @ (k, t2) # rest" using out by simp
      from Cons.IH [OF step(1) step(2) t'(2) this, of "if k' = k then t' else p"] True Cons.prems(5) p
      show ?thesis by (cases "k' = k") auto
    qed
  qed
qed simp

lemma emissions_spaced_from:
  assumes "sampling d s" and "fresh s L t0" and "sorted (t0 # map snd cs)"
    and "allow_all s cs = as @ (k, t1) # bs @ (k, t2) # rest"
  shows "d \<le> t2 - t1"
  using assms
proof (induction cs arbitrary: s L t0 as)
  case (Cons c cs)
  obtain k' t' where c: "c = (k', t')" by fastforce
  obtain ok s' where a: "allow k' t' s = (ok, s')" by fastforce
  have t': "t0 \<le> t'" "sorted (t' # map snd cs)" using Cons.prems(3) c by auto
  note step = sampling_step [OF Cons.prems(1,2) t'(1) a]
  have out: "(if ok then [(k', t')] else []) @ allow_all s' cs = as @ (k, t1) # bs @ (k, t2) # rest"
    using Cons.prems(4) a c by simp
  show ?case
  proof (cases "ok \<and> as = []")
    case True
    then have "allow_all s' cs = bs @ (k, t2) # rest" "k' = k" "t' = t1" using out by auto
    then show ?thesis using next_emission [OF step(1) step(2) t'(2), of bs k t2 rest t1] True by simp
  next
    case False
    then obtain as' where "allow_all s' cs = as' @ (k, t1) # bs @ (k, t2) # rest"
      using out by (cases as) (auto split: if_splits)
    then show ?thesis by (rule Cons.IH [OF step(1) step(2) t'(2)])
  qed
qed simp

text \<open>
  C26: The sampler keeps its promise.  Over any series of calls at non-decreasing times, whatever
  pruning does, two emissions for one key are at least an interval apart (for intervals up to
  2^61 ns, about 73 years).
\<close>
theorem emissions_spaced:
  assumes "0 < d" and "d \<le> 2 ^ 61" and "sorted (map snd cs)"
    and "allow_all (new_sampler d) cs = as @ [(k, t1)] @ bs @ [(k, t2)] @ rest"
  shows "d \<le> t2 - t1"
proof -
  let ?t0 = "case cs of [] \<Rightarrow> 0 | c # _ \<Rightarrow> snd c"
  have "sampling d (new_sampler d)" using assms(1,2) by (simp add: sampling_def new_sampler_def)
  moreover have "fresh (new_sampler d) Map.empty ?t0" by (simp add: fresh_def new_sampler_def)
  moreover have "sorted (?t0 # map snd cs)" using assms(3) by (cases cs) auto
  ultimately show ?thesis using assms(4) by (intro emissions_spaced_from) auto
qed

theorem emissions_spaced_witness:
  "\<exists>as. allow_all (new_sampler 5) [(''a'', 1), (''a'', 4), (''a'', 9)] = as \<and> as = [(''a'', 1), (''a'', 9)] \<and> (5 :: int) \<le> 9 - 1"
proof -
  have run: "allow_all (new_sampler 5) [(''a'', 1), (''a'', 4), (''a'', 9)] = [] @ [(''a'', 1)] @ [] @ [(''a'', 9)] @ []"
    by (simp add: new_sampler_def allow_def prune_last_def prune_cap_def time_sub_def max_int64_def min_int64_def Let_def)
  from emissions_spaced [OF _ _ _ this] show ?thesis using run by simp
qed

end
