(* ===== verification/DockerJobs.thy ===== *)
theory DockerJobs
  imports GoStd Prelude "HOL-Library.AList"
begin

text \<open>
  \<^verbatim>\<open>internal/dockercontrol/jobs.go\<close>: background jobs on the Docker host.  StartJob saves a job, then
  registers its cancel function and starts its goroutine; pulls wait for a slot of a semaphore.  A
  goroutine is a thread with a phase and its own copy of the job; the operations of the threads and
  of the requests interleave as an inductive step relation.  Job ids are random and taken to be new;
  an event is persisted only while the context it is appended with lives; redaction is \<open>redact\<close>.
\<close>

section \<open>State\<close>

datatype job_status = JQueued | JRunning | JCompleted | JFailed | JCancelled

record docker_job =
  dj_id :: string
  dj_type :: string
  dj_title :: string
  dj_status :: job_status
  dj_risk :: string
  dj_target :: string
  dj_error :: string
  dj_created_at :: string
  dj_started_at :: string
  dj_completed_at :: string

text \<open>\<open>Ending\<close> carries whether the thread holds a slot.\<close>

datatype phase = Created | Launched | Working | Ending bool

record docker =
  dk_jobs :: "(string \<times> docker_job) list"
  dk_threads :: "(string \<times> phase \<times> docker_job) list"
  dk_cancels :: "string list"
  dk_cancelled :: "string list"
  dk_used :: nat
  dk_slots :: nat
  dk_events :: "(string \<times> string) list"

datatype run_result = RunOk | RunCanceled | RunError string

definition pull_type :: string where
  "pull_type = ''docker.image.pull''"

definition active :: "docker_job \<Rightarrow> bool" where
  "active j \<longleftrightarrow> dj_status j = JQueued \<or> dj_status j = JRunning"

definition save_job :: "docker_job \<Rightarrow> docker \<Rightarrow> docker" where
  "save_job j d = d\<lparr>dk_jobs := AList.update (dj_id j) j (dk_jobs d)\<rparr>"

definition set_thread :: "string \<Rightarrow> phase \<Rightarrow> docker_job \<Rightarrow> docker \<Rightarrow> docker" where
  "set_thread jid ph j d = d\<lparr>dk_threads := AList.update jid (ph, j) (dk_threads d)\<rparr>"

definition append_job_event :: "bool \<Rightarrow> string \<Rightarrow> string \<Rightarrow> docker \<Rightarrow> docker" where
  "append_job_event ctx_alive jid typ d =
     (if ctx_alive then d\<lparr>dk_events := (jid, typ) # dk_events d\<rparr> else d)"

definition ctx_alive :: "string \<Rightarrow> docker \<Rightarrow> bool" where
  "ctx_alive jid d = (jid \<notin> set (dk_cancelled d))"

section \<open>Requests\<close>

text \<open>\<open>new_id\<close> is the outcome of the id generator; \<open>has_run\<close> says that a runner was given.\<close>

definition start_job ::
  "(string \<Rightarrow> string) \<Rightarrow> bool \<Rightarrow> string + string \<Rightarrow> string \<Rightarrow> string \<Rightarrow> string \<Rightarrow> string \<Rightarrow> string \<Rightarrow> docker \<Rightarrow>
   (string + docker_job) \<times> docker" where
  "start_job redact has_run new_id kind title risk target now d =
     (if \<not> has_run then (Inl ''docker job runner is required'', d)
      else case new_id of
        Inl e \<Rightarrow> (Inl e, d)
      | Inr jid \<Rightarrow>
          let job = \<lparr>dj_id = jid, dj_type = kind, dj_title = title, dj_status = JQueued, dj_risk = risk,
                dj_target = redact target, dj_error = [], dj_created_at = now, dj_started_at = [],
                dj_completed_at = []\<rparr>
          in (Inr job, append_job_event True jid ''docker.job.created'' (set_thread jid Created job (save_job job d))))"

definition launch_job :: "string \<Rightarrow> docker_job \<Rightarrow> docker \<Rightarrow> docker" where
  "launch_job jid job d = set_thread jid Launched job (d\<lparr>dk_cancels := List.insert jid (dk_cancels d)\<rparr>)"

text \<open>The list in the map's iteration order, newest first, cut to the limit.\<close>

definition list_jobs :: "int \<Rightarrow> docker_job list \<Rightarrow> docker_job list" where
  "list_jobs limit jobs =
     (let n = (if limit \<le> 0 then 50 else limit); n' = (if 200 < n then 200 else n)
      in take (nat n') (rev (sort_key dj_created_at (rev jobs))))"

definition cancel_job :: "string \<Rightarrow> docker \<Rightarrow> (string + docker_job) \<times> docker" where
  "cancel_job jid d =
     (case map_of (dk_jobs d) jid of
        None \<Rightarrow> (Inl ''docker job not found'', d)
      | Some job \<Rightarrow>
          if \<not> active job then (Inl ''docker job can no longer be cancelled'', d)
          else if jid \<notin> set (dk_cancels d) then (Inl ''docker job has no active cancel handle'', d)
          else (Inr job, append_job_event True jid ''docker.job.cancel.requested''
                  (d\<lparr>dk_cancelled := List.insert jid (dk_cancelled d)\<rparr>)))"

fun newest :: "docker_job option \<Rightarrow> docker_job list \<Rightarrow> docker_job option" where
  "newest latest [] = latest"
| "newest latest (j # js) =
     newest (case latest of None \<Rightarrow> Some j | Some l \<Rightarrow> if dj_created_at l < dj_created_at j then Some j else Some l) js"

definition latest_job :: "docker_job list \<Rightarrow> docker_job option" where
  "latest_job jobs = newest None jobs"

definition active_job :: "docker_job list \<Rightarrow> docker_job option" where
  "active_job jobs = newest None (filter active jobs)"

section \<open>The goroutine\<close>

definition started_job :: "docker_job \<Rightarrow> string \<Rightarrow> docker_job" where
  "started_job j now = j\<lparr>dj_status := JRunning, dj_started_at := now\<rparr>"

definition begin_run :: "string \<Rightarrow> docker_job \<Rightarrow> string \<Rightarrow> docker \<Rightarrow> docker" where
  "begin_run jid job now d =
     (let j = started_job job now; d1 = (if dj_type job = pull_type then d\<lparr>dk_used := Suc (dk_used d)\<rparr> else d)
      in append_job_event (ctx_alive jid d) jid ''docker.job.started'' (set_thread jid Working j (save_job j d1)))"

definition cancelled_waiting :: "string \<Rightarrow> docker_job \<Rightarrow> string \<Rightarrow> docker \<Rightarrow> docker" where
  "cancelled_waiting jid job now d =
     (let j = job\<lparr>dj_status := JCancelled, dj_error := ''cancelled by owner'', dj_completed_at := now\<rparr>
      in append_job_event True jid ''docker.job.cancelled'' (set_thread jid (Ending False) j (save_job j d)))"

definition finished_job :: "(string \<Rightarrow> string) \<Rightarrow> docker_job \<Rightarrow> run_result \<Rightarrow> string \<Rightarrow> docker_job" where
  "finished_job redact j r now =
     (case r of
        RunOk \<Rightarrow> j\<lparr>dj_status := JCompleted, dj_completed_at := now\<rparr>
      | RunCanceled \<Rightarrow> j\<lparr>dj_status := JCancelled, dj_error := ''cancelled by owner'', dj_completed_at := now\<rparr>
      | RunError e \<Rightarrow> j\<lparr>dj_status := JFailed, dj_error := redact e, dj_completed_at := now\<rparr>)"

definition finish_run :: "(string \<Rightarrow> string) \<Rightarrow> string \<Rightarrow> docker_job \<Rightarrow> run_result \<Rightarrow> string \<Rightarrow> docker \<Rightarrow> docker" where
  "finish_run redact jid job r now d =
     (let j = finished_job redact job r now
      in append_job_event (r = RunCanceled \<or> ctx_alive jid d) jid
           (case r of RunOk \<Rightarrow> ''docker.job.completed'' | RunCanceled \<Rightarrow> ''docker.job.cancelled'' | RunError _ \<Rightarrow> ''docker.job.failed'')
           (set_thread jid (Ending (dj_type job = pull_type)) j (save_job j d)))"

text \<open>The deferred calls: release the slot, drop the cancel function.\<close>

definition end_run :: "string \<Rightarrow> bool \<Rightarrow> docker \<Rightarrow> docker" where
  "end_run jid holds d =
     d\<lparr>dk_used := (if holds then dk_used d - 1 else dk_used d), dk_cancels := removeAll jid (dk_cancels d),
       dk_threads := AList.delete jid (dk_threads d)\<rparr>"

section \<open>Interleaving\<close>

definition new_docker :: "nat \<Rightarrow> docker" where
  "new_docker slots = \<lparr>dk_jobs = [], dk_threads = [], dk_cancels = [], dk_cancelled = [], dk_used = 0,
     dk_slots = slots, dk_events = []\<rparr>"

definition thread :: "docker \<Rightarrow> string \<Rightarrow> (phase \<times> docker_job) option" where
  "thread d jid = map_of (dk_threads d) jid"

inductive docker_step :: "(string \<Rightarrow> string) \<Rightarrow> docker \<Rightarrow> docker \<Rightarrow> bool" for redact where
  step_start: "map_of (dk_jobs d) jid = None \<Longrightarrow>
     docker_step redact d (snd (start_job redact True (Inr jid) kind title risk target now d))"
| step_launch: "thread d jid = Some (Created, job) \<Longrightarrow> docker_step redact d (launch_job jid job d)"
| step_cancel: "docker_step redact d (snd (cancel_job jid d))"
| step_begin: "thread d jid = Some (Launched, job) \<Longrightarrow> (dj_type job = pull_type \<Longrightarrow> dk_used d < dk_slots d) \<Longrightarrow>
     docker_step redact d (begin_run jid job now d)"
| step_waiting: "thread d jid = Some (Launched, job) \<Longrightarrow> dj_type job = pull_type \<Longrightarrow> \<not> ctx_alive jid d \<Longrightarrow>
     docker_step redact d (cancelled_waiting jid job now d)"
| step_finish: "thread d jid = Some (Working, job) \<Longrightarrow> docker_step redact d (finish_run redact jid job r now d)"
| step_end: "thread d jid = Some (Ending holds, job) \<Longrightarrow> docker_step redact d (end_run jid holds d)"

inductive_cases docker_stepE: "docker_step redact d d'"

inductive reachable :: "(string \<Rightarrow> string) \<Rightarrow> nat \<Rightarrow> docker \<Rightarrow> bool" for redact slots where
  reach_new: "reachable redact slots (new_docker slots)"
| reach_step: "reachable redact slots d \<Longrightarrow> docker_step redact d d' \<Longrightarrow> reachable redact slots d'"

section \<open>The invariant\<close>

fun fits :: "phase \<Rightarrow> docker_job \<Rightarrow> bool" where
  "fits Created j = (dj_status j = JQueued)"
| "fits Launched j = (dj_status j = JQueued)"
| "fits Working j = (dj_status j = JRunning)"
| "fits (Ending h) j = (\<not> active j)"

definition holds_slot :: "phase \<times> docker_job \<Rightarrow> bool" where
  "holds_slot t \<longleftrightarrow> fst t = Working \<and> dj_type (snd t) = pull_type \<or> fst t = Ending True"

definition holders :: "docker \<Rightarrow> string set" where
  "holders d = {jid. \<exists>t. thread d jid = Some t \<and> holds_slot t}"

definition docker_ok :: "nat \<Rightarrow> docker \<Rightarrow> bool" where
  "docker_ok slots d \<longleftrightarrow> dk_slots d = slots \<and> dk_used d = card (holders d) \<and> dk_used d \<le> slots \<and>
     (\<forall>jid ph j. thread d jid = Some (ph, j) \<longrightarrow>
        map_of (dk_jobs d) jid = Some j \<and> dj_id j = jid \<and> fits ph j \<and> (ph \<noteq> Created \<longrightarrow> jid \<in> set (dk_cancels d))) \<and>
     (\<forall>jid j. map_of (dk_jobs d) jid = Some j \<longrightarrow> active j \<longrightarrow> thread d jid \<noteq> None)"

lemma finite_holders: "finite (holders d)"
proof -
  have "holders d \<subseteq> dom (map_of (dk_threads d))" by (auto simp: holders_def thread_def)
  then show ?thesis using finite_dom_map_of finite_subset by blast
qed

lemma docker_okD:
  assumes "docker_ok slots d"
  shows "dk_slots d = slots" and "dk_used d = card (holders d)" and "card (holders d) \<le> slots"
    and "thread d jid = Some (ph, j) \<Longrightarrow> map_of (dk_jobs d) jid = Some j \<and> dj_id j = jid \<and> fits ph j"
    and "thread d jid = Some (ph, j) \<Longrightarrow> ph \<noteq> Created \<Longrightarrow> jid \<in> set (dk_cancels d)"
    and "map_of (dk_jobs d) jid = Some k \<Longrightarrow> active k \<Longrightarrow> thread d jid \<noteq> None"
  using assms unfolding docker_ok_def by auto

lemma thread_simps [simp]:
  "thread (append_job_event b i t d) = thread d" "thread (save_job j d) = thread d"
  "thread (set_thread jid ph j d) = (thread d)(jid \<mapsto> (ph, j))"
  "thread (d\<lparr>dk_used := n\<rparr>) = thread d" "thread (d\<lparr>dk_cancels := cs\<rparr>) = thread d" "thread (d\<lparr>dk_cancelled := cs\<rparr>) = thread d"
  by (auto simp: thread_def append_job_event_def save_job_def set_thread_def fun_eq_iff update_conv')

lemma docker_fields [simp]:
  "dk_jobs (append_job_event b i t d) = dk_jobs d" "dk_jobs (set_thread jid ph j d) = dk_jobs d"
  "dk_cancels (append_job_event b i t d) = dk_cancels d" "dk_cancels (set_thread jid ph j d) = dk_cancels d"
  "dk_cancels (save_job j d) = dk_cancels d" "dk_slots (append_job_event b i t d) = dk_slots d"
  "dk_slots (set_thread jid ph j d) = dk_slots d" "dk_slots (save_job j d) = dk_slots d"
  "dk_used (append_job_event b i t d) = dk_used d" "dk_used (set_thread jid ph j d) = dk_used d"
  "dk_used (save_job j d) = dk_used d" "map_of (dk_jobs (save_job j d)) = (map_of (dk_jobs d))(dj_id j \<mapsto> j)"
  by (auto simp: append_job_event_def save_job_def set_thread_def update_conv')

text \<open>
  The common step of a thread: its job is saved again and its phase moves; the slots in use follow
  the threads that hold one.
\<close>

lemma docker_ok_move:
  assumes ok: "docker_ok slots d" and id: "dj_id j = jid" and fits: "fits ph j"
    and jobs: "map_of (dk_jobs d') = (map_of (dk_jobs d))(jid \<mapsto> j)" and threads: "thread d' = (thread d)(jid \<mapsto> (ph, j))"
    and cancels: "set (dk_cancels d) \<subseteq> set (dk_cancels d')" "ph \<noteq> Created \<longrightarrow> jid \<in> set (dk_cancels d')"
    and slots: "dk_slots d' = slots"
    and used: "dk_used d' = (if jid \<in> holders d \<longleftrightarrow> holds_slot (ph, j) then dk_used d
                else if holds_slot (ph, j) then Suc (dk_used d) else dk_used d - 1)" "dk_used d' \<le> slots"
  shows "docker_ok slots d'"
proof -
  have "holders d' = (if holds_slot (ph, j) then insert jid (holders d) else holders d - {jid})"
    by (auto simp: holders_def threads)
  then have "dk_used d' = card (holders d')"
    using used(1) docker_okD(2) [OF ok] finite_holders [of d] by (auto simp: card_insert_if insert_absorb)
  moreover have "map_of (dk_jobs d') k = Some i \<and> dj_id i = k \<and> fits p i \<and> (p \<noteq> Created \<longrightarrow> k \<in> set (dk_cancels d'))"
    if "thread d' k = Some (p, i)" for k p i
    using that docker_okD(4,5) [OF ok, of k p i] id fits cancels by (auto simp: jobs threads split: if_splits)
  moreover have "thread d' k \<noteq> None" if "map_of (dk_jobs d') k = Some i" "active i" for k i
    using that docker_okD(6) [OF ok, of k i] by (auto simp: jobs threads split: if_splits)
  ultimately show ?thesis using slots used(2) unfolding docker_ok_def by blast
qed

lemma docker_ok_new: "docker_ok slots (new_docker slots)"
  by (simp add: docker_ok_def new_docker_def holders_def thread_def)

lemma not_holder: "docker_ok slots d \<Longrightarrow> thread d jid = Some (ph, j) \<Longrightarrow> jid \<in> holders d \<longleftrightarrow> holds_slot (ph, j)"
  by (simp add: holders_def)

lemma end_run_fields:
  "dk_jobs (end_run jid h d) = dk_jobs d" "dk_slots (end_run jid h d) = dk_slots d"
  "dk_used (end_run jid h d) = (if h then dk_used d - 1 else dk_used d)"
  "dk_cancels (end_run jid h d) = removeAll jid (dk_cancels d)"
  "thread (end_run jid h d) = (thread d)(jid := None)"
  by (auto simp: thread_def end_run_def delete_conv' fun_eq_iff)

lemma docker_ok_end:
  assumes ok: "docker_ok slots d" and t: "thread d jid = Some (Ending holds, job)"
  shows "docker_ok slots (end_run jid holds d)"
proof -
  note old = docker_okD(4) [OF ok t]
  have "holders (end_run jid holds d) = holders d - {jid}" by (auto simp: holders_def end_run_fields)
  moreover have "jid \<in> holders d \<longleftrightarrow> holds" using t by (auto simp: holders_def holds_slot_def)
  ultimately have used: "dk_used (end_run jid holds d) = card (holders (end_run jid holds d))"
    using docker_okD(2) [OF ok] finite_holders [of d] by (auto simp: end_run_fields card_Diff_singleton)
  have le: "dk_used (end_run jid holds d) \<le> slots"
    using docker_okD(2,3) [OF ok] by (auto simp: end_run_fields)
  have live: "thread (end_run jid holds d) k \<noteq> None"
    if "map_of (dk_jobs (end_run jid holds d)) k = Some i" "active i" for k i
  proof -
    have "k \<noteq> jid" using that old by (auto simp: end_run_fields)
    then show ?thesis using that docker_okD(6) [OF ok, of k i] by (simp add: end_run_fields)
  qed
  have thr: "map_of (dk_jobs (end_run jid holds d)) k = Some i \<and> dj_id i = k \<and> fits p i \<and>
      (p \<noteq> Created \<longrightarrow> k \<in> set (dk_cancels (end_run jid holds d)))"
    if "thread (end_run jid holds d) k = Some (p, i)" for k p i
    using that docker_okD(4,5) [OF ok, of k p i] by (auto simp: end_run_fields split: if_splits)
  show ?thesis
    using docker_okD(1) [OF ok] used le live thr unfolding docker_ok_def by (simp add: end_run_fields)
qed

lemma docker_ok_step:
  assumes step: "docker_step redact d d'" and ok: "docker_ok slots d"
  shows "docker_ok slots d'"
  using step
proof cases
  case (step_start jid kind title risk target now)
  then have "thread d jid = None" using docker_okD(4) [OF ok, of jid] by (cases "thread d jid") auto
  then have "jid \<notin> holders d" by (simp add: holders_def)
  then show ?thesis
    unfolding step_start(1)
    by (intro docker_ok_move [OF ok, where ph = Created and jid = jid])
       (use docker_okD(1,2,3) [OF ok] in \<open>auto simp: start_job_def Let_def holds_slot_def\<close>)
next
  case (step_launch jid job)
  note t = docker_okD(4) [OF ok step_launch(2)]
  then show ?thesis
    unfolding step_launch(1)
    by (intro docker_ok_move [OF ok, where ph = Launched and jid = jid and j = job])
       (use docker_okD(1,2,3) [OF ok] not_holder [OF ok step_launch(2)] in
         \<open>auto simp: launch_job_def holds_slot_def fun_upd_idem\<close>)
next
  case (step_cancel jid)
  then show ?thesis
    using ok by (auto simp: cancel_job_def docker_ok_def holders_def split: option.splits)
next
  case (step_begin jid job now)
  note t = docker_okD(4) [OF ok step_begin(2)]
  have "dj_id (started_job job now) = jid" "fits Working (started_job job now)"
    using t by (auto simp: started_job_def)
  then show ?thesis
    unfolding step_begin(1)
    by (intro docker_ok_move [OF ok, where ph = Working and jid = jid and j = "started_job job now"])
       (use docker_okD(1,2,3) [OF ok] docker_okD(5) [OF ok step_begin(2)] not_holder [OF ok step_begin(2)] step_begin(3) in
         \<open>auto simp: begin_run_def holds_slot_def Let_def started_job_def\<close>)
next
  case (step_waiting jid job now)
  note t = docker_okD(4) [OF ok step_waiting(2)]
  show ?thesis
    unfolding step_waiting(1)
    by (intro docker_ok_move [OF ok, where ph = "Ending False" and jid = jid and
          j = "job\<lparr>dj_status := JCancelled, dj_error := ''cancelled by owner'', dj_completed_at := now\<rparr>"])
       (use t docker_okD(1,2,3) [OF ok] docker_okD(5) [OF ok step_waiting(2)] not_holder [OF ok step_waiting(2)] in
         \<open>auto simp: cancelled_waiting_def holds_slot_def Let_def active_def\<close>)
next
  case (step_finish jid job r now)
  note t = docker_okD(4) [OF ok step_finish(2)]
  have j: "dj_id (finished_job redact job r now) = jid" "\<not> active (finished_job redact job r now)"
    "dj_type (finished_job redact job r now) = dj_type job"
    using t by (auto simp: finished_job_def active_def split: run_result.split)
  then show ?thesis
    unfolding step_finish(1)
    by (intro docker_ok_move [OF ok, where ph = "Ending (dj_type job = pull_type)" and jid = jid and
          j = "finished_job redact job r now"])
       (use t docker_okD(1,2,3) [OF ok] docker_okD(5) [OF ok step_finish(2)] not_holder [OF ok step_finish(2)] in
         \<open>auto simp: finish_run_def holds_slot_def Let_def\<close>)
next
  case (step_end jid holds job)
  then show ?thesis using docker_ok_end [OF ok] by simp
qed

lemma reachable_ok: "reachable redact slots d \<Longrightarrow> docker_ok slots d"
  by (induction rule: reachable.induct) (auto intro: docker_ok_new docker_ok_step)

section \<open>Properties\<close>

lemma settled_kept:
  assumes step: "docker_step redact d d'" and ok: "docker_ok slots d"
    and j: "map_of (dk_jobs d) k = Some j" "\<not> active j"
  shows "map_of (dk_jobs d') k = Some j"
proof -
  have working: False if "thread d k = Some (ph, i)" "\<forall>h. ph \<noteq> Ending h" for ph i
    using docker_okD(4) [OF ok that(1)] that(2) j by (cases ph) (auto simp: active_def)
  from step show ?thesis
  proof cases
    case (step_start jid kind title risk target now)
    then show ?thesis using j by (auto simp: start_job_def Let_def)
  next
    case (step_launch jid job)
    then show ?thesis using j by (simp add: launch_job_def)
  next
    case (step_cancel jid)
    then show ?thesis using j by (auto simp: cancel_job_def split: option.splits)
  next
    case (step_begin jid job now)
    then show ?thesis
      using j working [of Launched job] docker_okD(4) [OF ok step_begin(2)]
      by (cases "jid = k") (auto simp: begin_run_def Let_def started_job_def)
  next
    case (step_waiting jid job now)
    then show ?thesis
      using j working [of Launched job] docker_okD(4) [OF ok step_waiting(2)]
      by (cases "jid = k") (auto simp: cancelled_waiting_def Let_def)
  next
    case (step_finish jid job r now)
    moreover have "dj_id (finished_job redact job r now) = dj_id job"
      by (simp add: finished_job_def split: run_result.split)
    ultimately show ?thesis
      using j working [of Working job] docker_okD(4) [OF ok step_finish(2)]
      by (cases "jid = k") (auto simp: finish_run_def Let_def)
  next
    case (step_end jid holds job)
    then show ?thesis using j by (simp add: end_run_fields)
  qed
qed

lemma settled_kept_steps:
  assumes "(docker_step redact)\<^sup>*\<^sup>* d d'" "docker_ok slots d" "map_of (dk_jobs d) k = Some j" "\<not> active j"
  shows "docker_ok slots d' \<and> map_of (dk_jobs d') k = Some j"
  using assms by (induction rule: rtranclp_induct) (auto intro: docker_ok_step settled_kept)

lemma cancel_accepts:
  assumes ok: "docker_ok slots d" and j: "map_of (dk_jobs d) jid = Some j" "active j"
    and launched: "thread d jid \<noteq> Some (Created, j)"
  shows "fst (cancel_job jid d) = Inr j \<and> \<not> ctx_alive jid (snd (cancel_job jid d))"
proof -
  from docker_okD(6) [OF ok j] obtain ph i where t: "thread d jid = Some (ph, i)" by auto
  with docker_okD(4) [OF ok t] j launched have "ph \<noteq> Created" by auto
  then show ?thesis
    using docker_okD(5) [OF ok t] j by (simp add: cancel_job_def ctx_alive_def append_job_event_def)
qed

text \<open>
  C37: In every reachable state of the Docker jobs at most as many image pulls are running as the
  semaphore has slots, and the semaphore's count is the number of threads holding a slot.
\<close>

theorem pull_slots_bounded:
  assumes "reachable redact slots d"
  shows "card {jid. \<exists>j. thread d jid = Some (Working, j) \<and> dj_type j = pull_type} \<le> slots \<and> dk_used d = card (holders d)"
proof -
  note ok = reachable_ok [OF assms]
  have "{jid. \<exists>j. thread d jid = Some (Working, j) \<and> dj_type j = pull_type} \<subseteq> holders d"
    by (auto simp: holders_def holds_slot_def)
  then show ?thesis
    using card_mono [OF finite_holders, of _ d] docker_okD(2,3) [OF ok] by (meson le_trans)
qed

text \<open>
  C38: A Docker job that has completed, failed or been cancelled keeps its row for ever: no request
  and no thread, in whatever order they run, changes it again.
\<close>

theorem settled_jobs_stay:
  assumes "reachable redact slots d" "map_of (dk_jobs d) jid = Some j" "\<not> active j" "(docker_step redact)\<^sup>*\<^sup>* d d'"
  shows "map_of (dk_jobs d') jid = Some j"
  using settled_kept_steps [OF assms(4) reachable_ok [OF assms(1)] assms(2,3)] by simp

text \<open>
  C39: In every reachable state a queued or running Docker job has a thread, and once StartJob has
  launched it, CancelJob accepts it and cancels its context.
\<close>

theorem active_job_cancellable:
  assumes "reachable redact slots d" "map_of (dk_jobs d) jid = Some j" "active j"
  shows "\<exists>ph. thread d jid = Some (ph, j) \<and>
           (ph \<noteq> Created \<longrightarrow> fst (cancel_job jid d) = Inr j \<and> \<not> ctx_alive jid (snd (cancel_job jid d)))"
proof -
  note ok = reachable_ok [OF assms(1)]
  from docker_okD(6) [OF ok assms(2,3)] obtain ph i where t: "thread d jid = Some (ph, i)" by auto
  with docker_okD(4) [OF ok t] assms(2) have "i = j" by simp
  with t show ?thesis using cancel_accepts [OF ok assms(2,3)] by auto
qed

section \<open>Witnesses\<close>

definition pull_started :: docker where
  "pull_started = snd (start_job id True (Inr ''a'') pull_type ''Pull'' ''low'' ''redis'' ''1'' (new_docker 1))"

definition pull_job :: docker_job where
  "pull_job = \<lparr>dj_id = ''a'', dj_type = pull_type, dj_title = ''Pull'', dj_status = JQueued, dj_risk = ''low'',
     dj_target = ''redis'', dj_error = [], dj_created_at = ''1'', dj_started_at = [], dj_completed_at = []\<rparr>"

definition pull_running :: docker where
  "pull_running = begin_run ''a'' pull_job ''2'' (launch_job ''a'' pull_job pull_started)"

definition pull_done :: docker where
  "pull_done = finish_run id ''a'' (started_job pull_job ''2'') RunOk ''3'' pull_running"

lemmas pull_defs = pull_started_def pull_job_def pull_running_def pull_done_def start_job_def new_docker_def save_job_def
  set_thread_def append_job_event_def launch_job_def begin_run_def finish_run_def started_job_def finished_job_def
  Let_def ctx_alive_def thread_def

lemma reach_pull_started: "reachable id 1 pull_started"
  unfolding pull_started_def by (rule reach_step [OF reach_new], rule step_start) (simp add: new_docker_def)

lemma reach_pull_running: "reachable id 1 pull_running"
proof -
  have "reachable id 1 (launch_job ''a'' pull_job pull_started)"
    by (rule reach_step [OF reach_pull_started], rule step_launch) (simp add: pull_defs)
  then show ?thesis
    unfolding pull_running_def by (rule reach_step, intro step_begin) (simp_all add: pull_defs)
qed

lemma reach_pull_done: "reachable id 1 pull_done"
  unfolding pull_done_def by (rule reach_step [OF reach_pull_running], rule step_finish) (simp add: pull_defs)

theorem pull_slots_bounded_witness:
  "dk_used pull_running = 1 \<and> card {jid. \<exists>j. thread pull_running jid = Some (Working, j) \<and> dj_type j = pull_type} \<le> 1"
  using pull_slots_bounded [OF reach_pull_running] by (simp add: pull_defs)

theorem settled_jobs_stay_witness:
  "map_of (dk_jobs (end_run ''a'' True pull_done)) ''a'' = Some (finished_job id (started_job pull_job ''2'') RunOk ''3'')"
proof -
  have "(docker_step id)\<^sup>*\<^sup>* pull_done (end_run ''a'' True pull_done)"
    by (rule r_into_rtranclp, rule step_end [where job = "finished_job id (started_job pull_job ''2'') RunOk ''3''"])
       (simp add: pull_defs)
  then show ?thesis
    by (rule settled_jobs_stay [OF reach_pull_done, rotated 2]) (simp_all add: pull_defs active_def)
qed

theorem active_job_cancellable_witness:
  "fst (cancel_job ''a'' pull_running) = Inr (started_job pull_job ''2'')"
proof -
  have t: "thread pull_running ''a'' = Some (Working, started_job pull_job ''2'')" by (simp add: pull_defs)
  have j: "map_of (dk_jobs pull_running) ''a'' = Some (started_job pull_job ''2'')" "active (started_job pull_job ''2'')"
    by (simp_all add: pull_defs active_def)
  show ?thesis using active_job_cancellable [OF reach_pull_running j] t by auto
qed

end
