(* ===== verification/GoFloat.thy ===== *)
theory GoFloat
  imports Complex_Main
begin

text \<open>
  Go's \<^verbatim>\<open>float64\<close> (IEEE 754 binary64).  Every finite value is a multiple of \<open>2 ^ -1074\<close>, so \<open>Fin n\<close>
  stands for \<open>n * 2 ^ -1074\<close>; arithmetic is exact on these integers and then rounded to 53
  significant bits, ties to even, with overflow to infinity.  The sign of zero is not represented:
  it shows only in a division by zero, which is taken to be by positive zero, and in printing.
\<close>

datatype f64 = NaN | PInf | NInf | Fin int

section \<open>Rounding\<close>

text \<open>The integer nearest to \<open>a / c\<close>, ties to even.\<close>

definition rne_div :: "int \<Rightarrow> int \<Rightarrow> int" where
  "rne_div a c =
     (let q = a div c; r = a mod c in if 2 * r < c then q else if c < 2 * r then q + 1 else if even q then q else q + 1)"

text \<open>The weight of the last of the 53 significant bits of \<open>q\<close>.\<close>

function ulp :: "int \<Rightarrow> int" where
  "ulp q = (if q < 2 ^ 53 then 1 else 2 * ulp (q div 2))"
  by auto
termination by (relation "measure nat") auto

declare ulp.simps [simp del]

text \<open>The value of 53 significant bits nearest to \<open>a / b\<close>, for \<open>a \<ge> 0\<close> and \<open>b > 0\<close>.\<close>

definition round_mag :: "int \<Rightarrow> int \<Rightarrow> int" where
  "round_mag a b = (let s = ulp (a div b) in rne_div a (b * s) * s)"

definition fround :: "int \<Rightarrow> int \<Rightarrow> f64" where
  "fround a b =
     (let m = round_mag \<bar>a\<bar> b in
      if 2 ^ 2098 \<le> m then (if a < 0 then NInf else PInf) else Fin (sgn a * m))"

definition f64_unit :: int where
  "f64_unit = 2 ^ 1074"

definition f64_ratio :: "int \<Rightarrow> int \<Rightarrow> f64" where
  "f64_ratio a b = fround (a * f64_unit) b"

definition f64_of_int :: "int \<Rightarrow> f64" where
  "f64_of_int n = fround (n * f64_unit) 1"

section \<open>Operations\<close>

fun fneg :: "f64 \<Rightarrow> f64" where
  "fneg NaN = NaN"
| "fneg PInf = NInf"
| "fneg NInf = PInf"
| "fneg (Fin m) = Fin (- m)"

fun fadd :: "f64 \<Rightarrow> f64 \<Rightarrow> f64" where
  "fadd (Fin m) (Fin n) = fround (m + n) 1"
| "fadd NaN x = NaN"
| "fadd x NaN = NaN"
| "fadd PInf NInf = NaN"
| "fadd NInf PInf = NaN"
| "fadd PInf x = PInf"
| "fadd NInf x = NInf"
| "fadd x PInf = PInf"
| "fadd x NInf = NInf"

definition fsub :: "f64 \<Rightarrow> f64 \<Rightarrow> f64" where
  "fsub x y = fadd x (fneg y)"

text \<open>An infinity of the given sign; no sign gives NaN.\<close>

definition inf_of :: "int \<Rightarrow> f64" where
  "inf_of s = (if 0 < s then PInf else if s < 0 then NInf else NaN)"

fun fsgn :: "f64 \<Rightarrow> int" where
  "fsgn NaN = 0"
| "fsgn PInf = 1"
| "fsgn NInf = -1"
| "fsgn (Fin m) = sgn m"

fun fmul :: "f64 \<Rightarrow> f64 \<Rightarrow> f64" where
  "fmul (Fin m) (Fin n) = fround (m * n) f64_unit"
| "fmul NaN x = NaN"
| "fmul x NaN = NaN"
| "fmul x y = inf_of (fsgn x * fsgn y)"

fun fdiv :: "f64 \<Rightarrow> f64 \<Rightarrow> f64" where
  "fdiv NaN x = NaN"
| "fdiv x NaN = NaN"
| "fdiv (Fin m) (Fin n) = (if n = 0 then inf_of (sgn m) else fround (m * f64_unit * sgn n) \<bar>n\<bar>)"
| "fdiv (Fin m) x = Fin 0"
| "fdiv x (Fin n) = (if n < 0 then fneg x else x)"
| "fdiv x y = NaN"

fun flt :: "f64 \<Rightarrow> f64 \<Rightarrow> bool" where
  "flt (Fin m) (Fin n) = (m < n)"
| "flt NaN x = False"
| "flt x NaN = False"
| "flt x PInf = (x \<noteq> PInf)"
| "flt NInf x = (x \<noteq> NInf)"
| "flt x y = False"

definition fle :: "f64 \<Rightarrow> f64 \<Rightarrow> bool" where
  "fle x y \<longleftrightarrow> flt x y \<or> x = y \<and> x \<noteq> NaN"

abbreviation f0 :: f64 where
  "f0 \<equiv> Fin 0"

definition fpos :: "f64 \<Rightarrow> bool" where
  "fpos x \<longleftrightarrow> flt f0 x"

section \<open>Lemmas\<close>

lemma rne_div_pos:
  assumes "0 < c" "c \<le> a" shows "1 \<le> rne_div a c"
proof -
  have "1 \<le> a div c" using assms by (simp add: pos_imp_zdiv_pos_iff int_one_le_iff_zero_less)
  then show ?thesis by (auto simp: rne_div_def Let_def)
qed

lemma rne_div_nonneg: "0 < c \<Longrightarrow> 0 \<le> a \<Longrightarrow> 0 \<le> rne_div a c"
  using pos_imp_zdiv_nonneg_iff [of c a] by (auto simp: rne_div_def Let_def)

lemma rne_div_one [simp]: "rne_div a 1 = a"
  by (simp add: rne_div_def)

lemma rne_div_exact: "0 < c \<Longrightarrow> rne_div (k * c) c = k"
  by (simp add: rne_div_def)

lemma ulp_pos: "1 \<le> ulp q"
  by (induction q rule: ulp.induct) (subst ulp.simps, auto)

lemma ulp_le: "0 < q \<Longrightarrow> ulp q \<le> q"
proof (induction q rule: ulp.induct)
  case (1 q)
  then show ?case
  proof (cases "q < 2 ^ 53")
    case True
    then show ?thesis using 1 by (subst ulp.simps) simp
  next
    case False
    then have "ulp (q div 2) \<le> q div 2" using 1 by auto
    then show ?thesis using False by (subst ulp.simps) auto
  qed
qed

lemma ulp_dvd: "0 \<le> a \<Longrightarrow> a < 2 ^ 53 \<Longrightarrow> ulp (a * 2 ^ k) dvd 2 ^ k"
proof (induction k)
  case 0
  then show ?case by (subst ulp.simps) simp
next
  case (Suc k)
  have "a * 2 ^ Suc k div 2 = a * 2 ^ k" by simp
  then show ?case using Suc by (subst ulp.simps) (auto intro: mult_dvd_mono)
qed

lemma round_mag_nonneg: "0 < b \<Longrightarrow> 0 \<le> a \<Longrightarrow> 0 \<le> round_mag a b"
  using ulp_pos [of "a div b"] by (auto simp: round_mag_def Let_def intro!: mult_nonneg_nonneg rne_div_nonneg)

lemma round_mag_pos:
  assumes "0 < b" "b \<le> a" shows "1 \<le> round_mag a b"
proof -
  let ?s = "ulp (a div b)"
  have q: "0 < a div b" using assms by (simp add: pos_imp_zdiv_pos_iff)
  have "b * ?s \<le> b * (a div b)" using assms(1) ulp_le [OF q] by simp
  also have "\<dots> \<le> a" using pos_mod_sign [OF assms(1), of a] mult_div_mod_eq [of b a] by linarith
  finally have "1 \<le> rne_div a (b * ?s)" using assms(1) ulp_pos [of "a div b"] by (intro rne_div_pos) auto
  then have "1 * 1 \<le> rne_div a (b * ?s) * ?s" using ulp_pos [of "a div b"] by (intro mult_mono) auto
  then show ?thesis by (simp add: round_mag_def Let_def)
qed

text \<open>Nothing is lost when 53 bits suffice.\<close>

lemma round_mag_exact:
  assumes "0 < b" "0 \<le> a" "a < 2 ^ 53" shows "round_mag (a * 2 ^ k * b) b = a * 2 ^ k"
proof -
  let ?s = "ulp (a * 2 ^ k)"
  obtain c where "2 ^ k = ?s * c" using ulp_dvd [OF assms(2,3)] by (auto elim: dvdE)
  then have e: "a * 2 ^ k = a * c * ?s" by (metis mult.assoc mult.commute)
  have "rne_div (a * 2 ^ k * b) (b * ?s) = rne_div (a * c * (b * ?s)) (b * ?s)" using e by (metis mult.assoc mult.commute)
  also have "\<dots> = a * c" using assms(1) ulp_pos [of "a * 2 ^ k"] by (intro rne_div_exact) auto
  finally show ?thesis using assms(1) e by (auto simp: round_mag_def Let_def)
qed

lemma fround_exact:
  assumes "0 < b" "\<bar>a\<bar> < 2 ^ 53" "\<bar>a\<bar> * 2 ^ k < 2 ^ 2098" shows "fround (a * 2 ^ k * b) b = Fin (a * 2 ^ k)"
proof -
  have "\<bar>a * 2 ^ k * b\<bar> = \<bar>a\<bar> * 2 ^ k * b" using assms(1) by (simp add: abs_mult)
  then have "round_mag \<bar>a * 2 ^ k * b\<bar> b = \<bar>a\<bar> * 2 ^ k" using round_mag_exact [of b "\<bar>a\<bar>" k] assms by simp
  moreover have "sgn (a * 2 ^ k * b) * (\<bar>a\<bar> * 2 ^ k) = a * 2 ^ k"
    using assms(1) by (simp add: sgn_mult mult.assoc [symmetric] sgn_mult_abs)
  ultimately show ?thesis using assms(3) by (simp add: fround_def Let_def del: power_numeral)
qed

lemma unit_room: "\<bar>a\<bar> < 2 ^ 53 \<Longrightarrow> \<bar>a\<bar> * 2 ^ 1074 < (2 :: int) ^ 2098"
proof -
  assume "\<bar>a\<bar> < 2 ^ 53"
  then have "\<bar>a\<bar> * 2 ^ 1074 < 2 ^ 53 * 2 ^ 1074" by (intro mult_strict_right_mono) simp_all
  also have "\<dots> \<le> (2 :: int) ^ 2098" by (simp only: power_add [symmetric]) simp
  finally show ?thesis .
qed

lemma f64_of_int_exact: "\<bar>a\<bar> < 2 ^ 53 \<Longrightarrow> f64_of_int a = Fin (a * f64_unit)"
  using fround_exact [of 1 a 1074] unit_room [of a] by (simp add: f64_of_int_def f64_unit_def del: power_numeral)

lemma fadd_ints:
  assumes "\<bar>a\<bar> < 2 ^ 53" "\<bar>b\<bar> < 2 ^ 53" "\<bar>a + b\<bar> < 2 ^ 53"
  shows "fadd (f64_of_int a) (f64_of_int b) = f64_of_int (a + b)"
  using assms fround_exact [of 1 "a + b" 1074] unit_room [of "a + b"]
  by (simp add: f64_of_int_exact f64_unit_def distrib_right del: power_numeral)

lemma fmul_ints:
  assumes "\<bar>a\<bar> < 2 ^ 53" "\<bar>b\<bar> < 2 ^ 53" "\<bar>a * b\<bar> < 2 ^ 53"
  shows "fmul (f64_of_int a) (f64_of_int b) = f64_of_int (a * b)"
  using assms fround_exact [of "2 ^ 1074" "a * b" 1074] unit_room [of "a * b"]
  by (simp add: f64_of_int_exact f64_unit_def mult_ac del: power_numeral)

lemma fneg_int: "\<bar>a\<bar> < 2 ^ 53 \<Longrightarrow> fneg (f64_of_int a) = f64_of_int (- a)"
  by (simp add: f64_of_int_exact)

lemma fsub_ints:
  assumes "\<bar>a\<bar> < 2 ^ 53" "\<bar>b\<bar> < 2 ^ 53" "\<bar>a - b\<bar> < 2 ^ 53"
  shows "fsub (f64_of_int a) (f64_of_int b) = f64_of_int (a - b)"
  using fadd_ints [of a "- b"] assms by (simp add: fsub_def fneg_int)

lemma flt_ints: "\<bar>a\<bar> < 2 ^ 53 \<Longrightarrow> \<bar>b\<bar> < 2 ^ 53 \<Longrightarrow> flt (f64_of_int a) (f64_of_int b) \<longleftrightarrow> a < b"
  by (simp add: f64_of_int_exact f64_unit_def)

lemma f64_of_int_0 [simp]: "f64_of_int 0 = Fin 0"
  by (simp add: f64_of_int_exact)

lemmas f64_ints = fadd_ints fmul_ints fsub_ints fneg_int flt_ints

lemma fround_pos: "0 < b \<Longrightarrow> b \<le> a \<Longrightarrow> fpos (fround a b)"
  using round_mag_pos [of b a] by (auto simp: fround_def Let_def fpos_def)

lemma fround_zero [simp]: "0 < b \<Longrightarrow> fround 0 b = Fin 0"
  using round_mag_exact [of b 0 0] by (simp add: fround_def)

lemma fadd_pos: "fpos x \<Longrightarrow> fpos y \<Longrightarrow> fpos (fadd x y)"
  by (cases x; cases y) (auto simp: fpos_def intro: fround_pos [unfolded fpos_def])

lemma fle_not_nan: "fle x y \<Longrightarrow> x \<noteq> NaN \<and> y \<noteq> NaN"
  by (cases x; cases y) (auto simp: fle_def)

lemma flt_not_nan: "flt x y \<Longrightarrow> x \<noteq> NaN \<and> y \<noteq> NaN"
  by (cases x; cases y) auto

lemma flt_trans: "flt x y \<Longrightarrow> flt y z \<Longrightarrow> flt x z"
  by (cases x; cases y; cases z) auto

lemma not_fle: "x \<noteq> NaN \<Longrightarrow> y \<noteq> NaN \<Longrightarrow> \<not> fle x y \<longleftrightarrow> flt y x"
  by (cases x; cases y) (auto simp: fle_def)

lemma fpos_fle: "x \<noteq> NaN \<Longrightarrow> fpos x \<longleftrightarrow> \<not> fle x f0"
  by (simp add: fpos_def not_fle)

lemma flt_irrefl [simp]: "\<not> flt x x"
  by (cases x) auto

lemma flt_asym: "flt x y \<Longrightarrow> \<not> flt y x"
  by (cases x; cases y) auto

lemma rne_div_le: "0 < c \<Longrightarrow> 0 \<le> a \<Longrightarrow> rne_div a c \<le> a div c + 1"
  by (auto simp: rne_div_def Let_def)

lemma round_mag_le:
  assumes "0 < b" "b \<le> a" shows "round_mag a b \<le> 2 * (a div b)"
proof -
  let ?s = "ulp (a div b)"
  have q: "0 < a div b" using assms by (simp add: pos_imp_zdiv_pos_iff)
  have s: "1 \<le> ?s" "?s \<le> a div b" using ulp_pos ulp_le [OF q] by auto
  have "rne_div a (b * ?s) * ?s \<le> (a div (b * ?s) + 1) * ?s"
    using assms s(1) by (intro mult_right_mono rne_div_le) auto
  also have "\<dots> = (a div b) div ?s * ?s + ?s"
    using s(1) zdiv_zmult2_eq [of ?s a b] by (simp add: distrib_right)
  also have "\<dots> \<le> a div b + a div b"
  proof -
    have "(a div b) div ?s * ?s \<le> a div b" 
      using pos_mod_sign [of ?s "a div b"] div_mult_mod_eq [of "a div b" ?s] s(1) by linarith
    then show ?thesis using s(2) by linarith
  qed
  finally show ?thesis by (simp add: round_mag_def Let_def)
qed

end
