(* ===== verification/Ledger.thy ===== *)
theory Ledger
  imports GoTime GoFloat
begin

text \<open>
  The portfolio tables of \<^verbatim>\<open>stockv2/repository.go\<close>, \<^verbatim>\<open>portfolio_transaction_repository.go\<close> and
  \<^verbatim>\<open>portfolio_snapshot_repository.go\<close>: portfolios, holdings, transactions and valuation snapshots
  with the constraints of their schema (primary keys, foreign keys with cascading deletion, columns
  that must not be null).  Every statement may fail; a transaction that fails is rolled back.
  SQLite stores a NaN as NULL: a NOT NULL column refuses it, and a nullable column that holds one
  cannot be read back into a \<^verbatim>\<open>float64\<close>.  Rows are ordered by the instants in their columns.
\<close>

section \<open>Tables\<close>

record portfolio =
  pf_id :: string
  pf_name :: string
  pf_description :: string
  pf_cash :: f64
  pf_risk :: string
  pf_max_single_pct :: f64
  pf_max_drawdown_pct :: f64
  pf_allow_buy :: bool
  pf_allow_add :: bool
  pf_allow_reduce :: bool
  pf_allow_sell :: bool
  pf_notes :: string
  pf_created_at :: gtime
  pf_updated_at :: gtime

record holding =
  hd_id :: string
  hd_portfolio :: string
  hd_symbol :: string
  hd_market :: string
  hd_name :: string
  hd_quantity :: f64
  hd_available :: f64
  hd_cost :: f64
  hd_last_price :: f64
  hd_last_price_at :: gtime
  hd_status :: string
  hd_market_value :: f64
  hd_pnl :: f64
  hd_position_pct :: f64
  hd_acquired_at :: gtime
  hd_created_at :: gtime
  hd_updated_at :: gtime

record trade =
  td_id :: string
  td_portfolio :: string
  td_symbol :: string
  td_market :: string
  td_name :: string
  td_side :: string
  td_quantity :: f64
  td_price :: f64
  td_amount :: f64
  td_executed_at :: gtime
  td_note :: string
  td_created_at :: gtime

record valuation =
  vl_id :: string
  vl_portfolio :: string
  vl_at :: gtime
  vl_cash :: f64
  vl_holding_value :: f64
  vl_total :: f64
  vl_cash_pct :: f64
  vl_positions :: nat
  vl_stale :: nat
  vl_estimated :: nat
  vl_source :: string
  vl_status :: string
  vl_created_at :: gtime

record tables =
  tb_portfolios :: "portfolio list"
  tb_holdings :: "holding list"
  tb_trades :: "trade list"
  tb_valuations :: "valuation list"

text \<open>The world: the tables, the failing statements, the clock and the supply of random ids.\<close>

record stock =
  st_tables :: tables
  st_fault :: "nat \<Rightarrow> bool"
  st_clock :: "nat \<Rightarrow> gtime"
  st_ids :: "nat \<Rightarrow> string"
  st_calls :: nat

datatype stock_error =
    ErrPortfolioNotFound
  | ErrHoldingNotFound
  | ErrTransactionNotFound
  | ErrInvalidRiskLevel
  | ErrInvalidTransactionSide
  | ErrInsufficientHolding
  | ErrDb string
  | ErrText string

type_synonym 'a stock_prog = "(stock, stock_error, 'a) prog"

section \<open>Statements\<close>

definition sql :: "string \<Rightarrow> (tables \<Rightarrow> (stock_error + 'a) \<times> tables) \<Rightarrow> 'a stock_prog" where
  "sql what op = (\<lambda>w.
     let (r, t) = (if st_fault w (st_calls w) then (Inl (ErrDb what), st_tables w) else op (st_tables w))
     in (r, w\<lparr>st_calls := Suc (st_calls w), st_tables := t\<rparr>))"

definition sql_read :: "string \<Rightarrow> (tables \<Rightarrow> stock_error + 'a) \<Rightarrow> 'a stock_prog" where
  "sql_read what q = sql what (\<lambda>t. (q t, t))"

text \<open>A change that the constraints may refuse; a refused statement changes nothing.\<close>

definition sql_write :: "string \<Rightarrow> (tables \<Rightarrow> bool) \<Rightarrow> (tables \<Rightarrow> tables) \<Rightarrow> unit stock_prog" where
  "sql_write what ok f = sql what (\<lambda>t. if ok t then (Inr (), f t) else (Inl (ErrDb what), t))"

text \<open>An \<^verbatim>\<open>UPDATE\<close> or \<^verbatim>\<open>DELETE\<close> that reports the number of rows it found.\<close>

definition sql_rows :: "string \<Rightarrow> stock_error \<Rightarrow> (tables \<Rightarrow> nat) \<Rightarrow> (tables \<Rightarrow> bool) \<Rightarrow> (tables \<Rightarrow> tables) \<Rightarrow> unit stock_prog" where
  "sql_rows what missing count ok f = sql what (\<lambda>t.
     if \<not> ok t then (Inl (ErrDb what), t)
     else if count t = 0 then (Inl missing, t)
     else (Inr (), f t))"

definition time_now :: "gtime stock_prog" where
  "time_now = get_state (\<lambda>w. st_clock w (st_calls w))"

definition generate_id :: "string stock_prog" where
  "generate_id = (\<lambda>w. (Inr (st_ids w (st_calls w)), w\<lparr>st_calls := Suc (st_calls w)\<rparr>))"

definition run_tx :: "'a stock_prog \<Rightarrow> 'a stock_prog" where
  "run_tx apply = (\<lambda>w.
     case sql_read ''begin transaction'' (\<lambda>_. Inr ()) w of
       (Inl e, w1) \<Rightarrow> (Inl e, w1)
     | (Inr _, w1) \<Rightarrow>
         (case apply w1 of
            (Inl e, w2) \<Rightarrow> (Inl e, w2\<lparr>st_tables := st_tables w1\<rparr>)
          | (Inr x, w2) \<Rightarrow>
              (case sql_read ''commit transaction'' (\<lambda>_. Inr ()) w2 of
                 (Inl e, w3) \<Rightarrow> (Inl e, w3\<lparr>st_tables := st_tables w1\<rparr>)
               | (Inr _, w3) \<Rightarrow> (Inr x, w3))))"

section \<open>Constraints\<close>

definition portfolio_row_ok :: "portfolio \<Rightarrow> bool" where
  "portfolio_row_ok p \<longleftrightarrow> pf_cash p \<noteq> NaN"

definition holding_row_ok :: "holding \<Rightarrow> bool" where
  "holding_row_ok h \<longleftrightarrow> hd_quantity h \<noteq> NaN \<and> hd_available h \<noteq> NaN \<and> hd_cost h \<noteq> NaN"

definition trade_row_ok :: "trade \<Rightarrow> bool" where
  "trade_row_ok x \<longleftrightarrow> td_quantity x \<noteq> NaN \<and> td_price x \<noteq> NaN \<and> td_amount x \<noteq> NaN"

definition valuation_row_ok :: "valuation \<Rightarrow> bool" where
  "valuation_row_ok v \<longleftrightarrow> vl_cash v \<noteq> NaN \<and> vl_holding_value v \<noteq> NaN \<and> vl_total v \<noteq> NaN \<and> vl_cash_pct v \<noteq> NaN"

definition has_portfolio :: "string \<Rightarrow> tables \<Rightarrow> bool" where
  "has_portfolio pid t \<longleftrightarrow> pid \<in> set (map pf_id (tb_portfolios t))"

text \<open>The columns that a scan reads into plain \<^verbatim>\<open>float64\<close> fields.\<close>

definition portfolio_readable :: "portfolio \<Rightarrow> bool" where
  "portfolio_readable p \<longleftrightarrow> pf_max_single_pct p \<noteq> NaN \<and> pf_max_drawdown_pct p \<noteq> NaN"

definition holding_readable :: "holding \<Rightarrow> bool" where
  "holding_readable h \<longleftrightarrow> hd_last_price h \<noteq> NaN \<and> hd_market_value h \<noteq> NaN \<and> hd_pnl h \<noteq> NaN \<and> hd_position_pct h \<noteq> NaN"

definition scan_all :: "string \<Rightarrow> ('r \<Rightarrow> bool) \<Rightarrow> 'r list \<Rightarrow> stock_error + 'r list" where
  "scan_all what readable rows = (if list_all readable rows then Inr rows else Inl (ErrDb what))"

section \<open>Portfolios\<close>

definition insert_portfolio :: "portfolio \<Rightarrow> unit stock_prog" where
  "insert_portfolio p =
     bindE time_now (\<lambda>now. let row = p\<lparr>pf_created_at := now, pf_updated_at := now\<rparr> in
     sql_write ''create portfolio'' (\<lambda>t. portfolio_row_ok row \<and> \<not> has_portfolio (pf_id row) t)
       (\<lambda>t. t\<lparr>tb_portfolios := tb_portfolios t @ [row]\<rparr>))"

definition select_portfolio :: "string \<Rightarrow> portfolio stock_prog" where
  "select_portfolio pid = sql_read ''get portfolio'' (\<lambda>t.
     case find (\<lambda>p. pf_id p = pid) (tb_portfolios t) of
       None \<Rightarrow> Inl ErrPortfolioNotFound
     | Some p \<Rightarrow> if portfolio_readable p then Inr p else Inl (ErrDb ''get portfolio''))"

text \<open>The row keeps its id and its creation time.\<close>

definition update_portfolio_row :: "portfolio \<Rightarrow> unit stock_prog" where
  "update_portfolio_row p =
     bindE time_now (\<lambda>now. let row = p\<lparr>pf_updated_at := now\<rparr> in
     sql_rows ''update portfolio'' ErrPortfolioNotFound (\<lambda>t. length (filter (\<lambda>q. pf_id q = pf_id p) (tb_portfolios t)))
       (\<lambda>t. has_portfolio (pf_id p) t \<longrightarrow> portfolio_row_ok row)
       (\<lambda>t. t\<lparr>tb_portfolios := map (\<lambda>q. if pf_id q = pf_id p then row\<lparr>pf_created_at := pf_created_at q\<rparr> else q) (tb_portfolios t)\<rparr>))"

text \<open>\<^verbatim>\<open>ON DELETE CASCADE\<close> removes what refers to the portfolio.\<close>

definition cascade :: "string \<Rightarrow> tables \<Rightarrow> tables" where
  "cascade pid t =
     \<lparr>tb_portfolios = filter (\<lambda>p. pf_id p \<noteq> pid) (tb_portfolios t), tb_holdings = filter (\<lambda>h. hd_portfolio h \<noteq> pid) (tb_holdings t),
      tb_trades = filter (\<lambda>x. td_portfolio x \<noteq> pid) (tb_trades t),
      tb_valuations = filter (\<lambda>v. vl_portfolio v \<noteq> pid) (tb_valuations t)\<rparr>"

definition delete_portfolio_row :: "string \<Rightarrow> unit stock_prog" where
  "delete_portfolio_row pid =
     sql_rows ''delete portfolio'' ErrPortfolioNotFound (\<lambda>t. length (filter (\<lambda>q. pf_id q = pid) (tb_portfolios t)))
       (\<lambda>_. True) (cascade pid)"

definition newest_first :: "('r \<Rightarrow> gtime) \<Rightarrow> 'r list \<Rightarrow> 'r list" where
  "newest_first f = sort_key (\<lambda>r. - f r)"

definition select_portfolios :: "portfolio list stock_prog" where
  "select_portfolios = sql_read ''list portfolios'' (\<lambda>t.
     scan_all ''scan portfolio'' portfolio_readable (newest_first pf_created_at (tb_portfolios t)))"

section \<open>Holdings\<close>

definition holding_insertable :: "holding \<Rightarrow> tables \<Rightarrow> bool" where
  "holding_insertable h t \<longleftrightarrow> holding_row_ok h \<and> has_portfolio (hd_portfolio h) t \<and> hd_id h \<notin> set (map hd_id (tb_holdings t))"

definition add_holding :: "holding \<Rightarrow> tables \<Rightarrow> tables" where
  "add_holding h t = t\<lparr>tb_holdings := tb_holdings t @ [h]\<rparr>"

definition insert_holding :: "holding \<Rightarrow> unit stock_prog" where
  "insert_holding h =
     bindE time_now (\<lambda>now.
     let fill = (\<lambda>x. if time_is_zero x then now else x);
         row = h\<lparr>hd_created_at := fill (hd_created_at h), hd_updated_at := fill (hd_updated_at h),
                 hd_acquired_at := fill (hd_acquired_at h)\<rparr>
     in sql_write ''create holding'' (holding_insertable row) (add_holding row))"

definition insert_holding_tx :: "holding \<Rightarrow> unit stock_prog" where
  "insert_holding_tx h = sql_write ''create holding in tx'' (holding_insertable h) (add_holding h)"

definition select_holding :: "string \<Rightarrow> holding stock_prog" where
  "select_holding hid = sql_read ''get holding'' (\<lambda>t.
     case find (\<lambda>h. hd_id h = hid) (tb_holdings t) of
       None \<Rightarrow> Inl ErrHoldingNotFound
     | Some h \<Rightarrow> if holding_readable h then Inr h else Inl (ErrDb ''get holding''))"

text \<open>
  \<^verbatim>\<open>UpdateHolding\<close> writes every column but the id, the portfolio and the creation time;
  \<^verbatim>\<open>updateHoldingWithTx\<close> leaves the acquisition time alone too.
\<close>

definition holding_columns :: "holding \<Rightarrow> holding \<Rightarrow> holding" where
  "holding_columns h row = h\<lparr>hd_id := hd_id row, hd_portfolio := hd_portfolio row, hd_created_at := hd_created_at row\<rparr>"

definition holding_columns_tx :: "holding \<Rightarrow> holding \<Rightarrow> holding" where
  "holding_columns_tx h row = (holding_columns h row)\<lparr>hd_acquired_at := hd_acquired_at row\<rparr>"

definition count_holding :: "string \<Rightarrow> tables \<Rightarrow> nat" where
  "count_holding hid t = length (filter (\<lambda>r. hd_id r = hid) (tb_holdings t))"

definition set_holding :: "(holding \<Rightarrow> holding \<Rightarrow> holding) \<Rightarrow> holding \<Rightarrow> tables \<Rightarrow> tables" where
  "set_holding cols h t = t\<lparr>tb_holdings := map (\<lambda>r. if hd_id r = hd_id h then cols h r else r) (tb_holdings t)\<rparr>"

definition update_holding_row :: "holding \<Rightarrow> unit stock_prog" where
  "update_holding_row h =
     bindE time_now (\<lambda>now. let row = h\<lparr>hd_updated_at := now\<rparr> in
     sql_rows ''update holding'' ErrHoldingNotFound (count_holding (hd_id h))
       (\<lambda>t. count_holding (hd_id h) t \<noteq> 0 \<longrightarrow> holding_row_ok row) (set_holding holding_columns row))"

definition update_holding_tx :: "holding \<Rightarrow> unit stock_prog" where
  "update_holding_tx h =
     sql_rows ''update holding valuation'' ErrHoldingNotFound (count_holding (hd_id h))
       (\<lambda>t. count_holding (hd_id h) t \<noteq> 0 \<longrightarrow> holding_row_ok h) (set_holding holding_columns_tx h)"

definition drop_holding :: "string \<Rightarrow> tables \<Rightarrow> tables" where
  "drop_holding hid t = t\<lparr>tb_holdings := filter (\<lambda>r. hd_id r \<noteq> hid) (tb_holdings t)\<rparr>"

definition delete_holding_row :: "string \<Rightarrow> unit stock_prog" where
  "delete_holding_row hid = sql_rows ''delete holding'' ErrHoldingNotFound (count_holding hid) (\<lambda>_. True) (drop_holding hid)"

definition delete_holding_tx :: "string \<Rightarrow> unit stock_prog" where
  "delete_holding_tx hid = sql_write ''delete holding in tx'' (\<lambda>_. True) (drop_holding hid)"

definition holdings_of :: "string \<Rightarrow> tables \<Rightarrow> holding list" where
  "holdings_of pid t = filter (\<lambda>h. hd_portfolio h = pid) (tb_holdings t)"

definition select_holdings :: "string \<Rightarrow> holding list stock_prog" where
  "select_holdings pid = sql_read ''list holdings'' (\<lambda>t.
     scan_all ''scan holding'' holding_readable (newest_first hd_created_at (holdings_of pid t)))"

definition select_holding_by_symbol :: "string \<Rightarrow> string \<Rightarrow> holding option stock_prog" where
  "select_holding_by_symbol pid symbol = sql_read ''get holding by symbol'' (\<lambda>t.
     case find (\<lambda>h. hd_portfolio h = pid \<and> hd_symbol h = symbol) (tb_holdings t) of
       None \<Rightarrow> Inr None
     | Some h \<Rightarrow> if holding_readable h then Inr (Some h) else Inl (ErrDb ''get holding by symbol''))"

section \<open>Trades and cash\<close>

definition insert_trade :: "string \<Rightarrow> trade \<Rightarrow> unit stock_prog" where
  "insert_trade what x =
     sql_write what (\<lambda>t. trade_row_ok x \<and> has_portfolio (td_portfolio x) t \<and> td_id x \<notin> set (map td_id (tb_trades t)))
       (\<lambda>t. t\<lparr>tb_trades := tb_trades t @ [x]\<rparr>)"

definition create_transaction :: "trade \<Rightarrow> unit stock_prog" where
  "create_transaction x =
     bindE time_now (\<lambda>now.
     bindE (if td_id x = [] then generate_id else ret (td_id x)) (\<lambda>tid.
       insert_trade ''create transaction''
         (x\<lparr>td_id := tid, td_created_at := (if time_is_zero (td_created_at x) then now else td_created_at x)\<rparr>)))"

text \<open>
  Newest first and cut to a positive limit; oldest first and complete otherwise.  Ties of
  \<^verbatim>\<open>executed_at\<close> are ordered by \<^verbatim>\<open>created_at\<close>.
\<close>

definition list_transactions :: "string \<Rightarrow> int \<Rightarrow> trade list stock_prog" where
  "list_transactions pid limit = sql_read ''list transactions'' (\<lambda>t.
     let rows = filter (\<lambda>x. td_portfolio x = pid) (tb_trades t)
     in if 0 < limit then Inr (take (nat limit) (newest_first td_executed_at (newest_first td_created_at rows)))
        else Inr (sort_key td_executed_at (sort_key td_created_at rows)))"

definition get_transaction :: "string \<Rightarrow> trade stock_prog" where
  "get_transaction tid = sql_read ''scan transaction'' (\<lambda>t.
     case find (\<lambda>x. td_id x = tid) (tb_trades t) of None \<Rightarrow> Inl ErrTransactionNotFound | Some x \<Rightarrow> Inr x)"

definition delete_transaction :: "string \<Rightarrow> unit stock_prog" where
  "delete_transaction tid =
     sql_rows ''delete transaction'' ErrTransactionNotFound (\<lambda>t. length (filter (\<lambda>x. td_id x = tid) (tb_trades t)))
       (\<lambda>_. True) (\<lambda>t. t\<lparr>tb_trades := filter (\<lambda>x. td_id x \<noteq> tid) (tb_trades t)\<rparr>)"

definition select_cash_tx :: "string \<Rightarrow> f64 stock_prog" where
  "select_cash_tx pid = sql_read ''get portfolio cash'' (\<lambda>t.
     case find (\<lambda>p. pf_id p = pid) (tb_portfolios t) of None \<Rightarrow> Inl ErrPortfolioNotFound | Some p \<Rightarrow> Inr (pf_cash p))"

definition set_cash :: "string \<Rightarrow> f64 \<Rightarrow> gtime \<Rightarrow> tables \<Rightarrow> tables" where
  "set_cash pid cash now t =
     t\<lparr>tb_portfolios := map (\<lambda>p. if pf_id p = pid then p\<lparr>pf_cash := cash, pf_updated_at := now\<rparr> else p) (tb_portfolios t)\<rparr>"

definition update_cash_tx :: "string \<Rightarrow> f64 \<Rightarrow> gtime \<Rightarrow> unit stock_prog" where
  "update_cash_tx pid cash now =
     sql_rows ''update portfolio cash'' ErrPortfolioNotFound (\<lambda>t. length (filter (\<lambda>p. pf_id p = pid) (tb_portfolios t)))
       (\<lambda>t. has_portfolio pid t \<longrightarrow> cash \<noteq> NaN) (set_cash pid cash now)"

section \<open>Valuations\<close>

definition fill_valuation :: "valuation \<Rightarrow> gtime \<Rightarrow> string \<Rightarrow> valuation" where
  "fill_valuation v now vid =
     v\<lparr>vl_id := vid, vl_at := (if time_is_zero (vl_at v) then now else vl_at v),
       vl_created_at := (if time_is_zero (vl_created_at v) then now else vl_created_at v)\<rparr>"

text \<open>\<^verbatim>\<open>CreatePortfolioSnapshot\<close> and \<^verbatim>\<open>insertPortfolioSnapshotWithTx\<close> differ in the connection only.\<close>

definition insert_valuation :: "valuation \<Rightarrow> unit stock_prog" where
  "insert_valuation v =
     bindE time_now (\<lambda>now.
     bindE (if vl_id v = [] then generate_id else ret (vl_id v)) (\<lambda>vid.
     let row = fill_valuation v now vid in
     sql_write ''create portfolio snapshot''
       (\<lambda>t. valuation_row_ok row \<and> has_portfolio (vl_portfolio row) t \<and> vl_id row \<notin> set (map vl_id (tb_valuations t)))
       (\<lambda>t. t\<lparr>tb_valuations := tb_valuations t @ [row]\<rparr>)))"

fun update_holdings_tx :: "holding list \<Rightarrow> unit stock_prog" where
  "update_holdings_tx [] = ret ()"
| "update_holdings_tx (h # hs) = seqE (update_holding_tx h) (update_holdings_tx hs)"

definition save_portfolio_valuation :: "holding list \<Rightarrow> valuation \<Rightarrow> bool \<Rightarrow> unit stock_prog" where
  "save_portfolio_valuation hs v write_snapshot =
     run_tx (seqE (update_holdings_tx hs) (whenE write_snapshot (insert_valuation v)))"

definition select_valuations :: "string \<Rightarrow> int \<Rightarrow> valuation list stock_prog" where
  "select_valuations pid limit = sql_read ''get portfolio snapshots'' (\<lambda>t.
     let n = (if limit \<le> 0 then 20 else if 100 < limit then 100 else limit)
     in Inr (take (nat n) (newest_first vl_at (newest_first vl_created_at (filter (\<lambda>v. vl_portfolio v = pid) (tb_valuations t))))))"

end
