(* ===== verification/Portfolio.thy ===== *)
theory Portfolio
  imports Ledger
begin

text \<open>
  The portfolio operations of \<^verbatim>\<open>stockv2/service.go\<close> and \<^verbatim>\<open>portfolio_valuation_service.go\<close>: portfolios and
  holdings, the recording of a trade (transaction row, cash and holding in one database transaction)
  and the valuation of a portfolio from quotes.  The master data of an instrument (name and market)
  and the quotes a refresh brings are parameters; so is the Unicode part of \<^verbatim>\<open>strings.ToLower\<close>.
\<close>

section \<open>Portfolios\<close>

record portfolio_request =
  pr_name :: string
  pr_description :: string
  pr_cash :: f64
  pr_risk :: string
  pr_max_single_pct :: f64
  pr_max_drawdown_pct :: f64
  pr_allow_buy :: "bool option"
  pr_allow_add :: "bool option"
  pr_allow_reduce :: "bool option"
  pr_allow_sell :: "bool option"
  pr_notes :: string

record portfolio_patch =
  pp_name :: "string option"
  pp_description :: "string option"
  pp_cash :: "f64 option"
  pp_risk :: "string option"
  pp_max_single_pct :: "f64 option"
  pp_max_drawdown_pct :: "f64 option"
  pp_allow_buy :: "bool option"
  pp_allow_add :: "bool option"
  pp_allow_reduce :: "bool option"
  pp_allow_sell :: "bool option"
  pp_notes :: "string option"

definition risk_level_ok :: "string \<Rightarrow> bool" where
  "risk_level_ok s \<longleftrightarrow> s = ''low'' \<or> s = ''medium'' \<or> s = ''high''"

definition bool_default :: "'a option \<Rightarrow> 'a \<Rightarrow> 'a" where
  "bool_default v fallback = (case v of None \<Rightarrow> fallback | Some x \<Rightarrow> x)"

definition create_portfolio :: "portfolio_request \<Rightarrow> portfolio stock_prog" where
  "create_portfolio rq =
     (if \<not> risk_level_ok (pr_risk rq) then throw ErrInvalidRiskLevel
      else if pr_name rq = [] then throw (ErrText ''portfolio name is required'')
      else bindE generate_id (\<lambda>pid.
        let p = \<lparr>pf_id = pid, pf_name = pr_name rq, pf_description = pr_description rq, pf_cash = pr_cash rq,
              pf_risk = pr_risk rq, pf_max_single_pct = pr_max_single_pct rq, pf_max_drawdown_pct = pr_max_drawdown_pct rq,
              pf_allow_buy = bool_default (pr_allow_buy rq) True, pf_allow_add = bool_default (pr_allow_add rq) True,
              pf_allow_reduce = bool_default (pr_allow_reduce rq) True, pf_allow_sell = bool_default (pr_allow_sell rq) True,
              pf_notes = pr_notes rq, pf_created_at = 0, pf_updated_at = 0\<rparr>
        in seqE (insert_portfolio p) (ret p)))"

definition patch_portfolio :: "portfolio_patch \<Rightarrow> portfolio \<Rightarrow> portfolio" where
  "patch_portfolio u p =
     p\<lparr>pf_name := bool_default (pp_name u) (pf_name p), pf_description := bool_default (pp_description u) (pf_description p),
       pf_cash := bool_default (pp_cash u) (pf_cash p), pf_risk := bool_default (pp_risk u) (pf_risk p),
       pf_max_single_pct := bool_default (pp_max_single_pct u) (pf_max_single_pct p),
       pf_max_drawdown_pct := bool_default (pp_max_drawdown_pct u) (pf_max_drawdown_pct p),
       pf_allow_buy := bool_default (pp_allow_buy u) (pf_allow_buy p), pf_allow_add := bool_default (pp_allow_add u) (pf_allow_add p),
       pf_allow_reduce := bool_default (pp_allow_reduce u) (pf_allow_reduce p),
       pf_allow_sell := bool_default (pp_allow_sell u) (pf_allow_sell p), pf_notes := bool_default (pp_notes u) (pf_notes p)\<rparr>"

definition update_portfolio :: "string \<Rightarrow> portfolio_patch \<Rightarrow> portfolio stock_prog" where
  "update_portfolio pid u =
     bindE (select_portfolio pid) (\<lambda>p.
     if (case pp_risk u of None \<Rightarrow> False | Some r \<Rightarrow> \<not> risk_level_ok r) then throw ErrInvalidRiskLevel
     else let p' = patch_portfolio u p in seqE (update_portfolio_row p') (ret p'))"

definition delete_portfolio :: "string \<Rightarrow> unit stock_prog" where
  "delete_portfolio pid = delete_portfolio_row pid"

record portfolio_view =
  pv_portfolio :: portfolio
  pv_holdings :: "holding list"
  pv_total_value :: f64
  pv_total_asset_value :: f64
  pv_cash_pct :: f64

definition sum_values :: "holding list \<Rightarrow> f64" where
  "sum_values hs = fold (\<lambda>h acc. fadd acc (hd_market_value h)) hs f0"

definition percent :: "f64 \<Rightarrow> f64 \<Rightarrow> f64" where
  "percent part whole = (if fpos whole then fmul (fdiv part whole) (f64_of_int 100) else f0)"

definition get_portfolio :: "string \<Rightarrow> portfolio_view stock_prog" where
  "get_portfolio pid =
     bindE (select_portfolio pid) (\<lambda>p.
     bindE (select_holdings pid) (\<lambda>hs.
       let v = sum_values hs; total = fadd (pf_cash p) v
       in ret \<lparr>pv_portfolio = p, pv_holdings = hs, pv_total_value = v, pv_total_asset_value = total,
               pv_cash_pct = percent (pf_cash p) total\<rparr>))"

text \<open>A portfolio whose holdings cannot be read is left out of the list.\<close>

fun get_portfolios :: "portfolio list \<Rightarrow> portfolio_view list stock_prog" where
  "get_portfolios [] = ret []"
| "get_portfolios (p # ps) =
     bindE (attempt (get_portfolio (pf_id p))) (\<lambda>r :: stock_error + portfolio_view.
     bindE (get_portfolios ps) (\<lambda>vs. ret (case r of Inl _ \<Rightarrow> vs | Inr v \<Rightarrow> v # vs)))"

definition list_portfolios :: "portfolio_view list stock_prog" where
  "list_portfolios = bindE select_portfolios get_portfolios"

section \<open>Holdings\<close>

record holding_request =
  hr_symbol :: string
  hr_name :: string
  hr_market :: string
  hr_quantity :: f64
  hr_cost :: f64
  hr_acquired_at :: string

record holding_patch =
  hp_quantity :: "f64 option"
  hp_available :: "f64 option"
  hp_cost :: "f64 option"
  hp_last_price :: "f64 option"
  hp_acquired_at :: "string option"

definition parse_layouts :: "string \<Rightarrow> gtime option" where
  "parse_layouts s =
     (case parse_rfc3339 s of Some t \<Rightarrow> Some t
      | None \<Rightarrow> (case parse_date_seconds s of Some t \<Rightarrow> Some t
      | None \<Rightarrow> (case parse_date_minutes s of Some t \<Rightarrow> Some t
      | None \<Rightarrow> parse_date_only s)))"

definition parse_executed_at :: "string \<Rightarrow> gtime stock_prog" where
  "parse_executed_at raw =
     (let s = trim_space raw in
      bindE time_now (\<lambda>now.
      if s = [] then ret now
      else case parse_layouts s of
        None \<Rightarrow> throw (ErrText ''invalid executedAt'')
      | Some t \<Rightarrow>
          if time_sub now t < - (300 * second) then throw (ErrText ''executedAt cannot be in the future'') else ret t))"

definition new_holding :: "string \<Rightarrow> string \<Rightarrow> string \<Rightarrow> string \<Rightarrow> string \<Rightarrow> f64 \<Rightarrow> f64 \<Rightarrow> gtime \<Rightarrow> gtime \<Rightarrow> holding" where
  "new_holding hid pid symbol market name qty cost acquired now =
     \<lparr>hd_id = hid, hd_portfolio = pid, hd_symbol = symbol, hd_market = market, hd_name = name, hd_quantity = qty,
      hd_available = qty, hd_cost = cost, hd_last_price = f0, hd_last_price_at = 0, hd_status = [], hd_market_value = f0,
      hd_pnl = f0, hd_position_pct = f0, hd_acquired_at = acquired, hd_created_at = now, hd_updated_at = now\<rparr>"

definition create_holding :: "(string \<Rightarrow> string \<times> string) \<Rightarrow> string \<Rightarrow> holding_request \<Rightarrow> holding stock_prog" where
  "create_holding instrument pid rq =
     bindE (attempt (select_portfolio pid)) (\<lambda>r :: stock_error + portfolio. case r of
       Inl _ \<Rightarrow> throw ErrPortfolioNotFound
     | Inr _ \<Rightarrow>
         let (iname, imarket) = instrument (hr_symbol rq);
             name = (if hr_name rq = [] then iname else hr_name rq);
             market = (if hr_market rq = [] then imarket else hr_market rq)
         in bindE (parse_executed_at (hr_acquired_at rq)) (\<lambda>acquired.
            bindE time_now (\<lambda>now.
            bindE generate_id (\<lambda>hid.
              let h = new_holding hid pid (hr_symbol rq) market name (hr_quantity rq) (hr_cost rq) acquired now
              in seqE (insert_holding h) (ret h)))))"

definition patch_holding :: "holding_patch \<Rightarrow> holding \<Rightarrow> holding" where
  "patch_holding u h =
     h\<lparr>hd_quantity := bool_default (hp_quantity u) (hd_quantity h), hd_available := bool_default (hp_available u) (hd_available h),
       hd_cost := bool_default (hp_cost u) (hd_cost h), hd_last_price := bool_default (hp_last_price u) (hd_last_price h)\<rparr>"

definition update_holding :: "string \<Rightarrow> holding_patch \<Rightarrow> holding stock_prog" where
  "update_holding hid u =
     bindE (attempt (select_holding hid)) (\<lambda>r :: stock_error + holding. case r of
       Inl _ \<Rightarrow> throw ErrHoldingNotFound
     | Inr h \<Rightarrow>
         let h1 = patch_holding u h in
         bindE (case hp_acquired_at u of None \<Rightarrow> ret (hd_acquired_at h1) | Some s \<Rightarrow> parse_executed_at s) (\<lambda>acquired.
           let h2 = h1\<lparr>hd_acquired_at := acquired\<rparr> in seqE (update_holding_row h2) (ret h2)))"

definition delete_holding :: "string \<Rightarrow> unit stock_prog" where
  "delete_holding hid =
     bindE (attempt (select_holding hid)) (\<lambda>r :: stock_error + holding. case r of
       Inl _ \<Rightarrow> throw ErrHoldingNotFound
     | Inr _ \<Rightarrow> delete_holding_row hid)"

section \<open>Valuation\<close>

record quote =
  qt_symbol :: string
  qt_last_price :: f64
  qt_pct_change :: f64
  qt_quote_at :: gtime
  qt_fetched_at :: gtime
  qt_status :: string

definition no_quote :: quote where
  "no_quote = \<lparr>qt_symbol = [], qt_last_price = f0, qt_pct_change = f0, qt_quote_at = 0, qt_fetched_at = 0, qt_status = []\<rparr>"

text \<open>The map of quotes by symbol: a later quote replaces an earlier one; a missing one is the zero value.\<close>

definition quote_for :: "quote list \<Rightarrow> string \<Rightarrow> quote" where
  "quote_for qs symbol = (case find (\<lambda>q. qt_symbol q = symbol) (rev qs) of None \<Rightarrow> no_quote | Some q \<Rightarrow> q)"

definition priced :: "holding \<Rightarrow> quote \<Rightarrow> gtime \<Rightarrow> (f64 \<times> gtime \<times> string) option" where
  "priced h q vat =
     (if qt_symbol q \<noteq> [] \<and> qt_status q = ''fresh'' \<and> fpos (qt_last_price q)
        then Some (qt_last_price q, if time_is_zero (qt_quote_at q) then qt_fetched_at q else qt_quote_at q, ''fresh'')
      else if fpos (hd_last_price h)
        then Some (hd_last_price h, if time_is_zero (hd_last_price_at h) then vat else hd_last_price_at h, ''stale'')
      else if fpos (hd_cost h) then Some (hd_cost h, vat, ''estimated'')
      else None)"

text \<open>The holding with its new price, and the quality of that price.\<close>

definition recalculate_holding :: "holding \<Rightarrow> quote \<Rightarrow> gtime \<Rightarrow> holding \<times> string" where
  "recalculate_holding h q vat =
     (case priced h q vat of
        Some (price, price_at, quality) \<Rightarrow>
          (h\<lparr>hd_last_price := price, hd_last_price_at := price_at, hd_market_value := fmul (hd_quantity h) price,
             hd_pnl := fmul (fsub price (hd_cost h)) (hd_quantity h), hd_status := quality, hd_updated_at := vat\<rparr>, quality)
      | None \<Rightarrow>
          (h\<lparr>hd_market_value := f0, hd_pnl := f0, hd_status := ''failed'', hd_updated_at := vat\<rparr>, ''failed''))"

record refresh_result =
  rf_portfolio :: string
  rf_refreshed :: nat
  rf_stale :: nat
  rf_estimated :: nat
  rf_failed :: "string list"
  rf_holdings :: "holding list"
  rf_valuation :: valuation

definition count_quality :: "string \<Rightarrow> (holding \<times> string) list \<Rightarrow> nat" where
  "count_quality s rs = length (filter (\<lambda>r. snd r = s) rs)"

definition valuation_status :: "(holding \<times> string) list \<Rightarrow> string" where
  "valuation_status rs =
     (if 0 < count_quality ''failed'' rs then ''failed''
      else if 0 < count_quality ''estimated'' rs then ''estimated''
      else if 0 < count_quality ''stale'' rs then ''stale'' else ''fresh'')"

text \<open>\<^verbatim>\<open>RecalculatePortfolioFromQuotes\<close>, with the snapshot's id given.\<close>

definition recalculate :: "portfolio \<Rightarrow> holding list \<Rightarrow> quote list \<Rightarrow> gtime \<Rightarrow> string \<Rightarrow> refresh_result" where
  "recalculate p hs qs vat vid =
     (let rs = map (\<lambda>h. recalculate_holding h (quote_for qs (hd_symbol h)) vat) hs;
          value = sum_values (map fst rs); total = fadd (pf_cash p) value;
          hs' = map (\<lambda>r. (fst r)\<lparr>hd_position_pct := percent (hd_market_value (fst r)) total\<rparr>) rs
      in \<lparr>rf_portfolio = pf_id p, rf_refreshed = count_quality ''fresh'' rs, rf_stale = count_quality ''stale'' rs,
          rf_estimated = count_quality ''estimated'' rs,
          rf_failed = map (\<lambda>r. hd_symbol (fst r)) (filter (\<lambda>r. snd r = ''failed'') rs), rf_holdings = hs',
          rf_valuation = \<lparr>vl_id = vid, vl_portfolio = pf_id p, vl_at = vat, vl_cash = pf_cash p, vl_holding_value = value,
            vl_total = total, vl_cash_pct = percent (pf_cash p) total, vl_positions = length hs,
            vl_stale = count_quality ''stale'' rs, vl_estimated = count_quality ''estimated'' rs,
            vl_source = ''latest_quote'', vl_status = valuation_status rs, vl_created_at = vat\<rparr>\<rparr>)"

definition recalculate_now :: "portfolio \<Rightarrow> holding list \<Rightarrow> quote list \<Rightarrow> refresh_result stock_prog" where
  "recalculate_now p hs qs =
     bindE time_now (\<lambda>vat. bindE generate_id (\<lambda>vid.
       ret (recalculate p hs qs vat vid)))"

definition sample_interval :: duration where
  "sample_interval = 900 * second"

definition background_trigger :: "(string \<Rightarrow> string) \<Rightarrow> string \<Rightarrow> bool" where
  "background_trigger ul src \<longleftrightarrow>
     to_lower ul (trim_space src) \<in> {[], ''monitor'', ''scheduled'', ''system'', ''auto'', ''auto-updater''}"

definition should_write_snapshot :: "(string \<Rightarrow> string) \<Rightarrow> string \<Rightarrow> string \<Rightarrow> valuation \<Rightarrow> bool stock_prog" where
  "should_write_snapshot ul pid src v =
     (if \<not> background_trigger ul src then ret True
      else bindE (attempt (select_valuations pid 1)) (\<lambda>r :: stock_error + valuation list.
        case r of
          Inl _ \<Rightarrow> ret True
        | Inr [] \<Rightarrow> ret True
        | Inr (x # _) \<Rightarrow>
            bindE time_now (\<lambda>now.
              ret (sample_interval \<le> time_sub (if time_is_zero (vl_at v) then now else vl_at v) (vl_at x)))))"

fun unique_symbols :: "string list \<Rightarrow> holding list \<Rightarrow> string list" where
  "unique_symbols seen [] = []"
| "unique_symbols seen (h # hs) =
     (if hd_symbol h = [] \<or> hd_symbol h \<in> set seen then unique_symbols seen hs
      else hd_symbol h # unique_symbols (hd_symbol h # seen) hs)"

text \<open>\<open>fetch\<close> is \<^verbatim>\<open>RefreshLatestQuotes\<close>: the quotes of the symbols, or an error.\<close>

definition refresh_portfolio_valuation ::
  "(string \<Rightarrow> string) \<Rightarrow> (string list \<Rightarrow> stock_error + quote list) \<Rightarrow> string \<Rightarrow> string \<Rightarrow> refresh_result stock_prog" where
  "refresh_portfolio_valuation ul fetch pid src =
     bindE (select_portfolio pid) (\<lambda>p.
     bindE (select_holdings pid) (\<lambda>hs.
     case fetch (unique_symbols [] hs) of
       Inl e \<Rightarrow> throw e
     | Inr qs \<Rightarrow>
         bindE (recalculate_now p hs qs) (\<lambda>res.
         bindE (should_write_snapshot ul pid src (rf_valuation res)) (\<lambda>b.
         seqE (save_portfolio_valuation (rf_holdings res) (rf_valuation res) b) (ret res)))))"

definition has_quoted_symbol :: "holding list \<Rightarrow> quote list \<Rightarrow> bool" where
  "has_quoted_symbol hs qs \<longleftrightarrow> list_ex (\<lambda>h. hd_symbol h \<in> set (map qt_symbol (filter (\<lambda>q. qt_symbol q \<noteq> []) qs))) hs"

fun refresh_each :: "(string \<Rightarrow> string) \<Rightarrow> quote list \<Rightarrow> portfolio list \<Rightarrow> unit stock_prog" where
  "refresh_each ul qs [] = ret ()"
| "refresh_each ul qs (p # ps) =
     bindE (select_holdings (pf_id p)) (\<lambda>hs.
     if \<not> has_quoted_symbol hs qs then refresh_each ul qs ps
     else bindE (recalculate_now p hs qs) (\<lambda>res.
          bindE (should_write_snapshot ul (pf_id p) ''monitor'' (rf_valuation res)) (\<lambda>b.
          seqE (save_portfolio_valuation (rf_holdings res) (rf_valuation res) b) (refresh_each ul qs ps))))"

definition refresh_from_latest_quotes :: "(string \<Rightarrow> string) \<Rightarrow> quote list \<Rightarrow> unit stock_prog" where
  "refresh_from_latest_quotes ul qs = (if qs = [] then ret () else bindE select_portfolios (refresh_each ul qs))"

section \<open>Recording a trade\<close>

record trade_request =
  tr_symbol :: string
  tr_market :: string
  tr_name :: string
  tr_side :: string
  tr_quantity :: f64
  tr_price :: f64
  tr_executed_at :: string
  tr_note :: string

record trade_result =
  tt_trade :: trade
  tt_portfolio :: "portfolio option"
  tt_holding :: "holding option"
  tt_cleared :: bool

definition tolerance :: f64 where
  "tolerance = f64_ratio 1 1000000000"

definition bought :: "trade \<Rightarrow> holding \<Rightarrow> holding" where
  "bought x h =
     (let qty = fadd (hd_quantity h) (td_quantity x)
      in h\<lparr>hd_cost := fdiv (fadd (fmul (hd_cost h) (hd_quantity h)) (td_amount x)) qty, hd_quantity := qty,
           hd_available := fadd (hd_available h) (td_quantity x), hd_updated_at := td_created_at x\<rparr>)"

definition buy_tx :: "trade \<Rightarrow> f64 \<Rightarrow> holding option \<Rightarrow> (holding option \<times> bool) stock_prog" where
  "buy_tx x cash found =
     bindE (case found of
              Some h \<Rightarrow> seqE (update_holding_tx (bought x h)) (ret (bought x h))
            | None \<Rightarrow> bindE generate_id (\<lambda>hid.
                let h = new_holding hid (td_portfolio x) (td_symbol x) (td_market x) (td_name x) (td_quantity x) (td_price x)
                      (td_executed_at x) (td_created_at x)
                in seqE (insert_holding_tx h) (ret h))) (\<lambda>h.
     seqE (update_cash_tx (td_portfolio x) (fsub cash (td_amount x)) (td_created_at x)) (ret (Some h, False)))"

definition sold :: "trade \<Rightarrow> holding \<Rightarrow> holding" where
  "sold x h = h\<lparr>hd_quantity := fsub (hd_quantity h) (td_quantity x), hd_available := fsub (hd_available h) (td_quantity x),
                hd_updated_at := td_created_at x\<rparr>"

definition sell_tx :: "trade \<Rightarrow> f64 \<Rightarrow> holding option \<Rightarrow> (holding option \<times> bool) stock_prog" where
  "sell_tx x cash found =
     (case found of
        None \<Rightarrow> throw ErrInsufficientHolding
      | Some h \<Rightarrow>
          if flt (hd_quantity h) (fsub (td_quantity x) tolerance) then throw ErrInsufficientHolding
          else
            bindE (if fle (hd_quantity (sold x h)) tolerance then seqE (delete_holding_tx (hd_id h)) (ret (None, True))
                   else seqE (update_holding_tx (sold x h)) (ret (Some (sold x h), False))) (\<lambda>out.
            seqE (update_cash_tx (td_portfolio x) (fadd cash (td_amount x)) (td_created_at x)) (ret out)))"

definition apply_trade :: "trade \<Rightarrow> (holding option \<times> bool) stock_prog" where
  "apply_trade x =
     seqE (insert_trade ''insert transaction'' x)
    (bindE (select_cash_tx (td_portfolio x)) (\<lambda>cash.
     bindE (select_holding_by_symbol (td_portfolio x) (td_symbol x)) (\<lambda>found.
       if td_side x = ''buy'' then buy_tx x cash found else sell_tx x cash found)))"

definition make_trade :: "(string \<Rightarrow> string \<times> string) \<Rightarrow> string \<Rightarrow> trade_request \<Rightarrow> string \<Rightarrow> gtime \<Rightarrow> gtime \<Rightarrow> trade" where
  "make_trade instrument pid rq tid executed now =
     (let symbol = trim_space (tr_symbol rq); (iname, imarket) = instrument symbol;
          name = trim_space (tr_name rq); market = trim_space (tr_market rq)
      in \<lparr>td_id = tid, td_portfolio = pid, td_symbol = symbol, td_market = (if market = [] then imarket else market),
          td_name = (if name = [] then iname else name), td_side = trim_space (tr_side rq), td_quantity = tr_quantity rq,
          td_price = tr_price rq, td_amount = fmul (tr_quantity rq) (tr_price rq), td_executed_at = executed,
          td_note = trim_space (tr_note rq), td_created_at = now\<rparr>)"

definition record_transaction ::
  "(string \<Rightarrow> string) \<Rightarrow> (string list \<Rightarrow> stock_error + quote list) \<Rightarrow> (string \<Rightarrow> string \<times> string) \<Rightarrow> string \<Rightarrow> trade_request \<Rightarrow>
   trade_result stock_prog" where
  "record_transaction ul fetch instrument pid rq =
     (if trim_space (tr_side rq) \<noteq> ''buy'' \<and> trim_space (tr_side rq) \<noteq> ''sell'' then throw ErrInvalidTransactionSide
      else if trim_space (tr_symbol rq) = [] \<or> fle (tr_quantity rq) f0 \<or> fle (tr_price rq) f0
        then throw (ErrText ''symbol, quantity and price are required'')
      else
        bindE (parse_executed_at (tr_executed_at rq)) (\<lambda>executed.
        bindE time_now (\<lambda>now.
        bindE (run_tx (bindE generate_id (\<lambda>tid.
                 let x = make_trade instrument pid rq tid executed now
                 in bindE (apply_trade x) (\<lambda>out. ret (x, out))))) (\<lambda>(x, h, cleared).
        bindE (attempt (select_portfolio pid)) (\<lambda>p :: stock_error + portfolio.
        bindE (attempt (refresh_portfolio_valuation ul fetch pid ''trade'')) (\<lambda>_ :: stock_error + refresh_result.
          ret \<lparr>tt_trade = x, tt_portfolio = (case p of Inl _ \<Rightarrow> None | Inr q \<Rightarrow> Some q), tt_holding = h, tt_cleared = cleared\<rparr>))))))"

end
