(* ===== verification/PortfolioBook.thy ===== *)
theory PortfolioBook
  imports PortfolioLaws
begin

text \<open>
  The account book a portfolio's tables stand for: the cash of each portfolio, its position in each
  symbol and the trades recorded.  Recording a trade refines the book's own operation; a valuation
  refresh leaves the book alone.
\<close>

section \<open>The book\<close>

record book =
  bk_cash :: "string \<rightharpoonup> f64"
  bk_position :: "string \<times> string \<rightharpoonup> f64 \<times> f64 \<times> f64"
  bk_trades :: "trade list"

definition position_key :: "holding \<Rightarrow> string \<times> string" where
  "position_key h = (hd_portfolio h, hd_symbol h)"

definition position_of :: "holding \<Rightarrow> f64 \<times> f64 \<times> f64" where
  "position_of h = (hd_quantity h, hd_available h, hd_cost h)"

definition book_of :: "tables \<Rightarrow> book" where
  "book_of t = \<lparr>bk_cash = map_of (map (\<lambda>p. (pf_id p, pf_cash p)) (tb_portfolios t)),
     bk_position = map_of (map (\<lambda>h. (position_key h, position_of h)) (tb_holdings t)), bk_trades = tb_trades t\<rparr>"

text \<open>What a trade does to the book: quantity, available quantity and average cost of the position, and the cash.\<close>

definition book_buy :: "trade \<Rightarrow> (f64 \<times> f64 \<times> f64) option \<Rightarrow> f64 \<times> f64 \<times> f64" where
  "book_buy x pos =
     (case pos of
        None \<Rightarrow> (td_quantity x, td_quantity x, td_price x)
      | Some (q, a, c) \<Rightarrow>
          (fadd q (td_quantity x), fadd a (td_quantity x), fdiv (fadd (fmul c q) (td_amount x)) (fadd q (td_quantity x))))"

definition book_sell :: "trade \<Rightarrow> f64 \<times> f64 \<times> f64 \<Rightarrow> (f64 \<times> f64 \<times> f64) option" where
  "book_sell x pos =
     (case pos of (q, a, c) \<Rightarrow>
        if fle (fsub q (td_quantity x)) tolerance then None
        else Some (fsub q (td_quantity x), fsub a (td_quantity x), c))"

definition book_trade :: "trade \<Rightarrow> book \<Rightarrow> book" where
  "book_trade x b =
     (let key = (td_portfolio x, td_symbol x); cash = the (bk_cash b (td_portfolio x)) in
      if td_side x = ''buy'' then
        b\<lparr>bk_cash := (bk_cash b)(td_portfolio x \<mapsto> fsub cash (td_amount x)),
          bk_position := (bk_position b)(key \<mapsto> book_buy x (bk_position b key)), bk_trades := bk_trades b @ [x]\<rparr>
      else
        b\<lparr>bk_cash := (bk_cash b)(td_portfolio x \<mapsto> fadd cash (td_amount x)),
          bk_position := (bk_position b)(key := book_sell x (the (bk_position b key))), bk_trades := bk_trades b @ [x]\<rparr>)"

text \<open>The book admits a purchase by any portfolio it knows, and the sale of what is held, up to the tolerance.\<close>

definition book_admits :: "trade \<Rightarrow> book \<Rightarrow> bool" where
  "book_admits x b \<longleftrightarrow> bk_cash b (td_portfolio x) \<noteq> None \<and>
     (td_side x = ''buy'' \<or>
      (\<exists>q a c. bk_position b (td_portfolio x, td_symbol x) = Some (q, a, c) \<and> \<not> flt q (fsub (td_quantity x) tolerance)))"

text \<open>Tables that are a book: at most one holding for each portfolio and symbol, and no empty or negative one.\<close>

definition book_ok :: "tables \<Rightarrow> bool" where
  "book_ok t \<longleftrightarrow> tables_ok t \<and> distinct (map position_key (tb_holdings t)) \<and> list_all (\<lambda>h. fpos (hd_quantity h)) (tb_holdings t)"

section \<open>Outcomes of statements\<close>

lemma sql_write_Inr: "sql_write what ok f w = (Inr y, w') \<Longrightarrow> ok (st_tables w) \<and> st_tables w' = f (st_tables w)"
  by (auto simp: sql_write_def sql_def Let_def split: if_splits prod.splits)

lemma sql_rows_Inr: "sql_rows what e count ok f w = (Inr y, w') \<Longrightarrow> ok (st_tables w) \<and> count (st_tables w) \<noteq> 0 \<and> st_tables w' = f (st_tables w)"
  by (auto simp: sql_rows_def sql_def Let_def split: if_splits prod.splits)

lemma sql_rows_Inl: "sql_rows what e count ok f w = (Inl y, w') \<Longrightarrow> st_tables w' = st_tables w"
  by (auto simp: sql_rows_def sql_def Let_def split: if_splits prod.splits)

lemma sql_read_Inr: "sql_read what q w = (Inr y, w') \<Longrightarrow> q (st_tables w) = Inr y \<and> st_tables w' = st_tables w"
  by (auto simp: sql_read_def sql_def Let_def split: if_splits prod.splits)

lemma generate_id_state: "generate_id w = (Inr y, w') \<Longrightarrow> st_tables w' = st_tables w"
  by (auto simp: generate_id_def)

section \<open>One holding changes\<close>

lemma map_of_key_update:
  assumes "distinct (map idf hs)" "distinct (map key hs)" "h \<in> set hs" "\<And>r. key (g r) = key r"
  shows "map_of (map (\<lambda>r. (key r, val r)) (map (\<lambda>r. if idf r = idf h then g r else r) hs)) =
    (map_of (map (\<lambda>r. (key r, val r)) hs))(key h \<mapsto> val (g h))"
  using assms(1-3)
proof (induction hs)
  case (Cons r rs)
  show ?case
  proof (cases "r = h")
    case True
    have "idf x \<noteq> idf h" if "x \<in> set rs" for x using that Cons.prems(1) True by simp (metis image_eqI)
    then have "map (\<lambda>r. if idf r = idf h then g r else r) rs = rs" by (intro map_idI) simp
    then show ?thesis using True assms(4) by (auto simp: fun_eq_iff)
  next
    case False
    then have "h \<in> set rs" "idf r \<noteq> idf h" "key r \<noteq> key h" using Cons.prems by (auto simp: rev_image_eqI)
    then show ?thesis using Cons by (auto simp: fun_eq_iff)
  qed
qed simp

lemma map_of_key_delete:
  assumes "distinct (map idf hs)" "distinct (map key hs)" "h \<in> set hs"
  shows "map_of (map (\<lambda>r. (key r, val r)) (filter (\<lambda>r. idf r \<noteq> idf h) hs)) =
    (map_of (map (\<lambda>r. (key r, val r)) hs))(key h := None)"
  using assms
proof (induction hs)
  case (Cons r rs)
  show ?case
  proof (cases "r = h")
    case True
    have "idf x \<noteq> idf h" if "x \<in> set rs" for x using that Cons.prems(1) True by simp (metis image_eqI)
    then have "filter (\<lambda>r. idf r \<noteq> idf h) rs = rs" by (intro filter_True) simp
    moreover have "map_of (map (\<lambda>r. (key r, val r)) rs) (key h) = None"
      using True Cons.prems(2) by (auto simp: map_of_eq_None_iff)
    ultimately show ?thesis using True by (auto simp: fun_eq_iff)
  next
    case False
    then have "h \<in> set rs" "idf r \<noteq> idf h" "key r \<noteq> key h" using Cons.prems by (auto simp: rev_image_eqI)
    then show ?thesis using Cons by (auto simp: fun_eq_iff)
  qed
qed simp

lemma map_of_cash:
  "map_of (map (\<lambda>p. (pf_id p, pf_cash p)) (map (\<lambda>p. if pf_id p = pid then p\<lparr>pf_cash := c, pf_updated_at := n\<rparr> else p) ps)) =
   (if pid \<in> set (map pf_id ps) then (map_of (map (\<lambda>p. (pf_id p, pf_cash p)) ps))(pid \<mapsto> c)
    else map_of (map (\<lambda>p. (pf_id p, pf_cash p)) ps))"
  by (induction ps) (auto simp: fun_eq_iff)

lemma find_position:
  "find (\<lambda>h. hd_portfolio h = pid \<and> hd_symbol h = s) hs = Some h \<Longrightarrow>
   map_of (map (\<lambda>h. (position_key h, position_of h)) hs) (pid, s) = Some (position_of h)"
  by (induction hs) (auto simp: position_key_def split: if_splits)

lemma find_no_position:
  "find (\<lambda>h. hd_portfolio h = pid \<and> hd_symbol h = s) hs = None \<longleftrightarrow> (pid, s) \<notin> set (map position_key hs)"
  by (auto simp: find_None_iff position_key_def)

lemma find_cash: "find (\<lambda>p. pf_id p = pid) ps = Some p \<Longrightarrow> map_of (map (\<lambda>p. (pf_id p, pf_cash p)) ps) pid = Some (pf_cash p)"
  by (induction ps) (auto split: if_splits)

section \<open>A trade on the tables\<close>

text \<open>The three changes a trade can make to the holdings.\<close>

definition trade_holdings :: "trade \<Rightarrow> string \<Rightarrow> holding option \<Rightarrow> tables \<Rightarrow> tables" where
  "trade_holdings x hid found t =
     (case found of
        None \<Rightarrow> add_holding (new_holding hid (td_portfolio x) (td_symbol x) (td_market x) (td_name x) (td_quantity x) (td_price x)
                  (td_executed_at x) (td_created_at x)) t
      | Some h \<Rightarrow>
          if td_side x = ''buy'' then set_holding holding_columns_tx (bought x h) t
          else if fle (hd_quantity (sold x h)) tolerance then drop_holding (hd_id h) t
          else set_holding holding_columns_tx (sold x h) t)"

definition trade_cash :: "trade \<Rightarrow> f64 \<Rightarrow> f64" where
  "trade_cash x cash = (if td_side x = ''buy'' then fsub cash (td_amount x) else fadd cash (td_amount x))"

definition append_trade :: "trade \<Rightarrow> tables \<Rightarrow> tables" where
  "append_trade x t = t\<lparr>tb_trades := tb_trades t @ [x]\<rparr>"

lemma update_holding_tx_Inr: "update_holding_tx h w = (Inr u, w') \<Longrightarrow> st_tables w' = set_holding holding_columns_tx h (st_tables w)"
  by (auto simp: update_holding_tx_def dest: sql_rows_Inr)

lemma update_cash_tx_Inr: "update_cash_tx pid c n w = (Inr u, w') \<Longrightarrow> st_tables w' = set_cash pid c n (st_tables w)"
  by (auto simp: update_cash_tx_def dest: sql_rows_Inr)

lemma insert_holding_tx_Inr: "insert_holding_tx h w = (Inr u, w') \<Longrightarrow> st_tables w' = add_holding h (st_tables w)"
  by (auto simp: insert_holding_tx_def dest: sql_write_Inr)

lemma delete_holding_tx_Inr: "delete_holding_tx h w = (Inr u, w') \<Longrightarrow> st_tables w' = drop_holding h (st_tables w)"
  by (auto simp: delete_holding_tx_def dest: sql_write_Inr)

lemmas statement_Inr = update_holding_tx_Inr update_cash_tx_Inr insert_holding_tx_Inr delete_holding_tx_Inr generate_id_state

lemma buy_tx_Inr:
  assumes "buy_tx x cash found w = (Inr out, w')" "td_side x = ''buy''"
  shows "\<exists>hid. st_tables w' = set_cash (td_portfolio x) (trade_cash x cash) (td_created_at x) (trade_holdings x hid found (st_tables w))"
  using assms unfolding buy_tx_def
  by (cases found) (auto simp: trade_cash_def trade_holdings_def Let_def elim!: bind_InrE seq_InrE dest!: ret_InrD statement_Inr)

lemma sell_tx_Inr:
  assumes "sell_tx x cash found w = (Inr out, w')" "td_side x \<noteq> ''buy''"
  shows "\<exists>h. found = Some h \<and> \<not> flt (hd_quantity h) (fsub (td_quantity x) tolerance)"
    and "st_tables w' = set_cash (td_portfolio x) (trade_cash x cash) (td_created_at x) (trade_holdings x hid found (st_tables w))"
  using assms unfolding sell_tx_def
  by (auto simp: trade_cash_def trade_holdings_def Let_def throw_def split: option.splits if_splits
      elim!: bind_InrE seq_InrE dest!: ret_InrD statement_Inr)

lemma apply_trade_Inr:
  assumes "apply_trade x w = (Inr out, w')"
  obtains p found hid where "trade_row_ok x" and "find (\<lambda>p. pf_id p = td_portfolio x) (tb_portfolios (st_tables w)) = Some p"
    and "found = find (\<lambda>h. hd_portfolio h = td_portfolio x \<and> hd_symbol h = td_symbol x) (tb_holdings (st_tables w))"
    and "td_side x \<noteq> ''buy'' \<longrightarrow> (\<exists>h. found = Some h \<and> \<not> flt (hd_quantity h) (fsub (td_quantity x) tolerance))"
    and "st_tables w' = set_cash (td_portfolio x) (trade_cash x (pf_cash p)) (td_created_at x)
           (trade_holdings x hid found (append_trade x (st_tables w)))"
proof -
  from assms obtain u w1 cash w2 found w3 where ins: "insert_trade ''insert transaction'' x w = (Inr u, w1)"
    and cash: "select_cash_tx (td_portfolio x) w1 = (Inr cash, w2)"
    and sel: "select_holding_by_symbol (td_portfolio x) (td_symbol x) w2 = (Inr found, w3)"
    and rest: "(if td_side x = ''buy'' then buy_tx x cash found else sell_tx x cash found) w3 = (Inr out, w')"
    unfolding apply_trade_def by (elim seq_InrE bind_InrE)
  have row: "trade_row_ok x" and t1: "st_tables w1 = append_trade x (st_tables w)"
    using ins by (auto simp: insert_trade_def append_trade_def dest: sql_write_Inr)
  obtain p where p: "find (\<lambda>p. pf_id p = td_portfolio x) (tb_portfolios (st_tables w)) = Some p" "cash = pf_cash p"
    and t2: "st_tables w2 = st_tables w1"
    using cash t1 by (auto simp: select_cash_tx_def append_trade_def dest!: sql_read_Inr split: option.splits)
  have f: "found = find (\<lambda>h. hd_portfolio h = td_portfolio x \<and> hd_symbol h = td_symbol x) (tb_holdings (st_tables w))"
    and t3: "st_tables w3 = append_trade x (st_tables w)"
    using sel t1 t2 by (auto simp: select_holding_by_symbol_def append_trade_def dest!: sql_read_Inr split: option.splits if_splits)
  show ?thesis
  proof (cases "td_side x = ''buy''")
    case True
    with rest have "buy_tx x cash found w3 = (Inr out, w')" by simp
    from buy_tx_Inr [OF this True] t3 p(2) True show ?thesis by (auto intro: that [OF row p(1) f])
  next
    case False
    with rest have "sell_tx x cash found w3 = (Inr out, w')" by simp
    from sell_tx_Inr [OF this False] t3 p(2) show ?thesis by (auto intro: that [OF row p(1) f])
  qed
qed

section \<open>Refinement\<close>

lemma book_okD:
  assumes "book_ok t"
  shows "tables_ok t" "distinct (map hd_id (tb_holdings t))" "distinct (map pf_id (tb_portfolios t))"
    "distinct (map position_key (tb_holdings t))" "h \<in> set (tb_holdings t) \<Longrightarrow> fpos (hd_quantity h)"
  using assms by (auto simp: book_ok_def tables_ok_def list_all_iff)

lemma key_columns [simp]:
  "position_key (holding_columns_tx h r) = (hd_portfolio r, hd_symbol h)" "position_of (holding_columns_tx h r) = position_of h"
  by (simp_all add: holding_columns_tx_def holding_columns_def position_key_def position_of_def)

lemma book_set_holding:
  assumes ids: "distinct (map hd_id (tb_holdings t))" and keys: "distinct (map position_key (tb_holdings t))" and h: "h \<in> set (tb_holdings t)" and h': "hd_id h' = hd_id h" "hd_symbol h' = hd_symbol h"
  shows "book_of (set_holding holding_columns_tx h' t) = (book_of t)\<lparr>bk_position := (bk_position (book_of t))(position_key h \<mapsto> position_of h')\<rparr>"
    and "map position_key (tb_holdings (set_holding holding_columns_tx h' t)) = map position_key (tb_holdings t)"
proof -
  have same: "r = h" if "r \<in> set (tb_holdings t)" "hd_id r = hd_id h" for r
    using that h ids by (auto simp: distinct_map dest: inj_onD)
  have m: "map (\<lambda>r. if hd_id r = hd_id h' then holding_columns_tx h' r else r) (tb_holdings t) =
      map (\<lambda>r. if hd_id r = hd_id h then holding_columns_tx h' h else r) (tb_holdings t)"
    using same h' by auto
  have k: "position_key (holding_columns_tx h' h) = position_key h" using h' by (simp add: position_key_def holding_columns_tx_def holding_columns_def)
  have key: "position_key (if hd_id r = hd_id h then holding_columns_tx h' h else r) = position_key r"
    if "r \<in> set (tb_holdings t)" for r using same [OF that] k by auto
  show "map position_key (tb_holdings (set_holding holding_columns_tx h' t)) = map position_key (tb_holdings t)"
    using key by (simp add: set_holding_def m)
  have "map_of (map (\<lambda>r. (position_key r, position_of r)) (map (\<lambda>r. if hd_id r = hd_id h then r\<lparr>hd_quantity := hd_quantity h',
        hd_available := hd_available h', hd_cost := hd_cost h'\<rparr> else r) (tb_holdings t))) =
      (map_of (map (\<lambda>r. (position_key r, position_of r)) (tb_holdings t)))(position_key h \<mapsto> position_of h')"
    by (subst map_of_key_update [OF ids keys h]) (simp_all add: position_key_def position_of_def)
  moreover have "map (\<lambda>r. (position_key r, position_of r)) (map (\<lambda>r. if hd_id r = hd_id h then holding_columns_tx h' h else r) (tb_holdings t)) =
      map (\<lambda>r. (position_key r, position_of r)) (map (\<lambda>r. if hd_id r = hd_id h then r\<lparr>hd_quantity := hd_quantity h',
        hd_available := hd_available h', hd_cost := hd_cost h'\<rparr> else r) (tb_holdings t))"
    using same k by (auto simp: position_key_def position_of_def holding_columns_tx_def holding_columns_def)
  ultimately show "book_of (set_holding holding_columns_tx h' t) =
      (book_of t)\<lparr>bk_position := (bk_position (book_of t))(position_key h \<mapsto> position_of h')\<rparr>"
    unfolding book_of_def set_holding_def m by (simp del: map_map)
qed

lemma book_drop_holding:
  assumes "distinct (map hd_id (tb_holdings t))" "distinct (map position_key (tb_holdings t))" "h \<in> set (tb_holdings t)"
  shows "book_of (drop_holding (hd_id h) t) = (book_of t)\<lparr>bk_position := (bk_position (book_of t))(position_key h := None)\<rparr>"
  using map_of_key_delete [OF assms, of position_of]
  by (simp add: book_of_def drop_holding_def)

lemma book_add_holding:
  assumes "position_key h \<notin> set (map position_key (tb_holdings t))"
  shows "book_of (add_holding h t) = (book_of t)\<lparr>bk_position := (bk_position (book_of t))(position_key h \<mapsto> position_of h)\<rparr>"
proof -
  have "map_of (map (\<lambda>h. (position_key h, position_of h)) (tb_holdings t)) (position_key h) = None"
    using assms by (auto simp: map_of_eq_None_iff)
  then have "map_of (map (\<lambda>h. (position_key h, position_of h)) (tb_holdings t) @ [(position_key h, position_of h)]) =
      (map_of (map (\<lambda>h. (position_key h, position_of h)) (tb_holdings t)))(position_key h \<mapsto> position_of h)"
    by (auto simp: fun_eq_iff map_add_def map_of_append split: option.split)
  then show ?thesis by (simp add: book_of_def add_holding_def)
qed

lemma book_set_cash:
  "has_portfolio pid t \<Longrightarrow> book_of (set_cash pid c n t) = (book_of t)\<lparr>bk_cash := (bk_cash (book_of t))(pid \<mapsto> c)\<rparr>"
  by (simp add: book_of_def set_cash_def map_of_cash has_portfolio_def del: map_map)

lemma book_append_trade: "book_of (append_trade x t) = (book_of t)\<lparr>bk_trades := bk_trades (book_of t) @ [x]\<rparr>"
  by (simp add: book_of_def append_trade_def)

lemma fpos_tolerance: "fpos tolerance"
proof -
  have "(10 :: int) ^ 9 \<le> 2 ^ 1074" by simp
  then show ?thesis
    unfolding tolerance_def f64_ratio_def by (intro fround_pos) (simp_all add: f64_unit_def)
qed

lemma fpos_above: "fpos x \<Longrightarrow> flt x y \<Longrightarrow> fpos y"
  unfolding fpos_def by (rule flt_trans)

lemma append_trade_fields [simp]:
  "tb_holdings (append_trade x t) = tb_holdings t" "tb_portfolios (append_trade x t) = tb_portfolios t"
  "has_portfolio pid (append_trade x t) = has_portfolio pid t"
  by (simp_all add: append_trade_def has_portfolio_def)

lemma trade_holdings_portfolios [simp]: "has_portfolio pid (trade_holdings x hid found t) = has_portfolio pid t"
  by (simp add: trade_holdings_def has_portfolio_def add_holding_def set_holding_def drop_holding_def split: option.split)

lemma bought_sold_fields [simp]:
  "hd_id (bought x h) = hd_id h" "hd_symbol (bought x h) = hd_symbol h" "hd_id (sold x h) = hd_id h" "hd_symbol (sold x h) = hd_symbol h"
  "hd_quantity (bought x h) = fadd (hd_quantity h) (td_quantity x)" "hd_quantity (sold x h) = fsub (hd_quantity h) (td_quantity x)"
  by (simp_all add: bought_def sold_def Let_def)

lemma position_bought: "position_of (bought x h) = book_buy x (Some (position_of h))"
  by (simp add: position_of_def bought_def book_buy_def Let_def)

lemma position_sold:
  "book_sell x (position_of h) = (if fle (hd_quantity (sold x h)) tolerance then None else Some (position_of (sold x h)))"
  by (simp add: position_of_def sold_def book_sell_def)

lemma trade_holdings_book:
  assumes ids: "distinct (map hd_id (tb_holdings t))" and keys: "distinct (map position_key (tb_holdings t))"
    and found: "found = find (\<lambda>h. hd_portfolio h = td_portfolio x \<and> hd_symbol h = td_symbol x) (tb_holdings t)"
    and sell: "td_side x \<noteq> ''buy'' \<Longrightarrow> found \<noteq> None"
  shows "bk_position (book_of (trade_holdings x hid found t)) =
      (let key = (td_portfolio x, td_symbol x); pos = bk_position (book_of t) in
       if td_side x = ''buy'' then pos(key \<mapsto> book_buy x (pos key)) else pos(key := book_sell x (the (pos key)))) \<and>
    bk_cash (book_of (trade_holdings x hid found t)) = bk_cash (book_of t) \<and>
    bk_trades (book_of (trade_holdings x hid found t)) = bk_trades (book_of t) \<and>
    distinct (map position_key (tb_holdings (trade_holdings x hid found t)))"
proof (cases found)
  case None
  then have key: "(td_portfolio x, td_symbol x) \<notin> set (map position_key (tb_holdings t))"
    using found find_no_position [of "td_portfolio x" "td_symbol x" "tb_holdings t"] by simp
  then have none: "bk_position (book_of t) (td_portfolio x, td_symbol x) = None"
    by (auto simp: book_of_def map_of_eq_None_iff)
  let ?h = "new_holding hid (td_portfolio x) (td_symbol x) (td_market x) (td_name x) (td_quantity x) (td_price x)
    (td_executed_at x) (td_created_at x)"
  have nk: "position_key ?h = (td_portfolio x, td_symbol x)" "position_of ?h = (td_quantity x, td_quantity x, td_price x)"
    by (simp_all add: new_holding_def position_key_def position_of_def)
  show ?thesis
    using None sell key none book_add_holding [of ?h t] keys nk
    by (auto simp: trade_holdings_def book_buy_def Let_def) (auto simp: add_holding_def)
next
  case (Some h)
  then have h: "h \<in> set (tb_holdings t)" "position_key h = (td_portfolio x, td_symbol x)"
    using found find_SomeD [of _ "tb_holdings t" h] by (auto simp: position_key_def)
  have pos: "bk_position (book_of t) (td_portfolio x, td_symbol x) = Some (position_of h)"
    using find_position [of "td_portfolio x" "td_symbol x" "tb_holdings t" h] Some found by (simp add: book_of_def)
  consider (buy) "td_side x = ''buy''" | (clear) "td_side x \<noteq> ''buy''" "fle (hd_quantity (sold x h)) tolerance"
    | (keep) "td_side x \<noteq> ''buy''" "\<not> fle (hd_quantity (sold x h)) tolerance" by blast
  then show ?thesis
  proof cases
    case buy
    then have "trade_holdings x hid found t = set_holding holding_columns_tx (bought x h) t" using Some by (simp add: trade_holdings_def)
    then show ?thesis
      using buy h pos book_set_holding [OF ids keys h(1), of "bought x h"] keys by (simp add: position_bought Let_def)
  next
    case clear
    then have "trade_holdings x hid found t = drop_holding (hd_id h) t" using Some by (simp add: trade_holdings_def)
    moreover have "distinct (map position_key (tb_holdings (drop_holding (hd_id h) t)))"
      using keys by (simp add: drop_holding_def distinct_map_filter)
    ultimately show ?thesis
      using clear h pos book_drop_holding [OF ids keys h(1)] by (simp add: position_sold Let_def)
  next
    case keep
    then have "trade_holdings x hid found t = set_holding holding_columns_tx (sold x h) t" using Some by (simp add: trade_holdings_def)
    then show ?thesis
      using keep h pos book_set_holding [OF ids keys h(1), of "sold x h"] keys by (simp add: position_sold Let_def)
  qed
qed

lemma trade_holdings_positive:
  assumes "list_all (\<lambda>h. fpos (hd_quantity h)) (tb_holdings t)" and q: "fpos (td_quantity x)"
    and found: "found = find (\<lambda>h. hd_portfolio h = td_portfolio x \<and> hd_symbol h = td_symbol x) (tb_holdings t)"
    and sell: "td_side x \<noteq> ''buy'' \<Longrightarrow> found \<noteq> None"
    and rows: "list_all holding_row_ok (tb_holdings (trade_holdings x hid found t))"
  shows "list_all (\<lambda>h. fpos (hd_quantity h)) (tb_holdings (trade_holdings x hid found t))"
proof (cases found)
  case None
  then show ?thesis using assms(1) q sell by (auto simp: trade_holdings_def add_holding_def new_holding_def)
next
  case (Some h)
  then have h: "h \<in> set (tb_holdings t)" using found find_SomeD [of _ "tb_holdings t" h] by simp
  then have pos: "fpos (fadd (hd_quantity h) (td_quantity x))" using assms(1) q by (auto simp: list_all_iff intro: fadd_pos)
  have cols: "hd_quantity (holding_columns_tx a b) = hd_quantity a" for a b
    by (simp add: holding_columns_tx_def holding_columns_def)
  have kept: "fpos (fsub (hd_quantity h) (td_quantity x))"
    if "\<not> fle (fsub (hd_quantity h) (td_quantity x)) tolerance" "fsub (hd_quantity h) (td_quantity x) \<noteq> NaN"
  proof -
    have "tolerance \<noteq> NaN" using fpos_tolerance flt_not_nan unfolding fpos_def by blast
    then show ?thesis using that not_fle fpos_above [OF fpos_tolerance] by blast
  qed
  show ?thesis
  proof (cases "td_side x \<noteq> ''buy'' \<and> fle (hd_quantity (sold x h)) tolerance")
    case True
    then show ?thesis using Some assms(1) by (auto simp: trade_holdings_def drop_holding_def list_all_iff)
  next
    case False
    then obtain h' where h': "trade_holdings x hid found t = set_holding holding_columns_tx h' t" "hd_id h' = hd_id h"
        "hd_quantity h' = (if td_side x = ''buy'' then fadd (hd_quantity h) (td_quantity x) else fsub (hd_quantity h) (td_quantity x))"
      using Some by (cases "td_side x = ''buy''") (auto simp: trade_holdings_def)
    have "holding_columns_tx h' h \<in> set (tb_holdings (trade_holdings x hid found t))"
      using h h' by (auto simp: set_holding_def)
    then have "hd_quantity h' \<noteq> NaN" using rows by (auto simp: list_all_iff holding_row_ok_def cols)
    then have "fpos (hd_quantity h')" using h'(3) False pos kept by (auto split: if_splits)
    then show ?thesis using assms(1) by (auto simp: h'(1) set_holding_def list_all_iff cols)
  qed
qed

lemma set_cash_holdings [simp]: "tb_holdings (set_cash pid c n t) = tb_holdings t"
  by (simp add: set_cash_def)

lemma apply_trade_book:
  assumes run: "apply_trade x w = (Inr out, w')" and ok: "book_ok (st_tables w)" and q: "\<not> fle (td_quantity x) f0"
  shows "book_admits x (book_of (st_tables w)) \<and> book_of (st_tables w') = book_trade x (book_of (st_tables w)) \<and> book_ok (st_tables w')"
proof -
  from run obtain p found hid where x: "trade_row_ok x"
    and p: "find (\<lambda>p. pf_id p = td_portfolio x) (tb_portfolios (st_tables w)) = Some p"
    and found: "found = find (\<lambda>h. hd_portfolio h = td_portfolio x \<and> hd_symbol h = td_symbol x) (tb_holdings (st_tables w))"
    and sell: "td_side x \<noteq> ''buy'' \<longrightarrow> (\<exists>h. found = Some h \<and> \<not> flt (hd_quantity h) (fsub (td_quantity x) tolerance))"
    and t': "st_tables w' = set_cash (td_portfolio x) (trade_cash x (pf_cash p)) (td_created_at x)
           (trade_holdings x hid found (append_trade x (st_tables w)))"
    by (rule apply_trade_Inr) blast
  let ?t = "append_trade x (st_tables w)"
  have has: "has_portfolio (td_portfolio x) (trade_holdings x hid found ?t)"
  proof -
    have "has_portfolio (td_portfolio x) (st_tables w)" using find_SomeD [OF p] by (auto simp: has_portfolio_def intro: rev_image_eqI)
    then show ?thesis by simp
  qed
  have cash: "bk_cash (book_of (st_tables w)) (td_portfolio x) = Some (pf_cash p)"
    using find_cash [OF p] by (simp add: book_of_def)
  have found': "found = find (\<lambda>h. hd_portfolio h = td_portfolio x \<and> hd_symbol h = td_symbol x) (tb_holdings ?t)"
    using found by simp
  note th = trade_holdings_book [of ?t found x hid, OF _ _ found']
  have th: "bk_position (book_of (trade_holdings x hid found ?t)) =
      (let key = (td_portfolio x, td_symbol x); pos = bk_position (book_of (st_tables w)) in
       if td_side x = ''buy'' then pos(key \<mapsto> book_buy x (pos key)) else pos(key := book_sell x (the (pos key)))) \<and>
    bk_cash (book_of (trade_holdings x hid found ?t)) = bk_cash (book_of (st_tables w)) \<and>
    bk_trades (book_of (trade_holdings x hid found ?t)) = tb_trades (st_tables w) @ [x] \<and>
    distinct (map position_key (tb_holdings (trade_holdings x hid found ?t)))"
    using th sell book_okD(2,4) [OF ok] by (auto simp: book_append_trade) (simp_all add: book_of_def)
  have admits: "book_admits x (book_of (st_tables w))"
  proof (cases "td_side x = ''buy''")
    case False
    then obtain h where h: "found = Some h" "\<not> flt (hd_quantity h) (fsub (td_quantity x) tolerance)" using sell by blast
    then have "bk_position (book_of (st_tables w)) (td_portfolio x, td_symbol x) = Some (position_of h)"
      using find_position [of "td_portfolio x" "td_symbol x" "tb_holdings (st_tables w)" h] found by (simp add: book_of_def)
    then show ?thesis using h cash by (simp add: book_admits_def position_of_def)
  qed (simp add: book_admits_def cash)
  have book: "book_of (st_tables w') = book_trade x (book_of (st_tables w))"
    using th cash unfolding t' book_set_cash [OF has]
    by (auto simp: book_trade_def trade_cash_def Let_def intro!: book.equality) (simp_all add: book_of_def)
  have "tables_ok (st_tables w')"
    using wf_state [OF wf_apply_trade book_okD(1) [OF ok], of x] run by simp
  moreover have "list_all (\<lambda>h. fpos (hd_quantity h)) (tb_holdings (st_tables w'))"
  proof -
    have "fpos (td_quantity x)" using q x by (simp add: fpos_fle trade_row_ok_def)
    moreover have "list_all holding_row_ok (tb_holdings (trade_holdings x hid found ?t))"
      using \<open>tables_ok (st_tables w')\<close> by (simp add: tables_ok_def t')
    ultimately show ?thesis
      using trade_holdings_positive [of ?t x found hid] found' sell ok by (auto simp: t' book_ok_def)
  qed
  moreover have "distinct (map position_key (tb_holdings (st_tables w')))" using th by (simp add: t')
  ultimately have "book_ok (st_tables w')" unfolding book_ok_def by blast
  with admits book show ?thesis by blast
qed

section \<open>Valuations keep the book\<close>

definition position_row :: "holding \<Rightarrow> string \<times> string \<times> string \<times> f64 \<times> f64 \<times> f64" where
  "position_row h = (hd_id h, hd_portfolio h, hd_symbol h, hd_quantity h, hd_available h, hd_cost h)"

definition same_book :: "tables \<Rightarrow> tables \<Rightarrow> bool" where
  "same_book t t' \<longleftrightarrow> tb_portfolios t' = tb_portfolios t \<and> tb_trades t' = tb_trades t \<and>
     map position_row (tb_holdings t') = map position_row (tb_holdings t)"

lemma same_book_refl [simp]: "same_book t t"
  by (simp add: same_book_def)

lemma same_book_trans: "same_book t u \<Longrightarrow> same_book u v \<Longrightarrow> same_book t v"
  by (simp add: same_book_def)

lemma map_of_projection:
  assumes "map f xs = map f ys" "\<And>x. g x = h (f x)" shows "map g xs = map g ys"
proof -
  have "map g zs = map h (map f zs)" for zs using assms(2) by simp
  with assms(1) show ?thesis by metis
qed

lemma same_book_projections:
  assumes "same_book t t'"
  shows "map hd_id (tb_holdings t') = map hd_id (tb_holdings t)" "map position_key (tb_holdings t') = map position_key (tb_holdings t)"
    "map hd_quantity (tb_holdings t') = map hd_quantity (tb_holdings t)" "book_of t' = book_of t"
proof -
  have m: "map position_row (tb_holdings t') = map position_row (tb_holdings t)" using assms by (simp add: same_book_def)
  show "map hd_id (tb_holdings t') = map hd_id (tb_holdings t)"
    by (rule map_of_projection [OF m, where h = fst]) (simp add: position_row_def)
  show "map position_key (tb_holdings t') = map position_key (tb_holdings t)"
    by (rule map_of_projection [OF m, where h = "\<lambda>r. (fst (snd r), fst (snd (snd r)))"]) (simp add: position_row_def position_key_def)
  show "map hd_quantity (tb_holdings t') = map hd_quantity (tb_holdings t)"
    by (rule map_of_projection [OF m, where h = "\<lambda>r. fst (snd (snd (snd r)))"]) (simp add: position_row_def)
  have "map (\<lambda>h. (position_key h, position_of h)) (tb_holdings t') = map (\<lambda>h. (position_key h, position_of h)) (tb_holdings t)"
    by (rule map_of_projection [OF m, where h = "\<lambda>(i, p, s, q). ((p, s), q)"]) (simp add: position_row_def position_key_def position_of_def)
  then show "book_of t' = book_of t" using assms by (simp add: book_of_def same_book_def)
qed

lemma same_book_ok: "same_book t t' \<Longrightarrow> tables_ok t' \<Longrightarrow> book_ok t \<Longrightarrow> book_ok t'"
  using same_book_projections [of t t']
  unfolding book_ok_def by (metis list.pred_map comp_def list_all_length)

lemma update_holding_tx_book:
  assumes run: "update_holding_tx h w = (r, w')" and ids: "distinct (map hd_id (tb_holdings (st_tables w)))"
    and row: "position_row h \<in> set (map position_row (tb_holdings (st_tables w)))"
  shows "same_book (st_tables w) (st_tables w')"
proof (cases r)
  case (Inl e)
  then show ?thesis using run by (auto simp: update_holding_tx_def dest: sql_rows_Inl)
next
  case (Inr u)
  then have t': "st_tables w' = set_holding holding_columns_tx h (st_tables w)" using run update_holding_tx_Inr by blast
  have "position_row (if hd_id q = hd_id h then holding_columns_tx h q else q) = position_row q"
    if q: "q \<in> set (tb_holdings (st_tables w))" for q
  proof (cases "hd_id q = hd_id h")
    case True
    obtain q' where q': "q' \<in> set (tb_holdings (st_tables w))" "position_row q' = position_row h" using row by auto
    then have "hd_id q' = hd_id q" using True by (simp add: position_row_def)
    then have "q' = q" using ids q q'(1) by (auto simp: distinct_map dest: inj_onD)
    then show ?thesis using True q' by (simp add: position_row_def holding_columns_tx_def holding_columns_def)
  qed simp
  then show ?thesis by (simp add: t' same_book_def set_holding_def)
qed

lemma update_holdings_tx_book:
  "update_holdings_tx hs w = (r, w') \<Longrightarrow> distinct (map hd_id (tb_holdings (st_tables w))) \<Longrightarrow>
   \<forall>h \<in> set hs. position_row h \<in> set (map position_row (tb_holdings (st_tables w))) \<Longrightarrow> same_book (st_tables w) (st_tables w')"
proof (induction hs arbitrary: w)
  case Nil
  then show ?case by (simp add: ret_def)
next
  case (Cons h hs)
  obtain q w1 where one: "update_holding_tx h w = (q, w1)" by fastforce
  have b: "same_book (st_tables w) (st_tables w1)" using update_holding_tx_book [OF one] Cons.prems by simp
  show ?case
  proof (cases q)
    case (Inl e)
    then show ?thesis using Cons.prems(1) one b by (simp add: seqE_def bindE_def)
  next
    case (Inr u)
    then have rest: "update_holdings_tx hs w1 = (r, w')" using Cons.prems(1) one by (simp add: seqE_def bindE_def)
    have "map position_row (tb_holdings (st_tables w1)) = map position_row (tb_holdings (st_tables w))"
      using b by (simp add: same_book_def)
    then have "set (map position_row (tb_holdings (st_tables w1))) = set (map position_row (tb_holdings (st_tables w)))" by metis
    then have "\<forall>h \<in> set hs. position_row h \<in> set (map position_row (tb_holdings (st_tables w1)))"
      using Cons.prems(3) by simp
    then have "same_book (st_tables w1) (st_tables w')"
      using Cons.IH [OF rest] Cons.prems(2) same_book_projections(1) [OF b] by simp
    then show ?thesis using b same_book_trans by blast
  qed
qed

end
