(* ===== verification/PortfolioTrades.thy ===== *)
theory PortfolioTrades
  imports PortfolioBook
begin

text \<open>
  The properties of the portfolio operations: a recorded trade is the book's operation or nothing, runs
  of trades and valuations keep every position positive and unique, the rows of portfolios and trades stay
  what the service's checks admit, and a valuation saved after a trade it did not see undoes the trade's position.
\<close>

section \<open>Reads and valuations\<close>

interpretation unread: frame_relation "trel (=)"
  by unfold_locales (auto simp: trel_def)

lemmas unread_rules = unread.keeps_rules keeps_sql_read [where R = "(=)", OF refl] keeps_time_now [where R = "(=)", OF refl]
  keeps_generate_id [where R = "(=)", OF refl]

lemma reads_keep:
  "keeps (trel (=)) (select_portfolio pid)" "keeps (trel (=)) (select_holdings pid)" "keeps (trel (=)) select_portfolios"
  "keeps (trel (=)) (select_valuations pid n)" "keeps (trel (=)) (parse_executed_at s)"
  "keeps (trel (=)) (recalculate_now p hs qs)"
  unfolding select_portfolio_def select_holdings_def select_portfolios_def select_valuations_def parse_executed_at_def
    recalculate_now_def Let_def
  by (auto intro!: unread_rules split: option.split)

lemma should_write_keeps: "keeps (trel (=)) (should_write_snapshot ul pid src v)"
  unfolding should_write_snapshot_def by (auto intro!: unread_rules reads_keep split: sum.split list.split)

lemma reads_state: "keeps (trel (=)) m \<Longrightarrow> m w = (r, w') \<Longrightarrow> st_tables w' = st_tables w"
  using keepsD [of "trel (=)" m w r w'] by (simp add: trel_def)

lemma recalculate_holding_position [simp]: "position_row (fst (recalculate_holding h q vat)) = position_row h"
  by (simp add: recalculate_holding_def position_row_def split: option.split prod.split)

lemma recalculate_positions: "map position_row (rf_holdings (recalculate p hs qs vat vid)) = map position_row hs"
proof -
  have "position_row (h\<lparr>hd_position_pct := x\<rparr>) = position_row h" for h x by (simp add: position_row_def)
  then show ?thesis by (simp add: recalculate_def Let_def)
qed

lemma recalculate_now_Inr:
  "recalculate_now p hs qs w = (r, w') \<Longrightarrow> \<exists>vat vid. r = Inr (recalculate p hs qs vat vid)"
  by (auto simp: recalculate_now_def bindE_def time_now_def get_state_def generate_id_def ret_def split: prod.splits)

lemma select_holdings_Inr: "select_holdings pid w = (Inr hs, w') \<Longrightarrow> set hs = set (holdings_of pid (st_tables w)) \<and> st_tables w' = st_tables w"
  by (auto simp: select_holdings_def scan_all_def newest_first_def dest!: sql_read_Inr split: if_splits)

lemma insert_valuation_book: "insert_valuation v w = (Inr u, w') \<Longrightarrow> same_book (st_tables w) (st_tables w')"
  unfolding insert_valuation_def Let_def
  by (auto elim!: bind_InrE dest!: sql_write_Inr simp: same_book_def time_now_def get_state_def generate_id_def ret_def split: if_splits)

lemma save_valuation_book:
  assumes run: "save_portfolio_valuation hs v b w = (r, w')" and ids: "distinct (map hd_id (tb_holdings (st_tables w)))"
    and rows: "\<forall>h \<in> set hs. position_row h \<in> set (map position_row (tb_holdings (st_tables w)))"
  shows "same_book (st_tables w) (st_tables w')"
  using run unfolding save_portfolio_valuation_def
proof (cases rule: run_tx_cases)
  case (rolled_back e)
  then show ?thesis by simp
next
  case (committed x w1 w2)
  from committed(2) obtain u wm where hs: "update_holdings_tx hs w1 = (Inr u, wm)" and ins: "whenE b (insert_valuation v) wm = (Inr x, w2)"
    by (rule seq_InrE)
  have "same_book (st_tables w1) (st_tables wm)" using update_holdings_tx_book [OF hs] ids rows committed(3) by simp
  moreover have "same_book (st_tables wm) (st_tables w2)"
    using ins by (auto simp: whenE_def ret_def dest: insert_valuation_book split: if_splits)
  ultimately show ?thesis using same_book_trans committed(3,4) by metis
qed

lemma save_recalculated_book:
  assumes sel: "select_holdings pid w = (Inr hs, w1)" and same: "st_tables w2 = st_tables w1" and ok: "tables_ok (st_tables w)"
    and save: "save_portfolio_valuation (rf_holdings (recalculate p hs qs vat vid)) v b w2 = (r, w')"
  shows "same_book (st_tables w) (st_tables w')"
proof -
  note hs = select_holdings_Inr [OF sel]
  have "set (map position_row (rf_holdings (recalculate p hs qs vat vid))) = set (map position_row hs)"
    unfolding recalculate_positions by simp
  then have "\<forall>h \<in> set (rf_holdings (recalculate p hs qs vat vid)). position_row h \<in> set (map position_row (tb_holdings (st_tables w2)))"
    using hs same by (auto simp: holdings_of_def)
  then show ?thesis using save_valuation_book [OF save] hs same ok by (simp add: tables_ok_def)
qed

lemma refresh_book:
  assumes run: "refresh_portfolio_valuation ul fetch pid src w = (r, w')" and ok: "tables_ok (st_tables w)"
  shows "same_book (st_tables w) (st_tables w')"
  using run unfolding refresh_portfolio_valuation_def
proof (cases rule: bind_cases)
  case (1 e)
  then show ?thesis using reads_state reads_keep(1) by (metis same_book_refl)
next
  case (2 p w1)
  have t1: "st_tables w1 = st_tables w" using 2(1) reads_state reads_keep(1) by metis
  from 2(2) show ?thesis
  proof (cases rule: bind_cases)
    case (1 e)
    then show ?thesis using reads_state [OF reads_keep(2)] t1 by (metis same_book_refl)
  next
    case (2 hs w2)
    have t2: "st_tables w2 = st_tables w" using reads_state [OF reads_keep(2) 2(1)] t1 by simp
    show ?thesis
    proof (cases "fetch (unique_symbols [] hs)")
      case (Inl e)
      then show ?thesis using 2(2) t2 by (simp add: throw_def)
    next
      case (Inr qs)
      with 2(2) obtain q w3 where rec: "recalculate_now p hs qs w2 = (q, w3)"
        and rest: "bindE (recalculate_now p hs qs) (\<lambda>res. bindE (should_write_snapshot ul pid src (rf_valuation res)) (\<lambda>b.
          seqE (save_portfolio_valuation (rf_holdings res) (rf_valuation res) b) (ret res))) w2 = (r, w')" by fastforce
      obtain vat vid where q: "q = Inr (recalculate p hs qs vat vid)" using recalculate_now_Inr [OF rec] by blast
      have t3: "st_tables w3 = st_tables w" using reads_state [OF reads_keep(6) rec] t2 by simp
      define res where "res = recalculate p hs qs vat vid"
      from rest rec q have "bindE (should_write_snapshot ul pid src (rf_valuation res)) (\<lambda>b.
          seqE (save_portfolio_valuation (rf_holdings res) (rf_valuation res) b) (ret res)) w3 = (r, w')"
        by (simp add: bindE_def [of "recalculate_now p hs qs"] res_def)
      then show ?thesis
      proof (cases rule: bind_cases)
        case (1 e)
        then show ?thesis using reads_state [OF should_write_keeps] t3 by (metis same_book_refl)
      next
        case (2 b w4)
        have t4: "st_tables w4 = st_tables w" using reads_state [OF should_write_keeps 2(1)] t3 by simp
        obtain s w5 where save: "save_portfolio_valuation (rf_holdings res) (rf_valuation res) b w4 = (s, w5)" by fastforce
        then have "w' = w5" using 2(2) by (auto simp: seqE_def bindE_def ret_def split: sum.splits)
        moreover have "same_book (st_tables w1) (st_tables w5)"
          using save_recalculated_book [OF \<open>select_holdings pid w1 = (Inr hs, w2)\<close> _ _ save [unfolded res_def]] t4 t2 t1 ok by simp
        ultimately show ?thesis using t1 by simp
      qed
    qed
  qed
qed

lemma refresh_each_book:
  "refresh_each ul qs ps w = (r, w') \<Longrightarrow> tables_ok (st_tables w) \<Longrightarrow> same_book (st_tables w) (st_tables w')"
proof (induction ps arbitrary: w)
  case Nil
  then show ?case by (simp add: ret_def)
next
  case (Cons p ps)
  from Cons.prems(1)[simplified] show ?case
  proof (cases rule: bind_cases)
    case (1 e)
    then show ?thesis using reads_state [OF reads_keep(2)] by (metis same_book_refl)
  next
    case (2 hs w1)
    have t1: "st_tables w1 = st_tables w" using reads_state [OF reads_keep(2) 2(1)] .
    show ?thesis
    proof (cases "has_quoted_symbol hs qs")
      case False
      then show ?thesis using 2(2) Cons.IH [of w1] Cons.prems(2) t1 by simp
    next
      case True
      obtain q w2 where rec: "recalculate_now p hs qs w1 = (q, w2)" by fastforce
      obtain vat vid where q: "q = Inr (recalculate p hs qs vat vid)" using recalculate_now_Inr [OF rec] by blast
      define res where "res = recalculate p hs qs vat vid"
      have t2: "st_tables w2 = st_tables w" using reads_state [OF reads_keep(6) rec] t1 by simp
      from 2(2) True rec q have "bindE (should_write_snapshot ul (pf_id p) ''monitor'' (rf_valuation res)) (\<lambda>b.
          seqE (save_portfolio_valuation (rf_holdings res) (rf_valuation res) b) (refresh_each ul qs ps)) w2 = (r, w')"
        by (simp add: bindE_def [of "recalculate_now p hs qs"] res_def)
      then show ?thesis
      proof (cases rule: bind_cases)
        case (1 e)
        then show ?thesis using reads_state [OF should_write_keeps] t2 by (metis same_book_refl)
      next
        case (2 b w3)
        have t3: "st_tables w3 = st_tables w" using reads_state [OF should_write_keeps 2(1)] t2 by simp
        obtain s w4 where save: "save_portfolio_valuation (rf_holdings res) (rf_valuation res) b w3 = (s, w4)" by fastforce
        have b: "same_book (st_tables w) (st_tables w4)"
          using save_recalculated_book [OF \<open>select_holdings (pf_id p) w = (Inr hs, w1)\<close> _ Cons.prems(2) save [unfolded res_def]] t3 t1 by simp
        have ok: "tables_ok (st_tables w4)"
          using wf_state [OF wf_save, of w3] save t3 Cons.prems(2) by (metis snd_conv)
        from 2(2) save have "case s of Inl e \<Rightarrow> w' = w4 | Inr u \<Rightarrow> refresh_each ul qs ps w4 = (r, w')"
          by (auto simp: seqE_def bindE_def split: sum.splits)
        then show ?thesis
          using b Cons.IH [OF _ ok] same_book_trans [OF b] by (cases s) auto
      qed
    qed
  qed
qed

lemma refresh_all_book:
  assumes "refresh_from_latest_quotes ul qs w = (r, w')" "tables_ok (st_tables w)"
  shows "same_book (st_tables w) (st_tables w')"
proof (cases "qs = []")
  case True
  then show ?thesis using assms by (simp add: refresh_from_latest_quotes_def ret_def)
next
  case False
  with assms(1) have "bindE select_portfolios (refresh_each ul qs) w = (r, w')" by (simp add: refresh_from_latest_quotes_def)
  then show ?thesis
  proof (cases rule: bind_cases)
    case (1 e)
    then show ?thesis using reads_state [OF reads_keep(3)] by (metis same_book_refl)
  next
    case (2 ps w1)
    then show ?thesis using refresh_each_book [OF 2(2)] reads_state [OF reads_keep(3) 2(1)] assms(2) by simp
  qed
qed

lemma book_ok_same: "same_book t t' \<Longrightarrow> tables_ok t' \<Longrightarrow> book_ok t \<Longrightarrow> book_ok t' \<and> book_of t' = book_of t"
  using same_book_ok same_book_projections(4) by blast

lemma refresh_keeps_book:
  assumes "book_ok (st_tables w)"
  shows "book_ok (st_tables (snd (refresh_portfolio_valuation ul fetch pid src w)))"
    "book_of (st_tables (snd (refresh_portfolio_valuation ul fetch pid src w))) = book_of (st_tables w)"
    "book_ok (st_tables (snd (refresh_from_latest_quotes ul qs w)))"
proof -
  note ok = book_okD(1) [OF assms]
  have "same_book (st_tables w) (st_tables (snd (refresh_portfolio_valuation ul fetch pid src w)))"
    using refresh_book [OF prod.collapse [symmetric] ok] .
  from book_ok_same [OF this wf_state [OF wf_refresh ok] assms]
  show "book_ok (st_tables (snd (refresh_portfolio_valuation ul fetch pid src w)))"
    "book_of (st_tables (snd (refresh_portfolio_valuation ul fetch pid src w))) = book_of (st_tables w)" by blast+
  have "same_book (st_tables w) (st_tables (snd (refresh_from_latest_quotes ul qs w)))"
    using refresh_all_book [OF prod.collapse [symmetric] ok] .
  from book_ok_same [OF this wf_state [OF wf_refresh_all ok] assms]
  show "book_ok (st_tables (snd (refresh_from_latest_quotes ul qs w)))" by blast
qed

section \<open>Trades\<close>

text \<open>The request a recorded trade comes from.\<close>

definition trade_of :: "string \<Rightarrow> trade_request \<Rightarrow> trade \<Rightarrow> bool" where
  "trade_of pid rq x \<longleftrightarrow> td_portfolio x = pid \<and> td_symbol x = trim_space (tr_symbol rq) \<and> td_side x = trim_space (tr_side rq) \<and>
     td_quantity x = tr_quantity rq \<and> td_price x = tr_price rq \<and> td_amount x = fmul (tr_quantity rq) (tr_price rq)"

lemma trade_of_make: "trade_of pid rq (make_trade inst pid rq tid executed now)"
  by (simp add: trade_of_def make_trade_def Let_def split: prod.split)

lemma bind_time_now: "bindE time_now f w = f (st_clock w (st_calls w)) w"
  by (simp add: bindE_def time_now_def get_state_def)

lemma trade_tx_outcome:
  assumes run: "run_tx (bindE generate_id (\<lambda>tid. let x = make_trade inst pid rq tid executed now in
        bindE (apply_trade x) (\<lambda>out. ret (x, out)))) w = (r, w')"
    and ok: "book_ok (st_tables w)" and q: "\<not> fle (tr_quantity rq) f0"
  shows "case r of Inl e \<Rightarrow> st_tables w' = st_tables w
    | Inr (x, out) \<Rightarrow> trade_of pid rq x \<and> book_admits x (book_of (st_tables w)) \<and>
        book_of (st_tables w') = book_trade x (book_of (st_tables w)) \<and> book_ok (st_tables w')"
  using run
proof (cases rule: run_tx_cases)
  case (rolled_back e)
  then show ?thesis by simp
next
  case (committed y w1 w2)
  from committed(2) obtain tid wa out wb where gid: "generate_id w1 = (Inr tid, wa)"
    and ap: "apply_trade (make_trade inst pid rq tid executed now) wa = (Inr out, wb)"
    and y: "y = (make_trade inst pid rq tid executed now, out)" "w2 = wb"
    by (auto simp: Let_def elim!: bind_InrE dest!: ret_InrD)
  have ta: "st_tables wa = st_tables w" using generate_id_state [OF gid] committed(3) by simp
  have "td_quantity (make_trade inst pid rq tid executed now) = tr_quantity rq"
    using trade_of_make unfolding trade_of_def by blast
  with apply_trade_book [OF ap] ta ok q
  show ?thesis using committed(1,4) y trade_of_make by (cases out) auto
qed

lemma record_outcome:
  assumes run: "record_transaction ul fetch inst pid rq w = (r, w')" and ok: "book_ok (st_tables w)"
  shows "case r of Inl e \<Rightarrow> st_tables w' = st_tables w
    | Inr res \<Rightarrow> trade_of pid rq (tt_trade res) \<and> book_admits (tt_trade res) (book_of (st_tables w)) \<and>
        book_of (st_tables w') = book_trade (tt_trade res) (book_of (st_tables w)) \<and> book_ok (st_tables w')"
proof (cases "(trim_space (tr_side rq) \<noteq> ''buy'' \<and> trim_space (tr_side rq) \<noteq> ''sell'') \<or>
    trim_space (tr_symbol rq) = [] \<or> fle (tr_quantity rq) f0 \<or> fle (tr_price rq) f0")
  case True
  then have "r \<noteq> Inr res \<and> w' = w" for res using run by (auto simp: record_transaction_def throw_def split: if_splits)
  then show ?thesis by (cases r) auto
next
  case False
  with run have run': "bindE (parse_executed_at (tr_executed_at rq)) (\<lambda>executed. bindE time_now (\<lambda>now.
      bindE (run_tx (bindE generate_id (\<lambda>tid. let x = make_trade inst pid rq tid executed now in
        bindE (apply_trade x) (\<lambda>out. ret (x, out))))) (\<lambda>(x, h, cleared).
      bindE (attempt (select_portfolio pid)) (\<lambda>p :: stock_error + portfolio.
      bindE (attempt (refresh_portfolio_valuation ul fetch pid ''trade'')) (\<lambda>_ :: stock_error + refresh_result.
        ret \<lparr>tt_trade = x, tt_portfolio = (case p of Inl _ \<Rightarrow> None | Inr q \<Rightarrow> Some q), tt_holding = h, tt_cleared = cleared\<rparr>))))) w = (r, w')"
    unfolding record_transaction_def by (simp split: if_splits)
  from run' show ?thesis
  proof (cases rule: bind_cases)
    case (1 e)
    then show ?thesis using reads_state [OF reads_keep(5) 1(1)] by simp
  next
    case (2 executed w1)
    have t1: "st_tables w1 = st_tables w" using reads_state [OF reads_keep(5) 2(1)] .
    define now where "now = st_clock w1 (st_calls w1)"
    define tx where "tx = run_tx (bindE generate_id (\<lambda>tid. let x = make_trade inst pid rq tid executed now in
        bindE (apply_trade x) (\<lambda>out. ret (x, out))))"
    from 2(2) have "bindE tx (\<lambda>(x, h, cleared).
        bindE (attempt (select_portfolio pid)) (\<lambda>p :: stock_error + portfolio.
        bindE (attempt (refresh_portfolio_valuation ul fetch pid ''trade'')) (\<lambda>_ :: stock_error + refresh_result.
          ret \<lparr>tt_trade = x, tt_portfolio = (case p of Inl _ \<Rightarrow> None | Inr q \<Rightarrow> Some q), tt_holding = h, tt_cleared = cleared\<rparr>))) w1 = (r, w')"
      by (simp add: tx_def bind_time_now now_def)
    then show ?thesis
    proof (cases rule: bind_cases)
      case (1 e)
      then show ?thesis using trade_tx_outcome [OF 1(1) [unfolded tx_def]] ok t1 False by simp
    next
      case (2 y w2)
      obtain x h cleared where y: "y = (x, h, cleared)" by (cases y)
      have tx: "trade_of pid rq x \<and> book_admits x (book_of (st_tables w)) \<and>
          book_of (st_tables w2) = book_trade x (book_of (st_tables w)) \<and> book_ok (st_tables w2)"
        using trade_tx_outcome [OF 2(1) [unfolded tx_def]] ok t1 False y by simp
      obtain p w3 where p: "select_portfolio pid w2 = (p, w3)" by fastforce
      have t3: "st_tables w3 = st_tables w2" using reads_state [OF reads_keep(1) p] .
      have r: "r = Inr \<lparr>tt_trade = x, tt_portfolio = (case p of Inl _ \<Rightarrow> None | Inr q \<Rightarrow> Some q), tt_holding = h, tt_cleared = cleared\<rparr>"
        and w': "w' = snd (refresh_portfolio_valuation ul fetch pid ''trade'' w3)"
        using 2(2) y p by (auto simp: bindE_def attempt_def ret_def split: prod.splits)
      show ?thesis using tx refresh_keeps_book(1,2) [of w3 ul fetch pid "''trade''"] t3 by (simp add: r w')
    qed
  qed
qed

section \<open>A valuation that did not see a trade\<close>

lemma update_holdings_sets:
  "update_holdings_tx hs w = (Inr u, w') \<Longrightarrow> distinct (map hd_id hs) \<Longrightarrow>
   \<forall>h \<in> set hs. \<forall>r \<in> set (tb_holdings (st_tables w)). hd_id r = hd_id h \<longrightarrow> position_key r = position_key h \<Longrightarrow>
   (\<forall>h \<in> set hs. \<exists>r \<in> set (tb_holdings (st_tables w')). position_row r = position_row h) \<and>
   (\<forall>r \<in> set (tb_holdings (st_tables w)). hd_id r \<notin> hd_id ` set hs \<longrightarrow> r \<in> set (tb_holdings (st_tables w'))) \<and>
   map position_key (tb_holdings (st_tables w')) = map position_key (tb_holdings (st_tables w)) \<and>
   tb_portfolios (st_tables w') = tb_portfolios (st_tables w) \<and> tb_trades (st_tables w') = tb_trades (st_tables w)"
proof (induction hs arbitrary: w)
  case Nil
  then show ?case by (auto simp: ret_def)
next
  case (Cons h hs)
  from Cons.prems(1) obtain v w1 where one: "update_holding_tx h w = (Inr v, w1)" and rest: "update_holdings_tx hs w1 = (Inr u, w')"
    by (auto elim!: seq_InrE)
  have t1: "st_tables w1 = set_holding holding_columns_tx h (st_tables w)" using update_holding_tx_Inr [OF one] .
  have "count_holding (hd_id h) (st_tables w) \<noteq> 0" using one by (auto simp: update_holding_tx_def dest: sql_rows_Inr)
  then obtain r where r: "r \<in> set (tb_holdings (st_tables w))" "hd_id r = hd_id h" by (auto simp: count_holding_def filter_empty_conv)
  have key: "position_key q = position_key h" if "q \<in> set (tb_holdings (st_tables w))" "hd_id q = hd_id h" for q
    using Cons.prems(3) that by simp
  have keys1: "map position_key (tb_holdings (st_tables w1)) = map position_key (tb_holdings (st_tables w))"
    using key by (auto simp: t1 set_holding_def position_key_def holding_columns_tx_def holding_columns_def)
  have prem: "\<forall>g \<in> set hs. \<forall>q \<in> set (tb_holdings (st_tables w1)). hd_id q = hd_id g \<longrightarrow> position_key q = position_key g"
    using Cons.prems(3) key
    by (auto simp: t1 set_holding_def position_key_def holding_columns_tx_def holding_columns_def split: if_splits)
  note ih = Cons.IH [OF rest _ prem]
  have new: "holding_columns_tx h r \<in> set (tb_holdings (st_tables w1))" using r by (auto simp: t1 set_holding_def)
  have "position_row (holding_columns_tx h r) = position_row h" "hd_id (holding_columns_tx h r) = hd_id h"
    using r key [OF r] by (auto simp: position_row_def position_key_def holding_columns_tx_def holding_columns_def)
  with ih new Cons.prems(2) have "\<exists>q \<in> set (tb_holdings (st_tables w')). position_row q = position_row h" by auto
  moreover have "q \<in> set (tb_holdings (st_tables w'))"
    if "q \<in> set (tb_holdings (st_tables w))" "hd_id q \<notin> hd_id ` set (h # hs)" for q
  proof -
    have "q \<in> set (tb_holdings (st_tables w1))" using that by (force simp: t1 set_holding_def)
    then show ?thesis using ih Cons.prems(2) that by auto
  qed
  ultimately show ?case using ih Cons.prems(2) keys1 by (auto simp: t1 set_holding_def)
qed

lemma stale_save:
  assumes sel: "select_holdings pid w = (Inr hs, w1)" and ok: "book_ok (st_tables w)" "book_ok (st_tables w2)"
    and ids: "\<forall>h \<in> set hs. \<forall>r \<in> set (tb_holdings (st_tables w2)). hd_id r = hd_id h \<longrightarrow> position_key r = position_key h"
    and save: "save_portfolio_valuation (rf_holdings (recalculate p hs qs vat vid)) v b w2 = (Inr u, w3)"
  shows "bk_cash (book_of (st_tables w3)) = bk_cash (book_of (st_tables w2)) \<and> bk_trades (book_of (st_tables w3)) = bk_trades (book_of (st_tables w2)) \<and>
    (\<forall>h \<in> set hs. bk_position (book_of (st_tables w3)) (position_key h) = bk_position (book_of (st_tables w)) (position_key h))"
proof -
  let ?hs = "rf_holdings (recalculate p hs qs vat vid)"
  note rows = recalculate_positions [of p hs qs vat vid]
  have hs: "set hs = set (holdings_of pid (st_tables w))" using select_holdings_Inr [OF sel] by simp
  have ids': "map hd_id ?hs = map hd_id hs" and keys': "map position_key ?hs = map position_key hs"
    by (rule map_of_projection [OF rows, where h = fst], simp add: position_row_def)
       (rule map_of_projection [OF rows, where h = "\<lambda>r. (fst (snd r), fst (snd (snd r)))"], simp add: position_row_def position_key_def)
  have dist: "distinct (map hd_id ?hs)"
    unfolding ids' using sel book_okD(2) [OF ok(1)]
    by (auto simp: select_holdings_def scan_all_def newest_first_def holdings_of_def distinct_map inj_on_def
        dest!: sql_read_Inr split: if_splits)
  have pair: "\<exists>g \<in> set hs. hd_id g = hd_id h \<and> position_key g = position_key h" if "h \<in> set ?hs" for h
  proof -
    have "position_row h \<in> set (map position_row hs)" using that rows by (metis image_eqI set_map)
    then show ?thesis by (auto simp: position_row_def position_key_def)
  qed
  from save [unfolded save_portfolio_valuation_def] obtain wa wb where tx: "seqE (update_holdings_tx ?hs) (whenE b (insert_valuation v)) wa = (Inr u, wb)"
    and wa: "st_tables wa = st_tables w2" and wb: "st_tables w3 = st_tables wb"
    by (cases rule: run_tx_cases) auto
  from tx obtain x wm where up: "update_holdings_tx ?hs wa = (Inr x, wm)" and ins: "whenE b (insert_valuation v) wm = (Inr u, wb)"
    by (rule seq_InrE)
  have "\<forall>h \<in> set ?hs. \<forall>r \<in> set (tb_holdings (st_tables wa)). hd_id r = hd_id h \<longrightarrow> position_key r = position_key h"
    using ids pair wa by metis
  note up = update_holdings_sets [OF up dist this]
  have same: "same_book (st_tables wm) (st_tables w3)"
    using ins wb by (auto simp: whenE_def ret_def dest: insert_valuation_book split: if_splits)
  have book: "book_of (st_tables w3) = book_of (st_tables wm)" using same_book_projections(4) [OF same] .
  have keys: "distinct (map position_key (tb_holdings (st_tables wm)))" using up wa book_okD(4) [OF ok(2)] by simp
  have "bk_position (book_of (st_tables w3)) (position_key h) = bk_position (book_of (st_tables w)) (position_key h)" if h: "h \<in> set hs" for h
  proof -
    have "position_row h \<in> set (map position_row ?hs)" using h rows by simp
    then obtain g where "g \<in> set ?hs" "position_row g = position_row h" by auto
    with up obtain r where r: "r \<in> set (tb_holdings (st_tables wm))" "position_row r = position_row h" by auto
    have at_key: "bk_position (book_of t) (position_key q) = Some (position_of q)"
      if "q \<in> set (tb_holdings t)" "distinct (map position_key (tb_holdings t))" for q t
      using that by (auto simp: book_of_def intro!: map_of_is_SomeI simp: comp_def)
    have "h \<in> set (tb_holdings (st_tables w))" using h hs by (simp add: holdings_of_def)
    then show ?thesis
      using at_key [OF r(1) keys] at_key [OF _ book_okD(4) [OF ok(1)]] r(2) book
      by (simp add: position_row_def position_key_def position_of_def)
  qed
  then show ?thesis using up wa book by (simp add: book_of_def)
qed

section \<open>Properties\<close>

text \<open>
  C27: Recording a trade refines the account book.  On success exactly the requested trade is in the
  book (quantity, price, rounded amount), the book admitted it, and cash, position and average cost
  are those of the book's own operation, whatever the valuation that follows does; on any error,
  a failing statement or commit included, the tables are unchanged.
\<close>

theorem trade_refines_book:
  assumes "record_transaction ul fetch inst pid rq w = (r, w')" and "book_ok (st_tables w)"
  shows "case r of Inl e \<Rightarrow> st_tables w' = st_tables w
    | Inr res \<Rightarrow> trade_of pid rq (tt_trade res) \<and> book_admits (tt_trade res) (book_of (st_tables w)) \<and>
        book_of (st_tables w') = book_trade (tt_trade res) (book_of (st_tables w))"
  using record_outcome [OF assms] by (auto split: sum.splits)

definition is_trading :: "stock_op \<Rightarrow> bool" where
  "is_trading a = (case a of OpTrade _ _ _ _ \<Rightarrow> True | OpRefresh _ _ _ \<Rightarrow> True | OpRefreshAll _ \<Rightarrow> True | _ \<Rightarrow> False)"

lemma book_step:
  assumes "book_ok (st_tables w)" "is_trading a" shows "book_ok (st_tables (stock_step ul a w))"
proof (cases a)
  case (OpTrade fetch inst pid rq)
  obtain r w' where run: "record_transaction ul fetch inst pid rq w = (r, w')" by fastforce
  from record_outcome [OF run assms(1)] show ?thesis using assms(1) OpTrade run by (auto split: sum.splits)
qed (use assms refresh_keeps_book in \<open>auto simp: is_trading_def\<close>)

text \<open>
  C28: Trades and valuations never leave a short, empty or double position.  From tables that are a
  book, after any run of trades and valuation refreshes with any failures, every holding has a positive
  quantity and no two holdings of a portfolio have the same symbol.
\<close>

theorem positions_stay_positive:
  assumes "book_ok (st_tables w)" and "list_all is_trading ops"
  shows "list_all (\<lambda>h. fpos (hd_quantity h)) (tb_holdings (st_tables (fold (stock_step ul) ops w))) \<and>
    distinct (map (\<lambda>h. (hd_portfolio h, hd_symbol h)) (tb_holdings (st_tables (fold (stock_step ul) ops w))))"
proof -
  have "book_ok (st_tables (fold (stock_step ul) ops w))"
    using assms by (induction ops arbitrary: w) (auto intro: book_step)
  then show ?thesis by (simp add: book_ok_def position_key_def [abs_def])
qed

definition empty_tables :: tables where
  "empty_tables = \<lparr>tb_portfolios = [], tb_holdings = [], tb_trades = [], tb_valuations = []\<rparr>"

section \<open>Rows that the service wrote\<close>

text \<open>
  What only the service's own checks give: the database knows no risk levels, no sides and no signs.  The one
  writer of trades without these checks, the repository's \<^verbatim>\<open>CreateTransaction\<close>, is not called by the service.
\<close>

definition trade_valid :: "trade \<Rightarrow> bool" where
  "trade_valid x \<longleftrightarrow> (td_side x = ''buy'' \<or> td_side x = ''sell'') \<and> td_symbol x \<noteq> [] \<and> fpos (td_quantity x) \<and> fpos (td_price x) \<and>
     td_amount x = fmul (td_quantity x) (td_price x)"

definition rows_valid :: "tables \<Rightarrow> bool" where
  "rows_valid t \<longleftrightarrow> list_all (\<lambda>p. risk_level_ok (pf_risk p)) (tb_portfolios t) \<and> list_all trade_valid (tb_trades t)"

definition still_valid :: "tables \<Rightarrow> tables \<Rightarrow> bool" where
  "still_valid t t' \<longleftrightarrow> (rows_valid t \<longrightarrow> rows_valid t')"

lemma still_valid_refl: "still_valid t t"
  by (simp add: still_valid_def)

interpretation valid: frame_relation "trel still_valid"
  by unfold_locales (auto simp: trel_def still_valid_def)

lemmas valid_rules = valid.keeps_rules keeps_sql_read [where R = still_valid, OF still_valid_refl]
  keeps_time_now [where R = still_valid, OF still_valid_refl] keeps_generate_id [where R = still_valid, OF still_valid_refl]
  keeps_run_tx [where R = still_valid, OF still_valid_refl]

lemma valid_of_unread: "keeps (trel (=)) m \<Longrightarrow> keeps (trel still_valid) m"
  by (simp add: keeps_def trel_def still_valid_def)

lemma valid_write: "(\<And>t. ok t \<Longrightarrow> rows_valid t \<Longrightarrow> rows_valid (f t)) \<Longrightarrow> keeps (trel still_valid) (sql_write what ok f)"
  by (rule keeps_sql_write) (auto simp: still_valid_def)

lemma valid_rows: "(\<And>t. rows_valid t \<Longrightarrow> rows_valid (f t)) \<Longrightarrow> keeps (trel still_valid) (sql_rows what e count ok f)"
  by (rule keeps_sql_rows) (auto simp: still_valid_def)

lemma valid_statements:
  "keeps (trel still_valid) (delete_portfolio_row pid)" "keeps (trel still_valid) (insert_holding h)"
  "keeps (trel still_valid) (insert_holding_tx h)" "keeps (trel still_valid) (update_holding_row h)"
  "keeps (trel still_valid) (update_holding_tx h)" "keeps (trel still_valid) (delete_holding_row hid)"
  "keeps (trel still_valid) (delete_holding_tx hid)" "keeps (trel still_valid) (delete_transaction tid)"
  "keeps (trel still_valid) (update_cash_tx pid cash now)" "keeps (trel still_valid) (insert_valuation v)"
  unfolding delete_portfolio_row_def insert_holding_def insert_holding_tx_def update_holding_row_def update_holding_tx_def
    delete_holding_row_def delete_holding_tx_def delete_transaction_def update_cash_tx_def insert_valuation_def Let_def
  by (auto intro!: valid_rules valid_write valid_rows
      simp: rows_valid_def cascade_def add_holding_def set_holding_def drop_holding_def set_cash_def list_all_iff)

lemma valid_insert_portfolio: "risk_level_ok (pf_risk p) \<Longrightarrow> keeps (trel still_valid) (insert_portfolio p)"
  unfolding insert_portfolio_def Let_def by (intro valid_rules valid_write) (simp add: rows_valid_def)

lemma valid_update_portfolio_row: "risk_level_ok (pf_risk p) \<Longrightarrow> keeps (trel still_valid) (update_portfolio_row p)"
  unfolding update_portfolio_row_def Let_def by (intro valid_rules valid_rows) (auto simp: rows_valid_def list_all_iff)

lemma valid_insert_trade: "(trade_row_ok x \<Longrightarrow> trade_valid x) \<Longrightarrow> keeps (trel still_valid) (insert_trade what x)"
  unfolding insert_trade_def by (rule valid_write) (simp add: rows_valid_def)

lemma valid_save: "keeps (trel still_valid) (save_portfolio_valuation hs v b)"
proof -
  have "keeps (trel still_valid) (update_holdings_tx hs)" by (induction hs) (auto intro!: valid_rules valid_statements)
  then show ?thesis unfolding save_portfolio_valuation_def by (intro valid_rules valid_statements)
qed

lemmas valid_reads = valid_of_unread [OF reads_keep(1)] valid_of_unread [OF reads_keep(2)] valid_of_unread [OF reads_keep(3)]
  valid_of_unread [OF reads_keep(5)] valid_of_unread [OF reads_keep(6)] valid_of_unread [OF should_write_keeps]

lemma valid_refresh: "keeps (trel still_valid) (refresh_portfolio_valuation ul fetch pid src)"
  unfolding refresh_portfolio_valuation_def by (auto intro!: valid_rules valid_reads valid_save split: sum.split)

lemma valid_refresh_all: "keeps (trel still_valid) (refresh_from_latest_quotes ul qs)"
proof -
  have "keeps (trel still_valid) (refresh_each ul qs ps)" for ps by (induction ps) (auto intro!: valid_rules valid_reads valid_save)
  then show ?thesis unfolding refresh_from_latest_quotes_def by (auto intro!: valid_rules valid_reads)
qed

lemma valid_apply_trade: "(trade_row_ok x \<Longrightarrow> trade_valid x) \<Longrightarrow> keeps (trel still_valid) (apply_trade x)"
  unfolding apply_trade_def buy_tx_def sell_tx_def Let_def select_cash_tx_def select_holding_by_symbol_def
  by (auto intro!: valid_rules valid_statements valid_insert_trade split: option.split)

lemma made_trade_valid:
  assumes "trim_space (tr_side rq) = ''buy'' \<or> trim_space (tr_side rq) = ''sell''" "trim_space (tr_symbol rq) \<noteq> []"
    "\<not> fle (tr_quantity rq) f0" "\<not> fle (tr_price rq) f0" "trade_row_ok (make_trade inst pid rq tid executed now)"
  shows "trade_valid (make_trade inst pid rq tid executed now)"
  using trade_of_make [of pid rq inst tid executed now] assms by (auto simp: trade_of_def trade_valid_def trade_row_ok_def fpos_fle)

lemma valid_record: "keeps (trel still_valid) (record_transaction ul fetch inst pid rq)"
  unfolding record_transaction_def Let_def
  by (auto intro!: valid_rules valid_reads valid_apply_trade valid_refresh made_trade_valid split: prod.split)

lemma valid_update_portfolio: "keeps (trel still_valid) (update_portfolio pid u)"
  unfolding keeps_def
proof
  fix w
  obtain r w1 where sel: "select_portfolio pid w = (r, w1)" by fastforce
  have t1: "st_tables w1 = st_tables w" using reads_state [OF reads_keep(1) sel] .
  show "trel still_valid w (snd (update_portfolio pid u w))"
  proof (cases "rows_valid (st_tables w) \<and> r \<in> range Inr \<and> \<not> (case pp_risk u of None \<Rightarrow> False | Some x \<Rightarrow> \<not> risk_level_ok x)")
    case False
    then show ?thesis using sel t1 by (cases r) (auto simp: update_portfolio_def bindE_def throw_def trel_def still_valid_def)
  next
    case True
    then obtain p where p: "r = Inr p" by auto
    have "p \<in> set (tb_portfolios (st_tables w))"
      using sel p by (auto simp: select_portfolio_def sql_read_def sql_def Let_def dest!: find_SomeD split: if_splits option.splits)
    then have "risk_level_ok (pf_risk (patch_portfolio u p))"
      using True by (auto simp: rows_valid_def list_all_iff patch_portfolio_def bool_default_def split: option.splits)
    then have "keeps (trel still_valid) (let p' = patch_portfolio u p in seqE (update_portfolio_row p') (ret p'))"
      unfolding Let_def by (intro valid_rules valid_update_portfolio_row)
    then have "trel still_valid w1 (snd ((let p' = patch_portfolio u p in seqE (update_portfolio_row p') (ret p')) w1))"
      unfolding keeps_def by blast
    moreover have "update_portfolio pid u w = (let p' = patch_portfolio u p in seqE (update_portfolio_row p') (ret p')) w1"
      using True sel p by (simp add: update_portfolio_def bindE_def)
    ultimately show ?thesis using t1 by (simp only: trel_def)
  qed
qed

lemma valid_services:
  "keeps (trel still_valid) (create_portfolio prq)" "keeps (trel still_valid) (delete_portfolio pid)"
  "keeps (trel still_valid) (create_holding inst pid hrq)" "keeps (trel still_valid) (update_holding hid hu)"
  "keeps (trel still_valid) (delete_holding hid)"
  unfolding create_portfolio_def delete_portfolio_def create_holding_def update_holding_def delete_holding_def select_holding_def Let_def
  by (auto intro!: valid_rules valid_reads valid_statements valid_insert_portfolio split: sum.split option.split prod.split)

fun is_service :: "stock_op \<Rightarrow> bool" where
  "is_service (OpInsertTrade x) = False"
| "is_service a = True"

lemma valid_step: "is_service a \<Longrightarrow> rows_valid (st_tables w) \<Longrightarrow> rows_valid (st_tables (stock_step ul a w))"
proof -
  have k: "keeps (trel still_valid) m \<Longrightarrow> rows_valid (st_tables w) \<Longrightarrow> rows_valid (st_tables (snd (m w)))" for m
    by (auto simp: keeps_def trel_def still_valid_def)
  assume "is_service a" "rows_valid (st_tables w)"
  then show ?thesis
    by (cases a) (auto intro: k valid_services valid_update_portfolio valid_record valid_refresh valid_refresh_all valid_statements)
qed

text \<open>
  C29: The rows are what the service's checks admit.  From new tables, after any run of the service's operations
  with any failures, every portfolio has one of the three risk levels, and every recorded trade is a purchase or
  a sale of a named symbol with a positive quantity and a positive price, whose amount is their product.  Left
  out is only the bare insertion of a row, \<^verbatim>\<open>Store.CreateTransaction\<close>, which the service never calls.
\<close>

theorem rows_stay_valid:
  fixes ul :: "string \<Rightarrow> string" and w :: stock and ops :: "stock_op list"
  assumes "list_all is_service ops"
  defines "t \<equiv> st_tables (fold (stock_step ul) ops (w\<lparr>st_tables := empty_tables\<rparr>))"
  shows "list_all (\<lambda>p. pf_risk p \<in> {''low'', ''medium'', ''high''}) (tb_portfolios t) \<and>
    list_all (\<lambda>x. td_side x \<in> {''buy'', ''sell''} \<and> td_symbol x \<noteq> [] \<and> fpos (td_quantity x) \<and> fpos (td_price x) \<and>
      td_amount x = fmul (td_quantity x) (td_price x)) (tb_trades t)"
proof -
  have "rows_valid (st_tables (fold (stock_step ul) ops v))" if "rows_valid (st_tables v)" for v
    using assms(1) that by (induction ops arbitrary: v) (auto intro: valid_step)
  from this [of "w\<lparr>st_tables := empty_tables\<rparr>"] have "rows_valid t" by (simp add: t_def rows_valid_def empty_tables_def)
  then show ?thesis by (simp add: rows_valid_def trade_valid_def risk_level_ok_def list_all_iff)
qed

text \<open>
  C30: A valuation that read its holdings before a trade and is saved after it undoes the trade's
  position: the save writes back quantity, available quantity and cost as read, while the cash and
  the recorded trade stay.
\<close>

theorem stale_valuation_undoes_trade:
  assumes "select_holdings pid w = (Inr hs, w1)" and "book_ok (st_tables w)"
    and "record_transaction ul fetch inst pid rq w1 = (Inr res, w2)"
    and "\<forall>h \<in> set hs. \<forall>r \<in> set (tb_holdings (st_tables w2)). hd_id r = hd_id h \<longrightarrow> position_key r = position_key h"
    and "save_portfolio_valuation (rf_holdings (recalculate p hs qs vat vid)) v b w2 = (Inr u, w3)"
  shows "(\<forall>h \<in> set hs. bk_position (book_of (st_tables w3)) (position_key h) = bk_position (book_of (st_tables w)) (position_key h))
    \<and> bk_trades (book_of (st_tables w3)) = bk_trades (book_of (st_tables w)) @ [tt_trade res]
    \<and> bk_cash (book_of (st_tables w3)) = bk_cash (book_trade (tt_trade res) (book_of (st_tables w)))"
proof -
  have t1: "st_tables w1 = st_tables w" using select_holdings_Inr [OF assms(1)] by simp
  have out: "book_of (st_tables w2) = book_trade (tt_trade res) (book_of (st_tables w))" "book_ok (st_tables w2)"
    using record_outcome [OF assms(3)] assms(2) t1 by auto
  from stale_save [OF assms(1,2) out(2) assms(4,5)] out(1) show ?thesis by (auto simp: book_trade_def Let_def)
qed

section \<open>Witnesses\<close>

definition sample_portfolio :: portfolio where
  "sample_portfolio = \<lparr>pf_id = ''p'', pf_name = ''main'', pf_description = [], pf_cash = f64_of_int 100, pf_risk = ''low'',
     pf_max_single_pct = f64_of_int 20, pf_max_drawdown_pct = f64_of_int 30, pf_allow_buy = True, pf_allow_add = True,
     pf_allow_reduce = True, pf_allow_sell = True, pf_notes = [], pf_created_at = 1, pf_updated_at = 1\<rparr>"

definition sample_holding :: holding where
  "sample_holding = new_holding ''h'' ''p'' ''600000'' ''SH'' ''bank'' (f64_of_int 10) (f64_of_int 5) 1 1"

definition sample_stock :: stock where
  "sample_stock = \<lparr>st_tables = \<lparr>tb_portfolios = [sample_portfolio], tb_holdings = [sample_holding], tb_trades = [], tb_valuations = []\<rparr>,
     st_fault = (\<lambda>_. False), st_clock = (\<lambda>_. 5), st_ids = (\<lambda>_. ''t''), st_calls = 0\<rparr>"

definition sample_sale :: trade_request where
  "sample_sale = \<lparr>tr_symbol = ''600000'', tr_market = [], tr_name = [], tr_side = ''sell'', tr_quantity = f64_of_int 4,
     tr_price = f64_of_int 6, tr_executed_at = [], tr_note = []\<rparr>"

lemma small_int_not_nan: "\<bar>a\<bar> < 2 ^ 53 \<Longrightarrow> f64_of_int a \<noteq> NaN"
  by (simp add: f64_of_int_exact)

lemma sample_book_ok: "book_ok (st_tables sample_stock)"
  by (simp add: book_ok_def tables_ok_def sample_stock_def sample_portfolio_def sample_holding_def new_holding_def has_portfolio_def
      portfolio_row_ok_def holding_row_ok_def small_int_not_nan fpos_def f64_of_int_exact f64_unit_def)

lemma tolerance_small: "flt tolerance (f64_of_int 1)"
proof -
  have r: "round_mag f64_unit (10 ^ 9) \<le> 2 * (f64_unit div 10 ^ 9)" by (rule round_mag_le) (simp_all add: f64_unit_def)
  have "2 * (f64_unit div 10 ^ 9) < f64_unit" by (simp add: f64_unit_def)
  with r have l: "round_mag f64_unit (10 ^ 9) < f64_unit" by linarith
  moreover have "f64_unit < 2 ^ 2098" by (simp add: f64_unit_def)
  moreover have "0 < f64_unit" by (simp add: f64_unit_def)
  ultimately show ?thesis by (simp add: tolerance_def f64_ratio_def fround_def Let_def f64_of_int_exact)
qed

text \<open>Ten shares at 5, of which 4 are sold at 6: the cash goes from 100 to 124 and 6 shares are left.\<close>

lemma tolerance_fin: "\<exists>k. tolerance = Fin k \<and> 0 \<le> k \<and> k < f64_unit"
proof -
  have "fpos (fround f64_unit 1000000000)" by (rule fround_pos) (simp_all add: f64_unit_def)
  then have "fpos tolerance" by (simp add: tolerance_def f64_ratio_def)
  moreover have "x = Fin k \<Longrightarrow> 0 \<le> k \<and> k < f64_unit" if "fpos x" "flt x (f64_of_int 1)" for x k using that by (simp add: fpos_def f64_of_int_exact)
  moreover have "\<exists>k. x = Fin k" if "fpos x" "flt x (f64_of_int 1)" for x using that by (cases x) (auto simp: fpos_def f64_of_int_exact)
  ultimately show ?thesis using tolerance_small by metis
qed

lemma sale_allowed: "\<not> flt (f64_of_int 10) (fsub (f64_of_int 4) tolerance)"
proof -
  obtain k where k: "tolerance = Fin k" "0 \<le> k" "k < f64_unit" using tolerance_fin by blast
  have u: "(1 :: int) \<le> f64_unit" "4 * f64_unit < 2 ^ 2097" by (simp_all add: f64_unit_def)
  let ?m = "round_mag (4 * f64_unit - k) 1"
  have r: "?m \<le> 2 * ((4 * f64_unit - k) div 1)" by (rule round_mag_le) (use k u in linarith)+
  then have small: "?m < 10 * f64_unit" using k by simp
  have "?m < 2 ^ 2098" using r k u by simp
  moreover have "\<not> 4 * f64_unit < k" "4 * f64_unit - k \<noteq> 0" using k by linarith+
  ultimately have "fsub (f64_of_int 4) tolerance = Fin ?m"
    unfolding k(1) by (simp add: fsub_def fround_def Let_def f64_of_int_exact sgn_if)
  then show ?thesis using small by (simp add: f64_of_int_exact)
qed

lemma sale_leaves: "\<not> fle (f64_of_int 6) tolerance"
proof -
  obtain k where k: "tolerance = Fin k" "0 \<le> k" "k < f64_unit" using tolerance_fin by blast
  then show ?thesis unfolding k(1) by (simp add: fle_def f64_of_int_exact)
qed

abbreviation offline :: "string list \<Rightarrow> stock_error + quote list" where
  "offline \<equiv> (\<lambda>_. Inl (ErrText ''offline''))"

definition sample_trade :: trade where
  "sample_trade = make_trade (\<lambda>_. (''bank'', ''SH'')) ''p'' sample_sale ''t'' 5 5"

definition sample_sold :: holding where
  "sample_sold = sample_holding\<lparr>hd_quantity := f64_of_int 6, hd_available := f64_of_int 6, hd_updated_at := 5\<rparr>"

lemma sample_amount: "fmul (f64_of_int 4) (f64_of_int 6) = f64_of_int 24" "fsub (f64_of_int 10) (f64_of_int 4) = f64_of_int 6"
   "fadd (f64_of_int 100) (f64_of_int 24) = f64_of_int 124" "\<not> fle (f64_of_int 4) f0" "\<not> fle (f64_of_int 6) f0"
  by (simp_all add: f64_ints) (simp_all add: f64_of_int_exact fle_def f64_unit_def)

lemma sample_trims: "trim_space ''600000'' = ''600000''" "trim_space ''sell'' = ''sell''" "trim_space [] = []"
  by code_simp+

lemma sample_trade_eq: "sample_trade = \<lparr>td_id = ''t'', td_portfolio = ''p'', td_symbol = ''600000'', td_market = ''SH'', td_name = ''bank'',
   td_side = ''sell'', td_quantity = f64_of_int 4, td_price = f64_of_int 6, td_amount = f64_of_int 24, td_executed_at = 5, td_note = [], td_created_at = 5\<rparr>"
  by (simp add: sample_trade_def make_trade_def sample_sale_def sample_trims sample_amount)

lemma sample_sale_fields: "trim_space (tr_side sample_sale) = ''sell''" "trim_space (tr_symbol sample_sale) = ''600000''"
  "tr_quantity sample_sale = f64_of_int 4" "tr_price sample_sale = f64_of_int 6" "trim_space (tr_executed_at sample_sale) = []"
  by (simp_all add: sample_sale_def sample_trims)

lemmas sample_nan = small_int_not_nan [of 4, simplified] small_int_not_nan [of 6, simplified] small_int_not_nan [of 24, simplified] small_int_not_nan [of 124, simplified]
 small_int_not_nan [of 5, simplified]  small_int_not_nan [of 10, simplified] small_int_not_nan [of 20, simplified] small_int_not_nan [of 30, simplified] small_int_not_nan [of 100, simplified]

lemmas ledger_defs = run_tx_def sql_read_def sql_write_def sql_rows_def sql_def bindE_def seqE_def ret_def throw_def
   time_now_def get_state_def generate_id_def attempt_def 

definition sample_after :: tables where
  "sample_after = \<lparr>tb_portfolios = [sample_portfolio\<lparr>pf_cash := f64_of_int 124, pf_updated_at := 5\<rparr>], tb_holdings = [sample_sold],
     tb_trades = [sample_trade], tb_valuations = []\<rparr>"

lemma sample_apply: "apply_trade sample_trade (sample_stock\<lparr>st_calls := n\<rparr>) =
  (Inr (Some sample_sold, False), sample_stock\<lparr>st_calls := n + 5, st_tables := sample_after\<rparr>)"
  unfolding apply_trade_def insert_trade_def select_cash_tx_def select_holding_by_symbol_def sell_tx_def
     update_holding_tx_def update_cash_tx_def
  by (simp add: ledger_defs sample_after_def sample_trade_eq sample_stock_def sample_portfolio_def sample_holding_def sample_sold_def new_holding_def
     trade_row_ok_def has_portfolio_def holding_readable_def sold_def sample_amount sale_allowed sale_leaves set_holding_def set_cash_def holding_columns_tx_def holding_columns_def
     count_holding_def holding_row_ok_def sample_nan)

lemma sample_run: "record_transaction ul offline (\<lambda>_. (''bank'', ''SH'')) ''p'' sample_sale (sample_stock\<lparr>st_calls := n\<rparr>) =
  (Inr \<lparr>tt_trade = sample_trade, tt_portfolio = Some (sample_portfolio\<lparr>pf_cash := f64_of_int 124, pf_updated_at := 5\<rparr>), tt_holding = Some sample_sold,
     tt_cleared = False\<rparr>,
   sample_stock\<lparr>st_calls := n + 11, st_tables := sample_after\<rparr>)"
proof -
  have [simp]: "make_trade (\<lambda>_. (''bank'', ''SH'')) ''p'' sample_sale ''t'' 5 5 = sample_trade" by (simp add: sample_trade_def)
  have clock: "st_clock sample_stock = (\<lambda>_. 5)" "st_ids sample_stock = (\<lambda>_. ''t'')" "st_fault sample_stock = (\<lambda>_. False)" by (simp_all add: sample_stock_def)
  have app: "apply_trade sample_trade (sample_stock\<lparr>st_calls := Suc (Suc n)\<rparr>) = (Inr (Some sample_sold, False), sample_stock\<lparr>st_calls := n + 7, st_tables := sample_after\<rparr>)"
    using sample_apply [of "Suc (Suc n)"] by simp
  show ?thesis
    unfolding record_transaction_def sample_sale_fields parse_executed_at_def refresh_portfolio_valuation_def select_portfolio_def select_holdings_def
    by (simp add: ledger_defs sample_after_def app clock sample_amount scan_all_def newest_first_def holdings_of_def sample_sold_def sample_holding_def new_holding_def
   holding_readable_def portfolio_readable_def sample_portfolio_def sample_nan numeral_eq_Suc)
qed


text \<open>A refresh that read the ten shares before the sale and saves its valuation after it.\<close>

definition sample_save :: "unit stock_prog" where
  "sample_save =
     (let res = recalculate sample_portfolio [sample_holding] [] 5 ''v''
      in save_portfolio_valuation (rf_holdings res) (rf_valuation res) False)"

lemma sample_select: "select_holdings ''p'' sample_stock = (Inr [sample_holding], sample_stock\<lparr>st_calls := 1\<rparr>)"
  by (simp add: select_holdings_def ledger_defs scan_all_def newest_first_def holdings_of_def sample_stock_def sample_holding_def
      new_holding_def holding_readable_def)

lemma sample_resave:
  "\<exists>w. sample_save
      (sample_stock\<lparr>st_calls := 12, st_tables := sample_after\<rparr>) = (Inr (), w)"
  unfolding sample_save_def Let_def save_portfolio_valuation_def whenE_def
  by (simp add: recalculate_def Let_def recalculate_holding_def priced_def quote_for_def no_quote_def sample_holding_def new_holding_def
      fpos_def f64_of_int_exact update_holding_tx_def ledger_defs sample_stock_def sample_after_def sample_sold_def count_holding_def
      holding_row_ok_def f64_unit_def)

theorem trade_refines_book_witness:
  "book_of sample_after = book_trade sample_trade (book_of (st_tables sample_stock)) \<and> book_admits sample_trade (book_of (st_tables sample_stock))"
  using trade_refines_book [OF sample_run [where n = 0 and ul = id]] sample_book_ok by (simp add: sample_stock_def)

theorem positions_stay_positive_witness:
  "list_all (\<lambda>h. fpos (hd_quantity h))
     (tb_holdings (st_tables (fold (stock_step id) [OpTrade offline (\<lambda>_. (''bank'', ''SH'')) ''p'' sample_sale, OpRefreshAll []] sample_stock)))"
  using positions_stay_positive [OF sample_book_ok, where ul = id and ops = "[OpTrade offline (\<lambda>_. (''bank'', ''SH'')) ''p'' sample_sale, OpRefreshAll []]"]
  by (simp add: is_trading_def)

theorem stale_valuation_undoes_trade_witness:
  "\<exists>w. sample_save
      (sample_stock\<lparr>st_calls := 12, st_tables := sample_after\<rparr>) = (Inr (), w) \<and>
    bk_position (book_of (st_tables w)) (''p'', ''600000'') = Some (f64_of_int 10, f64_of_int 10, f64_of_int 5) \<and>
    bk_trades (book_of (st_tables w)) = [sample_trade] \<and> bk_cash (book_of (st_tables w)) ''p'' = Some (f64_of_int 124)"
proof -
  obtain w where save: "sample_save
      (sample_stock\<lparr>st_calls := 12, st_tables := sample_after\<rparr>) = (Inr (), w)" using sample_resave by blast
  have run: "record_transaction id offline (\<lambda>_. (''bank'', ''SH'')) ''p'' sample_sale (sample_stock\<lparr>st_calls := 1\<rparr>) =
      (Inr \<lparr>tt_trade = sample_trade, tt_portfolio = Some (sample_portfolio\<lparr>pf_cash := f64_of_int 124, pf_updated_at := 5\<rparr>),
         tt_holding = Some sample_sold, tt_cleared = False\<rparr>, sample_stock\<lparr>st_calls := 12, st_tables := sample_after\<rparr>)"
    using sample_run [where n = 1 and ul = id] by simp
  have same: "\<forall>h \<in> set [sample_holding]. \<forall>r \<in> set (tb_holdings (st_tables (sample_stock\<lparr>st_calls := 12, st_tables := sample_after\<rparr>))).
      hd_id r = hd_id h \<longrightarrow> position_key r = position_key h"
    by (simp add: sample_after_def sample_sold_def position_key_def)
  have "bk_position (book_of (st_tables sample_stock)) (''p'', ''600000'') = Some (f64_of_int 10, f64_of_int 10, f64_of_int 5)"
    "position_key sample_holding = (''p'', ''600000'')" "bk_cash (book_of (st_tables sample_stock)) ''p'' = Some (f64_of_int 100)"
    "bk_trades (book_of (st_tables sample_stock)) = []"
    by (simp_all add: book_of_def sample_stock_def sample_holding_def new_holding_def position_key_def position_of_def sample_portfolio_def)
  then show ?thesis
    using save stale_valuation_undoes_trade [OF sample_select sample_book_ok run same save [unfolded sample_save_def Let_def]]
    by (simp add: book_trade_def sample_trade_eq sample_amount)
qed

text \<open>A portfolio is created and shares are bought for it.\<close>

definition sample_portfolio_request :: portfolio_request where
  "sample_portfolio_request = \<lparr>pr_name = ''main'', pr_description = [], pr_cash = f64_of_int 100, pr_risk = ''low'',
     pr_max_single_pct = f64_of_int 20, pr_max_drawdown_pct = f64_of_int 30, pr_allow_buy = None, pr_allow_add = None,
     pr_allow_reduce = None, pr_allow_sell = None, pr_notes = []\<rparr>"

theorem rows_stay_valid_witness:
  "list_all (\<lambda>p. pf_risk p \<in> {''low'', ''medium'', ''high''}) (tb_portfolios (st_tables (fold (stock_step id)
     [OpCreatePortfolio sample_portfolio_request, OpTrade offline (\<lambda>_. (''bank'', ''SH'')) ''t'' (sample_sale\<lparr>tr_side := ''buy''\<rparr>)]
     (sample_stock\<lparr>st_tables := empty_tables\<rparr>))))"
  using rows_stay_valid [of "[OpCreatePortfolio sample_portfolio_request, OpTrade offline (\<lambda>_. (''bank'', ''SH'')) ''t'' (sample_sale\<lparr>tr_side := ''buy''\<rparr>)]"
      id sample_stock]
  by simp

end
