(* ===== verification/AnyValue.thy ===== *)
theory AnyValue
  imports GoJson GoTime GoFloat "HOL-Library.AList"
begin

text \<open>
  The untyped values (\<^verbatim>\<open>map[string]any\<close>) that rules, evidence and review results are made of, the helpers
  of \<^verbatim>\<open>stockv2\<close> that read them, and what such a map is after it went through a JSON column.  A Go map is an
  association list with distinct keys.  \<^verbatim>\<open>strconv.ParseFloat\<close> and the verb \<^verbatim>\<open>%.2f\<close> are written out; the
  shortest decimal text of a float (\<^verbatim>\<open>FormatFloat(v, 'f', -1, 64)\<close>) is a parameter where it is used.
\<close>

datatype any =
    AnyNull
  | AnyBool bool
  | AnyNum f64
  | AnyInt int
  | AnyStr string
  | AnyTime gtime
  | AnyList "any list"
  | AnyMap "(string \<times> any) list"

type_synonym any_map = "(string \<times> any) list"

abbreviation at_key :: "any_map \<Rightarrow> string \<Rightarrow> any option" where
  "at_key m k \<equiv> map_of m k"

definition put :: "string \<Rightarrow> any \<Rightarrow> any_map \<Rightarrow> any_map" where
  "put k v m = AList.update k v m"

fun put_all :: "any_map \<Rightarrow> any_map \<Rightarrow> any_map" where
  "put_all [] m = m"
| "put_all ((k, v) # kvs) m = put_all kvs (put k v m)"

lemma at_put [simp]: "at_key (put k v m) k' = (if k' = k then Some v else at_key m k')"
  by (simp add: put_def update_conv')

section \<open>Numbers in text\<close>

text \<open>
  The mantissa: digits, at most one point, underscores; the value without the point, the number of
  digits, the number of digits after the point, and the rest.
\<close>

definition mantissa_digit :: "bool \<Rightarrow> char \<Rightarrow> nat option" where
  "mantissa_digit hex c = (if hex then hex_val c else digit_val c)"

fun mantissa :: "bool \<Rightarrow> bool \<Rightarrow> nat \<Rightarrow> nat \<Rightarrow> nat \<Rightarrow> string \<Rightarrow> nat \<times> nat \<times> nat \<times> string" where
  "mantissa hex dot acc count fd [] = (acc, count, fd, [])"
| "mantissa hex dot acc count fd (c # s) =
     (if c = CHR ''_'' then mantissa hex dot acc count fd s
      else if c = CHR ''.'' then (if dot then (acc, count, fd, c # s) else mantissa hex True acc count fd s)
      else case mantissa_digit hex c of
        None \<Rightarrow> (acc, count, fd, c # s)
      | Some d \<Rightarrow> mantissa hex dot (acc * (if hex then 16 else 10) + d) (Suc count) (if dot then Suc fd else fd) s)"

text \<open>The exponent's digits; beyond ten thousand further digits are ignored.\<close>

fun exponent_digits :: "nat \<Rightarrow> string \<Rightarrow> nat \<times> string" where
  "exponent_digits e [] = (e, [])"
| "exponent_digits e (c # s) =
     (if c = CHR ''_'' then exponent_digits e s
      else case digit_val c of
        None \<Rightarrow> (e, c # s)
      | Some d \<Rightarrow> exponent_digits (if e < 10000 then e * 10 + d else e) s)"

definition split_sign :: "string \<Rightarrow> bool \<times> string" where
  "split_sign s =
     (case s of c # t \<Rightarrow> if c = CHR ''-'' then (True, t) else if c = CHR ''+'' then (False, t) else (False, s) | [] \<Rightarrow> (False, []))"

definition scaled :: "bool \<Rightarrow> nat \<Rightarrow> int \<Rightarrow> int \<Rightarrow> f64" where
  "scaled neg m base e =
     (let a = (if neg then - int m else int m)
      in if 0 \<le> e then f64_ratio (a * base ^ nat e) 1 else f64_ratio a (base ^ nat (- e)))"

text \<open>An underscore stands between digits, or after the base prefix (\<^verbatim>\<open>underscoreOK\<close>).\<close>

fun underscores_ok :: "bool \<Rightarrow> char \<Rightarrow> string \<Rightarrow> bool" where
  "underscores_ok hex prev [] = (prev \<noteq> CHR ''_'')"
| "underscores_ok hex prev (c # s) =
     (if mantissa_digit hex c \<noteq> None then underscores_ok hex (CHR ''0'') s
      else if c = CHR ''_'' then prev = CHR ''0'' \<and> underscores_ok hex (CHR ''_'') s
      else prev \<noteq> CHR ''_'' \<and> underscores_ok hex (CHR ''!'') s)"

definition finish_float :: "bool \<Rightarrow> bool \<Rightarrow> nat \<Rightarrow> nat \<Rightarrow> string \<Rightarrow> f64 option" where
  "finish_float hex neg m fd rest =
     (case rest of
        [] \<Rightarrow> if hex then None else Some (scaled neg m 10 (- int fd))
      | c # s \<Rightarrow>
          if lower_char c \<noteq> (if hex then CHR ''p'' else CHR ''e'') then None
          else
            (let (eneg, t) = split_sign s
             in case t of
                  [] \<Rightarrow> None
                | d # _ \<Rightarrow>
                    if digit_val d = None then None
                    else
                      (let (e, left) = exponent_digits 0 t; x = (if eneg then - int e else int e)
                       in if left \<noteq> [] then None
                          else Some (if hex then scaled neg m 2 (x - 4 * int fd) else scaled neg m 10 (x - int fd)))))"

definition read_float :: "string \<Rightarrow> f64 option" where
  "read_float s =
     (let (neg, t) = split_sign s; low = map lower_char t
      in if low = ''inf'' \<or> low = ''infinity'' then Some (if neg then NInf else PInf)
         else if map lower_char s = ''nan'' then Some NaN
         else
           (let hex = (2 < length t \<and> take 2 low = ''0x''); u = (if hex then drop 2 t else t);
                (m, count, fd, rest) = mantissa hex False 0 0 0 u
            in if count = 0 \<or> \<not> underscores_ok hex (if hex then CHR ''0'' else CHR ''^'') u then None
               else finish_float hex neg m fd rest))"

text \<open>\<^verbatim>\<open>n, _ := strconv.ParseFloat(s, 64)\<close>: 0 for what is not a number, an infinity for what is too large.\<close>

definition parse_float :: "string \<Rightarrow> f64" where
  "parse_float s = (case read_float s of None \<Rightarrow> f0 | Some x \<Rightarrow> x)"

text \<open>\<^verbatim>\<open>fmt.Sprintf("%.2f", x)\<close>: the exact value rounded to hundredths, ties to even.\<close>

definition fixed2 :: "f64 \<Rightarrow> string" where
  "fixed2 x =
     (case x of
        NaN \<Rightarrow> ''NaN''
      | PInf \<Rightarrow> ''+Inf''
      | NInf \<Rightarrow> ''-Inf''
      | Fin k \<Rightarrow>
          (let h = nat (rne_div (\<bar>k\<bar> * 100) f64_unit)
           in (if k < 0 then ''-'' else []) @ nat_digits (h div 100) @ ''.'' @ pad 2 (h mod 100)))"

section \<open>Reading untyped values\<close>

definition map_from_any :: "any option \<Rightarrow> any_map" where
  "map_from_any v = (case v of Some (AnyMap m) \<Rightarrow> m | _ \<Rightarrow> [])"

definition number_from_any :: "any option \<Rightarrow> f64 option" where
  "number_from_any v =
     (case v of Some (AnyNum x) \<Rightarrow> Some x | Some (AnyInt i) \<Rightarrow> Some (f64_of_int i) | _ \<Rightarrow> None)"

definition string_from_any :: "(f64 \<Rightarrow> string) \<Rightarrow> any option \<Rightarrow> string" where
  "string_from_any shortest v =
     (case v of
        Some (AnyStr s) \<Rightarrow> trim_space s
      | Some (AnyInt i) \<Rightarrow> itoa i
      | Some (AnyNum x) \<Rightarrow> shortest x
      | Some (AnyBool b) \<Rightarrow> (if b then ''true'' else ''false'')
      | _ \<Rightarrow> [])"

fun first_rule_string :: "any_map \<Rightarrow> string list \<Rightarrow> string" where
  "first_rule_string m [] = []"
| "first_rule_string m (k # ks) =
     (case at_key m k of
        Some (AnyStr s) \<Rightarrow> if trim_space s \<noteq> [] then trim_space s else first_rule_string m ks
      | _ \<Rightarrow> first_rule_string m ks)"

fun first_rule_number :: "any_map \<Rightarrow> string list \<Rightarrow> f64" where
  "first_rule_number m [] = f0"
| "first_rule_number m (k # ks) =
     (case at_key m k of
        Some (AnyNum x) \<Rightarrow> x
      | Some (AnyInt i) \<Rightarrow> f64_of_int i
      | Some (AnyStr s) \<Rightarrow> parse_float s
      | _ \<Rightarrow> first_rule_number m ks)"

fun first_nonblank :: "string list \<Rightarrow> string" where
  "first_nonblank [] = []"
| "first_nonblank (v # vs) = (if trim_space v \<noteq> [] then trim_space v else first_nonblank vs)"

definition clean_string_list :: "string list \<Rightarrow> string list" where
  "clean_string_list vs = filter (\<lambda>v. v \<noteq> []) (map trim_space vs)"

section \<open>JSON columns\<close>

text \<open>
  What \<^verbatim>\<open>json.Marshal\<close> followed by \<^verbatim>\<open>json.Unmarshal\<close> makes of a value: integers become floats and times
  their RFC 3339 text; a NaN or an infinity makes the whole value unmarshallable.
\<close>

fun through_json :: "any \<Rightarrow> any option" and through_list :: "any list \<Rightarrow> any list option"
  and through_map :: "any_map \<Rightarrow> any_map option" where
  "through_json (AnyNum x) = (case x of Fin k \<Rightarrow> Some (AnyNum (Fin k)) | _ \<Rightarrow> None)"
| "through_json (AnyInt i) = Some (AnyNum (f64_of_int i))"
| "through_json (AnyTime t) = Some (AnyStr (format_rfc3339nano t))"
| "through_json (AnyList vs) = map_option AnyList (through_list vs)"
| "through_json (AnyMap m) = map_option AnyMap (through_map m)"
| "through_json AnyNull = Some AnyNull"
| "through_json (AnyBool b) = Some (AnyBool b)"
| "through_json (AnyStr s) = Some (AnyStr s)"
| "through_list [] = Some []"
| "through_list (v # vs) = (case through_json v of None \<Rightarrow> None | Some x \<Rightarrow> map_option (\<lambda>xs. x # xs) (through_list vs))"
| "through_map [] = Some []"
| "through_map ((k, v) # m) = (case through_json v of None \<Rightarrow> None | Some x \<Rightarrow> map_option (\<lambda>kvs. (k, x) # kvs) (through_map m))"

text \<open>
  The map read back from a column written by \<^verbatim>\<open>marshalMap\<close>, which drops the error of \<^verbatim>\<open>Marshal\<close>: a map that
  cannot be marshalled is stored as the empty text and read back as the empty map.
\<close>

definition stored_map :: "any_map \<Rightarrow> any_map" where
  "stored_map m = (case through_map m of None \<Rightarrow> [] | Some m' \<Rightarrow> m')"

text \<open>\<^verbatim>\<open>nullableString\<close>: blank text is stored as NULL and read back as empty.\<close>

definition null_text :: "string \<Rightarrow> string" where
  "null_text s = (if trim_space s = [] then [] else s)"

section \<open>What a column keeps\<close>

lemma at_through_map:
  "through_map m = Some m' \<Longrightarrow> at_key m' k = (case at_key m k of None \<Rightarrow> None | Some v \<Rightarrow> through_json v)"
proof (induction m arbitrary: m')
  case Nil
  then show ?case by simp
next
  case (Cons kv m)
  obtain j v where kv: "kv = (j, v)" by (cases kv)
  from Cons.prems kv obtain x ms where x: "through_json v = Some x" and ms: "through_map m = Some ms" and m': "m' = (j, x) # ms"
    by (auto split: option.splits)
  show ?case using Cons.IH [OF ms] x m' kv by auto
qed

lemma at_stored_str:
  assumes "at_key (stored_map m) k = Some (AnyStr s)" "\<And>t. at_key m k \<noteq> Some (AnyTime t)"
  shows "at_key m k = Some (AnyStr s)"
proof -
  from assms(1) obtain m' where m': "through_map m = Some m'" "at_key m' k = Some (AnyStr s)"
    by (auto simp: stored_map_def split: option.splits)
  from at_through_map [OF m'(1), of k] m'(2) obtain v where v: "at_key m k = Some v" "through_json v = Some (AnyStr s)"
    by (auto split: option.splits)
  then show ?thesis using assms(2) by (cases v) (auto split: f64.splits)
qed

end
