(* ===== verification/Guardrails.thy ===== *)
theory Guardrails
  imports Portfolio AnyValue
begin

text \<open>
  The deterministic limits on a proposed operation (\<^verbatim>\<open>stockv2/execution_guardrails.go\<close>): an operation is
  checked against the cash, the holdings, the latest valuation and the latest quote of its portfolio, and
  passes, is degraded, or is blocked, with the reasons.  A reason's message is a fixed sentence for its code
  and is left out.
\<close>

section \<open>Operations\<close>

record operation =
  op_action :: string
  op_portfolio :: string
  op_symbol :: string
  op_market :: string
  op_quantity :: f64
  op_amount :: f64
  op_price :: f64
  op_target_pct :: f64

record guard_reason =
  gr_code :: string
  gr_status :: string
  gr_evidence :: any_map

text \<open>A portfolio that was not found is the zero value, whose id is empty.\<close>

record guard_input =
  gi_operation :: operation
  gi_portfolio :: portfolio
  gi_snapshot :: "valuation option"
  gi_holdings :: "holding list"
  gi_quote :: "quote option"

record guard_result =
  gu_status :: string
  gu_reasons :: "guard_reason list"
  gu_checked_at :: gtime

definition normalize_action :: "string \<Rightarrow> string" where
  "normalize_action a =
     (if a \<in> {''buy'', ''open'', ''build''} then ''build_position''
      else if a = ''add'' then ''add_position''
      else if a \<in> {''sell'', ''reduce''} then ''reduce_position''
      else if a \<in> {''clear'', ''exit'', ''close''} then ''exit_position''
      else a)"

text \<open>\<^verbatim>\<open>inferAStockMarket\<close>: the exchange that a symbol's first digits belong to.\<close>

definition infer_market :: "string \<Rightarrow> string" where
  "infer_market code =
     (let s = trim_space code in
      if has_prefix s ''5'' then ''SH''
      else if has_prefix s ''15'' \<or> has_prefix s ''16'' \<or> has_prefix s ''18'' then ''SZ''
      else if has_prefix s ''6'' then ''SH''
      else if has_prefix s ''0'' \<or> has_prefix s ''3'' then ''SZ''
      else if has_prefix s ''8'' \<or> has_prefix s ''4'' then ''BJ''
      else [])"

definition normalize_operation :: "operation \<Rightarrow> operation" where
  "normalize_operation p =
     (let q = p\<lparr>op_action := normalize_action (op_action p)\<rparr>
      in if op_market q = [] then q\<lparr>op_market := infer_market (op_symbol q)\<rparr> else q)"

definition is_buy :: "string \<Rightarrow> bool" where
  "is_buy a \<longleftrightarrow> a = ''build_position'' \<or> a = ''add_position''"

definition is_sell :: "string \<Rightarrow> bool" where
  "is_sell a \<longleftrightarrow> a = ''reduce_position'' \<or> a = ''exit_position''"

definition precise_operation :: "operation \<Rightarrow> bool" where
  "precise_operation p \<longleftrightarrow> fpos (op_quantity p) \<or> fpos (op_amount p)"

definition operation_price :: "operation \<Rightarrow> quote option \<Rightarrow> f64" where
  "operation_price p q =
     (if fpos (op_price p) then op_price p else case q of Some x \<Rightarrow> qt_last_price x | None \<Rightarrow> f0)"

definition operation_notional :: "operation \<Rightarrow> quote option \<Rightarrow> f64" where
  "operation_notional p q =
     (if fpos (op_amount p) then op_amount p
      else (let price = operation_price p q
            in if fpos (op_quantity p) \<and> fpos price then fmul (op_quantity p) price else f0))"

definition operation_quantity :: "operation \<Rightarrow> quote option \<Rightarrow> f64" where
  "operation_quantity p q =
     (if fpos (op_quantity p) then op_quantity p
      else (let price = operation_price p q
            in if fpos (op_amount p) \<and> fpos price then fdiv (op_amount p) price else f0))"

definition portfolio_total_value :: "guard_input \<Rightarrow> f64" where
  "portfolio_total_value i =
     (case gi_snapshot i of
        Some v \<Rightarrow> if fpos (vl_total v) then vl_total v
                  else fold (\<lambda>h x. fadd x (hd_market_value h)) (gi_holdings i) (pf_cash (gi_portfolio i))
      | None \<Rightarrow> fold (\<lambda>h x. fadd x (hd_market_value h)) (gi_holdings i) (pf_cash (gi_portfolio i)))"

definition find_holding :: "holding list \<Rightarrow> string \<Rightarrow> holding option" where
  "find_holding hs code = find (\<lambda>h. hd_symbol h = code) hs"

section \<open>Checks\<close>

definition blocking :: "string \<Rightarrow> any_map \<Rightarrow> guard_reason" where
  "blocking code evidence = \<lparr>gr_code = code, gr_status = ''blocked'', gr_evidence = evidence\<rparr>"

definition degraded :: "string \<Rightarrow> any_map \<Rightarrow> guard_reason" where
  "degraded code evidence = \<lparr>gr_code = code, gr_status = ''degraded'', gr_evidence = evidence\<rparr>"

definition when_reason :: "bool \<Rightarrow> guard_reason \<Rightarrow> guard_reason list" where
  "when_reason b r = (if b then [r] else [])"

text \<open>The share of the portfolio that the symbol has after the purchase.\<close>

definition projected_pct :: "guard_input \<Rightarrow> holding option \<Rightarrow> f64 \<Rightarrow> f64" where
  "projected_pct i h value =
     (let current = (case h of
           None \<Rightarrow> f0
         | Some x \<Rightarrow>
             (if \<not> fle (hd_market_value x) f0 then hd_market_value x
              else case gi_quote i of
                None \<Rightarrow> hd_market_value x
              | Some q \<Rightarrow> fmul (hd_quantity x) (qt_last_price q)))
      in fmul (fdiv (fadd current value) (portfolio_total_value i)) (f64_of_int 100))"

definition position_limit :: "portfolio \<Rightarrow> f64" where
  "position_limit p = (if fle (pf_max_single_pct p) f0 then f64_of_int 20 else pf_max_single_pct p)"

definition check_buy :: "guard_input \<Rightarrow> operation \<Rightarrow> holding option \<Rightarrow> guard_reason list" where
  "check_buy i p h =
     (let value = operation_notional p (gi_quote i); limit = position_limit (gi_portfolio i);
          whole = portfolio_total_value i; pct = projected_pct i h value
      in when_reason (fpos value \<and> flt (pf_cash (gi_portfolio i)) value)
           (blocking ''cash_insufficient'' [(''cash'', AnyNum (pf_cash (gi_portfolio i))), (''required'', AnyNum value)])
         @ when_reason (\<not> (fle value f0 \<or> fle whole f0 \<or> fle limit f0) \<and> flt limit pct)
           (blocking ''position_limit_exceeded'' [(''projectedPct'', AnyNum pct), (''limit'', AnyNum limit)]))"

definition available_quantity :: "holding \<Rightarrow> f64" where
  "available_quantity h = (if fle (hd_available h) f0 then hd_quantity h else hd_available h)"

definition check_sell :: "guard_input \<Rightarrow> operation \<Rightarrow> holding option \<Rightarrow> bool \<Rightarrow> guard_reason list" where
  "check_sell i p found quote_usable =
     (let missing = [blocking ''holding_empty'' [(''symbol'', AnyStr (op_symbol p))]] in
      case found of
        None \<Rightarrow> missing
      | Some h \<Rightarrow>
          if fle (hd_quantity h) f0 then missing
          else (let qty = operation_quantity p (gi_quote i) in
            if fle qty f0 \<and> op_action p = ''exit_position'' then []
            else if fle qty f0 \<or> \<not> quote_usable then []
            else when_reason (flt (available_quantity h) qty)
              (blocking ''sell_quantity_insufficient'' [(''available'', AnyNum (available_quantity h)), (''required'', AnyNum qty)])))"

definition snapshot_reasons :: "valuation option \<Rightarrow> guard_reason list" where
  "snapshot_reasons s =
     (case s of
        None \<Rightarrow> [degraded ''portfolio_snapshot_missing'' []]
      | Some v \<Rightarrow> when_reason (vl_status v \<noteq> ''fresh'' \<or> 0 < vl_stale v)
          (degraded ''portfolio_snapshot_stale''
             [(''status'', AnyStr (vl_status v)), (''staleQuoteCount'', AnyInt (int (vl_stale v))), (''valuationAt'', AnyTime (vl_at v))]))"

definition usable_quote :: "quote option \<Rightarrow> bool" where
  "usable_quote q = (case q of None \<Rightarrow> False | Some x \<Rightarrow> fpos (qt_last_price x))"

definition quote_reasons :: "quote option \<Rightarrow> guard_reason list" where
  "quote_reasons q =
     (if \<not> usable_quote q then [degraded ''quote_missing'' []]
      else case q of
        None \<Rightarrow> []
      | Some x \<Rightarrow> when_reason (qt_status x \<noteq> ''fresh'')
          (degraded ''quote_stale''
             [(''status'', AnyStr (qt_status x)), (''fetchedAt'', AnyTime (qt_fetched_at x)), (''quoteAt'', AnyTime (qt_quote_at x))]))"

definition guard_reasons :: "guard_input \<Rightarrow> guard_reason list" where
  "guard_reasons i =
     (let p = normalize_operation (gi_operation i); usable = usable_quote (gi_quote i);
          h = find_holding (gi_holdings i) (op_symbol p)
      in when_reason (op_symbol p = []) (blocking ''symbol_missing'' [])
         @ when_reason (\<not> is_buy (op_action p) \<and> \<not> is_sell (op_action p))
             (blocking ''operation_unsupported'' [(''action'', AnyStr (op_action p))])
         @ when_reason (pf_id (gi_portfolio i) = []) (blocking ''portfolio_missing'' [])
         @ snapshot_reasons (gi_snapshot i)
         @ quote_reasons (gi_quote i)
         @ when_reason (precise_operation p \<and> \<not> usable) (blocking ''quote_required_for_precise_operation'' [])
         @ (if is_buy (op_action p) then check_buy i p h
            else if is_sell (op_action p) then check_sell i p h usable else []))"

text \<open>One blocking reason blocks; any other reason degrades what passed so far.\<close>

definition add_status :: "guard_reason \<Rightarrow> string \<Rightarrow> string" where
  "add_status r s =
     (if gr_status r = ''blocked'' then ''blocked'' else if s = ''pass'' then ''degraded'' else s)"

definition evaluate_guardrails :: "guard_input \<Rightarrow> gtime \<Rightarrow> guard_result" where
  "evaluate_guardrails i now =
     (let rs = guard_reasons i
      in \<lparr>gu_status = fold add_status rs ''pass'', gu_reasons = rs, gu_checked_at = now\<rparr>)"

section \<open>Laws\<close>

lemma add_status_blocked: "fold add_status rs ''blocked'' = ''blocked''"
  by (induction rs) (simp_all add: add_status_def)

lemma fold_status_blocked: "fold add_status rs s = ''blocked'' \<longleftrightarrow> s = ''blocked'' \<or> (\<exists>r \<in> set rs. gr_status r = ''blocked'')"
proof (induction rs arbitrary: s)
  case (Cons r rs)
  then show ?case by (auto simp: add_status_def)
qed simp

lemma fold_status_pass: "fold add_status rs s = ''pass'' \<longleftrightarrow> s = ''pass'' \<and> rs = []"
proof (induction rs arbitrary: s)
  case (Cons r rs)
  then show ?case by (auto simp: add_status_def)
qed simp

lemma guard_blocked_iff:
  "gu_status (evaluate_guardrails i now) = ''blocked'' \<longleftrightarrow> (\<exists>r \<in> set (guard_reasons i). gr_status r = ''blocked'')"
  by (simp add: evaluate_guardrails_def Let_def fold_status_blocked)

lemma guard_pass_iff: "gu_status (evaluate_guardrails i now) = ''pass'' \<longleftrightarrow> guard_reasons i = []"
  by (simp add: evaluate_guardrails_def Let_def fold_status_pass)

lemma set_when_reason [simp]: "set (when_reason b x) = (if b then {x} else {})"
  unfolding when_reason_def by (cases b) simp_all

lemma status_blocked [simp]: "gr_status (blocking c e) = ''blocked''"
  by (simp add: blocking_def)

lemma is_buy_normalized: "is_buy a \<Longrightarrow> normalize_action a = a" "is_sell a \<Longrightarrow> normalize_action a = a"
  unfolding is_buy_def is_sell_def by (elim disjE; simp add: normalize_action_def)+

lemma normalize_operation_idem [simp]: "normalize_operation (normalize_operation p) = normalize_operation p"
proof -
  have act: "normalize_action (normalize_action a) = normalize_action a" for a
    unfolding normalize_action_def by (cases "a \<in> {''buy'', ''open'', ''build''}"; cases "a = ''add''"; cases "a \<in> {''sell'', ''reduce''}"; cases "a \<in> {''clear'', ''exit'', ''close''}") simp_all
  show ?thesis by (cases "op_market p = []") (simp_all add: normalize_operation_def Let_def act)
qed

lemma normalize_operation_keeps [simp]:
  "op_symbol (normalize_operation p) = op_symbol p" "op_quantity (normalize_operation p) = op_quantity p"
  "op_amount (normalize_operation p) = op_amount p" "op_price (normalize_operation p) = op_price p"
  "op_portfolio (normalize_operation p) = op_portfolio p" "op_action (normalize_operation p) = normalize_action (op_action p)"
  by (simp_all add: normalize_operation_def Let_def)

text \<open>A purchase that is not blocked is covered by the cash and stays below the position limit.\<close>

lemma unblocked_buy:
  assumes "gu_status (evaluate_guardrails i now) \<noteq> ''blocked''" "is_buy (normalize_action (op_action (gi_operation i)))"
    and "fpos (operation_notional (normalize_operation (gi_operation i)) (gi_quote i))"
  shows "\<not> flt (pf_cash (gi_portfolio i)) (operation_notional (normalize_operation (gi_operation i)) (gi_quote i))"
    "pf_id (gi_portfolio i) \<noteq> []"
  using assms by (auto simp: guard_blocked_iff guard_reasons_def check_buy_def Let_def)

end
