(* ===== verification/Desk.thy ===== *)
theory Desk
  imports Guardrails
begin

text \<open>
  The tables around the portfolios of \<^verbatim>\<open>stockv2\<close>: strategies and their versions, watches, alerts, monitor
  runs and hits, operation reviews, agent runs, the latest quotes and daily bars, with the statements that the
  repositories run on them.  A JSON column holds the map that is read back from it, a blank optional text is
  stored as NULL and read as empty, and a zero time as NULL.  Every statement may fail.  The portfolio
  tables, the clock, the failing statements and the supply of ids are those of \<open>stock\<close>, so that the
  portfolio operations run unchanged inside this world.
\<close>

section \<open>Rows\<close>

record strategy =
  sg_id :: string
  sg_name :: string
  sg_kind :: string
  sg_scope :: string
  sg_source :: string
  sg_status :: string
  sg_symbol :: string
  sg_market :: string
  sg_portfolio :: string
  sg_active :: string
  sg_created_at :: gtime
  sg_updated_at :: gtime
  sg_archived_at :: gtime

record strategy_version =
  sv_id :: string
  sv_strategy :: string
  sv_no :: int
  sv_title :: string
  sv_direction :: string
  sv_thesis :: string
  sv_entry :: "string list"
  sv_exit :: "string list"
  sv_risk_notes :: string
  sv_evidence :: "string list"
  sv_meta :: any_map
  sv_created_by :: string
  sv_created_at :: gtime

record strategy_view =
  sw_strategy :: strategy
  sw_version :: "strategy_version option"

record watch =
  wt_id :: string
  wt_name :: string
  wt_status :: string
  wt_source :: string
  wt_symbol :: string
  wt_market :: string
  wt_portfolio :: string
  wt_strategy :: string
  wt_version :: string
  wt_policy :: string
  wt_config :: any_map
  wt_schedule :: string
  wt_cooldown :: int
  wt_last_checked :: gtime
  wt_last_triggered :: gtime
  wt_run_status :: string
  wt_run_reason :: string
  wt_archived_at :: gtime
  wt_created_at :: gtime
  wt_updated_at :: gtime

record alert =
  al_id :: string
  al_watch :: string
  al_hit :: string
  al_run :: string
  al_task :: string
  al_strategy :: string
  al_portfolio :: string
  al_symbol :: string
  al_market :: string
  al_review :: string
  al_review_status :: string
  al_agent_run :: string
  al_ledger :: string
  al_trigger :: string
  al_status :: string
  al_level :: string
  al_title :: string
  al_summary :: string
  al_dedupe :: string
  al_evidence :: any_map
  al_count :: int
  al_first_seen :: gtime
  al_last_seen :: gtime
  al_triggered_at :: gtime
  al_acknowledged_at :: gtime
  al_resolved_at :: gtime
  al_created_at :: gtime
  al_updated_at :: gtime

record monitor_hit =
  mh_id :: string
  mh_run :: string
  mh_task :: string
  mh_status :: string
  mh_strategy :: string
  mh_portfolio :: string
  mh_symbol :: string
  mh_market :: string
  mh_title :: string
  mh_summary :: string
  mh_evidence :: any_map
  mh_decision :: string
  mh_alert :: string
  mh_created_at :: gtime

text \<open>Of a monitor run only the counters that reviews move are kept.\<close>

record monitor_run =
  mr_id :: string
  mr_reviews :: int
  mr_alerts :: int

text \<open>The input context of a review is stored for display and never read back; it is left out.\<close>

record review =
  rv_id :: string
  rv_hit :: string
  rv_run :: string
  rv_status :: string
  rv_output :: string
  rv_strategy :: string
  rv_portfolio :: string
  rv_symbol :: string
  rv_market :: string
  rv_result :: any_map
  rv_summary :: string
  rv_error :: string
  rv_created_at :: gtime
  rv_updated_at :: gtime
  rv_completed_at :: gtime
  rv_closed_at :: gtime

record agent_run =
  ar_id :: string
  ar_task :: string
  ar_status :: string
  ar_object_type :: string
  ar_object :: string
  ar_ledger :: string
  ar_created_at :: gtime

text \<open>The latest quote with the columns that evidence copies.\<close>

record latest_quote = quote +
  lq_market :: string
  lq_amplitude :: f64
  lq_turnover :: f64
  lq_volume_ratio :: f64
  lq_inflow :: f64
  lq_inflow_pct :: f64
  lq_source :: string

record daily_bar =
  db_symbol :: string
  db_adjusted :: string
  db_date :: string
  db_close :: f64
  db_quality :: string
  db_source :: string
  db_fetched_at :: gtime

text \<open>A link from a news event to an instrument.\<close>

record news_candidate =
  nc_id :: string
  nc_symbol :: string
  nc_event :: string

record desk =
  dk_stock :: stock
  dk_strategies :: "strategy list"
  dk_versions :: "strategy_version list"
  dk_watches :: "watch list"
  dk_alerts :: "alert list"
  dk_runs :: "monitor_run list"
  dk_hits :: "monitor_hit list"
  dk_reviews :: "review list"
  dk_agent_runs :: "agent_run list"
  dk_cooldowns :: "(string \<times> int) list"
  dk_quotes :: "latest_quote list"
  dk_bars :: "daily_bar list"
  dk_candidates :: "news_candidate list"
  dk_news_events :: "string list"
  dk_profiles :: "string list"

datatype desk_error =
    Stock stock_error
  | DeskDb string
  | ErrStrategyNotFound
  | ErrStrategyVersionNotFound
  | ErrStrategyArchived
  | ErrInvalidStrategyName
  | ErrInvalidStrategySymbol
  | ErrInvalidStrategyKind
  | ErrInvalidStrategyScope
  | ErrInvalidStrategySource
  | ErrInvalidStrategyStatus
  | ErrInvalidStrategyDirection
  | ErrWatchNotFound
  | ErrWatchArchived
  | ErrWatchNotActive
  | ErrInvalidWatchName
  | ErrInvalidWatchTarget
  | ErrInvalidWatchStatus
  | ErrInvalidWatchSource
  | ErrInvalidWatchPolicy
  | ErrInvalidWatchSchedule
  | ErrInvalidWatchCooldown
  | ErrInvalidAlertTitle
  | ErrInvalidAlertLevel
  | ErrAlertNotFound
  | ErrInvalidAlertStatus
  | ErrMonitorHitNotFound
  | ErrInvalidMonitorTaskType
  | ErrOperationReviewNotFound
  | ErrInvalidOperationReviewStatus
  | ErrInvalidOperationReviewOutputType
  | ErrInvalidProposedOperation
  | ErrInvalidOperationReviewAction

type_synonym 'a desk_prog = "(desk, desk_error, 'a) prog"

text \<open>What the desk takes from outside: the parameters of the portfolio operations, the redaction of texts
  (\<^verbatim>\<open>safelog.Text\<close>), the shortest decimal text of a float and \<^verbatim>\<open>fmt.Sprint\<close> of what is not a text.\<close>

record outside =
  out_lower :: "string \<Rightarrow> string"
  out_fetch :: "string list \<Rightarrow> stock_error + quote list"
  out_instrument :: "string \<Rightarrow> string \<times> string"
  out_redact :: "string \<Rightarrow> nat \<Rightarrow> string"
  out_shortest :: "f64 \<Rightarrow> string"
  out_print :: "any \<Rightarrow> string"

section \<open>Statements\<close>

text \<open>A portfolio operation inside the desk.\<close>

definition stocked :: "'a stock_prog \<Rightarrow> 'a desk_prog" where
  "stocked m = (\<lambda>w. case m (dk_stock w) of
     (Inl e, k) \<Rightarrow> (Inl (Stock e), w\<lparr>dk_stock := k\<rparr>)
   | (Inr x, k) \<Rightarrow> (Inr x, w\<lparr>dk_stock := k\<rparr>))"

definition tick :: "stock \<Rightarrow> stock" where
  "tick k = k\<lparr>st_calls := Suc (st_calls k)\<rparr>"

definition stmt :: "string \<Rightarrow> (desk \<Rightarrow> (desk_error + 'a) \<times> desk) \<Rightarrow> 'a desk_prog" where
  "stmt what f = (\<lambda>w.
     let k = dk_stock w; w1 = w\<lparr>dk_stock := tick k\<rparr>
     in if st_fault k (st_calls k) then (Inl (DeskDb what), w1) else f w1)"

definition desk_read :: "string \<Rightarrow> (desk \<Rightarrow> desk_error + 'a) \<Rightarrow> 'a desk_prog" where
  "desk_read what q = stmt what (\<lambda>w. (q w, w))"

text \<open>A change that the constraints may refuse.\<close>

definition desk_write :: "string \<Rightarrow> (desk \<Rightarrow> bool) \<Rightarrow> (desk \<Rightarrow> desk) \<Rightarrow> unit desk_prog" where
  "desk_write what ok f = stmt what (\<lambda>w. if ok w then (Inr (), f w) else (Inl (DeskDb what), w))"

text \<open>An \<^verbatim>\<open>UPDATE\<close> that reports whether it found a row; the constraints may refuse it.\<close>

definition desk_update ::
  "string \<Rightarrow> desk_error \<Rightarrow> (desk \<Rightarrow> bool) \<Rightarrow> (desk \<Rightarrow> bool) \<Rightarrow> (desk \<Rightarrow> desk) \<Rightarrow> unit desk_prog" where
  "desk_update what missing found ok f = stmt what (\<lambda>w.
     if \<not> found w then (Inl missing, w) else if ok w then (Inr (), f w) else (Inl (DeskDb what), w))"

definition desk_now :: "gtime desk_prog" where
  "desk_now = stocked time_now"

definition desk_id :: "string desk_prog" where
  "desk_id = stocked generate_id"

text \<open>A transaction that fails leaves the tables as they were.\<close>

definition restore :: "desk \<Rightarrow> desk \<Rightarrow> desk" where
  "restore old new = old\<lparr>dk_stock := (dk_stock new)\<lparr>st_tables := st_tables (dk_stock old)\<rparr>\<rparr>"

definition desk_tx :: "string \<Rightarrow> string \<Rightarrow> 'a desk_prog \<Rightarrow> 'a desk_prog" where
  "desk_tx begun committed m = (\<lambda>w.
     case desk_read begun (\<lambda>_. Inr ()) w of
       (Inl e, w1) \<Rightarrow> (Inl e, w1)
     | (Inr (_ :: unit), w1) \<Rightarrow>
         (case m w1 of
            (Inl e, w2) \<Rightarrow> (Inl e, restore w1 w2)
          | (Inr x, w2) \<Rightarrow>
              (case desk_read committed (\<lambda>_. Inr ()) w2 of
                 (Inl e, w3) \<Rightarrow> (Inl e, restore w1 w3)
               | (Inr (_ :: unit), w3) \<Rightarrow> (Inr x, w3))))"

definition bytes :: "nat list \<Rightarrow> string" where
  "bytes = map char_of"

text \<open>A foreign key to the portfolios: NULL or the id of a row.\<close>

definition desk_portfolio :: "desk \<Rightarrow> string \<Rightarrow> bool" where
  "desk_portfolio w pid \<longleftrightarrow> pid = [] \<or> has_portfolio pid (st_tables (dk_stock w))"

end
