(* ===== verification/Strategies.thy ===== *)
theory Strategies
  imports Desk
begin

text \<open>
  Strategies and their versions (\<^verbatim>\<open>stockv2/strategy_service.go\<close>, \<^verbatim>\<open>strategy_repository.go\<close>): a strategy has
  numbered versions of its content and an active one; a change of the content adds a version and makes it
  active in one transaction; archiving is final for the service's own operations.
\<close>

section \<open>Statements\<close>

text \<open>A row as it is read back.\<close>

definition strategy_row :: "strategy \<Rightarrow> strategy" where
  "strategy_row s = s\<lparr>sg_symbol := null_text (sg_symbol s), sg_market := null_text (sg_market s),
     sg_portfolio := null_text (sg_portfolio s), sg_active := null_text (sg_active s)\<rparr>"

definition version_row :: "strategy_version \<Rightarrow> strategy_version" where
  "version_row v = v\<lparr>sv_meta := stored_map (sv_meta v)\<rparr>"

definition has_strategy :: "string \<Rightarrow> desk \<Rightarrow> bool" where
  "has_strategy i w \<longleftrightarrow> i \<in> set (map sg_id (dk_strategies w))"

definition insert_strategy_tx :: "strategy \<Rightarrow> unit desk_prog" where
  "insert_strategy_tx s =
     desk_write ''insert strategy'' (\<lambda>w. \<not> has_strategy (sg_id s) w \<and> desk_portfolio w (null_text (sg_portfolio s)))
       (\<lambda>w. w\<lparr>dk_strategies := dk_strategies w @ [strategy_row s]\<rparr>)"

text \<open>The row keeps its id and its creation time.\<close>

definition update_strategy_tx :: "strategy \<Rightarrow> unit desk_prog" where
  "update_strategy_tx s =
     desk_update ''update strategy'' ErrStrategyNotFound (has_strategy (sg_id s)) (\<lambda>w. desk_portfolio w (null_text (sg_portfolio s)))
       (\<lambda>w. w\<lparr>dk_strategies := map (\<lambda>r. if sg_id r = sg_id s then (strategy_row s)\<lparr>sg_created_at := sg_created_at r\<rparr> else r) (dk_strategies w)\<rparr>)"

definition insert_version_tx :: "strategy_version \<Rightarrow> unit desk_prog" where
  "insert_version_tx v =
     desk_write ''insert strategy version''
       (\<lambda>w. sv_id v \<notin> set (map sv_id (dk_versions w)) \<and> has_strategy (sv_strategy v) w \<and>
            (sv_strategy v, sv_no v) \<notin> set (map (\<lambda>r. (sv_strategy r, sv_no r)) (dk_versions w)))
       (\<lambda>w. w\<lparr>dk_versions := dk_versions w @ [version_row v]\<rparr>)"

definition versions_of :: "string \<Rightarrow> desk \<Rightarrow> strategy_version list" where
  "versions_of i w = filter (\<lambda>v. sv_strategy v = i) (dk_versions w)"

definition next_version_no :: "string \<Rightarrow> int desk_prog" where
  "next_version_no i = desk_read ''next strategy version'' (\<lambda>w.
     Inr (case versions_of i w of [] \<Rightarrow> 1 | vs \<Rightarrow> Max (set (map sv_no vs)) + 1))"

definition select_strategy :: "string \<Rightarrow> strategy desk_prog" where
  "select_strategy i = desk_read ''get strategy'' (\<lambda>w.
     case find (\<lambda>s. sg_id s = i) (dk_strategies w) of None \<Rightarrow> Inl ErrStrategyNotFound | Some s \<Rightarrow> Inr s)"

definition select_version :: "string \<Rightarrow> strategy_version desk_prog" where
  "select_version i = desk_read ''get strategy version'' (\<lambda>w.
     case find (\<lambda>v. sv_id v = i) (dk_versions w) of None \<Rightarrow> Inl ErrStrategyVersionNotFound | Some v \<Rightarrow> Inr v)"

definition list_versions :: "string \<Rightarrow> strategy_version list desk_prog" where
  "list_versions i = desk_read ''list strategy versions'' (\<lambda>w. Inr (sort_key sv_no (versions_of i w)))"

text \<open>The active version of a strategy; one that is missing is left out.\<close>

definition active_version :: "strategy \<Rightarrow> strategy_version option desk_prog" where
  "active_version s =
     (if sg_active s = [] then ret None
      else bindE (attempt (select_version (sg_active s))) (\<lambda>r.
        case r of
          Inr v \<Rightarrow> ret (Some v)
        | Inl e \<Rightarrow> if e = ErrStrategyVersionNotFound then ret None else throw e))"

definition get_strategy :: "string \<Rightarrow> strategy_view desk_prog" where
  "get_strategy i =
     bindE (select_strategy i) (\<lambda>s.
     bindE (active_version s) (\<lambda>v. ret \<lparr>sw_strategy = s, sw_version = v\<rparr>))"

definition author :: "strategy \<Rightarrow> strategy_version \<Rightarrow> string" where
  "author s v = (if sv_created_by v = [] then sg_source s else sv_created_by v)"

definition create_strategy_with_version :: "strategy \<Rightarrow> strategy_version \<Rightarrow> strategy_view desk_prog" where
  "create_strategy_with_version s v =
     desk_tx ''begin create strategy transaction'' ''commit create strategy''
       (bindE desk_now (\<lambda>now.
        bindE (if sg_id s = [] then desk_id else ret (sg_id s)) (\<lambda>sid.
        let s1 = s\<lparr>sg_id := sid, sg_created_at := now, sg_updated_at := now, sg_active := []\<rparr> in
        seqE (insert_strategy_tx s1)
       (bindE (if sv_id v = [] then desk_id else ret (sv_id v)) (\<lambda>vid.
        let v1 = v\<lparr>sv_id := vid, sv_strategy := sid, sv_no := 1, sv_created_at := now, sv_created_by := author s1 v\<rparr>;
            s2 = s1\<lparr>sg_active := vid\<rparr> in
        seqE (insert_version_tx v1)
       (seqE (update_strategy_tx s2)
        (ret \<lparr>sw_strategy = s2, sw_version = Some v1\<rparr>)))))))"

text \<open>The transaction of an update, with the new version when there is one.\<close>

definition update_strategy_in_tx :: "strategy \<Rightarrow> strategy_version option \<Rightarrow> strategy_view desk_prog" where
  "update_strategy_in_tx s next_version =
     bindE (case next_version of
         None \<Rightarrow> ret (s, None)
       | Some v \<Rightarrow>
           bindE (next_version_no (sg_id s)) (\<lambda>n.
           bindE desk_id (\<lambda>vid.
           bindE desk_now (\<lambda>now.
           let v1 = v\<lparr>sv_id := vid, sv_strategy := sg_id s, sv_no := n, sv_created_at := now, sv_created_by := author s v\<rparr> in
           seqE (insert_version_tx v1) (ret (s\<lparr>sg_active := vid\<rparr>, Some v1)))))) (\<lambda>(s1, v1).
     bindE desk_now (\<lambda>now.
     let s2 = s1\<lparr>sg_updated_at := now\<rparr> in
     seqE (update_strategy_tx s2) (ret \<lparr>sw_strategy = s2, sw_version = v1\<rparr>)))"

definition update_strategy_with_version :: "strategy \<Rightarrow> strategy_version option \<Rightarrow> strategy_view desk_prog" where
  "update_strategy_with_version s next_version =
     bindE (desk_tx ''begin update strategy transaction'' ''commit update strategy'' (update_strategy_in_tx s next_version)) (\<lambda>item.
     case sw_version item of
       Some v \<Rightarrow> ret item
     | None \<Rightarrow> bindE (active_version (sw_strategy item)) (\<lambda>v. ret (item\<lparr>sw_version := v\<rparr>)))"

section \<open>Listing\<close>

text \<open>\<^verbatim>\<open>LIKE\<close>, rune by rune and without regard to the case of ASCII letters.\<close>

fun like :: "string list \<Rightarrow> string list \<Rightarrow> bool" where
  "like [] s = (s = [])"
| "like (p # ps) s =
     (if p = ''%'' then like ps s \<or> (case s of [] \<Rightarrow> False | _ # t \<Rightarrow> like (p # ps) t)
      else case s of
        [] \<Rightarrow> False
      | c # t \<Rightarrow> (p = ''_'' \<or> map lower_char p = map lower_char c) \<and> like ps t)"

record strategy_filter =
  sf_kind :: string
  sf_scope :: string
  sf_source :: string
  sf_status :: string
  sf_symbol :: string
  sf_portfolio :: string
  sf_keyword :: string
  sf_limit :: int
  sf_offset :: int

definition column_matches :: "string \<Rightarrow> string \<Rightarrow> bool" where
  "column_matches wanted v \<longleftrightarrow> trim_space wanted = [] \<or> v = wanted"

text \<open>A NULL symbol does not match a keyword.\<close>

definition strategy_matches :: "(string \<Rightarrow> string) \<Rightarrow> strategy_filter \<Rightarrow> strategy \<Rightarrow> bool" where
  "strategy_matches ul f s \<longleftrightarrow>
     column_matches (sf_kind f) (sg_kind s) \<and> column_matches (sf_scope f) (sg_scope s) \<and>
     column_matches (sf_source f) (sg_source s) \<and> column_matches (sf_status f) (sg_status s) \<and>
     column_matches (sf_symbol f) (sg_symbol s) \<and> column_matches (sf_portfolio f) (sg_portfolio s) \<and>
     (let k = to_lower ul (trim_space (sf_keyword f)); pat = runes (''%'' @ k @ ''%'')
      in k = [] \<or> like pat (runes (sg_name s)) \<or> (sg_symbol s \<noteq> [] \<and> like pat (runes (sg_symbol s))))"

definition page :: "int \<Rightarrow> int \<Rightarrow> 'a list \<Rightarrow> 'a list" where
  "page limit offset xs =
     take (nat (if limit \<le> 0 then 50 else min 200 limit)) (drop (nat (max 0 offset)) xs)"

fun with_versions :: "strategy list \<Rightarrow> strategy_view list desk_prog" where
  "with_versions [] = ret []"
| "with_versions (s # ss) =
     bindE (active_version s) (\<lambda>v. bindE (with_versions ss) (\<lambda>xs. ret (\<lparr>sw_strategy = s, sw_version = v\<rparr> # xs)))"

definition list_strategies :: "(string \<Rightarrow> string) \<Rightarrow> strategy_filter \<Rightarrow> strategy_view list desk_prog" where
  "list_strategies ul f =
     bindE (desk_read ''list strategies'' (\<lambda>w.
       Inr (page (sf_limit f) (sf_offset f)
         (newest_first sg_updated_at (newest_first sg_created_at (filter (strategy_matches ul f) (dk_strategies w))))))) with_versions"

definition count_strategies :: "(string \<Rightarrow> string) \<Rightarrow> strategy_filter \<Rightarrow> nat desk_prog" where
  "count_strategies ul f = desk_read ''count strategies'' (\<lambda>w. Inr (length (filter (strategy_matches ul f) (dk_strategies w))))"

section \<open>The service\<close>

definition valid_direction :: "string \<Rightarrow> bool" where
  "valid_direction d \<longleftrightarrow>
     d \<in> {[], ''watch'', ''bullish'', ''bearish'', ''neutral'', ''buy_signal'', ''sell_signal'', ''hold''}"

definition validate_strategy :: "strategy \<Rightarrow> unit desk_prog" where
  "validate_strategy s =
     (if sg_name s = [] then throw ErrInvalidStrategyName
      else if sg_kind s \<notin> {''symbol_strategy'', ''portfolio_monitor''} then throw ErrInvalidStrategyKind
      else if sg_scope s \<notin> {''research'', ''portfolio_bound''} then throw ErrInvalidStrategyScope
      else if sg_source s \<notin> {''manual'', ''system_template'', ''agent''} then throw ErrInvalidStrategySource
      else if sg_status s \<notin> {''draft'', ''active'', ''paused'', ''archived''} then throw ErrInvalidStrategyStatus
      else if sg_kind s = ''symbol_strategy'' \<and> sg_symbol s = [] then throw ErrInvalidStrategySymbol
      else if sg_kind s = ''portfolio_monitor'' \<and> sg_portfolio s = [] then throw (Stock ErrPortfolioNotFound)
      else if sg_kind s = ''portfolio_monitor'' \<and> sg_scope s \<noteq> ''portfolio_bound'' then throw ErrInvalidStrategyScope
      else if sg_scope s = ''portfolio_bound'' \<and> sg_portfolio s = [] then throw (Stock ErrPortfolioNotFound)
      else if sg_portfolio s \<noteq> [] then bindE (stocked (select_portfolio (sg_portfolio s))) (\<lambda>_. ret ())
      else ret ())"

record strategy_request =
  sq_name :: string
  sq_kind :: string
  sq_scope :: string
  sq_source :: string
  sq_status :: string
  sq_symbol :: string
  sq_market :: string
  sq_portfolio :: string
  sq_title :: string
  sq_direction :: string
  sq_thesis :: string
  sq_entry :: "string list"
  sq_exit :: "string list"
  sq_risk_notes :: string
  sq_evidence :: "string list"
  sq_meta :: any_map
  sq_created_by :: string

definition or_default :: "string \<Rightarrow> string \<Rightarrow> string" where
  "or_default s d = (if trim_space s = [] then d else trim_space s)"

definition request_strategy :: "strategy_request \<Rightarrow> string \<Rightarrow> strategy" where
  "request_strategy rq i =
     \<lparr>sg_id = i, sg_name = trim_space (sq_name rq), sg_kind = trim_space (sq_kind rq),
      sg_scope = or_default (sq_scope rq) ''research'', sg_source = or_default (sq_source rq) ''manual'',
      sg_status = or_default (sq_status rq) ''draft'', sg_symbol = trim_space (sq_symbol rq),
      sg_market = trim_space (sq_market rq), sg_portfolio = trim_space (sq_portfolio rq), sg_active = [],
      sg_created_at = 0, sg_updated_at = 0, sg_archived_at = 0\<rparr>"

definition request_version :: "strategy_request \<Rightarrow> strategy_version" where
  "request_version rq =
     \<lparr>sv_id = [], sv_strategy = [], sv_no = 0, sv_title = trim_space (sq_title rq), sv_direction = trim_space (sq_direction rq),
      sv_thesis = trim_space (sq_thesis rq), sv_entry = sq_entry rq, sv_exit = sq_exit rq,
      sv_risk_notes = trim_space (sq_risk_notes rq), sv_evidence = sq_evidence rq, sv_meta = sq_meta rq,
      sv_created_by = or_default (sq_created_by rq) (or_default (sq_source rq) ''manual''), sv_created_at = 0\<rparr>"

definition create_strategy :: "strategy_request \<Rightarrow> strategy_view desk_prog" where
  "create_strategy rq =
     bindE desk_id (\<lambda>i.
     let s = request_strategy rq i; v = request_version rq in
     seqE (validate_strategy s)
       (if \<not> valid_direction (sv_direction v) then throw ErrInvalidStrategyDirection
        else create_strategy_with_version s v))"

record strategy_patch =
  sp_name :: "string option"
  sp_scope :: "string option"
  sp_symbol :: "string option"
  sp_market :: "string option"
  sp_portfolio :: "string option"
  sp_title :: "string option"
  sp_direction :: "string option"
  sp_thesis :: "string option"
  sp_entry :: "string list option"
  sp_exit :: "string list option"
  sp_risk_notes :: "string option"
  sp_evidence :: "string list option"
  sp_meta :: "any_map option"
  sp_created_by :: "string option"

definition trimmed_or :: "string option \<Rightarrow> string \<Rightarrow> string" where
  "trimmed_or u old = (case u of None \<Rightarrow> old | Some s \<Rightarrow> trim_space s)"

definition patch_strategy :: "strategy_patch \<Rightarrow> strategy \<Rightarrow> strategy" where
  "patch_strategy u s =
     s\<lparr>sg_name := trimmed_or (sp_name u) (sg_name s), sg_scope := trimmed_or (sp_scope u) (sg_scope s),
       sg_symbol := trimmed_or (sp_symbol u) (sg_symbol s), sg_market := trimmed_or (sp_market u) (sg_market s),
       sg_portfolio := trimmed_or (sp_portfolio u) (sg_portfolio s)\<rparr>"

definition content_changed :: "strategy_patch \<Rightarrow> bool" where
  "content_changed u \<longleftrightarrow>
     sp_title u \<noteq> None \<or> sp_direction u \<noteq> None \<or> sp_thesis u \<noteq> None \<or> sp_entry u \<noteq> None \<or> sp_exit u \<noteq> None \<or>
     sp_risk_notes u \<noteq> None \<or> sp_evidence u \<noteq> None \<or> sp_meta u \<noteq> None \<or> sp_created_by u \<noteq> None"

definition patch_version :: "strategy_patch \<Rightarrow> strategy_version \<Rightarrow> strategy_version" where
  "patch_version u v =
     v\<lparr>sv_title := trimmed_or (sp_title u) (sv_title v), sv_direction := trimmed_or (sp_direction u) (sv_direction v),
       sv_thesis := trimmed_or (sp_thesis u) (sv_thesis v), sv_entry := bool_default (sp_entry u) (sv_entry v),
       sv_exit := bool_default (sp_exit u) (sv_exit v), sv_risk_notes := trimmed_or (sp_risk_notes u) (sv_risk_notes v),
       sv_evidence := bool_default (sp_evidence u) (sv_evidence v), sv_meta := bool_default (sp_meta u) (sv_meta v),
       sv_created_by := trimmed_or (sp_created_by u) (sv_created_by v)\<rparr>"

definition no_version :: strategy_version where
  "no_version = \<lparr>sv_id = [], sv_strategy = [], sv_no = 0, sv_title = [], sv_direction = [], sv_thesis = [], sv_entry = [],
     sv_exit = [], sv_risk_notes = [], sv_evidence = [], sv_meta = [], sv_created_by = [], sv_created_at = 0\<rparr>"

definition update_strategy :: "string \<Rightarrow> strategy_patch \<Rightarrow> strategy_view desk_prog" where
  "update_strategy i u =
     bindE (get_strategy i) (\<lambda>current.
     if sg_status (sw_strategy current) = ''archived'' then throw ErrStrategyArchived
     else
       (let s = patch_strategy u (sw_strategy current) in
        seqE (validate_strategy s)
         (if \<not> content_changed u then update_strategy_with_version s None
          else
            (let v0 = patch_version u (bool_default (sw_version current) no_version); v = v0\<lparr>sv_created_by := author s v0\<rparr>
             in if \<not> valid_direction (sv_direction v) then throw ErrInvalidStrategyDirection
                else update_strategy_with_version s (Some v)))))"

text \<open>Activating and pausing.\<close>

definition set_strategy_status :: "string \<Rightarrow> string \<Rightarrow> strategy_view desk_prog" where
  "set_strategy_status i status =
     bindE (get_strategy i) (\<lambda>current.
     if sg_status (sw_strategy current) = ''archived'' then throw ErrStrategyArchived
     else update_strategy_with_version ((sw_strategy current)\<lparr>sg_status := status\<rparr>) None)"

definition archive_strategy :: "string \<Rightarrow> strategy_view desk_prog" where
  "archive_strategy i =
     bindE (get_strategy i) (\<lambda>current.
     if sg_status (sw_strategy current) = ''archived'' then ret current
     else bindE desk_now (\<lambda>now.
       update_strategy_with_version ((sw_strategy current)\<lparr>sg_status := ''archived'', sg_archived_at := now\<rparr>) None))"

definition list_strategy_versions :: "string \<Rightarrow> strategy_version list desk_prog" where
  "list_strategy_versions i = bindE (get_strategy i) (\<lambda>_. list_versions i)"

section \<open>The template of a portfolio monitor\<close>

record monitor_request =
  mq_name :: string
  mq_title :: string
  mq_thesis :: string
  mq_risk_notes :: string
  mq_created_by :: string

definition monitor_name_text :: string where
  "monitor_name_text =
     bytes [231, 187, 132, 229, 144, 136, 231, 155, 145, 230, 142, 167, 231, 173, 150, 231, 149, 165, 32, 45, 32]"

definition monitor_title_text :: string where
  "monitor_title_text =
     bytes [231, 187, 132, 229, 144, 136, 230, 151, 165, 229, 184, 184, 231, 155, 145, 230, 142, 167]"

definition empty_thesis_text :: string where
  "empty_thesis_text =
     bytes [229, 189, 147, 229, 137, 141, 231, 187, 132, 229, 144, 136, 230, 154, 130, 230, 151, 160, 230, 140,
     129, 228, 187, 147, 239, 188, 140, 231, 173, 150, 231, 149, 165, 231, 148, 168, 228, 186, 142, 229, 144, 142,
     231, 187, 173, 230, 140, 129, 228, 187, 147, 229, 143, 152, 229, 140, 150, 227, 128, 129, 231, 142, 176, 233,
     135, 145, 230, 175, 148, 228, 190, 139, 229, 146, 140, 232, 161, 140, 230, 131, 133, 230, 150, 176, 233, 178,
     156, 229, 186, 166, 231, 154, 132, 230, 151, 165, 229, 184, 184, 231, 155, 145, 230, 142, 167, 227, 128, 130]"

definition full_thesis_text :: string where
  "full_thesis_text =
     bytes [231, 179, 187, 231, 187, 159, 230, 168, 161, 230, 157, 191, 231, 148, 159, 230, 136, 144, 231, 154,
     132, 231, 187, 132, 229, 144, 136, 231, 155, 145, 230, 142, 167, 231, 173, 150, 231, 149, 165, 239, 188, 140,
     232, 166, 134, 231, 155, 150, 230, 140, 129, 228, 187, 147, 228, 187, 147, 228, 189, 141, 227, 128, 129, 228,
     187, 183, 230, 160, 188, 230, 179, 162, 229, 138, 168, 227, 128, 129, 232, 161, 140, 230, 131, 133, 230, 150,
     176, 233, 178, 156, 229, 186, 166, 229, 146, 140, 231, 187, 132, 229, 144, 136, 233, 163, 142, 233, 153, 169,
     231, 138, 182, 230, 128, 129, 227, 128, 130]"

definition create_portfolio_monitor :: "string \<Rightarrow> monitor_request \<Rightarrow> strategy_view desk_prog" where
  "create_portfolio_monitor pid rq =
     bindE (stocked (select_portfolio pid)) (\<lambda>p.
     bindE (stocked (select_holdings pid)) (\<lambda>hs.
     create_strategy
       \<lparr>sq_name = or_default (mq_name rq) (monitor_name_text @ pf_name p), sq_kind = ''portfolio_monitor'',
        sq_scope = ''portfolio_bound'', sq_source = ''system_template'', sq_status = ''draft'', sq_symbol = [], sq_market = [],
        sq_portfolio = pid, sq_title = or_default (mq_title rq) monitor_title_text, sq_direction = ''watch'',
        sq_thesis = or_default (mq_thesis rq) (if hs = [] then empty_thesis_text else full_thesis_text),
        sq_entry = [''daily_review'', ''price_drop_pct'', ''price_rise_pct'', ''stale_quote'', ''position_pct_limit''],
        sq_exit = [], sq_risk_notes = trim_space (mq_risk_notes rq), sq_evidence = [],
        sq_meta = [(''source'', AnyStr ''system_template''), (''template'', AnyStr ''portfolio_monitor_v1''),
                   (''portfolioId'', AnyStr pid), (''holdingCount'', AnyInt (int (length hs)))],
        sq_created_by = or_default (mq_created_by rq) ''system_template''\<rparr>))"

end
