(* ===== verification/ReviewTables.thy ===== *)
theory ReviewTables
  imports Strategies
begin

text \<open>
  The statements on monitor runs and hits (\<^verbatim>\<open>stockv2/monitor_repository.go\<close>), alerts
  (\<^verbatim>\<open>watch_repository.go\<close>), agent runs and operation reviews (\<^verbatim>\<open>review_repository.go\<close>), and the alert that a
  monitor hit raises or refreshes (\<^verbatim>\<open>monitor_service.go\<close>).
\<close>

section \<open>Monitor runs and hits\<close>

text \<open>A blank id is skipped; a run that does not exist is no error.\<close>

definition bump_run :: "string \<Rightarrow> (monitor_run \<Rightarrow> monitor_run) \<Rightarrow> string \<Rightarrow> unit desk_prog" where
  "bump_run what f i =
     (if trim_space i = [] then ret ()
      else desk_write what (\<lambda>_. True) (\<lambda>w. w\<lparr>dk_runs := map (\<lambda>r. if mr_id r = i then f r else r) (dk_runs w)\<rparr>))"

definition increment_review_count :: "string \<Rightarrow> unit desk_prog" where
  "increment_review_count = bump_run ''increment monitor run review count'' (\<lambda>r. r\<lparr>mr_reviews := mr_reviews r + 1\<rparr>)"

definition increment_alert_count :: "string \<Rightarrow> unit desk_prog" where
  "increment_alert_count = bump_run ''increment monitor run alert count'' (\<lambda>r. r\<lparr>mr_alerts := mr_alerts r + 1\<rparr>)"

definition hit_row :: "monitor_hit \<Rightarrow> monitor_hit" where
  "hit_row h = h\<lparr>mh_strategy := null_text (mh_strategy h), mh_portfolio := null_text (mh_portfolio h),
     mh_symbol := null_text (mh_symbol h), mh_market := null_text (mh_market h), mh_summary := null_text (mh_summary h),
     mh_evidence := stored_map (mh_evidence h), mh_decision := null_text (mh_decision h), mh_alert := null_text (mh_alert h)\<rparr>"

definition has_hit :: "string \<Rightarrow> desk \<Rightarrow> bool" where
  "has_hit i w \<longleftrightarrow> i \<in> set (map mh_id (dk_hits w))"

definition create_monitor_hit :: "monitor_hit \<Rightarrow> monitor_hit desk_prog" where
  "create_monitor_hit h0 =
     bindE (if mh_id h0 = [] then desk_id else ret (mh_id h0)) (\<lambda>i.
     bindE desk_now (\<lambda>now.
     let h = h0\<lparr>mh_id := i, mh_created_at := (if time_is_zero (mh_created_at h0) then now else mh_created_at h0)\<rparr> in
     seqE (desk_write ''create monitor hit'' (\<lambda>w. \<not> has_hit i w \<and> mh_run h \<in> set (map mr_id (dk_runs w)))
             (\<lambda>w. w\<lparr>dk_hits := dk_hits w @ [hit_row h]\<rparr>))
       (ret h)))"

definition get_hit :: "string \<Rightarrow> monitor_hit desk_prog" where
  "get_hit i = desk_read ''get monitor hit'' (\<lambda>w.
     case find (\<lambda>h. mh_id h = i) (dk_hits w) of None \<Rightarrow> Inl ErrMonitorHitNotFound | Some h \<Rightarrow> Inr h)"

definition change_hit :: "string \<Rightarrow> string \<Rightarrow> (monitor_hit \<Rightarrow> monitor_hit) \<Rightarrow> unit desk_prog" where
  "change_hit what i f = desk_update what ErrMonitorHitNotFound (has_hit i) (\<lambda>_. True)
     (\<lambda>w. w\<lparr>dk_hits := map (\<lambda>h. if mh_id h = i then f h else h) (dk_hits w)\<rparr>)"

definition update_hit_status :: "string \<Rightarrow> string \<Rightarrow> unit desk_prog" where
  "update_hit_status i status = change_hit ''update monitor hit status'' i (\<lambda>h. h\<lparr>mh_status := status\<rparr>)"

definition update_hit_evidence :: "string \<Rightarrow> any_map \<Rightarrow> string \<Rightarrow> unit desk_prog" where
  "update_hit_evidence i ev decision = change_hit ''update monitor hit evidence'' i
     (\<lambda>h. h\<lparr>mh_evidence := stored_map ev, mh_decision := null_text decision\<rparr>)"

definition update_hit_alert :: "string \<Rightarrow> string \<Rightarrow> string \<Rightarrow> unit desk_prog" where
  "update_hit_alert i alert_id status = change_hit ''update monitor hit alert'' i
     (\<lambda>h. h\<lparr>mh_alert := null_text alert_id, mh_status := (if status = [] then ''alerted'' else status)\<rparr>)"

section \<open>Alerts\<close>

text \<open>A row as it is read back: missing times of sight default to the creation and trigger times.\<close>

definition alert_row :: "alert \<Rightarrow> alert" where
  "alert_row a = a\<lparr>al_watch := null_text (al_watch a), al_hit := null_text (al_hit a), al_run := null_text (al_run a),
     al_task := null_text (al_task a), al_strategy := null_text (al_strategy a), al_portfolio := null_text (al_portfolio a),
     al_symbol := null_text (al_symbol a), al_market := null_text (al_market a), al_review := null_text (al_review a),
     al_review_status := null_text (al_review_status a), al_agent_run := null_text (al_agent_run a),
     al_ledger := null_text (al_ledger a), al_trigger := null_text (al_trigger a), al_dedupe := null_text (al_dedupe a),
     al_evidence := stored_map (al_evidence a), al_count := (if al_count a \<le> 0 then 1 else al_count a),
     al_first_seen := (if time_is_zero (al_first_seen a) then al_created_at a else al_first_seen a),
     al_last_seen := (if time_is_zero (al_last_seen a) then al_triggered_at a else al_last_seen a)\<rparr>"

definition desk_watch :: "desk \<Rightarrow> string \<Rightarrow> bool" where
  "desk_watch w i \<longleftrightarrow> i = [] \<or> i \<in> set (map wt_id (dk_watches w))"

definition has_alert :: "string \<Rightarrow> desk \<Rightarrow> bool" where
  "has_alert i w \<longleftrightarrow> i \<in> set (map al_id (dk_alerts w))"

definition insert_alert :: "alert \<Rightarrow> alert desk_prog" where
  "insert_alert a0 =
     bindE desk_now (\<lambda>now.
     bindE (if al_id a0 = [] then desk_id else ret (al_id a0)) (\<lambda>i.
     let trig = (if time_is_zero (al_triggered_at a0) then now else al_triggered_at a0);
         a = a0\<lparr>al_id := i, al_triggered_at := trig, al_count := (if al_count a0 \<le> 0 then 1 else al_count a0),
               al_first_seen := (if time_is_zero (al_first_seen a0) then trig else al_first_seen a0),
               al_last_seen := (if time_is_zero (al_last_seen a0) then trig else al_last_seen a0),
               al_created_at := now, al_updated_at := now\<rparr>
     in seqE (desk_write ''create alert'' (\<lambda>w. \<not> has_alert i w \<and> desk_watch w (null_text (al_watch a)))
                (\<lambda>w. w\<lparr>dk_alerts := dk_alerts w @ [alert_row a]\<rparr>))
          (ret a)))"

definition get_alert :: "string \<Rightarrow> alert desk_prog" where
  "get_alert i = desk_read ''get alert'' (\<lambda>w.
     case find (\<lambda>a. al_id a = i) (dk_alerts w) of None \<Rightarrow> Inl ErrAlertNotFound | Some a \<Rightarrow> Inr a)"

definition update_alert :: "alert \<Rightarrow> alert desk_prog" where
  "update_alert a0 =
     bindE desk_now (\<lambda>now. let a = a0\<lparr>al_updated_at := now\<rparr> in
     seqE (desk_update ''update alert'' ErrAlertNotFound (has_alert (al_id a)) (\<lambda>w. desk_watch w (null_text (al_watch a)))
             (\<lambda>w. w\<lparr>dk_alerts := map (\<lambda>r. if al_id r = al_id a then alert_row (a\<lparr>al_created_at := al_created_at r\<rparr>) else r) (dk_alerts w)\<rparr>))
       (ret a))"

definition latest_alert :: "string \<Rightarrow> (alert \<Rightarrow> bool) \<Rightarrow> alert desk_prog" where
  "latest_alert what p = desk_read what (\<lambda>w.
     case newest_first al_last_seen (newest_first al_created_at (filter p (dk_alerts w))) of
       [] \<Rightarrow> Inl ErrAlertNotFound
     | a # _ \<Rightarrow> Inr a)"

text \<open>A NULL key equals nothing.\<close>

definition find_alert_by_key :: "string \<Rightarrow> alert desk_prog" where
  "find_alert_by_key key = latest_alert ''find latest alert by dedupe key'' (\<lambda>a. al_dedupe a \<noteq> [] \<and> al_dedupe a = key)"

definition find_watch_alert_by_key :: "string \<Rightarrow> string \<Rightarrow> alert desk_prog" where
  "find_watch_alert_by_key wid key = latest_alert ''find latest alert by dedupe key''
     (\<lambda>a. al_watch a \<noteq> [] \<and> al_watch a = wid \<and> al_dedupe a \<noteq> [] \<and> al_dedupe a = key)"

definition valid_alert_status :: "string \<Rightarrow> bool" where
  "valid_alert_status s \<longleftrightarrow> s = ''open'' \<or> s = ''acknowledged'' \<or> s = ''ignored'' \<or> s = ''resolved''"

text \<open>Acknowledging, ignoring and resolving: any status may follow any other.\<close>

definition set_alert_status :: "string \<Rightarrow> string \<Rightarrow> alert desk_prog" where
  "set_alert_status i status =
     (if \<not> valid_alert_status status then throw ErrInvalidAlertStatus
      else bindE (get_alert i) (\<lambda>a.
        bindE desk_now (\<lambda>now.
        let b = a\<lparr>al_status := status\<rparr> in
        update_alert
          (if status = ''acknowledged'' \<or> status = ''ignored'' then b\<lparr>al_acknowledged_at := now\<rparr>
           else if status = ''resolved'' then b\<lparr>al_resolved_at := now\<rparr> else b))))"

section \<open>Quotes and agent runs\<close>

definition latest_quote_of :: "string \<Rightarrow> latest_quote option desk_prog" where
  "latest_quote_of code = desk_read ''get latest quotes'' (\<lambda>w. Inr (find (\<lambda>q. qt_symbol q = code) (dk_quotes w)))"

definition completed_agent_run :: "string \<Rightarrow> agent_run option desk_prog" where
  "completed_agent_run rid = desk_read ''list agent runs'' (\<lambda>w.
     Inr (case newest_first ar_created_at (filter (\<lambda>r. ar_task r = ''operation_review'' \<and> ar_status r = ''completed'' \<and>
                  ar_object_type r = ''operation_review'' \<and> (trim_space rid = [] \<or> ar_object r = trim_space rid)) (dk_agent_runs w)) of
            [] \<Rightarrow> None | r # _ \<Rightarrow> Some r))"

section \<open>Reviews\<close>

definition review_row :: "review \<Rightarrow> review" where
  "review_row r = r\<lparr>rv_run := null_text (rv_run r), rv_output := null_text (rv_output r), rv_strategy := null_text (rv_strategy r),
     rv_portfolio := null_text (rv_portfolio r), rv_symbol := null_text (rv_symbol r), rv_market := null_text (rv_market r),
     rv_result := stored_map (rv_result r), rv_summary := null_text (rv_summary r), rv_error := null_text (rv_error r)\<rparr>"

definition has_review :: "string \<Rightarrow> desk \<Rightarrow> bool" where
  "has_review i w \<longleftrightarrow> i \<in> set (map rv_id (dk_reviews w))"

text \<open>The unique index: at most one review of a hit is not closed.\<close>

definition hit_free :: "string \<Rightarrow> string \<Rightarrow> desk \<Rightarrow> bool" where
  "hit_free i hit w \<longleftrightarrow> list_all (\<lambda>r. rv_id r = i \<or> rv_hit r \<noteq> hit \<or> rv_status r = ''closed'') (dk_reviews w)"

definition insert_review :: "outside \<Rightarrow> review \<Rightarrow> review desk_prog" where
  "insert_review out r0 =
     bindE desk_now (\<lambda>now.
     bindE (if rv_id r0 = [] then desk_id else ret (rv_id r0)) (\<lambda>i.
     let r = r0\<lparr>rv_id := i, rv_status := (if rv_status r0 = [] then ''pending'' else rv_status r0),
               rv_created_at := (if time_is_zero (rv_created_at r0) then now else rv_created_at r0),
               rv_updated_at := (if time_is_zero (rv_updated_at r0) then now else rv_updated_at r0)\<rparr>
     in seqE (desk_write ''create operation review''
                (\<lambda>w. \<not> has_review i w \<and> has_hit (rv_hit r) w \<and> (rv_status r = ''closed'' \<or> hit_free i (rv_hit r) w))
                (\<lambda>w. w\<lparr>dk_reviews := dk_reviews w @ [review_row (r\<lparr>rv_summary := out_redact out (rv_summary r) 800,
                   rv_error := out_redact out (rv_error r) 400\<rparr>)]\<rparr>))
          (ret r)))"

definition get_review :: "string \<Rightarrow> review desk_prog" where
  "get_review i = desk_read ''get operation review'' (\<lambda>w.
     case find (\<lambda>r. rv_id r = i) (dk_reviews w) of None \<Rightarrow> Inl ErrOperationReviewNotFound | Some r \<Rightarrow> Inr r)"

definition active_review_of_hit :: "string \<Rightarrow> review option desk_prog" where
  "active_review_of_hit hit = desk_read ''get active operation review by hit'' (\<lambda>w.
     Inr (case newest_first rv_created_at (filter (\<lambda>r. rv_hit r = hit \<and> rv_status r \<noteq> ''closed'') (dk_reviews w)) of
            [] \<Rightarrow> None | r # _ \<Rightarrow> Some r))"

text \<open>The columns that \<^verbatim>\<open>SaveOperationReviewResult\<close> sets.\<close>

definition saved_columns :: "outside \<Rightarrow> review \<Rightarrow> gtime \<Rightarrow> review \<Rightarrow> review" where
  "saved_columns out r now row =
     review_row (row\<lparr>rv_status := rv_status r, rv_output := rv_output r, rv_result := rv_result r,
       rv_summary := out_redact out (rv_summary r) 800, rv_error := out_redact out (rv_error r) 400,
       rv_updated_at := now, rv_completed_at := rv_completed_at r, rv_closed_at := rv_closed_at r\<rparr>)"

definition save_review_row :: "outside \<Rightarrow> review \<Rightarrow> review desk_prog" where
  "save_review_row out r =
     bindE desk_now (\<lambda>now.
     seqE (desk_update ''save operation review result'' ErrOperationReviewNotFound (has_review (rv_id r))
             (\<lambda>w. rv_status r = ''closed'' \<or>
                list_all (\<lambda>x. rv_id x = rv_id r \<longrightarrow> hit_free (rv_id r) (rv_hit x) w) (dk_reviews w))
             (\<lambda>w. w\<lparr>dk_reviews := map (\<lambda>x. if rv_id x = rv_id r then saved_columns out r now x else x) (dk_reviews w)\<rparr>))
       (get_review (rv_id r)))"

record review_filter =
  rf_status :: string
  rf_output :: string
  rf_hit :: string
  rf_run :: string
  rf_strategy :: string
  rf_pid :: string
  rf_symbol :: string
  rf_limit :: int
  rf_offset :: int

text \<open>An empty column is NULL and equals no wanted value.\<close>

definition trimmed_matches :: "string \<Rightarrow> string \<Rightarrow> bool" where
  "trimmed_matches wanted v \<longleftrightarrow> trim_space wanted = [] \<or> v = trim_space wanted"

definition review_matches :: "review_filter \<Rightarrow> review \<Rightarrow> bool" where
  "review_matches f r \<longleftrightarrow>
     trimmed_matches (rf_status f) (rv_status r) \<and> trimmed_matches (rf_output f) (rv_output r) \<and>
     trimmed_matches (rf_hit f) (rv_hit r) \<and> trimmed_matches (rf_run f) (rv_run r) \<and>
     trimmed_matches (rf_strategy f) (rv_strategy r) \<and> trimmed_matches (rf_pid f) (rv_portfolio r) \<and>
     trimmed_matches (rf_symbol f) (rv_symbol r)"

definition list_reviews :: "review_filter \<Rightarrow> review list desk_prog" where
  "list_reviews f = desk_read ''list operation reviews'' (\<lambda>w.
     Inr (page (rf_limit f) (rf_offset f) (newest_first rv_created_at (filter (review_matches f) (dk_reviews w)))))"

definition count_reviews :: "review_filter \<Rightarrow> nat desk_prog" where
  "count_reviews f = desk_read ''count operation reviews'' (\<lambda>w. Inr (length (filter (review_matches f) (dk_reviews w))))"

section \<open>The alert of a hit\<close>

definition evidence_string :: "outside \<Rightarrow> any_map \<Rightarrow> string \<Rightarrow> string" where
  "evidence_string out ev k = string_from_any (out_shortest out) (at_key ev k)"

definition trigger_decision :: "string \<Rightarrow> string" where
  "trigger_decision src =
     (if src = ''agent_confirmed'' then ''agent_confirmed''
      else if src = ''manual_review_confirmed'' then ''manual_review_confirmed''
      else if src = ''deterministic'' then ''deterministic_policy''
      else ''degraded_policy'')"

definition put_when :: "bool \<Rightarrow> any_map \<Rightarrow> any_map \<Rightarrow> any_map" where
  "put_when b kvs m = (if b then put_all kvs m else m)"

definition monitor_alert_evidence ::
  "monitor_hit \<Rightarrow> review \<Rightarrow> agent_run option \<Rightarrow> string \<Rightarrow> string \<Rightarrow> any_map \<Rightarrow> any_map" where
  "monitor_alert_evidence h r agent src reason ev =
     (let e1 = put_all [(''trigger_source'', AnyStr src), (''trigger_decision'', AnyStr (trigger_decision src))] ev;
          e2 = put_when (reason \<noteq> []) [(''degraded_reason'', AnyStr reason), (''agent_status'', AnyStr reason)] e1;
          e3 = put_all [(''monitorHitId'', AnyStr (mh_id h)), (''monitorRunId'', AnyStr (mh_run h)), (''taskType'', AnyStr (mh_task h)),
                 (''reviewId'', AnyStr (rv_id r)), (''reviewStatus'', AnyStr (rv_status r))] e2;
          e4 = put_when (rv_output r \<noteq> []) [(''reviewOutputType'', AnyStr (rv_output r))] e3;
          e5 = put_when (rv_summary r \<noteq> []) [(''reviewResultSummary'', AnyStr (rv_summary r))] e4
      in case agent of
           None \<Rightarrow> e5
         | Some a \<Rightarrow> put_all [(''agentRunId'', AnyStr (ar_id a)), (''agentRunStatus'', AnyStr (ar_status a)),
                      (''decisionLedgerId'', AnyStr (ar_ledger a))] e5)"

definition threshold_key :: "outside \<Rightarrow> any_map \<Rightarrow> string" where
  "threshold_key out ev =
     (let k = evidence_string out ev ''matchedPrefilterType''; t = evidence_string out ev ''matchedThreshold''
      in if k = [] \<and> t = [] then [] else k @ '':'' @ t)"

definition alert_dedupe_key :: "outside \<Rightarrow> monitor_hit \<Rightarrow> any_map \<Rightarrow> string" where
  "alert_dedupe_key out h ev =
     (let action = first_nonblank [evidence_string out ev ''matchedAction'', evidence_string out ev ''matchedActionLabel'',
                     evidence_string out ev ''matchedRuleId''];
          filt = first_nonblank [evidence_string out ev ''matchedPrefilterKey'', evidence_string out ev ''matchedPrefilterType'',
                   threshold_key out ev, evidence_string out ev ''matchedRuleTitle''];
          title = trim_space (mh_title h)
      in join_with ''|'' [''monitor'', trim_space (mh_task h), trim_space (mh_strategy h), trim_space (mh_portfolio h),
           trim_space (mh_symbol h), trim_space (if action = [] then title else action), trim_space (if filt = [] then title else filt)])"

definition alert_in_cooldown :: "alert \<Rightarrow> gtime \<Rightarrow> int \<Rightarrow> bool" where
  "alert_in_cooldown a now cooldown =
     (let seen = (if \<not> time_is_zero (al_last_seen a) then al_last_seen a
                  else if \<not> time_is_zero (al_triggered_at a) then al_triggered_at a else al_created_at a)
      in 0 < cooldown \<and> \<not> time_is_zero seen \<and> \<not> time_add seen (wrap64 (cooldown * second)) < now)"

definition merge_alert_evidence :: "any_map \<Rightarrow> any_map \<Rightarrow> monitor_hit \<Rightarrow> any_map" where
  "merge_alert_evidence old new h =
     put_all [(''lastHitId'', AnyStr (mh_id h)), (''lastRunId'', AnyStr (mh_run h)), (''lastSummary'', AnyStr (mh_summary h)),
       (''lastTitle'', AnyStr (mh_title h))] (put_all new old)"

definition monitor_alert_level :: "string \<Rightarrow> string" where
  "monitor_alert_level src = (if src = ''deterministic'' \<or> src = ''degraded'' then ''warning'' else ''info'')"

text \<open>What both ways of refreshing an alert set, and what a later hit adds.\<close>

definition refreshed_alert :: "monitor_hit \<Rightarrow> review \<Rightarrow> agent_run option \<Rightarrow> string \<Rightarrow> any_map \<Rightarrow> gtime \<Rightarrow> alert \<Rightarrow> alert" where
  "refreshed_alert h r agent src ev now a =
     (let b = a\<lparr>al_review := rv_id r, al_review_status := rv_status r, al_trigger := src, al_level := monitor_alert_level src,
                al_summary := mh_summary h, al_last_seen := now, al_triggered_at := now,
                al_evidence := merge_alert_evidence (al_evidence a) ev h\<rparr>
      in case agent of None \<Rightarrow> b | Some g \<Rightarrow> b\<lparr>al_agent_run := ar_id g, al_ledger := ar_ledger g\<rparr>)"

definition repeated_alert :: "monitor_hit \<Rightarrow> alert \<Rightarrow> alert" where
  "repeated_alert h a = a\<lparr>al_hit := mh_id h, al_run := mh_run h, al_task := mh_task h, al_strategy := mh_strategy h,
     al_portfolio := mh_portfolio h, al_symbol := mh_symbol h, al_market := mh_market h, al_count := al_count a + 1\<rparr>"

definition monitor_alert_title :: string where
  "monitor_alert_title = bytes [231, 155, 145, 230, 142, 167, 230, 143, 144, 233, 134, 146]"

definition fresh_alert ::
  "monitor_hit \<Rightarrow> review \<Rightarrow> agent_run option \<Rightarrow> string \<Rightarrow> string \<Rightarrow> any_map \<Rightarrow> gtime \<Rightarrow> string \<Rightarrow> alert" where
  "fresh_alert h r agent src key ev now i =
     \<lparr>al_id = i, al_watch = [], al_hit = mh_id h, al_run = mh_run h, al_task = mh_task h, al_strategy = mh_strategy h,
      al_portfolio = mh_portfolio h, al_symbol = mh_symbol h, al_market = mh_market h, al_review = rv_id r,
      al_review_status = rv_status r, al_agent_run = (case agent of None \<Rightarrow> [] | Some g \<Rightarrow> ar_id g),
      al_ledger = (case agent of None \<Rightarrow> [] | Some g \<Rightarrow> ar_ledger g), al_trigger = src, al_status = ''open'',
      al_level = monitor_alert_level src,
      al_title = (if trim_space (mh_title h) = [] then monitor_alert_title else trim_space (mh_title h)),
      al_summary = trim_space (mh_summary h), al_dedupe = key, al_evidence = merge_alert_evidence [] ev h, al_count = 1,
      al_first_seen = now, al_last_seen = now, al_triggered_at = now, al_acknowledged_at = 0, al_resolved_at = 0,
      al_created_at = 0, al_updated_at = 0\<rparr>"

definition upsert_monitor_alert ::
  "outside \<Rightarrow> monitor_hit \<Rightarrow> int \<Rightarrow> review \<Rightarrow> agent_run option \<Rightarrow> string \<Rightarrow> string \<Rightarrow> any_map \<Rightarrow> (alert \<times> bool) desk_prog" where
  "upsert_monitor_alert out h cooldown r agent src reason source_ev =
     bindE desk_now (\<lambda>now.
     let ev = monitor_alert_evidence h r agent src reason source_ev; key = alert_dedupe_key out h ev;
         refresh = (\<lambda>a. bindE (update_alert a) (\<lambda>b.
           seqE (update_hit_alert (mh_id h) (al_id b) ''alerted'') (ret (b, False))));
         create = bindE desk_id (\<lambda>i. bindE (insert_alert (fresh_alert h r agent src key ev now i)) (\<lambda>b.
           seqE (update_hit_alert (mh_id h) (al_id b) ''alerted'') (ret (b, True))))
     in bindE (attempt (find_alert_by_key key)) (\<lambda>found.
        case found of
          Inl e \<Rightarrow> if e = ErrAlertNotFound then create else throw e
        | Inr a \<Rightarrow>
            if al_hit a = mh_id h then refresh (refreshed_alert h r agent src ev now a)
            else if alert_in_cooldown a now cooldown then refresh (repeated_alert h (refreshed_alert h r agent src ev now a))
            else create))"

end
