(* ===== verification/Reviews.thy ===== *)
theory Reviews
  imports ReviewTables
begin

text \<open>
  Operation reviews (\<^verbatim>\<open>stockv2/review_service.go\<close>, \<^verbatim>\<open>review_action_service.go\<close>): a review is opened for a
  monitor hit, an agent or a user saves its result, and a user accepts, rejects or defers what the result
  proposes.  A proposed operation is checked by the guardrails when it is saved and again when it is accepted,
  and accepting it records the trade; accepting a strategy patch adds a version to the strategy.
\<close>

section \<open>Opening a review\<close>

text \<open>
  Of the context pack, the parts that the review's links come from.  The market bars, the stock profile and
  the texts only go into the stored context.
\<close>

record context_pack =
  pk_strategy :: "strategy_view option"
  pk_quote :: "latest_quote option"
  pk_portfolio :: "portfolio option"

definition select_candidate :: "string \<Rightarrow> news_candidate option desk_prog" where
  "select_candidate i = desk_read ''get news link candidate'' (\<lambda>w.
     Inr (find (\<lambda>c. nc_id c = trim_space i) (dk_candidates w)))"

definition select_known :: "string \<Rightarrow> (desk \<Rightarrow> string list) \<Rightarrow> string \<Rightarrow> bool desk_prog" where
  "select_known what ids i = desk_read what (\<lambda>w. Inr (i \<in> set (ids w)))"

definition strategy_or_none :: "string \<Rightarrow> strategy_view option desk_prog" where
  "strategy_or_none i =
     (if i = [] then ret None
      else bindE (attempt (get_strategy i)) (\<lambda>r.
        case r of Inr v \<Rightarrow> ret (Some v) | Inl e \<Rightarrow> if e = ErrStrategyNotFound then ret None else throw e))"

definition portfolio_context :: "string \<Rightarrow> portfolio option desk_prog" where
  "portfolio_context pid =
     bindE (attempt (stocked (select_portfolio pid))) (\<lambda>r.
     case r of
       Inl e \<Rightarrow> if e = Stock ErrPortfolioNotFound then ret None else throw e
     | Inr p \<Rightarrow> bindE (stocked (select_valuations pid 1)) (\<lambda>_. bindE (stocked (select_holdings pid)) (\<lambda>_. ret (Some p))))"

definition build_context_pack :: "outside \<Rightarrow> monitor_hit \<Rightarrow> context_pack desk_prog" where
  "build_context_pack out h =
     (let cid = evidence_string out (mh_evidence h) ''candidate_id''; nid = evidence_string out (mh_evidence h) ''news_event_id'' in
      bindE (if cid = [] then ret None else select_candidate cid) (\<lambda>cand.
      let sym0 = trim_space (mh_symbol h);
          sym1 = (case cand of Some c \<Rightarrow> if sym0 = [] then nc_symbol c else sym0 | None \<Rightarrow> sym0);
          event = (if nid \<noteq> [] then nid else case cand of Some c \<Rightarrow> nc_event c | None \<Rightarrow> [])
      in
      bindE (if event = [] then ret False else select_known ''get news event'' dk_news_events event) (\<lambda>has_event.
      bindE (strategy_or_none (mh_strategy h)) (\<lambda>sw.
      let sym2 = (case sw of Some v \<Rightarrow> if sym1 = [] then sg_symbol (sw_strategy v) else sym1 | None \<Rightarrow> sym1);
          pid0 = trim_space (mh_portfolio h);
          pid = (case sw of Some v \<Rightarrow> if pid0 = [] then sg_portfolio (sw_strategy v) else pid0 | None \<Rightarrow> pid0)
      in
      bindE (if sym2 = [] then ret None else latest_quote_of sym2) (\<lambda>q.
      bindE (if sym2 \<noteq> [] \<and> has_event then select_known ''get stock profile'' dk_profiles sym2 else ret False) (\<lambda>_.
      bindE (if pid = [] then ret None else portfolio_context pid) (\<lambda>p.
      ret \<lparr>pk_strategy = sw, pk_quote = q, pk_portfolio = p\<rparr>)))))))"

definition or_else :: "string \<Rightarrow> string option \<Rightarrow> string" where
  "or_else s t = (if s = [] then (case t of Some x \<Rightarrow> x | None \<Rightarrow> []) else s)"

text \<open>The strategy, portfolio, symbol and market a review is linked to.\<close>

definition review_linkage :: "monitor_hit \<Rightarrow> context_pack \<Rightarrow> string \<times> string \<times> string \<times> string" where
  "review_linkage h p =
     (let s = map_option sw_strategy (pk_strategy p);
          sid = or_else (trim_space (mh_strategy h)) (map_option sg_id s);
          pid = or_else (or_else (trim_space (mh_portfolio h)) (map_option sg_portfolio s)) (map_option pf_id (pk_portfolio p));
          code = or_else (or_else (trim_space (mh_symbol h)) (map_option sg_symbol s)) (map_option qt_symbol (pk_quote p));
          market = or_else (or_else (trim_space (mh_market h)) (map_option sg_market s)) (map_option lq_market (pk_quote p))
      in (sid, pid, code, market))"

definition new_review :: "monitor_hit \<Rightarrow> context_pack \<Rightarrow> string \<Rightarrow> gtime \<Rightarrow> review" where
  "new_review h p i now =
     (let (sid, pid, code, market) = review_linkage h p
      in \<lparr>rv_id = i, rv_hit = mh_id h, rv_run = mh_run h, rv_status = ''pending'', rv_output = [], rv_strategy = sid,
          rv_portfolio = pid, rv_symbol = code, rv_market = market, rv_result = [], rv_summary = [], rv_error = [],
          rv_created_at = now, rv_updated_at = now, rv_completed_at = 0, rv_closed_at = 0\<rparr>)"

definition create_review_from_hit :: "outside \<Rightarrow> string \<Rightarrow> review desk_prog" where
  "create_review_from_hit out hid =
     bindE (get_hit (trim_space hid)) (\<lambda>h.
     bindE (active_review_of_hit (mh_id h)) (\<lambda>active.
     case active of
       Some r \<Rightarrow> ret r
     | None \<Rightarrow>
         bindE (build_context_pack out h) (\<lambda>p.
         bindE desk_now (\<lambda>now.
         bindE desk_id (\<lambda>i.
         bindE (attempt (insert_review out (new_review h p i now))) (\<lambda>made.
         case made of
           Inr r \<Rightarrow> seqE (increment_review_count (mh_run h)) (ret r)
         | Inl e \<Rightarrow>
             bindE (attempt (active_review_of_hit (mh_id h))) (\<lambda>again :: desk_error + review option.
             case again of Inr (Some r) \<Rightarrow> ret r | _ \<Rightarrow> throw e)))))))"

section \<open>Proposed operations\<close>

definition raw_operation :: "any_map \<Rightarrow> any_map" where
  "raw_operation m =
     (if map_from_any (at_key m ''proposedOperation'') \<noteq> [] then map_from_any (at_key m ''proposedOperation'')
      else if map_from_any (at_key m ''operation'') \<noteq> [] then map_from_any (at_key m ''operation'')
      else m)"

definition proposed_operation :: "any_map \<Rightarrow> review \<Rightarrow> desk_error + operation" where
  "proposed_operation m r =
     (let raw = raw_operation m;
          p = normalize_operation
            \<lparr>op_action = first_rule_string raw [''action'', ''operation'', ''type''],
             op_portfolio = first_nonblank [first_rule_string raw [''portfolioId'', ''portfolioID''], rv_portfolio r],
             op_symbol = first_nonblank [first_rule_string raw [''symbol''], rv_symbol r],
             op_market = first_nonblank [first_rule_string raw [''market''], rv_market r],
             op_quantity = first_rule_number raw [''quantity'', ''shares''],
             op_amount = first_rule_number raw [''amount'', ''notional''],
             op_price = first_rule_number raw [''price'', ''limitPrice'', ''estimatedPrice''],
             op_target_pct = first_rule_number raw [''targetPortfolioPct'', ''targetWeight'']\<rparr>
      in if op_action p = [] then Inl ErrInvalidProposedOperation else Inr p)"

definition filled_operation :: "review \<Rightarrow> operation \<Rightarrow> operation" where
  "filled_operation r p =
     (let p1 = (if op_portfolio p = [] then p\<lparr>op_portfolio := rv_portfolio r\<rparr> else p);
          p2 = (if op_symbol p1 = [] then p1\<lparr>op_symbol := rv_symbol r\<rparr> else p1);
          p3 = (if op_market p2 = [] then p2\<lparr>op_market := first_nonblank [rv_market r, infer_market (op_symbol p2)]\<rparr> else p2)
      in normalize_operation p3)"

definition no_portfolio :: portfolio where
  "no_portfolio = \<lparr>pf_id = [], pf_name = [], pf_description = [], pf_cash = f0, pf_risk = [], pf_max_single_pct = f0,
     pf_max_drawdown_pct = f0, pf_allow_buy = False, pf_allow_add = False, pf_allow_reduce = False, pf_allow_sell = False,
     pf_notes = [], pf_created_at = 0, pf_updated_at = 0\<rparr>"

text \<open>A portfolio that does not exist is left empty; any other failure is returned.\<close>

definition guard_portfolio :: "string \<Rightarrow> (portfolio \<times> holding list \<times> valuation option) desk_prog" where
  "guard_portfolio pid =
     (if pid = [] then ret (no_portfolio, [], None)
      else bindE (attempt (stocked (select_portfolio pid))) (\<lambda>r.
        case r of
          Inl e \<Rightarrow> if e = Stock ErrPortfolioNotFound then ret (no_portfolio, [], None) else throw e
        | Inr p \<Rightarrow>
            bindE (stocked (select_holdings pid)) (\<lambda>hs.
            bindE (stocked (select_valuations pid 1)) (\<lambda>vs.
              ret (p, hs, (case vs of [] \<Rightarrow> None | v # _ \<Rightarrow> Some v))))))"

definition guardrails_input :: "review \<Rightarrow> operation \<Rightarrow> guard_input desk_prog" where
  "guardrails_input r p0 =
     (let p = filled_operation r p0 in
      bindE (guard_portfolio (op_portfolio p)) (\<lambda>(pf, hs, snap).
      bindE (if op_symbol p = [] then ret None else latest_quote_of (op_symbol p)) (\<lambda>q.
        ret \<lparr>gi_operation = p, gi_portfolio = pf, gi_snapshot = snap, gi_holdings = hs, gi_quote = map_option quote.truncate q\<rparr>)))"

text \<open>What the structs marshal to; fields marked \<^verbatim>\<open>omitempty\<close> are left out when they are zero.\<close>

definition unless_empty :: "string \<Rightarrow> string \<Rightarrow> any_map" where
  "unless_empty k v = (if v = [] then [] else [(k, AnyStr v)])"

definition unless_zero :: "string \<Rightarrow> f64 \<Rightarrow> any_map" where
  "unless_zero k x = (if x = f0 then [] else [(k, AnyNum x)])"

definition operation_any :: "operation \<Rightarrow> any" where
  "operation_any p =
     AnyMap ([(''action'', AnyStr (op_action p))] @ unless_empty ''portfolioId'' (op_portfolio p) @ unless_empty ''symbol'' (op_symbol p) @
       unless_empty ''market'' (op_market p) @ unless_zero ''quantity'' (op_quantity p) @ unless_zero ''amount'' (op_amount p) @
       unless_zero ''price'' (op_price p) @ unless_zero ''targetPortfolioPct'' (op_target_pct p))"

definition reason_any :: "guard_reason \<Rightarrow> any" where
  "reason_any r =
     AnyMap ([(''code'', AnyStr (gr_code r)), (''status'', AnyStr (gr_status r))] @
       (if gr_evidence r = [] then [] else [(''evidence'', AnyMap (gr_evidence r))]))"

definition guardrails_any :: "guard_result \<Rightarrow> any" where
  "guardrails_any g =
     AnyMap ([(''status'', AnyStr (gu_status g))] @
       (if gu_reasons g = [] then [] else [(''reasons'', AnyList (map reason_any (gu_reasons g)))]) @
       [(''checkedAt'', AnyTime (gu_checked_at g))])"

section \<open>Saving a result\<close>

definition apply_operation_guardrails :: "review \<Rightarrow> any_map \<Rightarrow> any_map desk_prog" where
  "apply_operation_guardrails r m =
     (case proposed_operation m r of
        Inl e \<Rightarrow> throw e
      | Inr p \<Rightarrow>
          bindE (guardrails_input r p) (\<lambda>i.
          bindE desk_now (\<lambda>now.
          let g = evaluate_guardrails i now in
          ret (put_all [(''proposedOperation'', operation_any (gi_operation i)), (''guardrails'', guardrails_any g),
                (''acceptanceStatus'', AnyStr (if gu_status g = ''blocked'' then ''blocked''
                   else if gu_status g = ''degraded'' then ''pending_guardrail_review'' else ''pending_confirmation''))] m))))"

definition pending_strategy_patch :: "any_map \<Rightarrow> any_map" where
  "pending_strategy_patch m =
     (let m1 = put_when (at_key m ''acceptanceStatus'' = None) [(''acceptanceStatus'', AnyStr ''pending'')] m
      in put_when (at_key m1 ''strategyPatchStatus'' = None) [(''strategyPatchStatus'', AnyStr ''pending_acceptance'')] m1)"

definition acceptance_terminal :: "any_map \<Rightarrow> bool" where
  "acceptance_terminal m \<longleftrightarrow>
     first_rule_string m [''acceptanceStatus''] = ''accepted'' \<or> first_rule_string m [''acceptanceStatus''] = ''rejected''"

definition valid_review_status :: "string \<Rightarrow> bool" where
  "valid_review_status s \<longleftrightarrow> s \<in> {''pending'', ''running'', ''completed'', ''failed'', ''closed''}"

definition valid_output_type :: "string \<Rightarrow> bool" where
  "valid_output_type s \<longleftrightarrow> s \<in> {''trade_signal'', ''proposed_operation'', ''strategy_patch'', ''ignore'', ''continue_monitoring''}"

record save_request =
  sv_output :: string
  sv_result :: any_map
  sv_summary :: string
  sv_status :: string
  sv_error :: string

definition normalize_review_result :: "save_request \<Rightarrow> desk_error + (string \<times> string)" where
  "normalize_review_result rq =
     (let status = or_default (sv_status rq) ''completed''; output = trim_space (sv_output rq)
      in if \<not> valid_review_status status then Inl ErrInvalidOperationReviewStatus
         else if output = [] \<and> status = ''completed'' then Inl ErrInvalidOperationReviewOutputType
         else if output \<noteq> [] \<and> \<not> valid_output_type output then Inl ErrInvalidOperationReviewOutputType
         else Inr (status, output))"

definition output_raises_alert :: "string \<Rightarrow> bool" where
  "output_raises_alert s \<longleftrightarrow> s = ''trade_signal'' \<or> s = ''proposed_operation'' \<or> s = ''strategy_patch''"

definition output_suppresses_alert :: "string \<Rightarrow> bool" where
  "output_suppresses_alert s \<longleftrightarrow> s = ''ignore'' \<or> s = ''continue_monitoring''"

text \<open>The cooldown of a task: an hour for the sentinel, else the stored configuration or the built-in one.\<close>

definition task_cooldown :: "string \<Rightarrow> int desk_prog" where
  "task_cooldown task =
     (if task = ''portfolio_sentinel'' then ret 3600
      else if task = ''latest_quote_refresh'' \<or> task = ''data_strategy_monitor'' then
        desk_read ''get monitor task config'' (\<lambda>w.
          Inr (case map_of (dk_cooldowns w) task of
                 Some c \<Rightarrow> c
               | None \<Rightarrow> if task = ''latest_quote_refresh'' then 0 else 1800))
      else throw ErrInvalidMonitorTaskType)"

definition suppress_alert :: "monitor_hit \<Rightarrow> review \<Rightarrow> unit desk_prog" where
  "suppress_alert h r =
     (if \<not> output_suppresses_alert (rv_output r) \<or> trim_space (mh_alert h) = [] then ret ()
      else bindE (attempt (get_alert (mh_alert h))) (\<lambda>found.
        case found of
          Inl e \<Rightarrow> if e = ErrAlertNotFound then ret () else throw e
        | Inr a \<Rightarrow>
            bindE desk_now (\<lambda>now.
            let b = (if rv_output r = ''ignore'' then a\<lparr>al_status := ''ignored'', al_acknowledged_at := now\<rparr>
                     else a\<lparr>al_status := ''resolved'', al_resolved_at := now\<rparr>);
                c = b\<lparr>al_review_status := rv_status r,
                      al_evidence := put_all [(''reviewOutputType'', AnyStr (rv_output r)),
                        (''reviewResultSummary'', AnyStr (rv_summary r)), (''trigger_decision'', AnyStr (rv_output r))] (al_evidence b)\<rparr>
            in bindE (update_alert c) (\<lambda>_. ret ()))))"

text \<open>The lookup of the agent run may fail without consequence.\<close>

definition agent_of_review :: "agent_run option \<Rightarrow> string \<Rightarrow> agent_run option desk_prog" where
  "agent_of_review given rid =
     (case given of
        Some a \<Rightarrow> ret (Some a)
      | None \<Rightarrow> bindE (attempt (completed_agent_run rid)) (\<lambda>r :: desk_error + agent_run option.
          ret (case r of Inl _ \<Rightarrow> None | Inr a \<Rightarrow> a)))"

definition raise_review_alert :: "outside \<Rightarrow> monitor_hit \<Rightarrow> review \<Rightarrow> agent_run option \<Rightarrow> unit desk_prog" where
  "raise_review_alert out h r given =
     bindE (task_cooldown (mh_task h)) (\<lambda>cooldown.
     bindE (agent_of_review given (rv_id r)) (\<lambda>agent.
     bindE (upsert_monitor_alert out h cooldown r agent
              (if agent = None then ''manual_review_confirmed'' else ''agent_confirmed'') []
              (put_all [(''reviewOutputType'', AnyStr (rv_output r)), (''reviewResultSummary'', AnyStr (rv_summary r))] (mh_evidence h))) (\<lambda>_.
     seqE (whenE (mh_alert h = []) (increment_alert_count (mh_run h)))
       (update_hit_status (mh_id h) ''reviewed''))))"

definition sync_alert :: "outside \<Rightarrow> review \<Rightarrow> agent_run option \<Rightarrow> unit desk_prog" where
  "sync_alert out r given =
     (if trim_space (rv_hit r) = [] \<or> (rv_status r \<noteq> ''completed'' \<and> rv_status r \<noteq> ''closed'') then ret ()
      else bindE (get_hit (rv_hit r)) (\<lambda>h.
        if output_raises_alert (rv_output r) then raise_review_alert out h r given else suppress_alert h r))"

definition result_to_save :: "review \<Rightarrow> string \<Rightarrow> any_map \<Rightarrow> any_map desk_prog" where
  "result_to_save r output m =
     (if output = ''proposed_operation'' then apply_operation_guardrails r m
      else if output = ''strategy_patch'' then ret (pending_strategy_patch m)
      else ret m)"

text \<open>\<^verbatim>\<open>time.Now()\<close> is read before the guardrails run.\<close>

definition save_review_result :: "outside \<Rightarrow> string \<Rightarrow> save_request \<Rightarrow> agent_run option \<Rightarrow> review desk_prog" where
  "save_review_result out i rq agent =
     bindE (get_review i) (\<lambda>current.
     if acceptance_terminal (rv_result current) then throw ErrInvalidOperationReviewAction
     else case normalize_review_result rq of
       Inl e \<Rightarrow> throw e
     | Inr (status, output) \<Rightarrow>
         bindE desk_now (\<lambda>now.
         let r0 = current\<lparr>rv_status := status, rv_output := output\<rparr> in
         bindE (result_to_save r0 output (sv_result rq)) (\<lambda>m.
         let r1 = r0\<lparr>rv_result := m, rv_summary := trim_space (sv_summary rq), rv_error := trim_space (sv_error rq)\<rparr>;
             r2 = (if status = ''completed'' \<or> status = ''failed'' then r1\<lparr>rv_completed_at := now\<rparr> else r1);
             r3 = (if status = ''closed'' then r2\<lparr>rv_closed_at := now,
                     rv_completed_at := (if time_is_zero (rv_completed_at r2) then now else rv_completed_at r2)\<rparr> else r2)
         in bindE (save_review_row out r3) (\<lambda>saved.
            seqE (whenE (status = ''completed'' \<or> status = ''closed'')
                   (seqE (update_hit_status (rv_hit current) (if output = ''ignore'' then ''ignored'' else ''reviewed''))
                     (sync_alert out saved agent)))
              (ret saved)))))"

section \<open>Deciding on a result\<close>

record action_request =
  aq_reason :: string
  aq_executed_at :: string
  aq_price :: f64
  aq_quantity :: f64

definition actionable_review :: "string \<Rightarrow> review desk_prog" where
  "actionable_review i =
     bindE (get_review (trim_space i)) (\<lambda>r.
     if rv_status r \<noteq> ''completed'' then throw ErrInvalidOperationReviewStatus
     else if rv_output r \<noteq> ''proposed_operation'' \<and> rv_output r \<noteq> ''strategy_patch'' then throw ErrInvalidOperationReviewOutputType
     else ret r)"

definition update_review_alert :: "review \<Rightarrow> string \<Rightarrow> unit desk_prog" where
  "update_review_alert r status =
     (if trim_space (rv_hit r) = [] then ret ()
      else bindE (get_hit (rv_hit r)) (\<lambda>h.
        if trim_space (mh_alert h) = [] then ret ()
        else bindE (attempt (set_alert_status (mh_alert h) status)) (\<lambda>done.
          case done of Inr _ \<Rightarrow> ret () | Inl e \<Rightarrow> if e = ErrAlertNotFound then ret () else throw e)))"

definition decision_fields :: "review \<Rightarrow> string \<Rightarrow> string \<Rightarrow> gtime \<Rightarrow> any_map" where
  "decision_fields r status reason now =
     [(''acceptanceStatus'', AnyStr status)] @
     (if status = ''accepted'' then [(''acceptedAt'', AnyTime now)]
      else if status = ''rejected'' then
        [(''rejectedAt'', AnyTime now), (''rejectReason'', AnyStr (trim_space reason))] @
        (if rv_output r = ''strategy_patch'' then [(''strategyPatchStatus'', AnyStr ''rejected'')] else [])
      else if status = ''deferred'' then
        [(''deferredAt'', AnyTime now), (''deferReason'', AnyStr (trim_space reason))] @
        (if rv_output r = ''strategy_patch'' then [(''strategyPatchStatus'', AnyStr ''deferred'')] else [])
      else [])"

definition save_acceptance :: "outside \<Rightarrow> review \<Rightarrow> string \<Rightarrow> string \<Rightarrow> any_map \<Rightarrow> string \<Rightarrow> review desk_prog" where
  "save_acceptance out r status reason extra alert_status =
     bindE desk_now (\<lambda>now.
     let r1 = r\<lparr>rv_result := put_all extra (put_all (decision_fields r status reason now) (rv_result r))\<rparr> in
     bindE (save_review_row out r1) (\<lambda>saved.
     seqE (whenE (trim_space (rv_hit r) \<noteq> []) (update_hit_status (rv_hit r) ''reviewed''))
    (seqE (whenE (alert_status \<noteq> []) (update_review_alert r1 alert_status))
     (ret saved))))"

text \<open>The first run of digits, points and a leading minus sign.\<close>

definition price_char :: "char \<Rightarrow> bool" where
  "price_char c \<longleftrightarrow> is_digit c \<or> c = CHR ''.''"

definition numeric_token :: "string \<Rightarrow> f64" where
  "numeric_token v =
     (let s = dropWhile (\<lambda>c. \<not> price_char c \<and> c \<noteq> CHR ''-'') (trim_space v)
      in parse_float (case s of [] \<Rightarrow> [] | c # t \<Rightarrow> c # takeWhile price_char t))"

definition review_price :: "review \<Rightarrow> operation \<Rightarrow> f64 \<Rightarrow> f64 desk_prog" where
  "review_price r p override =
     (if fpos override then ret override
      else if fpos (op_price p) then ret (op_price p)
      else bindE (if op_symbol p = [] then ret None else latest_quote_of (op_symbol p)) (\<lambda>q.
        let raw = raw_operation (rv_result r); basis = first_rule_number raw [''priceBasis''];
            token = numeric_token (first_rule_string raw [''priceBasis'', ''price_basis''])
        in case q of
             Some x \<Rightarrow> if fpos (qt_last_price x) then ret (qt_last_price x)
                       else if fpos basis then ret basis else if fpos token then ret token else throw ErrInvalidProposedOperation
           | None \<Rightarrow> if fpos basis then ret basis else if fpos token then ret token else throw ErrInvalidProposedOperation))"

definition review_trade_name :: "outside \<Rightarrow> review \<Rightarrow> operation \<Rightarrow> string" where
  "review_trade_name out r p =
     (let name = first_rule_string (raw_operation (rv_result r)) [''name'']
      in if name \<noteq> [] then name else if op_symbol p = [] then [] else fst (out_instrument out (op_symbol p)))"

definition alert_of_review :: "review \<Rightarrow> string desk_prog" where
  "alert_of_review r =
     (if trim_space (rv_hit r) = [] then ret []
      else bindE (attempt (get_hit (rv_hit r))) (\<lambda>h :: desk_error + monitor_hit.
        ret (case h of Inl _ \<Rightarrow> [] | Inr x \<Rightarrow> trim_space (mh_alert x))))"

definition trade_note :: "review \<Rightarrow> string \<Rightarrow> string \<Rightarrow> string" where
  "trade_note r status alert_id =
     join_with ''; '' ([''source=operation_review'', ''reviewId='' @ rv_id r, ''hitId='' @ rv_hit r, ''guardrails='' @ status] @
       (if alert_id = [] then [] else [''alertId='' @ alert_id]) @
       (if trim_space (rv_summary r) = [] then [] else [''summary='' @ trim_space (rv_summary r)]))"

definition side_of_action :: "string \<Rightarrow> desk_error + string" where
  "side_of_action a =
     (let n = normalize_action a in
      if is_buy n then Inr ''buy'' else if is_sell n then Inr ''sell'' else Inl ErrInvalidProposedOperation)"

text \<open>The portfolio before and after a trade, for the record; what cannot be read is left out.\<close>

definition holding_any :: "holding \<Rightarrow> any" where
  "holding_any h = AnyMap [(''symbol'', AnyStr (hd_symbol h)), (''market'', AnyStr (hd_market h)), (''name'', AnyStr (hd_name h)),
     (''quantity'', AnyNum (hd_quantity h)), (''availableQuantity'', AnyNum (hd_available h)), (''costPrice'', AnyNum (hd_cost h)),
     (''lastPrice'', AnyNum (hd_last_price h)), (''marketValue'', AnyNum (hd_market_value h)), (''pnl'', AnyNum (hd_pnl h)),
     (''positionPct'', AnyNum (hd_position_pct h)), (''tradableStatus'', AnyStr (hd_status h))]"

definition snapshot_any :: "valuation \<Rightarrow> any" where
  "snapshot_any v = AnyMap [(''id'', AnyStr (vl_id v)), (''valuationAt'', AnyTime (vl_at v)), (''cash'', AnyNum (vl_cash v)),
     (''holdingMarketValue'', AnyNum (vl_holding_value v)), (''totalAssetValue'', AnyNum (vl_total v)), (''cashPct'', AnyNum (vl_cash_pct v)),
     (''positionCount'', AnyInt (int (vl_positions v))), (''staleQuoteCount'', AnyInt (int (vl_stale v))),
     (''estimatedQuoteCount'', AnyInt (int (vl_estimated v))), (''status'', AnyStr (vl_status v)), (''source'', AnyStr (vl_source v))]"

definition trace_state :: "string \<Rightarrow> string \<Rightarrow> any_map desk_prog" where
  "trace_state pid code =
     bindE (attempt (stocked (select_portfolio pid))) (\<lambda>p :: desk_error + portfolio.
     bindE (attempt (stocked (select_holdings pid))) (\<lambda>hs :: desk_error + holding list.
     bindE (attempt (stocked (select_valuations pid 1))) (\<lambda>vs :: desk_error + valuation list.
     ret ((case p of Inl _ \<Rightarrow> []
           | Inr x \<Rightarrow> [(''cash'', AnyNum (pf_cash x)), (''riskLevel'', AnyStr (pf_risk x)), (''maxSinglePositionPct'', AnyNum (pf_max_single_pct x))]) @
          (case hs of Inl _ \<Rightarrow> []
           | Inr ys \<Rightarrow> (case find_holding ys code of None \<Rightarrow> [] | Some h \<Rightarrow> [(''holding'', holding_any h)])) @
          (case vs of Inr (v # _) \<Rightarrow> [(''snapshot'', snapshot_any v)] | _ \<Rightarrow> [])))))"

definition trade_any :: "trade \<Rightarrow> any" where
  "trade_any x =
     AnyMap ([(''id'', AnyStr (td_id x)), (''portfolioId'', AnyStr (td_portfolio x)), (''symbol'', AnyStr (td_symbol x))] @
       unless_empty ''market'' (td_market x) @ unless_empty ''name'' (td_name x) @
       [(''side'', AnyStr (td_side x)), (''quantity'', AnyNum (td_quantity x)), (''price'', AnyNum (td_price x)),
        (''amount'', AnyNum (td_amount x)), (''executedAt'', AnyTime (td_executed_at x))] @ unless_empty ''note'' (td_note x) @
       [(''createdAt'', AnyTime (td_created_at x))])"

text \<open>Checking an operation once more, recording its trade and noting what it did.\<close>

definition execute_operation :: "outside \<Rightarrow> review \<Rightarrow> operation \<Rightarrow> string \<Rightarrow> string \<Rightarrow> any_map desk_prog" where
  "execute_operation out r p side executed_at =
     bindE (guardrails_input r p) (\<lambda>i.
     bindE desk_now (\<lambda>now.
     let g = evaluate_guardrails i now in
     if gu_status g = ''blocked'' then throw ErrInvalidProposedOperation
     else
       bindE (trace_state (op_portfolio p) (op_symbol p)) (\<lambda>before.
       bindE (alert_of_review r) (\<lambda>alert_id.
       bindE (stocked (record_transaction (out_lower out) (out_fetch out) (out_instrument out) (op_portfolio p)
                \<lparr>tr_symbol = op_symbol p, tr_market = op_market p, tr_name = review_trade_name out r p, tr_side = side,
                 tr_quantity = op_quantity p, tr_price = op_price p, tr_executed_at = trim_space executed_at,
                 tr_note = trade_note r (gu_status g) alert_id\<rparr>)) (\<lambda>t.
       bindE (trace_state (op_portfolio p) (op_symbol p)) (\<lambda>after.
       ret [(''transactionId'', AnyStr (td_id (tt_trade t))), (''transaction'', trade_any (tt_trade t)),
            (''transactionImpact'', AnyMap [(''before'', AnyMap before), (''after'', AnyMap after), (''holdingCleared'', AnyBool (tt_cleared t))]),
            (''guardrails'', guardrails_any g)]))))))"

text \<open>The quantity that is traded: the user's, the operation's, or its amount at the price.\<close>

definition traded_quantity :: "f64 \<Rightarrow> operation \<Rightarrow> f64 \<Rightarrow> f64" where
  "traded_quantity wanted p price =
     (let q = (if fle wanted f0 then op_quantity p else wanted)
      in if fle q f0 \<and> fpos (op_amount p) \<and> fpos price then fdiv (op_amount p) price else q)"

definition accept_operation :: "outside \<Rightarrow> review \<Rightarrow> action_request \<Rightarrow> review desk_prog" where
  "accept_operation out r rq =
     (let status = first_rule_string (map_from_any (at_key (rv_result r) ''guardrails'')) [''status''] in
      if trim_space (rv_portfolio r) = [] \<or> (status \<noteq> ''pass'' \<and> status \<noteq> ''degraded'') then throw ErrInvalidProposedOperation
      else case proposed_operation (rv_result r) r of
        Inl e \<Rightarrow> throw e
      | Inr p0 \<Rightarrow>
          (let p = filled_operation r p0 in
           case side_of_action (op_action p) of
             Inl e \<Rightarrow> throw e
           | Inr side \<Rightarrow>
               bindE (review_price r p (aq_price rq)) (\<lambda>price.
               let q = traded_quantity (aq_quantity rq) p price in
               if fle q f0 then throw ErrInvalidProposedOperation
               else
                 bindE (execute_operation out r (p\<lparr>op_quantity := q, op_price := price, op_amount := fmul q price\<rparr>) side (aq_executed_at rq))
                   (\<lambda>extra. save_acceptance out r ''accepted'' [] extra ''resolved''))))"

section \<open>Strategy patches\<close>

definition strategy_patch_of :: "any_map \<Rightarrow> any_map" where
  "strategy_patch_of m =
     (if map_from_any (at_key m ''strategyPatch'') \<noteq> [] then map_from_any (at_key m ''strategyPatch'')
      else if map_from_any (at_key m ''patch'') \<noteq> [] then map_from_any (at_key m ''patch'')
      else m)"

text \<open>The separators of a text with several conditions: line feed, comma, semicolon and their full-width forms.\<close>

definition condition_separator :: "string \<Rightarrow> bool" where
  "condition_separator r \<longleftrightarrow> r = [char_of (10 :: nat)] \<or> r = '','' \<or> r = '';'' \<or> r = bytes [239, 188, 140] \<or> r = bytes [239, 188, 155]"

fun split_conditions :: "string \<Rightarrow> string list \<Rightarrow> string list" where
  "split_conditions acc [] = (if acc = [] then [] else [acc])"
| "split_conditions acc (r # rs) =
     (if condition_separator r then (if acc = [] then [] else [acc]) @ split_conditions [] rs
      else split_conditions (acc @ r) rs)"

text \<open>A value in a list is printed by \<^verbatim>\<open>fmt.Sprint\<close>: a text as it is, others by the parameter.\<close>

definition any_text :: "outside \<Rightarrow> any \<Rightarrow> string" where
  "any_text out v = (case v of AnyStr s \<Rightarrow> s | _ \<Rightarrow> out_print out v)"

definition string_list_from_any :: "outside \<Rightarrow> any option \<Rightarrow> string list option" where
  "string_list_from_any out v =
     (case v of
        Some (AnyList vs) \<Rightarrow> Some (clean_string_list (map (any_text out) vs))
      | Some (AnyStr s) \<Rightarrow> Some (clean_string_list (split_conditions [] (runes s)))
      | _ \<Rightarrow> None)"

definition non_blank_or :: "string \<Rightarrow> string \<Rightarrow> string" where
  "non_blank_or s old = (if s = [] then old else s)"

definition apply_strategy_patch :: "outside \<Rightarrow> any_map \<Rightarrow> strategy_version \<Rightarrow> strategy_version" where
  "apply_strategy_patch out m v =
     v\<lparr>sv_title := non_blank_or (first_rule_string m [''title'']) (sv_title v),
       sv_thesis := non_blank_or (first_rule_string m [''thesis'']) (sv_thesis v),
       sv_direction := non_blank_or (first_rule_string m [''direction'']) (sv_direction v),
       sv_entry := bool_default (string_list_from_any out (at_key m ''entryConditions'')) (sv_entry v),
       sv_exit := bool_default (string_list_from_any out (at_key m ''exitConditions'')) (sv_exit v),
       sv_risk_notes := non_blank_or (first_rule_string m [''riskNotes'']) (sv_risk_notes v),
       sv_meta := (let g = map_from_any (at_key m ''generationMeta'') in if g = [] then sv_meta v else g)\<rparr>"

definition accept_strategy_patch :: "outside \<Rightarrow> review \<Rightarrow> review desk_prog" where
  "accept_strategy_patch out r =
     (if trim_space (rv_strategy r) = [] then throw ErrInvalidOperationReviewAction
      else bindE (get_strategy (rv_strategy r)) (\<lambda>s.
        case sw_version s of
          None \<Rightarrow> throw ErrStrategyVersionNotFound
        | Some active \<Rightarrow>
            (let patch = strategy_patch_of (rv_result r); next_version = apply_strategy_patch out patch active in
             if patch = [] then throw ErrInvalidOperationReviewAction
             else if \<not> valid_direction (sv_direction next_version) then throw ErrInvalidStrategyDirection
             else
               bindE (agent_of_review None (rv_id r)) (\<lambda>agent.
               bindE (update_strategy_with_version (sw_strategy s)
                        (Some (next_version\<lparr>sv_id := [], sv_strategy := sg_id (sw_strategy s), sv_no := 0, sv_created_at := 0,
                           sv_created_by := (if agent = None then ''review'' else ''agent_review'')\<rparr>))) (\<lambda>updated.
               save_acceptance out r ''accepted'' []
                 [(''newVersionId'', AnyStr (case sw_version updated of None \<Rightarrow> [] | Some v \<Rightarrow> sv_id v)),
                  (''strategyPatchStatus'', AnyStr ''accepted'')] ''resolved'')))))"

section \<open>The three decisions\<close>

definition accept_review :: "outside \<Rightarrow> string \<Rightarrow> action_request \<Rightarrow> review desk_prog" where
  "accept_review out i rq =
     bindE (actionable_review i) (\<lambda>r.
     if acceptance_terminal (rv_result r) then throw ErrInvalidOperationReviewAction
     else if rv_output r = ''proposed_operation'' then accept_operation out r rq
     else accept_strategy_patch out r)"

definition reject_review :: "outside \<Rightarrow> string \<Rightarrow> action_request \<Rightarrow> review desk_prog" where
  "reject_review out i rq =
     bindE (actionable_review i) (\<lambda>r.
     if acceptance_terminal (rv_result r) then throw ErrInvalidOperationReviewAction
     else save_acceptance out r ''rejected'' (aq_reason rq) [] ''ignored'')"

definition defer_review :: "outside \<Rightarrow> string \<Rightarrow> action_request \<Rightarrow> review desk_prog" where
  "defer_review out i rq =
     bindE (actionable_review i) (\<lambda>r.
     if acceptance_terminal (rv_result r) then throw ErrInvalidOperationReviewAction
     else save_acceptance out r ''deferred'' (aq_reason rq) [] ''acknowledged'')"

end
