(* ===== verification/Watches.thy ===== *)
theory Watches
  imports ReviewTables
begin

text \<open>
  Watches and their alerts (\<^verbatim>\<open>stockv2/watch_service.go\<close>, \<^verbatim>\<open>watch_repository.go\<close>, \<^verbatim>\<open>watch_evaluator.go\<close>): a
  watch holds trigger rules on quotes, daily closes and portfolio weights; a run evaluates them, records the
  outcome, and raises an alert when they match, unless one with the same key is live or cooling down.
\<close>

section \<open>Statements\<close>

definition watch_row :: "watch \<Rightarrow> watch" where
  "watch_row x = x\<lparr>wt_symbol := null_text (wt_symbol x), wt_market := null_text (wt_market x), wt_portfolio := null_text (wt_portfolio x),
     wt_strategy := null_text (wt_strategy x), wt_version := null_text (wt_version x), wt_config := stored_map (wt_config x),
     wt_run_status := null_text (wt_run_status x), wt_run_reason := null_text (wt_run_reason x)\<rparr>"

definition has_watch :: "string \<Rightarrow> desk \<Rightarrow> bool" where
  "has_watch i w \<longleftrightarrow> i \<in> set (map wt_id (dk_watches w))"

text \<open>The foreign keys of a watch.\<close>

definition watch_links_ok :: "watch \<Rightarrow> desk \<Rightarrow> bool" where
  "watch_links_ok x w \<longleftrightarrow>
     desk_portfolio w (null_text (wt_portfolio x)) \<and>
     (null_text (wt_strategy x) = [] \<or> has_strategy (null_text (wt_strategy x)) w) \<and>
     (null_text (wt_version x) = [] \<or> null_text (wt_version x) \<in> set (map sv_id (dk_versions w)))"

definition insert_watch :: "watch \<Rightarrow> watch desk_prog" where
  "insert_watch x0 =
     bindE desk_now (\<lambda>now.
     bindE (if wt_id x0 = [] then desk_id else ret (wt_id x0)) (\<lambda>i.
     let x = x0\<lparr>wt_id := i, wt_created_at := now, wt_updated_at := now\<rparr> in
     seqE (desk_write ''create watch'' (\<lambda>w. \<not> has_watch i w \<and> watch_links_ok x w)
             (\<lambda>w. w\<lparr>dk_watches := dk_watches w @ [watch_row x]\<rparr>))
       (ret x)))"

definition get_watch :: "string \<Rightarrow> watch desk_prog" where
  "get_watch i = desk_read ''get watch'' (\<lambda>w.
     case find (\<lambda>x. wt_id x = i) (dk_watches w) of None \<Rightarrow> Inl ErrWatchNotFound | Some x \<Rightarrow> Inr x)"

definition update_watch_row :: "watch \<Rightarrow> watch desk_prog" where
  "update_watch_row x0 =
     bindE desk_now (\<lambda>now. let x = x0\<lparr>wt_updated_at := now\<rparr> in
     seqE (desk_update ''update watch'' ErrWatchNotFound (has_watch (wt_id x)) (watch_links_ok x)
             (\<lambda>w. w\<lparr>dk_watches := map (\<lambda>r. if wt_id r = wt_id x then (watch_row x)\<lparr>wt_created_at := wt_created_at r\<rparr> else r) (dk_watches w)\<rparr>))
       (ret x))"

definition newest_watch :: "string \<Rightarrow> (watch \<Rightarrow> bool) \<Rightarrow> watch desk_prog" where
  "newest_watch what p = desk_read what (\<lambda>w.
     case newest_first wt_updated_at (newest_first wt_created_at (filter p (dk_watches w))) of
       [] \<Rightarrow> Inl ErrWatchNotFound
     | x # _ \<Rightarrow> Inr x)"

definition find_strategy_watch :: "string \<Rightarrow> watch desk_prog" where
  "find_strategy_watch sid = newest_watch ''find strategy watch''
     (\<lambda>x. wt_strategy x \<noteq> [] \<and> wt_strategy x = sid \<and> wt_status x \<noteq> ''archived'')"

definition find_monitor_watch :: "string \<Rightarrow> watch desk_prog" where
  "find_monitor_watch pid = newest_watch ''find portfolio monitor watch''
     (\<lambda>x. wt_portfolio x \<noteq> [] \<and> wt_portfolio x = pid \<and> wt_source x = ''portfolio_monitor'' \<and> wt_status x \<noteq> ''archived'')"

section \<open>Watches\<close>

record watch_request =
  wq_name :: string
  wq_status :: string
  wq_source :: string
  wq_symbol :: string
  wq_market :: string
  wq_portfolio :: string
  wq_strategy :: string
  wq_version :: string
  wq_policy :: string
  wq_config :: any_map
  wq_schedule :: string
  wq_cooldown :: int

definition watch_of_request :: "watch_request \<Rightarrow> string \<Rightarrow> watch" where
  "watch_of_request rq i =
     \<lparr>wt_id = i, wt_name = trim_space (wq_name rq), wt_status = or_default (wq_status rq) ''active'',
      wt_source = or_default (wq_source rq) ''manual'', wt_symbol = trim_space (wq_symbol rq), wt_market = trim_space (wq_market rq),
      wt_portfolio = trim_space (wq_portfolio rq), wt_strategy = trim_space (wq_strategy rq), wt_version = trim_space (wq_version rq),
      wt_policy = or_default (wq_policy rq) ''any'', wt_config = wq_config rq, wt_schedule = or_default (wq_schedule rq) ''manual'',
      wt_cooldown = wq_cooldown rq, wt_last_checked = 0, wt_last_triggered = 0, wt_run_status = [], wt_run_reason = [],
      wt_archived_at = 0, wt_created_at = 0, wt_updated_at = 0\<rparr>"

record watch_patch =
  wp_name :: "string option"
  wp_source :: "string option"
  wp_symbol :: "string option"
  wp_market :: "string option"
  wp_portfolio :: "string option"
  wp_strategy :: "string option"
  wp_version :: "string option"
  wp_policy :: "string option"
  wp_config :: "any_map option"
  wp_schedule :: "string option"
  wp_cooldown :: "int option"

text \<open>A new strategy without a version forgets the old version.\<close>

definition patch_watch :: "watch_patch \<Rightarrow> watch \<Rightarrow> watch" where
  "patch_watch u x =
     x\<lparr>wt_name := trimmed_or (wp_name u) (wt_name x), wt_source := trimmed_or (wp_source u) (wt_source x),
       wt_symbol := trimmed_or (wp_symbol u) (wt_symbol x), wt_market := trimmed_or (wp_market u) (wt_market x),
       wt_portfolio := trimmed_or (wp_portfolio u) (wt_portfolio x), wt_strategy := trimmed_or (wp_strategy u) (wt_strategy x),
       wt_version := trimmed_or (wp_version u) (if wp_strategy u = None then wt_version x else []),
       wt_policy := trimmed_or (wp_policy u) (wt_policy x), wt_config := bool_default (wp_config u) (wt_config x),
       wt_schedule := trimmed_or (wp_schedule u) (wt_schedule x), wt_cooldown := bool_default (wp_cooldown u) (wt_cooldown x)\<rparr>"

definition fill_watch_version :: "watch \<Rightarrow> watch desk_prog" where
  "fill_watch_version x =
     (if wt_strategy x = [] then ret (x\<lparr>wt_version := []\<rparr>)
      else bindE (get_strategy (wt_strategy x)) (\<lambda>s.
        if wt_version x = [] then ret (x\<lparr>wt_version := sg_active (sw_strategy s)\<rparr>)
        else bindE (list_versions (wt_strategy x)) (\<lambda>vs.
          if wt_version x \<in> set (map sv_id vs) then ret x else throw ErrStrategyVersionNotFound)))"

definition validate_watch :: "watch \<Rightarrow> unit desk_prog" where
  "validate_watch x =
     (if wt_name x = [] then throw ErrInvalidWatchName
      else if wt_status x \<notin> {''active'', ''paused'', ''archived''} then throw ErrInvalidWatchStatus
      else if wt_source x \<notin> {''manual'', ''strategy'', ''portfolio_monitor''} then throw ErrInvalidWatchSource
      else if wt_policy x \<notin> {''any'', ''all''} then throw ErrInvalidWatchPolicy
      else if wt_schedule x \<notin> {''manual'', ''market_session'', ''daily''} then throw ErrInvalidWatchSchedule
      else if wt_cooldown x < 0 then throw ErrInvalidWatchCooldown
      else if wt_source x = ''strategy'' \<and> wt_strategy x = [] then throw ErrInvalidWatchTarget
      else if wt_source x = ''portfolio_monitor'' \<and> wt_portfolio x = [] then throw ErrInvalidWatchTarget
      else if wt_symbol x = [] \<and> wt_portfolio x = [] \<and> wt_strategy x = [] then throw ErrInvalidWatchTarget
      else if wt_portfolio x \<noteq> [] then bindE (stocked (select_portfolio (wt_portfolio x))) (\<lambda>_. ret ())
      else ret ())"

definition create_watch :: "watch_request \<Rightarrow> watch desk_prog" where
  "create_watch rq =
     bindE desk_id (\<lambda>i.
     bindE (fill_watch_version (watch_of_request rq i)) (\<lambda>x.
     seqE (validate_watch x) (insert_watch x)))"

definition update_watch :: "string \<Rightarrow> watch_patch \<Rightarrow> watch desk_prog" where
  "update_watch i u =
     bindE (get_watch i) (\<lambda>x.
     if wt_status x = ''archived'' then throw ErrWatchArchived
     else bindE (fill_watch_version (patch_watch u x)) (\<lambda>y.
       seqE (validate_watch y) (update_watch_row y)))"

definition set_watch_status :: "string \<Rightarrow> string \<Rightarrow> watch desk_prog" where
  "set_watch_status i status =
     bindE (get_watch i) (\<lambda>x.
     if wt_status x = ''archived'' then throw ErrWatchArchived else update_watch_row (x\<lparr>wt_status := status\<rparr>))"

definition archive_watch :: "string \<Rightarrow> watch desk_prog" where
  "archive_watch i =
     bindE (get_watch i) (\<lambda>x.
     if wt_status x = ''archived'' then ret x
     else bindE desk_now (\<lambda>now. update_watch_row (x\<lparr>wt_status := ''archived'', wt_archived_at := now\<rparr>)))"

section \<open>Watches from templates\<close>

definition rule_any :: "string \<Rightarrow> string \<Rightarrow> string \<Rightarrow> any_map \<Rightarrow> any" where
  "rule_any key kind code extra = AnyMap ([(''key'', AnyStr key), (''type'', AnyStr kind), (''symbol'', AnyStr code)] @ extra)"

definition config_of_portfolio :: "portfolio \<Rightarrow> holding list \<Rightarrow> any_map" where
  "config_of_portfolio p hs =
     (let limit = position_limit p;
          rules = concat (map (\<lambda>h.
            [rule_any (''quote_stale_'' @ hd_symbol h) ''quote_stale'' (hd_symbol h) [(''maxAgeSeconds'', AnyInt 1800)],
             rule_any (''weight_above_'' @ hd_symbol h) ''portfolio_symbol_weight_above'' (hd_symbol h)
               [(''portfolioId'', AnyStr (pf_id p)), (''threshold'', AnyNum limit)]]) (filter (\<lambda>h. hd_symbol h \<noteq> []) hs))
      in [(''source'', AnyStr ''portfolio_monitor''), (''template'', AnyStr ''portfolio_monitor_watch_v1''),
          (''portfolioId'', AnyStr (pf_id p)), (''holdingCount'', AnyInt (int (length hs))), (''rules'', AnyList rules)])"

definition threshold_rule :: "string \<Rightarrow> string \<Rightarrow> string \<Rightarrow> f64 option \<Rightarrow> any list" where
  "threshold_rule key kind code v = (case v of None \<Rightarrow> [] | Some x \<Rightarrow> [rule_any key kind code [(''threshold'', AnyNum x)]])"

definition price_rules :: "string \<Rightarrow> any_map \<Rightarrow> any list" where
  "price_rules code m =
     (case (number_from_any (at_key m ''entryPriceLow''), number_from_any (at_key m ''entryPriceHigh'')) of
        (Some lo, Some hi) \<Rightarrow> [rule_any ''entry_range'' ''price_between'' code [(''low'', AnyNum lo), (''high'', AnyNum hi)]]
      | _ \<Rightarrow> []) @
     threshold_rule ''trigger_price_above'' ''price_above'' code (number_from_any (at_key m ''triggerPriceAbove'')) @
     threshold_rule ''trigger_price_below'' ''price_below'' code (number_from_any (at_key m ''triggerPriceBelow'')) @
     threshold_rule ''stop_loss'' ''price_below'' code (number_from_any (at_key m ''stopLoss'')) @
     threshold_rule ''take_profit'' ''price_above'' code (number_from_any (at_key m ''takeProfit''))"

definition default_rules :: "string \<Rightarrow> any list" where
  "default_rules code =
     [rule_any ''quote_stale'' ''quote_stale'' code [(''maxAgeSeconds'', AnyInt 1800)],
      rule_any ''pct_change_above_5'' ''pct_change_above'' code [(''threshold'', AnyInt 5)],
      rule_any ''pct_change_below_minus_5'' ''pct_change_below'' code [(''threshold'', AnyInt (-5))]]"

definition config_of_strategy :: "strategy \<Rightarrow> strategy_version \<Rightarrow> any_map desk_prog" where
  "config_of_strategy s v =
     (if sg_symbol s = [] \<and> sg_portfolio s \<noteq> [] then
        bindE (stocked (select_portfolio (sg_portfolio s))) (\<lambda>p.
        bindE (stocked (select_holdings (sg_portfolio s))) (\<lambda>hs.
        ret (put_all [(''source'', AnyStr ''strategy''), (''template'', AnyStr ''strategy_portfolio_monitor_watch_v1''),
               (''strategyId'', AnyStr (sg_id s)), (''strategyVersionId'', AnyStr (sg_active s))] (config_of_portfolio p hs))))
      else
        (let rules = price_rules (sg_symbol s) (map_from_any (at_key (sv_meta v) ''priceTriggers''))
         in ret [(''source'', AnyStr ''strategy''),
              (''template'', AnyStr (if rules = [] then ''strategy_default_watch_v1'' else ''strategy_price_triggers_v1'')),
              (''strategyId'', AnyStr (sg_id s)), (''strategyVersionId'', AnyStr (sg_active s)),
              (''playbook'', AnyMap (map_from_any (at_key (sv_meta v) ''playbook''))),
              (''rules'', AnyList (if rules = [] then default_rules (sg_symbol s) else rules))]))"

definition strategy_watch_text :: string where
  "strategy_watch_text = bytes [231, 173, 150, 231, 149, 165, 231, 155, 175, 231, 155, 152, 32, 45, 32]"

definition monitor_watch_text :: string where
  "monitor_watch_text = bytes [231, 187, 132, 229, 144, 136, 231, 155, 145, 230, 142, 167, 231, 155, 175, 231, 155, 152, 32, 45, 32]"

definition create_strategy_watch :: "string \<Rightarrow> watch desk_prog" where
  "create_strategy_watch sid =
     bindE (attempt (find_strategy_watch sid)) (\<lambda>found.
     case found of
       Inr x \<Rightarrow> ret x
     | Inl e \<Rightarrow>
         if e \<noteq> ErrWatchNotFound then throw e
         else bindE (get_strategy sid) (\<lambda>sw. let s = sw_strategy sw in
           case sw_version sw of
             None \<Rightarrow> throw ErrStrategyVersionNotFound
           | Some v \<Rightarrow>
               if sg_active s = [] then throw ErrStrategyVersionNotFound
               else if sg_symbol s = [] \<and> sg_portfolio s = [] then throw ErrInvalidStrategySymbol
               else bindE (config_of_strategy s v) (\<lambda>config.
                 create_watch \<lparr>wq_name = strategy_watch_text @ sg_name s, wq_status = [], wq_source = ''strategy'',
                   wq_symbol = sg_symbol s, wq_market = sg_market s, wq_portfolio = sg_portfolio s, wq_strategy = sg_id s,
                   wq_version = sg_active s, wq_policy = ''any'', wq_config = config, wq_schedule = ''daily'', wq_cooldown = 3600\<rparr>)))"

definition create_monitor_watch :: "string \<Rightarrow> watch desk_prog" where
  "create_monitor_watch pid =
     bindE (attempt (find_monitor_watch pid)) (\<lambda>found.
     case found of
       Inr x \<Rightarrow> ret x
     | Inl e \<Rightarrow>
         if e \<noteq> ErrWatchNotFound then throw e
         else bindE (stocked (select_portfolio pid)) (\<lambda>p.
           bindE (stocked (select_holdings pid)) (\<lambda>hs.
           create_watch \<lparr>wq_name = monitor_watch_text @ pf_name p, wq_status = [], wq_source = ''portfolio_monitor'',
             wq_symbol = [], wq_market = [], wq_portfolio = pf_id p, wq_strategy = [], wq_version = [], wq_policy = ''any'',
             wq_config = config_of_portfolio p hs, wq_schedule = ''daily'', wq_cooldown = 3600\<rparr>)))"

section \<open>Alerts\<close>

record alert_request =
  lr_watch :: string
  lr_hit :: string
  lr_run :: string
  lr_task :: string
  lr_strategy :: string
  lr_portfolio :: string
  lr_symbol :: string
  lr_market :: string
  lr_review :: string
  lr_review_status :: string
  lr_agent_run :: string
  lr_ledger :: string
  lr_trigger :: string
  lr_level :: string
  lr_title :: string
  lr_summary :: string
  lr_dedupe :: string
  lr_evidence :: any_map
  lr_triggered_at :: gtime

definition alert_of_request :: "alert_request \<Rightarrow> gtime \<Rightarrow> string \<Rightarrow> alert" where
  "alert_of_request rq now i =
     (let t = (if time_is_zero (lr_triggered_at rq) then now else lr_triggered_at rq)
      in \<lparr>al_id = i, al_watch = trim_space (lr_watch rq), al_hit = trim_space (lr_hit rq), al_run = trim_space (lr_run rq),
          al_task = trim_space (lr_task rq), al_strategy = trim_space (lr_strategy rq), al_portfolio = trim_space (lr_portfolio rq),
          al_symbol = trim_space (lr_symbol rq), al_market = trim_space (lr_market rq), al_review = trim_space (lr_review rq),
          al_review_status = trim_space (lr_review_status rq), al_agent_run = trim_space (lr_agent_run rq),
          al_ledger = trim_space (lr_ledger rq), al_trigger = trim_space (lr_trigger rq), al_status = ''open'',
          al_level = or_default (lr_level rq) ''info'', al_title = trim_space (lr_title rq), al_summary = trim_space (lr_summary rq),
          al_dedupe = trim_space (lr_dedupe rq), al_evidence = lr_evidence rq, al_count = 1, al_first_seen = t, al_last_seen = t,
          al_triggered_at = t, al_acknowledged_at = 0, al_resolved_at = 0, al_created_at = 0, al_updated_at = 0\<rparr>)"

text \<open>A live alert is reused, and a settled one as long as the watch cools down.\<close>

definition reusable_alert :: "alert \<Rightarrow> gtime \<Rightarrow> int \<Rightarrow> bool" where
  "reusable_alert a t cooldown \<longleftrightarrow>
     al_status a = ''open'' \<or> al_status a = ''acknowledged'' \<or>
     (0 < cooldown \<and> time_add t (wrap64 (wrap64 (- cooldown) * second)) \<le> al_triggered_at a)"

text \<open>The alert for a request: the one with its key that is still reusable, or none.\<close>

definition reused_alert :: "alert \<Rightarrow> int \<Rightarrow> alert option desk_prog" where
  "reused_alert a cooldown =
     (if al_dedupe a = [] then ret None
      else bindE (attempt (find_watch_alert_by_key (al_watch a) (al_dedupe a))) (\<lambda>found.
        case found of
          Inl e \<Rightarrow> if e = ErrAlertNotFound then ret None else throw e
        | Inr old \<Rightarrow> ret (if reusable_alert old (al_triggered_at a) cooldown then Some old else None)))"

definition create_alert :: "alert_request \<Rightarrow> alert desk_prog" where
  "create_alert rq =
     bindE desk_now (\<lambda>now.
     bindE desk_id (\<lambda>i.
     let a = alert_of_request rq now i in
     if al_watch a = [] then throw ErrWatchNotFound
     else if al_title a = [] then throw ErrInvalidAlertTitle
     else if al_level a \<notin> {''info'', ''warning'', ''critical''} then throw ErrInvalidAlertLevel
     else
       bindE (get_watch (al_watch a)) (\<lambda>x.
       if wt_status x = ''archived'' then throw ErrWatchArchived
       else if wt_status x \<noteq> ''active'' then throw ErrWatchNotActive
       else
         bindE (reused_alert a (wt_cooldown x)) (\<lambda>old.
         case old of
           Some b \<Rightarrow> ret b
         | None \<Rightarrow>
             bindE (insert_alert a) (\<lambda>b.
             bindE (update_watch_row (x\<lparr>wt_last_triggered := al_triggered_at b\<rparr>)) (\<lambda>_. ret b))))))"

section \<open>Rules\<close>

record watch_rule =
  wr_key :: string
  wr_kind :: string
  wr_symbol :: string
  wr_portfolio :: string
  wr_threshold :: f64
  wr_low :: f64
  wr_high :: f64
  wr_max_age :: int

record rule_outcome =
  ru_key :: string
  ru_kind :: string
  ru_status :: string
  ru_reason :: string
  ru_observed :: f64
  ru_threshold :: any
  ru_evidence :: any_map
  ru_data_time :: gtime

record watch_result =
  wu_watch :: string
  wu_status :: string
  wu_reason :: string
  wu_rules :: "rule_outcome list"
  wu_alert :: "alert option"
  wu_checked_at :: gtime

text \<open>The conversion of a float to an \<^verbatim>\<open>int\<close> on amd64: towards zero, and the least integer when it does not fit.\<close>

definition float_to_int :: "f64 \<Rightarrow> int" where
  "float_to_int x =
     (case x of
        Fin k \<Rightarrow> (let t = sgn k * (\<bar>k\<bar> div f64_unit) in if min_int64 \<le> t \<and> t \<le> max_int64 then t else min_int64)
      | _ \<Rightarrow> min_int64)"

definition normalize_rule_kind :: "string \<Rightarrow> string" where
  "normalize_rule_kind s =
     (let k = trim_space s in
      if k = ''position_pct_above'' \<or> k = ''position_weight_above'' then ''portfolio_symbol_weight_above''
      else if k = ''position_pct_below'' \<or> k = ''position_weight_below'' then ''portfolio_symbol_weight_below''
      else k)"

definition rule_of_map :: "watch \<Rightarrow> nat \<Rightarrow> any_map \<Rightarrow> watch_rule" where
  "rule_of_map x i m =
     (let kind = normalize_rule_kind (first_rule_string m [''type'', ''ruleType'']);
          key0 = first_rule_string m [''key'', ''ruleKey'']; key = (if key0 = [] then kind else key0)
      in \<lparr>wr_key = (if key = [] then ''rule_'' @ itoa (int i + 1) else key), wr_kind = kind,
          wr_symbol = first_nonblank [first_rule_string m [''symbol''], wt_symbol x],
          wr_portfolio = first_nonblank [first_rule_string m [''portfolioId''], wt_portfolio x],
          wr_threshold = first_rule_number m [''threshold'', ''value''], wr_low = first_rule_number m [''low'', ''lower'', ''min''],
          wr_high = first_rule_number m [''high'', ''upper'', ''max''],
          wr_max_age = float_to_int (first_rule_number m [''maxAgeSeconds''])\<rparr>)"

fun rules_from :: "watch \<Rightarrow> nat \<Rightarrow> any list \<Rightarrow> watch_rule list" where
  "rules_from x i [] = []"
| "rules_from x i (v # vs) =
     (case v of AnyMap m \<Rightarrow> rule_of_map x i m # rules_from x (Suc i) vs | _ \<Rightarrow> rules_from x (Suc i) vs)"

definition watch_rules :: "watch \<Rightarrow> watch_rule list" where
  "watch_rules x =
     (let c = wt_config x; raw = (case at_key c ''rules'' of Some (AnyList vs) \<Rightarrow> vs | _ \<Rightarrow> [])
      in rules_from x 0
           (if raw = [] \<and> (at_key c ''type'' \<noteq> None \<or> at_key c ''ruleType'' \<noteq> None) then [AnyMap c] else raw))"

text \<open>China's time, eight hours ahead of UTC.\<close>

definition in_china :: "gtime \<Rightarrow> gtime" where
  "in_china t = t + 8 * hour"

definition same_china_day :: "gtime \<Rightarrow> gtime \<Rightarrow> bool" where
  "same_china_day a b \<longleftrightarrow> \<not> time_is_zero a \<and>
     (let x = civil_of (in_china a); y = civil_of (in_china b)
      in cv_year x = cv_year y \<and> cv_month x = cv_month y \<and> cv_day x = cv_day y)"

definition market_open :: "gtime \<Rightarrow> bool" where
  "market_open now \<longleftrightarrow>
     (let t = in_china now; c = civil_of t; m = cv_hour c * 60 + cv_minute c
      in weekday t \<noteq> 6 \<and> weekday t \<noteq> 0 \<and> 9 * 60 + 30 \<le> m \<and> m \<le> 15 * 60)"

definition skip_reason :: "watch \<Rightarrow> gtime \<Rightarrow> string" where
  "skip_reason x now =
     (if wt_status x = ''paused'' then ''watch is paused''
      else if wt_status x = ''archived'' then ''watch is archived''
      else if wt_schedule x = ''daily'' \<and> same_china_day (wt_last_checked x) now then ''daily schedule already checked today''
      else if wt_schedule x = ''market_session'' \<and> \<not> market_open now then ''market session is closed''
      else [])"

section \<open>Evaluation\<close>

definition rule_result :: "watch_rule \<Rightarrow> string \<Rightarrow> string \<Rightarrow> f64 \<Rightarrow> any \<Rightarrow> any_map \<Rightarrow> gtime \<Rightarrow> rule_outcome" where
  "rule_result r status reason observed threshold ev t =
     \<lparr>ru_key = wr_key r, ru_kind = wr_kind r, ru_status = status, ru_reason = reason, ru_observed = observed,
      ru_threshold = threshold, ru_evidence = ev, ru_data_time = t\<rparr>"

definition degraded_result :: "watch_rule \<Rightarrow> string \<Rightarrow> f64 \<Rightarrow> any_map \<Rightarrow> gtime \<Rightarrow> rule_outcome" where
  "degraded_result r reason observed ev t = rule_result r ''degraded'' reason observed (AnyNum (wr_threshold r)) ev t"

definition matched_result :: "watch_rule \<Rightarrow> bool \<Rightarrow> f64 \<Rightarrow> any \<Rightarrow> string \<Rightarrow> any_map \<Rightarrow> gtime \<Rightarrow> rule_outcome" where
  "matched_result r b observed threshold reason ev t =
     rule_result r (if b then ''matched'' else ''not_matched'') reason observed threshold ev t"

definition quote_evidence :: "latest_quote \<Rightarrow> any_map" where
  "quote_evidence q =
     [(''symbol'', AnyStr (qt_symbol q)), (''market'', AnyStr (lq_market q)), (''lastPrice'', AnyNum (qt_last_price q)),
      (''pctChange'', AnyNum (qt_pct_change q)), (''amplitude'', AnyNum (lq_amplitude q)), (''turnoverRate'', AnyNum (lq_turnover q)),
      (''volumeRatio'', AnyNum (lq_volume_ratio q)), (''mainNetInflow'', AnyNum (lq_inflow q)),
      (''mainNetInflowPct'', AnyNum (lq_inflow_pct q)), (''status'', AnyStr (qt_status q)), (''source'', AnyStr (lq_source q)),
      (''quoteAt'', AnyTime (qt_quote_at q)), (''fetchedAt'', AnyTime (qt_fetched_at q))]"

definition bar_evidence :: "daily_bar \<Rightarrow> any_map" where
  "bar_evidence b =
     [(''symbol'', AnyStr (db_symbol b)), (''tradeDate'', AnyStr (db_date b)), (''close'', AnyNum (db_close b)),
      (''quality'', AnyStr (db_quality b)), (''source'', AnyStr (db_source b)), (''fetchedAt'', AnyTime (db_fetched_at b))]"

definition weight_evidence :: "valuation \<Rightarrow> holding option \<Rightarrow> any_map" where
  "weight_evidence v h =
     put_all (case h of None \<Rightarrow> []
       | Some x \<Rightarrow> [(''symbol'', AnyStr (hd_symbol x)), (''positionPct'', AnyNum (hd_position_pct x)), (''marketValue'', AnyNum (hd_market_value x))])
      [(''portfolioId'', AnyStr (vl_portfolio v)), (''snapshotId'', AnyStr (vl_id v)), (''valuationAt'', AnyTime (vl_at v)),
       (''totalAssetValue'', AnyNum (vl_total v)), (''status'', AnyStr (vl_status v))]"

text \<open>\<^verbatim>\<open>Duration.Seconds\<close>.\<close>

definition seconds_of :: "duration \<Rightarrow> f64" where
  "seconds_of d =
     (let s = sgn d * (\<bar>d\<bar> div second); n = d - s * second
      in fadd (f64_of_int s) (fdiv (f64_of_int n) (f64_of_int 1000000000)))"

definition compare_text :: "string \<Rightarrow> f64 \<Rightarrow> string \<Rightarrow> f64 \<Rightarrow> string" where
  "compare_text what a op b = what @ '' '' @ fixed2 a @ '' '' @ op @ '' '' @ fixed2 b"

definition stale_result :: "watch_rule \<Rightarrow> latest_quote \<Rightarrow> gtime \<Rightarrow> gtime \<Rightarrow> rule_outcome" where
  "stale_result r q data_time now =
     (let d = wrap64 (wr_max_age r * second); max_age = (if d \<le> 0 then 30 * minute else d);
          age = time_sub now (qt_fetched_at q)
      in matched_result r (qt_status q \<noteq> ''fresh'' \<or> time_is_zero (qt_fetched_at q) \<or> max_age < age) (seconds_of age)
           (AnyNum (seconds_of max_age)) ''quote stale check'' (quote_evidence q) data_time)"

definition quote_rule_result :: "watch_rule \<Rightarrow> latest_quote \<Rightarrow> gtime \<Rightarrow> rule_outcome" where
  "quote_rule_result r q now =
     (let t = (if time_is_zero (qt_quote_at q) then qt_fetched_at q else qt_quote_at q); k = wr_kind r;
          p = qt_last_price q; c = qt_pct_change q; th = wr_threshold r;
          res = (\<lambda>b observed reason. matched_result r b observed (AnyNum th) reason (quote_evidence q) t)
      in if k = ''quote_stale'' then stale_result r q t now
         else if qt_status q \<noteq> ''fresh'' \<or> fle p f0 then degraded_result r ''latest quote is not fresh'' p (quote_evidence q) t
         else if k = ''price_above'' then res (flt th p) p (compare_text ''price'' p ''>'' th)
         else if k = ''price_below'' then res (flt p th) p (compare_text ''price'' p ''<'' th)
         else if k = ''price_between'' then
           matched_result r (fle (wr_low r) p \<and> fle p (wr_high r)) p
             (AnyMap [(''low'', AnyNum (wr_low r)), (''high'', AnyNum (wr_high r))]) ''price between range'' (quote_evidence q) t
         else if k = ''pct_change_above'' then res (flt th c) c (compare_text ''pct change'' c ''>'' th)
         else if k = ''pct_change_below'' then res (flt c th) c (compare_text ''pct change'' c ''<'' th)
         else degraded_result r ''unsupported quote rule'' f0 (quote_evidence q) t)"

definition evaluate_quote_rule :: "watch_rule \<Rightarrow> gtime \<Rightarrow> rule_outcome desk_prog" where
  "evaluate_quote_rule r now =
     (if wr_symbol r = [] then ret (degraded_result r ''symbol is required'' f0 [] 0)
      else bindE (attempt (latest_quote_of (wr_symbol r))) (\<lambda>q :: desk_error + latest_quote option.
        ret (case q of
               Inr (Some x) \<Rightarrow> quote_rule_result r x now
             | _ \<Rightarrow> degraded_result r ''latest quote is missing'' f0 [] 0)))"

text \<open>The newest unadjusted bar: \<open>dk_bars\<close> holds the preferred bar of each day, in the order of the days.\<close>

definition latest_bar :: "string \<Rightarrow> daily_bar option desk_prog" where
  "latest_bar code = desk_read ''get duckdb daily bars'' (\<lambda>w.
     Inr (find (\<lambda>b. db_symbol b = code \<and> db_adjusted b = ''none'') (rev (dk_bars w))))"

definition bars_stale :: "string \<Rightarrow> gtime \<Rightarrow> bool" where
  "bars_stale date now =
     (case parse_date_only date of None \<Rightarrow> True | Some t \<Rightarrow> 5 * 24 * hour < time_sub now (t - 8 * hour))"

definition bar_rule_result :: "watch_rule \<Rightarrow> daily_bar \<Rightarrow> gtime \<Rightarrow> rule_outcome" where
  "bar_rule_result r b now =
     (let t = (if time_is_zero (db_fetched_at b) then now else db_fetched_at b); c = db_close b; th = wr_threshold r
      in if db_quality b = ''failed'' \<or> db_quality b = ''empty'' \<or> bars_stale (db_date b) now
           then degraded_result r ''daily bar quality is not usable'' c (bar_evidence b) t
         else if wr_kind r = ''daily_close_above''
           then matched_result r (flt th c) c (AnyNum th) (compare_text ''daily close'' c ''>'' th) (bar_evidence b) t
         else matched_result r (flt c th) c (AnyNum th) (compare_text ''daily close'' c ''<'' th) (bar_evidence b) t)"

definition evaluate_bar_rule :: "watch_rule \<Rightarrow> rule_outcome desk_prog" where
  "evaluate_bar_rule r =
     (if wr_symbol r = [] then ret (degraded_result r ''symbol is required'' f0 [] 0)
      else bindE (attempt (latest_bar (wr_symbol r))) (\<lambda>b :: desk_error + daily_bar option.
        case b of
          Inr (Some x) \<Rightarrow> bindE desk_now (\<lambda>now. ret (bar_rule_result r x now))
        | _ \<Rightarrow> ret (degraded_result r ''daily bar is missing'' f0 [] 0)))"

definition weight_of :: "valuation \<Rightarrow> holding \<Rightarrow> f64" where
  "weight_of v h =
     (if fle (hd_position_pct h) f0 \<and> fpos (hd_market_value h)
        then fmul (fdiv (hd_market_value h) (vl_total v)) (f64_of_int 100) else hd_position_pct h)"

definition percent_text :: "f64 \<Rightarrow> string \<Rightarrow> f64 \<Rightarrow> string" where
  "percent_text a op b = ''position '' @ fixed2 a @ ''% '' @ op @ '' '' @ fixed2 b @ ''%''"

definition weight_rule_result :: "watch_rule \<Rightarrow> valuation \<Rightarrow> holding list \<Rightarrow> rule_outcome" where
  "weight_rule_result r v hs =
     (case find_holding hs (wr_symbol r) of
        None \<Rightarrow> matched_result r False f0 (AnyNum (wr_threshold r)) ''symbol is not held in portfolio'' (weight_evidence v None) (vl_at v)
      | Some h \<Rightarrow>
          (let x = weight_of v h; th = wr_threshold r
           in if wr_kind r = ''portfolio_symbol_weight_below''
                then matched_result r (flt x th) x (AnyNum th) (percent_text x ''<'' th) (weight_evidence v (Some h)) (vl_at v)
              else matched_result r (flt th x) x (AnyNum th) (percent_text x ''>'' th) (weight_evidence v (Some h)) (vl_at v)))"

definition evaluate_weight_rule :: "watch \<Rightarrow> watch_rule \<Rightarrow> rule_outcome desk_prog" where
  "evaluate_weight_rule x r =
     (let pid = first_nonblank [wr_portfolio r, wt_portfolio x] in
      if pid = [] \<or> wr_symbol r = [] then ret (degraded_result r ''portfolioId and symbol are required'' f0 [] 0)
      else bindE (attempt (stocked (select_valuations pid 1))) (\<lambda>vs :: desk_error + valuation list.
        case vs of
          Inr (v # _) \<Rightarrow>
            if vl_status v = ''failed'' \<or> fle (vl_total v) f0
              then ret (degraded_result r ''portfolio snapshot is not usable'' f0 (weight_evidence v None) (vl_at v))
            else bindE (attempt (stocked (select_holdings pid))) (\<lambda>hs :: desk_error + holding list.
              ret (case hs of
                     Inl _ \<Rightarrow> degraded_result r ''holdings are missing'' f0 (weight_evidence v None) (vl_at v)
                   | Inr ys \<Rightarrow> weight_rule_result r v ys))
        | _ \<Rightarrow> ret (degraded_result r ''portfolio snapshot is missing'' f0 [] 0)))"

definition evaluate_rule :: "watch \<Rightarrow> watch_rule \<Rightarrow> gtime \<Rightarrow> rule_outcome desk_prog" where
  "evaluate_rule x r now =
     (if wr_kind r \<in> {''price_above'', ''price_below'', ''price_between'', ''pct_change_above'', ''pct_change_below'', ''quote_stale''}
        then evaluate_quote_rule r now
      else if wr_kind r \<in> {''daily_close_above'', ''daily_close_below''} then evaluate_bar_rule r
      else if wr_kind r \<in> {''portfolio_symbol_weight_above'', ''portfolio_symbol_weight_below''} then evaluate_weight_rule x r
      else ret (degraded_result r ''unsupported rule type'' f0 [] 0))"

fun evaluate_rules :: "watch \<Rightarrow> gtime \<Rightarrow> watch_rule list \<Rightarrow> rule_outcome list desk_prog" where
  "evaluate_rules x now [] = ret []"
| "evaluate_rules x now (r # rs) =
     bindE (evaluate_rule x r now) (\<lambda>u. bindE (evaluate_rules x now rs) (\<lambda>us. ret (u # us)))"

definition count_status :: "string \<Rightarrow> rule_outcome list \<Rightarrow> nat" where
  "count_status s us = length (filter (\<lambda>u. ru_status u = s) us)"

definition aggregate_rules :: "string \<Rightarrow> rule_outcome list \<Rightarrow> string \<times> string" where
  "aggregate_rules policy us =
     (if policy = ''all'' then
        (if 0 < count_status ''degraded'' us then (''degraded'', ''one or more rules degraded'')
         else if count_status ''matched'' us = length us then (''matched'', ''all rules matched'')
         else (''not_matched'', ''not all rules matched''))
      else if 0 < count_status ''matched'' us then (''matched'', ''one or more rules matched'')
      else if 0 < count_status ''degraded'' us then (''degraded'', ''one or more rules degraded'')
      else (''not_matched'', ''no rules matched''))"

section \<open>A run\<close>

definition no_result :: rule_outcome where
  "no_result = \<lparr>ru_key = [], ru_kind = [], ru_status = [], ru_reason = [], ru_observed = f0, ru_threshold = AnyNull,
     ru_evidence = [], ru_data_time = 0\<rparr>"

definition first_matched :: "rule_outcome list \<Rightarrow> rule_outcome" where
  "first_matched us = bool_default (find (\<lambda>u. ru_status u = ''matched'') us) no_result"

definition threshold_float :: "any \<Rightarrow> f64" where
  "threshold_float v = (case v of AnyNum x \<Rightarrow> x | _ \<Rightarrow> f0)"

definition alert_title :: "rule_outcome \<Rightarrow> string" where
  "alert_title u =
     (let k = ru_kind u; n = fixed2 (threshold_float (ru_threshold u)) in
      if k = ''price_above'' then
       bytes [228, 187, 183, 230, 160, 188, 231, 170, 129, 231, 160, 180, 32] @ n
     else if k = ''price_below'' then
       bytes [228, 187, 183, 230, 160, 188, 232, 183, 140, 231, 160, 180, 32] @ n
     else if k = ''pct_change_above'' then
       bytes [230, 182, 168, 232, 183, 140, 229, 185, 133, 233, 171, 152, 228, 186, 142, 32] @ n @ ''%''
     else if k = ''pct_change_below'' then
       bytes [230, 182, 168, 232, 183, 140, 229, 185, 133, 228, 189, 142, 228, 186, 142, 32] @ n @ ''%''
     else if k = ''daily_close_above'' then
       bytes [230, 151, 165, 230, 148, 182, 231, 155, 152, 228, 187, 183, 231, 170, 129, 231, 160, 180, 32] @ n
     else if k = ''daily_close_below'' then
       bytes [230, 151, 165, 230, 148, 182, 231, 155, 152, 228, 187, 183, 232, 183, 140, 231, 160, 180, 32] @ n
     else if k = ''portfolio_symbol_weight_above'' then
       bytes [228, 187, 147, 228, 189, 141, 229, 141, 160, 230, 175, 148, 232, 182, 133, 232, 191, 135, 32] @ n @ ''%''
     else if k = ''portfolio_symbol_weight_below'' then
       bytes [228, 187, 147, 228, 189, 141, 229, 141, 160, 230, 175, 148, 228, 189, 142, 228, 186, 142, 32] @ n @ ''%''
     else if k = ''quote_stale'' then
       bytes [232, 161, 140, 230, 131, 133, 230, 149, 176, 230, 141, 174, 232, 191, 135, 230, 156, 159]
     else
       bytes [231, 155, 145, 230, 142, 167, 232, 167, 132, 229, 136, 153, 229, 145, 189, 228, 184, 173])"

definition result_symbol :: "watch \<Rightarrow> rule_outcome \<Rightarrow> string" where
  "result_symbol x u =
     (case at_key (ru_evidence u) ''symbol'' of Some (AnyStr s) \<Rightarrow> if s \<noteq> [] then s else wt_symbol x | _ \<Rightarrow> wt_symbol x)"

definition result_any :: "rule_outcome \<Rightarrow> any" where
  "result_any u =
     AnyMap ([(''ruleKey'', AnyStr (ru_key u)), (''ruleType'', AnyStr (ru_kind u)), (''status'', AnyStr (ru_status u)),
        (''reason'', AnyStr (ru_reason u))] @
       (if ru_observed u = f0 then [] else [(''observedValue'', AnyNum (ru_observed u))]) @
       (if ru_threshold u = AnyNull then [] else [(''threshold'', ru_threshold u)]) @
       (if ru_evidence u = [] then [] else [(''evidence'', AnyMap (ru_evidence u))]) @
       [(''dataTime'', AnyTime (ru_data_time u))])"

definition run_evidence :: "watch_result \<Rightarrow> any_map" where
  "run_evidence res =
     [(''watchId'', AnyStr (wu_watch res)), (''status'', AnyStr (wu_status res)), (''reason'', AnyStr (wu_reason res)),
      (''checkedAt'', AnyTime (wu_checked_at res)), (''ruleResults'', AnyList (map result_any (wu_rules res)))]"

definition run_alert_request :: "watch \<Rightarrow> watch_result \<Rightarrow> alert_request" where
  "run_alert_request x res =
     (let u = first_matched (wu_rules res)
      in \<lparr>lr_watch = wt_id x, lr_hit = [], lr_run = [], lr_task = [], lr_strategy = [], lr_portfolio = [], lr_symbol = [],
          lr_market = [], lr_review = [], lr_review_status = [], lr_agent_run = [], lr_ledger = [], lr_trigger = [],
          lr_level = ''warning'', lr_title = alert_title u, lr_summary = ru_reason u,
          lr_dedupe = wt_id x @ '':'' @ ru_key u @ '':'' @ result_symbol x u, lr_evidence = run_evidence res,
          lr_triggered_at = wu_checked_at res\<rparr>)"

definition checked_watch :: "watch \<Rightarrow> watch_result \<Rightarrow> watch" where
  "checked_watch x res = x\<lparr>wt_last_checked := wu_checked_at res, wt_run_status := wu_status res, wt_run_reason := wu_reason res\<rparr>"

definition run_watch :: "string \<Rightarrow> watch_result desk_prog" where
  "run_watch i =
     bindE (get_watch i) (\<lambda>x.
     bindE desk_now (\<lambda>now.
     let result = (\<lambda>status reason us. \<lparr>wu_watch = wt_id x, wu_status = status, wu_reason = reason, wu_rules = us,
           wu_alert = None, wu_checked_at = now\<rparr>);
         settle = (\<lambda>res. bindE (update_watch_row (checked_watch x res)) (\<lambda>_. ret res))
     in if skip_reason x now \<noteq> [] then settle (result ''skipped'' (skip_reason x now) [])
        else if watch_rules x = [] then settle (result ''degraded'' ''no trigger rules configured'' [])
        else
          bindE (evaluate_rules x now (watch_rules x)) (\<lambda>us.
          let (status, reason) = aggregate_rules (wt_policy x) us; res = result status reason us; y = checked_watch x res in
          bindE (update_watch_row y) (\<lambda>_.
          if status \<noteq> ''matched'' then ret res
          else bindE (create_alert (run_alert_request y res)) (\<lambda>a. ret (res\<lparr>wu_alert := Some a\<rparr>))))))"

section \<open>Listing\<close>

record watch_filter =
  wf_status :: string
  wf_portfolio :: string
  wf_strategy :: string
  wf_symbol :: string
  wf_limit :: int
  wf_offset :: int

definition watch_matches :: "watch_filter \<Rightarrow> watch \<Rightarrow> bool" where
  "watch_matches f x \<longleftrightarrow> trimmed_matches (wf_status f) (wt_status x) \<and> trimmed_matches (wf_portfolio f) (wt_portfolio x) \<and>
     trimmed_matches (wf_strategy f) (wt_strategy x) \<and> trimmed_matches (wf_symbol f) (wt_symbol x)"

definition list_watches :: "watch_filter \<Rightarrow> watch list desk_prog" where
  "list_watches f = desk_read ''list watches'' (\<lambda>w.
     Inr (page (wf_limit f) (wf_offset f) (newest_first wt_updated_at (newest_first wt_created_at (filter (watch_matches f) (dk_watches w))))))"

definition count_watches :: "watch_filter \<Rightarrow> nat desk_prog" where
  "count_watches f = desk_read ''count watches'' (\<lambda>w. Inr (length (filter (watch_matches f) (dk_watches w))))"

record alert_filter =
  af_status :: string
  af_watch :: string
  af_hit :: string
  af_review :: string
  af_task :: string
  af_symbol :: string
  af_portfolio :: string
  af_strategy :: string
  af_limit :: int
  af_offset :: int

definition alert_matches :: "alert_filter \<Rightarrow> alert \<Rightarrow> bool" where
  "alert_matches f a \<longleftrightarrow> trimmed_matches (af_status f) (al_status a) \<and> trimmed_matches (af_watch f) (al_watch a) \<and>
     trimmed_matches (af_hit f) (al_hit a) \<and> trimmed_matches (af_review f) (al_review a) \<and> trimmed_matches (af_task f) (al_task a) \<and>
     trimmed_matches (af_symbol f) (al_symbol a) \<and> trimmed_matches (af_portfolio f) (al_portfolio a) \<and>
     trimmed_matches (af_strategy f) (al_strategy a)"

definition list_alerts :: "alert_filter \<Rightarrow> alert list desk_prog" where
  "list_alerts f = desk_read ''list alerts'' (\<lambda>w.
     Inr (page (af_limit f) (af_offset f) (newest_first al_last_seen (newest_first al_created_at (filter (alert_matches f) (dk_alerts w))))))"

definition count_alerts :: "alert_filter \<Rightarrow> nat desk_prog" where
  "count_alerts f = desk_read ''count alerts'' (\<lambda>w. Inr (length (filter (alert_matches f) (dk_alerts w))))"

end
