(* ===== verification/DeskLaws.thy ===== *)
theory DeskLaws
  imports Reviews Watches PortfolioTrades
begin

text \<open>
  What the operations of the desk leave alone.  A view is a part of the desk; the locales state on which
  tables a view does not depend, and inside them every operation is shown to keep the view.  The views of the
  portfolio tables, of the reviews and of the strategies with their versions interpret them.
\<close>

section \<open>Views\<close>

lemma keeps_if: "keeps R m \<Longrightarrow> keeps R n \<Longrightarrow> keeps R (if b then m else n)"
  by simp

definition unchanged :: "(desk \<Rightarrow> 'b) \<Rightarrow> desk \<Rightarrow> desk \<Rightarrow> bool" where
  "unchanged f w w' \<longleftrightarrow> f w' = f w"

lemma unchanged_state: "keeps (unchanged f) m \<Longrightarrow> m w = (res, w') \<Longrightarrow> f w' = f w"
  by (metis keeps_def snd_conv unchanged_def)

text \<open>A view that sees at most the tables of the stock, not its clock or its calls.\<close>

locale desk_view =
  fixes f :: "desk \<Rightarrow> 'b"
  assumes f_stock: "st_tables k = st_tables (dk_stock w) \<Longrightarrow> f (w\<lparr>dk_stock := k\<rparr>) = f w"

sublocale desk_view \<subseteq> v: frame_relation "unchanged f"
  by unfold_locales (auto simp: unchanged_def)

context desk_view
begin

lemma keeps_stmt: "(\<And>w. f (snd (g w)) = f w) \<Longrightarrow> keeps (unchanged f) (stmt what g)"
  by (auto simp: keeps_def unchanged_def stmt_def Let_def tick_def f_stock)

lemma keeps_desk_read: "keeps (unchanged f) (desk_read what q)"
  unfolding desk_read_def by (rule keeps_stmt) simp

lemma keeps_desk_write: "(\<And>w. f (g w) = f w) \<Longrightarrow> keeps (unchanged f) (desk_write what ok g)"
  unfolding desk_write_def by (rule keeps_stmt) simp

lemma keeps_desk_update: "(\<And>w. f (g w) = f w) \<Longrightarrow> keeps (unchanged f) (desk_update what e found ok g)"
  unfolding desk_update_def by (rule keeps_stmt) simp

lemma keeps_stocked: "keeps (trel (=)) m \<Longrightarrow> keeps (unchanged f) (stocked m)"
  unfolding keeps_def unchanged_def stocked_def trel_def
  by (auto split: prod.splits sum.splits) (metis f_stock snd_conv)+

lemma keeps_desk_now: "keeps (unchanged f) desk_now"
  unfolding desk_now_def by (rule keeps_stocked, rule keeps_time_now) simp

lemma keeps_desk_id: "keeps (unchanged f) desk_id"
  unfolding desk_id_def by (rule keeps_stocked, rule keeps_generate_id) simp

lemmas view_rules = v.keeps_rules keeps_desk_read keeps_desk_now keeps_desk_id

lemma view_reads:
  "keeps (unchanged f) (select_strategy i)" "keeps (unchanged f) (select_version i)" "keeps (unchanged f) (list_versions i)"
  "keeps (unchanged f) (next_version_no i)" "keeps (unchanged f) (get_hit i)" "keeps (unchanged f) (get_alert i)"
  "keeps (unchanged f) (find_alert_by_key key)" "keeps (unchanged f) (find_watch_alert_by_key wid key)"
  "keeps (unchanged f) (latest_quote_of code)" "keeps (unchanged f) (completed_agent_run i)" "keeps (unchanged f) (get_review i)"
  "keeps (unchanged f) (active_review_of_hit i)" "keeps (unchanged f) (get_watch i)" "keeps (unchanged f) (find_strategy_watch i)"
  "keeps (unchanged f) (find_monitor_watch i)" "keeps (unchanged f) (latest_bar code)" "keeps (unchanged f) (select_candidate i)"
  "keeps (unchanged f) (select_known what ids i)"
  by (simp_all add: select_strategy_def select_version_def list_versions_def next_version_no_def get_hit_def get_alert_def
      find_alert_by_key_def find_watch_alert_by_key_def latest_alert_def latest_quote_of_def completed_agent_run_def get_review_def
      active_review_of_hit_def get_watch_def find_strategy_watch_def find_monitor_watch_def newest_watch_def latest_bar_def
      select_candidate_def select_known_def keeps_desk_read)

lemma view_stock_reads:
  "keeps (unchanged f) (stocked (select_portfolio pid))" "keeps (unchanged f) (stocked (select_holdings pid))"
  "keeps (unchanged f) (stocked (select_valuations pid n))"
  by (auto intro!: keeps_stocked keeps_sql_read simp: select_portfolio_def select_holdings_def select_valuations_def)

lemma view_active_version: "keeps (unchanged f) (active_version s)"
  unfolding active_version_def by (auto intro!: view_rules view_reads split: sum.split)

lemma view_get_strategy: "keeps (unchanged f) (get_strategy i)"
  unfolding get_strategy_def by (auto intro!: view_rules view_reads view_active_version)

lemma view_trace: "keeps (unchanged f) (trace_state pid code)"
  unfolding trace_state_def by (auto intro!: view_rules view_stock_reads)

lemma view_guard_portfolio: "keeps (unchanged f) (guard_portfolio pid)"
  unfolding guard_portfolio_def by (auto intro!: view_rules view_stock_reads split: sum.split)

lemma view_guardrails_input: "keeps (unchanged f) (guardrails_input r p)"
  unfolding guardrails_input_def Let_def by (auto intro!: view_rules view_reads view_guard_portfolio split: prod.split)

lemma view_apply_guardrails: "keeps (unchanged f) (apply_operation_guardrails r m)"
  unfolding apply_operation_guardrails_def Let_def by (auto intro!: view_rules view_guardrails_input split: sum.split)

lemma view_result_to_save: "keeps (unchanged f) (result_to_save r output m)"
  unfolding result_to_save_def by (auto intro!: view_rules view_apply_guardrails)

lemma view_review_price: "keeps (unchanged f) (review_price r p override)"
  unfolding review_price_def Let_def by (auto intro!: view_rules view_reads split: option.split)

lemma view_alert_of_review: "keeps (unchanged f) (alert_of_review r)"
  unfolding alert_of_review_def by (auto intro!: view_rules view_reads)

lemma view_agent_of_review: "keeps (unchanged f) (agent_of_review given i)"
  unfolding agent_of_review_def by (auto intro!: view_rules view_reads split: option.split)

lemma view_task_cooldown: "keeps (unchanged f) (task_cooldown task)"
  unfolding task_cooldown_def by (auto intro!: view_rules)

lemma view_actionable: "keeps (unchanged f) (actionable_review i)"
  unfolding actionable_review_def by (auto intro!: view_rules view_reads)

lemma view_links: "keeps (unchanged f) (strategy_or_none i)" "keeps (unchanged f) (portfolio_context pid)"
  unfolding strategy_or_none_def portfolio_context_def
  by (auto intro!: view_rules view_stock_reads view_get_strategy split: sum.split)

lemma view_context: "keeps (unchanged f) (build_context_pack out h)"
  unfolding build_context_pack_def Let_def by (rule v.keeps_bindE keeps_if view_reads view_links v.keeps_ret)+

lemma view_validate: "keeps (unchanged f) (validate_strategy s)" "keeps (unchanged f) (validate_watch x)"
  unfolding validate_strategy_def validate_watch_def by (rule keeps_if v.keeps_throw v.keeps_bindE v.keeps_ret view_stock_reads)+

lemma view_fill_version: "keeps (unchanged f) (fill_watch_version x)"
  unfolding fill_watch_version_def by (auto intro!: view_rules view_reads view_get_strategy)

lemma view_config: "keeps (unchanged f) (config_of_strategy s sv)"
  unfolding config_of_strategy_def Let_def by (auto intro!: view_rules view_stock_reads)

lemma view_evaluate:
  "keeps (unchanged f) (evaluate_quote_rule r now)" "keeps (unchanged f) (evaluate_bar_rule r)" "keeps (unchanged f) (evaluate_weight_rule x r)"
  unfolding evaluate_quote_rule_def evaluate_bar_rule_def evaluate_weight_rule_def Let_def
  by (auto intro!: view_rules view_reads view_stock_reads split: sum.split option.split list.split)

lemma view_evaluate_rules: "keeps (unchanged f) (evaluate_rules x now rs)"
  by (induction rs) (auto intro!: view_rules view_evaluate simp: evaluate_rule_def)

end

section \<open>Views without alerts, hits, runs and watches\<close>

locale side_view = desk_view f for f :: "desk \<Rightarrow> 'b" +
  assumes f_alerts: "f (w\<lparr>dk_alerts := xa\<rparr>) = f w" and f_hits: "f (w\<lparr>dk_hits := xh\<rparr>) = f w"
    and f_runs: "f (w\<lparr>dk_runs := xr\<rparr>) = f w" and f_watches: "f (w\<lparr>dk_watches := xw\<rparr>) = f w"
begin

lemma side_hits: "keeps (unchanged f) (change_hit what i g)" "keeps (unchanged f) (update_hit_status i status)"
  "keeps (unchanged f) (update_hit_evidence i ev d)" "keeps (unchanged f) (update_hit_alert i a status)"
  "keeps (unchanged f) (bump_run what h i)" "keeps (unchanged f) (increment_review_count i)" "keeps (unchanged f) (increment_alert_count i)"
  by (auto intro!: view_rules keeps_desk_update keeps_desk_write simp: change_hit_def update_hit_status_def update_hit_evidence_def
      update_hit_alert_def bump_run_def increment_review_count_def increment_alert_count_def f_hits f_runs)

lemma side_create_hit: "keeps (unchanged f) (create_monitor_hit h)"
  unfolding create_monitor_hit_def Let_def by (auto intro!: view_rules keeps_desk_write simp: f_hits)

lemma side_alerts: "keeps (unchanged f) (insert_alert a)" "keeps (unchanged f) (update_alert a)"
  unfolding insert_alert_def update_alert_def Let_def
  by (auto intro!: view_rules keeps_desk_write keeps_desk_update simp: f_alerts)

lemma side_set_alert_status: "keeps (unchanged f) (set_alert_status i status)"
  unfolding set_alert_status_def Let_def by (auto intro!: view_rules view_reads side_alerts)

lemma side_upsert: "keeps (unchanged f) (upsert_monitor_alert out h c r agent src reason ev)"
  unfolding upsert_monitor_alert_def Let_def by (auto intro!: view_rules view_reads side_alerts side_hits split: sum.split)

lemma side_review_alerts:
  "keeps (unchanged f) (suppress_alert h r)" "keeps (unchanged f) (raise_review_alert out h r given)"
  "keeps (unchanged f) (update_review_alert r status)"
  unfolding suppress_alert_def raise_review_alert_def update_review_alert_def Let_def
  by (auto intro!: view_rules view_reads side_alerts side_hits side_upsert side_set_alert_status view_task_cooldown view_agent_of_review
      split: sum.split)

lemma side_sync: "keeps (unchanged f) (sync_alert out r given)"
  unfolding sync_alert_def by (auto intro!: view_rules view_reads side_review_alerts)

lemma side_watch_rows: "keeps (unchanged f) (insert_watch x)" "keeps (unchanged f) (update_watch_row x)"
  unfolding insert_watch_def update_watch_row_def Let_def
  by (auto intro!: view_rules keeps_desk_write keeps_desk_update simp: f_watches)

lemma side_create_watch: "keeps (unchanged f) (create_watch rq)"
  unfolding create_watch_def by (auto intro!: view_rules view_fill_version view_validate side_watch_rows)

lemma side_watches:
  "keeps (unchanged f) (update_watch i u)" "keeps (unchanged f) (set_watch_status i status)" "keeps (unchanged f) (archive_watch i)"
  unfolding update_watch_def set_watch_status_def archive_watch_def
  by (auto intro!: view_rules view_reads view_fill_version view_validate side_watch_rows)

lemma side_template_watches: "keeps (unchanged f) (create_strategy_watch i)" "keeps (unchanged f) (create_monitor_watch i)"
  unfolding create_strategy_watch_def create_monitor_watch_def Let_def
  by (auto intro!: view_rules view_reads view_get_strategy view_stock_reads view_config side_create_watch split: sum.split option.split)

lemma side_create_alert: "keeps (unchanged f) (create_alert rq)"
  unfolding create_alert_def reused_alert_def Let_def
  by (auto intro!: view_rules view_reads side_alerts side_watch_rows split: sum.split option.split)

lemma side_run_watch: "keeps (unchanged f) (run_watch i)"
  unfolding run_watch_def Let_def
  by (auto intro!: view_rules view_reads side_watch_rows view_evaluate_rules side_create_alert split: prod.split)

end

section \<open>Views without strategies, without reviews, without the stock\<close>

locale plan_blind = side_view f for f :: "desk \<Rightarrow> 'b" +
  assumes f_strategies: "f (w\<lparr>dk_strategies := xs\<rparr>) = f w" and f_versions: "f (w\<lparr>dk_versions := xv\<rparr>) = f w"
begin

lemma keeps_tx: "keeps (unchanged f) m \<Longrightarrow> keeps (unchanged f) (desk_tx b c m)"
proof -
  assume m: "keeps (unchanged f) m"
  have undo: "f (restore old new) = f old" for old new
    unfolding restore_def by (rule f_stock) simp
  have r: "f (snd (desk_read what q w)) = f w" for what q w
    using keeps_desk_read [of what q] by (simp add: keeps_def unchanged_def)
  have mm: "f (snd (m w)) = f w" for w using m by (simp add: keeps_def unchanged_def)
  show ?thesis
    unfolding keeps_def unchanged_def desk_tx_def
    by (auto split: prod.splits sum.splits simp: undo) (metis r mm snd_conv)+
qed

lemma plan_statements:
  "keeps (unchanged f) (insert_strategy_tx s)" "keeps (unchanged f) (update_strategy_tx s)" "keeps (unchanged f) (insert_version_tx sv)"
  by (auto intro!: keeps_desk_write keeps_desk_update simp: insert_strategy_tx_def update_strategy_tx_def insert_version_tx_def
      f_strategies f_versions)

lemma plan_update: "keeps (unchanged f) (update_strategy_with_version s nv)"
  unfolding update_strategy_with_version_def update_strategy_in_tx_def Let_def
  by (auto intro!: view_rules view_reads keeps_tx plan_statements view_active_version split: option.split prod.split)

lemma plan_create: "keeps (unchanged f) (create_strategy rq)"
  unfolding create_strategy_def create_strategy_with_version_def Let_def
  by (auto intro!: view_rules keeps_tx plan_statements view_validate)

lemma plan_operations:
  "keeps (unchanged f) (update_strategy i u)" "keeps (unchanged f) (set_strategy_status i status)" "keeps (unchanged f) (archive_strategy i)"
  "keeps (unchanged f) (create_portfolio_monitor pid mq)"
  unfolding update_strategy_def set_strategy_status_def archive_strategy_def create_portfolio_monitor_def Let_def
  by (auto intro!: view_rules view_get_strategy view_validate view_stock_reads plan_update plan_create)

end

locale review_blind = side_view f for f :: "desk \<Rightarrow> 'b" +
  assumes f_reviews: "f (w\<lparr>dk_reviews := xs\<rparr>) = f w"
begin

lemma blind_rows: "keeps (unchanged f) (insert_review out r)" "keeps (unchanged f) (save_review_row out r)"
  unfolding insert_review_def save_review_row_def Let_def
  by (auto intro!: view_rules view_reads keeps_desk_write keeps_desk_update simp: f_reviews)

lemma blind_open: "keeps (unchanged f) (create_review_from_hit out i)"
  unfolding create_review_from_hit_def
  by (auto intro!: view_rules view_reads view_context blind_rows side_hits split: option.split sum.split)

lemma blind_save: "keeps (unchanged f) (save_review_result out i rq agent)"
  unfolding save_review_result_def Let_def
  by (auto intro!: view_rules view_reads view_result_to_save blind_rows side_hits side_sync split: sum.split)

lemma blind_acceptance: "keeps (unchanged f) (save_acceptance out r status reason extra alert_status)"
  unfolding save_acceptance_def Let_def by (auto intro!: view_rules blind_rows side_hits side_review_alerts)

lemma blind_refuse: "keeps (unchanged f) (reject_review out i rq)" "keeps (unchanged f) (defer_review out i rq)"
  unfolding reject_review_def defer_review_def by (auto intro!: view_rules view_actionable blind_acceptance)

lemma blind_accept_operation:
  assumes "\<And>p side t. keeps (unchanged f) (execute_operation out r p side t)"
  shows "keeps (unchanged f) (accept_operation out r rq)"
  unfolding accept_operation_def Let_def
  by (auto intro!: view_rules view_review_price assms blind_acceptance split: sum.split)

lemma blind_accept_patch:
  assumes "\<And>s nv. keeps (unchanged f) (update_strategy_with_version s nv)"
  shows "keeps (unchanged f) (accept_strategy_patch out r)"
  unfolding accept_strategy_patch_def Let_def
  by (auto intro!: view_rules view_get_strategy view_agent_of_review assms blind_acceptance split: option.split)

end

locale stock_blind = side_view f for f :: "desk \<Rightarrow> 'b" +
  assumes f_any_stock: "f (w\<lparr>dk_stock := k\<rparr>) = f w"
begin

lemma keeps_any_stocked: "keeps (unchanged f) (stocked m)"
  by (auto simp: keeps_def unchanged_def stocked_def f_any_stock split: prod.split sum.split)

lemma blind_execute: "keeps (unchanged f) (execute_operation out r p side t)"
  unfolding execute_operation_def Let_def
  by (auto intro!: view_rules view_guardrails_input view_trace view_alert_of_review keeps_any_stocked)

end

section \<open>The views of the desk\<close>

definition view_tables :: "desk \<Rightarrow> tables" where
  "view_tables w = st_tables (dk_stock w)"

definition view_plans :: "desk \<Rightarrow> strategy list \<times> strategy_version list" where
  "view_plans w = (dk_strategies w, dk_versions w)"

interpretation tables: plan_blind view_tables
  by unfold_locales (simp_all add: view_tables_def)

interpretation tables: review_blind view_tables
  by unfold_locales (simp_all add: view_tables_def)

interpretation plans: review_blind view_plans
  by unfold_locales (simp_all add: view_plans_def)

interpretation plans: stock_blind view_plans
  by unfold_locales (simp_all add: view_plans_def)

interpretation reviews: plan_blind dk_reviews
  by unfold_locales simp_all

interpretation reviews: stock_blind dk_reviews
  by unfold_locales simp_all

end
