(* ===== verification/DeskRuns.thy ===== *)
theory DeskRuns
  imports DeskLaws
begin

text \<open>
  Runs of operations on the desk, with any failing statements: portfolio operations, strategies, watches,
  alerts, hits and reviews in any order.  A review that was accepted or rejected stays as it is.
\<close>

section \<open>Operations\<close>

datatype desk_op =
    DoStock stock_op
  | DoCreateStrategy strategy_request
  | DoUpdateStrategy string strategy_patch
  | DoStrategyStatus string string
  | DoArchiveStrategy string
  | DoMonitorStrategy string monitor_request
  | DoCreateWatch watch_request
  | DoUpdateWatch string watch_patch
  | DoWatchStatus string string
  | DoArchiveWatch string
  | DoStrategyWatch string
  | DoMonitorWatch string
  | DoRunWatch string
  | DoCreateAlert alert_request
  | DoAlertStatus string string
  | DoHit monitor_hit
  | DoOpenReview string
  | DoSaveReview string save_request "agent_run option"
  | DoAccept string action_request
  | DoReject string action_request
  | DoDefer string action_request

text \<open>\<^verbatim>\<open>ON DELETE SET NULL\<close>: what refers to a portfolio that is gone forgets it.\<close>

definition drop_links :: "desk \<Rightarrow> desk" where
  "drop_links w =
     (let gone = (\<lambda>pid. \<not> has_portfolio pid (st_tables (dk_stock w)))
      in w\<lparr>dk_strategies := map (\<lambda>s. if gone (sg_portfolio s) then s\<lparr>sg_portfolio := []\<rparr> else s) (dk_strategies w),
           dk_watches := map (\<lambda>x. if gone (wt_portfolio x) then x\<lparr>wt_portfolio := []\<rparr> else x) (dk_watches w)\<rparr>)"

fun desk_step :: "outside \<Rightarrow> desk_op \<Rightarrow> desk \<Rightarrow> desk" where
  "desk_step out (DoStock a) w = drop_links (w\<lparr>dk_stock := stock_step (out_lower out) a (dk_stock w)\<rparr>)"
| "desk_step out (DoCreateStrategy rq) w = snd (create_strategy rq w)"
| "desk_step out (DoUpdateStrategy i u) w = snd (update_strategy i u w)"
| "desk_step out (DoStrategyStatus i s) w = snd (set_strategy_status i s w)"
| "desk_step out (DoArchiveStrategy i) w = snd (archive_strategy i w)"
| "desk_step out (DoMonitorStrategy i rq) w = snd (create_portfolio_monitor i rq w)"
| "desk_step out (DoCreateWatch rq) w = snd (create_watch rq w)"
| "desk_step out (DoUpdateWatch i u) w = snd (update_watch i u w)"
| "desk_step out (DoWatchStatus i s) w = snd (set_watch_status i s w)"
| "desk_step out (DoArchiveWatch i) w = snd (archive_watch i w)"
| "desk_step out (DoStrategyWatch i) w = snd (create_strategy_watch i w)"
| "desk_step out (DoMonitorWatch i) w = snd (create_monitor_watch i w)"
| "desk_step out (DoRunWatch i) w = snd (run_watch i w)"
| "desk_step out (DoCreateAlert rq) w = snd (create_alert rq w)"
| "desk_step out (DoAlertStatus i s) w = snd (set_alert_status i s w)"
| "desk_step out (DoHit h) w = snd (create_monitor_hit h w)"
| "desk_step out (DoOpenReview i) w = snd (create_review_from_hit out i w)"
| "desk_step out (DoSaveReview i rq a) w = snd (save_review_result out i rq a w)"
| "desk_step out (DoAccept i rq) w = snd (accept_review out i rq w)"
| "desk_step out (DoReject i rq) w = snd (reject_review out i rq w)"
| "desk_step out (DoDefer i rq) w = snd (defer_review out i rq w)"

section \<open>One review at a time\<close>

text \<open>Only the review with this id may change, and none disappears or changes its id.\<close>

definition only_review :: "string \<Rightarrow> desk \<Rightarrow> desk \<Rightarrow> bool" where
  "only_review i w w' \<longleftrightarrow> map rv_id (dk_reviews w') = map rv_id (dk_reviews w) \<and>
     (\<forall>r \<in> set (dk_reviews w). rv_id r \<noteq> i \<longrightarrow> r \<in> set (dk_reviews w'))"

interpretation one: frame_relation "only_review i" for i
  by unfold_locales (auto simp: only_review_def)

lemma one_of_unchanged: "keeps (unchanged dk_reviews) m \<Longrightarrow> keeps (only_review i) m"
  by (simp add: keeps_def unchanged_def only_review_def)

lemma keeps_mono: "(\<And>w w'. R w w' \<Longrightarrow> S w w') \<Longrightarrow> keeps R m \<Longrightarrow> keeps S m"
  by (simp add: keeps_def)

lemma rv_id_saved [simp]: "rv_id (saved_columns out r now x) = rv_id x"
  by (simp add: saved_columns_def review_row_def)

lemma one_save_row: "rv_id r = i \<Longrightarrow> keeps (only_review i) (save_review_row out r)"
  unfolding save_review_row_def Let_def
proof (intro one.keeps_rules)
  fix now assume i: "rv_id r = i"
  show "keeps (only_review i) (desk_update ''save operation review result'' ErrOperationReviewNotFound (has_review (rv_id r))
        (\<lambda>w. rv_status r = ''closed'' \<or> list_all (\<lambda>x. rv_id x = rv_id r \<longrightarrow> hit_free (rv_id r) (rv_hit x) w) (dk_reviews w))
        (\<lambda>w. w\<lparr>dk_reviews := map (\<lambda>x. if rv_id x = rv_id r then saved_columns out r now x else x) (dk_reviews w)\<rparr>))"
    using i by (auto simp: keeps_def only_review_def desk_update_def stmt_def Let_def image_iff)
qed (rule one_of_unchanged, rule reviews.keeps_desk_now, rule one_of_unchanged, rule reviews.view_reads)

lemma one_acceptance: "rv_id r = i \<Longrightarrow> keeps (only_review i) (save_acceptance out r status reason extra alert_status)"
  unfolding save_acceptance_def Let_def
  by (intro one.keeps_rules one_save_row; (rule one_of_unchanged, rule reviews.view_rules reviews.side_hits reviews.side_review_alerts)?)
    simp_all

lemmas one_views = one_of_unchanged [OF reviews.view_review_price] one_of_unchanged [OF reviews.blind_execute]
  one_of_unchanged [OF reviews.view_get_strategy] one_of_unchanged [OF reviews.view_agent_of_review]
  one_of_unchanged [OF reviews.plan_update] one_of_unchanged [OF reviews.view_result_to_save]
  one_of_unchanged [OF reviews.side_hits(2)] one_of_unchanged [OF reviews.side_sync] one_of_unchanged [OF reviews.keeps_desk_now]

lemma one_accept_operation: "keeps (only_review (rv_id r)) (accept_operation out r rq)"
  unfolding accept_operation_def Let_def
  by (auto intro!: one.keeps_rules one_views one_acceptance split: sum.split)

lemma one_accept_patch: "keeps (only_review (rv_id r)) (accept_strategy_patch out r)"
  unfolding accept_strategy_patch_def Let_def
  by (auto intro!: one.keeps_rules one_views one_acceptance split: option.split)

section \<open>Decisions\<close>

definition decisions_kept :: "desk \<Rightarrow> desk \<Rightarrow> bool" where
  "decisions_kept w w' \<longleftrightarrow> (distinct (map rv_id (dk_reviews w)) \<longrightarrow>
     distinct (map rv_id (dk_reviews w')) \<and>
     (\<forall>r \<in> set (dk_reviews w). acceptance_terminal (rv_result r) \<longrightarrow> r \<in> set (dk_reviews w')))"

interpretation dec: frame_relation decisions_kept
  by unfold_locales (auto simp: decisions_kept_def)

lemma dec_of_unchanged: "keeps (unchanged dk_reviews) m \<Longrightarrow> keeps decisions_kept m"
  by (simp add: keeps_def unchanged_def decisions_kept_def)

lemma get_review_cases:
  assumes "get_review i w = (res, w')"
  shows "dk_reviews w' = dk_reviews w \<and> (\<forall>r. res = Inr r \<longrightarrow> r \<in> set (dk_reviews w) \<and> rv_id r = i)"
  using assms by (auto simp: get_review_def desk_read_def stmt_def Let_def tick_def dest: find_SomeD split: if_splits option.splits)

text \<open>An operation that refuses decided reviews and else changes only the review it read.\<close>

lemma dec_guarded:
  assumes open_case: "\<And>r. \<not> acceptance_terminal (rv_result r) \<Longrightarrow> keeps (only_review (rv_id r)) (g r)"
    and refused: "\<And>r. acceptance_terminal (rv_result r) \<Longrightarrow> \<exists>e. g r = throw e"
  shows "keeps decisions_kept (bindE (get_review i) g)"
  unfolding keeps_def
proof
  fix w
  obtain res w1 where get: "get_review i w = (res, w1)" by fastforce
  note rows = get_review_cases [OF get]
  show "decisions_kept w (snd (bindE (get_review i) g w))"
  proof (cases res)
    case (Inl e)
    then show ?thesis using get rows by (simp add: bindE_def decisions_kept_def)
  next
    case (Inr r)
    then have run: "bindE (get_review i) g w = g r w1" using get by (simp add: bindE_def)
    have r: "r \<in> set (dk_reviews w)" using rows Inr by blast
    show ?thesis
    proof (cases "acceptance_terminal (rv_result r)")
      case True
      from refused [OF True] obtain e where "g r = throw e" ..
      then show ?thesis using rows by (simp add: run throw_def decisions_kept_def)
    next
      case False
      from open_case [OF False] have one: "only_review (rv_id r) w1 (snd (g r w1))" by (simp add: keeps_def)
      have other: "rv_id q \<noteq> rv_id r" if "distinct (map rv_id (dk_reviews w))" "q \<in> set (dk_reviews w)" "acceptance_terminal (rv_result q)" for q
        using that r False by (auto simp: distinct_map inj_on_def)
      show ?thesis using one other rows by (auto simp: run only_review_def decisions_kept_def)
    qed
  qed
qed

lemma dec_save: "keeps decisions_kept (save_review_result out i rq agent)"
  unfolding save_review_result_def Let_def
  by (rule dec_guarded) (auto intro!: one.keeps_rules one_views one_save_row split: sum.split prod.split)

lemma accept_form:
  "accept_review out i rq = bindE (get_review (trim_space i)) (\<lambda>r.
     if acceptance_terminal (rv_result r) then throw (if rv_status r \<noteq> ''completed'' then ErrInvalidOperationReviewStatus
       else if rv_output r \<noteq> ''proposed_operation'' \<and> rv_output r \<noteq> ''strategy_patch'' then ErrInvalidOperationReviewOutputType
       else ErrInvalidOperationReviewAction)
     else if rv_status r \<noteq> ''completed'' then throw ErrInvalidOperationReviewStatus
     else if rv_output r = ''proposed_operation'' then accept_operation out r rq
     else if rv_output r = ''strategy_patch'' then accept_strategy_patch out r
     else throw ErrInvalidOperationReviewOutputType)"
  unfolding accept_review_def actionable_review_def bindE_assoc by (rule arg_cong [where f = "bindE _"]) (simp add: fun_eq_iff)

lemma refuse_form:
  "bindE (actionable_review i) (\<lambda>r. if acceptance_terminal (rv_result r) then throw ErrInvalidOperationReviewAction else g r) =
   bindE (get_review (trim_space i)) (\<lambda>r.
     if acceptance_terminal (rv_result r) then throw (if rv_status r \<noteq> ''completed'' then ErrInvalidOperationReviewStatus
       else if rv_output r \<noteq> ''proposed_operation'' \<and> rv_output r \<noteq> ''strategy_patch'' then ErrInvalidOperationReviewOutputType
       else ErrInvalidOperationReviewAction)
     else if rv_status r \<noteq> ''completed'' then throw ErrInvalidOperationReviewStatus
     else if rv_output r \<noteq> ''proposed_operation'' \<and> rv_output r \<noteq> ''strategy_patch'' then throw ErrInvalidOperationReviewOutputType
     else g r)"
  unfolding actionable_review_def bindE_assoc by (rule arg_cong [where f = "bindE _"]) (simp add: fun_eq_iff)

lemma dec_decide:
  "keeps decisions_kept (accept_review out i rq)" "keeps decisions_kept (reject_review out i rq)" "keeps decisions_kept (defer_review out i rq)"
  unfolding accept_form reject_review_def defer_review_def refuse_form
  by (rule dec_guarded; auto intro!: one.keeps_rules one_accept_operation one_accept_patch one_acceptance)+

lemma rv_id_review_row [simp]: "rv_id (review_row r) = rv_id r"
  by (simp add: review_row_def)

lemma dec_insert_row:
  "rv_id r = i \<Longrightarrow> keeps decisions_kept (desk_write what (\<lambda>w. \<not> has_review i w \<and> p w)
     (\<lambda>w. w\<lparr>dk_reviews := dk_reviews w @ [review_row r]\<rparr>))"
  by (auto simp: keeps_def decisions_kept_def desk_write_def stmt_def has_review_def Let_def tick_def)

lemma dec_insert: "keeps decisions_kept (insert_review out r)"
  unfolding insert_review_def Let_def
  by (rule dec.keeps_bindE dec.keeps_seqE dec.keeps_ret dec_insert_row keeps_if dec_of_unchanged [OF reviews.keeps_desk_now]
      dec_of_unchanged [OF reviews.keeps_desk_id] | simp)+

lemma dec_open: "keeps decisions_kept (create_review_from_hit out i)"
  unfolding create_review_from_hit_def
  by (auto intro!: dec.keeps_rules dec_insert dec_of_unchanged [OF reviews.view_reads(5)] dec_of_unchanged [OF reviews.view_reads(12)]
      dec_of_unchanged [OF reviews.view_context] dec_of_unchanged [OF reviews.keeps_desk_now] dec_of_unchanged [OF reviews.keeps_desk_id]
      dec_of_unchanged [OF reviews.side_hits(6)] split: option.split sum.split)

lemma dec_step: "decisions_kept w (desk_step out a w)"
proof -
  have k: "keeps decisions_kept m \<Longrightarrow> decisions_kept w (snd (m w))" for m by (simp add: keeps_def)
  note u = dec_of_unchanged
  show ?thesis
  proof (cases a)
    case (DoStock x)
    then show ?thesis by (simp add: decisions_kept_def drop_links_def Let_def)
  qed (auto intro!: k dec_save dec_decide dec_open u reviews.plan_create reviews.plan_operations reviews.side_create_watch
      reviews.side_watches reviews.side_template_watches reviews.side_run_watch reviews.side_create_alert
      reviews.side_set_alert_status reviews.side_create_hit)
qed

lemma dec_run: "decisions_kept w (fold (desk_step out) ops w)"
  by (induction ops arbitrary: w) (auto intro: dec.frame_refl dec.frame_trans dec_step)

lemma decided_accept_fails:
  assumes "distinct (map rv_id (dk_reviews w))" "r \<in> set (dk_reviews w)" "acceptance_terminal (rv_result r)" "trim_space i = rv_id r"
  shows "\<exists>e. fst (accept_review out i rq w) = Inl e" "view_tables (snd (accept_review out i rq w)) = view_tables w"
proof -
  obtain res w1 where get: "get_review (rv_id r) w = (res, w1)" by fastforce
  have "res = Inr q \<Longrightarrow> q = r" for q
    using get_review_cases [OF get] assms(1,2) by (auto simp: distinct_map inj_on_def)
  then have acc: "\<exists>e. accept_review out i rq w = (Inl e, w1)"
    using get assms(3,4) by (cases res) (auto simp: accept_form bindE_def throw_def)
  then show "\<exists>e. fst (accept_review out i rq w) = Inl e" by auto
  have "view_tables w1 = view_tables w"
    using tables.view_reads(11) [of "rv_id r"] get by (simp add: keeps_def unchanged_def) (metis snd_conv)
  then show "view_tables (snd (accept_review out i rq w)) = view_tables w" using acc by auto
qed

definition decided_review :: review where
  "decided_review = \<lparr>rv_id = ''r1'', rv_hit = ''h1'', rv_run = [], rv_status = ''completed'', rv_output = ''proposed_operation'',
     rv_strategy = [], rv_portfolio = ''p'', rv_symbol = ''600000'', rv_market = ''SH'',
     rv_result = [(''acceptanceStatus'', AnyStr ''rejected'')], rv_summary = [], rv_error = [], rv_created_at = 1,
     rv_updated_at = 2, rv_completed_at = 2, rv_closed_at = 0\<rparr>"

definition sample_desk :: desk where
  "sample_desk = \<lparr>dk_stock = sample_stock, dk_strategies = [], dk_versions = [], dk_watches = [], dk_alerts = [], dk_runs = [],
     dk_hits = [], dk_reviews = [decided_review], dk_agent_runs = [], dk_cooldowns = [], dk_quotes = [], dk_bars = [],
     dk_candidates = [], dk_news_events = [], dk_profiles = []\<rparr>"

definition sample_outside :: outside where
  "sample_outside = \<lparr>out_lower = id, out_fetch = (\<lambda>_. Inr []), out_instrument = (\<lambda>s. (s, ''SH'')), out_redact = (\<lambda>s _. s),
     out_shortest = (\<lambda>_. []), out_print = (\<lambda>_. [])\<rparr>"

definition sample_action :: action_request where
  "sample_action = \<lparr>aq_reason = [], aq_executed_at = [], aq_price = f0, aq_quantity = f0\<rparr>"

section \<open>Properties\<close>

text \<open>
  C31: A decision on a review is final.  Once the stored result of a review says accepted or rejected, no run of
  operations on the desk, with any failing statements, changes the row, and a further acceptance is refused
  without touching cash, holdings or trades.
\<close>

theorem decided_review_final:
  fixes w :: desk and ops :: "desk_op list" and out :: outside and rq :: action_request
  assumes "distinct (map rv_id (dk_reviews w))" and "r \<in> set (dk_reviews w)" and "acceptance_terminal (rv_result r)"
    and "trim_space (rv_id r) = rv_id r"
  defines "w' \<equiv> fold (desk_step out) ops w"
  shows "r \<in> set (dk_reviews w') \<and> (\<exists>e. fst (accept_review out (rv_id r) rq w') = Inl e) \<and>
    view_tables (snd (accept_review out (rv_id r) rq w')) = view_tables w'"
proof -
  have kept: "distinct (map rv_id (dk_reviews w'))" "r \<in> set (dk_reviews w')"
    using dec_run [of w out ops] assms by (auto simp: decisions_kept_def)
  with decided_accept_fails [OF kept assms(3,4)] show ?thesis by blast
qed

theorem decided_review_final_witness:
  "decided_review \<in> set (dk_reviews (fold (desk_step sample_outside)
     [DoAccept ''r1'' sample_action, DoOpenReview ''h1'', DoStock (OpDeletePortfolio ''p'')] sample_desk))"
proof -
  have "distinct (map rv_id (dk_reviews sample_desk))" "decided_review \<in> set (dk_reviews sample_desk)" by (simp_all add: sample_desk_def)
  moreover have "acceptance_terminal (rv_result decided_review)" "trim_space (rv_id decided_review) = rv_id decided_review"
    by code_simp+
  ultimately show ?thesis by (rule conjunct1 [OF decided_review_final])
qed

end
