(* ===== verification/DeskTrades.thy ===== *)
theory DeskTrades
  imports DeskRuns
begin

text \<open>
  What an accepted review does to the account: the guardrails that run right before the trade keep every
  portfolio solvent, whatever fails; and an acceptance whose last write fails has traded but leaves the
  review open.
\<close>

section \<open>Rounding keeps the sign\<close>

lemma fround_nonneg: "0 < b \<Longrightarrow> 0 \<le> a \<Longrightarrow> fle f0 (fround a b)"
  using round_mag_nonneg [of b a] by (auto simp: fround_def Let_def fle_def zero_le_mult_iff sgn_if)

lemma fround_sign: "0 < b \<Longrightarrow> 0 \<le> a \<Longrightarrow> f0 \<noteq> fround a b \<Longrightarrow> flt f0 (fround a b)"
  using fround_nonneg [of b a] by (simp add: fle_def)

lemma f64_unit_pos: "0 < f64_unit"
  by (simp add: f64_unit_def)

lemma fsub_nonneg: "fle f0 c \<Longrightarrow> fle f0 a \<Longrightarrow> \<not> (fpos a \<and> flt c a) \<Longrightarrow> fsub c a \<noteq> NaN \<Longrightarrow> fle f0 (fsub c a)"
  by (cases c; cases a) (auto simp: fsub_def fle_def fpos_def intro!: fround_sign)

lemma fadd_nonneg: "fle f0 c \<Longrightarrow> fle f0 a \<Longrightarrow> fle f0 (fadd c a)"
  by (cases c; cases a) (auto simp: fle_def intro!: fround_sign)

lemma fmul_nonneg: "fpos q \<Longrightarrow> fpos p \<Longrightarrow> fle f0 (fmul q p)"
  by (cases q; cases p) (auto simp: fpos_def fle_def inf_of_def intro!: fround_sign f64_unit_pos)

section \<open>Solvency\<close>

text \<open>Tables that are a book, with no negative cash.\<close>

definition solvent :: "tables \<Rightarrow> bool" where
  "solvent t \<longleftrightarrow> book_ok t \<and> list_all (\<lambda>p. fle f0 (pf_cash p)) (tb_portfolios t)"

lemma tables_ok_portfolios: "tables_ok t \<Longrightarrow> distinct (map pf_id (tb_portfolios t))"
  by (simp add: tables_ok_def)

lemma cash_lookup:
  assumes "distinct (map pf_id (tb_portfolios t))" "p \<in> set (tb_portfolios t)"
  shows "bk_cash (book_of t) (pf_id p) = Some (pf_cash p)"
proof -
  have "distinct (map fst (map (\<lambda>p. (pf_id p, pf_cash p)) (tb_portfolios t)))" using assms(1) by (simp add: comp_def)
  then show ?thesis using assms(2) unfolding book_of_def by (auto intro!: map_of_is_SomeI)
qed

lemma cash_row: "bk_cash (book_of t) pid = Some c \<Longrightarrow> \<exists>p \<in> set (tb_portfolios t). pf_id p = pid \<and> pf_cash p = c"
  by (auto simp: book_of_def dest!: map_of_SomeD)

lemma solvent_iff:
  assumes "book_ok t" shows "solvent t \<longleftrightarrow> (\<forall>pid c. bk_cash (book_of t) pid = Some c \<longrightarrow> fle f0 c)"
proof -
  have "distinct (map pf_id (tb_portfolios t))" using assms by (simp add: book_ok_def tables_ok_portfolios)
  note found = cash_lookup [OF this]
  show ?thesis
  proof
    assume "solvent t"
    then show "\<forall>pid c. bk_cash (book_of t) pid = Some c \<longrightarrow> fle f0 c"
      using cash_row by (fastforce simp: solvent_def list_all_iff)
  next
    assume "\<forall>pid c. bk_cash (book_of t) pid = Some c \<longrightarrow> fle f0 c"
    then show "solvent t" using found assms by (auto simp: solvent_def list_all_iff)
  qed
qed

lemma cash_not_nan:
  assumes "tables_ok t" "bk_cash (book_of t) pid = Some c" shows "c \<noteq> NaN"
proof -
  from cash_row [OF assms(2)] obtain p where "p \<in> set (tb_portfolios t)" "pf_cash p = c" by auto
  with assms(1) show ?thesis by (auto simp: tables_ok_def list_all_iff portfolio_row_ok_def)
qed

lemma trade_stays_solvent:
  assumes sol: "solvent t" and ok': "book_ok t'" and book: "book_of t' = book_trade x (book_of t)" and cash: "bk_cash (book_of t) (td_portfolio x) = Some c"
    and amount: "fle f0 (td_amount x)" and covered: "td_side x = ''buy'' \<Longrightarrow> fpos (td_amount x) \<Longrightarrow> \<not> flt c (td_amount x)"
  shows "solvent t'"
  unfolding solvent_iff [OF ok']
proof (intro allI impI)
  fix pid d assume d: "bk_cash (book_of t') pid = Some d"
  have c: "fle f0 c" using sol cash solvent_iff [of t] by (auto simp: solvent_def)
  have t': "tables_ok t'" using ok' by (simp add: book_ok_def)
  note nan = cash_not_nan [OF t' d]
  show "fle f0 d"
  proof (cases "pid = td_portfolio x")
    case False
    then have "bk_cash (book_of t) pid = Some d" using d book by (auto simp: book_trade_def Let_def split: if_splits)
    then show ?thesis using sol solvent_iff [of t] by (auto simp: solvent_def)
  next
    case True
    then have "d = (if td_side x = ''buy'' then fsub c (td_amount x) else fadd c (td_amount x))"
      using d book cash by (auto simp: book_trade_def Let_def split: if_splits)
    then show ?thesis using fsub_nonneg [OF c amount] fadd_nonneg [OF c amount] covered nan by (auto split: if_splits)
  qed
qed

section \<open>The trade of an operation\<close>

definition solvency_kept :: "desk \<Rightarrow> desk \<Rightarrow> bool" where
  "solvency_kept w w' \<longleftrightarrow> (solvent (view_tables w) \<longrightarrow> solvent (view_tables w'))"

interpretation sk: frame_relation solvency_kept
  by unfold_locales (auto simp: solvency_kept_def)

lemma sk_of_unchanged: "keeps (unchanged view_tables) m \<Longrightarrow> keeps solvency_kept m"
  by (simp add: keeps_def unchanged_def solvency_kept_def)

text \<open>The portfolio that the guardrails see is the row of the tables, or none.\<close>

lemma guard_portfolio_row:
  assumes "guard_portfolio pid w = (Inr (p, hs, snap), w')" "pf_id p \<noteq> []"
  shows "p \<in> set (tb_portfolios (view_tables w)) \<and> pf_id p = pid"
  using assms
  by (auto simp: guard_portfolio_def bindE_def attempt_def stocked_def select_portfolio_def sql_read_def sql_def ret_def throw_def
      view_tables_def no_portfolio_def Let_def dest!: find_SomeD split: if_splits prod.splits sum.splits option.splits)

lemma filled_keeps:
  "op_portfolio p \<noteq> [] \<Longrightarrow> op_portfolio (filled_operation r p) = op_portfolio p" "op_amount (filled_operation r p) = op_amount p"
  "op_action (filled_operation r p) = normalize_action (op_action p)"
  by (simp_all add: filled_operation_def Let_def)

lemma filled_portfolio: "rv_portfolio r \<noteq> [] \<Longrightarrow> op_portfolio (filled_operation r p) \<noteq> []"
  by (simp add: filled_operation_def Let_def)

lemma guardrails_input_row:
  assumes "guardrails_input r p w = (Inr i, w')" "op_portfolio p \<noteq> []"
  shows "gi_operation i = filled_operation r p \<and>
    (pf_id (gi_portfolio i) \<noteq> [] \<longrightarrow> gi_portfolio i \<in> set (tb_portfolios (view_tables w)) \<and> pf_id (gi_portfolio i) = op_portfolio p)"
proof -
  from assms(1) obtain pf hs snap w1 where g: "guard_portfolio (op_portfolio (filled_operation r p)) w = (Inr (pf, hs, snap), w1)"
      and i: "gi_operation i = filled_operation r p" "gi_portfolio i = pf"
    by (auto simp: guardrails_input_def Let_def ret_def elim!: bind_cases)
  from guard_portfolio_row [OF g] assms(2) i show ?thesis by (auto simp: filled_keeps(1))
qed

lemma record_positive:
  "record_transaction ul fetch inst pid rq w = (Inr res, w') \<Longrightarrow> \<not> fle (tr_quantity rq) f0 \<and> \<not> fle (tr_price rq) f0 \<and>
     (trim_space (tr_side rq) = ''buy'' \<or> trim_space (tr_side rq) = ''sell'')"
  by (auto simp: record_transaction_def throw_def split: if_splits)

lemma pos_of_not_le: "\<not> fle x f0 \<Longrightarrow> x \<noteq> NaN \<Longrightarrow> fpos x"
  by (cases x) (auto simp: fpos_def fle_def)

lemma trade_amount:
  assumes "trade_of pid rq x" "\<not> fle (tr_quantity rq) f0" "\<not> fle (tr_price rq) f0" "trade_row_ok x"
  shows "fle f0 (td_amount x)"
  using assms by (auto simp: trade_of_def trade_row_ok_def intro!: fmul_nonneg pos_of_not_le)

lemma amount_positive: "fpos (op_amount p) \<Longrightarrow> operation_notional p q = op_amount p"
  by (simp add: operation_notional_def)

text \<open>A trade that the guardrails let pass is covered, so it keeps the portfolios solvent.\<close>

lemma covered_trade:
  assumes run: "record_transaction ul fetch inst (op_portfolio p) rq k = (res, k')" and sol: "solvent (st_tables k)"
    and i: "gi_operation i = filled_operation r p" "gu_status (evaluate_guardrails i now) \<noteq> ''blocked''"
    and row: "pf_id (gi_portfolio i) \<noteq> [] \<longrightarrow> gi_portfolio i \<in> set (tb_portfolios (st_tables k)) \<and> pf_id (gi_portfolio i) = op_portfolio p"
    and amount: "op_amount p = fmul (tr_quantity rq) (tr_price rq)"
    and buy: "trim_space (tr_side rq) = ''buy'' \<Longrightarrow> is_buy (normalize_action (op_action p))"
  shows "solvent (st_tables k')"
proof -
  have ok: "book_ok (st_tables k)" using sol by (simp add: solvent_def)
  note out = record_outcome [OF run ok]
  show ?thesis
  proof (cases res)
    case (Inl e)
    then show ?thesis using out sol by simp
  next
    case (Inr x)
    define y where "y = tt_trade x"
    have y: "trade_of (op_portfolio p) rq y" "book_admits y (book_of (st_tables k))"
        "book_of (st_tables k') = book_trade y (book_of (st_tables k))" "book_ok (st_tables k')"
      using out Inr by (simp_all add: y_def)
    have "y \<in> set (bk_trades (book_of (st_tables k')))" by (simp add: y(3) book_trade_def Let_def)
    then have "y \<in> set (tb_trades (st_tables k'))" by (simp add: book_of_def)
    then have "trade_row_ok y" using y(4) by (simp add: book_ok_def tables_ok_def list_all_iff)
    then have nonneg: "fle f0 (td_amount y)"
      using record_positive [OF run [unfolded Inr]] by (auto intro: trade_amount [OF y(1)])
    from y(2) obtain c where c: "bk_cash (book_of (st_tables k)) (td_portfolio y) = Some c" by (auto simp: book_admits_def)
    have "\<not> flt c (td_amount y)" if "td_side y = ''buy''" "fpos (td_amount y)"
    proof -
      have b: "is_buy (normalize_action (op_action (gi_operation i)))" "fpos (op_amount (gi_operation i))"
        using buy that y(1) by (simp_all add: trade_of_def i(1) filled_keeps is_buy_normalized amount)
      have n: "operation_notional (normalize_operation (gi_operation i)) (gi_quote i) = td_amount y"
        using b(2) y(1) by (simp add: amount_positive i(1) filled_keeps amount trade_of_def)
      note u = unblocked_buy [OF i(2) b(1)] 
      have "pf_id (gi_portfolio i) \<noteq> []" "\<not> flt (pf_cash (gi_portfolio i)) (td_amount y)"
        using u that(2) by (simp_all add: n)
      moreover have "c = pf_cash (gi_portfolio i)"
        using cash_lookup [of "st_tables k" "gi_portfolio i"] row c y(1) ok \<open>pf_id (gi_portfolio i) \<noteq> []\<close>
        by (simp add: trade_of_def book_ok_def tables_ok_portfolios)
      ultimately show ?thesis by simp
    qed
    with trade_stays_solvent [OF sol y(4) y(3) c nonneg] show ?thesis by blast
  qed
qed

lemma stocked_run: "stocked m w = (res, w') \<Longrightarrow> \<exists>r k. m (dk_stock w) = (r, k) \<and> w' = w\<lparr>dk_stock := k\<rparr> \<and>
    (case r of Inl e \<Rightarrow> res = Inl (Stock e) | Inr x \<Rightarrow> res = Inr x)"
  by (auto simp: stocked_def split: prod.splits sum.splits)

lemma sk_bind:
  assumes "keeps (unchanged view_tables) m" "\<And>x w1. m w = (Inr x, w1) \<Longrightarrow> solvency_kept w1 (snd (f x w1))"
  shows "solvency_kept w (snd (bindE m f w))"
proof -
  obtain res w1 where m: "m w = (res, w1)" by fastforce
  have "view_tables w1 = view_tables w" by (rule unchanged_state [OF assms(1) m])
  then show ?thesis using m assms(2) by (cases res) (auto simp: bindE_def solvency_kept_def)
qed

lemma sk_after: "solvency_kept w (snd (m w)) \<Longrightarrow> (\<And>x. keeps solvency_kept (f x)) \<Longrightarrow> solvency_kept w (snd (bindE m f w))"
  by (auto simp: bindE_def keeps_def solvency_kept_def split: prod.splits sum.splits)

lemma sk_execute:
  assumes p: "op_portfolio p \<noteq> []" and amount: "op_amount p = fmul (op_quantity p) (op_price p)"
    and side: "side_of_action (op_action p) = Inr side"
  shows "keeps solvency_kept (execute_operation out r p side t)"
  unfolding keeps_def
proof
  fix w
  show "solvency_kept w (snd (execute_operation out r p side t w))"
    unfolding execute_operation_def Let_def
  proof (rule sk_bind [OF tables.view_guardrails_input], rule sk_bind [OF tables.keeps_desk_now])
    fix i w1 now w2
    assume i: "guardrails_input r p w = (Inr i, w1)" and now: "desk_now w1 = (Inr now, w2)"
    note gi = guardrails_input_row [OF i p]
    have t2: "view_tables w2 = view_tables w"
      using unchanged_state [OF tables.view_guardrails_input i] unchanged_state [OF tables.keeps_desk_now now] by simp
    show "solvency_kept w2 (snd ((if gu_status (evaluate_guardrails i now) = ''blocked'' then throw ErrInvalidProposedOperation
       else bindE (trace_state (op_portfolio p) (op_symbol p)) (\<lambda>before.
       bindE (alert_of_review r) (\<lambda>alert_id.
       bindE (stocked (record_transaction (out_lower out) (out_fetch out) (out_instrument out) (op_portfolio p)
                \<lparr>tr_symbol = op_symbol p, tr_market = op_market p, tr_name = review_trade_name out r p, tr_side = side,
                 tr_quantity = op_quantity p, tr_price = op_price p, tr_executed_at = trim_space t,
                 tr_note = trade_note r (gu_status (evaluate_guardrails i now)) alert_id\<rparr>)) (\<lambda>x.
       bindE (trace_state (op_portfolio p) (op_symbol p)) (\<lambda>after.
       ret [(''transactionId'', AnyStr (td_id (tt_trade x))), (''transaction'', trade_any (tt_trade x)),
            (''transactionImpact'', AnyMap [(''before'', AnyMap before), (''after'', AnyMap after), (''holdingCleared'', AnyBool (tt_cleared x))]),
            (''guardrails'', guardrails_any (evaluate_guardrails i now))]))))) w2))"
    proof (cases "gu_status (evaluate_guardrails i now) = ''blocked''")
      case True
      then show ?thesis by (simp add: throw_def solvency_kept_def)
    next
      case False
      then show ?thesis
      proof (simp only: if_False, intro sk_bind [OF tables.view_trace] sk_bind [OF tables.view_alert_of_review] sk_after)
        fix before w3 alert_id w4
        assume b: "trace_state (op_portfolio p) (op_symbol p) w2 = (Inr before, w3)" and a: "alert_of_review r w3 = (Inr alert_id, w4)"
        have t4: "view_tables w4 = view_tables w"
          using unchanged_state [OF tables.view_trace b] unchanged_state [OF tables.view_alert_of_review a] t2 by simp
        let ?rq = "\<lparr>tr_symbol = op_symbol p, tr_market = op_market p, tr_name = review_trade_name out r p, tr_side = side,
                 tr_quantity = op_quantity p, tr_price = op_price p, tr_executed_at = trim_space t,
                 tr_note = trade_note r (gu_status (evaluate_guardrails i now)) alert_id\<rparr>"
        obtain q k where q: "record_transaction (out_lower out) (out_fetch out) (out_instrument out) (op_portfolio p) ?rq (dk_stock w4) = (q, k)"
          by fastforce
        have buy: "trim_space (tr_side ?rq) = ''buy'' \<Longrightarrow> is_buy (normalize_action (op_action p))"
          using side by (auto simp: side_of_action_def Let_def sample_trims(2) split: if_splits)
        have "solvent (view_tables w4) \<Longrightarrow> solvent (st_tables k)"
          using covered_trade [OF q _ _ False _ _ buy] gi t4 amount by (simp add: view_tables_def)
        then show "solvency_kept w4 (snd (stocked (record_transaction (out_lower out) (out_fetch out) (out_instrument out) (op_portfolio p) ?rq) w4))"
          using q by (cases q) (simp_all add: solvency_kept_def stocked_def view_tables_def)
      qed (intro sk.keeps_rules sk_of_unchanged tables.view_trace)
    qed
  qed
qed

section \<open>Every operation of the desk\<close>

lemma sk_accept_operation:
  "keeps solvency_kept (accept_operation out r rq)"
proof (cases "proposed_operation (rv_result r) r")
  case (Inl e)
  then show ?thesis unfolding accept_operation_def Let_def by (simp add: sk.keeps_throw)
next
  case (Inr p0)
  show ?thesis
  proof (cases "trim_space (rv_portfolio r) = []")
    case True
    then show ?thesis unfolding accept_operation_def Let_def by (simp add: sk.keeps_throw)
  next
    case False
    then have pid: "op_portfolio (filled_operation r p0) \<noteq> []" by (intro filled_portfolio) (auto simp: sample_trims)
    show ?thesis unfolding accept_operation_def Let_def
      using Inr pid
      by (auto intro!: sk.keeps_rules sk_of_unchanged [OF tables.view_review_price] sk_of_unchanged [OF tables.blind_acceptance]
          sk_execute split: sum.split)
  qed
qed

lemma sk_accept: "keeps solvency_kept (accept_review out i rq)"
  unfolding accept_form
  by (intro sk.keeps_bindE keeps_if sk.keeps_throw sk_accept_operation sk_of_unchanged [OF tables.view_reads(11)]
      sk_of_unchanged [OF tables.blind_accept_patch] tables.plan_update)

fun is_stock :: "desk_op \<Rightarrow> bool" where
  "is_stock (DoStock a) = True"
| "is_stock a = False"

lemma sk_step: "\<not> is_stock a \<Longrightarrow> solvency_kept w (desk_step out a w)"
proof -
  assume a: "\<not> is_stock a"
  have k: "keeps solvency_kept m \<Longrightarrow> solvency_kept w (snd (m w))" for m by (simp add: keeps_def)
  note u = sk_of_unchanged
  show ?thesis using a
    by (cases a) (auto intro!: k sk_accept u tables.plan_create tables.plan_operations tables.side_create_watch tables.side_watches
        tables.side_template_watches tables.side_run_watch tables.side_create_alert tables.side_set_alert_status tables.side_create_hit
        tables.blind_open tables.blind_save tables.blind_refuse)
qed

lemma sk_run: "list_all (\<lambda>a. \<not> is_stock a) ops \<Longrightarrow> solvency_kept w (fold (desk_step out) ops w)"
  by (induction ops arbitrary: w) (auto intro: sk.frame_refl sk.frame_trans sk_step)

section \<open>Properties\<close>

text \<open>
  C32: Accepted reviews never overdraw a portfolio.  From tables that are a book without negative cash, any run
  of operations on strategies, watches, alerts and reviews, with whatever results the agents store and whatever
  statements fail, leaves a book in which every portfolio has cash of at least zero; only a transaction that the
  user records directly can take it below.
\<close>

theorem desk_stays_solvent:
  fixes w :: desk and ops :: "desk_op list" and out :: outside
  assumes "book_ok (view_tables w)" and "\<forall>p \<in> set (tb_portfolios (view_tables w)). fle f0 (pf_cash p)"
    and "list_all (\<lambda>a. \<not> is_stock a) ops"
  defines "w' \<equiv> fold (desk_step out) ops w"
  shows "book_ok (view_tables w') \<and> (\<forall>p \<in> set (tb_portfolios (view_tables w')). fle f0 (pf_cash p))"
  using sk_run [OF assms(3), of w out] assms(1,2) by (simp add: w'_def solvency_kept_def solvent_def list_all_iff)

theorem desk_stays_solvent_witness:
  "book_ok (view_tables (fold (desk_step sample_outside)
     [DoAccept ''r1'' sample_action, DoReject ''r1'' sample_action, DoOpenReview ''h1''] sample_desk))"
proof -
  have "book_ok (view_tables sample_desk)" using sample_book_ok by (simp add: sample_desk_def view_tables_def)
  moreover have "\<forall>p \<in> set (tb_portfolios (view_tables sample_desk)). fle f0 (pf_cash p)"
    by (simp add: sample_desk_def view_tables_def sample_stock_def sample_portfolio_def fle_def f64_of_int_exact f64_unit_def)
  ultimately show ?thesis by (rule conjunct1 [OF desk_stays_solvent]) simp
qed

end
