(* ===== verification/DeskPlans.thy ===== *)
theory DeskPlans
  imports DeskTrades
begin

text \<open>
  Strategies and their versions over runs of the desk: the versions of a strategy are numbered in the order of
  their rows, the last one is active, and no row of a version ever changes or disappears.
\<close>

section \<open>Well-formed plans\<close>

definition own_versions :: "strategy_version list \<Rightarrow> string \<Rightarrow> strategy_version list" where
  "own_versions vs i = filter (\<lambda>v. sv_strategy v = i) vs"

definition plan_row_ok :: "strategy_version list \<Rightarrow> strategy \<Rightarrow> bool" where
  "plan_row_ok vs s \<longleftrightarrow>
     (let xs = own_versions vs (sg_id s)
      in xs \<noteq> [] \<and> map sv_no xs = map (\<lambda>k. int k + 1) [0..<length xs] \<and> sg_active s = null_text (sv_id (List.last xs)))"

fun plans_ok :: "strategy list \<times> strategy_version list \<Rightarrow> bool" where
  "plans_ok (ss, vs) \<longleftrightarrow> distinct (map sg_id ss) \<and> distinct (map sv_id vs) \<and>
     list_all (\<lambda>v. sv_strategy v \<in> set (map sg_id ss)) vs \<and> list_all (plan_row_ok vs) ss"

definition plans_kept :: "desk \<Rightarrow> desk \<Rightarrow> bool" where
  "plans_kept w w' \<longleftrightarrow> (plans_ok (view_plans w) \<longrightarrow>
     plans_ok (view_plans w') \<and> (\<exists>ys. dk_versions w' = dk_versions w @ ys))"

interpretation pk: frame_relation plans_kept
  by unfold_locales (auto simp: plans_kept_def)

lemma pk_of_unchanged: "keeps (unchanged view_plans) m \<Longrightarrow> keeps plans_kept m"
  by (simp add: keeps_def unchanged_def plans_kept_def view_plans_def)

section \<open>One more version\<close>

lemma Max_numbers: "Max (set (map (\<lambda>k. int k + 1) [0..<Suc n])) = int n + 1"
  by (rule Max_eqI) auto

lemma next_number:
  assumes "map sv_no xs = map (\<lambda>k. int k + 1) [0..<length xs]"
  shows "(case xs of [] \<Rightarrow> 1 | _ \<Rightarrow> Max (set (map sv_no xs)) + 1) = int (length xs) + 1"
proof (cases xs)
  case (Cons y ys)
  then have "Max (set (map sv_no xs)) = int (length ys) + 1" unfolding assms using Max_numbers by simp
  then show ?thesis using Cons by simp
qed simp

lemma plan_row_other: "sv_strategy v \<noteq> sg_id s \<Longrightarrow> plan_row_ok (vs @ [v]) s = plan_row_ok vs s"
  by (simp add: plan_row_ok_def own_versions_def)

lemma plan_row_added:
  assumes "plan_row_ok vs r" "sg_id s = sg_id r" "sv_strategy v = sg_id r" "sv_no v = int (length (own_versions vs (sg_id r))) + 1"
    "sg_active s = null_text (sv_id v)"
  shows "plan_row_ok (vs @ [v]) s"
  using assms by (simp add: plan_row_ok_def own_versions_def Let_def)

text \<open>A change of rows that keeps the ids.\<close>

lemma plans_changed_rows:
  assumes "plans_ok (ss, vs)" "\<And>r. sg_id (f r) = sg_id r" "\<And>r. r \<in> set ss \<Longrightarrow> sg_active (f r) = sg_active r"
  shows "plans_ok (map f ss, vs)"
proof -
  have "plan_row_ok vs (f r)" if "r \<in> set ss" for r
    using assms(1) that assms(2,3) [of r] by (auto simp: list_all_iff plan_row_ok_def)
  then show ?thesis using assms(1,2) by (simp add: list_all_iff comp_def)
qed

lemma plans_added_version:
  assumes ok: "plans_ok (ss, vs)" and ids: "\<And>r. sg_id (f r) = sg_id r"
    and active: "\<And>r. r \<in> set ss \<Longrightarrow> sg_active (f r) = (if sg_id r = sv_strategy v then null_text (sv_id v) else sg_active r)"
    and v: "sv_id v \<notin> set (map sv_id vs)" "sv_strategy v \<in> set (map sg_id ss)"
      "sv_no v = (case own_versions vs (sv_strategy v) of [] \<Rightarrow> 1 | xs \<Rightarrow> Max (set (map sv_no xs)) + 1)"
  shows "plans_ok (map f ss, vs @ [v])"
proof -
  have "plan_row_ok (vs @ [v]) (f r)" if r: "r \<in> set ss" for r
  proof -
    have row: "plan_row_ok vs r" using ok r by (simp add: list_all_iff)
    show ?thesis
    proof (cases "sg_id r = sv_strategy v")
      case True
      have "sv_no v = int (length (own_versions vs (sg_id r))) + 1"
        using row v(3) next_number [of "own_versions vs (sg_id r)"]
        by (auto simp: plan_row_ok_def Let_def True split: list.splits)
      then show ?thesis using row True ids active [OF r] by (intro plan_row_added [OF row]) simp_all
    next
      case False
      then have "plan_row_ok vs (f r)" using row ids [of r] active [OF r] by (simp add: plan_row_ok_def)
      then show ?thesis using False ids [of r] plan_row_other [of v "f r" vs] by simp
    qed
  qed
  then show ?thesis using ok ids v by (simp add: list_all_iff comp_def)
qed

section \<open>Transactions\<close>

lemma view_plans_stock [simp]: "view_plans (w\<lparr>dk_stock := k\<rparr>) = view_plans w"
  by (simp add: view_plans_def)

lemma view_plans_restore [simp]: "view_plans (restore old new) = view_plans old"
  by (simp add: view_plans_def restore_def)

lemma desk_tx_plans:
  assumes "desk_tx b c m w = (res, w')"
  shows "view_plans w' = view_plans w \<or>
    (\<exists>x w1 w2. m w1 = (Inr x, w2) \<and> view_plans w1 = view_plans w \<and> view_plans w' = view_plans w2 \<and> res = Inr x)"
  using assms
  by (auto simp: desk_tx_def desk_read_def stmt_def Let_def split: prod.splits sum.splits if_splits) (metis view_plans_stock)

lemma null_text_idem [simp]: "null_text (null_text x) = null_text x"
  by (simp add: null_text_def)

lemma stmt_Inr: "stmt what f w = (Inr x, w') \<Longrightarrow> \<exists>k. f (w\<lparr>dk_stock := k\<rparr>) = (Inr x, w')"
  by (auto simp: stmt_def Let_def split: if_splits)

lemma plan_write_Inr: "desk_write what ok f w = (Inr x, w') \<Longrightarrow> \<exists>k. ok (w\<lparr>dk_stock := k\<rparr>) \<and> w' = f (w\<lparr>dk_stock := k\<rparr>)"
  by (auto simp: desk_write_def dest!: stmt_Inr split: if_splits)

lemma update_Inr:
  "desk_update what e found ok f w = (Inr x, w') \<Longrightarrow> \<exists>k. found (w\<lparr>dk_stock := k\<rparr>) \<and> w' = f (w\<lparr>dk_stock := k\<rparr>)"
  by (auto simp: desk_update_def dest!: stmt_Inr split: if_splits)

definition update_row :: "strategy \<Rightarrow> strategy \<Rightarrow> strategy" where
  "update_row s r = (if sg_id r = sg_id s then (strategy_row s)\<lparr>sg_created_at := sg_created_at r\<rparr> else r)"

lemma update_row_simps [simp]: "sg_id (update_row s r) = sg_id r"
  "sg_active (update_row s r) = (if sg_id r = sg_id s then null_text (sg_active s) else sg_active r)"
  by (simp_all add: update_row_def strategy_row_def)

lemma update_strategy_tx_Inr:
  "update_strategy_tx s w = (Inr x, w') \<Longrightarrow> view_plans w' = (map (update_row s) (dk_strategies w), dk_versions w)"
  unfolding update_strategy_tx_def
  by (auto dest!: update_Inr simp: view_plans_def update_row_def intro!: map_cong)

lemma insert_version_tx_Inr:
  "insert_version_tx v w = (Inr x, w') \<Longrightarrow> sv_id v \<notin> set (map sv_id (dk_versions w)) \<and> sv_strategy v \<in> set (map sg_id (dk_strategies w)) \<and>
     view_plans w' = (dk_strategies w, dk_versions w @ [version_row v])"
  unfolding insert_version_tx_def by (auto dest!: plan_write_Inr simp: view_plans_def has_strategy_def)

lemma insert_strategy_tx_Inr:
  "insert_strategy_tx s w = (Inr x, w') \<Longrightarrow> sg_id s \<notin> set (map sg_id (dk_strategies w)) \<and>
     view_plans w' = (dk_strategies w @ [strategy_row s], dk_versions w)"
  unfolding insert_strategy_tx_def by (auto dest!: plan_write_Inr simp: view_plans_def has_strategy_def)

lemma next_version_no_Inr:
  "next_version_no i w = (Inr n, w') \<Longrightarrow> view_plans w' = view_plans w \<and>
     n = (case own_versions (dk_versions w) i of [] \<Rightarrow> 1 | xs \<Rightarrow> Max (set (map sv_no xs)) + 1)"
  unfolding next_version_no_def desk_read_def
  by (auto dest!: stmt_Inr simp: versions_of_def own_versions_def)

lemma version_row_simps [simp]: "sv_id (version_row v) = sv_id v" "sv_no (version_row v) = sv_no v"
  "sv_strategy (version_row v) = sv_strategy v"
  by (simp_all add: version_row_def)

section \<open>The transactions keep the plans well formed\<close>

text \<open>A strategy as an operation holds it: the id and the active version are those of the stored row.\<close>

definition of_row :: "strategy \<Rightarrow> desk \<Rightarrow> bool" where
  "of_row s w \<longleftrightarrow> (\<forall>r \<in> set (dk_strategies w). sg_id r = sg_id s \<longrightarrow> sg_active r = null_text (sg_active s))"

lemma in_tx_plans:
  assumes run: "update_strategy_in_tx s nv w = (Inr x, w')" and row: "of_row s w" and ok: "plans_ok (view_plans w)"
  shows "plans_ok (view_plans w') \<and> (\<exists>ys. dk_versions w' = dk_versions w @ ys)"
proof (cases nv)
  case None
  with run obtain now w1 w2 where t: "desk_now w = (Inr now, w1)" "update_strategy_tx (s\<lparr>sg_updated_at := now\<rparr>) w1 = (Inr (), w2)" "w' = w2"
    by (auto simp: update_strategy_in_tx_def Let_def seqE_def ret_def elim!: bind_cases)
  have w1: "view_plans w1 = view_plans w" using unchanged_state [OF plans.keeps_desk_now t(1)] .
  have v: "view_plans w' = (map (update_row (s\<lparr>sg_updated_at := now\<rparr>)) (dk_strategies w), dk_versions w)"
    using update_strategy_tx_Inr [OF t(2)] w1 t(3) by (simp add: view_plans_def)
  have "plans_ok (view_plans w')" unfolding v
    by (rule plans_changed_rows) (use ok row in \<open>auto simp: of_row_def view_plans_def\<close>)
  moreover have "dk_versions w' = dk_versions w" using v by (simp add: view_plans_def)
  ultimately show ?thesis by simp
next
  case (Some v0)
  from run obtain n w1 vid w2 now w3 v1 w4 now2 w5 w6 where
      n: "next_version_no (sg_id s) w = (Inr n, w1)" and vid: "desk_id w1 = (Inr vid, w2)" and now: "desk_now w2 = (Inr now, w3)"
    and v1: "v1 = v0\<lparr>sv_id := vid, sv_strategy := sg_id s, sv_no := n, sv_created_at := now, sv_created_by := author s v0\<rparr>"
    and ins: "insert_version_tx v1 w3 = (Inr (), w4)" and now2: "desk_now w4 = (Inr now2, w5)"
    and upd: "update_strategy_tx (s\<lparr>sg_active := vid, sg_updated_at := now2\<rparr>) w5 = (Inr (), w6)" and w': "w' = w6"
    by (auto simp: update_strategy_in_tx_def Some Let_def seqE_def ret_def elim!: bind_cases)
  note num = next_version_no_Inr [OF n]
  have w3: "view_plans w3 = view_plans w"
    using num unchanged_state [OF plans.keeps_desk_id vid] unchanged_state [OF plans.keeps_desk_now now] by simp
  have rows: "dk_strategies w3 = dk_strategies w" "dk_versions w3 = dk_versions w" using w3 by (simp_all add: view_plans_def)
  note i = insert_version_tx_Inr [OF ins, unfolded rows]
  have "view_plans w5 = (dk_strategies w, dk_versions w @ [version_row v1])"
    using i unchanged_state [OF plans.keeps_desk_now now2] by simp
  then have v: "view_plans w' = (map (update_row (s\<lparr>sg_active := vid, sg_updated_at := now2\<rparr>)) (dk_strategies w), dk_versions w @ [version_row v1])"
    using update_strategy_tx_Inr [OF upd] w' by (simp add: view_plans_def)
  have "plans_ok (view_plans w')" unfolding v
    by (rule plans_added_version) (use ok i num in \<open>auto simp: v1 view_plans_def\<close>)
  moreover have "dk_versions w' = dk_versions w @ [version_row v1]" using v by (simp add: view_plans_def)
  ultimately show ?thesis by simp
qed

lemma plans_keptI: "view_plans w' = view_plans w \<Longrightarrow> plans_kept w w'"
  by (auto simp: plans_kept_def view_plans_def)

lemma update_plans:
  assumes row: "of_row s w" shows "plans_kept w (snd (update_strategy_with_version s nv w))"
proof -
  define tx where "tx = desk_tx ''begin update strategy transaction'' ''commit update strategy'' (update_strategy_in_tx s nv)"
  obtain res w1 where run: "tx w = (res, w1)" by fastforce
  have step: "plans_kept w w1"
  proof (rule disjE [OF desk_tx_plans [OF run [unfolded tx_def]]])
    assume "\<exists>x u u'. update_strategy_in_tx s nv u = (Inr x, u') \<and> view_plans u = view_plans w \<and> view_plans w1 = view_plans u' \<and> res = Inr x"
    then obtain x u u' where t: "update_strategy_in_tx s nv u = (Inr x, u')" "view_plans u = view_plans w" "view_plans w1 = view_plans u'" by blast
    from t(2) row have "of_row s u" by (simp add: of_row_def view_plans_def)
    from in_tx_plans [OF t(1) this] t(2,3) show ?thesis by (simp add: plans_kept_def view_plans_def)
  qed (rule plans_keptI)
  have rest: "keeps plans_kept (case sw_version item of Some v \<Rightarrow> ret item
      | None \<Rightarrow> bindE (active_version (sw_strategy item)) (\<lambda>v. ret (item\<lparr>sw_version := v\<rparr>)))" for item
    by (auto intro!: pk.keeps_rules pk_of_unchanged [OF plans.view_active_version] split: option.split)
  have "plans_kept w (snd (bindE tx (\<lambda>item. case sw_version item of Some v \<Rightarrow> ret item
      | None \<Rightarrow> bindE (active_version (sw_strategy item)) (\<lambda>v. ret (item\<lparr>sw_version := v\<rparr>))) w))"
  proof (cases res)
    case (Inr item)
    have "plans_kept w1 (snd ((case sw_version item of Some v \<Rightarrow> ret item
      | None \<Rightarrow> bindE (active_version (sw_strategy item)) (\<lambda>v. ret (item\<lparr>sw_version := v\<rparr>))) w1))"
      using rest [of item] by (simp add: keeps_def)
    then show ?thesis using pk.frame_trans [OF step] run Inr by (simp add: bindE_def)
  qed (use step run in \<open>simp add: bindE_def\<close>)
  then show ?thesis by (simp add: update_strategy_with_version_def tx_def)
qed

lemma plans_added_strategy:
  assumes ok: "plans_ok (ss, vs)" and s: "sg_id s \<notin> set (map sg_id ss)" "sg_active s = null_text (sv_id v)"
    and v: "sv_id v \<notin> set (map sv_id vs)" "sv_strategy v = sg_id s" "sv_no v = 1"
  shows "plans_ok (ss @ [s], vs @ [v])"
proof -
  have "sv_strategy x \<noteq> sg_id s" if "x \<in> set vs" for x using ok s(1) that by (auto simp: list_all_iff simp del: in_set_conv_nth) (metis image_eqI)
  then have "own_versions vs (sg_id s) = []" by (simp add: own_versions_def filter_empty_conv)
  then have new: "plan_row_ok (vs @ [v]) s" using s v by (simp add: plan_row_ok_def own_versions_def)
  have "plan_row_ok (vs @ [v]) r" if "r \<in> set ss" for r
    using ok that s(1) v(2) plan_row_other [of v r vs] by (auto simp: list_all_iff)
  then show ?thesis using ok s v new by (auto simp: list_all_iff)
qed

lemma update_row_appended:
  "sg_id s \<notin> set (map sg_id ss) \<Longrightarrow> sg_id r = sg_id s \<Longrightarrow> map (update_row s) (ss @ [r]) = ss @ [update_row s r]"
proof -
  assume s: "sg_id s \<notin> set (map sg_id ss)"
  have "sg_id x \<noteq> sg_id s" if "x \<in> set ss" for x using s that by (metis image_eqI list.set_map)
  then have "update_row s x = x" if "x \<in> set ss" for x using that by (simp add: update_row_def)
  then show ?thesis by (simp add: map_idI)
qed

lemma create_plans: "keeps plans_kept (create_strategy_with_version s v)"
  unfolding keeps_def
proof
  fix w
  obtain res w' where run: "create_strategy_with_version s v w = (res, w')" by fastforce
  have "plans_kept w w'"
  proof (rule disjE [OF desk_tx_plans [OF run [unfolded create_strategy_with_version_def]]])
    assume "\<exists>x w1 w2. (bindE desk_now (\<lambda>now.
        bindE (if sg_id s = [] then desk_id else ret (sg_id s)) (\<lambda>sid.
        let s1 = s\<lparr>sg_id := sid, sg_created_at := now, sg_updated_at := now, sg_active := []\<rparr> in
        seqE (insert_strategy_tx s1)
       (bindE (if sv_id v = [] then desk_id else ret (sv_id v)) (\<lambda>vid.
        let v1 = v\<lparr>sv_id := vid, sv_strategy := sid, sv_no := 1, sv_created_at := now, sv_created_by := author s1 v\<rparr>;
            s2 = s1\<lparr>sg_active := vid\<rparr> in
        seqE (insert_version_tx v1)
       (seqE (update_strategy_tx s2)
        (ret \<lparr>sw_strategy = s2, sw_version = Some v1\<rparr>))))))) w1 = (Inr x, w2) \<and>
      view_plans w1 = view_plans w \<and> view_plans w' = view_plans w2 \<and> res = Inr x"
    then obtain u now u1 sid u2 s1 u3 vid u4 v1 s2 u5 u6 where
        start: "view_plans u = view_plans w" and now: "desk_now u = (Inr now, u1)"
      and sid: "(if sg_id s = [] then desk_id else ret (sg_id s)) u1 = (Inr sid, u2)"
      and s1: "s1 = s\<lparr>sg_id := sid, sg_created_at := now, sg_updated_at := now, sg_active := []\<rparr>"
      and ins: "insert_strategy_tx s1 u2 = (Inr (), u3)"
      and vid: "(if sv_id v = [] then desk_id else ret (sv_id v)) u3 = (Inr vid, u4)"
      and v1: "v1 = v\<lparr>sv_id := vid, sv_strategy := sid, sv_no := 1, sv_created_at := now, sv_created_by := author s1 v\<rparr>"
      and s2: "s2 = s1\<lparr>sg_active := vid\<rparr>"
      and insv: "insert_version_tx v1 u4 = (Inr (), u5)" and upd: "update_strategy_tx s2 u5 = (Inr (), u6)"
      and fin: "view_plans w' = view_plans u6"
      by (auto simp: Let_def seqE_def ret_def elim!: bind_cases)
    have ids: "keeps (unchanged view_plans) (if b then desk_id else ret y)" for b y
      by (auto intro: plans.view_rules)
    have u2: "view_plans u2 = view_plans w"
      using start unchanged_state [OF plans.keeps_desk_now now] unchanged_state [OF ids sid] by simp
    note i = insert_strategy_tx_Inr [OF ins]
    have u4: "view_plans u4 = (dk_strategies w @ [strategy_row s1], dk_versions w)"
      using i u2 unchanged_state [OF ids vid] by (simp add: view_plans_def)
    note j = insert_version_tx_Inr [OF insv]
    have new: "sg_id s2 \<notin> set (map sg_id (dk_strategies w))" using i u2 by (simp add: s2 s1 view_plans_def)
    have "view_plans w' = (map (update_row s2) (dk_strategies w @ [strategy_row s1]), dk_versions w @ [version_row v1])"
      using j u4 update_strategy_tx_Inr [OF upd] fin by (simp add: view_plans_def)
    then have v: "view_plans w' = (dk_strategies w @ [update_row s2 (strategy_row s1)], dk_versions w @ [version_row v1])"
      using update_row_appended [OF new, of "strategy_row s1"] by (simp add: s2 strategy_row_def)
    have "plans_ok (view_plans w')" if ok: "plans_ok (view_plans w)" unfolding v
      by (rule plans_added_strategy)
        (use ok new j u4 in \<open>auto simp: s2 s1 v1 view_plans_def strategy_row_def\<close>)
    moreover have "dk_versions w' = dk_versions w @ [version_row v1]" using v by (simp add: view_plans_def)
    ultimately show ?thesis by (simp add: plans_kept_def)
  qed (rule plans_keptI)
  then show "plans_kept w (snd (create_strategy_with_version s v w))" by (simp add: run)
qed

section \<open>Operations\<close>

lemma pk_bind:
  assumes "keeps (unchanged view_plans) m" "\<And>x w1. m w = (Inr x, w1) \<Longrightarrow> plans_kept w1 (snd (f x w1))"
  shows "plans_kept w (snd (bindE m f w))"
proof -
  obtain res w1 where m: "m w = (res, w1)" by fastforce
  have "view_plans w1 = view_plans w" by (rule unchanged_state [OF assms(1) m])
  then show ?thesis using m assms(2) by (cases res) (auto simp: bindE_def plans_kept_def view_plans_def)
qed

lemma get_strategy_row:
  assumes "get_strategy i w = (Inr x, w')" "plans_ok (view_plans w)"
  shows "of_row (sw_strategy x) w" "of_row (sw_strategy x) w'"
proof -
  from assms(1) obtain s w1 v where s: "select_strategy i w = (Inr s, w1)" "x = \<lparr>sw_strategy = s, sw_version = v\<rparr>"
    by (auto simp: get_strategy_def ret_def elim!: bind_cases)
  have "s \<in> set (dk_strategies w)" using s(1)
    by (auto simp: select_strategy_def desk_read_def dest!: stmt_Inr find_SomeD split: option.splits)
  then have "r = s" if "r \<in> set (dk_strategies w)" "sg_id r = sg_id s" for r
    using assms(2) that by (auto simp: view_plans_def distinct_map inj_on_def)
  moreover have "sg_active s = null_text (sg_active s)"
    using assms(2) \<open>s \<in> set (dk_strategies w)\<close> by (auto simp: view_plans_def list_all_iff plan_row_ok_def Let_def)
  ultimately show "of_row (sw_strategy x) w" by (auto simp: of_row_def s(2))
  then show "of_row (sw_strategy x) w'" using unchanged_state [OF plans.view_get_strategy assms(1)] by (simp add: of_row_def view_plans_def)
qed

lemma pk_via_strategy:
  assumes "\<And>x w1. of_row (sw_strategy x) w1 \<Longrightarrow> plans_kept w1 (snd (f x w1))"
  shows "keeps plans_kept (bindE (get_strategy i) f)"
  unfolding keeps_def
proof
  fix w
  show "plans_kept w (snd (bindE (get_strategy i) f w))"
  proof (cases "plans_ok (view_plans w)")
    case True
    show ?thesis by (rule pk_bind [OF plans.view_get_strategy]) (rule assms, rule get_strategy_row(2) [OF _ True])
  qed (simp add: plans_kept_def)
qed

lemma of_row_later: "keeps (unchanged view_plans) m \<Longrightarrow> m w = (res, w') \<Longrightarrow> of_row s w \<Longrightarrow> of_row s w'"
  using unchanged_state [of view_plans m w res w'] by (simp add: of_row_def view_plans_def)

lemma of_row_same: "sg_id s' = sg_id s \<Longrightarrow> sg_active s' = sg_active s \<Longrightarrow> of_row s w \<Longrightarrow> of_row s' w"
  by (simp add: of_row_def)

lemma pk_refl: "plans_kept w (snd (throw e w))" "plans_kept w (snd (ret x w))"
  by (simp_all add: throw_def ret_def plans_kept_def)

lemma pk_seq:
  assumes "keeps (unchanged view_plans) m" "\<And>x w1. m w = (Inr x, w1) \<Longrightarrow> plans_kept w1 (snd (n w1))"
  shows "plans_kept w (snd (seqE m n w))"
  unfolding seqE_def by (rule pk_bind [OF assms(1)]) (rule assms(2))

lemma pk_update: "keeps plans_kept (update_strategy i u)"
  unfolding update_strategy_def
proof (rule pk_via_strategy)
  fix x w assume row: "of_row (sw_strategy x) w"
  define s where "s = patch_strategy u (sw_strategy x)"
  have s: "of_row s w" using row by (auto simp: s_def patch_strategy_def intro: of_row_same)
  have upd: "plans_kept w1 (snd (update_strategy_with_version s nv w1))" if "validate_strategy s w = (Inr y, w1)" for y w1 nv
    by (rule update_plans) (rule of_row_later [OF plans.view_validate(1) that s])
  show "plans_kept w (snd ((if sg_status (sw_strategy x) = ''archived'' then throw ErrStrategyArchived
     else (let s = patch_strategy u (sw_strategy x) in
        seqE (validate_strategy s)
         (if \<not> content_changed u then update_strategy_with_version s None
          else (let v0 = patch_version u (bool_default (sw_version x) no_version); v = v0\<lparr>sv_created_by := author s v0\<rparr>
             in if \<not> valid_direction (sv_direction v) then throw ErrInvalidStrategyDirection
                else update_strategy_with_version s (Some v))))) w))"
    unfolding Let_def s_def [symmetric] by (auto intro!: pk_refl pk_seq [OF plans.view_validate(1)] upd)
qed

lemma pk_archive_now:
  assumes "of_row s w"
  shows "plans_kept w (snd (bindE desk_now (\<lambda>now. update_strategy_with_version (s\<lparr>sg_status := st, sg_archived_at := now\<rparr>) None) w))"
proof (rule pk_bind [OF plans.keeps_desk_now], rule update_plans)
  fix now w1 assume "desk_now w = (Inr now, w1)"
  from of_row_later [OF plans.keeps_desk_now this assms]
  show "of_row (s\<lparr>sg_status := st, sg_archived_at := now\<rparr>) w1" by (simp add: of_row_def)
qed

lemma of_row_status [simp]: "of_row (s\<lparr>sg_status := st\<rparr>) w = of_row s w"
  by (simp add: of_row_def)

lemma pk_status: "keeps plans_kept (set_strategy_status i status)" "keeps plans_kept (archive_strategy i)"
  unfolding set_strategy_status_def archive_strategy_def
  by (rule pk_via_strategy, auto intro!: pk_refl update_plans pk_archive_now)+

lemma pk_create: "keeps plans_kept (create_strategy rq)" "keeps plans_kept (create_portfolio_monitor pid mq)"
proof -
  show c: "keeps plans_kept (create_strategy rq)" for rq
    unfolding create_strategy_def Let_def
    by (auto intro!: pk.keeps_rules create_plans pk_of_unchanged [OF plans.keeps_desk_id] pk_of_unchanged [OF plans.view_validate(1)])
  show "keeps plans_kept (create_portfolio_monitor pid mq)"
    unfolding create_portfolio_monitor_def
    by (auto intro!: pk.keeps_bindE c pk_of_unchanged [OF plans.view_stock_reads(1)] pk_of_unchanged [OF plans.view_stock_reads(2)])
qed

lemma pk_accept_patch: "keeps plans_kept (accept_strategy_patch out r)"
proof (cases "trim_space (rv_strategy r) = []")
  case True
  then show ?thesis unfolding accept_strategy_patch_def by (simp add: pk.keeps_throw)
next
  case False
  have after: "plans_kept w (snd (bindE (update_strategy_with_version s nv) g w))" if "of_row s w" "\<And>x. keeps (unchanged view_plans) (g x)"
    for s nv w and g :: "strategy_view \<Rightarrow> review desk_prog"
  proof -
    obtain res w1 where u: "update_strategy_with_version s nv w = (res, w1)" by fastforce
    have step: "plans_kept w w1" using update_plans [OF that(1), of nv] by (simp add: u)
    have "plans_kept w1 (snd (g x w1))" for x using pk_of_unchanged [OF that(2) [of x]] by (simp add: keeps_def)
    with step show ?thesis using pk.frame_trans u by (cases res) (auto simp: bindE_def)
  qed
  from False show ?thesis unfolding accept_strategy_patch_def Let_def
    by (auto intro!: pk_via_strategy pk_refl pk_bind [OF plans.view_agent_of_review] after plans.blind_acceptance
        dest: of_row_later [OF plans.view_agent_of_review] split: option.split)
qed

lemma pk_accept: "keeps plans_kept (accept_review out i rq)"
  unfolding accept_form
  by (intro pk.keeps_bindE keeps_if pk.keeps_throw pk_accept_patch pk_of_unchanged [OF plans.view_reads(11)]
      pk_of_unchanged [OF plans.blind_accept_operation] plans.blind_execute)

lemma pk_drop_links:
  "plans_kept w (drop_links (w\<lparr>dk_stock := k\<rparr>))"
proof -
  have "view_plans (drop_links (w\<lparr>dk_stock := k\<rparr>)) =
      (map (\<lambda>s. if \<not> has_portfolio (sg_portfolio s) (st_tables k) then s\<lparr>sg_portfolio := []\<rparr> else s) (dk_strategies w), dk_versions w)"
    by (simp add: drop_links_def view_plans_def)
  moreover from this have "dk_versions (drop_links (w\<lparr>dk_stock := k\<rparr>)) = dk_versions w" by (simp add: view_plans_def)
  moreover have "plans_ok (dk_strategies w, dk_versions w) \<Longrightarrow>
      plans_ok (map (\<lambda>s. if \<not> has_portfolio (sg_portfolio s) (st_tables k) then s\<lparr>sg_portfolio := []\<rparr> else s) (dk_strategies w), dk_versions w)"
    by (rule plans_changed_rows) simp_all
  ultimately show ?thesis by (simp add: plans_kept_def view_plans_def del: plans_ok.simps)
qed

lemma pk_step: "plans_kept w (desk_step out a w)"
proof -
  have k: "keeps plans_kept m \<Longrightarrow> plans_kept w (snd (m w))" for m by (simp add: keeps_def)
  note u = pk_of_unchanged
  show ?thesis
    by (cases a) (auto intro!: k pk_drop_links pk_accept pk_update pk_status pk_create u plans.side_create_watch plans.side_watches
        plans.side_template_watches plans.side_run_watch plans.side_create_alert plans.side_set_alert_status plans.side_create_hit
        plans.blind_open plans.blind_save plans.blind_refuse)
qed

lemma pk_run: "plans_kept w (fold (desk_step out) ops w)"
  by (induction ops arbitrary: w) (auto intro: pk.frame_refl pk.frame_trans pk_step)

section \<open>Properties\<close>

definition no_plans :: "desk \<Rightarrow> desk" where
  "no_plans w = w\<lparr>dk_strategies := [], dk_versions := []\<rparr>"

text \<open>
  C33: Versions are numbered and kept.  From a desk without strategies, after any run of operations with any
  failing statements, the ids of strategies and of versions are unique, every strategy has at least one version,
  its versions are numbered 1, 2, ... in the order in which they were added, and the active version is the last
  one.  Any further run only appends to the rows of versions.
\<close>

theorem strategy_versions_numbered:
  fixes w0 :: desk and ops more :: "desk_op list" and out :: outside
  defines "w \<equiv> fold (desk_step out) ops (no_plans w0)"
  shows "distinct (map sg_id (dk_strategies w)) \<and> distinct (map sv_id (dk_versions w)) \<and>
    list_all (\<lambda>s. let vs = filter (\<lambda>v. sv_strategy v = sg_id s) (dk_versions w)
      in vs \<noteq> [] \<and> map sv_no vs = map (\<lambda>k. int k + 1) [0..<length vs] \<and> sg_active s = null_text (sv_id (List.last vs))) (dk_strategies w) \<and>
    (\<exists>ys. dk_versions (fold (desk_step out) more w) = dk_versions w @ ys)"
proof -
  have "plans_ok (view_plans (no_plans w0))" by (simp add: no_plans_def view_plans_def)
  with pk_run [of "no_plans w0" out ops] have ok: "plans_ok (view_plans w)" by (simp add: plans_kept_def w_def)
  then have "\<exists>ys. dk_versions (fold (desk_step out) more w) = dk_versions w @ ys"
    using pk_run [of w out more] by (simp add: plans_kept_def)
  with ok show ?thesis by (simp add: view_plans_def plan_row_ok_def [abs_def] own_versions_def)
qed

end
