(* ===== verification/Cron.thy ===== *)
theory Cron
  imports GoTime
begin

text \<open>
  \<^verbatim>\<open>codexclient/cron.go\<close>: five-field cron expressions in UTC, their parsing into tables of admitted
  values, and the search for the next admitted minute.  \<^verbatim>\<open>int\<close> arithmetic wraps around and an index
  out of range is a panic, as a huge step makes it.  The lemmas relate the tables to the terms of the
  fields and the search to the earliest admitted minute.
\<close>

section \<open>Parsing\<close>

datatype cron_error = CronInvalid string | CronPanic | CronFuel

record cron_schedule =
  cs_minutes :: "bool list"
  cs_hours :: "bool list"
  cs_dom :: "bool list"
  cs_months :: "bool list"
  cs_dow :: "bool list"
  cs_dom_star :: bool
  cs_dow_star :: bool

text \<open>One term of a field: first and last value, step, and whether it is a star.\<close>

definition cron_step :: "string \<Rightarrow> string \<Rightarrow> int option" where
  "cron_step part range_part =
     (if CHR ''/'' \<notin> set part then Some 1
      else case atoi (drop (Suc (length range_part)) part) of
        None \<Rightarrow> None
      | Some v \<Rightarrow> if v \<le> 0 then None else Some v)"

definition cron_range :: "string \<Rightarrow> int \<Rightarrow> int \<Rightarrow> string + (int \<times> int)" where
  "cron_range range_part mn mx =
     (if range_part = ''*'' then Inr (mn, mx)
      else if CHR ''-'' \<in> set range_part then
        let lo_part = cut_before (CHR ''-'') range_part in
        case atoi lo_part of
          None \<Rightarrow> Inl ''invalid cron range start''
        | Some lo \<Rightarrow>
            (case atoi (drop (Suc (length lo_part)) range_part) of
               None \<Rightarrow> Inl ''invalid cron range end''
             | Some hi \<Rightarrow> Inr (lo, hi))
      else case atoi range_part of None \<Rightarrow> Inl ''invalid cron value'' | Some v \<Rightarrow> Inr (v, v))"

definition cron_term :: "string \<Rightarrow> int \<Rightarrow> int \<Rightarrow> string + (int \<times> int \<times> int \<times> bool)" where
  "cron_term part mn mx =
     (if part = [] then Inl ''cron field has an empty term''
      else let range_part = cut_before (CHR ''/'') part in
        case cron_step part range_part of
          None \<Rightarrow> Inl ''cron step must be a positive integer''
        | Some step \<Rightarrow>
            (case cron_range range_part mn mx of
               Inl e \<Rightarrow> Inl e
             | Inr (lo, hi) \<Rightarrow>
                 if lo < mn \<or> mx < hi \<or> hi < lo then Inl ''cron value out of range''
                 else Inr (lo, hi, step, range_part = ''*'')))"

text \<open>\<open>for v := lo; v <= hi; v += step { out[v-min] = true }\<close>, with fuel.\<close>

fun mark_steps :: "nat \<Rightarrow> int \<Rightarrow> int \<Rightarrow> int \<Rightarrow> int \<Rightarrow> bool list \<Rightarrow> cron_error + bool list" where
  "mark_steps 0 v hi step mn out = Inl CronFuel"
| "mark_steps (Suc n) v hi step mn out =
     (if hi < v then Inr out
      else let i = wrap64 (v - mn) in
        if i < 0 \<or> int (length out) \<le> i then Inl CronPanic
        else mark_steps n (wrap64 (v + step)) hi step mn (out[nat i := True]))"

fun cron_parts :: "string list \<Rightarrow> int \<Rightarrow> int \<Rightarrow> bool list \<Rightarrow> bool \<Rightarrow> cron_error + (bool list \<times> bool)" where
  "cron_parts [] mn mx out star = Inr (out, star)"
| "cron_parts (p # ps) mn mx out star =
     (case cron_term (trim_space p) mn mx of
        Inl e \<Rightarrow> Inl (CronInvalid e)
      | Inr (lo, hi, step, s) \<Rightarrow>
          (case mark_steps (length out + 2) lo hi step mn out of
             Inl e \<Rightarrow> Inl e
           | Inr out' \<Rightarrow> cron_parts ps mn mx out' (star \<or> s)))"

definition parse_cron_field :: "string \<Rightarrow> int \<Rightarrow> int \<Rightarrow> cron_error + (bool list \<times> bool)" where
  "parse_cron_field field mn mx =
     cron_parts (split_byte (CHR '','') field) mn mx (replicate (nat (mx - mn + 1)) False) False"

definition parse_cron :: "string \<Rightarrow> cron_error + cron_schedule" where
  "parse_cron expr =
     (case GoStd.fields (trim_space expr) of
        [f0, f1, f2, f3, f4] \<Rightarrow>
          (case parse_cron_field f0 0 59 of Inl e \<Rightarrow> Inl e
           | Inr (minutes, _) \<Rightarrow>
          (case parse_cron_field f1 0 23 of Inl e \<Rightarrow> Inl e
           | Inr (hours, _) \<Rightarrow>
          (case parse_cron_field f2 1 31 of Inl e \<Rightarrow> Inl e
           | Inr (days, dom_star) \<Rightarrow>
          (case parse_cron_field f3 1 12 of Inl e \<Rightarrow> Inl e
           | Inr (months, _) \<Rightarrow>
          (case parse_cron_field f4 0 7 of Inl e \<Rightarrow> Inl e
           | Inr (dow_raw, dow_star) \<Rightarrow>
               Inr \<lparr>cs_minutes = minutes, cs_hours = hours, cs_dom = days, cs_months = months,
                    cs_dow = take 7 (if dow_raw ! 7 then dow_raw[0 := True] else dow_raw),
                    cs_dom_star = dom_star, cs_dow_star = dow_star\<rparr>)))))
      | _ \<Rightarrow> Inl (CronInvalid ''cron expression must have 5 fields''))"

section \<open>Matching and search\<close>

definition cron_matches :: "cron_schedule \<Rightarrow> gtime \<Rightarrow> bool" where
  "cron_matches c t =
     (let v = civil_of t in
      if \<not> cs_minutes c ! nat (cv_minute v) \<or> \<not> cs_hours c ! nat (cv_hour v) \<or> \<not> cs_months c ! nat (cv_month v - 1) then False
      else
        let dom_match = cs_dom c ! nat (cv_day v - 1); dow_match = cs_dow c ! nat (weekday t) in
        if \<not> cs_dom_star c \<and> \<not> cs_dow_star c then dom_match \<or> dow_match else dom_match \<and> dow_match)"

function cron_search :: "cron_schedule \<Rightarrow> gtime \<Rightarrow> gtime \<Rightarrow> gtime option" where
  "cron_search c limit t =
     (if t < limit then (if cron_matches c t then Some t else cron_search c limit (time_add t minute)) else None)"
  by auto
termination
  by (relation "measure (\<lambda>(c, limit, t). nat (limit - t))") (auto simp: time_add_def)

declare cron_search.simps [simp del]

definition search_span :: duration where
  "search_span = 4 * 366 * 24 * hour"

definition next_minute :: "gtime \<Rightarrow> gtime" where
  "next_minute from_t = time_add (from_t - from_t mod minute) minute"

text \<open>A panic of the parser is a panic of the search; an invalid expression has no next time.\<close>

definition next_cron_time :: "string \<Rightarrow> gtime \<Rightarrow> cron_error + gtime option" where
  "next_cron_time expr from_t =
     (case parse_cron expr of
        Inl (CronInvalid _) \<Rightarrow> Inr None
      | Inl e \<Rightarrow> Inl e
      | Inr c \<Rightarrow> Inr (cron_search c (time_add (next_minute from_t) search_span) (next_minute from_t)))"

section \<open>What a field admits\<close>

definition term_admits :: "string \<Rightarrow> int \<Rightarrow> int \<Rightarrow> int \<Rightarrow> bool" where
  "term_admits part mn mx u =
     (case cron_term (trim_space part) mn mx of
        Inl _ \<Rightarrow> False
      | Inr (lo, hi, step, _) \<Rightarrow> lo \<le> u \<and> u \<le> hi \<and> (u - lo) mod step = 0)"

definition term_star :: "string \<Rightarrow> bool" where
  "term_star part \<longleftrightarrow> cut_before (CHR ''/'') (trim_space part) = ''*''"

definition field_admits :: "string \<Rightarrow> int \<Rightarrow> int \<Rightarrow> int \<Rightarrow> bool" where
  "field_admits f mn mx u \<longleftrightarrow> list_ex (\<lambda>p. term_admits p mn mx u) (split_byte (CHR '','') f)"

definition field_star :: "string \<Rightarrow> bool" where
  "field_star f \<longleftrightarrow> list_ex term_star (split_byte (CHR '','') f)"

text \<open>The cron semantics of an instant, over the text of the fields.\<close>

definition cron_admits :: "string \<Rightarrow> gtime \<Rightarrow> bool" where
  "cron_admits expr t =
     (case GoStd.fields (trim_space expr) of
        [f0, f1, f2, f3, f4] \<Rightarrow>
          (let v = civil_of t; day = field_admits f2 1 31 (cv_day v);
               wd = field_admits f4 0 7 (weekday t) \<or> weekday t = 0 \<and> field_admits f4 0 7 7
           in field_admits f0 0 59 (cv_minute v) \<and> field_admits f1 0 23 (cv_hour v) \<and> field_admits f3 1 12 (cv_month v) \<and>
              (if field_star f2 \<or> field_star f4 then day \<and> wd else day \<or> wd))
      | _ \<Rightarrow> False)"

definition step_overflows :: "int \<Rightarrow> int \<Rightarrow> int \<Rightarrow> bool" where
  "step_overflows lo hi step \<longleftrightarrow> lo \<le> hi \<and> max_int64 < lo + (hi - lo) div step * step + step"

lemma step_overflows_next:
  assumes "lo \<le> hi" "0 < step" "lo + step \<le> max_int64" "lo + step \<le> hi"
  shows "step_overflows (lo + step) hi step = step_overflows lo hi step"
proof -
  have "(hi - lo) div step = (hi - (lo + step)) div step + 1"
    using assms(2) div_add_self2 [of step "hi - lo - step"] by (simp add: algebra_simps)
  then show ?thesis using assms by (simp add: step_overflows_def algebra_simps)
qed

lemma step_mark:
  fixes x :: int
  assumes "0 < step" "x \<noteq> v"
  shows "(v + step \<le> x \<and> x \<le> hi \<and> (x - v) mod step = 0) = (v \<le> x \<and> x \<le> hi \<and> (x - v) mod step = 0)"
proof -
  have "v + step \<le> x" if "v \<le> x" "(x - v) mod step = 0"
    using zdvd_imp_le [of step "x - v"] that assms by (simp add: dvd_eq_mod_eq_0)
  then show ?thesis using assms by auto
qed

lemma mark_steps_spec:
  assumes "0 \<le> mn" "mn \<le> v" "hi < 2 ^ 62" "hi - mn < int (length out)" "int (length out) < 2 ^ 62" "0 < step" "step \<le> max_int64"
    and "0 < n" "hi - v < int n - 1"
  shows "mark_steps n v hi step mn out =
    (if step_overflows v hi step then Inl CronPanic
     else Inr (map (\<lambda>i. out ! i \<or> v \<le> mn + int i \<and> mn + int i \<le> hi \<and> (mn + int i - v) mod step = 0) [0..<length out]))"
  using assms
proof (induction n v hi step mn out rule: mark_steps.induct)
  case (1 v hi step mn out)
  then show ?case by simp
next
  case (2 n v hi step mn out)
  show ?case
  proof (cases "hi < v")
    case True
    then have "map (\<lambda>i. out ! i \<or> v \<le> mn + int i \<and> mn + int i \<le> hi \<and> (mn + int i - v) mod step = 0) [0..<length out] = out"
      by (intro nth_equalityI) auto
    then show ?thesis using True by (simp add: step_overflows_def)
  next
    case False
    then have idx: "wrap64 (v - mn) = v - mn" using 2 by (intro wrap64_id) (auto simp: min_int64_def max_int64_def)
    have in_range: "\<not> (v - mn < 0 \<or> int (length out) \<le> v - mn)" using False 2(2-) by auto
    let ?out = "out[nat (v - mn) := True]"
    have run: "mark_steps (Suc n) v hi step mn out = mark_steps n (wrap64 (v + step)) hi step mn ?out"
      using False in_range by (simp add: idx)
    show ?thesis
    proof (cases "v + step \<le> max_int64")
      case wraps: False
      have next_v: "wrap64 (v + step) = v + step - 2 ^ 64"
        using wraps False 2(2-) by (intro wrap64_over) (auto simp: max_int64_def)
      have "0 < n" using False 2(2-) by auto
      then obtain k where n: "n = Suc k" by (cases n) auto
      let ?i = "wrap64 (v + step - 2 ^ 64 - mn)"
      have panic: "?i < 0 \<or> int (length out) \<le> ?i"
      proof (cases "min_int64 \<le> v + step - 2 ^ 64 - mn")
        case True
        then have "?i = v + step - 2 ^ 64 - mn" using False 2(2-) by (intro wrap64_id) (auto simp: max_int64_def)
        then show ?thesis using False 2(2-) by (auto simp: max_int64_def)
      next
        case low: False
        then have "?i = v + step - mn" using wraps False 2(2-) by (subst wrap64_under) (auto simp: min_int64_def max_int64_def)
        then show ?thesis using wraps False 2(2-) by (auto simp: max_int64_def)
      qed
      have "v + step - 2 ^ 64 \<le> hi" using False 2(2-) by (auto simp: max_int64_def)
      then have "mark_steps n (wrap64 (v + step)) hi step mn ?out = Inl CronPanic"
        using panic unfolding next_v n by (simp add: Let_def)
      moreover have "(hi - v) div step = 0" using wraps False 2(2-) by (intro div_pos_pos_trivial) (auto simp: max_int64_def)
      then have "step_overflows v hi step" using wraps False by (simp add: step_overflows_def)
      ultimately show ?thesis using run by simp
    next
      case True
      then have next_v: "wrap64 (v + step) = v + step" using False 2(2-) by (intro wrap64_id) (auto simp: min_int64_def max_int64_def)
      have over: "step_overflows (v + step) hi step = step_overflows v hi step"
      proof (cases "v + step \<le> hi")
        case True
        then show ?thesis using step_overflows_next [of v hi step] \<open>v + step \<le> max_int64\<close> False 2(2-) by simp
      next
        case far: False
        then have "(hi - v) div step = 0" using False by (intro div_pos_pos_trivial) auto
        then show ?thesis using far False True by (simp add: step_overflows_def)
      qed
      have marks: "(?out ! i \<or> v + step \<le> mn + int i \<and> mn + int i \<le> hi \<and> (mn + int i - (v + step)) mod step = 0) =
          (out ! i \<or> v \<le> mn + int i \<and> mn + int i \<le> hi \<and> (mn + int i - v) mod step = 0)" if "i < length out" for i
      proof -
        have m: "(mn + int i - (v + step)) mod step = (mn + int i - v) mod step" 
          using mod_mult_self2 [of "mn + int i - (v + step)" step 1] by (simp add: algebra_simps)
        have hit: "?out ! i = (out ! i \<or> mn + int i = v)" using that 2(2-) by (cases "nat (v - mn) = i") auto
        show ?thesis
        proof (cases "mn + int i = v")
          case True
          then show ?thesis using hit False by simp
        next
          case other: False
          show ?thesis unfolding m hit step_mark [OF 2(7) other] using other by simp
        qed
      qed
      have "mark_steps n (v + step) hi step mn ?out = (if step_overflows (v + step) hi step then Inl CronPanic
         else Inr (map (\<lambda>i. ?out ! i \<or> v + step \<le> mn + int i \<and> mn + int i \<le> hi \<and> (mn + int i - (v + step)) mod step = 0) [0..<length ?out]))"
        using "2.IH" [OF False refl, unfolded idx, OF in_range, unfolded next_v] False 2(2-) by simp
      moreover have "map (\<lambda>i. ?out ! i \<or> v + step \<le> mn + int i \<and> mn + int i \<le> hi \<and> (mn + int i - (v + step)) mod step = 0) [0..<length ?out] =
          map (\<lambda>i. out ! i \<or> v \<le> mn + int i \<and> mn + int i \<le> hi \<and> (mn + int i - v) mod step = 0) [0..<length out]"
        by (rule map_cong) (use marks in auto)
      ultimately show ?thesis unfolding run next_v over by (simp only:)
    qed
  qed
qed

lemma cron_term_Inr:
  "cron_term p mn mx = Inr (lo, hi, step, s) \<Longrightarrow> mn \<le> lo \<and> lo \<le> hi \<and> hi \<le> mx \<and> 0 < step \<and> step \<le> max_int64 \<and>
    s = (cut_before (CHR ''/'') p = ''*'')"
  using atoi_range
  by (fastforce simp: cron_term_def cron_step_def Let_def max_int64_def split: if_splits option.splits sum.splits prod.splits)

lemma cron_parts_Inr:
  assumes "0 \<le> mn" "mx < 2 ^ 62 - 1" "int (length out) = mx - mn + 1" "cron_parts ps mn mx out star = Inr (out', star')"
  shows "length out' = length out \<and> star' = (star \<or> list_ex term_star ps) \<and>
    (\<forall>i < length out. out' ! i \<longleftrightarrow> out ! i \<or> list_ex (\<lambda>p. term_admits p mn mx (mn + int i)) ps)"
  using assms(3,4)
proof (induction ps arbitrary: out star)
  case Nil
  then show ?case by simp
next
  case (Cons p ps)
  from Cons.prems obtain lo hi step s where trm: "cron_term (trim_space p) mn mx = Inr (lo, hi, step, s)"
    by (auto split: sum.splits)
  note bounds = cron_term_Inr [OF trm]
  let ?out = "map (\<lambda>i. out ! i \<or> lo \<le> mn + int i \<and> mn + int i \<le> hi \<and> (mn + int i - lo) mod step = 0) [0..<length out]"
  have "mark_steps (length out + 2) lo hi step mn out = (if step_overflows lo hi step then Inl CronPanic else Inr ?out)"
    by (rule mark_steps_spec) (use bounds assms Cons.prems(1) in auto)
  with Cons.prems(2) trm have rest: "cron_parts ps mn mx ?out (star \<or> s) = Inr (out', star')"
    by (auto split: if_splits)
  have "s = term_star p" using bounds by (simp add: term_star_def)
  moreover have "term_admits p mn mx u \<longleftrightarrow> lo \<le> u \<and> u \<le> hi \<and> (u - lo) mod step = 0" for u
    using trm by (simp add: term_admits_def)
  ultimately show ?case using Cons.IH [OF _ rest] Cons.prems(1) by auto
qed

lemma parse_cron_field_Inr:
  assumes "0 \<le> mn" "mn \<le> mx" "mx < 2 ^ 62 - 1" "parse_cron_field f mn mx = Inr (out, star)"
  shows "length out = nat (mx - mn + 1)" "star = field_star f"
    "mn \<le> u \<Longrightarrow> u \<le> mx \<Longrightarrow> out ! nat (u - mn) \<longleftrightarrow> field_admits f mn mx u"
proof -
  note spec = cron_parts_Inr [OF assms(1,3) _ assms(4) [unfolded parse_cron_field_def]]
  show "length out = nat (mx - mn + 1)" "star = field_star f"
    using spec assms(2) by (simp_all add: field_star_def)
  assume u: "mn \<le> u" "u \<le> mx"
  then have "nat (u - mn) < nat (mx - mn + 1)" "mn + int (nat (u - mn)) = u" by auto
  then show "out ! nat (u - mn) \<longleftrightarrow> field_admits f mn mx u" using spec assms(2) by (simp add: field_admits_def)
qed

lemma parse_cron_Inr:
  assumes "parse_cron expr = Inr c" shows "cron_matches c t = cron_admits expr t"
proof -
  from assms obtain f0 f1 f2 f3 f4 minutes s0 hours s1 days s2 months s3 dow s4
    where fl: "GoStd.fields (trim_space expr) = [f0, f1, f2, f3, f4]"
      and p0: "parse_cron_field f0 0 59 = Inr (minutes, s0)" and p1: "parse_cron_field f1 0 23 = Inr (hours, s1)"
      and p2: "parse_cron_field f2 1 31 = Inr (days, s2)" and p3: "parse_cron_field f3 1 12 = Inr (months, s3)"
      and p4: "parse_cron_field f4 0 7 = Inr (dow, s4)"
      and c: "c = \<lparr>cs_minutes = minutes, cs_hours = hours, cs_dom = days, cs_months = months,
                cs_dow = take 7 (if dow ! 7 then dow[0 := True] else dow), cs_dom_star = s2, cs_dow_star = s4\<rparr>"
    unfolding parse_cron_def by (auto split: list.splits sum.splits)
  note civil = civil_of_fields [of t] civil_of_day_31 [of t] weekday_range [of t]
  have m: "minutes ! nat (cv_minute (civil_of t)) = field_admits f0 0 59 (cv_minute (civil_of t))"
    using parse_cron_field_Inr(3) [OF _ _ _ p0, of "cv_minute (civil_of t)"] civil by simp
  have h: "hours ! nat (cv_hour (civil_of t)) = field_admits f1 0 23 (cv_hour (civil_of t))"
    using parse_cron_field_Inr(3) [OF _ _ _ p1, of "cv_hour (civil_of t)"] civil by simp
  have d: "days ! nat (cv_day (civil_of t) - 1) = field_admits f2 1 31 (cv_day (civil_of t))"
    using parse_cron_field_Inr(3) [OF _ _ _ p2, of "cv_day (civil_of t)"] civil by simp
  have mo: "months ! nat (cv_month (civil_of t) - 1) = field_admits f3 1 12 (cv_month (civil_of t))"
    using parse_cron_field_Inr(3) [OF _ _ _ p3, of "cv_month (civil_of t)"] civil by simp
  have len: "length dow = 8" using parse_cron_field_Inr(1) [OF _ _ _ p4] by simp
  have raw: "dow ! nat u = field_admits f4 0 7 u" if "0 \<le> u" "u \<le> 7" for u
    using parse_cron_field_Inr(3) [OF _ _ _ p4, of u] that by simp
  have "nat (weekday t) < 7" using civil by linarith
  then have w: "take 7 (if dow ! 7 then dow[0 := True] else dow) ! nat (weekday t) =
      (field_admits f4 0 7 (weekday t) \<or> weekday t = 0 \<and> field_admits f4 0 7 7)"
    using raw [of "weekday t"] raw [of 7] civil len by (auto simp: nth_list_update)
  have stars: "s2 = field_star f2" "s4 = field_star f4"
    using parse_cron_field_Inr(2) [OF _ _ _ p2] parse_cron_field_Inr(2) [OF _ _ _ p4] by simp_all
  show ?thesis
    unfolding cron_matches_def cron_admits_def fl c by (auto simp: Let_def m h d mo w stars)
qed

lemma cron_search_spec:
  "case cron_search c limit t of
     Some u \<Rightarrow> cron_matches c u \<and> (t \<le> u \<and> (u - t) mod minute = 0) \<and> u < limit \<and>
       (\<forall>v. (t \<le> v \<and> (v - t) mod minute = 0) \<and> v < u \<longrightarrow> \<not> cron_matches c v)
   | None \<Rightarrow> (\<forall>v. (t \<le> v \<and> (v - t) mod minute = 0) \<and> v < limit \<longrightarrow> \<not> cron_matches c v)"
proof (induction c limit t rule: cron_search.induct)
  case (1 c limit t)
  show ?case
  proof (cases "t < limit \<and> \<not> cron_matches c t")
    case False
    then show ?thesis by (subst cron_search.simps) auto
  next
    case True
    then have run: "cron_search c limit t = cron_search c limit (t + minute)"
      by (subst cron_search.simps) (simp add: time_add_def)
    have step: "(v - (t + minute)) mod minute = (v - t) mod minute" for v
      using mod_mult_self2 [of "v - (t + minute)" minute 1] by (simp add: algebra_simps)
    have later: "t + minute \<le> v" if "t \<le> v" "(v - t) mod minute = 0" "v \<noteq> t" for v
      using zdvd_imp_le [of minute "v - t"] that by (simp add: dvd_eq_mod_eq_0)
    have "\<not> cron_matches c v" if "\<forall>v. (t + minute \<le> v \<and> (v - t) mod minute = 0) \<and> v < l \<longrightarrow> \<not> cron_matches c v"
      "t \<le> v" "v < l" "(v - t) mod minute = 0" for v l
      using that later [of v] True by (cases "v = t") auto
    then show ?thesis
      using "1.IH" True unfolding run time_add_def step by (auto split: option.splits)
  qed
qed

section \<open>Properties\<close>

lemma next_minute_grid:
  "from_t < u \<and> u mod minute = 0 \<longleftrightarrow> next_minute from_t \<le> u \<and> (u - next_minute from_t) mod minute = 0"
proof -
  define k where "k = from_t div minute"
  have from_t: "k * minute \<le> from_t" "from_t < k * minute + minute"
    using div_mult_mod_eq [of from_t minute] pos_mod_sign [of minute from_t] pos_mod_bound [of minute from_t] by (simp_all add: k_def)
  have next_t: "next_minute from_t = k * minute + minute"
    using minus_mod_eq_div_mult [of from_t minute] by (simp add: next_minute_def time_add_def k_def)
  have "(u - next_minute from_t) mod minute = u mod minute"
    using mod_mult_self2 [of "u - next_minute from_t" minute "k + 1"] by (simp add: next_t algebra_simps)
  moreover have "k * minute + minute \<le> u" if "from_t < u" "u mod minute = 0"
  proof -
    obtain j where u: "u = j * minute" using \<open>u mod minute = 0\<close> by (auto simp: dvd_def mult.commute)
    then have "k < j" using that(1) from_t(1) by simp
    then show ?thesis using u by simp
  qed
  ultimately show ?thesis using from_t next_t by auto
qed

text \<open>
  C36: The search for the next wake-up always ends, with the earliest admitted minute.  For a valid
  expression the result is the first full minute after the given time that the text of the five fields
  admits, or none if no minute of the following 4 * 366 days is admitted.
\<close>

theorem next_cron_time_earliest:
  assumes "parse_cron expr = Inr c"
  shows "\<exists>r. next_cron_time expr from_t = Inr r \<and>
    (case r of
       Some t \<Rightarrow> cron_admits expr t \<and> (from_t < t \<and> t mod minute = 0) \<and> t < next_minute from_t + search_span \<and>
         (\<forall>u. (from_t < u \<and> u mod minute = 0) \<and> u < t \<longrightarrow> \<not> cron_admits expr u)
     | None \<Rightarrow> \<forall>u. (from_t < u \<and> u mod minute = 0) \<and> u < next_minute from_t + search_span \<longrightarrow> \<not> cron_admits expr u)"
proof -
  let ?r = "cron_search c (next_minute from_t + search_span) (next_minute from_t)"
  note spec = cron_search_spec [where c = c and limit = "next_minute from_t + search_span" and t = "next_minute from_t"]
  have "next_cron_time expr from_t = Inr ?r" using assms by (simp add: next_cron_time_def time_add_def)
  moreover note spec [unfolded parse_cron_Inr [OF assms] next_minute_grid [symmetric]]
  ultimately show ?thesis by (intro exI [of _ ?r] conjI)
qed

text \<open>Half past one on the first of January and on the Mondays of January; day 0 is both.\<close>

definition sample_cron :: cron_schedule where
  "sample_cron = \<lparr>cs_minutes = map (\<lambda>i. i = 30) [0..<60], cs_hours = map (\<lambda>i. i = 1) [0..<24], cs_dom = map (\<lambda>i. i = 0) [0..<31],
     cs_months = map (\<lambda>i. i = 0) [0..<12], cs_dow = map (\<lambda>i. i = 1) [0..<7], cs_dom_star = False, cs_dow_star = False\<rparr>"

lemma sample_fields: "GoStd.fields (trim_space ''30 1 1 1 1'') = [''30'', ''1'', ''1'', ''1'', ''1'']"
proof -
  have "trim_space ''30 1 1 1 1'' = ''30 1 1 1 1''" by (rule trim_space_ends) (simp_all add: graphic_def)
  moreover have "''30 1 1 1 1'' = ''30'' @ CHR '' '' # ''1'' @ CHR '' '' # ''1'' @ CHR '' '' # ''1'' @ CHR '' '' # ''1''" by simp
  ultimately show ?thesis by (simp only:) (simp add: fields_blank fields_graphic graphic_def del: append_Cons append_Nil)
qed

lemma single_value:
  assumes "cron_term (trim_space f) mn mx = Inr (v, v, 1, False)" "split_byte (CHR '','') f = [f]"
    and "0 \<le> mn" "mn \<le> v" "v \<le> mx" "mx < 2 ^ 62 - 1"
  shows "parse_cron_field f mn mx = Inr (map (\<lambda>i. mn + int i = v) [0..<nat (mx - mn + 1)], False)"
proof -
  have "mark_steps (length (replicate (nat (mx - mn + 1)) False) + 2) v v 1 mn (replicate (nat (mx - mn + 1)) False) =
     Inr (map (\<lambda>i. mn + int i = v) [0..<nat (mx - mn + 1)])"
    using assms by (subst mark_steps_spec) (auto simp: step_overflows_def max_int64_def)
  then show ?thesis using assms by (simp add: parse_cron_field_def)
qed

lemma sample_term: "mn \<le> 30 \<Longrightarrow> 30 \<le> mx \<Longrightarrow> cron_term (trim_space ''30'') mn mx = Inr (30, 30, 1, False)"
  "mn \<le> 1 \<Longrightarrow> 1 \<le> mx \<Longrightarrow> cron_term (trim_space ''1'') mn mx = Inr (1, 1, 1, False)"
  by (simp_all add: trim_space_graphic graphic_def cron_term_def cron_step_def cron_range_def cut_before_def atoi_def digit_val_def
      min_int64_def max_int64_def)

lemma sample_cron_parsed: "parse_cron ''30 1 1 1 1'' = Inr sample_cron"
  by (simp add: parse_cron_def sample_fields single_value sample_term sample_cron_def) (simp add: upt_rec)

lemma sample_search:
  "cron_search sample_cron (next_minute (88 * minute) + search_span) (next_minute (88 * minute)) = Some (90 * minute)"
  by code_simp

theorem next_cron_time_earliest_witness:
  "next_cron_time ''30 1 1 1 1'' (88 * minute) = Inr (Some (90 * minute)) \<and> \<not> cron_admits ''30 1 1 1 1'' (89 * minute)"
proof -
  have r: "next_cron_time ''30 1 1 1 1'' (88 * minute) = Inr (Some (90 * minute))"
    using sample_search by (simp only: next_cron_time_def sample_cron_parsed sum.case time_add_def)
  show ?thesis using next_cron_time_earliest [OF sample_cron_parsed, of "88 * minute"] r by simp
qed

text \<open>A step near the largest integer wraps the loop variable around: the parser panics.\<close>

lemma cron_step_panics: "parse_cron_field ''*/9223372036854775807'' 1 31 = Inl CronPanic"
proof -
  have g: "list_all graphic ''*/9223372036854775807''" by (simp add: graphic_def)
  have "cron_term (trim_space ''*/9223372036854775807'') 1 31 = Inr (1, 31, 9223372036854775807, True)"
    by (simp add: trim_space_graphic [OF g] cron_term_def cron_step_def cron_range_def cut_before_def atoi_def digit_val_def
        min_int64_def max_int64_def)
  then show ?thesis
    by (simp add: parse_cron_field_def mark_steps_spec step_overflows_def max_int64_def)
qed

end
