(* ===== verification/RunPolicy.thy ===== *)
theory RunPolicy
  imports GoStd
begin

text \<open>
  \<^verbatim>\<open>codexclient/policy.go\<close> apart from its path functions: which sandbox, approval policy and network access
  a turn gets in a workspace, and the environment a codex process inherits.  The Unicode part of
  \<^verbatim>\<open>strings.ToUpper\<close> is a parameter.
\<close>

section \<open>Sandbox and approval\<close>

text \<open>The part of a workspace the policy reads; \<open>wk_network\<close> is the boolean \<^verbatim>\<open>enabled\<close> of its network policy, if it has one.\<close>

record codex_workspace =
  wk_id :: string
  wk_trust :: string
  wk_sandbox :: string
  wk_approval :: string
  wk_network :: "bool option"

record run_policy =
  rp_sandbox :: string
  rp_approval :: string
  rp_network :: bool

datatype policy_error = UnsupportedSandbox string | UnsupportedApproval string | NotForTrust string

definition first_set :: "string \<Rightarrow> string \<Rightarrow> string \<Rightarrow> string" where
  "first_set requested fallback def =
     (let s = (if trim_space requested = [] then fallback else trim_space requested) in if s = [] then def else s)"

definition resolve_run_policy :: "codex_workspace \<Rightarrow> string \<Rightarrow> string \<Rightarrow> policy_error + run_policy" where
  "resolve_run_policy ws sandbox approval =
     (let sb = first_set sandbox (wk_sandbox ws) ''read-only''; ap = first_set approval (wk_approval ws) ''on-request'' in
      if sb \<noteq> ''read-only'' \<and> sb \<noteq> ''workspace-write'' then Inl (UnsupportedSandbox sb)
      else if ap \<noteq> ''on-request'' then Inl (UnsupportedApproval ap)
      else if (wk_trust ws = ''restricted'' \<or> wk_trust ws = ''untrusted'') \<and> sb \<noteq> ''read-only'' then Inl (NotForTrust (wk_trust ws))
      else Inr \<lparr>rp_sandbox = sb, rp_approval = ap, rp_network = (wk_trust ws = ''trusted'' \<and> wk_network ws = Some True)\<rparr>)"

lemma resolve_run_policy_Inr:
  assumes "resolve_run_policy ws sandbox approval = Inr p"
  shows "rp_sandbox p = ''read-only'' \<or> rp_sandbox p = ''workspace-write''" and "rp_approval p = ''on-request''"
    and "wk_trust ws = ''restricted'' \<or> wk_trust ws = ''untrusted'' \<Longrightarrow> rp_sandbox p = ''read-only''"
    and "rp_network p \<Longrightarrow> wk_trust ws = ''trusted''"
  using assms by (auto simp: resolve_run_policy_def Let_def split: if_splits)

lemma resolve_read_only:
  assumes "trim_space sandbox = ''read-only''" "trim_space approval = ''on-request''"
  shows "resolve_run_policy ws sandbox approval =
    Inr \<lparr>rp_sandbox = ''read-only'', rp_approval = ''on-request'', rp_network = (wk_trust ws = ''trusted'' \<and> wk_network ws = Some True)\<rparr>"
  using assms by (simp add: resolve_run_policy_def first_set_def)

section \<open>The environment of a codex process\<close>

definition secret_env_hints :: "string list" where
  "secret_env_hints = [''SECRET'', ''TOKEN'', ''PASSWORD'', ''PASSWD'', ''APIKEY'', ''API_KEY'', ''COOKIE'', ''PRIVATE_KEY'',
     ''ACCESS_KEY'', ''CREDENTIAL'']"

definition allowed_env_keys :: "string list" where
  "allowed_env_keys = [''PATH'', ''HOME'', ''USER'', ''SHELL'', ''TERM'', ''LANG'', ''LC_ALL'', ''LC_CTYPE'', ''TMPDIR'',
     ''XDG_CACHE_HOME'', ''XDG_CONFIG_HOME'']"

definition is_secret_env_key :: "(string \<Rightarrow> string) \<Rightarrow> string \<Rightarrow> bool" where
  "is_secret_env_key uu key \<longleftrightarrow> list_ex (\<lambda>hint. contains (to_upper uu key) hint) secret_env_hints"

definition env_value :: "(string \<Rightarrow> string option) \<Rightarrow> string \<Rightarrow> string option" where
  "env_value env key = (case env key of Some v \<Rightarrow> if v = [] then None else Some v | None \<Rightarrow> None)"

definition build_child_env :: "(string \<Rightarrow> string) \<Rightarrow> (string \<Rightarrow> string option) \<Rightarrow> string \<Rightarrow> string list" where
  "build_child_env uu env codex_home =
     List.map_filter (\<lambda>key. if is_secret_env_key uu key then None else map_option (\<lambda>v. key @ ''='' @ v) (env_value env key))
       allowed_env_keys
     @ (if trim_space codex_home \<noteq> [] then [''CODEX_HOME='' @ codex_home]
        else case env_value env ''CODEX_HOME'' of Some v \<Rightarrow> [''CODEX_HOME='' @ v] | None \<Rightarrow> [])"

text \<open>Nothing but the allowed variables and the codex home is handed on.\<close>

lemma env_value_Some: "env_value env key = Some v \<Longrightarrow> v \<noteq> []"
  by (auto simp: env_value_def split: option.splits if_splits)

lemma build_child_env_allowed:
  assumes "e \<in> set (build_child_env uu env codex_home)"
  shows "\<exists>key \<in> set (''CODEX_HOME'' # allowed_env_keys). \<exists>v. v \<noteq> [] \<and> e = key @ ''='' @ v"
proof -
  let ?home = "''CODEX_HOME''"
  from assms have "(\<exists>key v. key \<in> set allowed_env_keys \<and> env_value env key = Some v \<and> e = key @ ''='' @ v) \<or>
      (trim_space codex_home \<noteq> [] \<and> e = ?home @ ''='' @ codex_home) \<or>
      (\<exists>v. env_value env ?home = Some v \<and> e = ?home @ ''='' @ v)"
    by (auto simp: build_child_env_def List.map_filter_def split: if_splits option.splits)
  moreover have "trim_space codex_home \<noteq> [] \<Longrightarrow> codex_home \<noteq> []" by auto
  ultimately show ?thesis
    unfolding list.set(2) using env_value_Some [of env] by blast
qed

end
