(* ===== verification/CodexTables.thy ===== *)
theory CodexTables
  imports Cron RunPolicy GoFloat
begin

text \<open>
  The tables of \<^verbatim>\<open>storage/codex_cli.go\<close> behind the Codex automations: automations, their runs, and what the
  automations touch of threads, workspaces and turns.  Every statement may fail; times are RFC 3339
  texts and compared as texts, as in the SQL.  A schedule is the decoded JSON object as a list of its
  members sorted by key, so that equal lists are equal JSON texts.
\<close>

section \<open>Rows\<close>

datatype sched_value = SvText string | SvNum f64 | SvOther string

type_synonym schedule = "(string \<times> sched_value) list"

record automation =
  am_id :: string
  am_kind :: string
  am_thread :: string
  am_workspace :: string
  am_title :: string
  am_prompt :: string
  am_schedule :: schedule
  am_enabled :: bool
  am_sandbox :: string
  am_approval :: string
  am_last_run :: string
  am_next_run :: string
  am_retry :: int
  am_backoff_until :: string
  am_created_at :: string
  am_updated_at :: string

record auto_run =
  ar_id :: string
  ar_automation :: string
  ar_thread :: string
  ar_turn :: string
  ar_request :: string
  ar_status :: string
  ar_started :: string
  ar_heartbeat :: string
  ar_completed :: string
  ar_finding :: string
  ar_error :: string
  ar_triage :: string
  ar_created_at :: string
  ar_updated_at :: string

definition zero_automation :: automation where
  "zero_automation = \<lparr>am_id = [], am_kind = [], am_thread = [], am_workspace = [], am_title = [], am_prompt = [], am_schedule = [],
     am_enabled = False, am_sandbox = [], am_approval = [], am_last_run = [], am_next_run = [], am_retry = 0, am_backoff_until = [],
     am_created_at = [], am_updated_at = []\<rparr>"

definition zero_run :: auto_run where
  "zero_run = \<lparr>ar_id = [], ar_automation = [], ar_thread = [], ar_turn = [], ar_request = [], ar_status = [], ar_started = [],
     ar_heartbeat = [], ar_completed = [], ar_finding = [], ar_error = [], ar_triage = [], ar_created_at = [], ar_updated_at = []\<rparr>"

text \<open>What the automations use of a thread and of a turn.\<close>

record codex_thread =
  ct_id :: string
  ct_workspace :: string
  ct_title :: string
  ct_kind :: string
  ct_background :: bool
  ct_source :: string
  ct_sandbox :: string
  ct_approval :: string

record codex_turn =
  cn_id :: string
  cn_thread :: string
  cn_status :: string
  cn_prompt :: string
  cn_policy :: run_policy

record codex =
  cx_automations :: "automation list"
  cx_runs :: "auto_run list"
  cx_threads :: "codex_thread list"
  cx_workspaces :: "codex_workspace list"
  cx_turns :: "codex_turn list"
  cx_on :: bool
  cx_fault :: "nat \<Rightarrow> bool"
  cx_clock :: "nat \<Rightarrow> gtime"
  cx_random :: "nat \<Rightarrow> string option"
  cx_calls :: nat

datatype codex_error = CxNotFound | CxDb string | CxText string | CxDisabled | CxPolicy policy_error | CxPanic

type_synonym 'a codex_prog = "(codex, codex_error, 'a) prog"

section \<open>Statements\<close>

definition codex_db :: "string \<Rightarrow> (codex \<Rightarrow> (codex_error + 'a) \<times> codex) \<Rightarrow> 'a codex_prog" where
  "codex_db what op = (\<lambda>w.
     let w1 = w\<lparr>cx_calls := Suc (cx_calls w)\<rparr> in if cx_fault w (cx_calls w) then (Inl (CxDb what), w1) else op w1)"

definition db_read :: "string \<Rightarrow> (codex \<Rightarrow> codex_error + 'a) \<Rightarrow> 'a codex_prog" where
  "db_read what q = codex_db what (\<lambda>w. (q w, w))"

definition db_write :: "string \<Rightarrow> (codex \<Rightarrow> codex) \<Rightarrow> unit codex_prog" where
  "db_write what f = codex_db what (\<lambda>w. (Inr (), f w))"

definition db_insert :: "string \<Rightarrow> (codex \<Rightarrow> bool) \<Rightarrow> (codex \<Rightarrow> codex) \<Rightarrow> unit codex_prog" where
  "db_insert what ok f = codex_db what (\<lambda>w. if ok w then (Inr (), f w) else (Inl (CxDb what), w))"

definition clock_now :: "gtime codex_prog" where
  "clock_now = get_state (\<lambda>w. cx_clock w (cx_calls w))"

definition text_now :: "string codex_prog" where
  "text_now = bindE clock_now (\<lambda>t. ret (format_rfc3339nano t))"

definition codex_id :: "string \<Rightarrow> string codex_prog" where
  "codex_id pre = (\<lambda>w.
     (case cx_random w (cx_calls w) of None \<Rightarrow> Inl (CxText ''random source failed'') | Some s \<Rightarrow> Inr (pre @ ''_'' @ s),
      w\<lparr>cx_calls := Suc (cx_calls w)\<rparr>))"

definition find_row :: "('r \<Rightarrow> bool) \<Rightarrow> 'r list \<Rightarrow> codex_error + 'r" where
  "find_row p rows = (case find p rows of None \<Rightarrow> Inl CxNotFound | Some r \<Rightarrow> Inr r)"

text \<open>Newest first: \<^verbatim>\<open>ORDER BY created_at DESC\<close> over texts.\<close>

definition sort_desc :: "('r \<Rightarrow> string) \<Rightarrow> 'r list \<Rightarrow> 'r list" where
  "sort_desc f rows = rev (sort_key f (rev rows))"

section \<open>Automations\<close>

definition normalize_automation :: "automation \<Rightarrow> automation" where
  "normalize_automation a =
     a\<lparr>am_kind := (if trim_space (am_kind a) = ''project'' then ''project'' else ''thread_wakeup''),
       am_title := (if trim_space (am_title a) = [] then ''Codex automation'' else trim_space (am_title a)),
       am_prompt := trim_space (am_prompt a), am_sandbox := ''read-only'', am_approval := ''on-request''\<rparr>"

definition get_automation :: "string \<Rightarrow> automation codex_prog" where
  "get_automation aid = db_read ''get automation'' (\<lambda>w. find_row (\<lambda>a. am_id a = aid) (cx_automations w))"

definition create_automation_row :: "automation \<Rightarrow> automation codex_prog" where
  "create_automation_row a =
     bindE (if trim_space (am_id a) = [] then codex_id ''cxauto'' else ret (am_id a)) (\<lambda>aid.
     bindE text_now (\<lambda>now.
     let row = (normalize_automation (a\<lparr>am_id := aid\<rparr>))\<lparr>am_created_at := now, am_updated_at := now\<rparr> in
     seqE (db_insert ''insert automation'' (\<lambda>w. aid \<notin> set (map am_id (cx_automations w)))
             (\<lambda>w. w\<lparr>cx_automations := cx_automations w @ [row]\<rparr>))
          (get_automation aid)))"

definition list_automation_rows :: "automation list codex_prog" where
  "list_automation_rows = db_read ''list automations'' (\<lambda>w.
     Inr (sort_key (\<lambda>a. \<not> am_enabled a) (sort_key am_next_run (sort_desc am_created_at (cx_automations w)))))"

text \<open>The due automations, oldest first; a limit out of range becomes 20.\<close>

definition due_at :: "string \<Rightarrow> automation \<Rightarrow> bool" where
  "due_at now a \<longleftrightarrow> am_enabled a \<and> am_next_run a \<noteq> [] \<and> am_next_run a \<le> now \<and> (am_backoff_until a = [] \<or> am_backoff_until a \<le> now)"

definition list_due_automations :: "string \<Rightarrow> int \<Rightarrow> automation list codex_prog" where
  "list_due_automations now limit = db_read ''list due automations'' (\<lambda>w.
     Inr (take (nat (if limit \<le> 0 \<or> 50 < limit then 20 else limit)) (sort_key am_next_run (filter (due_at now) (cx_automations w)))))"

definition update_automation_row :: "automation \<Rightarrow> automation codex_prog" where
  "update_automation_row a =
     bindE text_now (\<lambda>now.
     let row = (normalize_automation a)\<lparr>am_updated_at := now\<rparr> in
     seqE (db_write ''update automation'' (\<lambda>w. w\<lparr>cx_automations :=
             map (\<lambda>r. if am_id r = am_id a then row\<lparr>am_created_at := am_created_at r\<rparr> else r) (cx_automations w)\<rparr>))
          (get_automation (am_id a)))"

definition delete_automation_row :: "string \<Rightarrow> unit codex_prog" where
  "delete_automation_row aid =
     seqE (db_write ''delete automation runs'' (\<lambda>w. w\<lparr>cx_runs := filter (\<lambda>r. ar_automation r \<noteq> aid) (cx_runs w)\<rparr>))
          (codex_db ''delete automation'' (\<lambda>w.
             (if aid \<in> set (map am_id (cx_automations w)) then Inr () else Inl CxNotFound,
              w\<lparr>cx_automations := filter (\<lambda>a. am_id a \<noteq> aid) (cx_automations w)\<rparr>)))"

section \<open>Runs\<close>

definition get_run :: "string \<Rightarrow> auto_run codex_prog" where
  "get_run rid = db_read ''get automation run'' (\<lambda>w. find_row (\<lambda>r. ar_id r = rid) (cx_runs w))"

definition get_run_by_request :: "string \<Rightarrow> string \<Rightarrow> auto_run codex_prog" where
  "get_run_by_request aid req = db_read ''get automation run by request'' (\<lambda>w.
     find_row (\<lambda>r. ar_automation r = aid \<and> ar_request r = req) (cx_runs w))"

definition get_run_by_turn :: "string \<Rightarrow> auto_run codex_prog" where
  "get_run_by_turn tid = db_read ''get automation run by turn'' (\<lambda>w.
     find_row (\<lambda>r. ar_turn r = tid) (sort_desc ar_created_at (cx_runs w)))"

text \<open>An existing run of the same automation and request is kept and returned.\<close>

definition create_run :: "auto_run \<Rightarrow> auto_run codex_prog" where
  "create_run r =
     bindE (if trim_space (ar_id r) = [] then codex_id ''cxarun'' else ret (ar_id r)) (\<lambda>rid.
     bindE text_now (\<lambda>now.
     let row = r\<lparr>ar_id := rid, ar_status := (if trim_space (ar_status r) = [] then ''queued'' else ar_status r),
               ar_triage := (if trim_space (ar_triage r) = [] then ''open'' else ar_triage r),
               ar_created_at := now, ar_updated_at := now\<rparr>;
         taken = (\<lambda>w. list_ex (\<lambda>q. ar_automation q = ar_automation r \<and> ar_request q = ar_request r) (cx_runs w))
     in seqE (db_insert ''insert automation run'' (\<lambda>w. taken w \<or> rid \<notin> set (map ar_id (cx_runs w)))
                (\<lambda>w. if taken w then w else w\<lparr>cx_runs := cx_runs w @ [row]\<rparr>))
             (if ar_request r \<noteq> [] then get_run_by_request (ar_automation r) (ar_request r) else get_run rid)))"

definition list_run_rows :: "string \<Rightarrow> auto_run list codex_prog" where
  "list_run_rows triage = db_read ''list automation runs'' (\<lambda>w.
     let t = trim_space triage in
     Inr (take 200 (sort_desc ar_created_at (if t \<noteq> [] \<and> t \<noteq> ''all'' then filter (\<lambda>r. ar_triage r = t) (cx_runs w) else cx_runs w))))"

definition run_active :: "auto_run \<Rightarrow> bool" where
  "run_active r \<longleftrightarrow> ar_status r = ''queued'' \<or> ar_status r = ''running''"

definition list_active_runs :: "auto_run list codex_prog" where
  "list_active_runs = db_read ''list active automation runs'' (\<lambda>w.
     Inr (take 200 (sort_key ar_created_at (filter run_active (cx_runs w)))))"

definition pick :: "string \<Rightarrow> string \<Rightarrow> string" where
  "pick new old = (if new \<noteq> [] then new else old)"

definition merge_run :: "auto_run \<Rightarrow> auto_run \<Rightarrow> auto_run" where
  "merge_run r cur =
     cur\<lparr>ar_thread := pick (ar_thread r) (ar_thread cur), ar_turn := pick (ar_turn r) (ar_turn cur),
         ar_status := pick (ar_status r) (ar_status cur), ar_started := pick (ar_started r) (ar_started cur),
         ar_heartbeat := pick (ar_heartbeat r) (ar_heartbeat cur), ar_completed := pick (ar_completed r) (ar_completed cur),
         ar_finding := pick (ar_finding r) (ar_finding cur), ar_error := pick (ar_error r) (ar_error cur),
         ar_triage := pick (ar_triage r) (ar_triage cur)\<rparr>"

text \<open>The columns an update writes; id, automation, request and creation time stay.\<close>

definition run_columns :: "auto_run \<Rightarrow> auto_run \<Rightarrow> auto_run" where
  "run_columns m row =
     m\<lparr>ar_id := ar_id row, ar_automation := ar_automation row, ar_request := ar_request row, ar_created_at := ar_created_at row\<rparr>"

definition update_run :: "auto_run \<Rightarrow> auto_run codex_prog" where
  "update_run r =
     bindE (get_run (ar_id r)) (\<lambda>cur.
     bindE text_now (\<lambda>now.
     let merged = (merge_run r cur)\<lparr>ar_updated_at := now\<rparr> in
     seqE (db_write ''update automation run'' (\<lambda>w. w\<lparr>cx_runs :=
             map (\<lambda>q. if ar_id q = ar_id merged then run_columns merged q else q) (cx_runs w)\<rparr>))
          (get_run (ar_id merged))))"

definition archive_run :: "string \<Rightarrow> auto_run codex_prog" where
  "archive_run rid =
     bindE text_now (\<lambda>now.
     seqE (db_write ''archive automation run'' (\<lambda>w. w\<lparr>cx_runs :=
             map (\<lambda>q. if ar_id q = rid then q\<lparr>ar_triage := ''archived'', ar_updated_at := now\<rparr> else q) (cx_runs w)\<rparr>))
          (get_run rid))"

section \<open>Threads, workspaces and turns\<close>

definition get_thread :: "string \<Rightarrow> codex_thread codex_prog" where
  "get_thread tid = db_read ''get thread'' (\<lambda>w. find_row (\<lambda>t. ct_id t = tid) (cx_threads w))"

definition get_workspace :: "string \<Rightarrow> codex_workspace codex_prog" where
  "get_workspace wid = db_read ''get workspace'' (\<lambda>w. find_row (\<lambda>t. wk_id t = wid) (cx_workspaces w))"

definition get_turn :: "string \<Rightarrow> codex_turn codex_prog" where
  "get_turn tid = db_read ''get turn'' (\<lambda>w. find_row (\<lambda>t. cn_id t = tid) (cx_turns w))"

definition create_thread_row :: "codex_thread \<Rightarrow> codex_thread codex_prog" where
  "create_thread_row t =
     bindE (codex_id ''cxth'') (\<lambda>tid.
     let row = t\<lparr>ct_id := tid, ct_title := (if trim_space (ct_title t) = [] then ''new conversation'' else ct_title t),
               ct_kind := (if trim_space (ct_kind t) = [] then ''code'' else ct_kind t)\<rparr> in
     seqE (db_insert ''insert thread'' (\<lambda>w. tid \<notin> set (map ct_id (cx_threads w))) (\<lambda>w. w\<lparr>cx_threads := cx_threads w @ [row]\<rparr>))
          (get_thread tid))"

definition save_thread_row :: "codex_thread \<Rightarrow> codex_thread codex_prog" where
  "save_thread_row t =
     seqE (db_write ''save thread'' (\<lambda>w. w\<lparr>cx_threads :=
             map (\<lambda>r. if ct_id r = ct_id t then t\<lparr>ct_workspace := ct_workspace r\<rparr> else r) (cx_threads w)\<rparr>))
          (get_thread (ct_id t))"

definition create_turn_row :: "codex_turn \<Rightarrow> codex_turn codex_prog" where
  "create_turn_row t =
     bindE (codex_id ''cxtn'') (\<lambda>tid.
     let row = t\<lparr>cn_id := tid, cn_status := (if cn_status t = [] then ''running'' else cn_status t)\<rparr> in
     seqE (db_insert ''insert turn'' (\<lambda>w. tid \<notin> set (map cn_id (cx_turns w))) (\<lambda>w. w\<lparr>cx_turns := cx_turns w @ [row]\<rparr>))
          (get_turn tid))"

definition turn_live :: "codex_turn \<Rightarrow> bool" where
  "turn_live t \<longleftrightarrow> cn_status t = ''queued'' \<or> cn_status t = ''running'' \<or> cn_status t = ''waiting_approval''"

definition set_turn_status :: "string \<Rightarrow> string \<Rightarrow> unit codex_prog" where
  "set_turn_status tid status =
     db_write ''save turn'' (\<lambda>w. w\<lparr>cx_turns :=
       map (\<lambda>t. if cn_id t = tid \<and> turn_live t then t\<lparr>cn_status := status\<rparr> else t) (cx_turns w)\<rparr>)"

end
