(* ===== verification/Automations.thy ===== *)
theory Automations
  imports CodexTables
begin

text \<open>
  The Codex automations of \<^verbatim>\<open>codexclient/p2.go\<close>: scheduled or manual runs that queue a turn, with retries, time-outs
  and the completion by the turn's end; and the part of \<^verbatim>\<open>service.go\<close> that creates the thread and queues the turn.
  Redaction (\<open>rd\<close>) is a parameter; notifications, audit entries and thread events, whose failures the code
  ignores, are left out, as is the detail in a policy error's text.  A Go panic is the error \<open>CxPanic\<close>, which ignored errors let through.
\<close>

section \<open>Ignored errors\<close>

text \<open>\<^verbatim>\<open>_, _ = m()\<close> and \<^verbatim>\<open>if _, err := m(); err != nil\<close>: the error is a value, a panic is not.\<close>

definition try_err :: "'a codex_prog \<Rightarrow> (codex_error + 'a) codex_prog" where
  "try_err m = (\<lambda>w. case m w of (Inl CxPanic, w') \<Rightarrow> (Inl CxPanic, w') | (r, w') \<Rightarrow> (Inr r, w'))"

definition ignore_err :: "'a codex_prog \<Rightarrow> unit codex_prog" where
  "ignore_err m = bindE (try_err m) (\<lambda>_. ret ())"

definition codex_err_text :: "codex_error \<Rightarrow> string" where
  "codex_err_text e =
     (case e of
        CxNotFound \<Rightarrow> ''not found''
      | CxDb s \<Rightarrow> s
      | CxText s \<Rightarrow> s
      | CxDisabled \<Rightarrow> ''codex module disabled''
      | CxPolicy _ \<Rightarrow> ''requested policy not allowed for workspace trust state''
      | CxPanic \<Rightarrow> ''panic'')"

definition first_non_empty :: "string list \<Rightarrow> string" where
  "first_non_empty vs = (case find (\<lambda>v. trim_space v \<noteq> []) vs of None \<Rightarrow> [] | Some v \<Rightarrow> trim_space v)"

section \<open>Schedules\<close>

text \<open>\<^verbatim>\<open>int(v)\<close> of a \<^verbatim>\<open>float64\<close> on amd64: truncation, and the smallest integer when out of range.\<close>

definition f64_to_int :: "f64 \<Rightarrow> int" where
  "f64_to_int x =
     (case x of
        Fin m \<Rightarrow> (let q = sgn m * (\<bar>m\<bar> div f64_unit) in if min_int64 \<le> q \<and> q \<le> max_int64 then q else min_int64)
      | _ \<Rightarrow> min_int64)"

definition schedule_string :: "schedule \<Rightarrow> string \<Rightarrow> string" where
  "schedule_string sch key = (case map_of sch key of Some (SvText s) \<Rightarrow> trim_space s | _ \<Rightarrow> [])"

definition schedule_int :: "schedule \<Rightarrow> string \<Rightarrow> int \<Rightarrow> int \<Rightarrow> int \<Rightarrow> int" where
  "schedule_int sch key fallback mn mx =
     (let v = (case map_of sch key of
                 Some (SvNum x) \<Rightarrow> f64_to_int x
               | Some (SvText s) \<Rightarrow> (case atoi s of Some n \<Rightarrow> n | None \<Rightarrow> fallback)
               | _ \<Rightarrow> fallback);
          v1 = (if v < mn then mn else v)
      in if 0 < mx \<and> mx < v1 then mx else v1)"

definition next_automation_time :: "gtime \<Rightarrow> schedule \<Rightarrow> string \<Rightarrow> cron_error + string" where
  "next_automation_time now sch from_text =
     (let base = (case parse_rfc3339 from_text of Some t \<Rightarrow> t | None \<Rightarrow> now);
          expr = schedule_string sch ''cron'';
          fallback = format_rfc3339nano (time_add base (schedule_int sch ''intervalMinutes'' 1440 15 43200 * minute))
      in if expr = [] then Inr fallback
         else case next_cron_time expr base of
           Inl e \<Rightarrow> Inl e
         | Inr (Some t) \<Rightarrow> Inr (format_rfc3339nano t)
         | Inr None \<Rightarrow> Inr fallback)"

definition next_run_time :: "schedule \<Rightarrow> string \<Rightarrow> string codex_prog" where
  "next_run_time sch from_text =
     bindE clock_now (\<lambda>now. case next_automation_time now sch from_text of Inl _ \<Rightarrow> throw CxPanic | Inr s \<Rightarrow> ret s)"

section \<open>Creating and changing automations\<close>

record automation_input =
  ai_kind :: string
  ai_thread :: string
  ai_workspace :: string
  ai_title :: string
  ai_prompt :: string
  ai_schedule :: "schedule option"
  ai_enabled :: bool
  ai_sandbox :: string
  ai_approval :: string

record automation_patch =
  ap_title :: "string option"
  ap_prompt :: "string option"
  ap_schedule :: "schedule option"
  ap_enabled :: "bool option"
  ap_thread :: "string option"
  ap_workspace :: "string option"
  ap_sandbox :: "string option"
  ap_approval :: "string option"

definition default_schedule :: schedule where
  "default_schedule = [(''intervalMinutes'', SvNum (f64_of_int 1440))]"

text \<open>The kind, the thread's workspace and the default title.\<close>

definition resolve_target :: "automation \<Rightarrow> automation codex_prog" where
  "resolve_target item =
     bindE (if am_kind item \<noteq> ''project'' then
              bindE (get_thread (am_thread item)) (\<lambda>t. ret (item\<lparr>am_kind := ''thread_wakeup'', am_workspace := ct_workspace t\<rparr>))
            else if am_workspace item = [] then throw (CxText ''workspace id is required'')
            else ret item) (\<lambda>item.
     ret (if am_title item = [] then item\<lparr>am_title := ''Codex automation''\<rparr> else item))"

definition validate_cron :: "schedule \<Rightarrow> unit codex_prog" where
  "validate_cron sch =
     (let expr = schedule_string sch ''cron'' in
      if expr = [] then ret ()
      else case parse_cron expr of
        Inr _ \<Rightarrow> ret ()
      | Inl (CronInvalid e) \<Rightarrow> throw (CxText (''invalid cron expression: '' @ e))
      | Inl _ \<Rightarrow> throw CxPanic)"

definition automation_from_input :: "(string \<Rightarrow> nat \<Rightarrow> string) \<Rightarrow> automation \<Rightarrow> automation_input \<Rightarrow> automation codex_prog" where
  "automation_from_input rd current inp =
     bindE (resolve_target (current\<lparr>am_kind := ai_kind inp, am_thread := trim_space (ai_thread inp),
              am_workspace := trim_space (ai_workspace inp), am_title := trim_space (ai_title inp),
              am_prompt := rd (ai_prompt inp) 1000, am_schedule := (case ai_schedule inp of None \<Rightarrow> default_schedule | Some s \<Rightarrow> s),
              am_enabled := ai_enabled inp, am_sandbox := ''read-only'', am_approval := ''on-request''\<rparr>)) (\<lambda>item.
     seqE (validate_cron (am_schedule item))
       (if am_next_run item = [] \<or> am_schedule current \<noteq> am_schedule item then
          bindE text_now (\<lambda>now. bindE (next_run_time (am_schedule item) now) (\<lambda>next. ret (item\<lparr>am_next_run := next\<rparr>)))
        else ret item))"

definition create_automation :: "(string \<Rightarrow> nat \<Rightarrow> string) \<Rightarrow> automation_input \<Rightarrow> automation codex_prog" where
  "create_automation rd inp = bindE (automation_from_input rd zero_automation inp) create_automation_row"

definition patched_input :: "automation_patch \<Rightarrow> automation \<Rightarrow> automation_input" where
  "patched_input p a =
     (let pick = (\<lambda>new old. case new of None \<Rightarrow> old | Some x \<Rightarrow> x) in
      \<lparr>ai_kind = am_kind a, ai_thread = pick (ap_thread p) (am_thread a), ai_workspace = pick (ap_workspace p) (am_workspace a),
       ai_title = pick (ap_title p) (am_title a), ai_prompt = pick (ap_prompt p) (am_prompt a),
       ai_schedule = Some (case ap_schedule p of None \<Rightarrow> am_schedule a | Some s \<Rightarrow> s),
       ai_enabled = (case ap_enabled p of None \<Rightarrow> am_enabled a | Some b \<Rightarrow> b),
       ai_sandbox = pick (ap_sandbox p) (am_sandbox a), ai_approval = pick (ap_approval p) (am_approval a)\<rparr>)"

definition update_automation :: "(string \<Rightarrow> nat \<Rightarrow> string) \<Rightarrow> string \<Rightarrow> automation_patch \<Rightarrow> automation codex_prog" where
  "update_automation rd aid p =
     bindE (get_automation aid) (\<lambda>current.
     bindE (automation_from_input rd current (patched_input p current)) (\<lambda>next.
       update_automation_row (next\<lparr>am_id := aid\<rparr>)))"

definition delete_automation :: "string \<Rightarrow> unit codex_prog" where
  "delete_automation aid = bindE (get_automation aid) (\<lambda>_. delete_automation_row aid)"

section \<open>Threads and turns of a run\<close>

text \<open>\<^verbatim>\<open>CreateThreadWithInput\<close> in the workspace mode; the failures of the model's choice are failures of the insertion.\<close>

definition create_thread :: "string \<Rightarrow> string \<Rightarrow> string \<Rightarrow> string \<Rightarrow> codex_thread codex_prog" where
  "create_thread wid title sandbox approval =
     bindE (get_workspace wid) (\<lambda>ws.
     let sb = (if trim_space sandbox = [] then wk_sandbox ws else sandbox);
         ap = (if trim_space approval = [] then wk_approval ws else approval)
     in case resolve_run_policy ws sb ap of
       Inl e \<Rightarrow> throw (CxPolicy e)
     | Inr p \<Rightarrow> create_thread_row \<lparr>ct_id = [], ct_workspace = wid, ct_title = title, ct_kind = [], ct_background = False,
           ct_source = [], ct_sandbox = rp_sandbox p, ct_approval = rp_approval p\<rparr>)"

definition create_background_thread ::
  "(string \<Rightarrow> nat \<Rightarrow> string) \<Rightarrow> string \<Rightarrow> string \<Rightarrow> string \<Rightarrow> string \<Rightarrow> string \<Rightarrow> codex_thread codex_prog" where
  "create_background_thread rd wid title sandbox approval source =
     bindE (create_thread wid title sandbox approval) (\<lambda>t. save_thread_row (t\<lparr>ct_background := True, ct_source := rd source 120\<rparr>))"

text \<open>\<^verbatim>\<open>startTurn\<close> with a forced queue, up to the turn's row.\<close>

definition queue_turn :: "(string \<Rightarrow> nat \<Rightarrow> string) \<Rightarrow> string \<Rightarrow> string \<Rightarrow> string \<Rightarrow> string \<Rightarrow> codex_turn codex_prog" where
  "queue_turn rd tid prompt sandbox approval =
     bindE (get_state cx_on) (\<lambda>on. if \<not> on then throw CxDisabled else
     bindE (get_thread tid) (\<lambda>t.
     bindE (get_workspace (ct_workspace t)) (\<lambda>ws.
     let requested = (if ct_kind t = ''chat'' then ''read-only'' else first_non_empty [sandbox, ct_sandbox t]) in
     case resolve_run_policy ws requested (first_non_empty [approval, ct_approval t]) of
       Inl e \<Rightarrow> throw (CxPolicy e)
     | Inr p \<Rightarrow> create_turn_row \<lparr>cn_id = [], cn_thread = tid, cn_status = ''queued'', cn_prompt = rd prompt 280, cn_policy = p\<rparr>)))"

text \<open>\<^verbatim>\<open>interruptTurn\<close> without completing the automation's run: a live turn is cancelled.\<close>

definition interrupt_turn :: "string \<Rightarrow> unit codex_prog" where
  "interrupt_turn tid =
     bindE (get_turn tid) (\<lambda>t.
     bindE (get_thread (cn_thread t)) (\<lambda>_.
       if turn_live t then ignore_err (set_turn_status tid ''cancelled'') else ret ()))"

section \<open>Runs\<close>

definition retried :: "automation \<Rightarrow> string \<Rightarrow> automation" where
  "retried a until = a\<lparr>am_retry := am_retry a + 1, am_backoff_until := until, am_next_run := until\<rparr>"

definition rescheduled :: "automation \<Rightarrow> string \<Rightarrow> automation" where
  "rescheduled a next = a\<lparr>am_retry := 0, am_backoff_until := [], am_next_run := next\<rparr>"

definition after_run :: "automation \<Rightarrow> bool \<Rightarrow> string \<Rightarrow> automation codex_prog" where
  "after_run a success now_text =
     (if \<not> success \<and> am_retry a + 1 \<le> schedule_int (am_schedule a) ''retryLimit'' 3 0 10 then
        bindE clock_now (\<lambda>t.
          ret (retried a (format_rfc3339nano (time_add t (schedule_int (am_schedule a) ''failureBackoffMinutes'' 30 5 1440 * minute)))))
      else bindE (next_run_time (am_schedule a) now_text) (\<lambda>next. ret (rescheduled a next)))"

definition finish_auto_run :: "automation \<Rightarrow> auto_run \<Rightarrow> bool \<Rightarrow> auto_run codex_prog" where
  "finish_auto_run a r success =
     bindE text_now (\<lambda>now.
     bindE (after_run a success now) (\<lambda>a1.
     let a2 = a1\<lparr>am_last_run := first_non_empty [am_last_run a1, now]\<rparr>;
         r1 = r\<lparr>ar_completed := first_non_empty [ar_completed r, now]\<rparr>
     in seqE (ignore_err (update_automation_row a2)) (update_run r1)))"

definition fail_run :: "automation \<Rightarrow> auto_run \<Rightarrow> string \<Rightarrow> auto_run codex_prog" where
  "fail_run a r msg =
     bindE text_now (\<lambda>now. finish_auto_run a (r\<lparr>ar_status := ''failed'', ar_error := msg, ar_completed := now\<rparr>) False)"

definition run_prompt :: "automation \<Rightarrow> string" where
  "run_prompt a =
     (if trim_space (am_prompt a) = []
      then ''Run a read-only diagnostic wakeup for this thread. Summarize findings and do not modify files.'' else am_prompt a)"

text \<open>The thread of a run; for a project automation it is a new one.\<close>

definition run_thread :: "(string \<Rightarrow> nat \<Rightarrow> string) \<Rightarrow> automation \<Rightarrow> string codex_prog" where
  "run_thread rd a =
     (if am_kind a = ''project'' then
        bindE (create_background_thread rd (am_workspace a) (am_title a) ''read-only'' ''on-request'' (''automation:'' @ am_id a))
          (\<lambda>t. ret (ct_id t))
      else ret (am_thread a))"

definition turn_queued :: "automation \<Rightarrow> auto_run \<Rightarrow> string \<Rightarrow> string \<Rightarrow> auto_run codex_prog" where
  "turn_queued a r thread turn_id =
     bindE (update_run (r\<lparr>ar_thread := thread, ar_turn := turn_id, ar_status := ''running'',
              ar_finding := ''Waiting for read-only Codex turn '' @ turn_id\<rparr>)) (\<lambda>r1.
     bindE text_now (\<lambda>now.
     bindE (next_run_time (am_schedule a) now) (\<lambda>next.
     seqE (ignore_err (update_automation_row (a\<lparr>am_last_run := now, am_next_run := next\<rparr>))) (ret r1))))"

definition execute_run :: "(string \<Rightarrow> nat \<Rightarrow> string) \<Rightarrow> automation \<Rightarrow> auto_run \<Rightarrow> auto_run codex_prog" where
  "execute_run rd a r =
     (if ar_turn r \<noteq> [] \<and> run_active r then ret r
      else bindE (get_state cx_on) (\<lambda>on.
        if \<not> on then fail_run a r ''codex module disabled''
        else bindE text_now (\<lambda>now.
          bindE (try_err (update_run (r\<lparr>ar_status := ''running'', ar_started := now, ar_heartbeat := now\<rparr>))) (\<lambda>u.
          let r1 = (case u of Inl _ \<Rightarrow> zero_run | Inr x \<Rightarrow> x) in
          bindE (try_err (run_thread rd a)) (\<lambda>th.
          case th of
            Inl e \<Rightarrow> fail_run a r1 (rd (codex_err_text e) 200)
          | Inr thread \<Rightarrow>
              if thread = [] then fail_run a r1 ''automation thread is required''
              else bindE (try_err (queue_turn rd thread (run_prompt a) ''read-only'' ''on-request'')) (\<lambda>q.
                case q of
                  Inl e \<Rightarrow> fail_run a r1 (rd (codex_err_text e) 200)
                | Inr turn \<Rightarrow> turn_queued a r1 thread (cn_id turn)))))))"

definition new_run :: "string \<Rightarrow> string \<Rightarrow> auto_run" where
  "new_run aid req = zero_run\<lparr>ar_automation := aid, ar_request := req, ar_status := ''queued'', ar_triage := ''open''\<rparr>"

definition run_automation_now :: "(string \<Rightarrow> nat \<Rightarrow> string) \<Rightarrow> string \<Rightarrow> string \<Rightarrow> auto_run codex_prog" where
  "run_automation_now rd aid request =
     bindE (get_automation aid) (\<lambda>a.
     let req = trim_space request in
     if req = [] then throw (CxText ''client request id is required'')
     else bindE (try_err (get_run_by_request (am_id a) req)) (\<lambda>found.
       case found of
         Inr r \<Rightarrow> ret r
       | Inl _ \<Rightarrow> bindE (create_run (new_run (am_id a) req)) (execute_run rd a)))"

section \<open>The minute tick\<close>

definition expire_run :: "gtime \<Rightarrow> auto_run \<Rightarrow> unit codex_prog" where
  "expire_run now r =
     bindE (try_err (get_automation (ar_automation r))) (\<lambda>found.
     case found of
       Inl _ \<Rightarrow> ret ()
     | Inr a \<Rightarrow>
         (case parse_rfc3339 (first_non_empty [ar_started r, ar_created_at r]) of
            None \<Rightarrow> ret ()
          | Some started \<Rightarrow>
              if time_sub now started < schedule_int (am_schedule a) ''maxRuntimeMinutes'' 60 5 1440 * minute
              then ignore_err (update_run (r\<lparr>ar_heartbeat := format_rfc3339nano now\<rparr>))
              else seqE (if ar_turn r \<noteq> [] then ignore_err (interrupt_turn (ar_turn r)) else ret ())
                (ignore_err (finish_auto_run a
                   (r\<lparr>ar_status := ''failed'', ar_error := ''automation run timed out'', ar_completed := format_rfc3339nano now\<rparr>) False))))"

fun each_row :: "('a \<Rightarrow> unit codex_prog) \<Rightarrow> 'a list \<Rightarrow> unit codex_prog" where
  "each_row f [] = ret ()"
| "each_row f (x # xs) = seqE (f x) (each_row f xs)"

definition expire_runs :: "unit codex_prog" where
  "expire_runs =
     bindE (try_err list_active_runs) (\<lambda>found.
     case found of
       Inl _ \<Rightarrow> ret ()
     | Inr rs \<Rightarrow> bindE clock_now (\<lambda>now. each_row (expire_run now) rs))"

definition start_due :: "(string \<Rightarrow> nat \<Rightarrow> string) \<Rightarrow> automation \<Rightarrow> unit codex_prog" where
  "start_due rd a =
     bindE (try_err (create_run (new_run (am_id a) (''schedule-'' @ am_next_run a)))) (\<lambda>made.
     case made of
       Inl _ \<Rightarrow> ret ()
     | Inr r \<Rightarrow> if ar_turn r \<noteq> [] \<and> run_active r then ret () else ignore_err (execute_run rd a r))"

definition process_due :: "(string \<Rightarrow> nat \<Rightarrow> string) \<Rightarrow> unit codex_prog" where
  "process_due rd =
     seqE expire_runs
       (bindE text_now (\<lambda>now.
        bindE (try_err (list_due_automations now 10)) (\<lambda>found.
        case found of Inl _ \<Rightarrow> ret () | Inr due \<Rightarrow> each_row (start_due rd) due)))"

section \<open>The end of a turn\<close>

text \<open>\<open>finding\<close> is what \<^verbatim>\<open>automationFindingSummary\<close> reads from the turn's events.\<close>

definition complete_run_for_turn :: "string \<Rightarrow> bool \<Rightarrow> string \<Rightarrow> string \<Rightarrow> unit codex_prog" where
  "complete_run_for_turn turn_id success summary finding =
     bindE (try_err (get_run_by_turn turn_id)) (\<lambda>found.
     case found of
       Inl _ \<Rightarrow> ret ()
     | Inr r \<Rightarrow>
         bindE (try_err (get_automation (ar_automation r))) (\<lambda>owner.
         case owner of
           Inl _ \<Rightarrow> ret ()
         | Inr a \<Rightarrow>
             bindE text_now (\<lambda>now.
             if success then
               ignore_err (finish_auto_run a (r\<lparr>ar_completed := now, ar_status := ''completed'',
                 ar_finding := first_non_empty [finding, summary, ''Codex turn completed'']\<rparr>) True)
             else
               ignore_err (finish_auto_run a (r\<lparr>ar_completed := now, ar_status := ''failed'',
                 ar_error := first_non_empty [summary, ''Codex turn failed'']\<rparr>) False))))"

end
