(* ===== verification/AutomationRuns.thy ===== *)
theory AutomationRuns
  imports Automations
begin

text \<open>
  The properties of the Codex automations.  The locale \<open>codex_invariant\<close> states what an invariant of the tables
  has to survive (one law for each kind of statement) and proves that every operation then keeps it; it is
  interpreted on the read-only invariant and on the persistence of a run.
\<close>

section \<open>Operations\<close>

text \<open>The requests, the minute tick, the end of a turn, and the runner's changes of a turn's status.\<close>

datatype codex_op =
    OpCreate automation_input
  | OpUpdate string automation_patch
  | OpDelete string
  | OpRunNow string string
  | OpTick
  | OpTurnEnd string bool string string
  | OpArchive string
  | OpTurnStatus string string
  | OpSwitch bool

definition codex_step :: "(string \<Rightarrow> nat \<Rightarrow> string) \<Rightarrow> codex_op \<Rightarrow> codex \<Rightarrow> codex" where
  "codex_step rd op w =
     (case op of
        OpCreate inp \<Rightarrow> snd (create_automation rd inp w)
      | OpUpdate aid p \<Rightarrow> snd (update_automation rd aid p w)
      | OpDelete aid \<Rightarrow> snd (delete_automation aid w)
      | OpRunNow aid req \<Rightarrow> snd (run_automation_now rd aid req w)
      | OpTick \<Rightarrow> snd (process_due rd w)
      | OpTurnEnd tid ok summary finding \<Rightarrow> snd (complete_run_for_turn tid ok summary finding w)
      | OpArchive rid \<Rightarrow> snd (archive_run rid w)
      | OpTurnStatus tid status \<Rightarrow> snd (set_turn_status tid status w)
      | OpSwitch on \<Rightarrow> w\<lparr>cx_on := on\<rparr>)"

section \<open>Invariants of the tables\<close>

type_synonym table_pred = "automation list \<Rightarrow> auto_run list \<Rightarrow> codex_turn list \<Rightarrow> bool"

definition holds_in :: "table_pred \<Rightarrow> codex \<Rightarrow> bool" where
  "holds_in J w \<longleftrightarrow> J (cx_automations w) (cx_runs w) (cx_turns w)"

definition upholds :: "table_pred \<Rightarrow> codex \<Rightarrow> codex \<Rightarrow> bool" where
  "upholds J w w' \<longleftrightarrow> (holds_in J w \<longrightarrow> holds_in J w')"

interpretation up: frame_relation "upholds J" for J
  by unfold_locales (auto simp: upholds_def)

definition read_only_automation :: "automation \<Rightarrow> bool" where
  "read_only_automation a \<longleftrightarrow> am_sandbox a = ''read-only'' \<and> am_approval a = ''on-request''"

definition read_only_turn :: "codex_turn \<Rightarrow> bool" where
  "read_only_turn t \<longleftrightarrow> rp_sandbox (cn_policy t) = ''read-only'' \<and> rp_approval (cn_policy t) = ''on-request''"

definition run_key :: "auto_run \<Rightarrow> string \<times> string" where
  "run_key r = (ar_automation r, ar_request r)"

lemma new_run_fields [simp]:
  "ar_id (new_run aid req) = []" "ar_automation (new_run aid req) = aid" "ar_request (new_run aid req) = req"
  by (simp_all add: new_run_def zero_run_def)

locale codex_invariant =
  fixes J :: table_pred and deletable :: "string \<Rightarrow> bool"
  assumes insert_automation: "J as rs ts \<Longrightarrow> read_only_automation a \<Longrightarrow> J (as @ [a]) rs ts"
    and update_automations: "J as rs ts \<Longrightarrow> (\<And>a. a \<in> set as \<Longrightarrow> am_id (f a) = am_id a \<and> (f a = a \<or> read_only_automation (f a))) \<Longrightarrow>
      J (map f as) rs ts"
    and insert_run: "J as rs ts \<Longrightarrow> run_key r \<notin> run_key ` set rs \<Longrightarrow> ar_id r \<noteq> [] \<Longrightarrow> J as (rs @ [r]) ts"
    and update_runs: "J as rs ts \<Longrightarrow> (\<And>r. run_key (g r) = run_key r \<and> ar_id (g r) = ar_id r) \<Longrightarrow> J as (map g rs) ts"
    and insert_turn: "J as rs ts \<Longrightarrow> read_only_turn t \<Longrightarrow> J as rs (ts @ [t])"
    and update_turns: "J as rs ts \<Longrightarrow> (\<And>t. cn_policy (h t) = cn_policy t) \<Longrightarrow> J as rs (map h ts)"
    and delete_runs: "J as rs ts \<Longrightarrow> deletable aid \<Longrightarrow> J as (filter (\<lambda>r. ar_automation r \<noteq> aid) rs) ts"
    and delete_automation: "J as rs ts \<Longrightarrow> deletable aid \<Longrightarrow> J (filter (\<lambda>a. am_id a \<noteq> aid) as) rs ts"
begin

lemma keeps_db:
  assumes "\<And>w. holds_in J w \<Longrightarrow> holds_in J (snd (op w))" shows "keeps (upholds J) (codex_db what op)"
  using assms by (auto simp: keeps_def upholds_def codex_db_def Let_def holds_in_def split: prod.splits)

lemma keeps_db_read: "keeps (upholds J) (db_read what q)"
  unfolding db_read_def by (rule keeps_db) simp

lemma keeps_db_write: "(\<And>w. holds_in J w \<Longrightarrow> holds_in J (f w)) \<Longrightarrow> keeps (upholds J) (db_write what f)"
  unfolding db_write_def by (rule keeps_db) simp

lemma keeps_db_insert: "(\<And>w. ok w \<Longrightarrow> holds_in J w \<Longrightarrow> holds_in J (f w)) \<Longrightarrow> keeps (upholds J) (db_insert what ok f)"
  unfolding db_insert_def by (rule keeps_db) (simp split: if_split)

lemma keeps_clock: "keeps (upholds J) clock_now"
  by (simp add: clock_now_def up.keeps_get)

lemma keeps_text: "keeps (upholds J) text_now"
  unfolding text_now_def by (intro up.keeps_rules keeps_clock)

lemma keeps_new_id: "keeps (upholds J) (codex_id pre)"
  by (simp add: keeps_def upholds_def codex_id_def holds_in_def)

lemma keeps_try: "keeps (upholds J) m \<Longrightarrow> keeps (upholds J) (try_err m)"
  unfolding keeps_def try_err_def
  by (auto split: prod.splits sum.splits codex_error.splits) (metis snd_conv)+

lemma keeps_ignore: "keeps (upholds J) m \<Longrightarrow> keeps (upholds J) (ignore_err m)"
  unfolding ignore_err_def by (intro up.keeps_rules keeps_try)

lemma keeps_next_run_time: "keeps (upholds J) (next_run_time sch s)"
  unfolding next_run_time_def by (auto intro!: up.keeps_rules keeps_clock split: sum.split)

lemma keeps_each: "(\<And>x. keeps (upholds J) (f x)) \<Longrightarrow> keeps (upholds J) (each_row f xs)"
  by (induction xs) (auto intro: up.keeps_rules)

lemmas base_rules = up.keeps_rules keeps_db_read keeps_clock keeps_text keeps_new_id keeps_try keeps_ignore keeps_next_run_time

lemma normalize_read_only: "read_only_automation (normalize_automation a)"
  by (simp add: normalize_automation_def read_only_automation_def)

lemma keeps_automation_rows:
  "keeps (upholds J) (get_automation aid)" "keeps (upholds J) (create_automation_row a)" "keeps (upholds J) (update_automation_row a)"
proof -
  show g: "keeps (upholds J) (get_automation aid)" for aid by (simp add: get_automation_def keeps_db_read)
  show "keeps (upholds J) (create_automation_row a)"
    unfolding create_automation_row_def Let_def
    by (auto intro!: base_rules g keeps_db_insert insert_automation simp: holds_in_def normalize_automation_def read_only_automation_def)
  show "keeps (upholds J) (update_automation_row a)"
    unfolding update_automation_row_def Let_def
    by (auto intro!: base_rules g keeps_db_write update_automations simp: holds_in_def normalize_automation_def read_only_automation_def)
qed

lemma keeps_run_reads:
  "keeps (upholds J) (get_run rid)" "keeps (upholds J) (get_run_by_request aid req)" "keeps (upholds J) (get_run_by_turn tid)"
  "keeps (upholds J) list_active_runs" "keeps (upholds J) (list_due_automations now n)"
  by (simp_all add: get_run_def get_run_by_request_def get_run_by_turn_def list_active_runs_def list_due_automations_def keeps_db_read)

lemma keeps_update_run: "keeps (upholds J) (update_run r)"
  unfolding update_run_def Let_def
  by (auto intro!: base_rules keeps_run_reads keeps_db_write update_runs simp: holds_in_def run_key_def run_columns_def)

lemma keeps_archive_run: "keeps (upholds J) (archive_run rid)"
  unfolding archive_run_def
  by (auto intro!: base_rules keeps_run_reads keeps_db_write update_runs simp: holds_in_def run_key_def)

lemma keeps_fresh_id:
  "c \<noteq> [] \<Longrightarrow> (\<And>s. s \<noteq> [] \<Longrightarrow> keeps (upholds J) (f s)) \<Longrightarrow> keeps (upholds J) (bindE (codex_id c) f)"
  unfolding keeps_def upholds_def bindE_def codex_id_def by (auto simp: holds_in_def split: option.splits)

lemma keeps_insert_run:
  assumes "ar_id row \<noteq> []" "run_key row = (aid, req)"
  shows "keeps (upholds J) (db_insert what
      (\<lambda>w. list_ex (\<lambda>q. ar_automation q = aid \<and> ar_request q = req) (cx_runs w) \<or> rid \<notin> ar_id ` set (cx_runs w))
      (\<lambda>w. if list_ex (\<lambda>q. ar_automation q = aid \<and> ar_request q = req) (cx_runs w) then w
           else w\<lparr>cx_runs := cx_runs w @ [row]\<rparr>))"
  using assms by (intro keeps_db_insert) (auto simp: holds_in_def list_ex_iff run_key_def image_iff intro!: insert_run)

lemma keeps_create_run: "keeps (upholds J) (create_run (new_run aid req))"
  unfolding create_run_def Let_def new_run_fields trim_space_Nil if_True simp_thms
  by (rule keeps_fresh_id, simp) (auto intro!: base_rules keeps_run_reads keeps_insert_run simp: run_key_def)

lemma keeps_threads:
  "keeps (upholds J) (get_thread tid)" "keeps (upholds J) (get_workspace wid)" "keeps (upholds J) (get_turn xid)"
  "keeps (upholds J) (create_thread_row t)" "keeps (upholds J) (save_thread_row t)" "keeps (upholds J) (set_turn_status xid st)"
proof -
  show g: "keeps (upholds J) (get_thread tid)" "keeps (upholds J) (get_workspace wid)" "keeps (upholds J) (get_turn xid)" for tid
    by (simp_all add: get_thread_def get_workspace_def get_turn_def keeps_db_read)
  show "keeps (upholds J) (create_thread_row t)"
    unfolding create_thread_row_def Let_def by (auto intro!: base_rules g keeps_db_insert simp: holds_in_def)
  show "keeps (upholds J) (save_thread_row t)"
    unfolding save_thread_row_def by (auto intro!: base_rules g keeps_db_write simp: holds_in_def)
  show "keeps (upholds J) (set_turn_status xid st)"
    unfolding set_turn_status_def by (auto intro!: keeps_db_write update_turns simp: holds_in_def)
qed

lemma keeps_create_turn: "read_only_turn t \<Longrightarrow> keeps (upholds J) (create_turn_row t)"
  unfolding create_turn_row_def Let_def
  by (auto intro!: base_rules keeps_threads keeps_db_insert insert_turn simp: holds_in_def read_only_turn_def)

lemma keeps_background_thread: "keeps (upholds J) (create_background_thread rd wid title sb ap src)"
  unfolding create_background_thread_def create_thread_def Let_def
  by (auto intro!: base_rules keeps_threads split: sum.split)

lemma read_only_requested:
  assumes "trim_space (if chat then ''read-only'' else first_non_empty (''read-only'' # xs)) = ''read-only'' \<Longrightarrow>
      trim_space (first_non_empty (''on-request'' # ys)) = ''on-request'' \<Longrightarrow> P"
  shows P
proof (rule assms)
  have t: "trim_space ''read-only'' = ''read-only''" "trim_space ''on-request'' = ''on-request''"
    by (simp_all add: trim_space_graphic graphic_def)
  show "trim_space (if chat then ''read-only'' else first_non_empty (''read-only'' # xs)) = ''read-only''"
    "trim_space (first_non_empty (''on-request'' # ys)) = ''on-request''"
    by (simp_all add: first_non_empty_def t)
qed

lemma keeps_queue_turn: "keeps (upholds J) (queue_turn rd tid prompt ''read-only'' ''on-request'')"
proof -
  have "keeps (upholds J) (case resolve_run_policy ws (if chat then ''read-only'' else first_non_empty [''read-only'', s])
      (first_non_empty [''on-request'', a]) of Inl e \<Rightarrow> throw (CxPolicy e)
    | Inr p \<Rightarrow> create_turn_row \<lparr>cn_id = [], cn_thread = tid, cn_status = ''queued'', cn_prompt = rd prompt 280, cn_policy = p\<rparr>)"
    for ws chat s a
    by (rule read_only_requested [of chat "[s]" "[a]"])
       (auto simp: resolve_read_only read_only_turn_def intro!: keeps_create_turn)
  then show ?thesis
    unfolding queue_turn_def Let_def by (auto intro!: base_rules keeps_threads)
qed

lemma keeps_interrupt: "keeps (upholds J) (interrupt_turn tid)"
  unfolding interrupt_turn_def by (auto intro!: base_rules keeps_threads)

lemma keeps_from_input: "keeps (upholds J) (automation_from_input rd current inp)"
  unfolding automation_from_input_def resolve_target_def validate_cron_def Let_def
  by (auto intro!: base_rules keeps_threads split: sum.split cron_error.split)

lemma keeps_finish_run: "keeps (upholds J) (finish_auto_run a r ok)"
  unfolding finish_auto_run_def after_run_def Let_def
  by (auto intro!: base_rules keeps_automation_rows keeps_update_run)

lemma keeps_fail_run: "keeps (upholds J) (fail_run a r msg)"
  unfolding fail_run_def by (intro base_rules keeps_finish_run)

lemma keeps_turn_queued: "keeps (upholds J) (turn_queued a r th tid)"
  unfolding turn_queued_def by (intro base_rules keeps_automation_rows keeps_update_run)

lemma keeps_run_thread: "keeps (upholds J) (run_thread rd a)"
  unfolding run_thread_def by (auto intro!: base_rules keeps_background_thread)

lemma keeps_execute_run: "keeps (upholds J) (execute_run rd a r)"
  unfolding execute_run_def Let_def
  by (auto intro!: base_rules keeps_fail_run keeps_update_run keeps_run_thread keeps_queue_turn keeps_turn_queued split: sum.split)

lemma keeps_run_now: "keeps (upholds J) (run_automation_now rd aid req)"
  unfolding run_automation_now_def Let_def
  by (auto intro!: base_rules keeps_automation_rows keeps_run_reads keeps_create_run keeps_execute_run split: sum.split)

lemma keeps_expire_run: "keeps (upholds J) (expire_run now r)"
  unfolding expire_run_def
  by (auto intro!: base_rules keeps_automation_rows keeps_update_run keeps_interrupt keeps_finish_run split: sum.split option.split)

lemma keeps_start_due: "keeps (upholds J) (start_due rd a)"
  unfolding start_due_def by (auto intro!: base_rules keeps_create_run keeps_execute_run split: sum.split)

lemma keeps_process_due: "keeps (upholds J) (process_due rd)"
  unfolding process_due_def expire_runs_def
  by (auto intro!: base_rules keeps_run_reads keeps_each keeps_expire_run keeps_start_due split: sum.split)

lemma keeps_complete: "keeps (upholds J) (complete_run_for_turn tid ok summary finding)"
  unfolding complete_run_for_turn_def
  by (auto intro!: base_rules keeps_run_reads keeps_automation_rows keeps_finish_run split: sum.split)

lemma keeps_change: "keeps (upholds J) (create_automation rd inp)" "keeps (upholds J) (update_automation rd aid p)"
  unfolding create_automation_def update_automation_def
  by (intro base_rules keeps_from_input keeps_automation_rows)+

lemma keeps_delete: "deletable aid \<Longrightarrow> keeps (upholds J) (Automations.delete_automation aid)"
  unfolding delete_automation_def delete_automation_row_def
  by (auto intro!: base_rules keeps_automation_rows keeps_db_write keeps_db delete_runs delete_automation simp: holds_in_def)

definition allowed :: "codex_op \<Rightarrow> bool" where
  "allowed op \<longleftrightarrow> (case op of OpDelete aid \<Rightarrow> deletable aid | _ \<Rightarrow> True)"

lemma step_upholds: "allowed op \<Longrightarrow> upholds J w (codex_step rd op w)"
  using keeps_change keeps_delete keeps_run_now keeps_process_due keeps_complete keeps_archive_run keeps_threads(6)
  by (cases op) (auto simp: codex_step_def allowed_def keeps_def, simp add: upholds_def holds_in_def)

lemma run_upholds: "list_all allowed ops \<Longrightarrow> holds_in J w \<Longrightarrow> holds_in J (fold (codex_step rd) ops w)"
  using step_upholds by (induction ops arbitrary: w) (auto simp: upholds_def)

end


section \<open>Read-only automations\<close>

definition read_only_tables :: table_pred where
  "read_only_tables as rs ts \<longleftrightarrow> list_all read_only_automation as \<and> list_all read_only_turn ts"

interpretation safe: codex_invariant read_only_tables "\<lambda>_. True"
proof unfold_locales
  show "read_only_tables (map f as) rs ts"
    if "read_only_tables as rs ts" "\<And>a. a \<in> set as \<Longrightarrow> am_id (f a) = am_id a \<and> (f a = a \<or> read_only_automation (f a))" for as rs ts f
    using that by (simp add: read_only_tables_def list_all_iff) metis
qed (auto simp: read_only_tables_def list_all_iff read_only_turn_def)

text \<open>
  C34: An automation never writes.  Whatever automations are created, changed, run by hand, started by the
  tick, timed out or completed, with whatever failures, in whatever workspaces, every automation is stored
  with the read-only sandbox and approval on request, and every turn one of them queues has that policy.
\<close>

theorem automation_turns_read_only:
  assumes "list_all read_only_automation (cx_automations w)" "list_all read_only_turn (cx_turns w)"
  shows "list_all read_only_automation (cx_automations (fold (codex_step rd) ops w)) \<and>
    list_all read_only_turn (cx_turns (fold (codex_step rd) ops w))"
proof -
  have "list_all safe.allowed ops" by (auto simp: list_all_iff safe.allowed_def split: codex_op.split)
  moreover have "holds_in read_only_tables w" using assms by (simp add: holds_in_def read_only_tables_def)
  ultimately show ?thesis using safe.run_upholds by (simp add: holds_in_def read_only_tables_def)
qed

section \<open>Runs by request\<close>

definition runs_distinct :: table_pred where
  "runs_distinct as rs ts \<longleftrightarrow> distinct (map run_key rs) \<and> [] \<notin> ar_id ` set rs"

definition run_kept :: "string \<Rightarrow> string \<Rightarrow> string \<Rightarrow> table_pred" where
  "run_kept aid req rid as rs ts \<longleftrightarrow> runs_distinct as rs ts \<and> aid \<in> am_id ` set as \<and> (\<exists>r \<in> set rs. ar_id r = rid \<and> run_key r = (aid, req))"

lemma map_run_key:
  assumes "\<And>r. run_key (g r) = run_key r \<and> ar_id (g r) = ar_id r"
  shows "map run_key (map g rs) = map run_key rs" "ar_id ` set (map g rs) = ar_id ` set rs"
  using assms by (auto simp: image_image)

interpretation runs: codex_invariant runs_distinct "\<lambda>_. True"
proof unfold_locales
  show "runs_distinct as (filter (\<lambda>r. ar_automation r \<noteq> aid) rs) ts" if "runs_distinct as rs ts" for as rs ts aid
    using that by (auto simp: runs_distinct_def distinct_map inj_on_def)
  show "runs_distinct as (map g rs) ts" if "runs_distinct as rs ts" "\<And>r. run_key (g r) = run_key r \<and> ar_id (g r) = ar_id r" for as rs ts g
    using that(1) map_run_key [of g, OF that(2)] unfolding runs_distinct_def by presburger
qed (auto simp: runs_distinct_def)

interpretation kept: codex_invariant "run_kept aid req rid" "\<lambda>a. a \<noteq> aid" for aid req rid
proof unfold_locales
  show "run_kept aid req rid (map f as) rs ts"
    if J: "run_kept aid req rid as rs ts" and f: "\<And>a. a \<in> set as \<Longrightarrow> am_id (f a) = am_id a \<and> (f a = a \<or> read_only_automation (f a))" for as rs ts f
  proof -
    have "am_id ` set (map f as) = am_id ` set as" using f by (force simp: image_image)
    then show ?thesis using J unfolding run_kept_def runs_distinct_def by simp
  qed
  show "run_kept aid req rid as (map g rs) ts"
    if J: "run_kept aid req rid as rs ts" and g: "\<And>r. run_key (g r) = run_key r \<and> ar_id (g r) = ar_id r" for as rs ts g
    using J runs.update_runs [of as rs ts g, OF _ g] g by (auto simp: run_kept_def)
  show "run_kept aid req rid as (filter (\<lambda>r. ar_automation r \<noteq> a) rs) ts" if "run_kept aid req rid as rs ts" "a \<noteq> aid" for as rs ts a
    using that runs.delete_runs [of as rs ts a] by (auto simp: run_kept_def run_key_def)
qed (auto simp: run_kept_def runs_distinct_def)

lemma find_row_Inr: "find_row p rows = Inr r \<Longrightarrow> r \<in> set rows \<and> p r"
  by (auto simp: find_row_def find_Some_iff split: option.splits)

lemma db_read_Inr: "db_read what q w = (Inr x, w') \<Longrightarrow> q w = Inr x \<and> w' = w\<lparr>cx_calls := Suc (cx_calls w)\<rparr>"
 if "\<And>w n. q (w\<lparr>cx_calls := n\<rparr>) = q w" for q
  using that by (auto simp: db_read_def codex_db_def Let_def split: if_splits)

lemma get_run_Inr: "get_run rid w = (Inr r, w') \<Longrightarrow> r \<in> set (cx_runs w) \<and> ar_id r = rid \<and> cx_runs w' = cx_runs w"
  unfolding get_run_def by (auto dest!: db_read_Inr [rotated] find_row_Inr)

lemma update_run_Inr: "update_run r w = (Inr r', w') \<Longrightarrow> ar_id r' = ar_id r \<and> ar_id r \<in> ar_id ` set (cx_runs w)"
  unfolding update_run_def Let_def seqE_def
  by (elim bind_InrE) (auto dest!: get_run_Inr simp: merge_run_def intro: rev_image_eqI)

abbreviation ids_set :: "codex \<Rightarrow> bool" where
  "ids_set w \<equiv> holds_in runs_distinct w"

lemma triple_pure: "(C \<Longrightarrow> triple P m Q E) \<Longrightarrow> triple (\<lambda>w. P w \<and> C) m Q E"
  by (auto simp: triple_def)

lemma keeps_then:
  assumes "keeps (upholds J) m" "\<And>x. triple (holds_in J) (f x) Q (\<lambda>_ _. True)"
  shows "triple (holds_in J) (bindE m f) Q (\<lambda>_ _. True)"
  using assms by (fastforce simp: keeps_def upholds_def triple_def bindE_def split: prod.splits sum.splits)

lemma keeps_then_seq:
  "keeps (upholds J) m \<Longrightarrow> triple (holds_in J) n Q (\<lambda>_ _. True) \<Longrightarrow> triple (holds_in J) (seqE m n) Q (\<lambda>_ _. True)"
  unfolding seqE_def by (rule keeps_then)

definition same_run :: "auto_run \<Rightarrow> auto_run \<Rightarrow> codex \<Rightarrow> bool" where
  "same_run r r' w \<longleftrightarrow> ar_id r' = ar_id r \<and> ar_id r \<noteq> []"

lemma update_run_id: "ar_id q = ar_id r \<Longrightarrow> triple ids_set (update_run q) (same_run r) (\<lambda>_ _. True)"
  by (rule tripleI) (fastforce simp: same_run_def holds_in_def runs_distinct_def dest!: update_run_Inr intro: rev_image_eqI)+

lemma finish_run_id: "ar_id q = ar_id r \<Longrightarrow> triple ids_set (finish_auto_run a q ok) (same_run r) (\<lambda>_ _. True)"
  unfolding finish_auto_run_def after_run_def Let_def
  by (intro keeps_then keeps_then_seq runs.base_rules runs.keeps_automation_rows update_run_id) (auto intro: runs.base_rules)

lemma fail_run_id: "triple ids_set (fail_run a r msg) (same_run r) (\<lambda>_ _. True)"
  unfolding fail_run_def by (intro keeps_then runs.keeps_text finish_run_id) simp

lemma triple_ret_pure: "Q x = (\<lambda>_. True) \<Longrightarrow> triple P (ret x) Q (\<lambda>_ _. True)"
  by (auto simp: triple_def ret_def)

lemma turn_queued_id: "triple ids_set (turn_queued a r th tid) (same_run r) (\<lambda>_ _. True)"
proof (rule tripleI)
  fix w r' w' assume "ids_set w" "turn_queued a r th tid w = (Inr r', w')"
  then show "same_run r r' w'"
    unfolding turn_queued_def
    by (auto elim!: bind_InrE seq_InrE dest!: ret_InrD update_run_Inr simp: same_run_def holds_in_def runs_distinct_def)
qed simp

lemma try_update_id:
  "triple ids_set (try_err (update_run q)) (\<lambda>u w. ids_set w \<and> (\<forall>x. u = Inr x \<longrightarrow> ar_id x = ar_id q)) (\<lambda>_ _. True)"
proof (rule tripleI)
  fix w u w' assume ids: "ids_set w" and run: "try_err (update_run q) w = (Inr u, w')"
  have "ids_set w'" using runs.keeps_try [OF runs.keeps_update_run, of q] ids run by (auto simp: keeps_def upholds_def dest!: spec [of _ w])
  then show "ids_set w' \<and> (\<forall>x. u = Inr x \<longrightarrow> ar_id x = ar_id q)"
    using run by (auto simp: try_err_def dest: update_run_Inr split: prod.splits sum.splits codex_error.splits)
qed simp

lemma case_sum_triple:
  "(\<And>e. triple P (f e) Q E) \<Longrightarrow> (\<And>x. triple P (g x) Q E) \<Longrightarrow> triple P (case s of Inl e \<Rightarrow> f e | Inr x \<Rightarrow> g x) Q E"
  by (cases s) auto

lemma if_triple: "triple P m Q E \<Longrightarrow> triple P n Q E \<Longrightarrow> triple P (if b then m else n) Q E"
  by simp

lemma run_body_id:
  "triple ids_set
     (bindE (try_err (run_thread rd a)) (\<lambda>th.
      case th of
        Inl e \<Rightarrow> fail_run a r (rd (codex_err_text e) 200)
      | Inr thread \<Rightarrow>
          if thread = [] then fail_run a r ''automation thread is required''
          else bindE (try_err (queue_turn rd thread (run_prompt a) ''read-only'' ''on-request'')) (\<lambda>q.
            case q of
              Inl e \<Rightarrow> fail_run a r (rd (codex_err_text e) 200)
            | Inr turn \<Rightarrow> turn_queued a r thread (cn_id turn)))) (same_run r) (\<lambda>_ _. True)"
  by (intro keeps_then case_sum_triple if_triple fail_run_id turn_queued_id runs.keeps_try runs.keeps_run_thread runs.keeps_queue_turn)

lemma execute_run_id: "triple ids_set (execute_run rd a r) (\<lambda>r' w. ar_id r' = ar_id r) (\<lambda>_ _. True)"
proof -
  have rest: "triple ids_set m (\<lambda>r' w. ar_id r' = ar_id r) (\<lambda>_ _. True)"
    if "triple ids_set m (same_run (case u of Inl _ \<Rightarrow> zero_run | Inr x \<Rightarrow> x)) (\<lambda>_ _. True)" "\<forall>x. u = Inr x \<longrightarrow> ar_id x = ar_id r"
    for m :: "auto_run codex_prog" and u :: "codex_error + auto_run"
  proof (cases u)
    case (Inl e)
    show ?thesis by (rule triple_conseq [OF that(1)]) (simp_all add: Inl same_run_def zero_run_def)
  next
    case (Inr x)
    then have eq: "ar_id x = ar_id r" using that(2) by blast
    show ?thesis by (rule triple_conseq [OF that(1)]) (simp_all add: Inr same_run_def eq)
  qed
  have goal: "triple (\<lambda>w. ids_set w \<and> (\<forall>x. u = Inr x \<longrightarrow> ar_id x = ar_id r))
     (let r1 = (case u of Inl _ \<Rightarrow> zero_run | Inr x \<Rightarrow> x) in
          bindE (try_err (run_thread rd a)) (\<lambda>th.
          case th of
            Inl e \<Rightarrow> fail_run a r1 (rd (codex_err_text e) 200)
          | Inr thread \<Rightarrow>
              if thread = [] then fail_run a r1 ''automation thread is required''
              else bindE (try_err (queue_turn rd thread (run_prompt a) ''read-only'' ''on-request'')) (\<lambda>q.
                case q of
                  Inl e \<Rightarrow> fail_run a r1 (rd (codex_err_text e) 200)
                | Inr turn \<Rightarrow> turn_queued a r1 thread (cn_id turn)))) (\<lambda>r' w. ar_id r' = ar_id r) (\<lambda>_ _. True)" for u :: "codex_error + auto_run"
    unfolding Let_def  by (rule triple_pure) (rule rest [OF run_body_id])
  show ?thesis
  proof (cases "ar_turn r \<noteq> [] \<and> run_active r")
    case True
    then show ?thesis unfolding execute_run_def by (simp add: triple_ret_pure)
  next
    case False
    have off: "triple ids_set (fail_run a r msg) (\<lambda>r' w. ar_id r' = ar_id r) (\<lambda>_ _. True)" for msg
      by (rule triple_conseq [OF fail_run_id]) (simp_all add: same_run_def)
    have on: "triple ids_set (bindE (try_err (update_run (r\<lparr>ar_status := s, ar_started := now, ar_heartbeat := now\<rparr>))) f)
        (\<lambda>r' w. ar_id r' = ar_id r) (\<lambda>_ _. True)"
      if "\<And>u. triple (\<lambda>w. ids_set w \<and> (\<forall>x. u = Inr x \<longrightarrow> ar_id x = ar_id r)) (f u) (\<lambda>r' w. ar_id r' = ar_id r) (\<lambda>_ _. True)" for s now f
      by (rule triple_bindE [OF try_update_id]) (use that in simp)
    show ?thesis
      unfolding execute_run_def if_not_P [OF False]
      by (rule keeps_then [OF up.keeps_get], rule if_triple, rule off, rule keeps_then [OF runs.keeps_text], rule on, rule goal)
  qed
qed

lemma get_automation_Inr:
  "get_automation aid w = (Inr a, w') \<Longrightarrow> a \<in> set (cx_automations w) \<and> am_id a = aid \<and> w' = w\<lparr>cx_calls := Suc (cx_calls w)\<rparr>"
  unfolding get_automation_def by (auto dest!: db_read_Inr [rotated] find_row_Inr)

lemma get_run_by_request_Inr:
  "get_run_by_request aid req w = (Inr r, w') \<Longrightarrow> r \<in> set (cx_runs w) \<and> run_key r = (aid, req) \<and> w' = w\<lparr>cx_calls := Suc (cx_calls w)\<rparr>"
  unfolding get_run_by_request_def by (auto simp: run_key_def dest!: db_read_Inr [rotated] find_row_Inr)

lemma create_run_key:
  "create_run (new_run aid req) w = (Inr r, w') \<Longrightarrow> req \<noteq> [] \<Longrightarrow> r \<in> set (cx_runs w') \<and> run_key r = (aid, req)"
  unfolding create_run_def Let_def
  by (auto elim!: bind_InrE seq_InrE dest!: get_run_by_request_Inr simp: run_key_def)

definition has_automation :: "string \<Rightarrow> table_pred" where
  "has_automation aid as rs ts \<longleftrightarrow> aid \<in> am_id ` set as"

interpretation has: codex_invariant "has_automation aid" "\<lambda>a. a \<noteq> aid" for aid
proof unfold_locales
  show "has_automation aid (map f as) rs ts"
    if J: "has_automation aid as rs ts" and f: "\<And>a. a \<in> set as \<Longrightarrow> am_id (f a) = am_id a \<and> (f a = a \<or> read_only_automation (f a))" for as rs ts f
    using J f by (force simp: has_automation_def image_image)
qed (auto simp: has_automation_def)

lemma first_run_kept:
  assumes "run_automation_now rd aid request w = (Inr r, w1)" and ids: "ids_set w"
  shows "holds_in (run_kept aid (trim_space request) (ar_id r)) w1 \<and> trim_space request \<noteq> []"
proof -
  let ?req = "trim_space request"
  from assms(1) obtain a wa where a: "get_automation aid w = (Inr a, wa)"
    and rest: "(if ?req = [] then throw (CxText ''client request id is required'')
     else bindE (try_err (get_run_by_request (am_id a) ?req)) (\<lambda>found.
       case found of
         Inr r \<Rightarrow> ret r
       | Inl _ \<Rightarrow> bindE (create_run (new_run (am_id a) ?req)) (execute_run rd a))) wa = (Inr r, w1)"
    unfolding run_automation_now_def Let_def by (rule bind_InrE)
  note a = get_automation_Inr [OF a]
  from rest have req: "?req \<noteq> []" by (auto simp: throw_def split: if_splits)
  with rest a obtain found wf where found: "try_err (get_run_by_request aid ?req) wa = (Inr found, wf)"
    and rest: "(case found of Inr r \<Rightarrow> ret r | Inl _ \<Rightarrow> bindE (create_run (new_run aid ?req)) (execute_run rd a)) wf = (Inr r, w1)"
    by (auto elim: bind_InrE)
  have wf: "wf = w\<lparr>cx_calls := cx_calls w + 2\<rparr>"
    using found a by (auto simp: try_err_def get_run_by_request_def db_read_def codex_db_def Let_def find_row_def
        split: prod.splits sum.splits codex_error.splits option.splits if_splits)
  show ?thesis
  proof (cases found)
    case (Inr q)
    then have "get_run_by_request aid ?req wa = (Inr q, wf)" "q = r" "w1 = wf"
      using found rest by (auto simp: try_err_def ret_def split: prod.splits sum.splits codex_error.splits)
    then show ?thesis
      using get_run_by_request_Inr [of aid ?req wa q wf] a ids req wf by (auto simp: holds_in_def run_kept_def)
  next
    case (Inl e)
    with rest obtain q wc where q: "create_run (new_run aid ?req) wf = (Inr q, wc)" and run: "execute_run rd a q wc = (Inr r, w1)"
      by (auto elim: bind_InrE)
    have "holds_in (has_automation aid) wf" using a wf by (auto simp: holds_in_def has_automation_def)
    then have here: "holds_in (has_automation aid) wc"
      using has.keeps_create_run [of aid aid ?req] q by (auto simp: keeps_def upholds_def dest!: spec [of _ wf])
    have ids_c: "ids_set wc" using runs.keeps_create_run [of aid ?req] q wf ids by (auto simp: keeps_def upholds_def holds_in_def dest!: spec [of _ wf])
    have "holds_in (run_kept aid ?req (ar_id q)) wc" using create_run_key [OF q req] ids_c here by (auto simp: holds_in_def run_kept_def has_automation_def)
    then have "holds_in (run_kept aid ?req (ar_id q)) w1"
      using kept.keeps_execute_run [of aid ?req "ar_id q" rd a q] run by (auto simp: keeps_def upholds_def dest!: spec [of _ wc])
    moreover have "ar_id r = ar_id q" using triple_Inr [OF execute_run_id ids_c run] .
    ultimately show ?thesis using req by simp
  qed
qed

lemma find_row_ex: "\<exists>r \<in> set rows. p r \<Longrightarrow> \<exists>r. find_row p rows = Inr r"
  by (auto simp: find_row_def find_None_iff split: option.split)

lemma unique_key: "distinct (map key rs) \<Longrightarrow> r \<in> set rs \<Longrightarrow> q \<in> set rs \<Longrightarrow> key r = key q \<Longrightarrow> r = q"
  by (auto simp: distinct_map inj_on_def)

lemma second_run:
  assumes kept: "holds_in (run_kept aid (trim_space request) rid) w" and req: "trim_space request \<noteq> []"
    and up: "\<not> cx_fault w (cx_calls w)" "\<not> cx_fault w (Suc (cx_calls w))"
  shows "\<exists>r. run_automation_now rd aid request w = (Inr r, w\<lparr>cx_calls := cx_calls w + 2\<rparr>) \<and> ar_id r = rid"
proof -
  obtain a where a: "find_row (\<lambda>a. am_id a = aid) (cx_automations w) = Inr a"
    using kept find_row_ex [of "cx_automations w" "\<lambda>a. am_id a = aid"] by (auto simp: holds_in_def run_kept_def)
  then have aid: "am_id a = aid" using find_row_Inr [OF a] by simp
  obtain r where r: "find_row (\<lambda>r. ar_automation r = aid \<and> ar_request r = trim_space request) (cx_runs w) = Inr r"
    using kept find_row_ex [of "cx_runs w" "\<lambda>r. ar_automation r = aid \<and> ar_request r = trim_space request"]
    by (auto simp: holds_in_def run_kept_def run_key_def)
  obtain q where q: "q \<in> set (cx_runs w)" "ar_id q = rid" "run_key q = (aid, trim_space request)" "distinct (map run_key (cx_runs w))"
    using kept by (auto simp: holds_in_def run_kept_def runs_distinct_def)
  have "r \<in> set (cx_runs w)" "run_key r = run_key q" using find_row_Inr [OF r] q(3) by (auto simp: run_key_def)
  then have "ar_id r = rid" using unique_key [OF q(4)] q(1,2) by blast
  then show ?thesis
    using a r aid req up
    by (simp add: run_automation_now_def Let_def bindE_def try_err_def get_automation_def get_run_by_request_def db_read_def codex_db_def ret_def)
qed

text \<open>
  C35: A request runs an automation once.  After a manual run that succeeded, whatever happens in between
  short of deleting the automation, the same request again only returns that run: no turn is queued and
  no table changes.
\<close>

theorem run_now_once:
  assumes "run_automation_now rd aid request w = (Inr r, w1)"
    and "distinct (map run_key (cx_runs w))" "[] \<notin> ar_id ` set (cx_runs w)"
    and "list_all (\<lambda>op. op \<noteq> OpDelete aid) ops" and "w2 = fold (codex_step rd) ops w1"
    and "\<not> cx_fault w2 (cx_calls w2)" "\<not> cx_fault w2 (Suc (cx_calls w2))"
  shows "\<exists>r'. run_automation_now rd aid request w2 = (Inr r', w2\<lparr>cx_calls := cx_calls w2 + 2\<rparr>) \<and> ar_id r' = ar_id r"
proof -
  have ids: "ids_set w" using assms(2,3) by (simp add: holds_in_def runs_distinct_def)
  note first = first_run_kept [OF assms(1) ids]
  have "list_all (kept.allowed aid) ops" using assms(4) by (auto simp: list_all_iff kept.allowed_def split: codex_op.split)
  then have "holds_in (run_kept aid (trim_space request) (ar_id r)) w2"
    unfolding assms(5) using kept.run_upholds first by blast
  then show ?thesis using second_run first assms(6,7) by blast
qed

section \<open>Witnesses\<close>

text \<open>A trusted workspace whose threads may write, and one automation of it.\<close>

definition sample_automation :: automation where
  "sample_automation = zero_automation\<lparr>am_id := ''a1'', am_kind := ''thread_wakeup'', am_thread := ''t1'', am_workspace := ''w1'',
     am_title := ''nightly'', am_prompt := ''look'', am_enabled := True, am_sandbox := ''read-only'', am_approval := ''on-request''\<rparr>"

definition sample_codex :: codex where
  "sample_codex = \<lparr>cx_automations = [sample_automation], cx_runs = [],
     cx_threads = [\<lparr>ct_id = ''t1'', ct_workspace = ''w1'', ct_title = ''fix'', ct_kind = ''code'', ct_background = False, ct_source = [],
       ct_sandbox = ''workspace-write'', ct_approval = ''on-request''\<rparr>],
     cx_workspaces = [\<lparr>wk_id = ''w1'', wk_trust = ''trusted'', wk_sandbox = ''workspace-write'', wk_approval = [], wk_network = Some True\<rparr>],
     cx_turns = [], cx_on = True, cx_fault = (\<lambda>_. False), cx_clock = (\<lambda>_. 0), cx_random = (\<lambda>_. Some ''id''), cx_calls = 0\<rparr>"

lemma codex_sample_trims:
  "trim_space ''r1'' = ''r1''" "trim_space ''queued'' = ''queued''" "trim_space ''open'' = ''open''" "trim_space ''read-only'' = ''read-only''"
  "trim_space ''on-request'' = ''on-request''" "trim_space ''thread_wakeup'' = ''thread_wakeup''" "trim_space ''nightly'' = ''nightly''"
  "trim_space ''look'' = ''look''"
  by (simp_all add: trim_space_graphic graphic_def)

lemmas sample_defs = db_read_def db_write_def db_insert_def codex_db_def bindE_def seqE_def ret_def throw_def get_state_def try_err_def ignore_err_def
  clock_now_def text_now_def codex_id_def Let_def

lemmas sample_ops = get_automation_def get_run_by_request_def create_run_def update_run_def get_run_def get_thread_def get_workspace_def
  get_turn_def create_turn_row_def update_automation_row_def normalize_automation_def merge_run_def run_columns_def pick_def run_active_def
  new_run_def zero_run_def zero_automation_def

lemma sample_create_run:
  "run_automation_now (\<lambda>s _. s) ''a1'' ''r1'' sample_codex =
    (let r = (new_run ''a1'' ''r1'')\<lparr>ar_id := ''cxarun_id'', ar_created_at := format_rfc3339nano 0, ar_updated_at := format_rfc3339nano 0\<rparr>
     in execute_run (\<lambda>s _. s) sample_automation r (sample_codex\<lparr>cx_runs := [r], cx_calls := 5\<rparr>))"
  by (simp add: numeral_eq_Suc find_row_def run_automation_now_def sample_ops codex_sample_trims sample_defs sample_codex_def sample_automation_def)

lemma update_run_succeeds:
  assumes "cx_fault w = (\<lambda>_. False)" "ar_id q \<in> ar_id ` set (cx_runs w)"
  shows "\<exists>r rs n. update_run q w = (Inr r, w\<lparr>cx_runs := rs, cx_calls := n\<rparr>) \<and> ar_id r = ar_id q \<and> ar_id ` set rs = ar_id ` set (cx_runs w)"
proof -
  obtain cur where cur: "find_row (\<lambda>r. ar_id r = ar_id q) (cx_runs w) = Inr cur"
    using assms(2) find_row_ex [of "cx_runs w" "\<lambda>r. ar_id r = ar_id q"] by (metis imageE)
  then have id_cur: "ar_id cur = ar_id q" using find_row_Inr [OF cur] by simp
  define row where "row = (merge_run q cur)\<lparr>ar_updated_at := format_rfc3339nano (cx_clock w (Suc (cx_calls w)))\<rparr>"
  define rs where "rs = map (\<lambda>r. if ar_id r = ar_id row then run_columns row r else r) (cx_runs w)"
  have row_id: "ar_id row = ar_id q" by (simp add: row_def merge_run_def id_cur)
  have "map ar_id rs = map ar_id (cx_runs w)" by (simp add: rs_def run_columns_def)
  then have ids: "ar_id row = ar_id q" "ar_id ` set rs = ar_id ` set (cx_runs w)" using row_id by (metis set_map)+
  then obtain r where r: "find_row (\<lambda>r. ar_id r = ar_id row) rs = Inr r"
    using assms(2) find_row_ex [of rs "\<lambda>r. ar_id r = ar_id row"] by (metis imageE)
  then have "update_run q w = (Inr r, w\<lparr>cx_runs := rs, cx_calls := Suc (Suc (Suc (cx_calls w)))\<rparr>)"
    using assms(1) cur by (simp add: update_run_def get_run_def sample_defs rs_def row_def cong: if_cong)
  then show ?thesis using ids find_row_Inr [OF r] by auto
qed

lemma ignored_update:
  "\<exists>w'. ignore_err (update_automation_row a) w = (Inr (), w') \<and> cx_turns w' = cx_turns w \<and> cx_fault w' = cx_fault w"
  by (auto simp: update_automation_row_def get_automation_def sample_defs find_row_def split: option.split)

lemma turn_queued_succeeds:
  assumes "cx_fault w = (\<lambda>_. False)" "ar_id r \<in> ar_id ` set (cx_runs w)" "am_schedule a = []"
  shows "\<exists>r' w'. turn_queued a r th tid w = (Inr r', w') \<and> cx_turns w' = cx_turns w \<and> cx_fault w' = cx_fault w"
proof -
  let ?q = "r\<lparr>ar_thread := th, ar_turn := tid, ar_status := ''running'', ar_finding := ''Waiting for read-only Codex turn '' @ tid\<rparr>"
  obtain r' rs n where u: "update_run ?q w = (Inr r', w\<lparr>cx_runs := rs, cx_calls := n\<rparr>)"
    using update_run_succeeds [of w ?q] assms(1,2) by auto
  obtain s where s: "next_automation_time (cx_clock w n) [] (format_rfc3339nano (cx_clock w n)) = Inr s"
    by (simp add: next_automation_time_def schedule_string_def Let_def)
  obtain w' where "ignore_err (update_automation_row (a\<lparr>am_last_run := format_rfc3339nano (cx_clock w n), am_next_run := s\<rparr>))
      (w\<lparr>cx_runs := rs, cx_calls := n\<rparr>) = (Inr (), w')" "cx_turns w' = cx_turns w" "cx_fault w' = cx_fault w"
    using ignored_update by fastforce
  then show ?thesis
    using u s assms(3) by (simp add: turn_queued_def bindE_def text_now_def clock_now_def get_state_def ret_def next_run_time_def seqE_def)
qed

lemma sample_queue_turn:
  "queue_turn (\<lambda>s _. s) ''t1'' ''look'' ''read-only'' ''on-request'' (sample_codex\<lparr>cx_runs := rs, cx_calls := n\<rparr>) =
    (let t = \<lparr>cn_id = ''cxtn_id'', cn_thread = ''t1'', cn_status = ''queued'', cn_prompt = ''look'',
         cn_policy = \<lparr>rp_sandbox = ''read-only'', rp_approval = ''on-request'', rp_network = True\<rparr>\<rparr>
     in (Inr t, sample_codex\<lparr>cx_runs := rs, cx_turns := [t], cx_calls := n + 5\<rparr>))"
  by (simp add: queue_turn_def get_thread_def get_workspace_def get_turn_def create_turn_row_def sample_defs sample_codex_def
      resolve_read_only first_non_empty_def codex_sample_trims find_row_def)

lemma sample_execute:
  assumes "ar_turn q = []" "ar_id q \<in> ar_id ` set rs"
  shows "\<exists>r w. execute_run (\<lambda>s _. s) sample_automation q (sample_codex\<lparr>cx_runs := rs, cx_calls := n\<rparr>) = (Inr r, w) \<and>
    length (cx_turns w) = 1 \<and> cx_fault w = (\<lambda>_. False)"
proof -
  let ?w = "sample_codex\<lparr>cx_runs := rs, cx_calls := n\<rparr>"
  let ?now = "format_rfc3339nano 0"
  have w: "cx_fault ?w = (\<lambda>_. False)" "cx_clock ?w = (\<lambda>_. 0)" "cx_on ?w" by (simp_all add: sample_codex_def)
  let ?q = "q\<lparr>ar_status := ''running'', ar_started := ?now, ar_heartbeat := ?now\<rparr>"
  obtain r1 rs1 m where u: "update_run ?q ?w = (Inr r1, sample_codex\<lparr>cx_runs := rs1, cx_calls := m\<rparr>)"
    and ids: "ar_id r1 = ar_id q" "ar_id ` set rs1 = ar_id ` set rs"
    using update_run_succeeds [OF w(1), of ?q] assms(2) by auto
  have a: "run_thread (\<lambda>s _. s) sample_automation = ret ''t1''" "run_prompt sample_automation = ''look''" "am_schedule sample_automation = []"
    by (simp_all add: run_thread_def run_prompt_def sample_automation_def zero_automation_def codex_sample_trims)
  have plain: "cx_fault sample_codex = (\<lambda>_. False)" by (simp add: sample_codex_def)
  obtain t wt where t: "queue_turn (\<lambda>s _. s) ''t1'' ''look'' ''read-only'' ''on-request'' (sample_codex\<lparr>cx_runs := rs1, cx_calls := m\<rparr>) = (Inr t, wt)"
    "cx_turns wt = [t]" "cx_fault wt = (\<lambda>_. False)" "cx_runs wt = rs1"
    by (simp add: sample_queue_turn Let_def plain)
  obtain r w' where "turn_queued sample_automation r1 ''t1'' (cn_id t) wt = (Inr r, w')" "cx_turns w' = cx_turns wt" "cx_fault w' = cx_fault wt"
    using turn_queued_succeeds [of wt r1 sample_automation "''t1''" "cn_id t", OF t(3) _ a(3)] ids assms(2) unfolding t(4) by metis
  then show ?thesis
    using t w by (simp add: execute_run_def assms(1) bindE_def get_state_def text_now_def clock_now_def ret_def try_err_def u a)
qed

lemma sample_run_now:
  "\<exists>r w. run_automation_now (\<lambda>s _. s) ''a1'' ''r1'' sample_codex = (Inr r, w) \<and> length (cx_turns w) = 1 \<and> cx_fault w = (\<lambda>_. False)"
  unfolding sample_create_run Let_def by (rule sample_execute) (simp_all add: new_run_def zero_run_def)

theorem automation_turns_read_only_witness:
  "length (cx_turns (fold (codex_step (\<lambda>s _. s)) [OpRunNow ''a1'' ''r1''] sample_codex)) = 1 \<and>
    list_all read_only_turn (cx_turns (fold (codex_step (\<lambda>s _. s)) [OpRunNow ''a1'' ''r1''] sample_codex))"
proof -
  have "list_all read_only_automation (cx_automations sample_codex)" "list_all read_only_turn (cx_turns sample_codex)"
    by (simp_all add: sample_codex_def sample_automation_def read_only_automation_def)
  from automation_turns_read_only [OF this, of "\<lambda>s _. s" "[OpRunNow ''a1'' ''r1'']"] sample_run_now
  show ?thesis by (auto simp: codex_step_def)
qed

theorem run_now_once_witness:
  "\<exists>r w1 r'. run_automation_now (\<lambda>s _. s) ''a1'' ''r1'' sample_codex = (Inr r, w1) \<and>
    run_automation_now (\<lambda>s _. s) ''a1'' ''r1'' w1 = (Inr r', w1\<lparr>cx_calls := cx_calls w1 + 2\<rparr>) \<and> ar_id r' = ar_id r \<and> length (cx_turns w1) = 1"
proof -
  obtain r w1 where run: "run_automation_now (\<lambda>s _. s) ''a1'' ''r1'' sample_codex = (Inr r, w1)" "length (cx_turns w1) = 1"
    "cx_fault w1 = (\<lambda>_. False)" using sample_run_now by blast
  have "\<exists>r'. run_automation_now (\<lambda>s _. s) ''a1'' ''r1'' w1 = (Inr r', w1\<lparr>cx_calls := cx_calls w1 + 2\<rparr>) \<and> ar_id r' = ar_id r"
    by (rule run_now_once [OF run(1), where ops = "[]"]) (simp_all add: sample_codex_def run(3))
  with run show ?thesis by blast
qed

end
