(* ===== verification/GoRegexp.thy ===== *)
theory GoRegexp
  imports GoStd
begin

text \<open>
  The part of Go's \<^verbatim>\<open>regexp\<close> the components use: patterns over byte classes, anchored at both ends, so that
  \<^verbatim>\<open>MatchString\<close> is membership in the pattern's language.  Matching is by derivatives; \<open>lang\<close> is what a
  pattern denotes, and \<open>rmatch_lang\<close> shows that the two agree.
\<close>

datatype rexp =
    RNone
  | REmpty
  | RClass "char \<Rightarrow> bool"
  | RSeq rexp rexp
  | RAlt rexp rexp
  | RStar rexp

definition RPlus :: "rexp \<Rightarrow> rexp" where
  "RPlus r = RSeq r (RStar r)"

definition ROpt :: "rexp \<Rightarrow> rexp" where
  "ROpt r = RAlt REmpty r"

definition RLit :: "string \<Rightarrow> rexp" where
  "RLit s = foldr (\<lambda>c r. RSeq (RClass (\<lambda>d. d = c)) r) s REmpty"

fun RRepeat :: "nat \<Rightarrow> rexp \<Rightarrow> rexp" where
  "RRepeat 0 r = REmpty"
| "RRepeat (Suc n) r = RSeq r (RRepeat n r)"

fun RUpTo :: "nat \<Rightarrow> rexp \<Rightarrow> rexp" where
  "RUpTo 0 r = REmpty"
| "RUpTo (Suc n) r = ROpt (RSeq r (RUpTo n r))"

section \<open>Matching\<close>

fun nullable :: "rexp \<Rightarrow> bool" where
  "nullable RNone = False"
| "nullable REmpty = True"
| "nullable (RClass p) = False"
| "nullable (RSeq r s) = (nullable r \<and> nullable s)"
| "nullable (RAlt r s) = (nullable r \<or> nullable s)"
| "nullable (RStar r) = True"

fun deriv_by :: "char \<Rightarrow> rexp \<Rightarrow> rexp" where
  "deriv_by c RNone = RNone"
| "deriv_by c REmpty = RNone"
| "deriv_by c (RClass p) = (if p c then REmpty else RNone)"
| "deriv_by c (RSeq r s) =
     (if nullable r then RAlt (RSeq (deriv_by c r) s) (deriv_by c s) else RSeq (deriv_by c r) s)"
| "deriv_by c (RAlt r s) = RAlt (deriv_by c r) (deriv_by c s)"
| "deriv_by c (RStar r) = RSeq (deriv_by c r) (RStar r)"

definition rmatch :: "rexp \<Rightarrow> string \<Rightarrow> bool" where
  "rmatch r s = nullable (fold deriv_by s r)"

section \<open>Languages\<close>

inductive iter :: "(string \<Rightarrow> bool) \<Rightarrow> string \<Rightarrow> bool" for L where
  iter_Nil: "iter L []"
| iter_append: "L s \<Longrightarrow> iter L t \<Longrightarrow> iter L (s @ t)"

fun lang :: "rexp \<Rightarrow> string \<Rightarrow> bool" where
  "lang RNone s = False"
| "lang REmpty s = (s = [])"
| "lang (RClass p) s = (\<exists>c. s = [c] \<and> p c)"
| "lang (RSeq r q) s = (\<exists>u v. s = u @ v \<and> lang r u \<and> lang q v)"
| "lang (RAlt r q) s = (lang r s \<or> lang q s)"
| "lang (RStar r) s = iter (lang r) s"

lemma nullable_lang: "nullable r = lang r []"
  by (induction r) (auto intro: iter_Nil)

lemma iter_Cons: "iter L (c # s) \<longleftrightarrow> (\<exists>u v. s = u @ v \<and> L (c # u) \<and> iter L v)"
proof
  assume "iter L (c # s)"
  then have "c # s \<noteq> [] \<longrightarrow> (\<exists>u v. s = u @ v \<and> L (c # u) \<and> iter L v)"
  proof (induction "c # s" rule: iter.induct)
    case (iter_append a b)
    then show ?case by (cases a) auto
  qed
  then show "\<exists>u v. s = u @ v \<and> L (c # u) \<and> iter L v" by simp
next
  assume "\<exists>u v. s = u @ v \<and> L (c # u) \<and> iter L v"
  then obtain u v where "s = u @ v" "L (c # u)" "iter L v" by blast
  then show "iter L (c # s)" using iter_append [of L "c # u" v] by simp
qed

lemma deriv_lang: "lang (deriv_by c r) s = lang r (c # s)"
proof (induction r arbitrary: s)
  case (RSeq r q)
  have "lang (RSeq r q) (c # s) \<longleftrightarrow> (lang r [] \<and> lang q (c # s)) \<or> (\<exists>u v. s = u @ v \<and> lang r (c # u) \<and> lang q v)"
    by (auto simp: Cons_eq_append_conv)
  then show ?case by (auto simp: RSeq nullable_lang)
qed (auto simp: iter_Cons)

theorem rmatch_lang: "rmatch r s = lang r s"
proof -
  have "nullable (fold deriv_by s r) = lang r s"
    by (induction s arbitrary: r) (simp_all add: nullable_lang deriv_lang)
  then show ?thesis by (simp add: rmatch_def)
qed

section \<open>Derived patterns\<close>

lemma iter_class: "iter (\<lambda>s. \<exists>c. s = [c] \<and> p c) s = list_all p s"
proof
  show "iter (\<lambda>s. \<exists>c. s = [c] \<and> p c) s \<Longrightarrow> list_all p s" by (induction rule: iter.induct) auto
  show "list_all p s \<Longrightarrow> iter (\<lambda>s. \<exists>c. s = [c] \<and> p c) s"
  proof (induction s)
    case (Cons c s)
    then show ?case using iter_append [of "\<lambda>s. \<exists>c. s = [c] \<and> p c" "[c]" s] by auto
  qed (rule iter_Nil)
qed

lemma lang_ext: "lang (RClass p) = (\<lambda>s. \<exists>c. s = [c] \<and> p c)" "lang (RSeq (RLit [d]) r) = (\<lambda>s. \<exists>t. s = d # t \<and> lang r t)"
  by (auto simp: RLit_def fun_eq_iff)

lemma lang_star_class [simp]: "lang (RStar (RClass p)) s = list_all p s"
  by (simp only: lang.simps(6) lang_ext iter_class)

lemma lang_class_seq: "lang (RSeq (RClass p) r) s = (case s of [] \<Rightarrow> False | c # t \<Rightarrow> p c \<and> lang r t)"
proof (cases s)
  case (Cons c t)
  have "lang (RSeq (RClass p) r) (c # t)" if "p c" "lang r t"
    unfolding lang.simps by (intro exI [of _ "[c]"] exI [of _ t]) (simp add: that)
  then show ?thesis using Cons by auto
qed auto

lemma lang_plus_class [simp]: "lang (RPlus (RClass p)) s = (s \<noteq> [] \<and> list_all p s)"
  unfolding RPlus_def lang_class_seq lang_star_class by (simp split: list.split)

lemma lang_opt [simp]: "lang (ROpt r) s = (s = [] \<or> lang r s)"
  by (simp add: ROpt_def)

lemma lang_lit [simp]: "lang (RLit t) s = (s = t)"
  by (induction t arbitrary: s) (auto simp: RLit_def lang_class_seq split: list.split)

lemma lang_repeat_class [simp]: "lang (RRepeat n (RClass p)) s = (length s = n \<and> list_all p s)"
  by (induction n arbitrary: s) (auto simp: lang_class_seq simp del: lang.simps(4) split: list.split)

lemma lang_up_to_class [simp]: "lang (RUpTo n (RClass p)) s = (length s \<le> n \<and> list_all p s)"
  by (induction n arbitrary: s) (auto simp: lang_class_seq simp del: lang.simps(4) split: list.split)

declare lang.simps(6) [simp del]

text \<open>A separated list: the language of \<^verbatim>\<open>r(dr)*\<close> over the pieces between the separators.\<close>

lemma iter_seq_sep:
  assumes "\<And>s. L s \<Longrightarrow> d \<notin> set s"
  shows "iter (\<lambda>s. \<exists>t. s = d # t \<and> L t) s \<longleftrightarrow> s = [] \<or> (\<exists>t. s = d # t \<and> list_all L (split_byte d t))"
proof
  let ?M = "\<lambda>s. \<exists>t. s = d # t \<and> L t"
  assume "iter ?M s"
  then show "s = [] \<or> (\<exists>t. s = d # t \<and> list_all L (split_byte d t))"
  proof (induction rule: iter.induct)
    case (iter_append a b)
    then obtain t where t: "a = d # t" "L t" by blast
    from iter_append.IH show ?case
      using t assms [OF t(2)] by (auto simp: split_byte_no_sep split_byte_append)
  qed simp
next
  let ?M = "\<lambda>s. \<exists>t. s = d # t \<and> L t"
  have one: "list_all L (split_byte d t) \<Longrightarrow> iter ?M (d # t)" for t
  proof (induction "length t" arbitrary: t rule: less_induct)
    case less
    show ?case
    proof (cases "d \<in> set t")
      case False
      then have "L t" using less.prems by (simp add: split_byte_no_sep)
      then show ?thesis using iter_append [of ?M "d # t" "[]"] iter_Nil [of ?M] by simp
    next
      case True
      then obtain p q where t: "t = p @ d # q" "d \<notin> set p" using split_list_first by metis
      then have "L p" "list_all L (split_byte d q)" using less.prems by (simp_all add: split_byte_append)
      then have "iter ?M (d # q)" using less.hyps t by simp
      then show ?thesis using iter_append [of ?M "d # p" "d # q"] \<open>L p\<close> t by simp
    qed
  qed
  assume "s = [] \<or> (\<exists>t. s = d # t \<and> list_all L (split_byte d t))"
  then show "iter ?M s" using one iter_Nil [of ?M] by blast
qed

lemma lang_separated:
  assumes "\<And>s. lang r s \<Longrightarrow> d \<notin> set s"
  shows "lang (RSeq r (RStar (RSeq (RLit [d]) r))) s = list_all (lang r) (split_byte d s)"
proof -
  have star: "lang (RStar (RSeq (RLit [d]) r)) v \<longleftrightarrow> v = [] \<or> (\<exists>t. v = d # t \<and> list_all (lang r) (split_byte d t))" for v
    unfolding lang.simps(6) lang_ext by (rule iter_seq_sep) (rule assms)
  have "lang (RSeq r (RStar (RSeq (RLit [d]) r))) s \<longleftrightarrow>
    lang r s \<or> (\<exists>u t. s = u @ d # t \<and> lang r u \<and> list_all (lang r) (split_byte d t))"
    unfolding lang.simps(4) star by auto
  also have "\<dots> \<longleftrightarrow> list_all (lang r) (split_byte d s)"
  proof (cases "d \<in> set s")
    case False
    then show ?thesis by (auto simp: split_byte_no_sep)
  next
    case True
    then obtain p q where s: "s = p @ d # q" "d \<notin> set p" using split_list_first by metis
    have unique: "u = p \<and> t = q" if "s = u @ d # t" "lang r u" for u t
    proof -
      have "split_byte d (u @ d # t) = split_byte d (p @ d # q)" by (simp only: that(1) [symmetric] s(1) [symmetric])
      then have "u = p" by (simp only: split_byte_append [OF assms [OF that(2)]] split_byte_append [OF s(2)] list.inject)
      then show ?thesis using trans [OF that(1) [symmetric] s(1)] by simp
    qed
    have "(\<exists>u t. s = u @ d # t \<and> lang r u \<and> list_all (lang r) (split_byte d t)) \<longleftrightarrow> lang r p \<and> list_all (lang r) (split_byte d q)"
      (is "?E \<longleftrightarrow> ?P")
    proof
      assume ?E
      then obtain u t where ut: "s = u @ d # t" "lang r u" "list_all (lang r) (split_byte d t)" by blast
      then show ?P using unique [OF ut(1,2)] by simp
    next
      assume ?P
      then show ?E by (intro exI [of _ p] exI [of _ q]) (simp add: s(1))
    qed
    moreover have "\<not> lang r s" using assms True by blast
    moreover have "split_byte d s = p # split_byte d q" unfolding s(1) using s(2) by (rule split_byte_append)
    ultimately show ?thesis by simp
  qed
  finally show ?thesis .
qed

end
