(* ===== verification/RegistryNames.thy ===== *)
theory RegistryNames
  imports GoPath GoRegexp
begin

text \<open>
  The pure part of the Docker registry (\<^verbatim>\<open>dockercontrol/registry.go\<close>, \<^verbatim>\<open>storage/docker_registry.go\<close>): names,
  digests, scopes, the split of request paths, storage keys, byte ranges and the path check of the local
  backend.
\<close>

section \<open>Names and digests\<close>

definition lower_alnum :: "char \<Rightarrow> bool" where
  "lower_alnum c \<longleftrightarrow> CHR ''a'' \<le> c \<and> c \<le> CHR ''z'' \<or> CHR ''0'' \<le> c \<and> c \<le> CHR ''9''"

definition name_sep :: "char \<Rightarrow> bool" where
  "name_sep c \<longleftrightarrow> c = CHR ''.'' \<or> c = CHR ''_'' \<or> c = CHR ''-''"

definition word_char :: "char \<Rightarrow> bool" where
  "word_char c \<longleftrightarrow> lower_alnum c \<or> CHR ''A'' \<le> c \<and> c \<le> CHR ''Z'' \<or> c = CHR ''_''"

definition name_comp_pattern :: rexp where
  "name_comp_pattern =
     RSeq (RPlus (RClass lower_alnum)) (RStar (RSeq (ROpt (RClass name_sep)) (RPlus (RClass lower_alnum))))"

definition repository_name_pattern :: rexp where
  "repository_name_pattern = RSeq name_comp_pattern (RStar (RSeq (RLit [slash]) name_comp_pattern))"

definition tag_pattern :: rexp where
  "tag_pattern = RSeq (RClass word_char) (RUpTo 127 (RClass (\<lambda>c. word_char c \<or> c = CHR ''.'' \<or> c = CHR ''-'')))"

definition digest_hex :: "char \<Rightarrow> bool" where
  "digest_hex c \<longleftrightarrow> CHR ''a'' \<le> c \<and> c \<le> CHR ''f'' \<or> CHR ''0'' \<le> c \<and> c \<le> CHR ''9''"

definition digest_pattern :: rexp where
  "digest_pattern = RSeq (RLit ''sha256:'') (RRepeat 64 (RClass digest_hex))"

definition digest_ok :: "string \<Rightarrow> bool" where
  "digest_ok d = rmatch digest_pattern d"

definition tag_ok :: "string \<Rightarrow> bool" where
  "tag_ok t = rmatch tag_pattern t"

definition validate_digest :: "string \<Rightarrow> bool" where
  "validate_digest d = digest_ok (trim_space d)"

definition validate_repository_name :: "string \<Rightarrow> bool" where
  "validate_repository_name n \<longleftrightarrow> n \<noteq> [] \<and> length n \<le> 255 \<and> rmatch repository_name_pattern n"

section \<open>Scopes\<close>

definition known_scopes :: "string list" where
  "known_scopes = [''registry.pull'', ''registry.push'', ''registry.delete'', ''registry.admin'']"

fun scopes_loop :: "string list \<Rightarrow> string list \<Rightarrow> string list" where
  "scopes_loop out [] = out"
| "scopes_loop out (s # ss) =
     (let t = trim_space s
      in scopes_loop (if t \<in> set known_scopes \<and> t \<notin> set out then out @ [t] else out) ss)"

definition normalize_scopes :: "string list \<Rightarrow> string list" where
  "normalize_scopes ss = (let out = scopes_loop [] ss in if out = [] then [''registry.pull'', ''registry.push''] else out)"

definition trim_slashes :: "string \<Rightarrow> string" where
  "trim_slashes s = rev (dropWhile (\<lambda>c. c = slash) (rev (dropWhile (\<lambda>c. c = slash) s)))"

definition normalize_repo_prefix :: "string \<Rightarrow> string" where
  "normalize_repo_prefix p = (let q = trim_slashes (trim_space p) in if q = [] then ''personal/'' else q @ ''/'')"

definition has_scope :: "string list \<Rightarrow> string \<Rightarrow> bool" where
  "has_scope ss want \<longleftrightarrow> list_ex (\<lambda>s. s = want \<or> s = ''registry.admin'') ss"

section \<open>Request paths\<close>

text \<open>\<^verbatim>\<open>strings.Cut\<close>: what is before and after the first occurrence of the marker.\<close>

fun cut_at :: "string \<Rightarrow> string \<Rightarrow> (string \<times> string) option" where
  "cut_at m [] = (if m = [] then Some ([], []) else None)"
| "cut_at m (c # s) =
     (if has_prefix (c # s) m then Some ([], drop (length m) (c # s)) else map_option (\<lambda>(a, b). (c # a, b)) (cut_at m s))"

definition split_registry_path :: "string \<Rightarrow> string \<Rightarrow> (string \<times> string) option" where
  "split_registry_path path marker =
     (case cut_at marker path of Some (l, r) \<Rightarrow> if l = [] \<or> r = [] then None else Some (l, r) | None \<Rightarrow> None)"

definition split_registry_upload_path :: "string \<Rightarrow> (string \<times> string) option" where
  "split_registry_upload_path path =
     (case cut_at ''/blobs/uploads/'' path of Some (repo, uid) \<Rightarrow> if repo = [] then None else Some (repo, uid) | None \<Rightarrow> None)"

fun first_repo :: "string list \<Rightarrow> string \<Rightarrow> string" where
  "first_repo [] path = []"
| "first_repo (m # ms) path = (case split_registry_path path m of Some (repo, _) \<Rightarrow> repo | None \<Rightarrow> first_repo ms path)"

definition registry_repo_from_path :: "string \<Rightarrow> string" where
  "registry_repo_from_path path = first_repo [''/manifests/'', ''/blobs/'', ''/blobs/uploads/''] path"

section \<open>Storage keys\<close>

text \<open>\<open>rs_prefix\<close> and \<open>rs_dir\<close> are the object prefix and the storage directory of the settings.\<close>

record registry_settings =
  rs_enabled :: bool
  rs_prefix :: string
  rs_dir :: string
  rs_quota :: int
  rs_max_repos :: int
  rs_max_tags :: int
  rs_anonymous :: bool

definition default_quota :: int where
  "default_quota = 10 * 1024 * 1024 * 1024"

text \<open>\<^verbatim>\<open>NormalizeDockerRegistrySettings\<close> and \<^verbatim>\<open>normalizeRegistrySettings\<close> on these fields.\<close>

definition normalize_settings :: "registry_settings \<Rightarrow> registry_settings" where
  "normalize_settings s =
     (let p = trim_slashes (trim_space (rs_prefix s)) in
      s\<lparr>rs_prefix := (if p = [] then ''phantom-lancer/docker-registry'' else p),
        rs_dir := trim_space (rs_dir s),
        rs_quota := (if rs_quota s \<le> 0 then default_quota else rs_quota s),
        rs_max_repos := (if rs_max_repos s < 0 then 0 else rs_max_repos s),
        rs_max_tags := (if rs_max_tags s < 0 then 0 else rs_max_tags s)\<rparr>)"

definition normalize_registry_settings :: "string \<Rightarrow> registry_settings \<Rightarrow> registry_settings" where
  "normalize_registry_settings data_dir settings =
     (let s = normalize_settings settings;
          d = (if rs_dir s = [] then path_join [data_dir, ''docker'', ''registry'']
               else if is_abs (rs_dir s) then rs_dir s else path_join [data_dir, rs_dir s])
      in s\<lparr>rs_dir := path_clean d\<rparr>)"

definition registry_object_key :: "registry_settings \<Rightarrow> string \<Rightarrow> string" where
  "registry_object_key s rest =
     (let p = trim_slashes (rs_prefix s) in if p = [] then trim_slashes rest else p @ ''/'' @ trim_slashes rest)"

definition manifest_key :: "registry_settings \<Rightarrow> string \<Rightarrow> string" where
  "manifest_key s digest = registry_object_key s (''manifests/'' @ trim_prefix digest ''sha256:'' @ ''.json'')"

definition blob_key :: "registry_settings \<Rightarrow> string \<Rightarrow> string" where
  "blob_key s digest =
     (let h = trim_prefix digest ''sha256:'' in registry_object_key s (''blobs/sha256/'' @ take 2 h @ ''/'' @ h))"

text \<open>\<^verbatim>\<open>filepath.Rel\<close> of two absolute paths.\<close>

fun drop_common :: "'a list \<Rightarrow> 'a list \<Rightarrow> 'a list \<times> 'a list" where
  "drop_common (x # xs) (y # ys) = (if x = y then drop_common xs ys else (x # xs, y # ys))"
| "drop_common xs ys = (xs, ys)"

definition path_rel :: "string \<Rightarrow> string \<Rightarrow> string" where
  "path_rel base target =
     (let (b, t) = drop_common (clean_comps base) (clean_comps target); r = replicate (length b) ''..'' @ t
      in if r = [] then ''.'' else join_with [slash] r)"

text \<open>The check of a key by the local backend, for an absolute root.\<close>

definition safe_path :: "string \<Rightarrow> string \<Rightarrow> string option" where
  "safe_path root key =
     (let target = path_join [root, trim_slashes (trim_space key)];
          abs_root = path_clean root; abs = path_clean target; rel = path_rel abs_root abs
      in if rel = ''..'' \<or> has_prefix rel ''../'' \<or> is_abs rel then None else Some abs)"

section \<open>Byte ranges\<close>

definition parse_byte_range :: "string \<Rightarrow> int \<Rightarrow> (int \<times> int) option" where
  "parse_byte_range header sz =
     (let h = trim_space header in
      if sz \<le> 0 \<or> \<not> has_prefix h ''bytes='' then None
      else case cut_at ''-'' (trim_prefix h ''bytes='') of
        None \<Rightarrow> None
      | Some (start_raw, end_raw) \<Rightarrow>
          (case atoi (trim_space start_raw) of
             None \<Rightarrow> None
           | Some start \<Rightarrow>
               if start < 0 \<or> sz \<le> start then None
               else if trim_space end_raw = [] then Some (start, sz - 1 - start + 1)
               else case atoi (trim_space end_raw) of
                 None \<Rightarrow> None
               | Some last_byte \<Rightarrow>
                   if last_byte < start then None
                   else let e = (if last_byte < sz - 1 then last_byte else sz - 1) in Some (start, e - start + 1)))"

section \<open>Names\<close>

lemma repeat_set: "lang (RSeq r q) s \<Longrightarrow> (\<And>u. lang r u \<Longrightarrow> set u \<subseteq> A) \<Longrightarrow> (\<And>u. lang q u \<Longrightarrow> set u \<subseteq> A) \<Longrightarrow> set s \<subseteq> A"
  by fastforce

lemma iter_set: "iter L s \<Longrightarrow> (\<And>u. L u \<Longrightarrow> set u \<subseteq> A) \<Longrightarrow> set s \<subseteq> A"
  by (induction rule: iter.induct) auto

lemma name_comp_chars:
  assumes "lang name_comp_pattern s"
  shows "set s \<subseteq> {c. lower_alnum c \<or> name_sep c}"
proof -
  have "set u \<subseteq> {c. lower_alnum c \<or> name_sep c}"
    if "lang (RSeq (ROpt (RClass name_sep)) (RPlus (RClass lower_alnum))) u" for u
    by (rule repeat_set [OF that]) (auto simp: list_all_iff)
  note inner = this
  have "set u \<subseteq> {c. lower_alnum c \<or> name_sep c}"
    if "lang (RStar (RSeq (ROpt (RClass name_sep)) (RPlus (RClass lower_alnum)))) u" for u
    using that unfolding lang.simps(6) by (rule iter_set) (rule inner)
  note star = this
  have plus: "set u \<subseteq> {c. lower_alnum c \<or> name_sep c}" if "lang (RPlus (RClass lower_alnum)) u" for u
    using that by (auto simp: list_all_iff)
  from assms have "lang (RSeq (RPlus (RClass lower_alnum)) (RStar (RSeq (ROpt (RClass name_sep)) (RPlus (RClass lower_alnum))))) s"
    unfolding name_comp_pattern_def .
  then show ?thesis by (rule repeat_set) (fact plus, fact star)
qed

lemma name_comp_no_slash: "lang name_comp_pattern s \<Longrightarrow> slash \<notin> set s"
  using name_comp_chars [of s] by (auto simp: slash_def lower_alnum_def name_sep_def)

lemma name_comp_first:
  assumes "lang name_comp_pattern s"
  shows "s \<noteq> [] \<and> lower_alnum (hd s)"
  using assms unfolding name_comp_pattern_def by (auto simp: list_all_iff hd_append)

text \<open>
  A repository name is a list of components between slashes; each component is a plain path component, so
  a name never climbs out of a directory.
\<close>

lemma repository_name_components:
  "rmatch repository_name_pattern n = list_all (lang name_comp_pattern) (split_byte slash n)"
  unfolding rmatch_lang repository_name_pattern_def by (rule lang_separated) (rule name_comp_no_slash)

lemma name_comp_plain: "lang name_comp_pattern s \<Longrightarrow> plain_comp s"
  using name_comp_first [of s] name_comp_no_slash [of s]
  by (auto simp: plain_comp_def lower_alnum_def)

lemma digest_ok_iff: "digest_ok d \<longleftrightarrow> (\<exists>h. d = ''sha256:'' @ h \<and> length h = 64 \<and> list_all digest_hex h)"
  by (auto simp: digest_ok_def rmatch_lang digest_pattern_def)

lemma validate_repository_name_plain: "validate_repository_name n \<Longrightarrow> list_all plain_comp (split_byte slash n)"
  using name_comp_plain by (auto simp: validate_repository_name_def repository_name_components list_all_iff)

section \<open>Splitting\<close>

lemma cut_at_Some: "cut_at m s = Some (a, b) \<Longrightarrow> s = a @ m @ b"
  by (induction m s arbitrary: a rule: cut_at.induct) (auto simp: has_prefix_iff split: if_splits)

lemma split_registry_path_Some: "split_registry_path p m = Some (l, r) \<Longrightarrow> p = l @ m @ r \<and> l \<noteq> [] \<and> r \<noteq> []"
  by (auto simp: split_registry_path_def split: option.splits if_splits dest: cut_at_Some)

text \<open>
  A byte range lies within the file: it starts inside, is not empty and ends inside.
\<close>

lemma parse_byte_range_within:
  assumes "parse_byte_range h sz = Some (start, len)"
  shows "0 \<le> start \<and> 0 < len \<and> start + len \<le> sz"
  using assms by (auto simp: parse_byte_range_def Let_def split: if_splits option.splits prod.splits)

section \<open>Paths below the storage root\<close>

lemma split_byte_join: "split_byte d (p @ d # q) = split_byte d p @ split_byte d q"
  by (induction d p rule: split_byte.induct) (auto split: list.split)

lemma foldl_clean_plain:
  "list_all plain_comp cs \<Longrightarrow> foldl (clean_step r) st cs = rev cs @ st"
  by (induction cs arbitrary: st) (auto simp: plain_comp_def)

lemma clean_comps_below:
  assumes "is_abs root" "list_all plain_comp (split_byte slash key)"
  shows "clean_comps (root @ slash # key) = clean_comps root @ split_byte slash key"
proof -
  have abs: "is_abs (root @ slash # key)" using assms(1) by (auto simp: is_abs_def has_prefix_iff)
  show ?thesis
    using assms abs by (simp add: clean_comps_def split_byte_join foldl_clean_plain)
qed

definition clean_root :: "string \<Rightarrow> bool" where
  "clean_root root \<longleftrightarrow> is_abs root \<and> path_clean root = root \<and> root \<noteq> ''/''"

lemma clean_root_text: "clean_root root \<Longrightarrow> root = slash # join_with [slash] (clean_comps root) \<and> clean_comps root \<noteq> []"
  by (auto simp: clean_root_def path_clean_def slash_def Let_def split: if_splits)

lemma join_append:
  "xs \<noteq> [] \<Longrightarrow> ys \<noteq> [] \<Longrightarrow> join_with [slash] (xs @ ys) = join_with [slash] xs @ slash # join_with [slash] ys"
  by (induction xs) (auto simp: join_with_Cons)

lemma clean_comps_plain: "is_abs p \<Longrightarrow> list_all plain_comp (clean_comps p)"
  by (rule clean_comps_shape [of p]) auto

lemma is_abs_clean: "is_abs p \<Longrightarrow> is_abs (path_clean p)"
  by (simp add: path_clean_def is_abs_def has_prefix_def slash_def)

lemma clean_comps_clean:
  assumes "is_abs p"
  shows "clean_comps (path_clean p) = clean_comps p"
proof -
  have abs: "is_abs (path_clean p)" by (rule is_abs_clean [OF assms])
  have comps: "list_all plain_comp (clean_comps p)" by (rule clean_comps_plain [OF assms])
  have "split_byte slash (path_clean p) = [] # (if clean_comps p = [] then [[]] else clean_comps p)"
    using assms comps split_join [of "clean_comps p" slash]
    by (auto simp: path_clean_def Let_def list_all_iff plain_comp_def)
  then have "clean_comps (path_clean p) = rev (foldl (clean_step True) [] (if clean_comps p = [] then [[]] else clean_comps p))"
    using abs by (simp add: clean_comps_def)
  then show ?thesis using comps by (auto simp: foldl_clean_plain)
qed

lemma path_below:
  assumes "clean_root root" "list_all plain_comp (split_byte slash key)"
  shows "path_clean (root @ slash # key) = root @ slash # key"
proof -
  have abs: "is_abs root" "is_abs (root @ slash # key)" using assms(1) by (auto simp: clean_root_def is_abs_def has_prefix_iff)
  have "path_clean (root @ slash # key) = slash # join_with [slash] (clean_comps root @ split_byte slash key)"
    using abs clean_comps_below [OF abs(1) assms(2)] by (simp add: path_clean_def)
  also have "\<dots> = (slash # join_with [slash] (clean_comps root)) @ slash # key"
    using clean_root_text [OF assms(1)] join_append [of "clean_comps root" "split_byte slash key"] by (simp add: join_split)
  finally show ?thesis using clean_root_text [OF assms(1)] by simp
qed

lemma plain_ends:
  assumes "list_all plain_comp (split_byte slash key)"
  shows "key \<noteq> []" "hd key \<noteq> slash" "last key \<noteq> slash"
proof -
  show "key \<noteq> []" using assms by (auto simp: plain_comp_def)
  then show "hd key \<noteq> slash" using assms by (cases key) (auto simp: plain_comp_def)
  show "last key \<noteq> slash"
  proof
    assume "last key = slash"
    then have "key = butlast key @ slash # []" using \<open>key \<noteq> []\<close> by (metis append_butlast_last_id)
    then have "[] \<in> set (split_byte slash key)" using split_byte_join [of slash "butlast key" "[]"] by simp
    then show False using assms by (auto simp: list_all_iff plain_comp_def)
  qed
qed

lemma trim_slashes_plain:
  assumes "hd s \<noteq> slash" "last s \<noteq> slash"
  shows "trim_slashes s = s"
proof -
  have drop: "dropWhile (\<lambda>c. c = slash) t = t" if "t = [] \<or> hd t \<noteq> slash" for t using that by (cases t) auto
  have "s = [] \<or> hd (rev s) \<noteq> slash" using assms by (auto simp: hd_rev)
  then show ?thesis using assms drop [of s] drop [of "rev s"] by (auto simp: trim_slashes_def)
qed

lemma drop_common_prefix: "drop_common xs (xs @ ys) = ([], ys)"
  by (induction xs) (auto split: list.split)

lemma safe_path_below:
  assumes "clean_root root" "list_all plain_comp (split_byte slash key)" "list_all graphic key"
  shows "safe_path root key = Some (root @ slash # key)"
proof -
  note ends = plain_ends [OF assms(2)]
  have root: "root \<noteq> []" "path_clean root = root" "is_abs root" using assms(1) by (auto simp: clean_root_def is_abs_def has_prefix_def)
  have target: "path_join [root, trim_slashes (trim_space key)] = root @ slash # key"
    using ends root path_below [OF assms(1,2)] assms(3)
    by (simp add: path_join.simps trim_space_graphic trim_slashes_plain)
  have rel: "path_rel root (root @ slash # key) = key"
    using ends(1) by (simp add: path_rel_def clean_comps_below [OF root(3) assms(2)] drop_common_prefix join_split)
  have inside: "\<not> (key = ''..'' \<or> has_prefix key ''../'' \<or> is_abs key)"
  proof -
    have "hd (split_byte slash key) \<noteq> ''..''" using assms(2) by (cases "split_byte slash key") (auto simp: plain_comp_def)
    moreover have "key = ''..'' \<Longrightarrow> hd (split_byte slash key) = ''..''" by (simp add: slash_def)
    moreover have "has_prefix key ''../'' \<Longrightarrow> hd (split_byte slash key) = ''..''"
      using split_byte_append [of slash "''..''"] by (auto simp: has_prefix_iff slash_def)
    ultimately show ?thesis using ends by (cases key) (auto simp: is_abs_def has_prefix_def slash_def)
  qed
  show ?thesis
    using target rel inside root path_below [OF assms(1,2)] by (simp add: safe_path_def Let_def)
qed

lemma drop_common_split: "drop_common xs ys = (b, t) \<Longrightarrow> \<exists>cs. xs = cs @ b \<and> ys = cs @ t"
proof (induction xs ys rule: drop_common.induct)
  case (1 x xs y ys)
  then show ?case by (auto split: if_splits)
qed auto

text \<open>Whatever the key, an accepted path is the root or lies below it.\<close>

lemma safe_path_confined:
  assumes "clean_root root" "safe_path root key = Some p"
  shows "p = root \<or> has_prefix p (root @ ''/'')"
proof -
  have root: "path_clean root = root" "root \<noteq> []" "is_abs root" using assms(1) by (auto simp: clean_root_def is_abs_def has_prefix_def)
  define target where "target = path_join [root, trim_slashes (trim_space key)]"
  from assms(2) have p: "p = path_clean target" and rel: "path_rel root p \<noteq> ''..''" "\<not> has_prefix (path_rel root p) ''../''"
    using root by (auto simp: safe_path_def target_def Let_def split: if_splits)
  obtain b t where bt: "drop_common (clean_comps root) (clean_comps p) = (b, t)" by fastforce
  obtain cs where cs: "clean_comps root = cs @ b" "clean_comps p = cs @ t" using drop_common_split [OF bt] by blast
  have "b = []"
  proof (rule ccontr)
    assume "b \<noteq> []"
    then obtain n where "length b = Suc n" by (cases b) auto
    then have "path_rel root p = ''..'' \<or> has_prefix (path_rel root p) ''../''"
      using bt by (auto simp: path_rel_def join_with_Cons has_prefix_iff slash_def)
    then show False using rel by blast
  qed
  have "is_abs (root @ slash # trim_slashes (trim_space key))" using root by (auto simp: is_abs_def has_prefix_iff)
  then have abs: "is_abs target" using root by (simp add: target_def path_join.simps is_abs_clean)
  have "p = slash # join_with [slash] (clean_comps root @ t)"
    using p abs cs \<open>b = []\<close> clean_comps_clean [OF abs] by (simp add: path_clean_def)
  moreover have "slash # join_with [slash] (clean_comps root) = root" "clean_comps root \<noteq> []"
    using clean_root_text [OF assms(1)] by simp_all
  ultimately have "p = (if t = [] then root else root @ slash # join_with [slash] t)"
    using join_append [of "clean_comps root" t] by (metis append.right_neutral append_Cons)
  then show ?thesis by (auto simp: has_prefix_iff slash_def split: if_splits)
qed

end
