(* ===== verification/RegistryTables.thy ===== *)
theory RegistryTables
  imports RegistryNames AuthLimiter GoTime GoJson
begin

text \<open>
  The state of the Docker registry: the files below its storage directory, its tables
  (\<^verbatim>\<open>storage/docker_registry.go\<close>) and the login limiter.  Every statement and every file operation may
  fail, by the schedule \<open>rg_fault\<close> (a failing write first writes \<open>rg_short\<close> bytes); a failing transaction leaves the tables as they were.  Directories and
  the ids of rows are left out; times are RFC 3339 texts, as in the columns.
\<close>

section \<open>Rows and state\<close>

record reg_file =
  rf_data :: string
  rf_mtime :: gtime

record reg_repo =
  rr_name :: string
  rr_size :: int
  rr_tags :: int
  rr_pushed :: string
  rr_updated :: string

record reg_manifest =
  rm_digest :: string
  rm_repo :: string
  rm_media :: string
  rm_size :: int
  rm_path :: string
  rm_pushed_by :: string
  rm_pushed_at :: string
  rm_deleted :: string

record reg_tag =
  rt_repo :: string
  rt_tag :: string
  rt_digest :: string
  rt_updated :: string
  rt_deleted :: string

record reg_cred =
  rc_id :: string
  rc_name :: string
  rc_status :: string
  rc_hash :: string
  rc_scopes :: "string list"
  rc_prefix :: string

record registry =
  rg_config :: registry_settings
  rg_files :: "(string \<times> reg_file) list"
  rg_repos :: "reg_repo list"
  rg_manifests :: "reg_manifest list"
  rg_tags :: "reg_tag list"
  rg_creds :: "reg_cred list"
  rg_limiter :: backoff
  rg_fault :: "nat \<Rightarrow> bool"
  rg_clock :: "nat \<Rightarrow> gtime"
  rg_random :: "nat \<Rightarrow> string option"
  rg_short :: "nat \<Rightarrow> nat"
  rg_calls :: nat

datatype reg_error = RegNotFound | RegFault | RegText string

type_synonym 'a reg_prog = "(registry, reg_error, 'a) prog"

definition reg_call :: "(registry \<Rightarrow> (reg_error + 'a) \<times> registry) \<Rightarrow> 'a reg_prog" where
  "reg_call op = (\<lambda>w.
     let w1 = w\<lparr>rg_calls := Suc (rg_calls w)\<rparr> in if rg_fault w (rg_calls w) then (Inl RegFault, w1) else op w1)"

definition reg_read :: "(registry \<Rightarrow> reg_error + 'a) \<Rightarrow> 'a reg_prog" where
  "reg_read q = reg_call (\<lambda>w. (q w, w))"

definition reg_write :: "(registry \<Rightarrow> registry) \<Rightarrow> unit reg_prog" where
  "reg_write f = reg_call (\<lambda>w. (Inr (), f w))"

definition reg_now :: "registry \<Rightarrow> gtime" where
  "reg_now w = rg_clock w (rg_calls w)"

definition reg_text_now :: "string reg_prog" where
  "reg_text_now = get_state (\<lambda>w. format_rfc3339nano (reg_now w))"

text \<open>A transaction: on any error, a failing commit included, the tables are rolled back.\<close>

definition reg_tx :: "'a reg_prog \<Rightarrow> 'a reg_prog" where
  "reg_tx m = (\<lambda>w.
     case bindE (reg_write id) (\<lambda>_. bindE m (\<lambda>x. seqE (reg_write id) (ret x))) w of
       (Inr x, w') \<Rightarrow> (Inr x, w')
     | (Inl e, w') \<Rightarrow> (Inl e, w'\<lparr>rg_repos := rg_repos w, rg_manifests := rg_manifests w, rg_tags := rg_tags w\<rparr>))"

section \<open>Manifests and tags\<close>

definition upsert_repo_row :: "string \<Rightarrow> int \<Rightarrow> string \<Rightarrow> reg_repo list \<Rightarrow> reg_repo list" where
  "upsert_repo_row name sz now rows =
     (if list_ex (\<lambda>r. rr_name r = name) rows
      then map (\<lambda>r. if rr_name r = name then r\<lparr>rr_size := rr_size r + sz, rr_pushed := now, rr_updated := now\<rparr> else r) rows
      else rows @ [\<lparr>rr_name = name, rr_size = sz, rr_tags = 0, rr_pushed = now, rr_updated = now\<rparr>])"

text \<open>The key of a manifest is its digest alone: a conflicting row keeps its repository.\<close>

definition upsert_manifest_row :: "reg_manifest \<Rightarrow> reg_manifest list \<Rightarrow> reg_manifest list" where
  "upsert_manifest_row m rows =
     (if list_ex (\<lambda>r. rm_digest r = rm_digest m) rows
      then map (\<lambda>r. if rm_digest r = rm_digest m then m\<lparr>rm_repo := rm_repo r, rm_deleted := []\<rparr> else r) rows
      else rows @ [m\<lparr>rm_deleted := []\<rparr>])"

definition upsert_tag_row :: "string \<Rightarrow> string \<Rightarrow> string \<Rightarrow> string \<Rightarrow> reg_tag list \<Rightarrow> reg_tag list" where
  "upsert_tag_row repo tag digest now rows =
     (if list_ex (\<lambda>t. rt_repo t = repo \<and> rt_tag t = tag) rows
      then map (\<lambda>t. if rt_repo t = repo \<and> rt_tag t = tag then t\<lparr>rt_digest := digest, rt_updated := now, rt_deleted := []\<rparr> else t) rows
      else rows @ [\<lparr>rt_repo = repo, rt_tag = tag, rt_digest = digest, rt_updated = now, rt_deleted = []\<rparr>])"

definition count_tags :: "string \<Rightarrow> registry \<Rightarrow> registry" where
  "count_tags repo w =
     w\<lparr>rg_repos := map (\<lambda>r. if rr_name r = repo
        then r\<lparr>rr_tags := int (length (filter (\<lambda>t. rt_repo t = repo \<and> rt_deleted t = []) (rg_tags w)))\<rparr> else r) (rg_repos w)\<rparr>"

definition random_id :: "string reg_prog" where
  "random_id = reg_read (\<lambda>w. case rg_random w (rg_calls w) of None \<Rightarrow> Inl (RegText ''random source failed'') | Some s \<Rightarrow> Inr s)"

definition upsert_manifest :: "reg_manifest \<Rightarrow> string \<Rightarrow> unit reg_prog" where
  "upsert_manifest m tag =
     bindE reg_text_now (\<lambda>now.
     reg_tx
       (bindE random_id (\<lambda>_.
        seqE (reg_write (\<lambda>w. w\<lparr>rg_repos := upsert_repo_row (rm_repo m) (rm_size m) now (rg_repos w)\<rparr>))
       (seqE (reg_write (\<lambda>w. w\<lparr>rg_manifests := upsert_manifest_row (m\<lparr>rm_pushed_at := now\<rparr>) (rg_manifests w)\<rparr>))
             (whenE (tag \<noteq> [])
               (seqE (reg_write (\<lambda>w. w\<lparr>rg_tags := upsert_tag_row (rm_repo m) tag (rm_digest m) now (rg_tags w)\<rparr>))
                     (reg_write (count_tags (rm_repo m)))))))))"

definition list_repositories :: "reg_repo list reg_prog" where
  "list_repositories = reg_read (\<lambda>w. Inr (rev (sort_key rr_updated (rev (rg_repos w)))))"

text \<open>The tags of a repository, newest first; a tag whose manifest row is gone cannot be scanned.\<close>

definition list_tags :: "string \<Rightarrow> reg_tag list reg_prog" where
  "list_tags repo = reg_read (\<lambda>w.
     let ts = filter (\<lambda>t. rt_repo t = repo \<and> rt_deleted t = []) (rg_tags w) in
     if list_all (\<lambda>t. list_ex (\<lambda>m. rm_digest m = rt_digest t) (rg_manifests w)) ts
     then Inr (rev (sort_key rt_updated (rev ts))) else Inl RegFault)"

definition manifest_by_digest :: "string \<Rightarrow> string \<Rightarrow> reg_manifest reg_prog" where
  "manifest_by_digest repo digest = reg_read (\<lambda>w.
     case find (\<lambda>m. rm_digest m = digest \<and> rm_repo m = repo \<and> rm_deleted m = []) (rg_manifests w) of
       None \<Rightarrow> Inl RegNotFound | Some m \<Rightarrow> Inr m)"

definition resolve_manifest :: "string \<Rightarrow> string \<Rightarrow> reg_manifest reg_prog" where
  "resolve_manifest repo reference =
     bindE (if has_prefix reference ''sha256:'' then ret reference
            else reg_read (\<lambda>w. case find (\<lambda>t. rt_repo t = repo \<and> rt_tag t = reference \<and> rt_deleted t = []) (rg_tags w) of
                   None \<Rightarrow> Inl RegNotFound | Some t \<Rightarrow> Inr (rt_digest t)))
       (manifest_by_digest repo)"

definition delete_tag_row :: "string \<Rightarrow> string \<Rightarrow> unit reg_prog" where
  "delete_tag_row repo tag =
     bindE reg_text_now (\<lambda>now. reg_write (\<lambda>w. w\<lparr>rg_tags :=
       map (\<lambda>t. if rt_repo t = repo \<and> rt_tag t = tag then t\<lparr>rt_deleted := now\<rparr> else t) (rg_tags w)\<rparr>))"

definition delete_manifest_rows :: "string \<Rightarrow> string \<Rightarrow> unit reg_prog" where
  "delete_manifest_rows repo digest =
     bindE reg_text_now (\<lambda>now. reg_tx
       (seqE (reg_write (\<lambda>w. w\<lparr>rg_manifests :=
                map (\<lambda>m. if rm_repo m = repo \<and> rm_digest m = digest then m\<lparr>rm_deleted := now\<rparr> else m) (rg_manifests w)\<rparr>))
             (reg_write (\<lambda>w. w\<lparr>rg_tags :=
                map (\<lambda>t. if rt_repo t = repo \<and> rt_digest t = digest then t\<lparr>rt_deleted := now\<rparr> else t) (rg_tags w)\<rparr>))))"

definition list_repository_names :: "string list reg_prog" where
  "list_repository_names = reg_read (\<lambda>w.
     Inr (sort (remdups (map rm_repo (filter (\<lambda>m. rm_deleted m = []) (rg_manifests w))))))"

definition active_manifests :: "reg_manifest list reg_prog" where
  "active_manifests = reg_read (\<lambda>w. Inr (filter (\<lambda>m. rm_deleted m = []) (rg_manifests w)))"

definition purge_deleted_manifests :: "string list reg_prog" where
  "purge_deleted_manifests =
     bindE (reg_read (\<lambda>w. Inr (remdups (map rm_path (filter (\<lambda>m. rm_deleted m \<noteq> [] \<and> rm_path m \<noteq> []) (rg_manifests w)))))) (\<lambda>paths.
     seqE (reg_write (\<lambda>w. w\<lparr>rg_tags := filter (\<lambda>t. rt_deleted t = []) (rg_tags w)\<rparr>))
    (seqE (reg_write (\<lambda>w. w\<lparr>rg_manifests := filter (\<lambda>m. rm_deleted m = []) (rg_manifests w)\<rparr>))
          (ret paths)))"

definition credential_by_name :: "string \<Rightarrow> reg_cred reg_prog" where
  "credential_by_name name = reg_read (\<lambda>w.
     case find (\<lambda>c. rc_name c = name) (rg_creds w) of None \<Rightarrow> Inl RegNotFound | Some c \<Rightarrow> Inr c)"

definition registry_settings_now :: "string \<Rightarrow> registry_settings reg_prog" where
  "registry_settings_now data_dir = reg_read (\<lambda>w. Inr (normalize_registry_settings data_dir (normalize_settings (rg_config w))))"

section \<open>Manifest documents\<close>

text \<open>
  \<^verbatim>\<open>json.Unmarshal\<close> into the structs of digests: a mismatching value is skipped and reported at the end;
  a slice keeps its cells, so a repeated key decodes into the elements of the first.
\<close>

definition json_key :: "string list \<Rightarrow> string \<Rightarrow> string option" where
  "json_key names key = (if key \<in> set names then Some key else find (\<lambda>n. fold_name n = fold_name key) names)"

fun digest_members :: "bool \<times> string \<Rightarrow> (string \<times> json) list \<Rightarrow> bool \<times> string" where
  "digest_members (ok, d) [] = (ok, d)"
| "digest_members (ok, d) ((k, v) # ms) =
     digest_members
       (if json_key [''digest''] k = None then (ok, d)
        else case v of JStr s \<Rightarrow> (ok, s) | JNull \<Rightarrow> (ok, d) | _ \<Rightarrow> (False, d)) ms"

definition decode_digest :: "json \<Rightarrow> string \<Rightarrow> bool \<times> string" where
  "decode_digest v d = (case v of JObj ms \<Rightarrow> digest_members (True, d) ms | JNull \<Rightarrow> (True, d) | _ \<Rightarrow> (False, d))"

type_synonym slice = "string list \<times> nat"

fun decode_cells :: "json list \<Rightarrow> string list \<Rightarrow> bool \<times> string list" where
  "decode_cells [] cells = (True, cells)"
| "decode_cells (v # vs) cells =
     (let (ok, d) = decode_digest v (case cells of [] \<Rightarrow> [] | c # _ \<Rightarrow> c); (oks, ds) = decode_cells vs (drop 1 cells)
      in (ok \<and> oks, d # ds))"

definition decode_slice :: "json \<Rightarrow> slice \<Rightarrow> bool \<times> slice" where
  "decode_slice v s =
     (case v of
        JArr vs \<Rightarrow> if vs = [] then (True, ([], 0)) else (let (ok, cells) = decode_cells vs (fst s) in (ok, (cells, length vs)))
      | JNull \<Rightarrow> (True, ([], 0))
      | _ \<Rightarrow> (False, s))"

record manifest_doc =
  md_config :: string
  md_layers :: slice
  md_manifests :: slice

definition empty_doc :: manifest_doc where
  "empty_doc = \<lparr>md_config = [], md_layers = ([], 0), md_manifests = ([], 0)\<rparr>"

definition slice_items :: "slice \<Rightarrow> string list" where
  "slice_items s = take (snd s) (fst s)"

definition doc_member :: "string list \<Rightarrow> bool \<times> manifest_doc \<Rightarrow> string \<times> json \<Rightarrow> bool \<times> manifest_doc" where
  "doc_member names = (\<lambda>(ok, d) (k, v).
     case json_key names k of
       None \<Rightarrow> (ok, d)
     | Some n \<Rightarrow>
         if n = ''config'' then (let (o', x) = decode_digest v (md_config d) in (ok \<and> o', d\<lparr>md_config := x\<rparr>))
         else if n = ''layers'' then (let (o', x) = decode_slice v (md_layers d) in (ok \<and> o', d\<lparr>md_layers := x\<rparr>))
         else (let (o', x) = decode_slice v (md_manifests d) in (ok \<and> o', d\<lparr>md_manifests := x\<rparr>)))"

definition decode_doc :: "string list \<Rightarrow> string \<Rightarrow> manifest_doc option" where
  "decode_doc names data =
     (case unmarshal data of
        Some (JObj ms) \<Rightarrow> (let (ok, d) = foldl (doc_member names) (True, empty_doc) ms in if ok then Some d else None)
      | Some JNull \<Rightarrow> Some empty_doc
      | _ \<Rightarrow> None)"

text \<open>The document as a push reads it and as the collector reads it, which also knows \<^verbatim>\<open>manifests\<close>.\<close>

definition push_fields :: "string list" where
  "push_fields = [''config'', ''layers'']"

definition gc_fields :: "string list" where
  "gc_fields = [''config'', ''layers'', ''manifests'']"

end
