(* ===== verification/Registry.thy ===== *)
theory Registry
  imports RegistryTables
begin

text \<open>
  The Docker registry's operations (\<^verbatim>\<open>dockercontrol/registry.go\<close>) over the local backend: requests to the
  \<^verbatim>\<open>/v2/\<close> endpoint, the deletion of tags and manifests, and garbage collection.  A request is a record of
  what the handlers read; a response keeps status, headers and content, but not the texts of error pages.
  \<open>sha\<close> is SHA-256 in lower-case hex and \<open>ul\<close> the Unicode part of \<^verbatim>\<open>strings.ToLower\<close>.  Audit entries, job events
  and log sampling are left out.  Requests are taken one after the other.
\<close>

section \<open>The local backend\<close>

definition max_manifest_bytes :: nat where
  "max_manifest_bytes = 8 * 1024 * 1024"

definition max_upload_bytes :: nat where
  "max_upload_bytes = 8 * 1024 * 1024 * 1024"

definition gc_grace :: duration where
  "gc_grace = hour"

definition drop_file :: "string \<Rightarrow> (string \<times> reg_file) list \<Rightarrow> (string \<times> reg_file) list" where
  "drop_file p fs = filter (\<lambda>(q, _). q \<noteq> p) fs"

definition put_file :: "string \<Rightarrow> reg_file \<Rightarrow> (string \<times> reg_file) list \<Rightarrow> (string \<times> reg_file) list" where
  "put_file p f fs = drop_file p fs @ [(p, f)]"

definition file_remove :: "string \<Rightarrow> unit reg_prog" where
  "file_remove p = reg_call (\<lambda>w. case map_of (rg_files w) p of
     None \<Rightarrow> (Inl RegNotFound, w) | Some _ \<Rightarrow> (Inr (), w\<lparr>rg_files := drop_file p (rg_files w)\<rparr>))"

definition file_stat :: "string \<Rightarrow> int reg_prog" where
  "file_stat p = reg_read (\<lambda>w. case map_of (rg_files w) p of None \<Rightarrow> Inl RegNotFound | Some f \<Rightarrow> Inr (int (length (rf_data f))))"

definition file_read :: "string \<Rightarrow> string reg_prog" where
  "file_read p = reg_read (\<lambda>w. case map_of (rg_files w) p of None \<Rightarrow> Inl RegNotFound | Some f \<Rightarrow> Inr (rf_data f))"

text \<open>Appending to an open file; a failing write leaves a part of the data.\<close>

definition file_append :: "string \<Rightarrow> string \<Rightarrow> unit reg_prog" where
  "file_append p data = (\<lambda>w.
     case map_of (rg_files w) p of
       None \<Rightarrow> (Inl RegNotFound, w\<lparr>rg_calls := Suc (rg_calls w)\<rparr>)
     | Some f \<Rightarrow>
         let fails = rg_fault w (rg_calls w); part = (if fails then take (rg_short w (rg_calls w)) data else data);
             f' = \<lparr>rf_data = rf_data f @ part, rf_mtime = reg_now w\<rparr>
         in (if fails then Inl RegFault else Inr (), w\<lparr>rg_files := put_file p f' (rg_files w), rg_calls := Suc (rg_calls w)\<rparr>))"

text \<open>\<^verbatim>\<open>os.OpenFile\<close> to append, and \<^verbatim>\<open>os.WriteFile\<close>, which truncates or creates the file and writes.\<close>

definition file_open_append :: "string \<Rightarrow> unit reg_prog" where
  "file_open_append p = reg_call (\<lambda>w. case map_of (rg_files w) p of
     Some _ \<Rightarrow> (Inr (), w) | None \<Rightarrow> (Inr (), w\<lparr>rg_files := put_file p \<lparr>rf_data = [], rf_mtime = reg_now w\<rparr> (rg_files w)\<rparr>))"

definition file_write :: "string \<Rightarrow> string \<Rightarrow> unit reg_prog" where
  "file_write p data = seqE
     (reg_call (\<lambda>w. (Inr (), w\<lparr>rg_files := put_file p \<lparr>rf_data = [], rf_mtime = reg_now w\<rparr> (rg_files w)\<rparr>)))
     (file_append p data)"

definition file_rename :: "string \<Rightarrow> string \<Rightarrow> unit reg_prog" where
  "file_rename a b = reg_call (\<lambda>w. case map_of (rg_files w) a of
     None \<Rightarrow> (Inl RegNotFound, w)
   | Some f \<Rightarrow> (Inr (), w\<lparr>rg_files := put_file b f (drop_file a (rg_files w))\<rparr>))"

definition with_path :: "string \<Rightarrow> string \<Rightarrow> (string \<Rightarrow> 'a reg_prog) \<Rightarrow> 'a reg_prog" where
  "with_path root key f = (case safe_path root key of None \<Rightarrow> throw (RegText ''registry object key escapes storage root'') | Some p \<Rightarrow> f p)"

definition backend_put_bytes :: "string \<Rightarrow> string \<Rightarrow> string \<Rightarrow> unit reg_prog" where
  "backend_put_bytes root key data = with_path root key (\<lambda>p. seqE (reg_write id) (file_write p data))"

definition backend_put_file :: "string \<Rightarrow> string \<Rightarrow> string \<Rightarrow> unit reg_prog" where
  "backend_put_file root key source = with_path root key (\<lambda>p. seqE (reg_write id) (file_rename source p))"

text \<open>\<^verbatim>\<open>Open\<close>: the length announced and the content that will be read.\<close>

definition backend_open :: "string \<Rightarrow> string \<Rightarrow> string \<Rightarrow> (int \<times> string) reg_prog" where
  "backend_open root key rng = with_path root key (\<lambda>p. bindE (file_read p) (\<lambda>data.
     case parse_byte_range rng (int (length data)) of
       Some (start, len) \<Rightarrow> ret (len, take (nat len) (drop (nat start) data))
     | None \<Rightarrow> ret (int (length data), data)))"

definition backend_head :: "string \<Rightarrow> string \<Rightarrow> int reg_prog" where
  "backend_head root key = with_path root key file_stat"

definition backend_delete :: "string \<Rightarrow> string \<Rightarrow> unit reg_prog" where
  "backend_delete root key = with_path root key file_remove"

definition below_dir :: "string \<Rightarrow> string \<Rightarrow> bool" where
  "below_dir d p = has_prefix p (d @ ''/'')"

definition dir_usage :: "string \<Rightarrow> registry \<Rightarrow> int" where
  "dir_usage root w = wrap64 (sum_list (map (\<lambda>(_, f). int (length (rf_data f))) (filter (\<lambda>(p, _). below_dir root p) (rg_files w))))"

text \<open>A walk that fails at its root counts nothing.\<close>

definition backend_usage :: "string \<Rightarrow> int reg_prog" where
  "backend_usage root = bindE (attempt (reg_read (\<lambda>w. Inr (dir_usage root w)))) (\<lambda>r :: reg_error + int.
     ret (case r of Inl _ \<Rightarrow> 0 | Inr n \<Rightarrow> n))"

definition list_blobs :: "string \<Rightarrow> registry_settings \<Rightarrow> registry \<Rightarrow> (string \<times> gtime) list" where
  "list_blobs root s w =
     (let dir = path_join [root, trim_slashes (registry_object_key s ''blobs/sha256'')] in
      map (\<lambda>(p, f). (''sha256:'' @ path_base p, rf_mtime f))
        (sort_key fst (filter (\<lambda>(p, _). below_dir dir p \<and> digest_ok (''sha256:'' @ path_base p)) (rg_files w))))"

definition backend_list :: "string \<Rightarrow> registry_settings \<Rightarrow> (string \<times> gtime) list reg_prog" where
  "backend_list root s = bindE (attempt (reg_read (\<lambda>w. Inr (list_blobs root s w)))) (\<lambda>r :: reg_error + (string \<times> gtime) list.
     ret (case r of Inl _ \<Rightarrow> [] | Inr bs \<Rightarrow> bs))"

section \<open>What a manifest refers to\<close>

definition blob_present :: "registry_settings \<Rightarrow> string \<Rightarrow> bool reg_prog" where
  "blob_present s digest =
     (if \<not> digest_ok digest then ret True
      else bindE (attempt (backend_head (rs_dir s) (blob_key s digest))) (\<lambda>r :: reg_error + int. ret (case r of Inl _ \<Rightarrow> False | Inr _ \<Rightarrow> True)))"

fun first_missing :: "registry_settings \<Rightarrow> string list \<Rightarrow> string reg_prog" where
  "first_missing s [] = ret []"
| "first_missing s (d # ds) =
     (if d = [] then first_missing s ds
      else bindE (blob_present s d) (\<lambda>ok. if ok then first_missing s ds else ret d))"

definition missing_manifest_blob :: "registry_settings \<Rightarrow> string \<Rightarrow> string reg_prog" where
  "missing_manifest_blob s body =
     (case decode_doc push_fields body of
        None \<Rightarrow> ret []
      | Some d \<Rightarrow> first_missing s (md_config d # slice_items (md_layers d)))"

definition doc_digests :: "manifest_doc \<Rightarrow> string list" where
  "doc_digests d = filter digest_ok (md_config d # slice_items (md_layers d) @ slice_items (md_manifests d))"

definition manifest_referenced_blobs :: "registry_settings \<Rightarrow> reg_manifest \<Rightarrow> string list reg_prog" where
  "manifest_referenced_blobs s m =
     (let own = (if digest_ok (rm_digest m) then [rm_digest m] else []) in
      if rm_path m = [] then ret own
      else bindE (attempt (backend_open (rs_dir s) (rm_path m) [])) (\<lambda>r :: reg_error + int \<times> string.
        case r of
          Inl _ \<Rightarrow> ret own
        | Inr (_, data) \<Rightarrow>
            (case decode_doc gc_fields (take max_manifest_bytes data) of
               None \<Rightarrow> ret own
             | Some d \<Rightarrow> ret (own @ doc_digests d))))"

section \<open>Garbage collection\<close>

fun ignore_each :: "('a \<Rightarrow> unit reg_prog) \<Rightarrow> 'a list \<Rightarrow> nat reg_prog" where
  "ignore_each f [] = ret 0"
| "ignore_each f (x # xs) =
     bindE (attempt (f x)) (\<lambda>r :: reg_error + unit. bindE (ignore_each f xs) (\<lambda>n. ret (case r of Inl _ \<Rightarrow> n | Inr _ \<Rightarrow> Suc n)))"

fun collect_referenced :: "registry_settings \<Rightarrow> reg_manifest list \<Rightarrow> string list reg_prog" where
  "collect_referenced s [] = ret []"
| "collect_referenced s (m # ms) =
     bindE (manifest_referenced_blobs s m) (\<lambda>ds. bindE (collect_referenced s ms) (\<lambda>rest. ret (ds @ rest)))"

text \<open>The blobs to delete: unreferenced, and older than the grace period when their turn comes.\<close>

fun sweep :: "registry_settings \<Rightarrow> string list \<Rightarrow> (string \<times> gtime) list \<Rightarrow> nat reg_prog" where
  "sweep s referenced [] = ret 0"
| "sweep s referenced ((d, modified) # bs) =
     bindE (get_state reg_now) (\<lambda>now.
     if d \<in> set referenced \<or> \<not> time_is_zero modified \<and> time_sub now modified < gc_grace then sweep s referenced bs
     else bindE (attempt (backend_delete (rs_dir s) (blob_key s d))) (\<lambda>r :: reg_error + unit.
       bindE (sweep s referenced bs) (\<lambda>n. ret (case r of Inl _ \<Rightarrow> n | Inr _ \<Rightarrow> Suc n))))"

definition uploads_dir :: "registry_settings \<Rightarrow> string" where
  "uploads_dir s = path_join [rs_dir s, ''uploads'']"

definition stale_upload :: "string \<Rightarrow> unit reg_prog" where
  "stale_upload p = bindE (get_state (\<lambda>w. (map_of (rg_files w) p, reg_now w))) (\<lambda>(f, now).
     case f of
       None \<Rightarrow> throw RegNotFound
     | Some i \<Rightarrow> if 24 * hour < time_sub now (rf_mtime i) then file_remove p else throw RegNotFound)"

definition clean_uploads :: "registry_settings \<Rightarrow> nat reg_prog" where
  "clean_uploads s =
     bindE (get_state (\<lambda>w. sort (map fst (filter (\<lambda>(p, _). below_dir (uploads_dir s) p) (rg_files w))))) (ignore_each stale_upload)"

definition run_registry_gc :: "string \<Rightarrow> (nat \<times> nat) reg_prog" where
  "run_registry_gc data_dir =
     bindE (registry_settings_now data_dir) (\<lambda>s.
     bindE purge_deleted_manifests (\<lambda>paths.
     seqE (ignore_each (backend_delete (rs_dir s)) paths)
    (bindE active_manifests (\<lambda>ms.
     bindE (collect_referenced s ms) (\<lambda>referenced.
     bindE (backend_list (rs_dir s) s) (\<lambda>blobs.
     bindE (sweep s referenced blobs) (\<lambda>reclaimed.
     bindE (clean_uploads s) (\<lambda>removed.
     ret (reclaimed, removed)))))))))"

section \<open>Limits and deletion\<close>

definition check_quota :: "registry_settings \<Rightarrow> int \<Rightarrow> unit reg_prog" where
  "check_quota s incoming =
     (if rs_quota s \<le> 0 then ret ()
      else bindE (backend_usage (rs_dir s)) (\<lambda>used.
        if rs_quota s < wrap64 (used + incoming) then throw (RegText ''registry quota exceeded'') else ret ()))"

definition enforce_limits :: "registry_settings \<Rightarrow> string \<Rightarrow> string \<Rightarrow> unit reg_prog" where
  "enforce_limits s repo tag =
     seqE (whenE (0 < rs_max_repos s)
             (bindE list_repositories (\<lambda>rs.
                if \<not> list_ex (\<lambda>r. rr_name r = repo) rs \<and> rs_max_repos s \<le> int (length rs)
                then throw (RegText ''registry repository limit exceeded'') else ret ())))
          (whenE (tag \<noteq> [] \<and> 0 < rs_max_tags s)
             (bindE (list_tags repo) (\<lambda>ts.
                if \<not> list_ex (\<lambda>t. rt_tag t = tag) ts \<and> rs_max_tags s \<le> int (length ts)
                then throw (RegText ''registry tag limit exceeded'') else ret ())))"

definition delete_registry_manifest :: "string \<Rightarrow> string \<Rightarrow> string \<Rightarrow> unit reg_prog" where
  "delete_registry_manifest data_dir repo digest =
     (if \<not> validate_repository_name repo then throw (RegText ''invalid repository name'')
      else if \<not> validate_digest digest then throw (RegText ''invalid digest'')
      else bindE (registry_settings_now data_dir) (\<lambda>s.
        bindE (attempt (resolve_manifest repo digest)) (\<lambda>found :: reg_error + reg_manifest.
        seqE (delete_manifest_rows repo digest)
          (case found of
             Inl _ \<Rightarrow> ret ()
           | Inr m \<Rightarrow> if rm_path m = [] then ret ()
               else bindE (attempt (backend_delete (rs_dir s) (rm_path m))) (\<lambda>_ :: reg_error + unit. ret ())))))"

definition delete_registry_tag :: "string \<Rightarrow> string \<Rightarrow> unit reg_prog" where
  "delete_registry_tag repo tag =
     (if \<not> validate_repository_name repo then throw (RegText ''invalid repository name'')
      else if \<not> tag_ok tag then throw (RegText ''invalid tag'')
      else delete_tag_row repo tag)"

section \<open>Requests and responses\<close>

text \<open>\<open>rq_body\<close> is what can be read of the body, \<open>rq_whole\<close> whether its end is reached without an error.\<close>

record reg_request =
  rq_method :: string
  rq_path :: string
  rq_auth :: bool
  rq_basic :: "(string \<times> string) option"
  rq_ip :: string
  rq_body :: string
  rq_whole :: bool
  rq_type :: string
  rq_range :: string
  rq_mount :: string
  rq_digest :: string

record reg_response =
  rp_status :: int
  rp_digest :: string
  rp_location :: string
  rp_range :: string
  rp_type :: string
  rp_length :: "int option"
  rp_upload :: string
  rp_body :: string

type_synonym 'a reg_handler = "(registry, reg_response, 'a) prog"

definition status :: "int \<Rightarrow> reg_response" where
  "status n = \<lparr>rp_status = n, rp_digest = [], rp_location = [], rp_range = [], rp_type = [], rp_length = None, rp_upload = [], rp_body = []\<rparr>"

text \<open>An operation of the service inside a handler: its error is answered with a status.\<close>

definition or_status :: "int \<Rightarrow> 'a reg_prog \<Rightarrow> 'a reg_handler" where
  "or_status n m = (\<lambda>w. case m w of (Inl _, w') \<Rightarrow> (Inl (status n), w') | (Inr x, w') \<Rightarrow> (Inr x, w'))"

definition tried :: "'a reg_prog \<Rightarrow> (reg_error + 'a) reg_handler" where
  "tried m = attempt m"

definition requires :: "bool \<Rightarrow> int \<Rightarrow> unit reg_handler" where
  "requires b n = (if b then ret () else throw (status n))"

definition respond :: "reg_response reg_handler \<Rightarrow> registry \<Rightarrow> reg_response \<times> registry" where
  "respond h w = (case h w of (Inl r, w') \<Rightarrow> (r, w') | (Inr r, w') \<Rightarrow> (r, w'))"

section \<open>Authentication\<close>

definition anonymous_cred :: reg_cred where
  "anonymous_cred = \<lparr>rc_id = ''anonymous'', rc_name = [], rc_status = ''active'', rc_hash = [], rc_scopes = [''registry.pull''], rc_prefix = []\<rparr>"

definition reads_only :: "reg_request \<Rightarrow> bool" where
  "reads_only q \<longleftrightarrow> rq_method q = ''GET'' \<or> rq_method q = ''HEAD''"

definition v2_path :: "reg_request \<Rightarrow> string" where
  "v2_path q = trim_prefix (rq_path q) ''/v2/''"

definition limiter_failure :: "(string \<Rightarrow> string) \<Rightarrow> string \<Rightarrow> string \<Rightarrow> gtime \<Rightarrow> unit reg_handler" where
  "limiter_failure ul user ip now = modify (\<lambda>w. w\<lparr>rg_limiter := fst (record_failure ul (rg_limiter w) user ip now)\<rparr>)"

definition authenticate ::
  "(string \<Rightarrow> string) \<Rightarrow> (string \<Rightarrow> string) \<Rightarrow> registry_settings \<Rightarrow> reg_request \<Rightarrow> reg_cred reg_handler" where
  "authenticate ul sha s q =
     bindE (get_state reg_now) (\<lambda>now.
     case rq_basic q of
       None \<Rightarrow>
         if rs_anonymous s \<and> reads_only q then ret anonymous_cred
         else seqE (whenE (rq_auth q) (limiter_failure ul [] (rq_ip q) now)) (throw (status 401))
     | Some (user, pass) \<Rightarrow>
         bindE (get_state (\<lambda>w. check ul (rg_limiter w) user (rq_ip q) now)) (\<lambda>(lim, d).
         seqE (modify (\<lambda>w. w\<lparr>rg_limiter := lim\<rparr>))
        (seqE (requires (\<not> dc_limited d) 429)
        (bindE (tried (credential_by_name user)) (\<lambda>found.
         case found of
           Inl _ \<Rightarrow> seqE (limiter_failure ul user (rq_ip q) now) (throw (status 401))
         | Inr c \<Rightarrow>
             if rc_status c \<noteq> ''active'' \<or> rc_hash c \<noteq> sha pass
             then seqE (limiter_failure ul user (rq_ip q) now) (throw (status 401))
             else let repo = registry_repo_from_path (v2_path q) in
               seqE (requires (repo = [] \<or> has_prefix repo (trim_prefix (rc_prefix c) ''/'')) 403)
              (seqE (modify (\<lambda>w. w\<lparr>rg_limiter := record_success ul (rg_limiter w) user\<rparr>))
                    (ret c)))))))"

section \<open>Catalog and tags\<close>

definition json_page :: "json \<Rightarrow> reg_response" where
  "json_page v = (status 200)\<lparr>rp_type := ''application/json'', rp_body := marshal v @ [CHR 0x0A]\<rparr>"

definition handle_catalog :: "reg_request \<Rightarrow> reg_response reg_handler" where
  "handle_catalog q =
     seqE (requires (rq_method q = ''GET'') 405)
    (bindE (or_status 500 list_repository_names) (\<lambda>names.
     ret (json_page (JObj [(''repositories'', JArr (map JStr names))]))))"

definition handle_tags_list :: "reg_request \<Rightarrow> string \<Rightarrow> reg_response reg_handler" where
  "handle_tags_list q repo =
     seqE (requires (rq_method q = ''GET'') 405)
    (seqE (requires (validate_repository_name repo) 404)
    (bindE (or_status 500 (list_tags repo)) (\<lambda>ts.
     ret (json_page (JObj [(''name'', JStr repo), (''tags'', JArr (map (\<lambda>t. JStr (rt_tag t)) ts))])))))"

section \<open>Manifests\<close>

definition sha_digest :: "(string \<Rightarrow> string) \<Rightarrow> string \<Rightarrow> string" where
  "sha_digest sha data = ''sha256:'' @ sha data"

definition push_manifest ::
  "(string \<Rightarrow> string) \<Rightarrow> registry_settings \<Rightarrow> reg_cred \<Rightarrow> reg_request \<Rightarrow> string \<Rightarrow> string \<Rightarrow> reg_response reg_handler" where
  "push_manifest sha s c q repo ref =
     seqE (requires (has_scope (rc_scopes c) ''registry.push'') 403)
    (let body = rq_body q in
     seqE (requires (rq_whole q \<and> length body \<le> max_manifest_bytes) 413)
    (let digest = sha_digest sha body;
         media = (if rq_type q = [] then ''application/vnd.oci.image.manifest.v1+json'' else rq_type q);
         tag = (if \<not> has_prefix ref ''sha256:'' \<and> tag_ok ref then ref else []);
         path = manifest_key s digest
     in
     bindE (or_status 500 (missing_manifest_blob s body)) (\<lambda>missing.
     seqE (requires (missing = []) 400)
    (seqE (or_status 403 (enforce_limits s repo tag))
    (seqE (or_status 507 (check_quota s (int (length body))))
    (seqE (or_status 500 (backend_put_bytes (rs_dir s) path body))
    (seqE (tried (upsert_manifest \<lparr>rm_digest = digest, rm_repo = repo, rm_media = media, rm_size = int (length body),
             rm_path = path, rm_pushed_by = rc_id c, rm_pushed_at = [], rm_deleted = []\<rparr> tag))
          (ret ((status 201)\<lparr>rp_digest := digest, rp_location := ''/v2/'' @ repo @ ''/manifests/'' @ digest\<rparr>)))))))))"

definition pull_manifest :: "registry_settings \<Rightarrow> reg_request \<Rightarrow> string \<Rightarrow> string \<Rightarrow> reg_response reg_handler" where
  "pull_manifest s q repo ref =
     bindE (or_status 404 (resolve_manifest repo ref)) (\<lambda>m.
     let head = (status 200)\<lparr>rp_digest := rm_digest m, rp_type := rm_media m, rp_length := Some (rm_size m)\<rparr> in
     if rq_method q = ''HEAD'' then ret head
     else bindE (or_status 404 (backend_open (rs_dir s) (rm_path m) [])) (\<lambda>(_, data).
       ret (head\<lparr>rp_type := ''application/octet-stream'', rp_body := data\<rparr>)))"

definition handle_manifest ::
  "(string \<Rightarrow> string) \<Rightarrow> string \<Rightarrow> registry_settings \<Rightarrow> reg_cred \<Rightarrow> reg_request \<Rightarrow> string \<Rightarrow> reg_response reg_handler" where
  "handle_manifest sha data_dir s c q path =
     (case split_registry_path path ''/manifests/'' of
        None \<Rightarrow> throw (status 404)
      | Some (repo, ref) \<Rightarrow>
          if \<not> validate_repository_name repo then throw (status 404)
          else if rq_method q = ''PUT'' then push_manifest sha s c q repo ref
          else if reads_only q then pull_manifest s q repo ref
          else if rq_method q = ''DELETE'' then
            seqE (requires (has_scope (rc_scopes c) ''registry.delete'') 403)
           (seqE (or_status 404 (delete_registry_manifest data_dir repo ref)) (ret (status 202)))
          else ret (status 405))"

section \<open>Blobs\<close>

definition get_blob :: "registry_settings \<Rightarrow> reg_request \<Rightarrow> string \<Rightarrow> reg_response reg_handler" where
  "get_blob s q digest =
     (let key = blob_key s digest; rng = trim_space (rq_range q) in
      bindE (tried (backend_head (rs_dir s) key)) (\<lambda>h.
      let total_size = (case h of Inl _ \<Rightarrow> 0 | Inr n \<Rightarrow> n) in
      bindE (or_status 404 (backend_open (rs_dir s) key rng)) (\<lambda>(len, data).
      let page = (status 200)\<lparr>rp_digest := digest, rp_type := ''application/octet-stream'',
                   rp_length := (if 0 < len then Some len else None), rp_body := data\<rparr>
      in ret (if rng \<noteq> [] \<and> 0 < total_size then
                (case parse_byte_range rng total_size of
                   Some (start, n) \<Rightarrow> page\<lparr>rp_status := 206, rp_range := ''bytes '' @ itoa start @ ''-'' @ itoa (start + n - 1) @ ''/'' @ itoa total_size\<rparr>
                 | None \<Rightarrow> page)
              else page))))"

definition handle_blob :: "registry_settings \<Rightarrow> reg_request \<Rightarrow> string \<Rightarrow> reg_response reg_handler" where
  "handle_blob s q path =
     (case split_registry_path path ''/blobs/'' of
        None \<Rightarrow> throw (status 404)
      | Some (_, digest) \<Rightarrow>
          if \<not> validate_digest digest then throw (status 404)
          else if rq_method q = ''HEAD'' then
            bindE (or_status 404 (backend_head (rs_dir s) (blob_key s digest))) (\<lambda>n.
              ret ((status 200)\<lparr>rp_digest := digest, rp_length := Some n\<rparr>))
          else if rq_method q \<noteq> ''GET'' then ret (status 405)
          else get_blob s q digest)"

section \<open>Uploads\<close>

definition upload_path :: "registry_settings \<Rightarrow> string \<Rightarrow> string" where
  "upload_path s uid = path_join [rs_dir s, ''uploads'', path_base uid]"

definition committed :: "int \<Rightarrow> string" where
  "committed n = (if 0 < n then ''0-'' @ itoa (n - 1) else ''0-0'')"

definition upload_size :: "string \<Rightarrow> int reg_handler" where
  "upload_size p = bindE (tried (file_stat p)) (\<lambda>r. ret (case r of Inl _ \<Rightarrow> 0 | Inr n \<Rightarrow> n))"

text \<open>\<^verbatim>\<open>io.Copy(file, io.LimitReader(r.Body, maxBlobUploadBytes))\<close>.\<close>

definition copy_body :: "string \<Rightarrow> reg_request \<Rightarrow> unit reg_prog" where
  "copy_body p q =
     seqE (file_append p (take max_upload_bytes (rq_body q)))
       (if \<not> rq_whole q \<and> length (rq_body q) < max_upload_bytes then throw (RegText ''unexpected EOF'') else ret ())"

text \<open>The location of an upload; \<open>pe\<close> is \<^verbatim>\<open>url.PathEscape\<close>.\<close>

definition upload_location :: "(string \<Rightarrow> string) \<Rightarrow> string \<Rightarrow> string \<Rightarrow> string" where
  "upload_location pe repo uid = ''/v2/'' @ repo @ ''/blobs/uploads/'' @ pe uid"

definition start_upload :: "(string \<Rightarrow> string) \<Rightarrow> registry_settings \<Rightarrow> reg_request \<Rightarrow> string \<Rightarrow> reg_response reg_handler" where
  "start_upload pe s q repo =
     bindE (if rq_mount q \<noteq> [] \<and> validate_digest (rq_mount q)
            then tried (backend_head (rs_dir s) (blob_key s (rq_mount q))) else ret (Inl RegNotFound)) (\<lambda>mounted.
     case mounted of
       Inr _ \<Rightarrow> ret ((status 201)\<lparr>rp_digest := rq_mount q, rp_location := ''/v2/'' @ repo @ ''/blobs/'' @ rq_mount q\<rparr>)
     | Inl _ \<Rightarrow>
         bindE (or_status 500 random_id) (\<lambda>uid.
         ret ((status 202)\<lparr>rp_upload := uid, rp_location := upload_location pe repo uid, rp_range := ''0-0''\<rparr>)))"

definition upload_progress :: "(string \<Rightarrow> string) \<Rightarrow> int \<Rightarrow> string \<Rightarrow> string \<Rightarrow> int \<Rightarrow> reg_response" where
  "upload_progress pe code repo uid n =
     (status code)\<lparr>rp_upload := uid, rp_location := upload_location pe repo uid, rp_range := committed n\<rparr>"

definition finish_upload ::
  "(string \<Rightarrow> string) \<Rightarrow> registry_settings \<Rightarrow> reg_request \<Rightarrow> string \<Rightarrow> string \<Rightarrow> reg_response reg_handler" where
  "finish_upload sha s q repo p =
     (let digest = rq_digest q in
      seqE (requires (validate_digest digest) 400)
     (seqE (or_status 500 (file_open_append p))
     (seqE (or_status 500 (copy_body p q))
     (bindE (or_status 400 (file_read p)) (\<lambda>data.
      seqE (requires (sha_digest sha data = digest) 400)
     (bindE (tried (file_stat p)) (\<lambda>st.
      seqE (case st of Inl _ \<Rightarrow> ret () | Inr n \<Rightarrow> or_status 507 (check_quota s n))
     (seqE (or_status 500 (backend_put_file (rs_dir s) (blob_key s digest) p))
     (seqE (tried (file_remove p))
           (ret ((status 201)\<lparr>rp_digest := digest, rp_location := ''/v2/'' @ repo @ ''/blobs/'' @ digest\<rparr>)))))))))))"

definition handle_blob_upload ::
  "(string \<Rightarrow> string) \<Rightarrow> (string \<Rightarrow> string) \<Rightarrow> registry_settings \<Rightarrow> reg_cred \<Rightarrow> reg_request \<Rightarrow> string \<Rightarrow> reg_response reg_handler" where
  "handle_blob_upload sha pe s c q path =
     (case split_registry_upload_path path of
        None \<Rightarrow> throw (status 404)
      | Some (repo, uid) \<Rightarrow>
          if \<not> validate_repository_name repo \<or> rq_method q \<noteq> ''POST'' \<and> uid = [] then throw (status 404)
          else seqE (requires (has_scope (rc_scopes c) ''registry.push'') 403)
           (if rq_method q = ''POST'' then start_upload pe s q repo
            else let p = upload_path s uid in
              if rq_method q = ''GET'' then bindE (upload_size p) (\<lambda>n. ret (upload_progress pe 204 repo uid n))
              else seqE (or_status 500 (reg_write id))
                (if rq_method q = ''PATCH'' then
                   seqE (or_status 500 (file_open_append p))
                  (seqE (or_status 500 (copy_body p q))
                  (bindE (upload_size p) (\<lambda>n. ret (upload_progress pe 202 repo uid n))))
                 else if rq_method q = ''PUT'' then finish_upload sha s q repo p
                 else if rq_method q = ''DELETE'' then seqE (tried (file_remove p)) (ret (status 204))
                 else ret (status 405))))"

section \<open>The endpoint\<close>

definition route ::
  "(string \<Rightarrow> string) \<Rightarrow> (string \<Rightarrow> string) \<Rightarrow> string \<Rightarrow> registry_settings \<Rightarrow> reg_cred \<Rightarrow> reg_request \<Rightarrow> reg_response reg_handler" where
  "route sha pe data_dir s c q =
     (let path = v2_path q in
      if rq_path q = ''/v2/'' \<or> rq_path q = ''/v2'' then ret (status 200)
      else if path = ''_catalog'' then handle_catalog q
      else if has_suffix path ''/tags/list'' then handle_tags_list q (take (length path - length ''/tags/list'') path)
      else if contains path ''/blobs/uploads/'' then handle_blob_upload sha pe s c q path
      else if contains path ''/blobs/'' then handle_blob s q path
      else if contains path ''/manifests/'' then handle_manifest sha data_dir s c q path
      else throw (status 404))"

definition serve_registry ::
  "(string \<Rightarrow> string) \<Rightarrow> (string \<Rightarrow> string) \<Rightarrow> (string \<Rightarrow> string) \<Rightarrow> string \<Rightarrow> reg_request \<Rightarrow> registry \<Rightarrow> reg_response \<times> registry" where
  "serve_registry ul sha pe data_dir q = respond
     (bindE (or_status 404 (registry_settings_now data_dir)) (\<lambda>s.
      seqE (requires (rs_enabled s) 404)
     (bindE (authenticate ul sha s q) (\<lambda>c. route sha pe data_dir s c q))))"

end
