(* ===== verification/RegistryPaths.thy ===== *)
theory RegistryPaths
  imports Registry
begin

text \<open>
  Where the registry keeps its files: blobs, manifests and uploads have disjoint paths, and different
  digests different ones, for settings whose object prefix is a plain path outside \<^verbatim>\<open>uploads\<close>.
\<close>

definition settings_ok :: "registry_settings \<Rightarrow> bool" where
  "settings_ok s \<longleftrightarrow> clean_root (rs_dir s) \<and> list_all graphic (rs_prefix s) \<and> list_all plain_comp (split_byte slash (rs_prefix s)) \<and>
     hd (split_byte slash (rs_prefix s)) \<noteq> ''uploads''"

definition hex_part :: "string \<Rightarrow> string" where
  "hex_part d = trim_prefix d ''sha256:''"

definition object_path :: "registry_settings \<Rightarrow> string \<Rightarrow> string" where
  "object_path s rest = rs_dir s @ slash # rs_prefix s @ slash # rest"

definition blob_path :: "registry_settings \<Rightarrow> string \<Rightarrow> string" where
  "blob_path s d = object_path s (''blobs/sha256/'' @ take 2 (hex_part d) @ slash # hex_part d)"

definition manifest_path :: "registry_settings \<Rightarrow> string \<Rightarrow> string" where
  "manifest_path s d = object_path s (''manifests/'' @ hex_part d @ ''.json'')"

lemma digest_hex_graphic: "digest_hex c \<Longrightarrow> graphic c \<and> c \<noteq> slash \<and> c \<noteq> CHR ''.''"
  by (auto simp: digest_hex_def graphic_def slash_def less_eq_char_def)

lemma trim_prefix_append [simp]: "trim_prefix (p @ s) p = s"
  by (simp add: trim_prefix_def)

lemma hex_part_ok:
  assumes "digest_ok d"
  shows "length (hex_part d) = 64" "list_all digest_hex (hex_part d)" "d = ''sha256:'' @ hex_part d"
proof -
  obtain h where h: "d = ''sha256:'' @ h" "length h = 64" "list_all digest_hex h" using assms unfolding digest_ok_iff by blast
  moreover have "hex_part d = h" unfolding hex_part_def h(1) by (rule trim_prefix_append)
  ultimately show "length (hex_part d) = 64" "list_all digest_hex (hex_part d)" "d = ''sha256:'' @ hex_part d" by simp_all
qed

lemma hex_part_chars:
  assumes "digest_ok d" "c \<in> set (hex_part d)"
  shows "graphic c" "c \<noteq> slash" "c \<noteq> CHR ''.''"
  using hex_part_ok(2) [OF assms(1)] assms(2) digest_hex_graphic by (auto simp: list_all_iff)

lemma plain_hex: "digest_ok d \<Longrightarrow> plain_comp (hex_part d @ tail) \<or> slash \<in> set tail"
  using hex_part_ok(1) [of d] hex_part_chars [of d] by (cases "hex_part d") (auto simp: plain_comp_def)

lemma plain_hex_prefix: "digest_ok d \<Longrightarrow> plain_comp (take 2 (hex_part d))"
  using hex_part_ok(1) [of d] hex_part_chars [of d]
  by (cases "hex_part d" rule: remdups_adj.cases) (auto simp: plain_comp_def)

lemma prefix_ends:
  assumes "settings_ok s"
  shows "trim_slashes (rs_prefix s) = rs_prefix s" "rs_prefix s \<noteq> []"
  using plain_ends [of "rs_prefix s"] assms by (auto simp: settings_ok_def trim_slashes_plain)

lemma object_key:
  assumes "settings_ok s" "hd rest \<noteq> slash" "last rest \<noteq> slash"
  shows "registry_object_key s rest = rs_prefix s @ slash # rest"
  using prefix_ends [OF assms(1)] assms(2,3) by (simp add: registry_object_key_def trim_slashes_plain slash_def)

lemma object_safe_path:
  assumes "settings_ok s" "list_all plain_comp (split_byte slash rest)" "list_all graphic rest"
  shows "safe_path (rs_dir s) (rs_prefix s @ slash # rest) = Some (object_path s rest)"
proof -
  have "list_all plain_comp (split_byte slash (rs_prefix s @ slash # rest))" "list_all graphic (rs_prefix s @ slash # rest)"
    using assms by (auto simp: settings_ok_def split_byte_join) (simp add: graphic_def slash_def)
  then show ?thesis using assms(1) by (simp add: safe_path_below settings_ok_def object_path_def)
qed

lemma blob_rest:
  assumes "digest_ok d"
  defines "rest \<equiv> ''blobs/sha256/'' @ take 2 (hex_part d) @ slash # hex_part d"
  shows "list_all plain_comp (split_byte slash rest)" "list_all graphic rest" "hd rest \<noteq> slash" "last rest \<noteq> slash"
proof -
  have rest: "rest = ''blobs'' @ slash # ''sha256'' @ slash # take 2 (hex_part d) @ slash # hex_part d"
    by (simp add: rest_def slash_def)
  have h: "plain_comp (hex_part d)" using plain_hex [OF assms(1), of "[]"] by simp
  show "list_all plain_comp (split_byte slash rest)"
    unfolding rest split_byte_join using h plain_hex_prefix [OF assms(1)]
    by (simp add: split_byte_no_sep plain_comp_def slash_def)
  show "list_all graphic rest"
    using hex_part_chars(1) [OF assms(1)] by (auto simp: rest_def list_all_iff graphic_def slash_def dest: in_set_takeD)
  show "hd rest \<noteq> slash" by (simp add: rest_def slash_def)
  show "last rest \<noteq> slash"
    using hex_part_ok(1) [OF assms(1)] hex_part_chars(2) [OF assms(1), of "last (hex_part d)"] by (auto simp: rest_def)
qed

lemma manifest_rest:
  assumes "digest_ok d"
  defines "rest \<equiv> ''manifests/'' @ hex_part d @ ''.json''"
  shows "list_all plain_comp (split_byte slash rest)" "list_all graphic rest" "hd rest \<noteq> slash" "last rest \<noteq> slash"
proof -
  have rest: "rest = ''manifests'' @ slash # hex_part d @ ''.json''" by (simp add: rest_def slash_def)
  have h: "plain_comp (hex_part d @ ''.json'')" using plain_hex [OF assms(1), of "''.json''"] by (simp add: slash_def)
  show "list_all plain_comp (split_byte slash rest)"
    unfolding rest split_byte_join using h by (simp add: split_byte_no_sep plain_comp_def slash_def)
  show "list_all graphic rest"
    using hex_part_chars(1) [OF assms(1)] by (auto simp: rest_def list_all_iff graphic_def slash_def)
qed (simp_all add: rest_def slash_def)

lemma blob_safe_path:
  assumes "settings_ok s" "digest_ok d"
  shows "safe_path (rs_dir s) (blob_key s d) = Some (blob_path s d)"
  unfolding blob_key_def Let_def blob_path_def hex_part_def [symmetric]
  using object_safe_path [OF assms(1) blob_rest(1,2) [OF assms(2)]] object_key [OF assms(1) blob_rest(3,4) [OF assms(2)]]
  by (simp add: slash_def)

lemma manifest_safe_path:
  assumes "settings_ok s" "digest_ok d"
  shows "safe_path (rs_dir s) (manifest_key s d) = Some (manifest_path s d)"
  unfolding manifest_key_def manifest_path_def hex_part_def [symmetric]
  using object_safe_path [OF assms(1) manifest_rest(1,2) [OF assms(2)]] object_key [OF assms(1) manifest_rest(3,4) [OF assms(2)]]
  by simp

lemma blob_path_inj:
  assumes "digest_ok d" "digest_ok e" "blob_path s d = blob_path s e"
  shows "d = e"
proof -
  have "take 2 (hex_part d) @ slash # hex_part d = take 2 (hex_part e) @ slash # hex_part e"
    using assms(3) by (simp add: blob_path_def object_path_def)
  then have "drop 3 (take 2 (hex_part d) @ slash # hex_part d) = drop 3 (take 2 (hex_part e) @ slash # hex_part e)" by simp
  then have "hex_part d = hex_part e" using hex_part_ok(1) [OF assms(1)] hex_part_ok(1) [OF assms(2)] by simp
  then show ?thesis using hex_part_ok(3) [OF assms(1)] hex_part_ok(3) [OF assms(2)] by simp
qed

lemma manifest_path_inj:
  assumes "digest_ok d" "digest_ok e" "manifest_path s d = manifest_path s e"
  shows "d = e"
  using assms(3) hex_part_ok(3) [OF assms(1)] hex_part_ok(3) [OF assms(2)] by (simp add: manifest_path_def object_path_def)

lemma manifest_not_blob: "manifest_path s d \<noteq> blob_path s e"
  by (simp add: manifest_path_def blob_path_def object_path_def)

section \<open>Uploads\<close>

definition upload_area :: "registry_settings \<Rightarrow> string \<Rightarrow> bool" where
  "upload_area s p \<longleftrightarrow> p = rs_dir s \<or> p = rs_dir s @ ''/uploads'' \<or> has_prefix p (rs_dir s @ ''/uploads/'')"

lemma object_not_upload:
  assumes "settings_ok s"
  shows "\<not> upload_area s (object_path s rest)"
proof
  have hd_eq: "hd (split_byte slash (rs_prefix s @ slash # rest)) = hd (split_byte slash (rs_prefix s))"
    by (simp add: split_byte_join)
  assume "upload_area s (object_path s rest)"
  then consider "rs_prefix s @ slash # rest = ''uploads''" | x where "rs_prefix s @ slash # rest = ''uploads'' @ slash # x"
    by (auto simp: upload_area_def object_path_def has_prefix_iff slash_def)
  then have "hd (split_byte slash (rs_prefix s @ slash # rest)) = ''uploads''"
    by cases (simp_all add: split_byte_join split_byte_no_sep slash_def)
  then show False using hd_eq assms by (simp add: settings_ok_def)
qed

lemma blob_not_upload: "settings_ok s \<Longrightarrow> \<not> upload_area s (blob_path s d)"
  unfolding blob_path_def by (rule object_not_upload)

lemma manifest_not_upload: "settings_ok s \<Longrightarrow> \<not> upload_area s (manifest_path s d)"
  unfolding manifest_path_def by (rule object_not_upload)

lemma path_base_cases: "slash \<notin> set (path_base p) \<or> path_base p = ''/''"
proof -
  have "c \<noteq> slash" if "c \<in> set (rev (takeWhile (\<lambda>c. c \<noteq> slash) xs))" for c xs
    using that by (auto dest: set_takeWhileD)
  then show ?thesis by (auto simp: path_base_def Let_def slash_def)
qed

lemma upload_stack:
  "slash \<notin> set b \<or> b = ''/'' \<Longrightarrow> foldl (clean_step True) (''uploads'' # st) (split_byte slash b) =
    (if b = [] \<or> b = ''.'' \<or> b = ''/'' then ''uploads'' # st else if b = ''..'' then st else b # ''uploads'' # st)"
  by (cases "b = ''/''") (simp_all add: split_byte_no_sep slash_def)

lemma clean_root_join:
  assumes "clean_root root" "is_abs q" "clean_comps q = clean_comps root @ xs"
  shows "path_clean q = root @ concat (map (\<lambda>c. slash # c) xs)"
proof -
  have join: "slash # join_with [slash] (c # cs) = concat (map (\<lambda>c. slash # c) (c # cs))" for c cs
    by (induction cs arbitrary: c) simp_all
  note root = clean_root_text [OF assms(1)]
  have "path_clean q = slash # join_with [slash] (clean_comps root @ xs)" using assms(2,3) by (simp add: path_clean_def)
  also have "\<dots> = concat (map (\<lambda>c. slash # c) (clean_comps root @ xs))" using root join by (cases "clean_comps root @ xs") simp_all
  also have "\<dots> = root @ concat (map (\<lambda>c. slash # c) xs)" using root join by (cases "clean_comps root") simp_all
  finally show ?thesis .
qed

lemma upload_path_area:
  assumes "settings_ok s"
  shows "upload_area s (upload_path s uid)"
proof -
  have root: "is_abs (rs_dir s)" "clean_root (rs_dir s)" using assms by (simp_all add: settings_ok_def clean_root_def)
  let ?b = "path_base uid" and ?q = "join_with [slash] [rs_dir s, ''uploads'', path_base uid]"
  have abs: "is_abs ?q" using root(1) by (auto simp: is_abs_def has_prefix_iff)
  have path: "upload_path s uid = path_clean ?q"
    using root(1) by (auto simp: upload_path_def path_join.simps is_abs_def has_prefix_def)
  have "clean_comps ?q = rev (foldl (clean_step True) (''uploads'' # rev (clean_comps (rs_dir s))) (split_byte slash ?b))"
    using abs root(1) by (simp add: clean_comps_def split_byte_join split_byte_no_sep slash_def)
  then have comps: "clean_comps ?q = clean_comps (rs_dir s) @
      (if ?b = [] \<or> ?b = ''.'' \<or> ?b = ''/'' then [''uploads''] else if ?b = ''..'' then [] else [''uploads'', ?b])"
    by (simp add: upload_stack [OF path_base_cases])
  show ?thesis
    unfolding path clean_root_join [OF root(2) abs comps] by (auto simp: upload_area_def has_prefix_iff slash_def)
qed

lemma uploads_dir_text: "settings_ok s \<Longrightarrow> uploads_dir s = rs_dir s @ ''/uploads''"
  using path_below [of "rs_dir s" "''uploads''"]
  by (auto simp: settings_ok_def uploads_dir_def path_join.simps clean_root_def is_abs_def has_prefix_def plain_comp_def
      split_byte_no_sep slash_def)

lemma below_uploads_area: "settings_ok s \<Longrightarrow> below_dir (uploads_dir s) p \<Longrightarrow> upload_area s p"
  by (simp add: below_dir_def uploads_dir_text upload_area_def)

end
