(* ===== verification/RegistryLaws.thy ===== *)
theory RegistryLaws
  imports RegistryPaths
begin

text \<open>
  What every operation of the Docker registry keeps.  The locale \<open>registry_invariant\<close> states, as laws on the
  stored files and the manifest rows, what an invariant has to survive: the writing of uploads, the commit of
  a verified blob, the push of a manifest whose blobs are stored, deletions, and the sweep of unreferenced
  blobs.  Inside it every request, deletion and collection is shown to keep the invariant.
\<close>

section \<open>Runs\<close>

text \<open>An operation together with the schedule of failures while it runs.\<close>

datatype reg_op = RegRequest reg_request | RegDeleteTag string string | RegDeleteManifest string string | RegGc

definition reg_step ::
  "(string \<Rightarrow> string) \<Rightarrow> (string \<Rightarrow> string) \<Rightarrow> (string \<Rightarrow> string) \<Rightarrow> string \<Rightarrow> (nat \<Rightarrow> bool) \<times> reg_op \<Rightarrow> registry \<Rightarrow> registry" where
  "reg_step ul sha pe dd = (\<lambda>(fault, op) w.
     let w0 = w\<lparr>rg_fault := fault\<rparr> in
     case op of
       RegRequest q \<Rightarrow> snd (serve_registry ul sha pe dd q w0)
     | RegDeleteTag repo tag \<Rightarrow> snd (delete_registry_tag repo tag w0)
     | RegDeleteManifest repo digest \<Rightarrow> snd (delete_registry_manifest dd repo digest w0)
     | RegGc \<Rightarrow> snd (run_registry_gc dd w0))"

definition config_of :: "string \<Rightarrow> registry \<Rightarrow> registry_settings" where
  "config_of dd w = normalize_registry_settings dd (normalize_settings (rg_config w))"

section \<open>Programs that leave the store alone\<close>

definition same_store :: "registry \<Rightarrow> registry \<Rightarrow> bool" where
  "same_store w w' \<longleftrightarrow> rg_config w' = rg_config w \<and> rg_files w' = rg_files w \<and> rg_manifests w' = rg_manifests w \<and> rg_fault w' = rg_fault w \<and>
     rg_tags w' = rg_tags w \<and> rg_repos w' = rg_repos w \<and> rg_creds w' = rg_creds w \<and> rg_random w' = rg_random w"

interpretation same: frame_relation same_store
  by unfold_locales (auto simp: same_store_def)

lemma same_read: "keeps same_store (reg_read q)"
  by (simp add: keeps_def reg_read_def reg_call_def Let_def same_store_def)

lemma same_write_id: "keeps same_store (reg_write id)"
  by (simp add: keeps_def reg_write_def reg_call_def Let_def same_store_def)

lemma same_now: "keeps same_store reg_text_now"
  unfolding reg_text_now_def by (rule same.keeps_get)

lemma same_limiter: "keeps same_store (limiter_failure ul u ip t)" "keeps same_store (modify (\<lambda>w. w\<lparr>rg_limiter := f w\<rparr>))"
  by (simp_all add: keeps_def limiter_failure_def modify_def same_store_def)

lemma same_or_status: "keeps same_store m \<Longrightarrow> keeps same_store (or_status n m)"
  unfolding keeps_def or_status_def by (auto split: prod.splits sum.splits) (metis snd_conv)+

lemma same_tried: "keeps same_store m \<Longrightarrow> keeps same_store (tried m)"
  unfolding tried_def by (rule same.keeps_attempt)

lemma same_requires: "keeps same_store (requires b n)"
  by (simp add: requires_def same.keeps_rules)

lemmas same_rules = same.keeps_rules same_read same_write_id same_now same_limiter same_or_status same_tried same_requires

lemma same_path: "(\<And>p. keeps same_store (f p)) \<Longrightarrow> keeps same_store (with_path root key f)"
  unfolding with_path_def by (auto intro: same_rules split: option.split)

lemma same_reads:
  "keeps same_store (registry_settings_now dd)" "keeps same_store (credential_by_name n)" "keeps same_store list_repositories"
  "keeps same_store (list_tags repo)" "keeps same_store list_repository_names" "keeps same_store active_manifests"
  "keeps same_store (file_stat p)" "keeps same_store (file_read p)" "keeps same_store random_id" "keeps same_store (resolve_manifest repo ref)"
  by (auto simp: registry_settings_now_def credential_by_name_def list_repositories_def list_tags_def list_repository_names_def
      active_manifests_def file_stat_def file_read_def random_id_def resolve_manifest_def manifest_by_digest_def intro!: same_rules)

lemma same_backend:
  "keeps same_store (backend_head root key)" "keeps same_store (backend_open root key rng)" "keeps same_store (backend_usage root)"
  "keeps same_store (backend_list root s)"
  by (auto simp: backend_head_def backend_open_def backend_usage_def backend_list_def intro!: same_rules same_path same_reads
      split: option.split)

lemma same_checks:
  "keeps same_store (check_quota s n)" "keeps same_store (enforce_limits s repo tag)" "keeps same_store (blob_present s d)"
  "keeps same_store (upload_size p)"
  by (auto simp: check_quota_def enforce_limits_def blob_present_def upload_size_def intro!: same_rules same_backend same_reads
      split: sum.split)

lemma same_first_missing: "keeps same_store (first_missing s ds)"
  by (induction ds) (auto intro!: same_rules same_checks)

lemma same_missing: "keeps same_store (missing_manifest_blob s body)"
  unfolding missing_manifest_blob_def by (auto intro!: same_rules same_first_missing same_checks split: option.split)

lemma same_authenticate: "keeps same_store (authenticate ul sha s q)"
  unfolding authenticate_def Let_def by (auto intro!: same_rules same_reads split: option.split sum.split prod.split)

lemma same_referenced: "keeps same_store (manifest_referenced_blobs s m)"
  unfolding manifest_referenced_blobs_def Let_def
  by (auto intro!: same_rules same_backend split: option.split sum.split prod.split)

lemma same_collect: "keeps same_store (collect_referenced s ms)"
  by (induction ms) (auto intro!: same_rules same_referenced)

section \<open>Handlers that only read\<close>

lemma same_catalog: "keeps same_store (handle_catalog q)"
  unfolding handle_catalog_def by (intro same_rules same_reads)

lemma same_tags_list: "keeps same_store (handle_tags_list q repo)"
  unfolding handle_tags_list_def by (intro same_rules same_reads)

lemma same_pull: "keeps same_store (pull_manifest s q repo ref)"
  unfolding pull_manifest_def Let_def by (auto intro!: same_rules same_reads same_backend split: prod.split)

lemma same_get_blob: "keeps same_store (get_blob s q d)"
  unfolding get_blob_def Let_def by (auto intro!: same_rules same_reads same_backend split: prod.split option.split sum.split)

lemma same_blob: "keeps same_store (handle_blob s q path)"
  unfolding handle_blob_def by (auto intro!: same_rules same_get_blob same_backend split: prod.split option.split)

lemma same_start_upload: "keeps same_store (start_upload pe s q repo)"
  unfolding start_upload_def by (auto intro!: same_rules same_reads same_backend split: sum.split)

text \<open>Statements of a transaction leave the files alone.\<close>

definition same_files :: "registry \<Rightarrow> registry \<Rightarrow> bool" where
  "same_files w w' \<longleftrightarrow> rg_config w' = rg_config w \<and> rg_files w' = rg_files w"

interpretation sf: frame_relation same_files
  by unfold_locales (auto simp: same_files_def)

lemma files_call: "(\<And>w. same_files w (snd (op w))) \<Longrightarrow> keeps same_files (reg_call op)"
  by (auto simp: keeps_def reg_call_def Let_def same_files_def)

lemma files_write: "(\<And>w. rg_files (f w) = rg_files w \<and> rg_config (f w) = rg_config w) \<Longrightarrow> keeps same_files (reg_write f)"
  unfolding reg_write_def by (rule files_call) (simp add: same_files_def)

lemma files_read: "keeps same_files (reg_read q)"
  unfolding reg_read_def by (rule files_call) (simp add: same_files_def)

lemma files_random: "keeps same_files random_id"
  unfolding random_id_def by (rule files_read)

lemma triple_get: "(\<And>w. P w \<Longrightarrow> Q (f w) w) \<Longrightarrow> triple P (get_state f) Q E"
  by (simp add: triple_def get_state_def)

lemma tx_cases:
  assumes "reg_tx m w = (r, w')" "keeps same_files m"
  obtains e where "r = Inl e" "same_files w w'" "rg_manifests w' = rg_manifests w"
  | x w1 w2 where "r = Inr x" "reg_write id w = (Inr (), w1)" "m w1 = (Inr x, w2)" "reg_write id w2 = (Inr (), w')"
proof -
  have w: "keeps same_files (bindE (reg_write id) (\<lambda>_. bindE m (\<lambda>x. seqE (reg_write id) (ret x))))"
    by (intro sf.keeps_rules files_write assms(2)) simp_all
  show ?thesis
  proof (cases r)
    case (Inl e)
    then have "rg_manifests w' = rg_manifests w" using assms(1) by (auto simp: reg_tx_def split: prod.splits sum.splits)
    moreover have "same_files w w'"
      using assms(1) Inl keepsD [OF w] by (fastforce simp: reg_tx_def same_files_def split: prod.splits sum.splits)
    ultimately show ?thesis using that(1) Inl by blast
  next
    case (Inr x)
    then have "bindE (reg_write id) (\<lambda>_. bindE m (\<lambda>x. seqE (reg_write id) (ret x))) w = (Inr x, w')"
      using assms(1) by (auto simp: reg_tx_def split: prod.splits sum.splits)
    then show ?thesis using that(2) Inr by (auto elim!: bind_InrE seq_InrE dest!: ret_InrD)
  qed
qed

text \<open>No program of the registry touches its schedule of failures.\<close>

definition same_fault :: "registry \<Rightarrow> registry \<Rightarrow> bool" where
  "same_fault w w' \<longleftrightarrow> rg_fault w' = rg_fault w"

interpretation fa: frame_relation same_fault
  by unfold_locales (auto simp: same_fault_def)

lemma fault_call: "(\<And>w. same_fault w (snd (op w))) \<Longrightarrow> keeps same_fault (reg_call op)"
  by (auto simp: keeps_def reg_call_def Let_def same_fault_def)

lemma fault_each: "(\<And>x. keeps same_fault (f x)) \<Longrightarrow> keeps same_fault (ignore_each f xs)"
  by (induction xs) (auto intro!: fa.keeps_rules)

lemma gc_faults:
  "keeps same_fault (registry_settings_now dd)" "keeps same_fault purge_deleted_manifests"
  "keeps same_fault (ignore_each (backend_delete root) ps)"
  by (auto simp: registry_settings_now_def purge_deleted_manifests_def backend_delete_def with_path_def file_remove_def reg_read_def
      reg_write_def same_fault_def intro!: fault_each fa.keeps_rules fault_call split: option.split)

section \<open>The interface of an invariant\<close>

definition stored_path :: "registry_settings \<Rightarrow> string \<Rightarrow> bool" where
  "stored_path s p \<longleftrightarrow> (\<exists>d. digest_ok d \<and> (p = blob_path s d \<or> p = manifest_path s d))"

definition pushed_blobs :: "string \<Rightarrow> string list" where
  "pushed_blobs body = (case decode_doc push_fields body of None \<Rightarrow> [] | Some d \<Rightarrow> filter digest_ok (md_config d # slice_items (md_layers d)))"

type_synonym reg_files = "(string \<times> reg_file) list"

definition blobs_stored :: "registry_settings \<Rightarrow> reg_files \<Rightarrow> string list \<Rightarrow> bool" where
  "blobs_stored s fs ds \<longleftrightarrow> (\<forall>d \<in> set ds. map_of fs (blob_path s d) \<noteq> None)"

text \<open>What the collector finds a manifest to refer to when every read succeeds.\<close>

definition doc_refs :: "string \<Rightarrow> string list" where
  "doc_refs data = (case decode_doc gc_fields (take max_manifest_bytes data) of None \<Rightarrow> [] | Some d \<Rightarrow> doc_digests d)"

definition manifest_refs :: "registry_settings \<Rightarrow> reg_files \<Rightarrow> reg_manifest \<Rightarrow> string list" where
  "manifest_refs s fs m =
     (if digest_ok (rm_digest m) then [rm_digest m] else []) @
     (if rm_path m = [] then []
      else case safe_path (rs_dir s) (rm_path m) of
        None \<Rightarrow> [] | Some p \<Rightarrow> (case map_of fs p of None \<Rightarrow> [] | Some f \<Rightarrow> doc_refs (rf_data f)))"

definition unreferenced :: "registry_settings \<Rightarrow> reg_files \<Rightarrow> reg_manifest list \<Rightarrow> string \<Rightarrow> bool" where
  "unreferenced s fs ms d \<longleftrightarrow> (\<forall>m \<in> set ms. rm_deleted m = [] \<longrightarrow> d \<notin> set (manifest_refs s fs m))"

definition manifest_row_ok :: "registry_settings \<Rightarrow> reg_manifest \<Rightarrow> bool" where
  "manifest_row_ok s m \<longleftrightarrow> digest_ok (rm_digest m) \<and> rm_path m = manifest_key s (rm_digest m)"

lemma map_of_drop [simp]: "map_of (drop_file p fs) q = (if q = p then None else map_of fs q)"
  by (induction fs) (auto simp: drop_file_def)

lemma map_of_put [simp]: "map_of (put_file p f fs) q = (if q = p then Some f else map_of fs q)"
  by (auto simp: put_file_def map_add_def split: option.split)

lemma same_triple: "keeps same_store m \<Longrightarrow> (\<And>w w'. same_store w w' \<Longrightarrow> P w \<Longrightarrow> P w') \<Longrightarrow> triple P m (\<lambda>_. P) (\<lambda>_. P)"
  by (rule tripleI) (blast dest: keepsD)+

lemma triple_and: "triple P m Q E \<Longrightarrow> triple P' m Q' E' \<Longrightarrow> triple (\<lambda>w. P w \<and> P' w) m (\<lambda>x w. Q x w \<and> Q' x w) (\<lambda>e w. E e w \<and> E' e w)"
  by (fastforce simp: triple_def split: prod.splits sum.splits)

lemma safe_pure: "(P \<Longrightarrow> triple K m Q E) \<Longrightarrow> triple (\<lambda>w. P \<and> K w) m Q E"
  by (auto simp: triple_def)

lemma bind_attempt: "triple P m (\<lambda>_. R) (\<lambda>_. R) \<Longrightarrow> (\<And>r. triple R (k r) Q E) \<Longrightarrow> triple P (bindE (attempt m) k) Q E"
  by (rule triple_bindE [OF triple_attempt])

lemma bind_ret: "triple P m (\<lambda>_. R) E \<Longrightarrow> triple P (bindE m (\<lambda>n. ret (f n))) (\<lambda>_. R) E"
  by (rule triple_bindE) (auto intro: triple_ret)

lemma rfc3339_nonempty: "format_rfc3339nano t \<noteq> []"
  by (simp add: format_rfc3339nano_def Let_def)

locale registry_invariant =
  fixes s :: registry_settings and sha :: "string \<Rightarrow> string" and lenient :: bool
    and J :: "reg_files \<Rightarrow> reg_manifest list \<Rightarrow> bool"
  assumes settings: "settings_ok s"
    and sha_digest_ok: "digest_ok (sha_digest sha x)"
    and put_other: "J fs ms \<Longrightarrow> \<not> stored_path s p \<Longrightarrow> J (put_file p f fs) ms"
    and drop_other: "J fs ms \<Longrightarrow> \<forall>d. p \<noteq> blob_path s d \<Longrightarrow> J (drop_file p fs) ms"
    and put_blob: "J fs ms \<Longrightarrow> sha_digest sha (rf_data f) = d \<Longrightarrow> J (put_file (blob_path s d) f fs) ms"
    and put_manifest: "J fs ms \<Longrightarrow> length body \<le> max_manifest_bytes \<Longrightarrow> blobs_stored s fs (pushed_blobs body) \<Longrightarrow>
      rf_data f = take k body \<Longrightarrow> J (put_file (manifest_path s (sha_digest sha body)) f fs) ms"
    and upsert_row: "J fs ms \<Longrightarrow> manifest_row_ok s m \<Longrightarrow> rm_digest m = sha_digest sha body \<Longrightarrow> length body \<le> max_manifest_bytes \<Longrightarrow>
      blobs_stored s fs (pushed_blobs body) \<Longrightarrow> map_option rf_data (map_of fs (manifest_path s (rm_digest m))) = Some body \<Longrightarrow>
      J fs (upsert_manifest_row m ms)"
    and delete_rows: "J fs ms \<Longrightarrow> t \<noteq> [] \<Longrightarrow> J fs (map (\<lambda>m. if P m then m\<lparr>rm_deleted := t\<rparr> else m) ms)"
    and purge_rows: "J fs ms \<Longrightarrow> J fs (filter (\<lambda>m. rm_deleted m = []) ms)"
    and rows: "J fs ms \<Longrightarrow> m \<in> set ms \<Longrightarrow> manifest_row_ok s m"
    and sweep_blob: "J fs ms \<Longrightarrow> digest_ok d \<Longrightarrow> lenient \<or> unreferenced s fs ms d \<Longrightarrow> J (drop_file (blob_path s d) fs) ms"
begin

definition holds :: "string \<Rightarrow> registry \<Rightarrow> bool" where
  "holds dd w \<longleftrightarrow> config_of dd w = s \<and> J (rg_files w) (rg_manifests w)"

abbreviation safe_prog :: "string \<Rightarrow> (registry, 'e, 'a) prog \<Rightarrow> bool" where
  "safe_prog dd m \<equiv> triple (holds dd) m (\<lambda>_. holds dd) (\<lambda>_. holds dd)"

lemma same_holds: "same_store w w' \<Longrightarrow> holds dd w \<Longrightarrow> holds dd w'"
  by (simp add: same_store_def holds_def config_of_def)

lemma safe_same: "keeps same_store m \<Longrightarrow> safe_prog dd m"
  by (rule same_triple) (auto intro: same_holds)

lemma holds_calls [simp]: "holds dd (w\<lparr>rg_calls := n\<rparr>) = holds dd w"
  by (simp add: holds_def config_of_def)

lemma safe_call:
  assumes "\<And>w. holds dd w \<Longrightarrow> holds dd (snd (op w))"
  shows "safe_prog dd (reg_call op)"
proof -
  have "holds dd w'" if "holds dd w" "reg_call op w = (r, w')" for w r w'
    using that assms [of "w\<lparr>rg_calls := Suc (rg_calls w)\<rparr>"] by (auto simp: reg_call_def Let_def split: if_splits)
  then show ?thesis by (auto intro: tripleI)
qed

lemma safe_or_status: "triple P m (\<lambda>x. Q x) (\<lambda>_. E) \<Longrightarrow> triple P (or_status n m) (\<lambda>x. Q x) (\<lambda>_. E)"
  by (fastforce simp: triple_def or_status_def split: prod.splits sum.splits)

lemma safe_tried: "triple P m (\<lambda>_. Q) (\<lambda>_. Q) \<Longrightarrow> triple P (tried m) (\<lambda>_. Q) E"
  unfolding tried_def by (rule triple_attempt)

lemmas safe_rules = triple_bindE triple_seqE triple_ret triple_throw triple_whenE safe_or_status safe_tried triple_attempt

section \<open>Files\<close>

lemma safe_open_append: "\<not> stored_path s p \<Longrightarrow> safe_prog dd (file_open_append p)"
  unfolding file_open_append_def by (rule safe_call) (auto simp: holds_def config_of_def intro: put_other split: option.split)

lemma safe_append: "\<not> stored_path s p \<Longrightarrow> safe_prog dd (file_append p data)"
  by (rule tripleI) (auto simp: file_append_def Let_def holds_def config_of_def intro: put_other split: option.splits if_splits)

lemma safe_copy_body: "\<not> stored_path s p \<Longrightarrow> safe_prog dd (copy_body p q)"
  unfolding copy_body_def by (rule triple_seqE [OF safe_append]) (auto intro: safe_rules)

lemma safe_remove: "\<forall>d. p \<noteq> blob_path s d \<Longrightarrow> safe_prog dd (file_remove p)"
  unfolding file_remove_def by (rule safe_call) (auto simp: holds_def config_of_def intro: drop_other split: option.split)

lemma upload_not_stored: "upload_area s p \<Longrightarrow> \<not> stored_path s p" "upload_area s p \<Longrightarrow> p \<noteq> blob_path s d"
  using blob_not_upload [OF settings] manifest_not_upload [OF settings] by (auto simp: stored_path_def)

section \<open>Pushing a manifest\<close>

lemma blob_present_true:
  "triple P (blob_present s d) (\<lambda>ok w. ok \<longrightarrow> \<not> digest_ok d \<or> map_of (rg_files w) (blob_path s d) \<noteq> None) (\<lambda>_ _. True)"
proof (rule tripleI)
  fix w ok w' assume "blob_present s d w = (Inr ok, w')"
  then show "ok \<longrightarrow> \<not> digest_ok d \<or> map_of (rg_files w') (blob_path s d) \<noteq> None"
    using blob_safe_path [OF settings, of d]
    by (auto simp: blob_present_def ret_def bindE_def attempt_def backend_head_def with_path_def file_stat_def reg_read_def reg_call_def Let_def
        split: if_splits option.splits prod.splits sum.splits)
qed simp

definition stable :: "(registry \<Rightarrow> bool) \<Rightarrow> bool" where
  "stable P \<longleftrightarrow> (\<forall>w w'. same_store w w' \<longrightarrow> P w \<longrightarrow> P w')"

lemma stable_triple: "stable P \<Longrightarrow> keeps same_store m \<Longrightarrow> triple P m (\<lambda>_. P) (\<lambda>_. P)"
  by (rule same_triple) (auto simp: stable_def)

lemma stable_stored: "stable (\<lambda>w. map_of (rg_files w) p \<noteq> None)" "stable (\<lambda>w. blobs_stored s (rg_files w) ds)" "stable (holds dd)"
  using same_holds by (auto simp: stable_def same_store_def)

lemma stable_conj: "stable P \<Longrightarrow> stable Q \<Longrightarrow> stable (\<lambda>w. P w \<and> Q w)"
  by (auto simp: stable_def)

lemma first_missing_none:
  "triple (\<lambda>_. True) (first_missing s ds) (\<lambda>r w. r = [] \<longrightarrow> blobs_stored s (rg_files w) (filter digest_ok ds)) (\<lambda>_ _. True)"
proof (induction ds)
  case Nil
  then show ?case by (simp add: triple_def ret_def blobs_stored_def)
next
  case (Cons d ds)
  show ?case
  proof (cases "d = []")
    case True
    then show ?thesis using Cons by (simp add: digest_ok_iff)
  next
    case False
    have next_d: "triple (\<lambda>w. True \<and> (digest_ok d \<longrightarrow> map_of (rg_files w) (blob_path s d) \<noteq> None)) (first_missing s ds)
        (\<lambda>r w. (r = [] \<longrightarrow> blobs_stored s (rg_files w) (filter digest_ok ds)) \<and> (digest_ok d \<longrightarrow> map_of (rg_files w) (blob_path s d) \<noteq> None))
        (\<lambda>_ w. True \<and> (digest_ok d \<longrightarrow> map_of (rg_files w) (blob_path s d) \<noteq> None))"
      by (rule triple_and [OF Cons stable_triple [OF _ same_first_missing]]) (auto simp: stable_def same_store_def)
    show ?thesis
      using False by (auto intro!: triple_bindE [OF blob_present_true] triple_ret triple_conseq [OF next_d] simp: blobs_stored_def)
  qed
qed

lemma missing_none:
  "triple (holds dd) (missing_manifest_blob s body)
     (\<lambda>r w. holds dd w \<and> (r = [] \<longrightarrow> blobs_stored s (rg_files w) (pushed_blobs body))) (\<lambda>_. holds dd)"
proof -
  have "triple (\<lambda>_. True) (missing_manifest_blob s body) (\<lambda>r w. r = [] \<longrightarrow> blobs_stored s (rg_files w) (pushed_blobs body)) (\<lambda>_ _. True)"
  proof (cases "decode_doc push_fields body")
    case (Some d)
    show ?thesis unfolding missing_manifest_blob_def pushed_blobs_def Some option.case by (rule first_missing_none)
  qed (simp add: missing_manifest_blob_def pushed_blobs_def triple_ret blobs_stored_def)
  from triple_and [OF safe_same [OF same_missing] this] show ?thesis by (rule triple_conseq) auto
qed

definition ready :: "string \<Rightarrow> string \<Rightarrow> registry \<Rightarrow> bool" where
  "ready dd body w \<longleftrightarrow> holds dd w \<and> blobs_stored s (rg_files w) (pushed_blobs body) \<and> length body \<le> max_manifest_bytes"

definition written :: "string \<Rightarrow> string \<Rightarrow> registry \<Rightarrow> bool" where
  "written dd body w \<longleftrightarrow> ready dd body w \<and> map_option rf_data (map_of (rg_files w) (manifest_path s (sha_digest sha body))) = Some body"

lemma ready_put:
  assumes "ready dd body w" "rf_data f = take k body"
    and "rg_files w' = put_file (manifest_path s (sha_digest sha body)) f (rg_files w)" "rg_config w' = rg_config w" "rg_manifests w' = rg_manifests w"
  shows "ready dd body w'"
proof -
  have "manifest_path s d \<noteq> blob_path s e" for d e by (rule manifest_not_blob)
  then show ?thesis
    using assms put_manifest [of "rg_files w" "rg_manifests w" body f k]
    by (auto simp: ready_def holds_def config_of_def blobs_stored_def)
qed

lemma put_bytes_written:
  "triple (ready dd body) (backend_put_bytes (rs_dir s) (manifest_key s (sha_digest sha body)) body) (\<lambda>_. written dd body) (\<lambda>_. holds dd)"
proof -
  let ?p = "manifest_path s (sha_digest sha body)"
  define opened where "opened w \<longleftrightarrow> ready dd body w \<and> map_option rf_data (map_of (rg_files w) ?p) = Some []" for w
  have ready_calls: "ready dd body (w\<lparr>rg_calls := n\<rparr>) = ready dd body w" for w n by (simp add: ready_def)
  have first: "triple (ready dd body) (reg_call (\<lambda>w. (Inr (), w\<lparr>rg_files := put_file ?p \<lparr>rf_data = [], rf_mtime = reg_now w\<rparr> (rg_files w)\<rparr>)))
      (\<lambda>_. opened) (\<lambda>_. holds dd)"
  proof (rule tripleI)
    fix w x w' assume w: "ready dd body w"
      and "reg_call (\<lambda>w. (Inr (), w\<lparr>rg_files := put_file ?p \<lparr>rf_data = [], rf_mtime = reg_now w\<rparr> (rg_files w)\<rparr>)) w = (Inr x, w')"
    then show "opened w'" using ready_put [of dd body w _ 0 w'] by (auto simp: reg_call_def Let_def opened_def split: if_splits)
  qed (auto simp: reg_call_def Let_def ready_def split: if_splits)
  have second: "triple opened (file_append ?p body) (\<lambda>_. written dd body) (\<lambda>_. holds dd)"
  proof -
    have "(case r of Inl _ \<Rightarrow> holds dd w' | Inr _ \<Rightarrow> written dd body w')" if w: "opened w" and run: "file_append ?p body w = (r, w')" for w r w'
    proof -
      obtain f where f: "map_of (rg_files w) ?p = Some f" "rf_data f = []" using w by (auto simp: opened_def)
      then show ?thesis
        using w run ready_put [of dd body w _ "rg_short w (rg_calls w)" w'] ready_put [of dd body w _ "length body" w']
        by (auto simp: file_append_def Let_def opened_def written_def split: if_splits) (auto simp: ready_def)
    qed
    then show ?thesis by (fastforce intro: tripleI)
  qed
  have "triple (ready dd body) (reg_write id) (\<lambda>_. ready dd body) (\<lambda>_. holds dd)"
    by (rule tripleI) (auto simp: reg_write_def reg_call_def Let_def ready_def split: if_splits)
  then show ?thesis
    unfolding backend_put_bytes_def with_path_def manifest_safe_path [OF settings sha_digest_ok] option.case file_write_def
    by (rule triple_seqE [OF _ triple_seqE [OF first second]])
qed

lemma same_id: "reg_write id w = (r, w') \<Longrightarrow> same_store w w'"
  using keepsD [OF same_write_id] by blast

lemma safe_tx:
  assumes "keeps same_files m" "triple K m (\<lambda>_. holds dd) (\<lambda>_ _. True)" "\<And>w. K w \<Longrightarrow> holds dd w" "stable K"
  shows "triple K (reg_tx m) (\<lambda>_. holds dd) (\<lambda>_. holds dd)"
proof -
  have "holds dd w'" if K: "K w" and run: "reg_tx m w = (r, w')" for w r w'
    using run assms(1)
  proof (cases rule: tx_cases)
    case (1 e)
    then show ?thesis using assms(3) [OF K] by (simp add: holds_def config_of_def same_files_def)
  next
    case (2 x w1 w2)
    then have "K w1" using K same_id assms(4) unfolding stable_def by blast
    then have "holds dd w2" using triple_Inr [OF assms(2)] 2(3) by blast
    then show ?thesis using same_id [OF 2(4)] same_holds by blast
  qed
  then show ?thesis by (auto intro: tripleI)
qed

lemma safe_rows:
  "(\<And>w. rg_files (f w) = rg_files w \<and> rg_config (f w) = rg_config w \<and> rg_manifests (f w) = rg_manifests w) \<Longrightarrow> safe_prog dd (reg_write f)"
  unfolding reg_write_def by (rule safe_call) (simp add: holds_def config_of_def)

lemma stable_written: "stable (written dd body)"
  using same_holds by (auto simp: stable_def written_def ready_def same_store_def)

lemma upsert_safe:
  assumes "manifest_row_ok s m" "rm_digest m = sha_digest sha body"
  shows "triple (written dd body) (upsert_manifest m tag) (\<lambda>_. holds dd) (\<lambda>_. holds dd)"
proof -
  have row: "triple (written dd body) (reg_write (\<lambda>w. w\<lparr>rg_manifests := upsert_manifest_row (m\<lparr>rm_pushed_at := now\<rparr>) (rg_manifests w)\<rparr>))
      (\<lambda>_. holds dd) (\<lambda>_ _. True)" for now
  proof (rule tripleI)
    fix w x w' assume w: "written dd body w"
      and run: "reg_write (\<lambda>w. w\<lparr>rg_manifests := upsert_manifest_row (m\<lparr>rm_pushed_at := now\<rparr>) (rg_manifests w)\<rparr>) w = (Inr x, w')"
    have "J (rg_files w) (upsert_manifest_row (m\<lparr>rm_pushed_at := now\<rparr>) (rg_manifests w))"
      using w assms by (intro upsert_row [of _ _ _ body]) (auto simp: written_def ready_def holds_def manifest_row_ok_def)
    then show "holds dd w'"
      using run w by (auto simp: reg_write_def reg_call_def Let_def written_def ready_def holds_def config_of_def split: if_splits)
  qed simp
  have tags: "triple (holds dd) (whenE b (seqE (reg_write f) (reg_write g))) (\<lambda>_. holds dd) (\<lambda>_ _. True)"
    if "\<And>w. rg_files (f w) = rg_files w \<and> rg_config (f w) = rg_config w \<and> rg_manifests (f w) = rg_manifests w"
      "\<And>w. rg_files (g w) = rg_files w \<and> rg_config (g w) = rg_config w \<and> rg_manifests (g w) = rg_manifests w" for b f g
    by (rule triple_conseq [of "holds dd" _ "\<lambda>_. holds dd" "\<lambda>_. holds dd"])
      (auto intro!: safe_rules safe_rows that)
  have repo: "triple (written dd body) (reg_write (\<lambda>w. w\<lparr>rg_repos := f w\<rparr>)) (\<lambda>_. written dd body) (\<lambda>_ _. True)" for f
    by (rule tripleI) (auto simp: reg_write_def reg_call_def Let_def written_def ready_def holds_def config_of_def split: if_splits)
  have rid: "triple (written dd body) random_id (\<lambda>_. written dd body) (\<lambda>_ _. True)"
    by (rule triple_conseq [OF stable_triple [OF stable_written same_reads(9)]]) auto
  show ?thesis
    unfolding upsert_manifest_def reg_text_now_def
    apply (rule triple_bindE [OF triple_get], assumption)
    apply (rule safe_tx [OF _ _ _ stable_written])
      apply (intro sf.keeps_rules files_write files_random; simp add: count_tags_def)
     apply (rule triple_bindE [OF rid], rule triple_seqE [OF repo], rule triple_seqE [OF row], rule tags; simp add: count_tags_def)
    apply (simp add: written_def ready_def)
    done
qed

lemma safe_requires: "triple P (requires b n) (\<lambda>_ w. P w \<and> b) (\<lambda>_. P)"
  by (auto simp: requires_def triple_def ret_def throw_def)

lemma safe_push: "safe_prog dd (push_manifest sha s c q repo ref)"
proof -
  let ?body = "rq_body q"
  have ready: "stable (ready dd ?body)" using same_holds by (auto simp: stable_def ready_def same_store_def)
  have limits: "triple (ready dd ?body) (or_status n m) (\<lambda>_. ready dd ?body) (\<lambda>_. holds dd)"
    if "keeps same_store m" for n and m :: "unit reg_prog"
    by (rule triple_conseq [OF stable_triple [OF ready same_or_status [OF that]]]) (auto simp: ready_def)
  have missing: "triple (\<lambda>w. holds dd w \<and> rq_whole q \<and> length ?body \<le> max_manifest_bytes) (or_status 500 (missing_manifest_blob s ?body))
      (\<lambda>r w. holds dd w \<and> (r = [] \<longrightarrow> ready dd ?body w)) (\<lambda>_. holds dd)"
    by (rule safe_or_status, rule triple_conseq [OF triple_and [OF missing_none same_triple [OF same_missing]]]) (auto simp: ready_def)
  show ?thesis
    unfolding push_manifest_def Let_def
    apply (rule triple_seqE [OF safe_same [OF same_requires]])
    apply (rule triple_seqE [OF safe_requires])
    apply (rule triple_bindE [OF missing])
    apply (rule triple_seqE [OF triple_conseq [OF safe_requires]], assumption, assumption, simp)
    apply (rule triple_seqE, rule triple_conseq [OF limits [OF same_checks(2)]], simp, assumption, assumption)
    apply (rule triple_seqE [OF limits [OF same_checks(1)]])
    apply (rule triple_seqE [OF safe_or_status [OF put_bytes_written]])
    apply (rule triple_seqE [OF safe_tried [OF upsert_safe]])
      apply (simp_all add: manifest_row_ok_def sha_digest_ok triple_ret)
    done
qed

section \<open>Deletions\<close>

lemma safe_settings: "triple (holds dd) (registry_settings_now dd) (\<lambda>x w. x = s \<and> holds dd w) (\<lambda>_. holds dd)"
  by (auto simp: triple_def registry_settings_now_def reg_read_def reg_call_def Let_def holds_def config_of_def)

lemma holds_rows: "holds dd w \<Longrightarrow> m \<in> set (rg_manifests w) \<Longrightarrow> manifest_row_ok s m"
  unfolding holds_def using rows by blast

lemma resolve_row_ok: "triple (holds dd) (resolve_manifest repo ref) (\<lambda>m w. manifest_row_ok s m \<and> holds dd w) (\<lambda>_. holds dd)"
proof (rule triple_conseq [OF triple_and [OF safe_same [OF same_reads(10)]]])
  show "triple (holds dd) (resolve_manifest repo ref) (\<lambda>m w. manifest_row_ok s m) (\<lambda>_ _. True)"
    unfolding resolve_manifest_def
  proof (rule triple_bindE [where R = "\<lambda>_. holds dd"])
    show "triple (holds dd) (manifest_by_digest repo d) (\<lambda>m w. manifest_row_ok s m) (\<lambda>_ _. True)" for d
      by (auto simp: triple_def manifest_by_digest_def reg_read_def reg_call_def Let_def
          split: option.split dest!: find_SomeD intro: holds_rows)
  qed (auto intro!: triple_conseq [OF safe_same] same_rules)
qed auto

lemma safe_delete_rows: "safe_prog dd (delete_manifest_rows repo digest)"
proof -
  have row: "triple (holds dd) (reg_write (\<lambda>w. w\<lparr>rg_manifests := map (\<lambda>m. if P m then m\<lparr>rm_deleted := t\<rparr> else m) (rg_manifests w)\<rparr>))
      (\<lambda>_. holds dd) (\<lambda>_. holds dd)" if "t \<noteq> []" for P t
    unfolding reg_write_def by (rule safe_call) (use that in \<open>auto simp: holds_def config_of_def intro: delete_rows\<close>)
  have tags: "safe_prog dd (reg_write (\<lambda>w. w\<lparr>rg_tags := f w\<rparr>))" for f by (rule safe_rows) simp
  have tx: "safe_prog dd (reg_tx (seqE (reg_write (\<lambda>w. w\<lparr>rg_manifests := map (\<lambda>m. if P m then m\<lparr>rm_deleted := t\<rparr> else m) (rg_manifests w)\<rparr>))
      (reg_write (\<lambda>w. w\<lparr>rg_tags := f w\<rparr>))))" if "t \<noteq> []" for P t f
    by (rule safe_tx [OF _ triple_conseq [OF triple_seqE [OF row [OF that] tags]] _ stable_stored(3)])
      (auto intro!: sf.keeps_rules files_write)
  show ?thesis
    unfolding delete_manifest_rows_def reg_text_now_def
  proof (rule triple_bindE [where R = "\<lambda>now w. now \<noteq> [] \<and> holds dd w"])
    show "triple (holds dd) (get_state (\<lambda>w. format_rfc3339nano (reg_now w))) (\<lambda>now w. now \<noteq> [] \<and> holds dd w) (\<lambda>_. holds dd)"
      by (rule triple_get) (simp add: rfc3339_nonempty)
  next
    fix now
    show "triple (\<lambda>w. now \<noteq> [] \<and> holds dd w) (reg_tx (seqE
        (reg_write (\<lambda>w. w\<lparr>rg_manifests := map (\<lambda>m. if rm_repo m = repo \<and> rm_digest m = digest then m\<lparr>rm_deleted := now\<rparr> else m) (rg_manifests w)\<rparr>))
        (reg_write (\<lambda>w. w\<lparr>rg_tags := map (\<lambda>t. if rt_repo t = repo \<and> rt_digest t = digest then t\<lparr>rt_deleted := now\<rparr> else t) (rg_tags w)\<rparr>))))
        (\<lambda>_. holds dd) (\<lambda>_. holds dd)"
      by (cases "now = []", simp add: triple_def, rule triple_conseq [OF tx]) auto
  qed
qed

lemma safe_backend_delete:
  assumes "manifest_row_ok s m"
  shows "safe_prog dd (backend_delete (rs_dir s) (rm_path m))"
  using assms manifest_safe_path [OF settings, of "rm_digest m"] manifest_not_blob
  by (auto simp: backend_delete_def with_path_def manifest_row_ok_def intro: safe_remove)

lemma safe_attempt_ret: "safe_prog dd m \<Longrightarrow> safe_prog dd (bindE (attempt m) (\<lambda>_. ret x))"
  by (intro safe_rules; assumption)

lemma safe_delete_manifest: "safe_prog dd (delete_registry_manifest dd repo digest)"
proof -
  have after: "triple (\<lambda>w. (case found of Inl _ \<Rightarrow> True | Inr m \<Rightarrow> manifest_row_ok s m) \<and> holds dd w)
      (seqE (delete_manifest_rows repo digest)
        (case found of Inl _ \<Rightarrow> ret ()
         | Inr m \<Rightarrow> if rm_path m = [] then ret () else bindE (attempt (backend_delete (rs_dir s) (rm_path m))) (\<lambda>_ :: reg_error + unit. ret ())))
      (\<lambda>_. holds dd) (\<lambda>_. holds dd)" for found :: "reg_error + reg_manifest"
    by (rule safe_pure, rule triple_seqE [OF safe_delete_rows])
      (auto intro!: safe_rules safe_backend_delete split: sum.splits)
  have found: "triple (holds dd) (attempt (resolve_manifest repo digest))
      (\<lambda>r w. (case r of Inl _ \<Rightarrow> True | Inr m \<Rightarrow> manifest_row_ok s m) \<and> holds dd w) (\<lambda>_ :: reg_error. holds dd)"
    by (rule triple_attempt) (simp add: resolve_row_ok)
  show ?thesis
    unfolding delete_registry_manifest_def
    by (auto intro!: safe_rules triple_bindE [OF safe_settings] safe_pure triple_bindE [OF found after])
qed

lemma safe_delete_tag: "safe_prog dd (delete_registry_tag repo tag)"
  unfolding delete_registry_tag_def delete_tag_row_def
  by (auto intro!: safe_rules safe_rows triple_bindE [OF safe_same [OF same_now]])

section \<open>Uploads\<close>

lemma same_stat: "keeps same_store (tried (file_stat p))"
  by (intro same_rules same_reads)

definition verified :: "string \<Rightarrow> string \<Rightarrow> string \<Rightarrow> registry \<Rightarrow> bool" where
  "verified dd p d w \<longleftrightarrow> holds dd w \<and> map_option (\<lambda>f. sha_digest sha (rf_data f)) (map_of (rg_files w) p) = Some d"

lemma stable_verified: "stable (verified dd p d)"
  using same_holds by (auto simp: stable_def verified_def same_store_def)

lemma commit_blob:
  assumes "upload_area s p"
  shows "triple (verified dd p d) (backend_put_file (rs_dir s) (blob_key s d) p) (\<lambda>_. holds dd) (\<lambda>_. holds dd)"
proof (cases "digest_ok d")
  case True
  have id: "triple (verified dd p d) (reg_write id) (\<lambda>_. verified dd p d) (\<lambda>_. holds dd)"
    by (rule triple_conseq [OF stable_triple [OF stable_verified same_write_id]]) (auto simp: verified_def)
  have "triple (verified dd p d) (file_rename p (blob_path s d)) (\<lambda>_. holds dd) (\<lambda>_. holds dd)"
  proof -
    have "holds dd w'" if w: "verified dd p d w" and run: "file_rename p (blob_path s d) w = (r, w')" for w r w'
    proof -
      obtain f where f: "map_of (rg_files w) p = Some f" "sha_digest sha (rf_data f) = d" using w by (auto simp: verified_def)
      have "J (put_file (blob_path s d) f (drop_file p (rg_files w))) (rg_manifests w)"
        using w f(2) upload_not_stored(2) [OF assms] by (intro put_blob drop_other) (auto simp: verified_def holds_def)
      then show ?thesis
        using run f(1) w by (auto simp: file_rename_def reg_call_def Let_def verified_def holds_def config_of_def split: if_splits)
    qed
    then show ?thesis by (auto intro: tripleI)
  qed
  with id show ?thesis
    unfolding backend_put_file_def with_path_def blob_safe_path [OF settings True] option.case by (rule triple_seqE)
next
  case False
  have "\<not> verified dd p d w" for w using False sha_digest_ok by (auto simp: verified_def)
  then show ?thesis by (simp add: triple_def)
qed

lemma safe_finish_upload:
  assumes "upload_area s p"
  shows "safe_prog dd (finish_upload sha s q repo p)"
proof -
  note up = upload_not_stored [OF assms]
  let ?d = "rq_digest q"
  have read: "triple (holds dd) (file_read p)
      (\<lambda>data w. holds dd w \<and> map_option rf_data (map_of (rg_files w) p) = Some data) (\<lambda>_. holds dd)"
    by (auto simp: triple_def file_read_def reg_read_def reg_call_def Let_def split: option.split)
  have check: "triple (\<lambda>w. holds dd w \<and> map_option rf_data (map_of (rg_files w) p) = Some data) (requires (sha_digest sha data = ?d) 400)
      (\<lambda>_. verified dd p ?d) (\<lambda>_. holds dd)" for data
    by (auto simp: triple_def requires_def ret_def throw_def verified_def)
  have keep: "triple (verified dd p ?d) m (\<lambda>_. verified dd p ?d) (\<lambda>_. holds dd)" if "keeps same_store m" for m :: "'z reg_handler"
    by (rule triple_conseq [OF stable_triple [OF stable_verified that]]) (auto simp: verified_def)
  have quota: "triple (verified dd p ?d) (case st of Inl _ \<Rightarrow> ret () | Inr n \<Rightarrow> or_status 507 (check_quota s n))
      (\<lambda>_. verified dd p ?d) (\<lambda>_. holds dd)" for st :: "reg_error + int"
    by (cases st) (auto intro!: keep same_rules same_checks)
  show ?thesis
    unfolding finish_upload_def Let_def
    apply (rule triple_seqE [OF safe_same [OF same_requires]])
    apply (rule triple_seqE [OF safe_or_status [OF safe_open_append [OF up(1)]]])
    apply (rule triple_seqE [OF safe_or_status [OF safe_copy_body [OF up(1)]]])
    apply (rule triple_bindE [OF safe_or_status [OF read]])
    apply (rule triple_seqE [OF check])
    apply (rule triple_bindE [OF keep [OF same_stat]])
    apply (rule triple_seqE [OF quota])
    apply (rule triple_seqE [OF safe_or_status [OF commit_blob [OF assms]]])
    apply (rule triple_seqE [OF safe_tried [OF safe_remove]])
    using up(2) by (auto intro: triple_ret)
qed

lemma safe_upload: "safe_prog dd (handle_blob_upload sha pe s c q path)"
proof -
  have up: "upload_area s (upload_path s uid)" for uid by (rule upload_path_area [OF settings])
  note fns = upload_not_stored [OF up]
  have size: "safe_prog dd (bindE (upload_size p) (\<lambda>n. ret (f n)))" for p and f :: "int \<Rightarrow> reg_response"
    by (intro safe_same same_rules same_checks)
  have patch: "safe_prog dd (seqE (or_status 500 (file_open_append (upload_path s uid)))
      (seqE (or_status 500 (copy_body (upload_path s uid) q)) (bindE (upload_size (upload_path s uid)) (\<lambda>n. ret (f n)))))" for uid and f :: "int \<Rightarrow> reg_response"
    by (intro triple_seqE [OF safe_or_status [OF safe_open_append]] triple_seqE [OF safe_or_status [OF safe_copy_body]] size fns)
  have remove: "safe_prog dd (seqE (tried (file_remove (upload_path s uid))) (ret x))" for uid and x :: reg_response
    by (rule triple_seqE [OF safe_tried [OF safe_remove]]) (use fns in \<open>auto intro: triple_ret\<close>)
  have id: "safe_prog dd (or_status 500 (reg_write id))" by (intro safe_same same_rules)
  have throw: "safe_prog dd (throw x)" and ret: "safe_prog dd (ret y)" for x y :: reg_response by (auto intro: safe_rules)
  show ?thesis
    unfolding handle_blob_upload_def Let_def
    by (auto intro!: throw ret triple_seqE [OF safe_same [OF same_requires]] safe_same [OF same_start_upload] size
        triple_seqE [OF id patch] triple_seqE [OF id safe_finish_upload [OF up]] triple_seqE [OF id remove] triple_seqE [OF id ret]
      split: option.split prod.split)
qed

section \<open>Requests\<close>

lemma safe_manifest: "safe_prog dd (handle_manifest sha dd s c q path)"
proof -
  have "safe_prog dd (seqE (requires b n) (seqE (or_status k (delete_registry_manifest dd repo ref)) (ret x)))" for b n k repo ref and x :: reg_response
    by (rule triple_seqE [OF safe_same [OF same_requires]], rule triple_seqE [OF safe_or_status [OF safe_delete_manifest]])
      (auto intro: triple_ret)
  then show ?thesis
    unfolding handle_manifest_def by (auto intro!: safe_push safe_same [OF same_pull] intro: safe_rules split: option.split)
qed

lemma safe_route: "safe_prog dd (route sha pe dd s c q)"
  unfolding route_def Let_def
  by (auto intro!: safe_manifest safe_upload safe_same [OF same_blob] safe_same [OF same_catalog] safe_same [OF same_tags_list]
      intro: safe_rules)

lemma safe_serve:
  assumes "holds dd w"
  shows "holds dd (snd (serve_registry ul sha pe dd q w))"
proof -
  have "safe_prog dd (bindE (or_status 404 (registry_settings_now dd)) (\<lambda>s.
      seqE (requires (rs_enabled s) 404) (bindE (authenticate ul sha s q) (\<lambda>c. route sha pe dd s c q))))"
    by (rule triple_bindE [OF safe_or_status [OF safe_settings]], rule safe_pure, simp,
        rule triple_seqE [OF safe_same [OF same_requires]], rule triple_bindE [OF safe_same [OF same_authenticate] safe_route])
  then show ?thesis
    using assms by (auto simp: serve_registry_def respond_def triple_def split: prod.splits sum.splits)
qed

section \<open>Garbage collection\<close>

lemma safe_ignore_each: "(\<And>x. x \<in> set xs \<Longrightarrow> safe_prog dd (f x)) \<Longrightarrow> safe_prog dd (ignore_each f xs)"
proof (induction xs)
  case (Cons x xs)
  show ?case unfolding ignore_each.simps by (rule bind_attempt [OF _ bind_ret]) (use Cons in auto)
qed (auto intro: triple_ret)

lemma purge_paths:
  "triple (holds dd) purge_deleted_manifests (\<lambda>ps w. (\<forall>p \<in> set ps. \<exists>m. p = rm_path m \<and> manifest_row_ok s m) \<and> holds dd w) (\<lambda>_. holds dd)"
proof -
  let ?ok = "\<lambda>ps. \<forall>p \<in> set ps. \<exists>m. p = rm_path m \<and> manifest_row_ok s m"
  have read: "triple (holds dd) (reg_read (\<lambda>w. Inr (remdups (map rm_path (filter P (rg_manifests w)))))) (\<lambda>ps w. ?ok ps \<and> holds dd w) (\<lambda>_. holds dd)" for P
    by (auto simp: triple_def reg_read_def reg_call_def Let_def intro!: holds_rows)
  have tags: "safe_prog dd (reg_write (\<lambda>w. w\<lparr>rg_tags := f w\<rparr>))" for f by (rule safe_rows) simp
  have purge: "safe_prog dd (reg_write (\<lambda>w. w\<lparr>rg_manifests := filter (\<lambda>m. rm_deleted m = []) (rg_manifests w)\<rparr>))"
    unfolding reg_write_def by (rule safe_call) (auto simp: holds_def config_of_def intro: purge_rows)
  show ?thesis
    unfolding purge_deleted_manifests_def
    by (rule triple_bindE [OF read], rule safe_pure, rule triple_seqE [OF tags], rule triple_seqE [OF purge], rule triple_ret) simp
qed

lemma safe_delete_paths:
  "\<forall>p \<in> set ps. \<exists>m. p = rm_path m \<and> manifest_row_ok s m \<Longrightarrow> safe_prog dd (ignore_each (backend_delete (rs_dir s)) ps)"
  by (rule safe_ignore_each) (auto intro: safe_backend_delete)

text \<open>What the collector knows when it sweeps: every blob it did not see is unreferenced.\<close>

definition swept :: "string list \<Rightarrow> registry \<Rightarrow> bool" where
  "swept referenced w \<longleftrightarrow> lenient \<or> (\<forall>d. d \<notin> set referenced \<longrightarrow> unreferenced s (rg_files w) (rg_manifests w) d)"

lemma manifest_refs_drop: "set (manifest_refs s (drop_file p fs) m) \<subseteq> set (manifest_refs s fs m)"
  by (auto simp: manifest_refs_def split: if_splits option.split)

lemma swept_drop: "swept ds w \<Longrightarrow> rg_files w' = drop_file p (rg_files w) \<Longrightarrow> rg_manifests w' = rg_manifests w \<Longrightarrow> swept ds w'"
  using manifest_refs_drop unfolding swept_def unreferenced_def by auto blast

lemma stable_swept: "stable (swept ds)"
  by (auto simp: stable_def swept_def same_store_def)

lemma sweep_one:
  assumes "digest_ok d" "d \<notin> set ds"
  shows "triple (\<lambda>w. holds dd w \<and> swept ds w) (backend_delete (rs_dir s) (blob_key s d)) (\<lambda>_ w. holds dd w \<and> swept ds w) (\<lambda>_ w. holds dd w \<and> swept ds w)"
proof -
  have "holds dd w' \<and> swept ds w'" if w: "holds dd w" "swept ds w" and run: "file_remove (blob_path s d) w = (r, w')" for w r w'
  proof (cases "rg_files w' = drop_file (blob_path s d) (rg_files w) \<and> rg_manifests w' = rg_manifests w \<and> rg_config w' = rg_config w")
    case True
    have "J (drop_file (blob_path s d) (rg_files w)) (rg_manifests w)"
      using w assms by (intro sweep_blob) (auto simp: holds_def swept_def)
    then show ?thesis using True w swept_drop by (auto simp: holds_def config_of_def)
  next
    case False
    then have "same_store w w'"
      using run by (auto simp: file_remove_def reg_call_def Let_def same_store_def split: if_splits option.splits)
    then show ?thesis using w same_holds stable_swept by (auto simp: stable_def)
  qed
  then show ?thesis
    unfolding backend_delete_def with_path_def blob_safe_path [OF settings assms(1)] option.case by (auto intro: tripleI)
qed

lemma safe_sweep:
  "\<forall>(d, t) \<in> set bs. digest_ok d \<Longrightarrow> triple (\<lambda>w. holds dd w \<and> swept ds w) (sweep s ds bs) (\<lambda>_. holds dd) (\<lambda>_. holds dd)"
proof (induction bs)
  case (Cons b bs)
  obtain d t where b: "b = (d, t)" by fastforce
  let ?K = "\<lambda>w. holds dd w \<and> swept ds w"
  have rest: "triple ?K (sweep s ds bs) (\<lambda>_. holds dd) (\<lambda>_. holds dd)" using Cons by simp
  then have after: "triple ?K (bindE (sweep s ds bs) (\<lambda>n. ret (f n))) (\<lambda>_. holds dd) (\<lambda>_. holds dd)" for f :: "nat \<Rightarrow> nat"
    by (rule triple_bindE) (rule triple_ret)
  show ?case
    unfolding b sweep.simps
  proof (rule triple_bindE [where R = "\<lambda>_. ?K"])
    show "triple ?K (if d \<in> set ds \<or> \<not> time_is_zero t \<and> time_sub now t < gc_grace then sweep s ds bs
        else bindE (attempt (backend_delete (rs_dir s) (blob_key s d))) (\<lambda>r :: reg_error + unit.
          bindE (sweep s ds bs) (\<lambda>n. ret (case r of Inl _ \<Rightarrow> n | Inr _ \<Rightarrow> Suc n)))) (\<lambda>_. holds dd) (\<lambda>_. holds dd)" for now
      using Cons.prems b by (auto intro!: rest triple_bindE [OF triple_attempt after] sweep_one)
  qed (auto simp: triple_def get_state_def)
qed (auto intro: triple_ret)

lemma listed_digests: "keeps same_store (backend_list root s)" "triple P (backend_list root s) (\<lambda>bs w. \<forall>(d, t) \<in> set bs. digest_ok d) (\<lambda>_ _. True)"
  by (rule same_backend)
    (auto simp: triple_def backend_list_def list_blobs_def reg_read_def reg_call_def attempt_def bindE_def ret_def Let_def
      split: prod.split sum.split if_splits)

lemma safe_clean_uploads: "safe_prog dd (clean_uploads s)"
proof -
  have one: "safe_prog dd (stale_upload p)" if "upload_area s p" for p
  proof -
    have none: "safe_prog dd (throw RegNotFound :: unit reg_prog)" by (rule triple_throw)
    have rm: "safe_prog dd (file_remove p)" by (rule safe_remove) (use upload_not_stored(2) [OF that] in simp)
    have after: "safe_prog dd (case x of (None, now) \<Rightarrow> throw RegNotFound
        | (Some i, now) \<Rightarrow> if 24 * hour < time_sub now (rf_mtime i) then file_remove p else throw RegNotFound)" for x :: "reg_file option \<times> gtime"
      using rm none by (simp split: prod.split option.split)
    show ?thesis
      unfolding stale_upload_def
      by (rule triple_bindE [OF triple_get [where Q = "\<lambda>_. holds dd"]]) (use after in \<open>simp_all split: prod.splits\<close>)
  qed
  let ?ps = "\<lambda>w. sort (map fst (filter (\<lambda>(p, _). below_dir (uploads_dir s) p) (rg_files w)))"
  have "triple (holds dd) (get_state ?ps) (\<lambda>ps w. (\<forall>p \<in> set ps. upload_area s p) \<and> holds dd w) (\<lambda>_. holds dd)"
    by (rule triple_get) (auto intro: below_uploads_area [OF settings])
  then show ?thesis
    unfolding clean_uploads_def by (rule triple_bindE) (intro safe_pure safe_ignore_each one, blast)
qed

definition calm :: "registry \<Rightarrow> bool" where
  "calm w \<longleftrightarrow> lenient \<or> (\<forall>n. \<not> rg_fault w n)"

lemma stable_calm: "stable calm"
  by (simp add: stable_def same_store_def calm_def)

definition covers :: "string list \<Rightarrow> reg_manifest list \<Rightarrow> registry \<Rightarrow> bool" where
  "covers ds ms w \<longleftrightarrow> lenient \<or> (\<forall>m \<in> set ms. set (manifest_refs s (rg_files w) m) \<subseteq> set ds)"

lemma stable_covers: "stable (covers ds ms)"
  by (auto simp: stable_def same_store_def covers_def)

lemma parse_no_range: "parse_byte_range [] n = None"
  by (simp add: parse_byte_range_def trim_space_graphic has_prefix_def)

lemma one_covered: "triple calm (manifest_referenced_blobs s m) (\<lambda>ds w. covers ds [m] w \<and> calm w) (\<lambda>_ _. True)"
proof -
  have "triple calm (manifest_referenced_blobs s m) (\<lambda>ds w. covers ds [m] w) (\<lambda>_ _. True)"
  proof (cases lenient)
    case False
    have "set (manifest_refs s (rg_files w') m) \<subseteq> set ds"
      if "\<forall>n. \<not> rg_fault w n" "manifest_referenced_blobs s m w = (Inr ds, w')" for w ds w'
      using that parse_no_range
      by (auto simp: manifest_referenced_blobs_def Let_def manifest_refs_def doc_refs_def backend_open_def with_path_def file_read_def
          reg_read_def reg_call_def bindE_def attempt_def ret_def throw_def split: if_splits option.splits)
    then show ?thesis unfolding calm_def covers_def by (intro tripleI) (use False in simp_all)
  next
    case True
    then show ?thesis unfolding calm_def covers_def by (intro tripleI) simp_all
  qed
  from triple_and [OF this stable_triple [OF stable_calm same_referenced]] show ?thesis by (rule triple_conseq) auto
qed

lemma all_covered: "triple calm (collect_referenced s ms) (\<lambda>ds w. covers ds ms w \<and> calm w) (\<lambda>_ _. True)"
proof (induction ms)
  case Nil
  then show ?case by (auto intro!: triple_ret simp: covers_def)
next
  case (Cons m ms)
  have rest: "triple (\<lambda>w. covers ds [m] w \<and> calm w) (collect_referenced s ms)
      (\<lambda>rest w. covers ds [m] w \<and> covers rest ms w \<and> calm w) (\<lambda>_ _. True)" for ds
    by (rule triple_conseq [OF triple_and [OF stable_triple [OF stable_covers same_collect] Cons]]) auto
  show ?case
    unfolding collect_referenced.simps
    by (rule triple_bindE [OF one_covered], rule triple_bindE [OF rest], rule triple_ret) (auto simp: covers_def)
qed

definition actives :: "reg_manifest list \<Rightarrow> registry \<Rightarrow> bool" where
  "actives ms w \<longleftrightarrow> ms = filter (\<lambda>m. rm_deleted m = []) (rg_manifests w)"

lemma swept_covers: "actives ms w \<Longrightarrow> covers ds ms w \<Longrightarrow> swept ds w"
  by (auto simp: actives_def covers_def swept_def unreferenced_def)

lemma stable_actives: "stable (actives ms)"
  by (simp add: stable_def same_store_def actives_def)

lemma calm_kept: "keeps same_fault m \<Longrightarrow> triple calm m (\<lambda>_. calm) (\<lambda>_ _. True)"
  by (rule tripleI) (auto simp: calm_def same_fault_def dest: keepsD)

lemma calm_and:
  "triple (holds dd) m (\<lambda>x w. Q x \<and> holds dd w) (\<lambda>_. holds dd) \<Longrightarrow> keeps same_fault m \<Longrightarrow>
    triple (\<lambda>w. holds dd w \<and> calm w) m (\<lambda>x w. Q x \<and> holds dd w \<and> calm w) (\<lambda>_. holds dd)"
  by (erule triple_conseq [OF triple_and [OF _ calm_kept]]) auto

lemma safe_gc: "triple (\<lambda>w. holds dd w \<and> calm w) (run_registry_gc dd) (\<lambda>_. holds dd) (\<lambda>_. holds dd)"
proof -
  have active: "triple (\<lambda>w. holds dd w \<and> calm w) active_manifests (\<lambda>ms w. holds dd w \<and> calm w \<and> actives ms w) (\<lambda>_. holds dd)"
    using same_holds stable_calm
    by (auto simp: triple_def active_manifests_def reg_read_def reg_call_def Let_def actives_def calm_def)
  have delete: "triple (\<lambda>w. holds dd w \<and> calm w) (ignore_each (backend_delete (rs_dir s)) ps) (\<lambda>_ w. holds dd w \<and> calm w) (\<lambda>_. holds dd)"
    if "\<forall>p \<in> set ps. \<exists>m. p = rm_path m \<and> manifest_row_ok s m" for ps
    by (rule triple_conseq [OF triple_and [OF safe_delete_paths [OF that] calm_kept [OF gc_faults(3)]]]) auto
  have collect: "triple (\<lambda>w. holds dd w \<and> calm w \<and> actives ms w) (collect_referenced s ms) (\<lambda>ds w. holds dd w \<and> swept ds w) (\<lambda>_. holds dd)" for ms
    by (rule triple_conseq [OF triple_and [OF stable_triple [OF stable_conj [OF stable_stored(3) stable_actives] same_collect] all_covered]])
      (auto intro: swept_covers)
  have blobs: "triple (\<lambda>w. holds dd w \<and> swept ds w) (backend_list (rs_dir s) s)
      (\<lambda>bs w. (\<forall>(d, t) \<in> set bs. digest_ok d) \<and> holds dd w \<and> swept ds w) (\<lambda>_. holds dd)" for ds
    by (rule triple_conseq [OF triple_and [OF listed_digests(2) stable_triple [OF stable_conj [OF stable_stored(3) stable_swept] listed_digests(1)]]]) auto
  have uploads: "safe_prog dd (bindE (clean_uploads s) (\<lambda>n. ret (f n)))" for f :: "nat \<Rightarrow> nat \<times> nat"
    by (rule triple_bindE [OF safe_clean_uploads]) (rule triple_ret)
  show ?thesis
    unfolding run_registry_gc_def
    apply (rule triple_bindE [OF calm_and [OF safe_settings gc_faults(1)]], rule safe_pure, simp only:)
    apply (rule triple_bindE [OF calm_and [OF purge_paths gc_faults(2)]], rule safe_pure)
    apply (rule triple_seqE [OF delete], assumption)
    apply (rule triple_bindE [OF active], rule triple_bindE [OF collect])
    apply (rule triple_bindE [OF blobs], rule safe_pure, rule triple_bindE [OF safe_sweep uploads])
    apply assumption
    done
qed

section \<open>Every step\<close>

lemma safe_step:
  assumes "holds dd w" "lenient \<or> (op = RegGc \<longrightarrow> (\<forall>n. \<not> fault n))"
  shows "holds dd (reg_step ul sha pe dd (fault, op) w)"
proof -
  let ?w = "w\<lparr>rg_fault := fault\<rparr>"
  have w: "holds dd ?w" using assms(1) by (simp add: holds_def config_of_def)
  have run: "holds dd (snd (m ?w))" if "triple P m (\<lambda>_. holds dd) (\<lambda>_. holds dd)" "P ?w" for P and m :: "'z reg_prog"
    using that by (cases "m ?w"; cases "fst (m ?w)") (auto dest: triple_Inr triple_Inl)
  show ?thesis
  proof (cases op)
    case RegGc
    then have "calm ?w" using assms(2) by (simp add: calm_def)
    then show ?thesis using run [OF safe_gc] w RegGc by (simp add: reg_step_def Let_def)
  qed (use w safe_serve run [OF safe_delete_tag] run [OF safe_delete_manifest] in \<open>simp_all add: reg_step_def Let_def\<close>)
qed

text \<open>Hence every sequence of operations keeps the invariant.\<close>

lemma safe_run:
  assumes "holds dd w" "lenient \<or> (\<forall>(fault, op) \<in> set ops. op = RegGc \<longrightarrow> (\<forall>n. \<not> fault n))"
  shows "holds dd (fold (reg_step ul sha pe dd) ops w)"
  by (rule fold_invariant_list [where I = "holds dd", OF _ assms(1)]) (use assms(2) safe_step in \<open>auto split: prod.splits\<close>)

end

end
