(* ===== verification/RegistryRuns.thy ===== *)
theory RegistryRuns
  imports RegistryLaws
begin

text \<open>
  The invariants of the Docker registry.  A stored blob has the content its digest names, whatever the
  clients and the collector do and whatever fails; and the blobs of an active manifest stay stored as long
  as the collector itself meets no failure.
\<close>

section \<open>Environments\<close>

text \<open>
  What is assumed of SHA-256: it has 64 hex digits, and no manifest has the digest of a proper prefix of
  it (which an interrupted write may leave behind).
\<close>

locale registry_env =
  fixes s :: registry_settings and sha :: "string \<Rightarrow> string"
  assumes settings: "settings_ok s" and sha_digest_ok: "digest_ok (sha_digest sha x)"

locale hashed_env = registry_env +
  assumes prefix_free: "length (t @ u) \<le> max_manifest_bytes \<Longrightarrow> sha t = sha (t @ u) \<Longrightarrow> u = []"

section \<open>Blobs are what their digest names\<close>

definition blobs_ok :: "registry_settings \<Rightarrow> (string \<Rightarrow> string) \<Rightarrow> reg_files \<Rightarrow> reg_manifest list \<Rightarrow> bool" where
  "blobs_ok s sha fs ms \<longleftrightarrow> list_all (manifest_row_ok s) ms \<and>
     (\<forall>d f. digest_ok d \<longrightarrow> map_of fs (blob_path s d) = Some f \<longrightarrow> sha_digest sha (rf_data f) = d)"

lemma upsert_rows_ok:
  "list_all (manifest_row_ok s) ms \<Longrightarrow> manifest_row_ok s m \<Longrightarrow> list_all (manifest_row_ok s) (upsert_manifest_row m ms)"
  by (auto simp: upsert_manifest_row_def list_all_iff manifest_row_ok_def)

lemma delete_rows_ok:
  "list_all (manifest_row_ok s) ms \<Longrightarrow> list_all (manifest_row_ok s) (map (\<lambda>m. if P m then m\<lparr>rm_deleted := t\<rparr> else m) ms)"
  by (auto simp: list_all_iff manifest_row_ok_def)

sublocale registry_env \<subseteq> blobs: registry_invariant s sha True "blobs_ok s sha"
proof unfold_locales
  fix fs ms d p f assume J: "blobs_ok s sha fs ms"
  show "blobs_ok s sha (put_file p f fs) ms" if "\<not> stored_path s p"
    using J that by (auto simp: blobs_ok_def stored_path_def)
  show "blobs_ok s sha (drop_file p fs) ms" if "\<forall>d. p \<noteq> blob_path s d"
    using J by (auto simp: blobs_ok_def)
  show "blobs_ok s sha (put_file (blob_path s d) f fs) ms" if "sha_digest sha (rf_data f) = d"
  proof -
    have "digest_ok d" using that sha_digest_ok by blast
    then have "blob_path s e = blob_path s d \<Longrightarrow> digest_ok e \<Longrightarrow> e = d" for e using blob_path_inj by blast
    then show ?thesis using J that by (auto simp: blobs_ok_def)
  qed
  show "blobs_ok s sha (drop_file (blob_path s d) fs) ms"
    using J by (auto simp: blobs_ok_def)
  show "blobs_ok s sha fs (map (\<lambda>m. if P m then m\<lparr>rm_deleted := t\<rparr> else m) ms)" for P t
    using J delete_rows_ok by (auto simp: blobs_ok_def)
  show "blobs_ok s sha fs (filter (\<lambda>m. rm_deleted m = []) ms)"
    using J by (auto simp: blobs_ok_def list_all_iff)
  show "manifest_row_ok s m" if "m \<in> set ms" for m
    using J that by (auto simp: blobs_ok_def list_all_iff)
  show "blobs_ok s sha fs (upsert_manifest_row m ms)" if "manifest_row_ok s m" for m
    using J that upsert_rows_ok by (auto simp: blobs_ok_def)
  show "blobs_ok s sha (put_file (manifest_path s (sha_digest sha body)) f fs) ms" for body
    using J manifest_not_blob [of s _ _] by (auto simp: blobs_ok_def eq_commute)
qed (rule settings sha_digest_ok)+

section \<open>Blobs of active manifests\<close>

lemma push_without_manifests: "json_key push_fields ''manifests'' = None"
  by code_simp

lemma json_key_snoc:
  "json_key (ns @ [n]) k = json_key ns k \<or> json_key (ns @ [n]) k = Some n \<and> (json_key ns k = None \<or> k = n)"
proof -
  have "find P (ns @ [n]) = (case find P ns of None \<Rightarrow> if P n then Some n else None | Some x \<Rightarrow> Some x)" for P
    by (induction ns) auto
  then show ?thesis by (auto simp: json_key_def split: option.splits)
qed

lemma json_key_in: "json_key ns k = Some n \<Longrightarrow> n \<in> set ns"
  by (auto simp: json_key_def dest: find_SomeD split: if_splits)

lemma manifests_key: "json_key gc_fields k = json_key push_fields k \<or> json_key gc_fields k = Some ''manifests'' \<and> json_key push_fields k = None"
proof -
  have fields: "gc_fields = push_fields @ [''manifests'']" by (simp add: gc_fields_def push_fields_def)
  show ?thesis using json_key_snoc [of push_fields "''manifests''" k] push_without_manifests unfolding fields by metis
qed

definition agree :: "bool \<times> manifest_doc \<Rightarrow> bool \<times> manifest_doc \<Rightarrow> bool" where
  "agree a b \<longleftrightarrow> (fst a \<longrightarrow> fst b) \<and> md_config (snd a) = md_config (snd b) \<and> md_layers (snd a) = md_layers (snd b)"

lemma member_agree:
  assumes "agree a b"
  shows "agree (doc_member gc_fields a m) (doc_member push_fields b m)"
proof -
  obtain k v where m: "m = (k, v)" by fastforce
  obtain ok d ok' d' where ab: "a = (ok, d)" "b = (ok', d')" by (metis surj_pair)
  from manifests_key [of k] show ?thesis
  proof
    assume "json_key gc_fields k = json_key push_fields k"
    moreover have "n = ''config'' \<or> n = ''layers''" if "json_key push_fields k = Some n" for n
      using json_key_in [OF that] by (auto simp: push_fields_def)
    ultimately show ?thesis
      using assms unfolding agree_def m ab doc_member_def
      by (cases "json_key push_fields k") (auto split: prod.split)
  next
    assume "json_key gc_fields k = Some ''manifests'' \<and> json_key push_fields k = None"
    then show ?thesis
      using assms unfolding agree_def m ab doc_member_def by (simp split: prod.split)
  qed
qed

text \<open>A document the collector reads is one the push read, with the same config and layers.\<close>

lemma doc_members_agree: "agree a b \<Longrightarrow> agree (foldl (doc_member gc_fields) a ms) (foldl (doc_member push_fields) b ms)"
  by (induction ms arbitrary: a b) (simp_all add: member_agree)

lemma push_reads_more:
  assumes "decode_doc gc_fields data = Some d"
  obtains d' where "decode_doc push_fields data = Some d'" "md_config d' = md_config d" "md_layers d' = md_layers d"
proof -
  from assms consider "unmarshal data = Some JNull" "d = empty_doc"
    | ms where "unmarshal data = Some (JObj ms)" "fst (foldl (doc_member gc_fields) (True, empty_doc) ms)"
      "d = snd (foldl (doc_member gc_fields) (True, empty_doc) ms)"
    by (auto simp: decode_doc_def Let_def split: option.splits json.splits prod.splits if_splits)
  then show ?thesis
  proof cases
    case 1
    then show ?thesis using that by (simp add: decode_doc_def)
  next
    case (2 ms)
    obtain ok d' where run: "foldl (doc_member push_fields) (True, empty_doc) ms = (ok, d')" by fastforce
    then have "ok" "md_config d' = md_config d" "md_layers d' = md_layers d"
      using 2 doc_members_agree [of "(True, empty_doc)" "(True, empty_doc)" ms] by (auto simp: agree_def)
    then show ?thesis using that 2(1) run by (simp add: decode_doc_def)
  qed
qed

definition needed_blobs :: "string \<Rightarrow> string list" where
  "needed_blobs data =
     (case decode_doc gc_fields data of None \<Rightarrow> [] | Some d \<Rightarrow> filter digest_ok (md_config d # slice_items (md_layers d)))"

lemma needed_pushed: "set (needed_blobs data) \<subseteq> set (pushed_blobs data)"
proof (cases "decode_doc gc_fields data")
  case (Some d)
  then obtain d' where "decode_doc push_fields data = Some d'" "md_config d' = md_config d" "md_layers d' = md_layers d"
    by (rule push_reads_more)
  then show ?thesis using Some by (simp add: needed_blobs_def pushed_blobs_def)
qed (simp add: needed_blobs_def)

lemma needed_referenced: "length data \<le> max_manifest_bytes \<Longrightarrow> set (needed_blobs data) \<subseteq> set (doc_refs data)"
  by (auto simp: needed_blobs_def doc_refs_def doc_digests_def split: option.split)

text \<open>A row whose content is stored completely has the blobs the content names.\<close>

definition has_blobs :: "registry_settings \<Rightarrow> (string \<Rightarrow> string) \<Rightarrow> reg_files \<Rightarrow> reg_manifest \<Rightarrow> bool" where
  "has_blobs s sha fs m \<longleftrightarrow>
     (case map_of fs (manifest_path s (rm_digest m)) of
        None \<Rightarrow> True
      | Some f \<Rightarrow> sha_digest sha (rf_data f) = rm_digest m \<and> length (rf_data f) \<le> max_manifest_bytes \<longrightarrow>
          blobs_stored s fs (needed_blobs (rf_data f)))"

definition refs_ok :: "registry_settings \<Rightarrow> (string \<Rightarrow> string) \<Rightarrow> reg_files \<Rightarrow> reg_manifest list \<Rightarrow> bool" where
  "refs_ok s sha fs ms \<longleftrightarrow> list_all (manifest_row_ok s) ms \<and> (\<forall>m \<in> set ms. rm_deleted m = [] \<longrightarrow> has_blobs s sha fs m)"

lemma has_blobs_more:
  assumes "has_blobs s sha fs m" "map_of fs' (manifest_path s (rm_digest m)) = map_of fs (manifest_path s (rm_digest m))"
    and "\<And>d. map_of fs (blob_path s d) \<noteq> None \<Longrightarrow> map_of fs' (blob_path s d) \<noteq> None"
  shows "has_blobs s sha fs' m"
  using assms unfolding has_blobs_def blobs_stored_def by (fastforce split: option.splits)

lemma has_blobs_body:
  assumes "map_option rf_data (map_of fs (manifest_path s (rm_digest m))) = Some body" "blobs_stored s fs (pushed_blobs body)"
  shows "has_blobs s sha fs m"
  using assms needed_pushed by (fastforce simp: has_blobs_def blobs_stored_def)

lemma has_blobs_sweep:
  assumes "has_blobs s sha fs m" "settings_ok s" "manifest_row_ok s m" "digest_ok d" "d \<notin> set (manifest_refs s fs m)"
  shows "has_blobs s sha (drop_file (blob_path s d) fs) m"
proof -
  have key: "safe_path (rs_dir s) (rm_path m) = Some (manifest_path s (rm_digest m))" "rm_path m \<noteq> []"
    using assms(2,3) manifest_safe_path [of s "rm_digest m"] object_key [OF assms(2) manifest_rest(3,4), of "rm_digest m"]
    by (auto simp: manifest_row_ok_def manifest_key_def hex_part_def)
  have "b \<noteq> d" if "map_of fs (manifest_path s (rm_digest m)) = Some f" "length (rf_data f) \<le> max_manifest_bytes"
      "b \<in> set (needed_blobs (rf_data f))" for f b
    using that assms(5) key needed_referenced by (auto simp: manifest_refs_def)
  moreover have "digest_ok b" if "b \<in> set (needed_blobs data)" for b data
    using that by (auto simp: needed_blobs_def split: option.splits if_splits)
  ultimately have other: "blob_path s b \<noteq> blob_path s d"
    if "map_of fs (manifest_path s (rm_digest m)) = Some f" "length (rf_data f) \<le> max_manifest_bytes" "b \<in> set (needed_blobs (rf_data f))" for f b
    using that assms(4) blob_path_inj by blast
  show ?thesis
    using assms(1) other manifest_not_blob by (auto simp: has_blobs_def blobs_stored_def split: option.splits)
qed

sublocale hashed_env \<subseteq> kept: registry_invariant s sha False "refs_ok s sha"
proof unfold_locales
  fix fs ms d p f assume J: "refs_ok s sha fs ms"
  then have row: "manifest_row_ok s m" and blobs: "rm_deleted m = [] \<Longrightarrow> has_blobs s sha fs m" if "m \<in> set ms" for m
    using that by (auto simp: refs_ok_def list_all_iff)
  have digest: "digest_ok (rm_digest m)" if "m \<in> set ms" for m using row [OF that] by (simp add: manifest_row_ok_def)
  show "manifest_row_ok s m" if "m \<in> set ms" for m using row [OF that] .
  show "refs_ok s sha (put_file p f fs) ms" if "\<not> stored_path s p"
  proof -
    have "has_blobs s sha (put_file p f fs) m" if "m \<in> set ms" "rm_deleted m = []" for m
      using has_blobs_more [OF blobs [OF that]] digest [OF that(1)] \<open>\<not> stored_path s p\<close> by (auto simp: stored_path_def)
    then show ?thesis using J by (simp add: refs_ok_def)
  qed
  show "refs_ok s sha (drop_file p fs) ms" if "\<forall>d. p \<noteq> blob_path s d"
  proof -
    have "has_blobs s sha (drop_file p fs) m" if "has_blobs s sha fs m" for m
      using that \<open>\<forall>d. p \<noteq> blob_path s d\<close> by (auto simp: has_blobs_def blobs_stored_def split: option.splits)
    then show ?thesis using J by (simp add: refs_ok_def)
  qed
  show "refs_ok s sha (put_file (blob_path s d) f fs) ms"
  proof -
    have "has_blobs s sha (put_file (blob_path s d) f fs) m" if "has_blobs s sha fs m" for m
      using has_blobs_more [OF that] manifest_not_blob by auto
    then show ?thesis using J by (simp add: refs_ok_def)
  qed
  show "refs_ok s sha (drop_file (blob_path s d) fs) ms" if "digest_ok d" "False \<or> unreferenced s fs ms d"
    using J that has_blobs_sweep [OF _ settings row] by (auto simp: refs_ok_def unreferenced_def)
  show "refs_ok s sha fs (map (\<lambda>m. if P m then m\<lparr>rm_deleted := t\<rparr> else m) ms)" if "t \<noteq> []" for P t
    using J delete_rows_ok that by (auto simp: refs_ok_def has_blobs_def)
  show "refs_ok s sha fs (filter (\<lambda>m. rm_deleted m = []) ms)"
    using J by (auto simp: refs_ok_def list_all_iff)
  show "refs_ok s sha fs (upsert_manifest_row m ms)"
    if "manifest_row_ok s m" "blobs_stored s fs (pushed_blobs body)"
      "map_option rf_data (map_of fs (manifest_path s (rm_digest m))) = Some body" for m body
  proof -
    have "has_blobs s sha fs q" if "q \<in> set (upsert_manifest_row m ms)" "rm_deleted q = []" for q
      using that J has_blobs_body [of fs s q body] \<open>blobs_stored s fs (pushed_blobs body)\<close>
        \<open>map_option rf_data (map_of fs (manifest_path s (rm_digest m))) = Some body\<close>
      by (auto simp: refs_ok_def upsert_manifest_row_def split: if_splits)
    then show ?thesis using J that(1) upsert_rows_ok by (simp add: refs_ok_def)
  qed
  show "refs_ok s sha (put_file (manifest_path s (sha_digest sha body)) f fs) ms"
    if "length body \<le> max_manifest_bytes" "blobs_stored s fs (pushed_blobs body)" "rf_data f = take k body" for body k
  proof -
    let ?fs = "put_file (manifest_path s (sha_digest sha body)) f fs"
    have more: "map_of ?fs (blob_path s d) = map_of fs (blob_path s d)" for d using manifest_not_blob [of s _ d] by (auto simp: eq_commute)
    have "has_blobs s sha ?fs m" if m: "m \<in> set ms" "rm_deleted m = []" for m
    proof (cases "rm_digest m = sha_digest sha body")
      case True
      have "blobs_stored s ?fs (needed_blobs (take k body))" if "sha (take k body) = sha body"
      proof -
        have "take k body = body" using prefix_free [of "take k body" "drop k body"] \<open>length body \<le> max_manifest_bytes\<close> that by simp
        then show ?thesis using \<open>blobs_stored s fs (pushed_blobs body)\<close> needed_pushed more by (auto simp: blobs_stored_def)
      qed
      then show ?thesis using True \<open>rf_data f = take k body\<close> by (simp add: has_blobs_def sha_digest_def)
    next
      case False
      then have "manifest_path s (rm_digest m) \<noteq> manifest_path s (sha_digest sha body)"
        using manifest_path_inj digest [OF m(1)] sha_digest_ok by blast
      then show ?thesis using has_blobs_more [OF blobs [OF m]] more by auto
    qed
    then show ?thesis using J by (simp add: refs_ok_def)
  qed
qed (rule settings sha_digest_ok)+

section \<open>Answers\<close>

text \<open>A handler whose refusals are not 200.\<close>

lemma or_status_refuses:
  assumes "triple P m Q (\<lambda>_ _. True)" "n \<noteq> 200"
  shows "triple P (or_status n m) Q (\<lambda>r _. rp_status r \<noteq> 200)"
  using assms by (fastforce simp: triple_def or_status_def status_def split: prod.splits sum.splits)

lemma requires_refuses: "n \<noteq> 200 \<Longrightarrow> triple P (requires b n) (\<lambda>_ w. P w \<and> b) (\<lambda>r _. rp_status r \<noteq> 200)"
  by (auto simp: triple_def requires_def ret_def throw_def status_def)

definition refuses :: "'a reg_handler \<Rightarrow> bool" where
  "refuses m \<longleftrightarrow> triple (\<lambda>_. True) m (\<lambda>_ _. True) (\<lambda>r _. rp_status r \<noteq> 200)"

lemma refuses_kept:
  assumes "refuses m" "keeps same_store m" "\<And>w w'. same_store w w' \<Longrightarrow> P w \<Longrightarrow> P w'"
  shows "triple P m (\<lambda>_. P) (\<lambda>r _. rp_status r \<noteq> 200)"
proof (rule tripleI)
  fix w x w' assume "P w" "m w = (Inr x, w')"
  then show "P w'" using keepsD [OF assms(2)] assms(3) by blast
next
  fix w e w' assume "P w" "m w = (Inl e, w')"
  then show "rp_status e \<noteq> 200" using triple_Inl [OF assms(1) [unfolded refuses_def]] by blast
qed

lemma refuses_rules:
  "refuses m \<Longrightarrow> (\<And>x. refuses (f x)) \<Longrightarrow> refuses (bindE m f)" "refuses m \<Longrightarrow> refuses m' \<Longrightarrow> refuses (seqE m m')" "refuses (ret x)"
  "n \<noteq> 200 \<Longrightarrow> refuses (throw (status n))" "n \<noteq> 200 \<Longrightarrow> refuses (requires b n)" "refuses (get_state g)" "refuses (modify h)"
  "refuses k \<Longrightarrow> refuses (whenE b k)" "refuses (tried p)"
proof -
  show bind: "refuses m \<Longrightarrow> (\<And>x. refuses (f x)) \<Longrightarrow> refuses (bindE m f)" for m :: "'z reg_handler" and f :: "'z \<Rightarrow> 'y reg_handler"
    unfolding refuses_def by (rule triple_bindE)
  show "refuses m \<Longrightarrow> refuses m' \<Longrightarrow> refuses (seqE m m')" unfolding seqE_def by (rule bind)
  show ret: "refuses (ret x)" for x :: "'y" by (simp add: refuses_def triple_def ret_def)
  show "refuses k \<Longrightarrow> refuses (whenE b k)" using ret [of "()"] by (simp add: whenE_def)
qed (simp_all add: refuses_def triple_def throw_def requires_def ret_def get_state_def modify_def tried_def attempt_def status_def
  split: prod.split)

lemma authenticate_refuses: "refuses (authenticate ul sha s q)"
  unfolding authenticate_def limiter_failure_def Let_def by (auto intro!: refuses_rules split: option.split sum.split prod.split)

lemma open_whole:
  assumes "settings_ok s" "digest_ok d"
  shows "triple P (backend_open (rs_dir s) (blob_key s d) []) (\<lambda>(_, data) w. map_option rf_data (map_of (rg_files w) (blob_path s d)) = Some data) (\<lambda>_ _. True)"
  unfolding backend_open_def with_path_def blob_safe_path [OF assms] option.case
proof (rule triple_bindE [where R = "\<lambda>data w. map_option rf_data (map_of (rg_files w) (blob_path s d)) = Some data"])
  show "triple P (file_read (blob_path s d)) (\<lambda>data w. map_option rf_data (map_of (rg_files w) (blob_path s d)) = Some data) (\<lambda>_ _. True)"
    by (auto simp: triple_def file_read_def reg_read_def reg_call_def Let_def split: option.split)
  show "triple (\<lambda>w. map_option rf_data (map_of (rg_files w) (blob_path s d)) = Some data)
      (case parse_byte_range [] (int (length data)) of
         Some (start, len) \<Rightarrow> ret (len, take (nat len) (drop (nat start) data)) | None \<Rightarrow> ret (int (length data), data))
      (\<lambda>(_, data) w. map_option rf_data (map_of (rg_files w) (blob_path s d)) = Some data) (\<lambda>_ _. True)" for data
    by (simp add: parse_byte_range_def has_prefix_def trim_space_graphic triple_ret)
qed

definition blobs_match :: "string \<Rightarrow> registry_settings \<Rightarrow> (string \<Rightarrow> string) \<Rightarrow> registry \<Rightarrow> bool" where
  "blobs_match dd s sha w \<longleftrightarrow> config_of dd w = s \<and> blobs_ok s sha (rg_files w) (rg_manifests w)"

lemma get_blob_matches:
  assumes "settings_ok s" "digest_ok d" "rq_range q = []"
  shows "triple (blobs_match dd s sha) (get_blob s q d) (\<lambda>r w. sha_digest sha (rp_body r) = d) (\<lambda>r _. rp_status r \<noteq> 200)"
proof -
  have head: "triple (blobs_match dd s sha) (tried m) (\<lambda>_. blobs_match dd s sha) (\<lambda>r _. rp_status r \<noteq> 200)" if "keeps same_store m" for m :: "'z reg_prog"
    by (rule refuses_kept [OF refuses_rules(9) same_tried [OF that]]) (auto simp: blobs_match_def same_store_def config_of_def)
  have content: "triple (blobs_match dd s sha) (backend_open (rs_dir s) (blob_key s d) []) (\<lambda>(_, data) w. sha_digest sha data = d) (\<lambda>_ _. True)"
  proof -
    have keep: "triple (blobs_match dd s sha) (backend_open (rs_dir s) (blob_key s d) []) (\<lambda>_. blobs_match dd s sha) (\<lambda>_. blobs_match dd s sha)"
      by (rule same_triple [OF same_backend(2)]) (auto simp: blobs_match_def same_store_def config_of_def)
    show ?thesis
      by (rule triple_conseq [OF triple_and [OF open_whole [OF assms(1,2), of "\<lambda>_. True"] keep]])
        (use assms(2) in \<open>auto simp: blobs_match_def blobs_ok_def\<close>)
  qed
  have "trim_space (rq_range q) = []" using assms(3) by (simp add: trim_space_graphic)
  then show ?thesis
    unfolding get_blob_def Let_def
    by (auto intro!: triple_bindE [OF head [OF same_backend(1)]] triple_bindE [OF or_status_refuses [OF content]] triple_ret split: prod.split)
qed

text \<open>The route of a request for a blob.\<close>

lemma blob_route:
  assumes "rq_method q = ''GET''" "split_registry_path (v2_path q) ''/blobs/'' = Some (repo, d)" "digest_ok d"
    and "\<not> contains (v2_path q) ''/blobs/uploads/''"
  shows "route sha pe dd s c q = (if validate_digest d then get_blob s q d else throw (status 404))"
proof -
  have path: "v2_path q = repo @ ''/blobs/'' @ d" using split_registry_path_Some [OF assms(2)] by blast
  have not_tags: "\<not> has_suffix (v2_path q) ''/tags/list''"
  proof
    assume "has_suffix (v2_path q) ''/tags/list''"
    then have "last (v2_path q) = CHR ''t''" by (auto simp: has_suffix_iff)
    moreover obtain h where "d = ''sha256:'' @ h" "length h = 64" "list_all digest_hex h" using assms(3) unfolding digest_ok_iff by blast
    ultimately show False using path by (cases h rule: rev_cases) (auto simp: digest_hex_def less_eq_char_def)
  qed
  have "contains (v2_path q) ''/blobs/''" unfolding path by (rule contains_append)
  moreover have "v2_path q \<noteq> ''_catalog''"
  proof
    assume "v2_path q = ''_catalog''"
    then have "length (repo @ ''/blobs/'' @ d) = 8" using path by simp
    moreover have "length d = 71" using assms(3) by (auto simp: digest_ok_iff)
    ultimately show False by simp
  qed
  moreover have "rq_path q \<noteq> ''/v2/'' \<and> rq_path q \<noteq> ''/v2''"
    using path by (auto simp: v2_path_def trim_prefix_def has_prefix_def)
  ultimately show ?thesis
    using not_tags assms by (auto simp: route_def Let_def handle_blob_def)
qed

context registry_env
begin

lemma blobs_run:
  assumes "config_of dd w = s" "blobs_ok s sha (rg_files w) (rg_manifests w)"
  shows "config_of dd (fold (reg_step ul sha pe dd) ops w) = s \<and>
    blobs_ok s sha (rg_files (fold (reg_step ul sha pe dd) ops w)) (rg_manifests (fold (reg_step ul sha pe dd) ops w))"
  using blobs.safe_run [of dd w ops ul pe] assms by (simp add: blobs.holds_def)

end

context hashed_env
begin

lemma kept_run:
  assumes "config_of dd w = s" "refs_ok s sha (rg_files w) (rg_manifests w)"
    and "\<forall>(fault, op) \<in> set ops. op = RegGc \<longrightarrow> (\<forall>n. \<not> fault n)"
  shows "refs_ok s sha (rg_files (fold (reg_step ul sha pe dd) ops w)) (rg_manifests (fold (reg_step ul sha pe dd) ops w))"
  using kept.safe_run [of dd w ops ul pe] assms by (simp add: kept.holds_def)

end

lemma blobs_after_run:
  assumes "settings_ok (config_of dd w)" "\<And>x. digest_ok (sha_digest sha x)"
    and "blobs_ok (config_of dd w) sha (rg_files w) (rg_manifests w)"
  shows "blobs_match dd (config_of dd w) sha (fold (reg_step ul sha pe dd) ops w)"
proof -
  have env: "registry_env (config_of dd w) sha" using assms(1,2) by unfold_locales
  show ?thesis
    using registry_env.blobs_run [OF env refl assms(3), of ul pe ops] by (simp add: blobs_match_def)
qed

text \<open>
  C6: Whatever clients, deletions and collections have done before, in whatever order and with whatever failures of
  the disk and the database, a stored blob has the content its digest names.
\<close>

theorem blobs_content_addressed:
  assumes "settings_ok (config_of dd w)" "\<And>x. digest_ok (sha_digest sha x)"
    and "blobs_ok (config_of dd w) sha (rg_files w) (rg_manifests w)"
    and "w' = fold (reg_step ul sha pe dd) ops w"
  shows "config_of dd w' = config_of dd w \<and> blobs_ok (config_of dd w) sha (rg_files w') (rg_manifests w')"
  using blobs_after_run [OF assms(1,2,3), of ul pe ops] by (simp add: assms(4) blobs_match_def)

text \<open>
  C7: Hence a pulled blob is the one that was asked for: a successful GET of a digest, after any such run,
  answers with content of this digest.
\<close>

theorem pulled_blob_matches:
  assumes "settings_ok (config_of dd w)" "\<And>x. digest_ok (sha_digest sha x)"
    and "blobs_ok (config_of dd w) sha (rg_files w) (rg_manifests w)"
    and "rq_method q = ''GET''" "rq_range q = []" "split_registry_path (v2_path q) ''/blobs/'' = Some (repo, d)" "digest_ok d"
    and "\<not> contains (v2_path q) ''/blobs/uploads/''"
    and "serve_registry ul sha pe dd q ((fold (reg_step ul sha pe dd) ops w)\<lparr>rg_fault := fault\<rparr>) = (r, w')" "rp_status r = 200"
  shows "sha_digest sha (rp_body r) = d"
proof -
  let ?w = "(fold (reg_step ul sha pe dd) ops w)\<lparr>rg_fault := fault\<rparr>" and ?s = "config_of dd w"
  let ?K = "blobs_match dd ?s sha"
  have start: "?K ?w"
    using blobs_after_run [OF assms(1,2,3), of ul pe ops] by (simp add: blobs_match_def config_of_def)
  have keep: "triple ?K m (\<lambda>_. ?K) (\<lambda>r _. rp_status r \<noteq> 200)" if "refuses m" "keeps same_store m" for m :: "'z reg_handler"
    by (rule refuses_kept [OF that]) (auto simp: blobs_match_def same_store_def config_of_def)
  have settings: "triple ?K (or_status 404 (registry_settings_now dd)) (\<lambda>s w. s = ?s \<and> ?K w) (\<lambda>r _. rp_status r \<noteq> 200)"
    by (rule or_status_refuses) (auto simp: triple_def registry_settings_now_def reg_read_def reg_call_def Let_def blobs_match_def config_of_def)
  have "triple ?K (bindE (or_status 404 (registry_settings_now dd)) (\<lambda>s.
      seqE (requires (rs_enabled s) 404) (bindE (authenticate ul sha s q) (\<lambda>c. route sha pe dd s c q))))
      (\<lambda>r _. sha_digest sha (rp_body r) = d) (\<lambda>r _. rp_status r \<noteq> 200)"
    apply (rule triple_bindE [OF settings], rule safe_pure, simp only:)
    apply (rule triple_seqE [OF keep [OF refuses_rules(5) same_requires]], simp)
    apply (rule triple_bindE [OF keep [OF authenticate_refuses same_authenticate]])
    using get_blob_matches [OF assms(1,7,5)] unfolding blob_route [OF assms(4,6,7,8)]
    by (auto intro: triple_throw simp: status_def)
  then show ?thesis
    using start assms(9,10) by (auto simp: serve_registry_def respond_def triple_def split: prod.splits sum.splits)
qed

text \<open>
  C8: The blobs of an active manifest are not lost: as long as the collector meets no failure itself, after any run
  every config and layer named by the stored content of an active manifest is stored.
\<close>

theorem referenced_blobs_kept:
  assumes "settings_ok (config_of dd w)" "\<And>x. digest_ok (sha_digest sha x)"
    and "\<forall>t u. length (t @ u) \<le> max_manifest_bytes \<longrightarrow> sha t = sha (t @ u) \<longrightarrow> u = []"
    and "refs_ok (config_of dd w) sha (rg_files w) (rg_manifests w)"
    and "\<forall>(fault, op) \<in> set ops. op = RegGc \<longrightarrow> (\<forall>n. \<not> fault n)"
    and "w' = fold (reg_step ul sha pe dd) ops w" "m \<in> set (rg_manifests w')" "rm_deleted m = []"
    and "map_of (rg_files w') (manifest_path (config_of dd w) (rm_digest m)) = Some f" "sha_digest sha (rf_data f) = rm_digest m"
      "length (rf_data f) \<le> max_manifest_bytes" "d \<in> set (needed_blobs (rf_data f))"
  shows "map_of (rg_files w') (blob_path (config_of dd w) d) \<noteq> None"
proof -
  have env: "hashed_env (config_of dd w) sha" using assms(1,2,3) by unfold_locales blast+
  have "refs_ok (config_of dd w) sha (rg_files w') (rg_manifests w')"
    unfolding assms(6) by (rule hashed_env.kept_run [OF env refl assms(4,5)])
  then show ?thesis using assms(7-) by (auto simp: refs_ok_def has_blobs_def blobs_stored_def)
qed

section \<open>A registry\<close>

definition sample_sha :: "string \<Rightarrow> string" where
  "sample_sha x = pad 64 (length x)"

definition sample_settings :: registry_settings where
  "sample_settings = \<lparr>rs_enabled = True, rs_prefix = ''p'', rs_dir = ''/d'', rs_quota = 1000, rs_max_repos = 0, rs_max_tags = 0, rs_anonymous = True\<rparr>"

lemma sample_digest_ok: "digest_ok (sha_digest sample_sha x)"
proof -
  have "digest_hex c" if "digit_val c = Some k" for c k
    using that by (auto simp: digest_hex_def digit_val_def Let_def less_eq_char_def split: if_splits)
  then have "digest_hex c" if "c \<in> set (pad 64 (length x))" for c using pad_digits [OF that] by (auto simp: is_digit_def)
  then show ?thesis by (auto simp: digest_ok_iff sha_digest_def sample_sha_def list_all_iff)
qed

lemma sample_prefix_free: "\<forall>t u. length (t @ u) \<le> max_manifest_bytes \<longrightarrow> sample_sha t = sample_sha (t @ u) \<longrightarrow> u = []"
proof (intro allI impI)
  fix t u :: string
  assume len: "length (t @ u) \<le> max_manifest_bytes" and same: "sample_sha t = sample_sha (t @ u)"
  have "(8::nat) * 1024 * 1024 < 10 ^ 64" by simp
  then have "length (t @ u) < 10 ^ 64" "length t < 10 ^ 64" using len unfolding max_manifest_bytes_def by simp_all
  then have "length t = length (t @ u)" using same digits_val_pad unfolding sample_sha_def by (metis option.inject)
  then show "u = []" by simp
qed

lemma sample_config: "settings_ok sample_settings" "rg_config w = sample_settings \<Longrightarrow> config_of [] w = sample_settings"
proof -
  show "settings_ok sample_settings" by code_simp
  have "trim_space ''p'' = ''p''" "trim_space ''/d'' = ''/d''" by (simp_all add: trim_space_graphic graphic_def)
  moreover have "trim_slashes ''p'' = ''p''" "path_clean ''/d'' = ''/d''" "is_abs ''/d''" by code_simp+
  ultimately show "config_of [] w = sample_settings" if "rg_config w = sample_settings" using that
    by (simp add: config_of_def normalize_registry_settings_def normalize_settings_def sample_settings_def Let_def)
qed

interpretation sample: hashed_env sample_settings sample_sha
  by unfold_locales (rule sample_config sample_digest_ok | use sample_prefix_free in blast)+

definition layer_text :: string where
  "layer_text = ''{\"config\":{\"digest\":\"sha256:0000000000000000000000000000000000000000000000000000000000000001\"}}''"

lemma layer_needs: "needed_blobs layer_text = [sha_digest sample_sha ''x'']"
  by code_simp

definition sample_row :: reg_manifest where
  "sample_row = \<lparr>rm_digest = sha_digest sample_sha layer_text, rm_repo = ''r'', rm_media = ''m'', rm_size = 100,
     rm_path = manifest_key sample_settings (sha_digest sample_sha layer_text), rm_pushed_by = ''c1'', rm_pushed_at = ''2026'', rm_deleted = []\<rparr>"

definition sample_cred :: reg_cred where
  "sample_cred = \<lparr>rc_id = ''c1'', rc_name = ''u'', rc_status = ''active'', rc_hash = sample_sha ''pw'',
     rc_scopes = [''registry.pull'', ''registry.push'', ''registry.delete''], rc_prefix = ''r''\<rparr>"

text \<open>One repository with one manifest, whose config blob is stored.\<close>

definition sample_registry :: registry where
  "sample_registry = \<lparr>rg_config = sample_settings,
     rg_files = [(blob_path sample_settings (sha_digest sample_sha ''x''), \<lparr>rf_data = ''x'', rf_mtime = 0\<rparr>),
       (manifest_path sample_settings (sha_digest sample_sha layer_text), \<lparr>rf_data = layer_text, rf_mtime = 0\<rparr>)],
     rg_repos = [\<lparr>rr_name = ''r'', rr_size = 100, rr_tags = 1, rr_pushed = ''2026'', rr_updated = ''2026''\<rparr>], rg_manifests = [sample_row],
     rg_tags = [\<lparr>rt_repo = ''r'', rt_tag = ''t'', rt_digest = sha_digest sample_sha layer_text, rt_updated = ''2026'', rt_deleted = []\<rparr>],
     rg_creds = [sample_cred], rg_limiter = new_backoff 5, rg_fault = (\<lambda>_. False), rg_clock = (\<lambda>_. 0), rg_random = (\<lambda>_. Some ''id''),
     rg_short = (\<lambda>_. 0), rg_calls = 0\<rparr>"

lemma sample_stored:
  "map_of (rg_files sample_registry) (blob_path sample_settings (sha_digest sample_sha ''x'')) = Some \<lparr>rf_data = ''x'', rf_mtime = 0\<rparr>"
  "map_of (rg_files sample_registry) (manifest_path sample_settings (sha_digest sample_sha layer_text)) = Some \<lparr>rf_data = layer_text, rf_mtime = 0\<rparr>"
  using manifest_not_blob by (simp_all add: sample_registry_def)

lemma sample_config_of: "config_of [] sample_registry = sample_settings"
  by (rule sample_config) (simp add: sample_registry_def)

lemma sample_blobs_ok: "blobs_ok sample_settings sample_sha (rg_files sample_registry) (rg_manifests sample_registry)"
proof -
  have "sha_digest sample_sha ''x'' = d"
    if d: "digest_ok d" and f: "map_of (rg_files sample_registry) (blob_path sample_settings d) = Some f" for d f
    using f manifest_not_blob [of sample_settings _ d] blob_path_inj [OF d sample_digest_ok, of sample_settings "''x''"]
    by (auto simp: sample_registry_def split: if_splits)
  moreover have "map_of (rg_files sample_registry) (blob_path sample_settings d) = Some f \<Longrightarrow> rf_data f = ''x''" for d f
    using manifest_not_blob [of sample_settings _ d] by (auto simp: sample_registry_def split: if_splits)
  ultimately show ?thesis
    using sample_digest_ok [of layer_text] by (auto simp: blobs_ok_def sample_registry_def sample_row_def manifest_row_ok_def)
qed

lemma sample_refs_ok: "refs_ok sample_settings sample_sha (rg_files sample_registry) (rg_manifests sample_registry)"
proof -
  have "has_blobs sample_settings sample_sha (rg_files sample_registry) sample_row"
    using sample_stored layer_needs by (simp add: has_blobs_def blobs_stored_def sample_row_def)
  then show ?thesis
    using sample_digest_ok [of layer_text] by (auto simp: refs_ok_def sample_registry_def sample_row_def manifest_row_ok_def)
qed

section \<open>Witnesses\<close>

lemma broken_gc: "rg_fault w = (\<lambda>_. True) \<Longrightarrow> run_registry_gc dd w = (Inl RegFault, w\<lparr>rg_calls := Suc (rg_calls w)\<rparr>)"
  by (simp add: run_registry_gc_def registry_settings_now_def reg_read_def reg_call_def bindE_def Let_def)

theorem blobs_content_addressed_witness:
  "blobs_ok sample_settings sample_sha (rg_files (fold (reg_step id sample_sha id []) [(\<lambda>_. False, RegGc)] sample_registry))
     (rg_manifests (fold (reg_step id sample_sha id []) [(\<lambda>_. False, RegGc)] sample_registry))"
  using blobs_content_addressed [OF _ sample_digest_ok, of "[]" sample_registry, unfolded sample_config_of, OF sample_config(1) sample_blobs_ok refl]
  by blast

theorem referenced_blobs_kept_witness:
  "map_of (rg_files (fold (reg_step id sample_sha id []) [(\<lambda>_. True, RegDeleteTag ''r'' ''t'')] sample_registry))
     (blob_path sample_settings (sha_digest sample_sha ''x'')) \<noteq> None"
proof -
  let ?ops = "[(\<lambda>_. True, RegDeleteTag ''r'' ''t'')]"
  have "snd (delete_registry_tag ''r'' ''t'' w) = w \<or> snd (delete_registry_tag ''r'' ''t'' w) = w\<lparr>rg_calls := Suc (rg_calls w)\<rparr>"
    if "rg_fault w = (\<lambda>_. True)" for w
    using that by (auto simp: delete_registry_tag_def throw_def delete_tag_row_def reg_text_now_def bindE_def get_state_def reg_write_def reg_call_def Let_def)
  from this [of "sample_registry\<lparr>rg_fault := \<lambda>_. True\<rparr>"]
  have run: "rg_files (fold (reg_step id sample_sha id []) ?ops sample_registry) = rg_files sample_registry"
    "rg_manifests (fold (reg_step id sample_sha id []) ?ops sample_registry) = rg_manifests sample_registry"
    by (auto simp: reg_step_def Let_def)
  have len: "length layer_text \<le> max_manifest_bytes" by (simp add: layer_text_def max_manifest_bytes_def)
  have row: "sample_row \<in> set (rg_manifests sample_registry)" "rm_deleted sample_row = []" "rm_digest sample_row = sha_digest sample_sha layer_text"
    by (simp_all add: sample_registry_def sample_row_def)
  have ops: "\<forall>(fault, op) \<in> set ?ops. op = RegGc \<longrightarrow> (\<forall>n. \<not> fault n)" by simp
  note files = sample_stored [folded run(1) row(3)]
  show ?thesis
    using referenced_blobs_kept [where dd = "[]" and w = sample_registry and m = sample_row and ul = id and pe = id and sha = sample_sha,
        unfolded sample_config_of, OF sample_config(1) sample_digest_ok sample_prefix_free sample_refs_ok ops refl _ row(2) files(2)]
      row(1) [folded run(2)] row(3) len layer_needs by simp
qed

definition sample_blob :: string where
  "sample_blob = sha_digest sample_sha ''x''"

definition sample_get :: reg_request where
  "sample_get = \<lparr>rq_method = ''GET'', rq_path = ''/v2/r/blobs/'' @ sample_blob, rq_auth = False, rq_basic = None, rq_ip = ''ip'', rq_body = [],
     rq_whole = True, rq_type = [], rq_range = [], rq_mount = [], rq_digest = []\<rparr>"

lemma digest_validates: "digest_ok d \<Longrightarrow> validate_digest d"
proof -
  assume ok: "digest_ok d"
  have "list_all graphic (''sha256:'' @ hex_part d)" using hex_part_chars(1) [OF ok] by (auto simp: list_all_iff graphic_def)
  then have "list_all graphic d" by (simp only: hex_part_ok(3) [OF ok, symmetric])
  then show ?thesis using ok by (simp add: validate_digest_def trim_space_graphic)
qed

lemma sample_get_path:
  "split_registry_path (v2_path sample_get) ''/blobs/'' = Some (''r'', sample_blob)" "\<not> contains (v2_path sample_get) ''/blobs/uploads/''"
  by code_simp+

lemma settings_read: "\<not> rg_fault w (rg_calls w) \<Longrightarrow> registry_settings_now dd w = (Inr (config_of dd w), w\<lparr>rg_calls := Suc (rg_calls w)\<rparr>)"
  by (simp add: registry_settings_now_def reg_read_def reg_call_def Let_def config_of_def)

lemma get_blob_content:
  assumes "settings_ok s" "digest_ok d" "rg_fault w = (\<lambda>_. False)" "map_of (rg_files w) (blob_path s d) = Some f" "rq_range q = []"
  shows "\<exists>r w'. get_blob s q d w = (Inr r, w') \<and> rp_status r = 200 \<and> rp_body r = rf_data f"
  using assms(3-) by (simp add: get_blob_def Let_def tried_def attempt_def or_status_def backend_head_def backend_open_def with_path_def
      blob_safe_path [OF assms(1,2)] file_stat_def file_read_def reg_read_def reg_call_def bindE_def ret_def trim_space_graphic
      parse_byte_range_def has_prefix_def status_def)

lemma sample_get_served:
  assumes "rg_config w = sample_settings" "rg_fault w = (\<lambda>_. False)" "rg_files w = rg_files sample_registry"
  shows "\<exists>r w'. serve_registry id sample_sha id [] sample_get w = (r, w') \<and> rp_status r = 200 \<and> rp_body r = ''x''"
proof -
  let ?w = "w\<lparr>rg_calls := Suc (rg_calls w)\<rparr>"
  obtain r w' where page: "get_blob sample_settings sample_get sample_blob ?w = (Inr r, w')" "rp_status r = 200" "rp_body r = ''x''"
    using get_blob_content [OF sample_config(1) sample_digest_ok [of "''x''"], of ?w _ sample_get] sample_stored(1) assms
    by (auto simp: sample_blob_def sample_get_def)
  have settings: "registry_settings_now [] w = (Inr sample_settings, ?w)"
    using settings_read [of w "[]"] sample_config(2) [OF assms(1)] assms(2) by simp
  have auth: "authenticate id sample_sha sample_settings sample_get ?w = (Inr anonymous_cred, ?w)"
    by (simp add: authenticate_def sample_get_def sample_settings_def reads_only_def bindE_def get_state_def ret_def)
  have "digest_ok sample_blob" unfolding sample_blob_def by (rule sample_digest_ok)
  then have "route sample_sha id [] sample_settings c sample_get = get_blob sample_settings sample_get sample_blob" for c
    using blob_route [OF _ sample_get_path(1) _ sample_get_path(2)] digest_validates by (simp add: sample_get_def)
  then show ?thesis
    using page settings auth by (simp add: serve_registry_def respond_def or_status_def bindE_def seqE_def requires_def ret_def sample_settings_def)
qed

theorem pulled_blob_matches_witness:
  "\<exists>r w'. serve_registry id sample_sha id [] sample_get
      ((fold (reg_step id sample_sha id []) [(\<lambda>_. True, RegGc)] sample_registry)\<lparr>rg_fault := \<lambda>_. False\<rparr>) = (r, w') \<and>
    rp_status r = 200 \<and> sha_digest sample_sha (rp_body r) = sample_blob"
proof -
  let ?w = "(fold (reg_step id sample_sha id []) [(\<lambda>_. True, RegGc)] sample_registry)\<lparr>rg_fault := \<lambda>_. False\<rparr>"
  have w: "rg_config ?w = sample_settings" "rg_fault ?w = (\<lambda>_. False)" "rg_files ?w = rg_files sample_registry"
    by (simp_all add: reg_step_def Let_def broken_gc) (simp add: sample_registry_def)
  obtain r w' where run: "serve_registry id sample_sha id [] sample_get ?w = (r, w')" "rp_status r = 200"
    using sample_get_served [OF w] by blast
  have get: "rq_method sample_get = ''GET''" "rq_range sample_get = []" by (simp_all add: sample_get_def)
  have "sha_digest sample_sha (rp_body r) = sample_blob"
    using pulled_blob_matches [where dd = "[]" and w = sample_registry, unfolded sample_config_of, OF sample_config(1) sample_digest_ok sample_blobs_ok
        get sample_get_path(1) _ sample_get_path(2) run] sample_digest_ok [of "''x''"] by (simp add: sample_blob_def)
  then show ?thesis using run by blast
qed

end
