(* ===== verification/RegistryRequests.thy ===== *)
theory RegistryRequests
  imports RegistryRuns
begin

text \<open>
  What a request changes.  Only an authenticated PUT or DELETE whose credential has the scope and the
  repository prefix changes rows, and only rows of its repository; and a pushed manifest is what a pull
  answers, unless its content is known from another repository.
\<close>

section \<open>Rows of other repositories\<close>

definition same_rows :: "registry \<Rightarrow> registry \<Rightarrow> bool" where
  "same_rows w w' \<longleftrightarrow> rg_manifests w' = rg_manifests w \<and> rg_tags w' = rg_tags w \<and> rg_repos w' = rg_repos w \<and> rg_creds w' = rg_creds w"

interpretation rows: frame_relation same_rows
  by unfold_locales (auto simp: same_rows_def)

lemma rows_of_store: "keeps same_store m \<Longrightarrow> keeps same_rows m"
  by (simp add: keeps_def same_store_def same_rows_def)

lemma rows_call: "(\<And>w. same_rows w (snd (op w))) \<Longrightarrow> keeps same_rows (reg_call op)"
  by (auto simp: keeps_def reg_call_def Let_def same_rows_def)

lemma rows_or_status: "keeps same_rows m \<Longrightarrow> keeps same_rows (or_status n m)"
  unfolding keeps_def or_status_def by (auto split: prod.splits sum.splits) (metis snd_conv)+

lemma rows_tried: "keeps same_rows m \<Longrightarrow> keeps same_rows (tried m)"
  unfolding tried_def by (rule rows.keeps_attempt)

lemma rows_append: "keeps same_rows (file_append p data)"
  by (auto simp: keeps_def file_append_def Let_def same_rows_def split: option.split)

lemmas request_rows = rows.keeps_rules rows_or_status rows_tried rows_append

lemma rows_files:
  "keeps same_rows (file_remove p)" "keeps same_rows (file_open_append p)" "keeps same_rows (file_rename p b)" "keeps same_rows (reg_write id)"
  "keeps same_rows (file_write p data)"
  by (auto simp: file_remove_def file_open_append_def file_rename_def reg_write_def file_write_def same_rows_def
      intro!: rows_call request_rows split: option.split)

lemma rows_backend:
  "keeps same_rows (backend_put_bytes root key data)" "keeps same_rows (backend_put_file root key p)" "keeps same_rows (copy_body p q)"
  "keeps same_rows (backend_delete root key)"
  by (auto simp: backend_put_bytes_def backend_put_file_def copy_body_def backend_delete_def with_path_def intro!: request_rows rows_files
      split: option.split)

lemma rows_finish: "keeps same_rows (finish_upload sha s q repo p)"
  unfolding finish_upload_def Let_def
  by (auto intro!: request_rows rows_files rows_backend rows_of_store [OF same_requires] rows_of_store [OF same_reads(8)] rows_of_store [OF same_reads(7)]
      rows_of_store [OF same_checks(1)] split: sum.split)

lemma rows_upload: "keeps same_rows (handle_blob_upload sha pe s c q path)"
  unfolding handle_blob_upload_def Let_def
  by (auto intro!: request_rows rows_files rows_backend rows_finish rows_of_store [OF same_requires] rows_of_store [OF same_start_upload]
      rows_of_store [OF same_checks(4)] split: option.split)

text \<open>
  The manifest rows of the other repositories.  The table has the digest alone as its key, so a push rewrites the
  row with the pushed digest wherever it is: of the rows with a digest in \<open>ds\<close> only digest and repository are seen,
  of all others every column.
\<close>

definition other_manifests :: "string \<Rightarrow> string set \<Rightarrow> reg_manifest list \<Rightarrow> (reg_manifest + string \<times> string) list" where
  "other_manifests repo ds ms =
     map (\<lambda>m. if rm_digest m \<in> ds then Inr (rm_digest m, rm_repo m) else Inl m) (filter (\<lambda>m. rm_repo m \<noteq> repo) ms)"

definition only_repo :: "string \<Rightarrow> string set \<Rightarrow> registry \<Rightarrow> registry \<Rightarrow> bool" where
  "only_repo repo ds w w' \<longleftrightarrow>
     other_manifests repo ds (rg_manifests w') = other_manifests repo ds (rg_manifests w) \<and>
     filter (\<lambda>t. rt_repo t \<noteq> repo) (rg_tags w') = filter (\<lambda>t. rt_repo t \<noteq> repo) (rg_tags w) \<and>
     filter (\<lambda>r. rr_name r \<noteq> repo) (rg_repos w') = filter (\<lambda>r. rr_name r \<noteq> repo) (rg_repos w) \<and>
     rg_creds w' = rg_creds w"

interpretation only: frame_relation "only_repo repo ds" for repo ds
  by unfold_locales (auto simp: only_repo_def)

lemma only_of_rows: "keeps same_rows m \<Longrightarrow> keeps (only_repo repo ds) m"
  by (simp add: keeps_def same_rows_def only_repo_def)

lemma only_repo_write: "(\<And>w. only_repo repo ds w (f w)) \<Longrightarrow> keeps (only_repo repo ds) (reg_write f)"
  by (auto simp: keeps_def reg_write_def reg_call_def Let_def only_repo_def)

lemma only_tx:
  assumes "keeps (only_repo repo ds) m"
  shows "keeps (only_repo repo ds) (reg_tx m)"
proof -
  have body: "keeps (only_repo repo ds) (bindE (reg_write id) (\<lambda>_. bindE m (\<lambda>x. seqE (reg_write id) (ret x))))"
    by (intro only.keeps_rules only_repo_write assms) (simp_all add: only_repo_def)
  show ?thesis
    unfolding keeps_def
  proof
    fix w show "only_repo repo ds w (snd (reg_tx m w))"
      using keepsD [OF body, of w]
      by (auto simp: reg_tx_def split: prod.split sum.split) (simp add: only_repo_def)
  qed
qed

lemma filter_map_same: "(\<And>x. x \<in> set xs \<Longrightarrow> P (f x) = P x \<and> (P x \<longrightarrow> f x = x)) \<Longrightarrow> filter P (map f xs) = filter P xs"
  by (induction xs) auto

lemma others_map_same:
  assumes "\<And>m. rm_repo (f m) = rm_repo m \<and> rm_digest (f m) = rm_digest m" "\<And>m. rm_repo m \<noteq> repo \<Longrightarrow> rm_digest m \<notin> ds \<Longrightarrow> f m = m"
  shows "other_manifests repo ds (map f ms) = other_manifests repo ds ms"
  using assms by (induction ms) (simp_all add: other_manifests_def)

lemma only_upsert: "keeps (only_repo (rm_repo m) {rm_digest m}) (upsert_manifest m tag)"
proof -
  have row: "other_manifests (rm_repo m') {rm_digest m'} (upsert_manifest_row m' ms) = other_manifests (rm_repo m') {rm_digest m'} ms" for m' ms
  proof (cases "list_ex (\<lambda>r. rm_digest r = rm_digest m') ms")
    case True
    then show ?thesis unfolding upsert_manifest_row_def if_P [OF True] by (intro others_map_same) simp_all
  qed (simp add: upsert_manifest_row_def other_manifests_def)
  have "keeps (only_repo (rm_repo m) {rm_digest m}) (reg_write (\<lambda>w. w\<lparr>rg_manifests := upsert_manifest_row (m\<lparr>rm_pushed_at := now\<rparr>) (rg_manifests w)\<rparr>))" for now
    by (rule only_repo_write) (use row [of "m\<lparr>rm_pushed_at := now\<rparr>"] in \<open>simp add: only_repo_def\<close>)
  moreover have "keeps (only_repo (rm_repo m) {rm_digest m}) (reg_write (\<lambda>w. w\<lparr>rg_repos := upsert_repo_row (rm_repo m) (rm_size m) now (rg_repos w)\<rparr>))" for now
    by (rule only_repo_write) (auto simp: only_repo_def upsert_repo_row_def filter_map_same)
  moreover have "keeps (only_repo (rm_repo m) {rm_digest m}) (reg_write (\<lambda>w. w\<lparr>rg_tags := upsert_tag_row (rm_repo m) tag (rm_digest m) now (rg_tags w)\<rparr>))" for now
    by (rule only_repo_write) (auto simp: only_repo_def upsert_tag_row_def filter_map_same)
  moreover have "keeps (only_repo (rm_repo m) {rm_digest m}) (reg_write (count_tags (rm_repo m)))"
    by (rule only_repo_write) (auto simp: only_repo_def count_tags_def filter_map_same)
  ultimately show ?thesis
    unfolding upsert_manifest_def
    by (intro only.keeps_rules only_tx only_of_rows [OF rows_of_store [OF same_now]] only_of_rows [OF rows_of_store [OF same_reads(9)]])
qed

lemma only_push: "keeps (only_repo repo {sha_digest sha (rq_body q)}) (push_manifest sha s c q repo ref)"
proof -
  have upsert: "keeps (only_repo repo {sha_digest sha (rq_body q)}) (upsert_manifest m tag)" if "rm_repo m = repo" "rm_digest m = sha_digest sha (rq_body q)" for m tag
    using only_upsert [of m tag] that by simp
  have tried: "keeps (only_repo repo {sha_digest sha (rq_body q)}) (tried (upsert_manifest m tag))" if "rm_repo m = repo" "rm_digest m = sha_digest sha (rq_body q)" for m tag
    unfolding tried_def by (rule only.keeps_attempt [OF upsert [OF that]])
  show ?thesis
    unfolding push_manifest_def Let_def
    by (intro only.keeps_rules tried only_of_rows [OF rows_or_status [OF rows_backend(1)]] only_of_rows [OF rows_of_store] same_rules
        same_missing same_checks) simp_all
qed

lemma only_delete: "keeps (only_repo repo ds) (delete_registry_manifest dd repo digest)"
proof -
  have tags: "keeps (only_repo repo ds) (reg_write (\<lambda>w. w\<lparr>rg_tags := map (\<lambda>t. if rt_repo t = repo \<and> P t then t\<lparr>rt_deleted := now\<rparr> else t) (rg_tags w)\<rparr>))" for P now
    by (rule only_repo_write) (auto simp: only_repo_def filter_map_same)
  have manifests: "keeps (only_repo repo ds)
      (reg_write (\<lambda>w. w\<lparr>rg_manifests := map (\<lambda>m. if rm_repo m = repo \<and> P m then m\<lparr>rm_deleted := now\<rparr> else m) (rg_manifests w)\<rparr>))" for P now
    by (rule only_repo_write) (auto simp: only_repo_def others_map_same)
  show ?thesis
    unfolding delete_registry_manifest_def delete_manifest_rows_def
    by (auto intro!: only.keeps_rules only_tx tags manifests only_of_rows [OF rows_backend(4)] only_of_rows [OF rows_of_store [OF same_now]]
        only_of_rows [OF rows_of_store [OF same_reads(1)]] only_of_rows [OF rows_of_store [OF same_reads(10)]]
        split: sum.split)
qed

section \<open>Authority\<close>

definition authenticated :: "(string \<Rightarrow> string) \<Rightarrow> reg_request \<Rightarrow> reg_cred \<Rightarrow> registry \<Rightarrow> bool" where
  "authenticated sha q c w \<longleftrightarrow> c \<in> set (rg_creds w) \<and> rc_status c = ''active'' \<and> rq_basic q \<noteq> None \<and>
     rc_name c = fst (the (rq_basic q)) \<and> rc_hash c = sha (snd (the (rq_basic q)))"

definition within_prefix :: "reg_cred \<Rightarrow> string \<Rightarrow> bool" where
  "within_prefix c repo \<longleftrightarrow> repo = [] \<or> has_prefix repo (trim_prefix (rc_prefix c) ''/'')"

definition may_change :: "reg_request \<Rightarrow> reg_cred \<Rightarrow> bool" where
  "may_change q c \<longleftrightarrow> rq_method q = ''PUT'' \<and> has_scope (rc_scopes c) ''registry.push'' \<or> rq_method q = ''DELETE'' \<and> has_scope (rc_scopes c) ''registry.delete''"

text \<open>A push may rewrite the row with the digest of its document.\<close>

definition pushed_digests :: "(string \<Rightarrow> string) \<Rightarrow> reg_request \<Rightarrow> string set" where
  "pushed_digests sha q = (if rq_method q = ''PUT'' then {sha_digest sha (rq_body q)} else {})"

definition changes :: "registry \<Rightarrow> bool \<Rightarrow> string \<Rightarrow> string set \<Rightarrow> registry \<Rightarrow> bool" where
  "changes w0 allowed repo ds w \<longleftrightarrow> same_rows w0 w \<or> allowed \<and> only_repo repo ds w0 w"

lemma changes_frame:
  assumes "keeps same_rows m"
  shows "triple (same_rows w0) m (\<lambda>_. changes w0 b repo ds) (\<lambda>_. changes w0 b repo ds)"
  using keepsD [OF assms] rows.frame_trans by (intro tripleI) (auto simp: changes_def)

lemma changes_only:
  assumes "keeps (only_repo repo ds) m" "b"
  shows "triple (same_rows w0) m (\<lambda>_. changes w0 b repo ds) (\<lambda>_. changes w0 b repo ds)"
proof -
  have "only_repo repo ds w0 w" if "same_rows w0 w" for w using that by (simp add: same_rows_def only_repo_def)
  then have "changes w0 b repo ds w'" if "same_rows w0 w" "m w = (r, w')" for w r w'
    using only.frame_trans [OF _ keepsD [OF assms(1) that(2)]] that(1) assms(2) unfolding changes_def by blast
  then show ?thesis by (auto intro: tripleI)
qed

lemma changes_required:
  assumes "keeps (only_repo repo ds) m" "g \<Longrightarrow> b"
  shows "triple (same_rows w0) (seqE (requires g n) m) (\<lambda>_. changes w0 b repo ds) (\<lambda>_. changes w0 b repo ds)"
proof (cases g)
  case True
  then show ?thesis using changes_only [OF assms(1) assms(2)] by (simp add: requires_def seqE_def)
qed (simp add: requires_def seqE_def triple_throw changes_def)

lemma only_or_status: "keeps (only_repo repo ds) m \<Longrightarrow> keeps (only_repo repo ds) (or_status n m)"
  unfolding keeps_def or_status_def by (auto split: prod.splits sum.splits) (metis snd_conv)+

lemma manifest_repo: "split_registry_path p ''/manifests/'' = Some (repo, ref) \<Longrightarrow> registry_repo_from_path p = repo"
  by (simp add: registry_repo_from_path_def)

lemma manifest_changes:
  "triple (same_rows w0) (handle_manifest sha dd s c q (v2_path q)) (\<lambda>_. changes w0 (may_change q c) (registry_repo_from_path (v2_path q)) (pushed_digests sha q))
     (\<lambda>_. changes w0 (may_change q c) (registry_repo_from_path (v2_path q)) (pushed_digests sha q))"
proof (cases "split_registry_path (v2_path q) ''/manifests/''")
  case (Some x)
  obtain repo ref where x: "split_registry_path (v2_path q) ''/manifests/'' = Some (repo, ref)" using Some by (cases x) auto
  note at = manifest_repo [OF x]
  let ?b = "may_change q c"
  have refused: "triple (same_rows w0) (throw x) (\<lambda>_. changes w0 ?b repo (pushed_digests sha q)) (\<lambda>_. changes w0 ?b repo (pushed_digests sha q))"
    and "triple (same_rows w0) (ret x) (\<lambda>_. changes w0 ?b repo (pushed_digests sha q)) (\<lambda>_. changes w0 ?b repo (pushed_digests sha q))" for x :: reg_response
    by (auto intro!: triple_throw triple_ret simp: changes_def)
  moreover have "triple (same_rows w0) (push_manifest sha s c q repo ref) (\<lambda>_. changes w0 ?b repo (pushed_digests sha q)) (\<lambda>_. changes w0 ?b repo (pushed_digests sha q))"
    if "rq_method q = ''PUT''"
  proof (cases "has_scope (rc_scopes c) ''registry.push''")
    case True
    then show ?thesis using that changes_only [OF only_push [of repo sha q]] by (simp add: may_change_def pushed_digests_def)
  qed (use refused in \<open>simp add: push_manifest_def requires_def seqE_def\<close>)
  moreover have "triple (same_rows w0) (seqE (requires (has_scope (rc_scopes c) ''registry.delete'') 403)
      (seqE (or_status 404 (delete_registry_manifest dd repo ref)) (ret (status 202)))) (\<lambda>_. changes w0 ?b repo (pushed_digests sha q)) (\<lambda>_. changes w0 ?b repo (pushed_digests sha q))"
    if "rq_method q = ''DELETE''"
    by (rule changes_required, intro only.keeps_rules only_or_status only_delete) (use that in \<open>simp add: may_change_def\<close>)
  moreover have "triple (same_rows w0) (pull_manifest s q repo ref) (\<lambda>_. changes w0 ?b repo (pushed_digests sha q)) (\<lambda>_. changes w0 ?b repo (pushed_digests sha q))"
    by (rule changes_frame [OF rows_of_store [OF same_pull]])
  ultimately show ?thesis unfolding at by (auto simp: handle_manifest_def x)
qed (auto simp: handle_manifest_def changes_def intro: triple_throw)

lemma route_changes:
  "triple (same_rows w0) (route sha pe dd s c q) (\<lambda>_. changes w0 (may_change q c) (registry_repo_from_path (v2_path q)) (pushed_digests sha q))
     (\<lambda>_. changes w0 (may_change q c) (registry_repo_from_path (v2_path q)) (pushed_digests sha q))"
  unfolding route_def Let_def
  by (auto intro!: manifest_changes changes_frame [OF rows_upload] changes_frame [OF rows_of_store [OF same_blob]]
      changes_frame [OF rows_of_store [OF same_catalog]] changes_frame [OF rows_of_store [OF same_tags_list]]
      changes_frame [OF rows.keeps_ret] changes_frame [OF rows.keeps_throw])

text \<open>Who a request is taken for.\<close>

definition taken_for :: "(string \<Rightarrow> string) \<Rightarrow> reg_request \<Rightarrow> registry \<Rightarrow> reg_cred \<Rightarrow> bool" where
  "taken_for sha q w0 c \<longleftrightarrow> reads_only q \<or> authenticated sha q c w0 \<and> within_prefix c (registry_repo_from_path (v2_path q))"

lemma authenticate_who:
  "triple (\<lambda>w. rg_creds w = rg_creds w0) (authenticate ul sha s q) (\<lambda>c _. taken_for sha q w0 c) (\<lambda>_ _. True)"
proof (cases "rq_basic q")
  case None
  then show ?thesis
    by (auto simp: triple_def authenticate_def bindE_def get_state_def seqE_def whenE_def limiter_failure_def modify_def throw_def ret_def taken_for_def)
next
  case (Some up)
  obtain user pass where up: "up = (user, pass)" by fastforce
  have "taken_for sha q w0 c" if "find (\<lambda>c. rc_name c = user) (rg_creds w0) = Some c" "rc_status c = ''active''" "rc_hash c = sha pass"
      "registry_repo_from_path (v2_path q) = [] \<or> has_prefix (registry_repo_from_path (v2_path q)) (trim_prefix (rc_prefix c) ''/'')" for c
    using that find_SomeD [OF that(1)] Some up by (auto simp: taken_for_def authenticated_def within_prefix_def)
  then show ?thesis
    using Some up
    by (auto simp: triple_def authenticate_def bindE_def get_state_def seqE_def limiter_failure_def modify_def throw_def ret_def requires_def Let_def
        tried_def attempt_def credential_by_name_def reg_read_def reg_call_def split: prod.split sum.split option.split)
qed

text \<open>
  C9: A request changes repositories, tags and manifests only for an active credential it proves to hold, only
  with the push or the delete scope, and only in a repository with the credential's prefix.  No tag and no
  repository elsewhere changes, no manifest row of another repository appears, goes or is moved, and every one of
  them keeps all its columns, but for one case: a push rewrites the columns of a row with the pushed digest even
  where it belongs to another repository, and then leaves it only its digest and repository.
\<close>

theorem request_scope:
  fixes q :: reg_request and w :: registry
  defines "repo \<equiv> registry_repo_from_path (v2_path q)"
  shows "same_rows w (snd (serve_registry ul sha pe dd q w)) \<or>
    (\<exists>c. authenticated sha q c w \<and> within_prefix c repo \<and> may_change q c \<and> only_repo repo (pushed_digests sha q) w (snd (serve_registry ul sha pe dd q w)))"
proof -
  let ?Q = "\<lambda>w'. same_rows w w' \<or> (\<exists>c. authenticated sha q c w \<and> within_prefix c repo \<and> may_change q c \<and> only_repo repo (pushed_digests sha q) w w')"
  have keep: "triple (same_rows w) m (\<lambda>_. same_rows w) (\<lambda>_. ?Q)" if "keeps same_store m" for m :: "'z reg_handler"
    by (rule tripleI) (use rows.frame_trans keepsD [OF rows_of_store [OF that]] in blast)+
  have auth: "triple (same_rows w) (authenticate ul sha s q) (\<lambda>c w'. taken_for sha q w c \<and> same_rows w w') (\<lambda>_. ?Q)" for s
    by (rule triple_conseq [OF triple_and [OF authenticate_who [of w] keep [OF same_authenticate]]]) (auto simp: same_rows_def)
  have acted: "triple (same_rows w) (route sha pe dd s c q) (\<lambda>_. ?Q) (\<lambda>_. ?Q)" if "taken_for sha q w c" for s c
  proof -
    have "?Q w'" if "changes w (may_change q c) (registry_repo_from_path (v2_path q)) (pushed_digests sha q) w'" for w'
      using that \<open>taken_for sha q w c\<close> by (auto simp: changes_def taken_for_def repo_def may_change_def reads_only_def)
    then show ?thesis by (intro triple_conseq [OF route_changes]) assumption+
  qed
  have "triple (same_rows w) (bindE (or_status 404 (registry_settings_now dd)) (\<lambda>s.
      seqE (requires (rs_enabled s) 404) (bindE (authenticate ul sha s q) (\<lambda>c. route sha pe dd s c q)))) (\<lambda>_. ?Q) (\<lambda>_. ?Q)"
    by (rule triple_bindE [OF keep [OF same_or_status [OF same_reads(1)]]], rule triple_seqE [OF keep [OF same_requires]],
        rule triple_bindE [OF auth], rule safe_pure, rule acted)
  moreover have "same_rows w w" by (simp add: same_rows_def)
  ultimately show ?thesis
    by (auto simp: serve_registry_def respond_def triple_def split: prod.split sum.split)
qed

section \<open>Push and pull\<close>

definition pushed_row ::
  "(string \<Rightarrow> string) \<Rightarrow> registry_settings \<Rightarrow> reg_cred \<Rightarrow> reg_request \<Rightarrow> string \<Rightarrow> reg_manifest" where
  "pushed_row sha s c q repo =
     \<lparr>rm_digest = sha_digest sha (rq_body q), rm_repo = repo,
      rm_media = (if rq_type q = [] then ''application/vnd.oci.image.manifest.v1+json'' else rq_type q), rm_size = int (length (rq_body q)),
      rm_path = manifest_key s (sha_digest sha (rq_body q)), rm_pushed_by = rc_id c, rm_pushed_at = [], rm_deleted = []\<rparr>"

definition pushed_tag :: "string \<Rightarrow> string" where
  "pushed_tag ref = (if \<not> has_prefix ref ''sha256:'' \<and> tag_ok ref then ref else [])"

text \<open>The registry while nothing fails.\<close>

definition calm_rows :: "registry \<Rightarrow> registry \<Rightarrow> bool" where
  "calm_rows w0 w \<longleftrightarrow> same_rows w0 w \<and> rg_fault w = (\<lambda>_. False) \<and> rg_random w = rg_random w0"

definition stored_at :: "string \<Rightarrow> string \<Rightarrow> registry \<Rightarrow> bool" where
  "stored_at p data w \<longleftrightarrow> map_option rf_data (map_of (rg_files w) p) = Some data"

lemma calm_store: "same_store w w' \<Longrightarrow> calm_rows w0 w \<Longrightarrow> calm_rows w0 w'"
  by (simp add: same_store_def calm_rows_def same_rows_def)

lemma calm_keep: "keeps same_store m \<Longrightarrow> triple (calm_rows w0) m (\<lambda>_. calm_rows w0) (\<lambda>_ _. True)"
  by (rule triple_conseq [OF same_triple [of m "calm_rows w0"]]) (auto intro: calm_store)

lemma put_calm:
  assumes "settings_ok s" "digest_ok d"
  shows "triple (calm_rows w0) (backend_put_bytes (rs_dir s) (manifest_key s d) body)
    (\<lambda>_ w. calm_rows w0 w \<and> stored_at (manifest_path s d) body w) (\<lambda>_ _. True)"
  by (rule tripleI)
    (auto simp: backend_put_bytes_def with_path_def manifest_safe_path [OF assms] file_write_def file_append_def reg_write_def reg_call_def seqE_def
      bindE_def Let_def calm_rows_def same_rows_def stored_at_def)

text \<open>The tables after the transaction.\<close>

definition upserted :: "registry \<Rightarrow> reg_manifest \<Rightarrow> string \<Rightarrow> registry \<Rightarrow> bool" where
  "upserted w0 m tag w \<longleftrightarrow> rg_fault w = (\<lambda>_. False) \<and>
     (\<exists>now. rg_manifests w = upsert_manifest_row (m\<lparr>rm_pushed_at := now\<rparr>) (rg_manifests w0) \<and>
        rg_tags w = (if tag = [] then rg_tags w0 else upsert_tag_row (rm_repo m) tag (rm_digest m) now (rg_tags w0)))"

lemma upsert_calm:
  assumes "\<forall>n. rg_random w0 n \<noteq> None"
  shows "triple (\<lambda>w. calm_rows w0 w \<and> stored_at p data w) (upsert_manifest m tag) (\<lambda>_ w. upserted w0 m tag w \<and> stored_at p data w) (\<lambda>_ _. False)"
proof -
  have "(\<exists>w'. upsert_manifest m tag w = (Inr (), w') \<and> upserted w0 m tag w' \<and> stored_at p data w')"
    if w: "calm_rows w0 w" "stored_at p data w" for w
  proof -
    obtain rid where rid: "rg_random w (Suc (Suc (rg_calls w))) = Some rid" using w(1) assms by (metis calm_rows_def not_None_eq)
    then show ?thesis
      using w by (cases "tag = []")
        (auto simp: upsert_manifest_def reg_text_now_def get_state_def reg_tx_def random_id_def reg_read_def reg_write_def reg_call_def Let_def bindE_def
          seqE_def whenE_def ret_def count_tags_def calm_rows_def same_rows_def upserted_def stored_at_def)
  qed
  then show ?thesis by (fastforce intro: tripleI)
qed

lemma or_status_any: "triple P m Q (\<lambda>_ _. True) \<Longrightarrow> triple P (or_status n m) Q (\<lambda>_ _. True)"
  by (fastforce simp: triple_def or_status_def split: prod.splits sum.splits)

lemma tried_calm: "triple P m (\<lambda>_. Q) (\<lambda>_ _. False) \<Longrightarrow> triple P (tried m) (\<lambda>_. Q) E"
  unfolding tried_def by (rule triple_attempt) (erule triple_conseq; simp)

lemma push_calm:
  assumes "settings_ok s" "\<And>x. digest_ok (sha_digest sha x)" "\<forall>n. rg_random w0 n \<noteq> None"
  shows "triple (calm_rows w0) (push_manifest sha s c q repo ref)
    (\<lambda>r w. upserted w0 (pushed_row sha s c q repo) (pushed_tag ref) w \<and>
      stored_at (manifest_path s (sha_digest sha (rq_body q))) (rq_body q) w \<and>
      rp_status r = 201 \<and> rp_digest r = sha_digest sha (rq_body q)) (\<lambda>_ _. True)"
  unfolding push_manifest_def Let_def pushed_row_def [symmetric] pushed_tag_def [symmetric]
  apply (rule triple_seqE [OF calm_keep [OF same_requires]])
  apply (rule triple_seqE [OF calm_keep [OF same_requires]])
  apply (rule triple_bindE [OF calm_keep [OF same_or_status [OF same_missing]]])
  apply (rule triple_seqE [OF calm_keep [OF same_requires]])
  apply (rule triple_seqE [OF calm_keep [OF same_or_status [OF same_checks(2)]]])
  apply (rule triple_seqE [OF calm_keep [OF same_or_status [OF same_checks(1)]]])
  apply (rule triple_seqE [OF or_status_any [OF put_calm [OF assms(1,2)]]])
  apply (rule triple_seqE [OF tried_calm [OF upsert_calm [OF assms(3)]]])
  apply (rule triple_ret)
  apply (simp add: status_def)
  done

lemma upsert_row_in:
  assumes "m' \<in> set (upsert_manifest_row m ms)" "rm_digest m' = rm_digest m"
  shows "m' = m\<lparr>rm_repo := rm_repo m', rm_deleted := []\<rparr>"
  using assms by (auto simp: upsert_manifest_row_def list_ex_iff split: if_splits)

lemma upsert_keeps_repo:
  assumes "m' \<in> set (upsert_manifest_row m ms)" "list_ex (\<lambda>r. rm_digest r = rm_digest m) ms" "rm_digest m' = rm_digest m"
  shows "\<exists>x \<in> set ms. rm_digest x = rm_digest m \<and> rm_repo m' = rm_repo x"
  using assms(1,3) unfolding upsert_manifest_row_def if_P [OF assms(2)] by (auto split: if_splits)

lemma find_ex: "\<exists>x \<in> set xs. P x \<Longrightarrow> \<exists>y. find P xs = Some y"
  by (induction xs) auto

lemma changed_in: "x \<in> set xs \<Longrightarrow> P x \<Longrightarrow> Q (f x) \<Longrightarrow> \<exists>y \<in> set (map (\<lambda>x. if P x then f x else x) xs). Q y"
proof (rule bexI [of _ "f x"])
  assume "x \<in> set xs" "P x"
  then have "f x = (if P x then f x else x)" by simp
  then show "f x \<in> set (map (\<lambda>x. if P x then f x else x) xs)" using \<open>x \<in> set xs\<close> unfolding set_map by (rule image_eqI)
qed

lemma upsert_row_repo:
  assumes "\<forall>m' \<in> set ms. rm_digest m' = rm_digest m \<longrightarrow> rm_repo m' = rm_repo m"
  shows "\<exists>m'. find (\<lambda>r. rm_digest r = rm_digest m \<and> rm_repo r = rm_repo m \<and> rm_deleted r = []) (upsert_manifest_row m ms) = Some m' \<and>
    m' = m\<lparr>rm_deleted := []\<rparr>"
proof -
  let ?P = "\<lambda>r. rm_digest r = rm_digest m \<and> rm_repo r = rm_repo m \<and> rm_deleted r = []"
  have "\<exists>r \<in> set (upsert_manifest_row m ms). ?P r"
  proof (cases "list_ex (\<lambda>r. rm_digest r = rm_digest m) ms")
    case True
    then obtain r where r: "r \<in> set ms" "rm_digest r = rm_digest m" by (auto simp: list_ex_iff)
    have "?P (m\<lparr>rm_repo := rm_repo r, rm_deleted := []\<rparr>)" using assms r by simp
    with r show ?thesis unfolding upsert_manifest_row_def if_P [OF True] by (rule changed_in)
  qed (simp add: upsert_manifest_row_def)
  from find_ex [OF this] obtain m' where m': "find ?P (upsert_manifest_row m ms) = Some m'" ..
  note found = find_SomeD [OF m']
  then have "m' = m\<lparr>rm_repo := rm_repo m', rm_deleted := []\<rparr>" using upsert_row_in by blast
  then have "m' = m\<lparr>rm_deleted := []\<rparr>" using found by (metis (mono_tags, lifting) reg_manifest.surjective reg_manifest.update_convs(2))
  then show ?thesis using m' by blast
qed

lemma upsert_tag_found:
  assumes "tag \<noteq> []"
  shows "\<exists>t. find (\<lambda>t. rt_repo t = repo \<and> rt_tag t = tag \<and> rt_deleted t = []) (upsert_tag_row repo tag d now ts) = Some t \<and> rt_digest t = d"
proof -
  let ?P = "\<lambda>t. rt_repo t = repo \<and> rt_tag t = tag \<and> rt_deleted t = []"
  have "\<exists>t \<in> set (upsert_tag_row repo tag d now ts). ?P t"
  proof (cases "list_ex (\<lambda>t. rt_repo t = repo \<and> rt_tag t = tag) ts")
    case True
    then obtain t where t: "t \<in> set ts" "rt_repo t = repo \<and> rt_tag t = tag" by (auto simp: list_ex_iff)
    have "?P (t\<lparr>rt_digest := d, rt_updated := now, rt_deleted := []\<rparr>)" using t(2) by simp
    with t show ?thesis unfolding upsert_tag_row_def if_P [OF True] by (rule changed_in)
  qed (simp add: upsert_tag_row_def)
  from find_ex [OF this] obtain t where t: "find ?P (upsert_tag_row repo tag d now ts) = Some t" ..
  have "rt_digest t' = d" if "t' \<in> set (upsert_tag_row repo tag d now ts)" "rt_repo t' = repo" "rt_tag t' = tag" for t'
  proof (cases "list_ex (\<lambda>t. rt_repo t = repo \<and> rt_tag t = tag) ts")
    case True
    from that(1) obtain x where x: "x \<in> set ts"
      "t' = (if rt_repo x = repo \<and> rt_tag x = tag then x\<lparr>rt_digest := d, rt_updated := now, rt_deleted := []\<rparr> else x)"
      unfolding upsert_tag_row_def if_P [OF True] set_map by (rule imageE)
    show ?thesis
    proof (cases "rt_repo x = repo \<and> rt_tag x = tag")
      case True
      then show ?thesis by (simp only: x(2) if_P [OF True]) simp
    next
      case False
      have "t' = x" unfolding x(2) by (rule if_not_P [OF False])
      then show ?thesis using that(2,3) False by blast
    qed
  next
    case False
    then have "t' \<notin> set ts" using that(2,3) by (auto simp: list_ex_iff)
    then show ?thesis using that(1) False by (simp add: upsert_tag_row_def)
  qed
  then have "rt_digest t = d" using find_SomeD [OF t] by simp
  then show ?thesis using t by blast
qed


text \<open>Reading in a registry where nothing fails.\<close>

lemma resolve_calm:
  assumes "rg_fault w = (\<lambda>_. False)"
  shows "resolve_manifest repo ref w =
    (let found = (if has_prefix ref ''sha256:'' then Some ref
           else map_option rt_digest (find (\<lambda>t. rt_repo t = repo \<and> rt_tag t = ref \<and> rt_deleted t = []) (rg_tags w)));
         w' = w\<lparr>rg_calls := rg_calls w + (if has_prefix ref ''sha256:'' then 1 else if found = None then 1 else 2)\<rparr>
     in case found of None \<Rightarrow> (Inl RegNotFound, w')
        | Some d \<Rightarrow> (case find (\<lambda>m. rm_digest m = d \<and> rm_repo m = repo \<and> rm_deleted m = []) (rg_manifests w) of
             None \<Rightarrow> (Inl RegNotFound, w') | Some m \<Rightarrow> (Inr m, w')))"
  using assms
  by (cases "find (\<lambda>t. rt_repo t = repo \<and> rt_tag t = ref \<and> rt_deleted t = []) (rg_tags w)")
    (auto simp: resolve_manifest_def manifest_by_digest_def reg_read_def reg_call_def bindE_def ret_def Let_def split: option.split)

lemma pull_calm:
  assumes "rg_fault w = (\<lambda>_. False)" "settings_ok s" "digest_ok (rm_digest m)" "rm_path m = manifest_key s (rm_digest m)"
    and "\<exists>n. resolve_manifest repo ref w = (Inr m, w\<lparr>rg_calls := n\<rparr>)" "stored_at (manifest_path s (rm_digest m)) data w" "rq_method q = ''GET''"
  shows "\<exists>r w'. pull_manifest s q repo ref w = (Inr r, w') \<and> rp_status r = 200 \<and> rp_body r = data \<and> rp_digest r = rm_digest m"
proof -
  obtain n where n: "resolve_manifest repo ref w = (Inr m, w\<lparr>rg_calls := n\<rparr>)" using assms(5) by blast
  obtain f where f: "map_of (rg_files w) (manifest_path s (rm_digest m)) = Some f" "rf_data f = data"
    using assms(6) by (auto simp: stored_at_def)
  show ?thesis
    using n f assms(1,7)
    by (simp add: pull_manifest_def or_status_def bindE_def Let_def backend_open_def with_path_def assms(4) manifest_safe_path [OF assms(2,3)]
        file_read_def reg_read_def reg_call_def ret_def parse_byte_range_def has_prefix_def trim_space_graphic status_def)
qed

lemma tag_not_digest: "tag_ok ref \<Longrightarrow> \<not> has_prefix ref ''sha256:'' \<and> ref \<noteq> []"
proof -
  assume "tag_ok ref"
  then obtain c t where ref: "ref = c # t" "word_char c" "list_all (\<lambda>c. word_char c \<or> c = CHR ''.'' \<or> c = CHR ''-'') t"
    unfolding tag_ok_def rmatch_lang tag_pattern_def lang_class_seq lang_up_to_class by (cases ref) auto
  have "\<not> word_char (CHR '':'')" by code_simp
  then have "CHR '':'' \<notin> set t" using ref(3) by (auto simp: list_all_iff)
  then show ?thesis using ref(1) by (auto simp: has_prefix_iff)
qed

lemma push_answers:
  assumes "settings_ok s" "\<And>x. digest_ok (sha_digest sha x)" "rg_fault w = (\<lambda>_. False)" "\<forall>n. rg_random w n \<noteq> None"
    and "push_manifest sha s c q repo ref w = (Inr r, w')"
  shows "upserted w (pushed_row sha s c q repo) (pushed_tag ref) w'" "stored_at (manifest_path s (sha_digest sha (rq_body q))) (rq_body q) w'"
    "rp_status r = 201" "rp_digest r = sha_digest sha (rq_body q)"
  using triple_Inr [OF push_calm [OF assms(1,2,4)] _ assms(5)] assms(3) by (simp_all add: calm_rows_def same_rows_def)

text \<open>
  C10: A pull answers what was pushed: when nothing fails, and the content is not known from another repository, a push
  by tag makes both the tag and the digest in its answer resolve to exactly the pushed bytes.
\<close>

theorem push_then_pull:
  assumes "settings_ok s" "\<And>x. digest_ok (sha_digest sha x)" "rg_fault w = (\<lambda>_. False)" "\<forall>n. rg_random w n \<noteq> None" "tag_ok tag"
    and "\<forall>m \<in> set (rg_manifests w). rm_digest m = sha_digest sha (rq_body q) \<longrightarrow> rm_repo m = repo"
    and "push_manifest sha s c q repo tag w = (Inr r, w')" "rq_method q' = ''GET''" "ref = tag \<or> ref = rp_digest r"
  shows "\<exists>r' w2. pull_manifest s q' repo ref w' = (Inr r', w2) \<and> rp_status r' = 200 \<and> rp_body r' = rq_body q \<and> rp_digest r' = rp_digest r"
proof -
  let ?d = "sha_digest sha (rq_body q)" and ?m = "pushed_row sha s c q repo"
  note push = push_answers [OF assms(1,2,3,4,7)]
  have row: "rm_digest ?m = ?d" "rm_repo ?m = repo" "rm_path ?m = manifest_key s ?d" by (simp_all add: pushed_row_def)
  have tag: "pushed_tag tag = tag" "tag \<noteq> []" using tag_not_digest [OF assms(5)] assms(5) by (simp_all add: pushed_tag_def)
  obtain now where calm: "rg_fault w' = (\<lambda>_. False)"
    and rows: "rg_manifests w' = upsert_manifest_row (?m\<lparr>rm_pushed_at := now\<rparr>) (rg_manifests w)"
    and tags: "rg_tags w' = upsert_tag_row repo tag ?d now (rg_tags w)"
    using push(1) tag row by (auto simp: upserted_def)
  obtain m' where m': "find (\<lambda>m. rm_digest m = ?d \<and> rm_repo m = repo \<and> rm_deleted m = []) (rg_manifests w') = Some m'"
      "m' = ?m\<lparr>rm_pushed_at := now, rm_deleted := []\<rparr>"
    using upsert_row_repo [of "rg_manifests w" "?m\<lparr>rm_pushed_at := now\<rparr>"] assms(6) row rows by auto
  obtain t where t: "find (\<lambda>t. rt_repo t = repo \<and> rt_tag t = tag \<and> rt_deleted t = []) (rg_tags w') = Some t" "rt_digest t = ?d"
    using upsert_tag_found [OF tag(2)] unfolding tags by blast
  have "\<exists>n. resolve_manifest repo ref w' = (Inr m', w'\<lparr>rg_calls := n\<rparr>)"
    using assms(9) t m'(1) tag_not_digest [OF assms(5)]
    by (auto simp: resolve_calm [OF calm] Let_def push(4)) (simp_all add: sha_digest_def has_prefix_def)
  then show ?thesis
    using pull_calm [OF calm assms(1), of m' repo ref "rq_body q" q'] assms(2,8) push row m'(2) by simp
qed

text \<open>
  C11: A manifest already known from another repository cannot be pushed: the push is answered 201 and sets the tag, but
  its row keeps the other repository, so every pull from the repository it was pushed to is answered 404.
\<close>

theorem second_repository_push_lost:
  assumes "settings_ok s" "\<And>x. digest_ok (sha_digest sha x)" "rg_fault w = (\<lambda>_. False)" "\<forall>n. rg_random w n \<noteq> None" "tag_ok tag"
    and "\<exists>m \<in> set (rg_manifests w). rm_digest m = sha_digest sha (rq_body q)"
    and "\<forall>m \<in> set (rg_manifests w). rm_digest m = sha_digest sha (rq_body q) \<longrightarrow> rm_repo m \<noteq> repo"
    and "push_manifest sha s c q repo tag w = (Inr r, w')" "ref = tag \<or> ref = rp_digest r"
  shows "rp_status r = 201 \<and> (\<exists>w2. pull_manifest s q' repo ref w' = (Inl (status 404), w2))"
proof -
  let ?d = "sha_digest sha (rq_body q)" and ?m = "pushed_row sha s c q repo"
  note push = push_answers [OF assms(1,2,3,4,8)]
  have row: "rm_digest ?m = ?d" "rm_repo ?m = repo" by (simp_all add: pushed_row_def)
  have tag: "pushed_tag tag = tag" "tag \<noteq> []" using tag_not_digest [OF assms(5)] assms(5) by (simp_all add: pushed_tag_def)
  obtain now where calm: "rg_fault w' = (\<lambda>_. False)"
    and rows: "rg_manifests w' = upsert_manifest_row (?m\<lparr>rm_pushed_at := now\<rparr>) (rg_manifests w)"
    and tags: "rg_tags w' = upsert_tag_row repo tag ?d now (rg_tags w)"
    using push(1) tag row by (auto simp: upserted_def)
  have known: "list_ex (\<lambda>m. rm_digest m = ?d) (rg_manifests w)" using assms(6) by (simp add: list_ex_iff)
  have "\<not> (rm_digest m = ?d \<and> rm_repo m = repo \<and> rm_deleted m = [])" if "m \<in> set (rg_manifests w')" for m
    using upsert_keeps_repo [OF that [unfolded rows]] known assms(7) row(1) by force
  then have none: "find (\<lambda>m. rm_digest m = ?d \<and> rm_repo m = repo \<and> rm_deleted m = []) (rg_manifests w') = None"
    unfolding find_None_iff by blast
  obtain t where t: "find (\<lambda>t. rt_repo t = repo \<and> rt_tag t = tag \<and> rt_deleted t = []) (rg_tags w') = Some t" "rt_digest t = ?d"
    using upsert_tag_found [OF tag(2)] unfolding tags by blast
  have "\<exists>n. resolve_manifest repo ref w' = (Inl RegNotFound, w'\<lparr>rg_calls := n\<rparr>)"
    using assms(9) t none tag_not_digest [OF assms(5)]
    by (auto simp: resolve_calm [OF calm] Let_def push(4)) (simp_all add: sha_digest_def has_prefix_def)
  then show ?thesis using push(3) by (auto simp: pull_manifest_def or_status_def bindE_def)
qed

section \<open>Witnesses\<close>

text \<open>A push of something that is no JSON document to a registry without files.\<close>

lemma push_runs:
  assumes "settings_ok sample_settings" "rg_fault w = (\<lambda>_. False)" "rg_files w = []" "has_scope (rc_scopes c) ''registry.push''" "rq_whole q"
    and "length (rq_body q) \<le> 1000" "decode_doc push_fields (rq_body q) = None"
  shows "\<exists>r w'. push_manifest sample_sha sample_settings c q repo ref w = (Inr r, w')"
proof -
  have limits: "enforce_limits sample_settings repo' tag = ret ()" for repo' tag
    by (simp add: enforce_limits_def sample_settings_def whenE_def seqE_def)
  have "length (rq_body q) \<le> max_manifest_bytes" using assms(6) by (simp add: max_manifest_bytes_def)
  moreover have quota: "check_quota sample_settings (int (length (rq_body q))) w = (Inr (), w\<lparr>rg_calls := Suc (rg_calls w)\<rparr>)"
    using assms(2,3,6)
    by (simp add: check_quota_def sample_settings_def backend_usage_def attempt_def reg_read_def reg_call_def dir_usage_def bindE_def ret_def Let_def
        wrap64_def)
  moreover have "\<exists>w1. backend_put_bytes (rs_dir sample_settings) (manifest_key sample_settings (sha_digest sample_sha (rq_body q))) (rq_body q)
      (w\<lparr>rg_calls := Suc (rg_calls w)\<rparr>) = (Inr (), w1)"
    using assms(2) by (simp add: backend_put_bytes_def with_path_def manifest_safe_path [OF assms(1) sample_digest_ok] file_write_def file_append_def
        reg_write_def reg_call_def seqE_def bindE_def Let_def)
  moreover have "tried (upsert_manifest m tag) w1 = (Inr (fst (upsert_manifest m tag w1)), snd (upsert_manifest m tag w1))" for m tag w1
    by (simp add: tried_def attempt_def split: prod.split)
  ultimately show ?thesis
    using assms(4,5,7)
    by (clarsimp simp: push_manifest_def requires_def seqE_def bindE_def or_status_def ret_def missing_manifest_blob_def limits Let_def)
qed

text \<open>A text with the sample digest of the stored manifest.\<close>

definition sample_put :: reg_request where
  "sample_put = sample_get\<lparr>rq_method := ''PUT'', rq_body := replicate (length layer_text) (CHR ''x'')\<rparr>"

lemma sample_put_facts:
  "has_scope (rc_scopes sample_cred) ''registry.push''" "rq_whole sample_put" "length (rq_body sample_put) \<le> 1000" "tag_ok ''t''"
  "decode_doc push_fields (rq_body sample_put) = None"
  by code_simp+

theorem push_then_pull_witness:
  "\<exists>r w' r' w2. push_manifest sample_sha sample_settings sample_cred sample_put ''r'' ''t'' (sample_registry\<lparr>rg_files := []\<rparr>) = (Inr r, w') \<and>
    pull_manifest sample_settings sample_get ''r'' ''t'' w' = (Inr r', w2) \<and> rp_body r' = rq_body sample_put"
proof -
  let ?w = "sample_registry\<lparr>rg_files := []\<rparr>"
  obtain r w' where push: "push_manifest sample_sha sample_settings sample_cred sample_put ''r'' ''t'' ?w = (Inr r, w')"
    using push_runs [of ?w sample_cred sample_put "''r''" "''t''"] sample_config(1) sample_put_facts by (auto simp: sample_registry_def)
  have w: "rg_fault ?w = (\<lambda>_. False)" "\<forall>n. rg_random ?w n \<noteq> None"
    "\<forall>m \<in> set (rg_manifests ?w). rm_digest m = sha_digest sample_sha (rq_body sample_put) \<longrightarrow> rm_repo m = ''r''"
    by (simp_all add: sample_registry_def sample_row_def)
  show ?thesis
    using push_then_pull [OF sample_config(1) sample_digest_ok w(1,2) sample_put_facts(4) w(3) push, of sample_get "''t''"] push
    by (auto simp: sample_get_def)
qed

theorem second_repository_push_lost_witness:
  "\<exists>r w' w2. push_manifest sample_sha sample_settings sample_cred sample_put ''s'' ''t'' (sample_registry\<lparr>rg_files := []\<rparr>) = (Inr r, w') \<and>
    rp_status r = 201 \<and> pull_manifest sample_settings sample_get ''s'' ''t'' w' = (Inl (status 404), w2)"
proof -
  let ?w = "sample_registry\<lparr>rg_files := []\<rparr>"
  obtain r w' where push: "push_manifest sample_sha sample_settings sample_cred sample_put ''s'' ''t'' ?w = (Inr r, w')"
    using push_runs [of ?w sample_cred sample_put "''s''" "''t''"] sample_config(1) sample_put_facts by (auto simp: sample_registry_def)
  have w: "rg_fault ?w = (\<lambda>_. False)" "\<forall>n. rg_random ?w n \<noteq> None"
    "\<exists>m \<in> set (rg_manifests ?w). rm_digest m = sha_digest sample_sha (rq_body sample_put)"
    "\<forall>m \<in> set (rg_manifests ?w). rm_digest m = sha_digest sample_sha (rq_body sample_put) \<longrightarrow> rm_repo m \<noteq> ''s''"
    by (simp_all add: sample_registry_def sample_row_def sha_digest_def sample_sha_def sample_put_def)
  show ?thesis
    using second_repository_push_lost [OF sample_config(1) sample_digest_ok w(1,2) sample_put_facts(4) w(3,4) push, of "''t''" sample_get] push by auto
qed

text \<open>A push without credentials changes no row.\<close>

theorem request_scope_witness:
  "same_rows sample_registry (snd (serve_registry id sample_sha id [] sample_put sample_registry))"
proof -
  have "\<not> authenticated sample_sha sample_put c sample_registry" for c by (simp add: authenticated_def sample_put_def sample_get_def)
  then show ?thesis using request_scope [where q = sample_put and w = sample_registry and sha = sample_sha and ul = id and pe = id and dd = "[]"] by blast
qed

end
