(* ===== verification/Spec2Isabelle.thy ===== *)
theory Spec2Isabelle
  imports AuthLimiter SupervisorLife SupervisorStatus TaskPool EventHub LogSampler DockerJobs PortfolioTrades DeskPlans AutomationRuns RegistryRequests
begin

text \<open>
  Verification development of phantom-lancer, a self-hosted console written in Go: a main binary
  (\<^verbatim>\<open>cmd/phantom-lancer\<close>: HTTP API, stock research agents, image tools, Docker control, a Codex
  gateway, SQLite storage) and a small supervisor (\<^verbatim>\<open>cmd/phantom-supervisor\<close>) that starts it,
  restarts it and undoes a bad update.  Paths below are relative to \<^verbatim>\<open>src/internal\<close>.

  \<^bold>\<open>Foundations.\<close>
  \<^item> \<open>Prelude\<close>: lists, maps, the error-and-state monad of all stateful code (\<open>bindE\<close>, \<open>seqE\<close>,
    \<open>throw\<close>, \<open>attempt\<close>), the preservation calculus (\<open>keeps\<close>, \<open>returns\<close>) and the locale
    \<open>op_system\<close> for components whose execution is a sequence of atomic operations.
  \<^item> \<open>GoStd\<close>, \<open>GoPath\<close>, \<open>GoTime\<close>, \<open>GoJson\<close>: what the code uses of Go's standard library
    (\<^verbatim>\<open>strings\<close>, \<^verbatim>\<open>strconv\<close>, \<^verbatim>\<open>path/filepath\<close>, \<^verbatim>\<open>time\<close>, \<^verbatim>\<open>encoding/json\<close>).
  \<^item> \<open>GoFloat\<close>: \<^verbatim>\<open>float64\<close> with exact rounding to 53 bits, overflow, infinities and NaN.
  \<^item> \<open>OsModel\<close>: a file system in which every call may fail and which records all intermediate
    states; a crash leaves one of them, so a statement about every recorded state covers crashes.

  \<^bold>\<open>Login back-off.\<close> \<open>AuthLimiter\<close> is \<^verbatim>\<open>authlimiter/limiter.go\<close>: states per account and per address,
  \<open>check\<close>, \<open>record_failure\<close>, \<open>record_success\<close>; lock-outs are bounded and start exactly at the threshold.

  \<^bold>\<open>Self-update.\<close> \<open>UpdateStore\<close> is the tables of \<^verbatim>\<open>storage/storage.go\<close> it uses; \<open>ReleaseCheck\<close> is
  \<^verbatim>\<open>selfupdate/version.go\<close>, \<^verbatim>\<open>github.go\<close>, \<^verbatim>\<open>archive.go\<close>; \<open>Installer\<close> is \<^verbatim>\<open>installer.go\<close>; \<open>SelfUpdate\<close> is
  \<^verbatim>\<open>service.go\<close>, \<^verbatim>\<open>download.go\<close>, \<^verbatim>\<open>handoff.go\<close>, with frame lemmas in \<open>ServiceFrames\<close> and the properties in
  \<open>UpdateLife\<close>.  The lemmas show which release is offered, that an installation starts only from the archive that
  the asset URL answered, with the digest that the checksum URL answered, that the installed binary is old or
  completely new at every crash point with its backup in place, and that the first boot settles the job.

  \<^bold>\<open>Supervisor.\<close> \<open>Supervisor\<close> is \<^verbatim>\<open>supervisor/*.go\<close>, its properties are in \<open>SupervisorLife\<close>: it reads
  back what the service wrote, rolls back only failed updates, paces restarts within its bounds and releases
  its lock.  \<open>SupervisorStatus\<close> is \<^verbatim>\<open>selfupdate/supervisor_status.go\<close>.

  \<^bold>\<open>Concurrent components.\<close> \<open>TaskPool\<close> (\<^verbatim>\<open>stockv2/agent_task_pool.go\<close>), \<open>EventHub\<close>
  (\<^verbatim>\<open>events/hub.go\<close>) and \<open>LogSampler\<close> (\<^verbatim>\<open>logsampler/sampler.go\<close>) run each operation under a lock, so an
  execution is any sequence of operations, and the invariants hold for all sequences.
  \<open>DockerJobs\<close> (\<^verbatim>\<open>dockercontrol/jobs.go\<close>) is a step relation in which requests and goroutines interleave.

  \<^bold>\<open>Portfolios.\<close> \<open>Ledger\<close> is the tables of \<^verbatim>\<open>stockv2/repository.go\<close>,
  \<^verbatim>\<open>portfolio_transaction_repository.go\<close> and \<^verbatim>\<open>portfolio_snapshot_repository.go\<close> with their constraints,
  failing statements and transactions; \<open>Portfolio\<close> is the operations of \<^verbatim>\<open>stockv2/service.go\<close> and
  \<^verbatim>\<open>portfolio_valuation_service.go\<close>.  \<open>PortfolioLaws\<close> keeps the constraints through every operation,
  \<open>PortfolioBook\<close> has the abstract account book (cash, positions, trades), and \<open>PortfolioTrades\<close> shows that a
  recorded trade is the book's operation or nothing, that no position gets short, empty or double, that the
  rows are what the service's checks admit, and that a valuation saved late undoes a trade's position.

  \<^bold>\<open>The desk.\<close> What surrounds the portfolios of \<^verbatim>\<open>stockv2\<close>: \<open>AnyValue\<close> is untyped values and their JSON columns,
  \<open>Guardrails\<close> is \<^verbatim>\<open>execution_guardrails.go\<close>, \<open>Desk\<close> is the tables and how statements and transactions run on them,
  \<open>Strategies\<close> is \<^verbatim>\<open>strategy_service.go\<close> and \<^verbatim>\<open>strategy_repository.go\<close>, \<open>ReviewTables\<close> is \<^verbatim>\<open>review_repository.go\<close>
  with the statements on hits and alerts, \<open>Reviews\<close> is \<^verbatim>\<open>review_service.go\<close> and \<^verbatim>\<open>review_action_service.go\<close>,
  \<open>Watches\<close> is \<^verbatim>\<open>watch_service.go\<close>, \<^verbatim>\<open>watch_repository.go\<close> and \<^verbatim>\<open>watch_evaluator.go\<close>.  \<open>DeskLaws\<close> states as locales
  which parts of the desk a group of operations cannot see; \<open>DeskRuns\<close> has the run of all operations (one after the
  other) and shows that a decision on a review is final, \<open>DeskTrades\<close> that accepted operations never overdraw a
  portfolio, \<open>DeskPlans\<close> how versions of strategies are numbered.

  \<^bold>\<open>Codex automations.\<close> \<open>Cron\<close> is \<^verbatim>\<open>codexclient/cron.go\<close>, whose search is shown to end with the earliest
  admitted minute; \<open>RunPolicy\<close> is \<^verbatim>\<open>policy.go\<close> without its path checks; \<open>CodexTables\<close> is the tables of
  \<^verbatim>\<open>storage/codex_cli.go\<close> that automations use; \<open>Automations\<close> is \<^verbatim>\<open>p2.go\<close> (creation, changes, manual and
  scheduled runs, retries, time-outs, completion) with the thread and turn operations of \<^verbatim>\<open>service.go\<close>.
  \<open>AutomationRuns\<close> states, as the locale \<open>codex_invariant\<close>, which laws an invariant of the tables needs and
  derives that every request and tick keeps it; its interpretations give that automations only queue
  read-only turns and that a request runs at most once.

  \<^bold>\<open>Docker registry.\<close> \<open>GoRegexp\<close> is the regular expressions of Go the code uses; \<open>RegistryNames\<close> is the names, keys and
  ranges of \<^verbatim>\<open>dockercontrol/registry.go\<close>; \<open>RegistryTables\<close> is \<^verbatim>\<open>storage/docker_registry.go\<close>; \<open>Registry\<close> is the
  \<^verbatim>\<open>/v2/\<close> endpoint over the local backend, with the login limiter of \<open>AuthLimiter\<close>, deletions and garbage
  collection; \<open>RegistryPaths\<close> shows that blobs, manifests and uploads never share a path.  \<open>RegistryLaws\<close> states, as
  the locale \<open>registry_invariant\<close>, which laws an invariant of files and rows needs and derives that every request,
  deletion and collection keeps it, with any failures; \<open>RegistryRuns\<close> has its two instances, that blobs are what
  their digests name and that the blobs of active manifests are kept, and the answers that rest on them;
  \<open>RegistryRequests\<close> shows whose rows a request may change and what a pull answers after a push.

  \<^bold>\<open>Conventions.\<close>
  \<^item> A Go string is a list of characters read as bytes.  Messages that are Chinese in the source are
    given in English; no statement depends on them beyond being non-empty.
  \<^item> Unicode case maps, SHA-256, HTTP answers, the tar and gzip decoders, the output of a staged binary's
    \<^verbatim>\<open>--version\<close>, the SQLite backup, process creation and signals are parameters, or scripts of outcomes.
  \<^item> \<^verbatim>\<open>int64\<close> arithmetic that can overflow is written with \<open>wrap64\<close>; times are nanoseconds.
  \<^item> A cancelled context is a number of database calls after which each fails (\<open>sv_cancel_at\<close>).
  \<^item> Random identifiers come from a supply and are taken to be new where a statement says so.
  \<^item> The removal order of backups is computed before the removals, as its result does not depend on them.
  \<^item> The JSON decoder carries fuel equal to the length of its input, one unit for each nested value or
    separator; the depth limit of Go's decoder is not modelled.
  \<^item> SQL statements fail at the calls of \<open>st_fault\<close>; a failing commit leaves the state before the
    transaction.  SQLite stores a NaN as NULL.  Rows are ordered by the instants in their columns.
  \<^item> Times in the Codex tables are texts and are compared as texts, as their SQL does.  Messages sent for
    information (notifications, audit entries, thread events) are left out where the code ignores their
    failure.  A Go panic is an error value that no handler of errors catches.
  \<^item> The sign of a floating-point zero is not represented, and products are not fused with sums (as on
    amd64).  Quotes and the master data of instruments are parameters.
  \<^item> The supervisor's main loop takes a script of iterations (exit codes, times, stop requests); the
    loop ends where the script does, as a stop request would end it.

  \<^bold>\<open>Not modelled.\<close>  HTTP handlers, templates and wire formats; in \<^verbatim>\<open>stockv2\<close>, the research agents, news, scheduled
  monitors, opportunities, the generation of strategies and market data; calls to models, registries, object stores, news and
  quote sources; SQL statements of the other tables; configuration and logging.  The manifest lists each with its reason.
  Smaller omissions: a directory entry whose \<^verbatim>\<open>Info\<close> fails is not skipped by the pruning of backups; the run of the
  staged binary cannot be cancelled; concurrent requests to the registry and to the desk are taken one after the other.
\<close>

end
